(* ===== verification/Prelude.thy ===== *)
theory Prelude
  imports Complex_Main "HOL-Library.Sublist"
begin

text \<open>
  Shared vocabulary of the development: Python strings, results and JSON documents.

  A Python \<open>str\<close> is a \<^typ>\<open>string\<close>, the list of its code points, for code points below
  256; \<open>char\<close> is exactly that range. A raised exception is the left value of a sum, the
  returned value the right one. A value read with \<open>json.loads\<close> is a \<open>json\<close>; a JSON
  number with a fraction or an exponent is its value.
\<close>

named_theorems text_simps \<open>evaluation of the string operations\<close>

section \<open>Results\<close>

text \<open>
  The exceptions the modelled code raises or catches by class. \<open>StoreError\<close> is any failure of an
  external service (the key-value store, the database, the broker), which the code catches, if at
  all, as \<open>Exception\<close>.
\<close>

datatype py_error = ValueError | KeyError | TypeError | RuntimeError | StoreError | CompanySuspended | OverflowError

type_synonym 'a result = "py_error + 'a"

definition res_map :: "('a \<Rightarrow> 'b) \<Rightarrow> 'e + 'a \<Rightarrow> 'e + 'b" where
  "res_map f r = (case r of Inl e \<Rightarrow> Inl e | Inr x \<Rightarrow> Inr (f x))"

lemma res_map_simps [simp]:
  "res_map f (Inl e) = Inl e" "res_map f (Inr x) = Inr (f x)"
  by (simp_all add: res_map_def)

lemma res_map_eq_Inr [simp]: "res_map f r = Inr y \<longleftrightarrow> (\<exists>x. r = Inr x \<and> y = f x)"
  by (cases r) auto

lemma res_map_eq_Inl [simp]: "res_map f r = Inl e \<longleftrightarrow> r = Inl e"
  by (cases r) auto

section \<open>Floor division\<close>

lemma int_le_div_iff:
  fixes a b k :: int
  assumes "0 < b"
  shows "k \<le> a div b \<longleftrightarrow> k * b \<le> a"
proof
  have a: "a = (a div b) * b + a mod b" by simp
  assume "k \<le> a div b"
  then have "k * b \<le> (a div b) * b" using assms by (simp add: mult_right_mono)
  then show "k * b \<le> a" using a pos_mod_sign [OF assms, of a] by linarith
next
  assume "k * b \<le> a"
  then have "(k * b) div b \<le> a div b" using assms by (rule zdiv_mono1)
  then show "k \<le> a div b" using assms by simp
qed

section \<open>Strings\<close>

subsection \<open>Prefixes\<close>

definition starts_with :: "'a list \<Rightarrow> 'a list \<Rightarrow> bool" where
  "starts_with s p \<longleftrightarrow> take (length p) s = p"

definition ends_with :: "'a list \<Rightarrow> 'a list \<Rightarrow> bool" where
  "ends_with s p \<longleftrightarrow> starts_with (rev s) (rev p)"

lemma starts_with_iff: "starts_with s p \<longleftrightarrow> (\<exists>t. s = p @ t)"
  unfolding starts_with_def by (metis append_eq_conv_conj append_take_drop_id)

lemma starts_with_append [simp]: "starts_with (p @ t) p"
  by (simp add: starts_with_def)

lemma starts_with_Nil [simp]: "starts_with s []" "starts_with [] p \<longleftrightarrow> p = []"
  by (auto simp: starts_with_def)

lemma starts_with_refl [simp]: "starts_with s s"
  by (simp add: starts_with_def)

lemma starts_with_Cons [simp]:
  "starts_with (x # s) (y # p) \<longleftrightarrow> x = y \<and> starts_with s p"
  "\<not> starts_with [] (y # p)"
  by (auto simp: starts_with_def)

lemma starts_with_same_length:
  "length p = length q \<Longrightarrow> starts_with s p \<Longrightarrow> starts_with s q \<Longrightarrow> p = q"
  by (simp add: starts_with_def)

lemma starts_with_drop: "starts_with s p \<Longrightarrow> p @ drop (length p) s = s"
  by (auto simp: starts_with_iff)

lemma starts_with_length: "starts_with s p \<Longrightarrow> length p \<le> length s"
  by (auto simp: starts_with_iff)

lemma ends_with_iff: "ends_with s p \<longleftrightarrow> (\<exists>t. s = t @ p)"
proof -
  have "(\<exists>t. rev s = rev p @ t) \<longleftrightarrow> (\<exists>t. s = t @ p)"
    by (metis rev_append rev_rev_ident)
  then show ?thesis by (simp add: ends_with_def starts_with_iff)
qed

subsection \<open>\<open>str.replace\<close>, \<open>strip\<close>, \<open>split\<close>\<close>

text \<open>\<open>s.replace(old, new)\<close> for a non-empty \<open>old\<close>: left to right, without overlaps.\<close>

function py_replace :: "'a list \<Rightarrow> 'a list \<Rightarrow> 'a list \<Rightarrow> 'a list" where
  "py_replace old new s =
     (if old = [] \<or> s = [] then s
      else if starts_with s old then new @ py_replace old new (drop (length old) s)
      else hd s # py_replace old new (tl s))"
  by pat_completeness auto
termination
  by (relation "measure (\<lambda>(old, new, s). length s)") (auto simp: neq_Nil_conv)

declare py_replace.simps [simp del]

lemma py_replace_Nil [simp]: "py_replace old new [] = []"
  by (simp add: py_replace.simps)

lemma py_replace_char:
  "py_replace [c] new s = concat (map (\<lambda>x. if x = c then new else [x]) s)"
proof (induction s)
  case (Cons x s)
  have "py_replace [c] new (x # s) =
      (if x = c then new @ py_replace [c] new s else x # py_replace [c] new s)"
    by (subst py_replace.simps) simp
  with Cons show ?case by simp
qed simp

lemma py_replace_delete: "py_replace [c] [] s = filter (\<lambda>x. x \<noteq> c) s"
  unfolding py_replace_char by (induction s) auto

lemma py_replace_map: "py_replace [c] [d] s = map (\<lambda>x. if x = c then d else x) s"
  unfolding py_replace_char by (induction s) auto

lemma py_replace_absent: "c \<notin> set s \<Longrightarrow> py_replace (c # cs) new s = s"
proof (induction s)
  case (Cons x s)
  then have "\<not> starts_with (x # s) (c # cs)" by auto
  then have "py_replace (c # cs) new (x # s) = x # py_replace (c # cs) new s"
    by (subst py_replace.simps) auto
  with Cons show ?case by simp
qed simp

definition lstrip_chars :: "'a list \<Rightarrow> 'a list \<Rightarrow> 'a list" where
  "lstrip_chars cs s = dropWhile (\<lambda>c. c \<in> set cs) s"

definition rstrip_chars :: "'a list \<Rightarrow> 'a list \<Rightarrow> 'a list" where
  "rstrip_chars cs s = rev (dropWhile (\<lambda>c. c \<in> set cs) (rev s))"

definition strip_chars :: "'a list \<Rightarrow> 'a list \<Rightarrow> 'a list" where
  "strip_chars cs s = rstrip_chars cs (lstrip_chars cs s)"

lemma lstrip_chars_id: "s = [] \<or> hd s \<notin> set cs \<Longrightarrow> lstrip_chars cs s = s"
  by (cases s) (auto simp: lstrip_chars_def)

lemma rstrip_chars_id: "s = [] \<or> last s \<notin> set cs \<Longrightarrow> rstrip_chars cs s = s"
  by (cases s rule: rev_cases) (auto simp: rstrip_chars_def)

lemma strip_chars_id: "s = [] \<or> hd s \<notin> set cs \<and> last s \<notin> set cs \<Longrightarrow> strip_chars cs s = s"
  unfolding strip_chars_def using lstrip_chars_id rstrip_chars_id by metis

lemma lstrip_chars_idem [simp]: "lstrip_chars cs (lstrip_chars cs s) = lstrip_chars cs s"
  by (simp add: lstrip_chars_def)

lemma rstrip_chars_prefix: "\<exists>t. s = rstrip_chars cs s @ t \<and> set t \<subseteq> set cs"
proof -
  let ?P = "\<lambda>c. c \<in> set cs"
  have "rev (rev s) = rev (dropWhile ?P (rev s)) @ rev (takeWhile ?P (rev s))"
    by (metis rev_append takeWhile_dropWhile_id)
  then have "s = rstrip_chars cs s @ rev (takeWhile ?P (rev s))"
    by (simp add: rstrip_chars_def)
  moreover have "set (rev (takeWhile ?P (rev s))) \<subseteq> set cs"
    by (auto dest: set_takeWhileD)
  ultimately show ?thesis by blast
qed

text \<open>\<open>s.split(c)\<close> on a one-character separator: always at least one piece.\<close>

fun split_on :: "'a \<Rightarrow> 'a list \<Rightarrow> 'a list list" where
  "split_on c [] = [[]]"
| "split_on c (x # xs) =
     (if x = c then [] # split_on c xs
      else (case split_on c xs of [] \<Rightarrow> [[x]] | y # ys \<Rightarrow> (x # y) # ys))"

fun join_on :: "'a list \<Rightarrow> 'a list list \<Rightarrow> 'a list" where
  "join_on c [] = []"
| "join_on c [x] = x"
| "join_on c (x # y # ys) = x @ c @ join_on c (y # ys)"

lemma split_on_not_Nil [simp]: "split_on c s \<noteq> []"
  by (induction s) (auto split: list.splits)

lemma join_split_on: "join_on [c] (split_on c s) = s"
proof (induction s)
  case (Cons x s)
  obtain y ys where sp: "split_on c s = y # ys" by (meson neq_Nil_conv split_on_not_Nil)
  with Cons show ?case by (cases ys) auto
qed simp

lemma split_on_no_sep: "c \<notin> set s \<Longrightarrow> split_on c s = [s]"
  by (induction s) auto

lemma split_on_append:
  "split_on c (s @ c # t) = split_on c s @ split_on c t"
  by (induction s) (auto split: list.splits)

lemma split_on_pieces: "p \<in> set (split_on c s) \<Longrightarrow> c \<notin> set p"
proof (induction s arbitrary: p)
  case (Cons x s)
  obtain y ys where sp: "split_on c s = y # ys" by (meson neq_Nil_conv split_on_not_Nil)
  from Cons.prems sp show ?case
    using Cons.IH [unfolded sp] by (auto split: if_splits)
qed simp

subsection \<open>Characters of Python's \<open>str\<close> below code point 256\<close>

definition ord :: "char \<Rightarrow> int" where
  "ord c = of_char c"

text \<open>\<open>unicodedata.category(c) == "Cc"\<close>.\<close>

definition is_control :: "char \<Rightarrow> bool" where
  "is_control c \<longleftrightarrow> ord c < 32 \<or> (127 \<le> ord c \<and> ord c < 160)"

text \<open>\<open>str.isspace\<close>, which is what \<open>str.strip()\<close> removes.\<close>

definition is_space :: "char \<Rightarrow> bool" where
  "is_space c \<longleftrightarrow> (9 \<le> ord c \<and> ord c \<le> 13) \<or> (28 \<le> ord c \<and> ord c \<le> 32) \<or> ord c = 133 \<or> ord c = 160"

definition py_strip :: "string \<Rightarrow> string" where
  "py_strip s = rev (dropWhile is_space (rev (dropWhile is_space s)))"

text \<open>\<open>str.lower\<close> below code point 256: a capital's small letter is 32 code points on, which sets
  bit 5.\<close>

definition char_lower :: "char \<Rightarrow> char" where
  "char_lower c =
     (let n = ord c
      in if 65 \<le> n \<and> n \<le> 90 \<or> 192 \<le> n \<and> n \<le> 222 \<and> n \<noteq> 215 
         then (case c of Char b0 b1 b2 b3 b4 b5 b6 b7 \<Rightarrow> Char b0 b1 b2 b3 b4 True b6 b7) else c)"

definition py_lower :: "string \<Rightarrow> string" where
  "py_lower s = map char_lower s"

section \<open>HTTP answers\<close>

text \<open>An \<open>HTTPException\<close>: the status and the detail.\<close>

datatype http_error = HTTPException int string

section \<open>Floats\<close>

text \<open>
  A float is a number (rounding is not modelled, a float is its exact value) or one of the values
  that compare unlike numbers.
\<close>

datatype py_float = Fin rat | PInf | NInf | NaN

fun float_le :: "py_float \<Rightarrow> py_float \<Rightarrow> bool" where
  "float_le NaN y = False"
| "float_le x NaN = False"
| "float_le NInf y = True"
| "float_le x PInf = True"
| "float_le (Fin a) (Fin b) = (a \<le> b)"
| "float_le x y = False"

fun float_plus :: "py_float \<Rightarrow> rat \<Rightarrow> py_float" where
  "float_plus (Fin a) b = Fin (a + b)"
| "float_plus x b = x"

section \<open>JSON documents\<close>

datatype json =
    JNull
  | JBool bool
  | JInt int
  | JFloat py_float
  | JStr string
  | JArr "json list"
  | JObj "(string \<times> json) list"

type_synonym jobject = "(string \<times> json) list"

text \<open>\<open>d.get(k)\<close> on a parsed object, and \<open>d.get(k, default)\<close>.\<close>

definition jget :: "jobject \<Rightarrow> string \<Rightarrow> json" where
  "jget d k = (case map_of d k of None \<Rightarrow> JNull | Some v \<Rightarrow> v)"

definition jget_default :: "jobject \<Rightarrow> string \<Rightarrow> json \<Rightarrow> json" where
  "jget_default d k v = (case map_of d k of None \<Rightarrow> v | Some w \<Rightarrow> w)"

text \<open>Python truth of a parsed value (\<open>bool(v)\<close>, \<open>v or w\<close>, \<open>not v\<close>).\<close>

fun truthy :: "json \<Rightarrow> bool" where
  "truthy JNull = False"
| "truthy (JBool b) = b"
| "truthy (JInt i) = (i \<noteq> 0)"
| "truthy (JFloat x) = (x \<noteq> Fin 0)"
| "truthy (JStr s) = (s \<noteq> [])"
| "truthy (JArr xs) = (xs \<noteq> [])"
| "truthy (JObj d) = (d \<noteq> [])"

subsection \<open>\<open>str(v)\<close> of a parsed value\<close>

function show_nat :: "int \<Rightarrow> string" where
  "show_nat n =
     (if n < 10 then [char_of (48 + n)] else show_nat (n div 10) @ [char_of (48 + n mod 10)])"
  by pat_completeness auto
termination
  by (relation "measure nat") auto

declare show_nat.simps [simp del]

definition show_int :: "int \<Rightarrow> string" where
  "show_int i = (if i < 0 then ''-'' @ show_nat (- i) else show_nat i)"

definition pad_zeros :: "nat \<Rightarrow> string \<Rightarrow> string" where
  "pad_zeros n s = replicate (n - length s) (CHR ''0'') @ s"

definition hex_char :: "int \<Rightarrow> char" where
  "hex_char d = char_of (if d < 10 then 48 + d else 87 + d)"

text \<open>
  \<open>repr\<close> of a float, in positional notation: the whole part, a point and up to 17 digits of the
  fraction without trailing zeros. (The exponent Python writes for very large and very small numbers
  is not reproduced; the code only ever takes \<open>str\<close> of such a value to find that it is no identifier.)
\<close>

fun fraction_digits :: "nat \<Rightarrow> rat \<Rightarrow> string" where
  "fraction_digits 0 q = []"
| "fraction_digits (Suc n) q =
     (if q = 0 then [] else char_of (48 + \<lfloor>10 * q\<rfloor>) # fraction_digits n (10 * q - of_int \<lfloor>10 * q\<rfloor>))"

fun float_repr :: "py_float \<Rightarrow> string" where
  "float_repr (Fin q) =
     (let a = \<bar>q\<bar>; d = fraction_digits 17 (a - of_int \<lfloor>a\<rfloor>)
      in (if q < 0 then ''-'' else []) @ show_nat \<lfloor>a\<rfloor> @ ''.'' @ (if d = [] then ''0'' else d))"
| "float_repr PInf = ''inf''"
| "float_repr NInf = ''-inf''"
| "float_repr NaN = ''nan''"

text \<open>\<open>repr\<close> of a string: single quotes unless only they occur, and escapes for the rest.\<close>

definition repr_char :: "char \<Rightarrow> char \<Rightarrow> string" where
  "repr_char q c =
     (if c = q \<or> ord c = 92 then [CHR 0x5C, c]
      else if ord c = 10 then [CHR 0x5C, CHR ''n'']
      else if ord c = 13 then [CHR 0x5C, CHR ''r'']
      else if ord c = 9 then [CHR 0x5C, CHR ''t'']
      else if ord c < 32 \<or> (127 \<le> ord c \<and> ord c \<le> 160) \<or> ord c = 173
      then [CHR 0x5C, CHR ''x'', hex_char (ord c div 16), hex_char (ord c mod 16)]
      else [c])"

definition repr_str :: "string \<Rightarrow> string" where
  "repr_str s =
     (let q = (if CHR 0x27 \<in> set s \<and> CHR 0x22 \<notin> set s
               then CHR 0x22 else CHR 0x27)
      in [q] @ concat (map (repr_char q) s) @ [q])"

fun py_repr :: "json \<Rightarrow> string" where
  "py_repr JNull = ''None''"
| "py_repr (JBool b) = (if b then ''True'' else ''False'')"
| "py_repr (JInt i) = show_int i"
| "py_repr (JFloat x) = float_repr x"
| "py_repr (JStr s) = repr_str s"
| "py_repr (JArr xs) = ''['' @ join_on '', '' (map py_repr xs) @ '']''"
| "py_repr (JObj d) = ''{'' @ join_on '', '' (map (\<lambda>(k, v). repr_str k @ '': '' @ py_repr v) d) @ ''}''"

definition py_str :: "json \<Rightarrow> string" where
  "py_str v = (case v of JStr s \<Rightarrow> s | _ \<Rightarrow> py_repr v)"

lemma py_str_JStr [simp]: "py_str (JStr s) = s"
  by (simp add: py_str_def)

section \<open>Stored texts\<close>

text \<open>
  A text kept in the key-value store or carried by a message, as what the code can read in it: the
  text of a JSON object, a text \<open>float\<close> reads, another JSON text, or neither.
\<close>

datatype raw = RObj jobject | RNum py_float | RJson json | RText string

text \<open>The text itself. (That of a JSON value is written as \<open>repr\<close> writes it; the code looks at a stored
  text itself only when it is neither JSON nor a number.)\<close>

fun raw_text :: "raw \<Rightarrow> string" where
  "raw_text (RText s) = s"
| "raw_text (RNum x) = float_repr x"
| "raw_text (RJson v) = py_repr v"
| "raw_text (RObj d) = py_repr (JObj d)"

fun raw_float :: "raw \<Rightarrow> py_float option" where
  "raw_float (RNum x) = Some x"
| "raw_float r = None"

text \<open>\<open>json.loads\<close> followed by the test that the value is a dict: the object, or None.\<close>

fun raw_object :: "raw \<Rightarrow> jobject option" where
  "raw_object (RObj d) = Some d"
| "raw_object (RJson (JObj d)) = Some d"
| "raw_object r = None"

text \<open>A \<open>datetime\<close>: the clock reading, in seconds since the epoch's date, and the offset from UTC
  when it is aware.\<close>

record datetime =
  local_seconds :: rat
  utc_offset :: "rat option"

abbreviation noon :: datetime where
  "noon \<equiv> \<lparr>local_seconds = 43200, utc_offset = Some 0\<rparr>"

text \<open>The datetimes Python has: the years 1 to 9999.\<close>

definition MIN_TIME :: rat where "MIN_TIME = - 62135596800"
definition MAX_TIME :: rat where "MAX_TIME = 253402300800"

section \<open>Calls to other processes\<close>

text \<open>
  A call is answered, or fails, or is where the calling process dies; in the last two the flag is whether the
  callee carried it out.
\<close>

datatype answer = Answered | Failed bool | Dead bool

section \<open>Insertion-ordered dictionaries\<close>

text \<open>
  \<open>collections.OrderedDict\<close> and the plain \<open>dict\<close> where the code depends on the order: the
  pairs, oldest first, each key once. Assignment keeps the place of a key that is present.
\<close>

type_synonym ('k, 'v) od = "('k \<times> 'v) list"

abbreviation (input) od_get :: "('k, 'v) od \<Rightarrow> 'k \<Rightarrow> 'v option" where
  "od_get \<equiv> map_of"

fun od_set :: "('k, 'v) od \<Rightarrow> 'k \<Rightarrow> 'v \<Rightarrow> ('k, 'v) od" where
  "od_set [] k v = [(k, v)]"
| "od_set ((k', v') # d) k v = (if k' = k then (k, v) # d else (k', v') # od_set d k v)"

definition od_del :: "('k, 'v) od \<Rightarrow> 'k \<Rightarrow> ('k, 'v) od" where
  "od_del d k = filter (\<lambda>(k', v). k' \<noteq> k) d"

definition od_move_to_end :: "('k, 'v) od \<Rightarrow> 'k \<Rightarrow> ('k, 'v) od" where
  "od_move_to_end d k = (case map_of d k of None \<Rightarrow> d | Some v \<Rightarrow> od_del d k @ [(k, v)])"

text \<open>\<open>while len(d) > n: d.popitem(last=False)\<close>.\<close>

definition od_evict :: "nat \<Rightarrow> ('k, 'v) od \<Rightarrow> ('k, 'v) od" where
  "od_evict n d = drop (length d - n) d"

definition od_wf :: "('k, 'v) od \<Rightarrow> bool" where
  "od_wf d \<longleftrightarrow> distinct (map fst d)"

lemma od_get_set [simp]: "od_get (od_set d k v) k' = (if k' = k then Some v else od_get d k')"
  by (induction d k v rule: od_set.induct) auto

lemma od_get_del [simp]: "od_get (od_del d k) k' = (if k' = k then None else od_get d k')"
  by (induction d) (auto simp: od_del_def)

lemma keys_od_set: "fst ` set (od_set d k v) = insert k (fst ` set d)"
  by (induction d k v rule: od_set.induct) auto

lemma od_wf_set [simp]: "od_wf d \<Longrightarrow> od_wf (od_set d k v)"
  unfolding od_wf_def
proof (induction d k v rule: od_set.induct)
  case (2 k' v' d k v)
  then show ?case using keys_od_set [of d k v] by auto
qed simp

lemma od_wf_del [simp]: "od_wf d \<Longrightarrow> od_wf (od_del d k)"
  unfolding od_wf_def od_del_def by (induction d) auto

lemma od_wf_move [simp]: "od_wf d \<Longrightarrow> od_wf (od_move_to_end d k)"
  using od_wf_del [of d k]
  by (auto simp: od_move_to_end_def od_wf_def od_del_def split: option.splits)

lemma od_wf_evict [simp]: "od_wf d \<Longrightarrow> od_wf (od_evict n d)"
  by (simp add: od_wf_def od_evict_def distinct_drop flip: drop_map)

lemma length_od_evict [simp]: "length (od_evict n d) = min n (length d)"
  by (simp add: od_evict_def)

lemma od_get_move [simp]: "od_get (od_move_to_end d k) k' = od_get d k'"
  by (auto simp: od_move_to_end_def map_add_def split: option.splits)

lemma od_get_evict_subset: "od_wf d \<Longrightarrow> od_get (od_evict n d) k = Some v \<Longrightarrow> od_get d k = Some v"
  unfolding od_wf_def od_evict_def
  by (metis in_set_dropD map_of_SomeD map_of_eq_Some_iff)

lemma length_od_set:
  "length (od_set d k v) = (if k \<in> fst ` set d then length d else Suc (length d))"
  by (induction d k v rule: od_set.induct) auto

lemma od_del_absent: "k \<notin> fst ` set d \<Longrightarrow> od_del d k = d"
  by (induction d) (auto simp: od_del_def)

lemma length_od_del:
  assumes "od_wf d"
  shows "length (od_del d k) = (if k \<in> fst ` set d then length d - 1 else length d)"
  using assms
proof (induction d)
  case (Cons e d)
  obtain k' v where e: "e = (k', v)" by force
  with Cons have IH: "length (od_del d k) = (if k \<in> fst ` set d then length d - 1 else length d)"
    by (simp add: od_wf_def)
  show ?case
  proof (cases "k' = k")
    case True
    with Cons.prems e have "k \<notin> fst ` set d" by (auto simp: od_wf_def)
    with True e show ?thesis using od_del_absent by (fastforce simp: od_del_def)
  next
    case False
    with e IH show ?thesis by (cases d) (auto simp: od_del_def)
  qed
qed (simp add: od_del_def)

lemma length_od_move [simp]:
  assumes "od_wf d"
  shows "length (od_move_to_end d k) = length d"
proof (cases "od_get d k")
  case (Some v)
  then have "k \<in> fst ` set d" by (metis domI dom_map_of_conv_image_fst)
  with Some length_od_del [OF assms, of k] show ?thesis
    by (cases d) (auto simp: od_move_to_end_def)
qed (simp add: od_move_to_end_def)

text \<open>The idiom of the bounded caches: assign, make it the newest, drop the oldest.\<close>

definition od_put :: "nat \<Rightarrow> ('k, 'v) od \<Rightarrow> 'k \<Rightarrow> 'v \<Rightarrow> ('k, 'v) od" where
  "od_put n d k v = od_evict n (od_move_to_end (od_set d k v) k)"

lemma od_put_wf [simp]: "od_wf d \<Longrightarrow> od_wf (od_put n d k v)"
  by (simp add: od_put_def)

lemma od_put_bound: "length (od_put n d k v) \<le> n"
  by (simp add: od_put_def)

lemma od_put_get:
  assumes "0 < n"
  shows "od_get (od_put n d k v) k = Some v"
proof -
  let ?m = "od_del (od_set d k v) k"
  have "od_move_to_end (od_set d k v) k = ?m @ [(k, v)]" by (simp add: od_move_to_end_def)
  then have "od_put n d k v = drop (length ?m + 1 - n) ?m @ [(k, v)]"
    using assms by (simp add: od_put_def od_evict_def)
  moreover have "od_get (drop (length ?m + 1 - n) ?m) k = None"
    by (metis (no_types, lifting) in_set_dropD map_of_SomeD not_Some_eq od_get_del weak_map_of_SomeI)
  ultimately show ?thesis by (simp add: map_add_def)
qed

lemma od_put_other:
  assumes "od_wf d" "od_get (od_put n d k v) k' = Some w" "k' \<noteq> k"
  shows "od_get d k' = Some w"
  using od_get_evict_subset [of "od_move_to_end (od_set d k v) k" n k' w] assms
  by (simp add: od_put_def)

end
