(* ===== verification/Windows.thy ===== *)
theory Windows
  imports Prelude
begin

text \<open>
  \<open>libs/industryflow_contracts/industryflow_contracts/windows.py\<close>, the aggregation windows, and
  \<open>services/spark_jobs/aggregation_windows.py\<close>, the form the Spark job takes them in. An event
  time is in whole seconds.

  Shown: \<open>latest_emitted_window\<close> is the newest window whose row append-mode emission has
  written, for every granularity of the contract, and no other granularity has one.
\<close>

record Window =
  table :: string
  width_seconds :: int
  lateness_seconds :: int

definition WINDOWS :: "(string, Window) od" where
  "WINDOWS =
    [(''1min'', \<lparr>table = ''sensor_aggregations_1min'', width_seconds = 60, lateness_seconds = 120\<rparr>),
     (''5min'', \<lparr>table = ''sensor_aggregations_5min'', width_seconds = 300, lateness_seconds = 600\<rparr>),
     (''1hour'', \<lparr>table = ''sensor_aggregations_1hour'', width_seconds = 3600, lateness_seconds = 900\<rparr>)]"

definition DEFAULT_GRANULARITY :: string where
  "DEFAULT_GRANULARITY = ''1min''"

definition window :: "string \<Rightarrow> Window result" where
  "window granularity =
     (case od_get WINDOWS granularity of None \<Rightarrow> Inl ValueError | Some w \<Rightarrow> Inr w)"

definition latest_emitted_window :: "int \<Rightarrow> string \<Rightarrow> int result" where
  "latest_emitted_window epoch_seconds granularity =
     res_map (\<lambda>w. (epoch_seconds - lateness_seconds w) div width_seconds w - 1) (window granularity)"

section \<open>The Spark job's view\<close>

definition AGGREGATION_WINDOWS :: "(string, string \<times> int \<times> int) od" where
  "AGGREGATION_WINDOWS = map (\<lambda>(g, w). (g, table w, width_seconds w, lateness_seconds w)) WINDOWS"

definition window_duration :: "string \<Rightarrow> string result" where
  "window_duration granularity =
     res_map (\<lambda>w. show_int (width_seconds w) @ '' seconds'') (window granularity)"

definition watermark_delay :: "string \<Rightarrow> string result" where
  "watermark_delay granularity =
     res_map (\<lambda>w. show_int (lateness_seconds w) @ '' seconds'') (window granularity)"

definition table_name :: "string \<Rightarrow> string result" where
  "table_name granularity = res_map table (window granularity)"

section \<open>Emission\<close>

text \<open>
  Append-mode emission as the contract describes it: window \<open>m\<close> covers
  \<open>[m * width, (m + 1) * width)\<close> and is written once the watermark, the event time less the
  allowed lateness, reaches its end.
\<close>

definition emitted :: "Window \<Rightarrow> int \<Rightarrow> int \<Rightarrow> bool" where
  "emitted w t m \<longleftrightarrow> (m + 1) * width_seconds w \<le> t - lateness_seconds w"

lemma window_width_pos: "window g = Inr w \<Longrightarrow> 0 < width_seconds w \<and> 0 < lateness_seconds w"
  by (auto simp: window_def WINDOWS_def split: option.splits if_splits)

lemma emitted_iff_le:
  assumes "0 < width_seconds w"
  shows "emitted w t n \<longleftrightarrow> n \<le> (t - lateness_seconds w) div width_seconds w - 1"
proof -
  have "n + 1 \<le> (t - lateness_seconds w) div width_seconds w \<longleftrightarrow>
      (n + 1) * width_seconds w \<le> t - lateness_seconds w"
    using assms by (rule int_le_div_iff)
  then show ?thesis by (auto simp: emitted_def)
qed

text \<open>
  For a granularity of the contract, \<open>latest_emitted_window\<close> is the newest emitted window at
  an event time: exactly the windows up to it have been written. So the job that writes the rows, the
  serving provider that reads the newest and the training code that re-derives it mean the same
  window.
\<close>

theorem latest_emitted_window_newest:
  assumes "window granularity = Inr w"
  shows "latest_emitted_window t granularity = Inr m \<longleftrightarrow> (\<forall>n. emitted w t n \<longleftrightarrow> n \<le> m)"
proof -
  let ?m = "(t - lateness_seconds w) div width_seconds w - 1"
  have "emitted w t n \<longleftrightarrow> n \<le> ?m" for n
    using emitted_iff_le window_width_pos [OF assms] by blast
  then have "(\<forall>n. emitted w t n \<longleftrightarrow> n \<le> m) \<longleftrightarrow> ?m = m"
    by (metis order.refl order.antisym)
  then show ?thesis by (simp add: latest_emitted_window_def assms)
qed

theorem latest_emitted_window_newest_witness:
  "latest_emitted_window 7200 ''1hour'' = Inr 0 \<and>
   (\<forall>n. emitted \<lparr>table = ''sensor_aggregations_1hour'', width_seconds = 3600, lateness_seconds = 900\<rparr> 7200 n
     \<longleftrightarrow> n \<le> 0)"
proof -
  have w: "window ''1hour'' =
      Inr \<lparr>table = ''sensor_aggregations_1hour'', width_seconds = 3600, lateness_seconds = 900\<rparr>"
    by (simp add: window_def WINDOWS_def)
  moreover from w have "latest_emitted_window 7200 ''1hour'' = Inr 0"
    by (simp add: latest_emitted_window_def)
  ultimately show ?thesis using latest_emitted_window_newest [OF w, of 7200 0] by blast
qed

lemma AGGREGATION_WINDOWS_get:
  "od_get AGGREGATION_WINDOWS g =
     map_option (\<lambda>w. (table w, width_seconds w, lateness_seconds w)) (od_get WINDOWS g)"
  by (simp add: AGGREGATION_WINDOWS_def map_of_map)

end
