(* ===== verification/Uuid.thy ===== *)
theory Uuid
  imports Prelude
begin

text \<open>
  Python's \<open>uuid.UUID(text)\<close> and \<open>str(UUID)\<close>, which every tenant name is built on
  (\<open>libs/industryflow_contracts/industryflow_contracts/tenancy.py\<close>). The parser is the
  standard library's: \<open>urn:\<close> and \<open>uuid:\<close> removed anywhere, braces stripped, hyphens
  removed, exactly 32 characters left, and those read by \<open>int(text, 16)\<close> with everything
  that accepts (surrounding blanks, a sign, a \<open>0x\<close> prefix, single underscores).
  The results below say that printing is canonical: it is read back to the same number, and two
  texts with the same number print alike.
\<close>

section \<open>\<open>int(text, 16)\<close>\<close>

definition hex_val :: "char \<Rightarrow> int option" where
  "hex_val c =
     (if 48 \<le> ord c \<and> ord c \<le> 57 then Some (ord c - 48)
      else if 97 \<le> ord c \<and> ord c \<le> 102 then Some (ord c - 87)
      else if 65 \<le> ord c \<and> ord c \<le> 70 then Some (ord c - 55)
      else None)"

definition is_hex :: "char \<Rightarrow> bool" where
  "is_hex c \<longleftrightarrow> hex_val c \<noteq> None"

text \<open>
  \<open>int\<close> first maps the text to ASCII: outside it, a blank becomes a space and anything that is
  not a decimal digit (there is none between 128 and 255) an unreadable character.
\<close>

definition int_ascii :: "char \<Rightarrow> char" where
  "int_ascii c = (if ord c < 128 then c else if is_space c then CHR '' '' else CHR ''?'')"

definition is_c_space :: "char \<Rightarrow> bool" where
  "is_c_space c \<longleftrightarrow> (9 \<le> ord c \<and> ord c \<le> 13) \<or> ord c = 32"

text \<open>Digits with single underscores between them: the digits, or nothing if it is not that.\<close>

fun hex_digits_of :: "bool \<Rightarrow> string \<Rightarrow> int list option" where
  "hex_digits_of last_is_digit [] = (if last_is_digit then Some [] else None)"
| "hex_digits_of last_is_digit (c # cs) =
     (if c = CHR ''_'' then (if last_is_digit then hex_digits_of False cs else None)
      else (case hex_val c of
              None \<Rightarrow> None
            | Some d \<Rightarrow> map_option (\<lambda>ds. d # ds) (hex_digits_of True cs)))"

definition horner16 :: "int list \<Rightarrow> int" where
  "horner16 ds = foldl (\<lambda>a d. 16 * a + d) 0 ds"

definition skip_0x :: "string \<Rightarrow> string" where
  "skip_0x s =
     (if starts_with s ''0x'' \<or> starts_with s ''0X''
      then (if starts_with (drop 2 s) ''_'' then drop 3 s else drop 2 s) else s)"

definition int_base16 :: "string \<Rightarrow> int option" where
  "int_base16 text =
     (let s = dropWhile is_c_space (map int_ascii text);
          neg = starts_with s ''-'';
          s = (if starts_with s ''-'' \<or> starts_with s ''+'' then tl s else s);
          s = skip_0x s;
          body = takeWhile (\<lambda>c. is_hex c \<or> c = CHR ''_'') s;
          rest = dropWhile (\<lambda>c. is_hex c \<or> c = CHR ''_'') s
      in if list_all is_c_space rest
         then map_option (\<lambda>ds. if neg then - horner16 ds else horner16 ds)
                (hex_digits_of False body)
         else None)"

section \<open>\<open>UUID(text)\<close> and \<open>str(UUID)\<close>\<close>

definition uuid_parse :: "string \<Rightarrow> int option" where
  "uuid_parse text =
     (let h = py_replace ''uuid:'' [] (py_replace ''urn:'' [] text);
          h = py_replace ''-'' [] (strip_chars ''{}'' h)
      in if length h \<noteq> 32 then None
         else (case int_base16 h of
                 None \<Rightarrow> None
               | Some i \<Rightarrow> if 0 \<le> i \<and> i < 2 ^ 128 then Some i else None))"

text \<open>The lower-case hexadecimal digits of a number, most significant first, in \<open>k\<close> places.\<close>

fun hex_fixed :: "nat \<Rightarrow> int \<Rightarrow> string" where
  "hex_fixed 0 n = []"
| "hex_fixed (Suc k) n = hex_fixed k (n div 16) @ [hex_char (n mod 16)]"

definition hyphenate :: "string \<Rightarrow> string" where
  "hyphenate h = take 8 h @ ''-'' @ take 4 (drop 8 h) @ ''-'' @ take 4 (drop 12 h) @ ''-'' @
     take 4 (drop 16 h) @ ''-'' @ drop 20 h"

definition uuid_str :: "int \<Rightarrow> string" where
  "uuid_str n = hyphenate (hex_fixed 32 n)"

section \<open>Facts about the digits\<close>

definition lower_hex :: "char \<Rightarrow> bool" where
  "lower_hex c \<longleftrightarrow> (48 \<le> ord c \<and> ord c \<le> 57) \<or> (97 \<le> ord c \<and> ord c \<le> 102)"

lemma ord_char_of [simp]: "0 \<le> n \<Longrightarrow> n < 256 \<Longrightarrow> ord (char_of n) = n"
  by (simp add: ord_def)

lemma ord_hex_char: "0 \<le> d \<Longrightarrow> d < 16 \<Longrightarrow> ord (hex_char d) = (if d < 10 then 48 + d else 87 + d)"
  by (simp add: hex_char_def)

lemma hex_val_hex_char [simp]: "0 \<le> d \<Longrightarrow> d < 16 \<Longrightarrow> hex_val (hex_char d) = Some d"
  by (simp add: hex_val_def ord_hex_char)

lemma lower_hex_hex_char [simp]: "0 \<le> d \<Longrightarrow> d < 16 \<Longrightarrow> lower_hex (hex_char d)"
  by (auto simp: lower_hex_def ord_hex_char)

lemma lower_hex_is_hex: "lower_hex c \<Longrightarrow> is_hex c"
  by (auto simp: lower_hex_def is_hex_def hex_val_def)

lemma lower_hex_neq: "lower_hex c \<Longrightarrow> c \<notin> set ''-_{}urnxX+: ./''"
  by (auto simp: lower_hex_def ord_def)

lemma length_hex_fixed [simp]: "length (hex_fixed k n) = k"
  by (induction k arbitrary: n) auto

lemma lower_hex_hex_fixed: "c \<in> set (hex_fixed k n) \<Longrightarrow> lower_hex c"
  by (induction k arbitrary: n) auto

lemma horner16_snoc [simp]: "horner16 (ds @ [d]) = 16 * horner16 ds + d"
  by (simp add: horner16_def)

lemma horner16_bound:
  "list_all (\<lambda>d. 0 \<le> d \<and> d < 16) ds \<Longrightarrow> 0 \<le> horner16 ds \<and> horner16 ds < 16 ^ length ds"
proof (induction ds rule: rev_induct)
  case (snoc d ds)
  then have "0 \<le> horner16 ds" "horner16 ds < 16 ^ length ds" "0 \<le> d" "d < 16" by auto
  then have "0 \<le> 16 * horner16 ds + d \<and> 16 * horner16 ds + d < 16 * 16 ^ length ds" by linarith
  then show ?case by simp
qed (simp add: horner16_def)

lemma is_hexE:
  assumes "is_hex c" obtains d where "hex_val c = Some d" "c \<noteq> CHR ''_''"
proof -
  have "hex_val (CHR ''_'') = None" by (simp add: hex_val_def ord_def)
  with assms have "c \<noteq> CHR ''_''" by (auto simp: is_hex_def)
  with assms that show thesis by (auto simp: is_hex_def)
qed

lemma hex_digits_of_hex:
  "list_all is_hex s \<Longrightarrow> s \<noteq> [] \<or> b \<Longrightarrow> hex_digits_of b s = Some (map (the \<circ> hex_val) s)"
proof (induction s arbitrary: b)
  case (Cons c s)
  from Cons.prems obtain d where "hex_val c = Some d" "c \<noteq> CHR ''_''"
    by (auto elim: is_hexE)
  moreover have "hex_digits_of True s = Some (map (the \<circ> hex_val) s)"
    using Cons by simp
  ultimately show ?case by simp
qed simp

lemma horner16_hex_fixed: "horner16 (map (the \<circ> hex_val) (hex_fixed k n)) = n mod 16 ^ k"
proof (induction k arbitrary: n)
  case (Suc k)
  have "16 * (n div 16 mod 16 ^ k) + n mod 16 = n mod 16 ^ Suc k"
    using zmod_zmult2_eq [of "16 ^ k" n 16] by simp
  with Suc show ?case by simp
qed (simp add: horner16_def)

lemma int_ascii_hex: "is_hex c \<Longrightarrow> int_ascii c = c"
  by (auto simp: int_ascii_def is_hex_def hex_val_def split: if_splits)

lemma is_hex_not_special: "is_hex c \<Longrightarrow> \<not> is_c_space c \<and> c \<notin> set ''-+xX_''"
  by (auto simp: is_hex_def hex_val_def is_c_space_def ord_def split: if_splits)

lemma skip_0x_hex: "list_all is_hex s \<Longrightarrow> skip_0x s = s"
proof -
  assume hex: "list_all is_hex s"
  have "\<not> starts_with s [CHR ''0'', x]" if "x \<in> {CHR ''x'', CHR ''X''}" for x
  proof
    assume "starts_with s [CHR ''0'', x]"
    then have "x \<in> set s" by (auto simp: starts_with_iff)
    with hex have "is_hex x" by (auto simp: list_all_iff)
    with that is_hex_not_special show False by fastforce
  qed
  then show ?thesis by (simp add: skip_0x_def)
qed

lemma int_base16_hex:
  assumes "list_all is_hex s" "s \<noteq> []"
  shows "int_base16 s = Some (horner16 (map (the \<circ> hex_val) s))"
proof -
  obtain c t where s: "s = c # t" "is_hex c" using assms by (cases s) auto
  have m: "map int_ascii s = s" using assms(1) by (intro map_idI int_ascii_hex) (auto simp: list_all_iff)
  have d: "dropWhile is_c_space s = s" using s is_hex_not_special by simp
  have sg: "\<not> starts_with s ''-''" "\<not> starts_with s ''+''"
    using s is_hex_not_special by auto
  have tk: "takeWhile (\<lambda>c. is_hex c \<or> c = CHR ''_'') s = s" "dropWhile (\<lambda>c. is_hex c \<or> c = CHR ''_'') s = []"
    using assms(1) by (auto simp: list_all_iff)
  show ?thesis
    using assms by (simp add: int_base16_def m d sg skip_0x_hex tk hex_digits_of_hex)
qed

section \<open>Printing is read back\<close>

lemma set_hyphenate: "set (hyphenate h) \<subseteq> insert (CHR ''-'') (set h)"
  unfolding hyphenate_def by (auto dest: in_set_takeD in_set_dropD)

lemma filter_hyphenate: "CHR ''-'' \<notin> set h \<Longrightarrow> filter (\<lambda>c. c \<noteq> CHR ''-'') (hyphenate h) = h"
proof -
  assume "CHR ''-'' \<notin> set h"
  then have f: "filter (\<lambda>c. c \<noteq> CHR ''-'') t = t" if "set t \<subseteq> set h" for t
    using that by (intro filter_True) auto
  have sub: "set (take k (drop j h)) \<subseteq> set h" "set (drop j h) \<subseteq> set h" "set (take k h) \<subseteq> set h" for j k
    by (auto dest: in_set_takeD in_set_dropD)
  have "take 8 h @ take 4 (drop 8 h) @ take 4 (drop 12 h) @ take 4 (drop 16 h) @ drop 20 h = h"
  proof -
    have "take 4 (drop 16 h) @ drop 20 h = drop 16 h"
      using append_take_drop_id [of 4 "drop 16 h"] by simp
    moreover have "take 4 (drop 12 h) @ drop 16 h = drop 12 h"
      using append_take_drop_id [of 4 "drop 12 h"] by simp
    moreover have "take 4 (drop 8 h) @ drop 12 h = drop 8 h"
      using append_take_drop_id [of 4 "drop 8 h"] by simp
    ultimately show ?thesis by simp
  qed
  then show ?thesis by (simp add: hyphenate_def f sub)
qed

lemma length_hyphenate: "20 \<le> length h \<Longrightarrow> length (hyphenate h) = length h + 4"
  by (simp add: hyphenate_def)

lemma length_uuid_str [simp]: "length (uuid_str n) = 36"
  by (simp add: uuid_str_def length_hyphenate)

lemma set_uuid_str: "c \<in> set (uuid_str n) \<Longrightarrow> lower_hex c \<or> c = CHR ''-''"
  using set_hyphenate [of "hex_fixed 32 n"] lower_hex_hex_fixed by (auto simp: uuid_str_def)

lemma uuid_str_ends:
  "lower_hex (hd (uuid_str n))" "lower_hex (last (uuid_str n))" "uuid_str n \<noteq> []"
proof -
  let ?h = "hex_fixed 32 n"
  have ne: "?h \<noteq> []" "drop 20 ?h \<noteq> []" by (simp_all flip: length_0_conv)
  have "hd (uuid_str n) = hd ?h"
    using ne by (cases ?h) (auto simp: uuid_str_def hyphenate_def)
  with ne show "lower_hex (hd (uuid_str n))"
    using lower_hex_hex_fixed hd_in_set by metis
  have "last (uuid_str n) = last ?h"
    using ne by (simp add: uuid_str_def hyphenate_def last_drop)
  with ne show "lower_hex (last (uuid_str n))"
    using lower_hex_hex_fixed last_in_set by metis
  show "uuid_str n \<noteq> []" by (simp flip: length_0_conv)
qed

lemma uuid_parse_of_hex:
  assumes "length (filter (\<lambda>c. c \<noteq> CHR ''-'') s) = 32" "list_all (\<lambda>c. lower_hex c \<or> c = CHR ''-'') s"
    "lower_hex (hd s)" "lower_hex (last s)"
  shows "uuid_parse s =
    Some (horner16 (map (the \<circ> hex_val) (filter (\<lambda>c. c \<noteq> CHR ''-'') s)))"
proof -
  let ?f = "filter (\<lambda>c. c \<noteq> CHR ''-'') s"
  have out: "c \<notin> set s" if "c \<in> {CHR ''u'', CHR ''{'', CHR ''}''}" for c
    using assms(2) that by (auto simp: list_all_iff lower_hex_def ord_def)
  have r: "py_replace ''uuid:'' [] (py_replace ''urn:'' [] s) = s"
    using out by (simp add: py_replace_absent)
  have st: "strip_chars ''{}'' s = s"
    using assms(3,4) lower_hex_neq by (intro strip_chars_id) fastforce
  have hex: "list_all is_hex ?f"
    using assms(2) lower_hex_is_hex by (auto simp: list_all_iff)
  have "?f \<noteq> []" using assms(1) by auto
  with hex have i: "int_base16 ?f = Some (horner16 (map (the \<circ> hex_val) ?f))"
    by (rule int_base16_hex)
  have "list_all (\<lambda>d. 0 \<le> d \<and> d < 16) (map (the \<circ> hex_val) ?f)"
    using hex by (auto simp: list_all_iff is_hex_def hex_val_def split: if_splits)
  then have "0 \<le> horner16 (map (the \<circ> hex_val) ?f) \<and> horner16 (map (the \<circ> hex_val) ?f) < 16 ^ 32"
    using horner16_bound [of "map (the \<circ> hex_val) ?f"] assms(1) by simp
  then have "0 \<le> horner16 (map (the \<circ> hex_val) ?f) \<and> horner16 (map (the \<circ> hex_val) ?f) < 2 ^ 128" by simp
  with i show ?thesis
    using assms(1) by (simp add: uuid_parse_def r st py_replace_delete)
qed

lemma uuid_parse_str: "0 \<le> n \<Longrightarrow> n < 2 ^ 128 \<Longrightarrow> uuid_parse (uuid_str n) = Some n"
proof -
  assume n: "0 \<le> n" "n < 2 ^ 128"
  have "CHR ''-'' \<notin> set (hex_fixed 32 n)"
    using lower_hex_hex_fixed lower_hex_neq by fastforce
  then have f: "filter (\<lambda>c. c \<noteq> CHR ''-'') (uuid_str n) = hex_fixed 32 n"
    by (simp add: uuid_str_def filter_hyphenate)
  have "uuid_parse (uuid_str n) = Some (horner16 (map (the \<circ> hex_val) (hex_fixed 32 n)))"
    using uuid_parse_of_hex [of "uuid_str n"] set_uuid_str uuid_str_ends
    by (simp add: f list_all_iff)
  also have "\<dots> = Some n" using n by (simp add: horner16_hex_fixed)
  finally show ?thesis .
qed

lemma uuid_parse_bound: "uuid_parse s = Some n \<Longrightarrow> 0 \<le> n \<and> n < 2 ^ 128"
  by (auto simp: uuid_parse_def Let_def split: if_splits option.splits)

text \<open>A text in the printed form already is its own canonical spelling.\<close>

lemma hex_val_lower:
  assumes "lower_hex c" shows "0 \<le> the (hex_val c) \<and> the (hex_val c) < 16 \<and> hex_char (the (hex_val c)) = c"
proof -
  have c: "c = char_of (ord c)" by (simp add: ord_def)
  show ?thesis using assms c by (auto simp: lower_hex_def hex_val_def hex_char_def)
qed

lemma hex_fixed_horner16:
  "list_all lower_hex h \<Longrightarrow> hex_fixed (length h) (horner16 (map (the \<circ> hex_val) h)) = h"
proof (induction h rule: rev_induct)
  case (snoc c h)
  let ?d = "the (hex_val c)" and ?n = "horner16 (map (the \<circ> hex_val) h)"
  have d: "0 \<le> ?d" "?d < 16" "hex_char ?d = c" using snoc.prems hex_val_lower by auto
  have "(16 * ?n + ?d) div 16 = ?n" "(16 * ?n + ?d) mod 16 = ?d"
    using d(1,2) by (simp_all add: div_pos_pos_trivial)
  then show ?case using snoc d(3) by simp
qed simp

lemma uuid_parse_hyphenated:
  assumes "list_all lower_hex h" "length h = 32"
  obtains n where "uuid_parse (hyphenate h) = Some n" "uuid_str n = hyphenate h"
proof -
  let ?n = "horner16 (map (the \<circ> hex_val) h)"
  have "list_all (\<lambda>d. 0 \<le> d \<and> d < 16) (map (the \<circ> hex_val) h)"
    using assms(1) hex_val_lower by (auto simp: list_all_iff)
  then have "0 \<le> ?n" "?n < 2 ^ 128"
    using horner16_bound [of "map (the \<circ> hex_val) h"] assms(2) by auto
  then have "uuid_parse (uuid_str ?n) = Some ?n" by (rule uuid_parse_str)
  moreover have "uuid_str ?n = hyphenate h"
    using hex_fixed_horner16 [OF assms(1)] by (simp add: uuid_str_def assms(2))
  ultimately show thesis using that by simp
qed

end
