(* ===== verification/Tenancy.thy ===== *)
theory Tenancy
  imports Uuid
begin

text \<open>
  \<open>libs/industryflow_contracts/industryflow_contracts/tenancy.py\<close>: the one mapping from a
  \<open>company_id\<close> to every name derived from it, and the test of whether a name or an
  object-store key belongs to a tenant. One definition per function, in the module's order.
  A \<open>company_id\<close> argument is the text \<open>str(company_id)\<close>.

  Shown: canonical spelling, that a schema name and its tenant determine each other, that the
  prefixes of two tenants never overlap, and that what \<open>qualify_name\<close> and \<open>scope_key\<close>
  return lies under the caller's prefix and under no other tenant's.
\<close>

section \<open>Names\<close>

definition tenancy_PREFIX :: string where
  "tenancy_PREFIX = ''tenant_''"

definition canonical_company_id :: "string \<Rightarrow> string result" where
  "canonical_company_id company_id =
     (case uuid_parse company_id of None \<Rightarrow> Inl ValueError | Some n \<Rightarrow> Inr (uuid_str n))"

definition underscored :: "string \<Rightarrow> string result" where
  "underscored company_id = res_map (py_replace ''-'' ''_'') (canonical_company_id company_id)"

definition tenant_token :: "string \<Rightarrow> string result" where
  "tenant_token company_id = res_map (\<lambda>u. tenancy_PREFIX @ u) (underscored company_id)"

definition schema_name :: "string \<Rightarrow> string result" where
  "schema_name company_id = tenant_token company_id"

definition reader_role_name :: "string \<Rightarrow> string result" where
  "reader_role_name company_id =
     res_map (\<lambda>u. tenancy_PREFIX @ ''reader_'' @ u) (underscored company_id)"

definition sql_login_name :: "string \<Rightarrow> string result" where
  "sql_login_name company_id =
     res_map (\<lambda>u. tenancy_PREFIX @ ''sqlproxy_'' @ u) (underscored company_id)"

definition mlflow_name_prefix :: "string \<Rightarrow> string result" where
  "mlflow_name_prefix company_id = res_map (\<lambda>t. t @ ''.'') (tenant_token company_id)"

definition MLFLOW_DELETED_NAME_ROOT :: string where
  "MLFLOW_DELETED_NAME_ROOT = ''_deleted.''"

definition mlflow_deleted_name_prefix :: "string \<Rightarrow> string result" where
  "mlflow_deleted_name_prefix company_id =
     res_map (\<lambda>p. MLFLOW_DELETED_NAME_ROOT @ p) (mlflow_name_prefix company_id)"

definition mlflow_artifact_prefix :: "string \<Rightarrow> string result" where
  "mlflow_artifact_prefix company_id = res_map (\<lambda>t. t @ ''/'') (tenant_token company_id)"

definition cold_object_prefix :: "string \<Rightarrow> string result" where
  "cold_object_prefix company_id = res_map (\<lambda>u. tenancy_PREFIX @ u) (canonical_company_id company_id)"

definition cold_key_prefix :: "string \<Rightarrow> string result" where
  "cold_key_prefix company_id = res_map (\<lambda>p. p @ ''/'') (cold_object_prefix company_id)"

section \<open>Ownership\<close>

definition qualify_name :: "string \<Rightarrow> string \<Rightarrow> string" where
  "qualify_name pre name = (if starts_with name pre then name else pre @ name)"

definition owned_name :: "string \<Rightarrow> json \<Rightarrow> string option" where
  "owned_name pre qualified =
     (case qualified of
        JStr q \<Rightarrow> if q = [] \<or> \<not> starts_with q pre then None else Some (drop (length pre) q)
      | _ \<Rightarrow> None)"

definition is_plain_key :: "string \<Rightarrow> bool" where
  "is_plain_key key \<longleftrightarrow>
     CHR 0x5C \<notin> set key \<and> \<not> list_ex is_control key \<and>
     list_all (\<lambda>seg. seg \<notin> {'''', ''.'', ''..''}) (split_on (CHR ''/'') key)"

definition owns_key :: "string \<Rightarrow> json \<Rightarrow> bool \<Rightarrow> bool" where
  "owns_key pre key encoded =
     (case key of
        JStr k \<Rightarrow>
          (let k = lstrip_chars ''/'' k
           in if k = [] \<or> encoded \<and> CHR ''%'' \<in> set k then False
              else is_plain_key k \<and> starts_with k pre)
      | _ \<Rightarrow> False)"

definition scope_key :: "string \<Rightarrow> string option \<Rightarrow> string result" where
  "scope_key pre path =
     (let path = lstrip_chars ''/'' (case path of None \<Rightarrow> [] | Some p \<Rightarrow> p)
      in if path \<noteq> [] \<and> \<not> is_plain_key (rstrip_chars ''/'' path) then Inl ValueError
         else Inr (if starts_with path pre then path else pre @ path))"

definition company_id_from_schema :: "string \<Rightarrow> string result" where
  "company_id_from_schema name =
     (if \<not> starts_with name tenancy_PREFIX then Inl ValueError
      else (case canonical_company_id (py_replace ''_'' ''-'' (drop (length tenancy_PREFIX) name)) of
              Inl e \<Rightarrow> Inl e
            | Inr company_id \<Rightarrow>
                if schema_name company_id \<noteq> Inr name then Inl ValueError else Inr company_id))"

section \<open>Canonical spelling\<close>

lemma canonical_Inr: "canonical_company_id c = Inr u \<longleftrightarrow> (\<exists>n. uuid_parse c = Some n \<and> u = uuid_str n)"
  by (auto simp: canonical_company_id_def split: option.splits)

lemma canonical_idem: "canonical_company_id c = Inr u \<Longrightarrow> canonical_company_id u = Inr u"
  using uuid_parse_bound uuid_parse_str by (fastforce simp: canonical_Inr)

lemma canonical_error: "canonical_company_id c = Inl e \<Longrightarrow> e = ValueError"
  by (auto simp: canonical_company_id_def split: option.splits)

lemma canonical_shape:
  assumes "canonical_company_id c = Inr u"
  shows "length u = 36" "\<And>x. x \<in> set u \<Longrightarrow> lower_hex x \<or> x = CHR ''-''"
  using assms set_uuid_str by (auto simp: canonical_Inr)

lemma canonical_printed:
  assumes "list_all lower_hex h" "length h = 32" "u = hyphenate h"
  shows "canonical_company_id u = Inr u"
proof -
  obtain n where "uuid_parse (hyphenate h) = Some n" "uuid_str n = hyphenate h"
    using assms(1,2) by (rule uuid_parse_hyphenated)
  then show ?thesis by (simp add: canonical_company_id_def assms(3))
qed

abbreviation uscore :: "string \<Rightarrow> string" where
  "uscore u \<equiv> map (\<lambda>x. if x = CHR ''-'' then CHR ''_'' else x) u"

lemma underscored_Inr: "underscored c = Inr t \<longleftrightarrow> (\<exists>u. canonical_company_id c = Inr u \<and> t = uscore u)"
  by (simp add: underscored_def py_replace_map)

lemmas name_defs = tenant_token_def schema_name_def reader_role_name_def sql_login_name_def
  mlflow_name_prefix_def mlflow_deleted_name_prefix_def mlflow_artifact_prefix_def
  cold_object_prefix_def cold_key_prefix_def tenancy_PREFIX_def MLFLOW_DELETED_NAME_ROOT_def

text \<open>Underscoring a canonical id loses nothing: the canonical id has no underscore.\<close>

lemma uscore_inverse:
  assumes "canonical_company_id c = Inr u"
  shows "py_replace ''_'' ''-'' (uscore u) = u"
proof -
  have "CHR ''_'' \<notin> set u"
    using canonical_shape(2) [OF assms] lower_hex_neq by fastforce
  then have "map (\<lambda>x. if x = CHR ''_'' then CHR ''-'' else x) (uscore u) = u"
    by (induction u) auto
  then show ?thesis by (simp only: py_replace_map)
qed

lemma uscore_inj:
  assumes "canonical_company_id a = Inr u" "canonical_company_id b = Inr v" "uscore u = uscore v"
  shows "u = v"
proof -
  have "u = py_replace ''_'' ''-'' (uscore u)" by (rule uscore_inverse [OF assms(1), symmetric])
  also have "\<dots> = py_replace ''_'' ''-'' (uscore v)" by (simp only: assms(3))
  also have "\<dots> = v" by (rule uscore_inverse [OF assms(2)])
  finally show ?thesis .
qed

section \<open>A schema name and its tenant determine each other\<close>

lemma schema_name_Inr:
  "schema_name c = Inr n \<longleftrightarrow> (\<exists>u. canonical_company_id c = Inr u \<and> n = ''tenant_'' @ uscore u)"
  by (auto simp: name_defs underscored_Inr)

lemma company_id_from_schema_of_schema:
  assumes "canonical_company_id c = Inr u"
  shows "company_id_from_schema (''tenant_'' @ uscore u) = Inr u"
proof -
  have "drop (length tenancy_PREFIX) (''tenant_'' @ uscore u) = uscore u"
    by (simp add: tenancy_PREFIX_def)
  moreover have "schema_name u = Inr (''tenant_'' @ uscore u)"
    using canonical_idem [OF assms] by (simp add: schema_name_Inr)
  ultimately show ?thesis
    using canonical_idem [OF assms]
    by (simp add: company_id_from_schema_def uscore_inverse [OF assms] tenancy_PREFIX_def)
qed

lemma company_id_from_schema_strict:
  "company_id_from_schema n = Inr u \<Longrightarrow> canonical_company_id u = Inr u \<and> schema_name u = Inr n"
  by (auto simp: company_id_from_schema_def split: if_splits sum.splits dest: canonical_idem)

lemma company_id_from_schema_inj:
  "company_id_from_schema s = Inr c \<Longrightarrow> company_id_from_schema s' = Inr c \<Longrightarrow> s = s'"
  by (metis company_id_from_schema_strict sum.inject(2))

text \<open>
  The catalogue reader and the name builder agree: a schema name is accepted exactly when some
  tenant's \<open>schema_name\<close> builds it, and the tenant it is read as is that tenant's canonical id.
\<close>

theorem company_id_from_schema_iff:
  "company_id_from_schema name = Inr u \<longleftrightarrow>
     (\<exists>c. canonical_company_id c = Inr u \<and> schema_name c = Inr name)"
proof
  assume "company_id_from_schema name = Inr u"
  then show "\<exists>c. canonical_company_id c = Inr u \<and> schema_name c = Inr name"
    using company_id_from_schema_strict by blast
next
  assume "\<exists>c. canonical_company_id c = Inr u \<and> schema_name c = Inr name"
  then obtain c where c: "canonical_company_id c = Inr u" and "schema_name c = Inr name" by blast
  then have "name = ''tenant_'' @ uscore u" by (simp add: schema_name_Inr)
  then show "company_id_from_schema name = Inr u"
    using company_id_from_schema_of_schema [OF c] by (simp only:)
qed

section \<open>The prefixes of two tenants never overlap\<close>

text \<open>
  What the ownership tests need of a prefix builder: all prefixes have one length and a tenant's is
  its own. The name, artifact and cold builders all satisfy it.
\<close>

locale tenant_prefixes =
  fixes prefix_of :: "string \<Rightarrow> string result"
    and width :: nat
  assumes prefix_defined: "canonical_company_id c = Inr u \<Longrightarrow> \<exists>p. prefix_of c = Inr p"
    and prefix_valid: "prefix_of c = Inr p \<Longrightarrow> \<exists>u. canonical_company_id c = Inr u"
    and prefix_width: "prefix_of c = Inr p \<Longrightarrow> length p = width"
    and prefix_inj: "prefix_of a = Inr p \<Longrightarrow> prefix_of b = Inr p \<Longrightarrow>
      canonical_company_id a = canonical_company_id b"
    and width_pos: "0 < width"
begin

lemma disjoint_prefixes:
  assumes "prefix_of a = Inr p" "prefix_of b = Inr q" "starts_with s p" "starts_with s q"
  shows "canonical_company_id a = canonical_company_id b"
  using assms starts_with_same_length [of p q s] prefix_width prefix_inj by metis

lemma qualify_owned:
  assumes "prefix_of a = Inr p"
  shows "owned_name p (JStr (qualify_name p name)) \<noteq> None"
proof -
  have "p \<noteq> []" using prefix_width [OF assms] width_pos by auto
  then have "qualify_name p name \<noteq> []" by (auto simp: qualify_name_def)
  moreover have "starts_with (qualify_name p name) p" by (simp add: qualify_name_def)
  ultimately show ?thesis by (simp add: owned_name_def)
qed

lemma qualify_foreign:
  assumes "prefix_of a = Inr p" "prefix_of b = Inr q"
    and "canonical_company_id a \<noteq> canonical_company_id b"
  shows "owned_name q (JStr (qualify_name p name)) = None"
proof -
  have "starts_with (qualify_name p name) p" by (simp add: qualify_name_def)
  then have "\<not> starts_with (qualify_name p name) q" using assms disjoint_prefixes by blast
  then show ?thesis by (simp add: owned_name_def)
qed

lemma scope_key_own:
  assumes "scope_key p path = Inr k"
  shows "starts_with k p"
  using assms by (auto simp: scope_key_def Let_def split: if_splits)

lemma scope_key_foreign:
  assumes "prefix_of a = Inr p" "prefix_of b = Inr q" "scope_key p path = Inr k"
    and "canonical_company_id a \<noteq> canonical_company_id b"
  shows "\<not> starts_with k q"
  using assms scope_key_own disjoint_prefixes by blast

end

text \<open>
  A key prefix also ends in the separator, after a segment that is plain itself: what is put under
  it is a plain key again.
\<close>

lemma is_plain_key_append:
  "is_plain_key (t @ ''/'' @ w) \<longleftrightarrow> is_plain_key t \<and> is_plain_key w"
proof -
  have "CHR 0x5C \<noteq> CHR ''/''" "\<not> is_control (CHR ''/'')"
    by (simp_all add: is_control_def ord_def)
  then show ?thesis by (auto simp: is_plain_key_def split_on_append)
qed

lemma plain_name:
  assumes "\<And>c. c \<in> set t \<Longrightarrow> lower_hex c \<or> c \<in> set ''-_tenasrdqlpoxy''" "8 \<le> length t"
  shows "is_plain_key t \<and> CHR ''/'' \<notin> set t \<and> CHR ''%'' \<notin> set t"
proof -
  have c: "c \<notin> {CHR 0x5C, CHR ''/'', CHR ''%''} \<and> \<not> is_control c" if "c \<in> set t" for c
    using assms(1) [OF that] by (auto simp: is_control_def lower_hex_def ord_def)
  then have "CHR ''/'' \<notin> set t" by auto
  moreover have "t \<notin> {'''', ''.'', ''..''}" using assms(2) by auto
  ultimately show ?thesis using c by (auto simp: is_plain_key_def split_on_no_sep list_ex_iff)
qed

locale tenant_key_prefixes = tenant_prefixes +
  assumes prefix_plain: "prefix_of c = Inr p \<Longrightarrow>
    \<exists>t. p = t @ ''/'' \<and> is_plain_key t \<and> CHR ''/'' \<notin> set t \<and> t \<noteq> []"
begin

lemma scope_key_owned:
  assumes p: "prefix_of a = Inr p" and k: "scope_key p (Some path) = Inr k"
    and path: "lstrip_chars ''/'' path \<noteq> []" "\<not> ends_with path ''/''"
  shows "owns_key p (JStr k) False"
proof -
  let ?w = "lstrip_chars ''/'' path"
  obtain t where t: "p = t @ ''/''" "is_plain_key t" "CHR ''/'' \<notin> set t" "t \<noteq> []"
    using prefix_plain [OF p] by blast
  have "last ?w \<noteq> CHR ''/''"
  proof
    assume l: "last ?w = CHR ''/''"
    have "path = takeWhile (\<lambda>c. c \<in> set ''/'') path @ ?w" by (simp add: lstrip_chars_def)
    with l path(1) have "ends_with path ''/''"
      by (metis append.assoc append_butlast_last_id ends_with_iff)
    with path(2) show False by simp
  qed
  with path(1) have w: "rstrip_chars ''/'' ?w = ?w" by (intro rstrip_chars_id) auto
  from k path(1) have pl: "is_plain_key ?w" and kk: "k = (if starts_with ?w p then ?w else p @ ?w)"
    by (auto simp: scope_key_def Let_def w split: if_splits)
  have "is_plain_key k"
    using pl t is_plain_key_append [of t ?w] by (simp add: kk)
  moreover have st: "starts_with k p" by (simp add: kk)
  moreover have "k \<noteq> [] \<and> hd k \<noteq> CHR ''/''"
  proof -
    obtain r where "k = p @ r" using st by (auto simp: starts_with_iff)
    with t show ?thesis by (cases t) auto
  qed
  then have "lstrip_chars ''/'' k = k" "k \<noteq> []" by (auto intro: lstrip_chars_id)
  ultimately show ?thesis by (simp add: owns_key_def)
qed

lemma owns_key_foreign:
  assumes "prefix_of a = Inr p" "prefix_of b = Inr q" "owns_key p key e"
    and "owns_key q key e'"
  shows "canonical_company_id a = canonical_company_id b"
proof -
  obtain k where "starts_with k p" "starts_with k q"
    using assms(3,4) by (auto simp: owns_key_def Let_def split: json.splits if_splits)
  with assms(1,2) show ?thesis by (rule disjoint_prefixes)
qed

end

lemma canonical_length: "canonical_company_id c = Inr u \<Longrightarrow> length u = 36"
  by (rule canonical_shape)

interpretation mlflow_names: tenant_prefixes mlflow_name_prefix 44
  by unfold_locales (auto simp: name_defs underscored_Inr canonical_length dest: uscore_inj)

lemma tenant_name_plain:
  assumes "canonical_company_id c = Inr u"
  shows "is_plain_key (''tenant_'' @ u) \<and> CHR ''/'' \<notin> set (''tenant_'' @ u)"
    and "is_plain_key (''tenant_'' @ uscore u) \<and> CHR ''/'' \<notin> set (''tenant_'' @ uscore u)"
proof -
  note shape = canonical_shape [OF assms]
  have "is_plain_key t \<and> CHR ''/'' \<notin> set t" if "t \<in> {''tenant_'' @ u, ''tenant_'' @ uscore u}" for t
  proof -
    have "is_plain_key t \<and> CHR ''/'' \<notin> set t \<and> CHR ''%'' \<notin> set t"
    proof (rule plain_name)
      show "lower_hex c \<or> c \<in> set ''-_tenasrdqlpoxy''" if "c \<in> set t" for c
        using that \<open>t \<in> _\<close> by (auto dest: shape(2))
      show "8 \<le> length t" using that shape(1) by auto
    qed
    then show ?thesis by blast
  qed
  then show "is_plain_key (''tenant_'' @ u) \<and> CHR ''/'' \<notin> set (''tenant_'' @ u)"
    and "is_plain_key (''tenant_'' @ uscore u) \<and> CHR ''/'' \<notin> set (''tenant_'' @ uscore u)"
    by blast+
qed

interpretation artifact_keys: tenant_key_prefixes mlflow_artifact_prefix 44
proof unfold_locales
  fix c p assume "mlflow_artifact_prefix c = Inr p"
  then obtain u where "canonical_company_id c = Inr u" "p = (''tenant_'' @ uscore u) @ ''/''"
    by (auto simp: name_defs underscored_Inr)
  then show "\<exists>t. p = t @ ''/'' \<and> is_plain_key t \<and> CHR ''/'' \<notin> set t \<and> t \<noteq> []"
    using tenant_name_plain(2) by blast
qed (auto simp: name_defs underscored_Inr canonical_length dest: uscore_inj)

interpretation cold_keys: tenant_key_prefixes cold_key_prefix 44
proof unfold_locales
  fix c p assume "cold_key_prefix c = Inr p"
  then obtain u where "canonical_company_id c = Inr u" "p = (''tenant_'' @ u) @ ''/''"
    by (auto simp: name_defs)
  then show "\<exists>t. p = t @ ''/'' \<and> is_plain_key t \<and> CHR ''/'' \<notin> set t \<and> t \<noteq> []"
    using tenant_name_plain(1) by blast
qed (auto simp: name_defs canonical_length)

section \<open>Isolation of names and keys\<close>

text \<open>
  A name a caller sends, once qualified into tenant \<open>a\<close>'s MLflow name space, is owned by a
  tenant \<open>b\<close> exactly when \<open>a\<close> and \<open>b\<close> are the same tenant, whatever the caller spelled
  (another tenant's prefix included).
\<close>

theorem qualified_name_owner:
  assumes "mlflow_name_prefix a = Inr p" "mlflow_name_prefix b = Inr q"
  shows "owned_name q (JStr (qualify_name p name)) \<noteq> None \<longleftrightarrow>
    canonical_company_id a = canonical_company_id b"
proof
  assume "owned_name q (JStr (qualify_name p name)) \<noteq> None"
  then show "canonical_company_id a = canonical_company_id b"
    using mlflow_names.qualify_foreign [OF assms, of name] by metis
next
  assume "canonical_company_id a = canonical_company_id b"
  then have "mlflow_name_prefix a = mlflow_name_prefix b" by (simp add: name_defs underscored_def)
  with assms have "p = q" by simp
  then show "owned_name q (JStr (qualify_name p name)) \<noteq> None"
    using mlflow_names.qualify_owned [OF assms(2)] by blast
qed

text \<open>
  The object-store key a cold-archive path is scoped to lies under the caller's prefix and under
  no other tenant's, and a path that names an object (not a listing prefix) is a key the caller
  owns: no spelling of a path (dot segments, empty segments, backslashes, control characters)
  leaves the tenant.
\<close>

theorem cold_scope_isolated:
  assumes "cold_key_prefix a = Inr p" "cold_key_prefix b = Inr q" "scope_key p (Some path) = Inr k"
  shows "starts_with k p \<and> (starts_with k q \<longrightarrow> canonical_company_id a = canonical_company_id b) \<and>
    (lstrip_chars ''/'' path \<noteq> [] \<and> \<not> ends_with path ''/'' \<longrightarrow> owns_key p (JStr k) False)"
  using assms cold_keys.scope_key_own [OF assms(3)] cold_keys.disjoint_prefixes [OF assms(1,2)]
    cold_keys.scope_key_owned [OF assms(1,3)] by blast

text \<open>
  \<open>scope_key\<close>'s comment allows one trailing separator and asks every other segment to be plain.
  The code removes all trailing separators before the test, so a path that ends in an empty segment
  is accepted too (it still lies under the prefix).
\<close>

theorem scope_key_keeps_empty_segment:
  "scope_key ''tenant_x/'' (Some ''a//'') = Inr ''tenant_x/a//'' \<and> \<not> is_plain_key ''tenant_x/a/''"
  by (simp add: scope_key_def lstrip_chars_def rstrip_chars_def is_plain_key_def is_control_def ord_def)

section \<open>Witnesses\<close>

abbreviation uuid_a :: string where "uuid_a \<equiv> ''0b2f503a-6e59-4c8d-9a01-0123456789ab''"
abbreviation uuid_b :: string where "uuid_b \<equiv> ''0b2f503a-6e59-4c8d-9a01-0123456789ac''"

lemma canonical_ab [simp]:
  "canonical_company_id uuid_a = Inr uuid_a" "canonical_company_id uuid_b = Inr uuid_b"
  by (rule canonical_printed [of "''0b2f503a6e594c8d9a010123456789ab''"],
      simp_all add: hyphenate_def lower_hex_def ord_def)
    (rule canonical_printed [of "''0b2f503a6e594c8d9a010123456789ac''"],
      simp_all add: hyphenate_def lower_hex_def ord_def)

lemma prefixes_ab:
  "mlflow_name_prefix uuid_a = Inr ''tenant_0b2f503a_6e59_4c8d_9a01_0123456789ab.''"
  "mlflow_name_prefix uuid_b = Inr ''tenant_0b2f503a_6e59_4c8d_9a01_0123456789ac.''"
  "cold_key_prefix uuid_a = Inr ''tenant_0b2f503a-6e59-4c8d-9a01-0123456789ab/''"
  "cold_key_prefix uuid_b = Inr ''tenant_0b2f503a-6e59-4c8d-9a01-0123456789ac/''"
  by (simp_all add: name_defs underscored_def py_replace_map)

theorem qualified_name_owner_witness:
  "owned_name ''tenant_0b2f503a_6e59_4c8d_9a01_0123456789ac.''
     (JStr (qualify_name ''tenant_0b2f503a_6e59_4c8d_9a01_0123456789ab.''
       ''tenant_0b2f503a_6e59_4c8d_9a01_0123456789ac.model'')) = None"
  using qualified_name_owner [OF prefixes_ab(1,2)] by simp

theorem cold_scope_isolated_witness:
  "scope_key ''tenant_0b2f503a-6e59-4c8d-9a01-0123456789ab/'' (Some ''/year=2026/a.parquet'') =
     Inr ''tenant_0b2f503a-6e59-4c8d-9a01-0123456789ab/year=2026/a.parquet'' \<and>
   owns_key ''tenant_0b2f503a-6e59-4c8d-9a01-0123456789ab/''
     (JStr ''tenant_0b2f503a-6e59-4c8d-9a01-0123456789ab/year=2026/a.parquet'') False"
proof -
  have k: "scope_key ''tenant_0b2f503a-6e59-4c8d-9a01-0123456789ab/'' (Some ''/year=2026/a.parquet'') =
     Inr ''tenant_0b2f503a-6e59-4c8d-9a01-0123456789ab/year=2026/a.parquet''"
    by (simp add: scope_key_def lstrip_chars_def rstrip_chars_def is_plain_key_def is_control_def ord_def)
  have "lstrip_chars ''/'' ''/year=2026/a.parquet'' \<noteq> []" "\<not> ends_with ''/year=2026/a.parquet'' ''/''"
    by (simp_all add: lstrip_chars_def ends_with_def)
  with k cold_scope_isolated [OF prefixes_ab(3,4) k] show ?thesis by blast
qed

end
