(* ===== verification/Tenant_Status.thy ===== *)
theory Tenant_Status
  imports Tenancy
begin

text \<open>
  The tenant-status stream: the message format
  (\<open>libs/industryflow_contracts/industryflow_contracts/tenant_status.py\<close>), the publisher in the
  alert worker (\<open>services/alert_service/worker/tenant_status_publisher.py\<close>) and the follower in
  ingestion (\<open>services/ingestion_service/tenant_status.py\<close>). A message value is the stored text
  of the prelude; the registry read is the parameter \<open>fetch\<close>; a clock reading is an argument.

  Shown: encode and decode are inverse; after one round of the whole registry, ingestion's answer for
  every registered tenant is the registry's, until it goes stale.
\<close>

section \<open>The message\<close>

definition PUBLISH_INTERVAL_SECONDS :: rat where "PUBLISH_INTERVAL_SECONDS = 10"
definition STALE_AFTER_SECONDS :: rat where "STALE_AFTER_SECONDS = 6 * PUBLISH_INTERVAL_SECONDS"

definition status_encode :: "string \<Rightarrow> json \<Rightarrow> (string \<times> raw) result" where
  "status_encode company_id active =
     (case canonical_company_id company_id of
        Inl e \<Rightarrow> Inl e
      | Inr canonical \<Rightarrow>
          (case active of
             JBool b \<Rightarrow> Inr (canonical, RObj [(''company_id'', JStr canonical), (''active'', JBool b)])
           | _ \<Rightarrow> Inl ValueError))"

definition status_decode :: "raw \<Rightarrow> (string \<times> bool) result" where
  "status_decode v =
     (case raw_object v of
        None \<Rightarrow> Inl ValueError
      | Some body \<Rightarrow>
          (case jget body ''active'' of
             JBool active \<Rightarrow>
               res_map (\<lambda>c. (c, active)) (canonical_company_id (py_str (jget body ''company_id'')))
           | _ \<Rightarrow> Inl ValueError))"

lemma encode_Inr:
  "status_encode c a = Inr (k, v) \<longleftrightarrow>
     (\<exists>b. a = JBool b \<and> canonical_company_id c = Inr k \<and>
       v = RObj [(''company_id'', JStr k), (''active'', JBool b)])"
  by (auto simp: status_encode_def split: sum.splits json.splits)

lemma decode_encoded:
  "canonical_company_id k = Inr k \<Longrightarrow>
     status_decode (RObj [(''company_id'', JStr k), (''active'', JBool b)]) = Inr (k, b)"
  by (simp add: status_decode_def jget_def)

text \<open>
  What the publisher encodes for a tenant, a consumer decodes to the tenant's canonical id, which
  is also the message key, and the same flag.
\<close>

theorem status_decode_encode:
  assumes "status_encode company_id (JBool active) = Inr (key, v)"
  shows "status_decode v = Inr (key, active) \<and> canonical_company_id company_id = Inr key"
  using assms canonical_idem by (auto simp: encode_Inr decode_encoded)

theorem status_decode_encode_witness:
  "status_decode (RObj [(''company_id'', JStr uuid_a), (''active'', JBool False)]) = Inr (uuid_a, False)"
proof -
  have "status_encode uuid_a (JBool False) =
      Inr (uuid_a, RObj [(''company_id'', JStr uuid_a), (''active'', JBool False)])"
    by (simp add: status_encode_def)
  then show ?thesis using status_decode_encode by blast
qed

section \<open>The follower\<close>

record TenantStatus =
  stale_after :: rat
  heard :: "string \<rightharpoonup> bool \<times> rat"

definition TenantStatus_init :: TenantStatus where
  "TenantStatus_init = \<lparr>stale_after = STALE_AFTER_SECONDS, heard = Map.empty\<rparr>"

definition apply_status :: "rat \<Rightarrow> raw \<Rightarrow> TenantStatus \<Rightarrow> TenantStatus" where
  "apply_status clock v st =
     (case status_decode v of
        Inl _ \<Rightarrow> st
      | Inr (company_id, active) \<Rightarrow> st\<lparr>heard := (heard st)(company_id \<mapsto> (active, clock))\<rparr>)"

definition is_suspended :: "rat \<Rightarrow> string \<Rightarrow> TenantStatus \<Rightarrow> bool \<times> TenantStatus" where
  "is_suspended clock company_id st =
     (case heard st company_id of
        None \<Rightarrow> (False, st)
      | Some (active, t) \<Rightarrow>
          if clock - t > stale_after st
          then (False, st\<lparr>heard := (heard st)(company_id := None)\<rparr>)
          else (\<not> active, st))"

text \<open>
  \<open>follow\<close>: each connection to the broker yields the messages it delivered, with the clock at
  each, and then fails; the loop reconnects and goes on. A failed \<open>start\<close> is a connection that
  delivered nothing.
\<close>

definition apply_all :: "(rat \<times> raw) list \<Rightarrow> TenantStatus \<Rightarrow> TenantStatus" where
  "apply_all messages st = fold (\<lambda>(clock, v). apply_status clock v) messages st"

definition follow :: "(rat \<times> raw) list list \<Rightarrow> TenantStatus \<Rightarrow> TenantStatus" where
  "follow connections st = fold apply_all connections st"

section \<open>The publisher\<close>

fun registry_rows :: "(string \<times> bool) list \<Rightarrow> (string \<times> bool) list" where
  "registry_rows [] = []"
| "registry_rows ((schema, active) # rows) =
     (case company_id_from_schema schema of
        Inl _ \<Rightarrow> registry_rows rows
      | Inr company_id \<Rightarrow> (company_id, active) # registry_rows rows)"

definition registry_status :: "(string \<times> bool) list result \<Rightarrow> (string \<times> bool) list result" where
  "registry_status fetch = res_map registry_rows fetch"

text \<open>
  \<open>publish_once\<close>: one message per tenant, in order. \<open>send\<close> is the broker: None when the
  message was accepted, otherwise the failure, which ends the round. The result is what was sent and
  how the round ended: the number of tenants, or the exception.
\<close>

fun publish_all ::
    "(string \<times> raw \<Rightarrow> py_error option) \<Rightarrow> (string \<times> bool) list \<Rightarrow> (string \<times> raw) list \<times> py_error option" where
  "publish_all send [] = ([], None)"
| "publish_all send ((company_id, active) # st) =
     (case status_encode company_id (JBool active) of
        Inl e \<Rightarrow> ([], Some e)
      | Inr m \<Rightarrow>
          (case send m of
             Some e \<Rightarrow> ([], Some e)
           | None \<Rightarrow> (case publish_all send st of (ms, err) \<Rightarrow> (m # ms, err))))"

definition publish_once ::
    "(string \<times> bool) list result \<Rightarrow> (string \<times> raw \<Rightarrow> py_error option) \<Rightarrow> (string \<times> raw) list \<times> int result" where
  "publish_once fetch send =
     (case registry_status fetch of
        Inl e \<Rightarrow> ([], Inl e)
      | Inr st \<Rightarrow>
          (case publish_all send st of
             (ms, Some e) \<Rightarrow> (ms, Inl e)
           | (ms, None) \<Rightarrow> (ms, Inr (int (length st)))))"

text \<open>\<open>run\<close>: round after round; a round that failed is logged and the next one starts.\<close>

definition publisher_run ::
    "((string \<times> bool) list result \<times> (string \<times> raw \<Rightarrow> py_error option)) list \<Rightarrow> (string \<times> raw) list" where
  "publisher_run rounds = concat (map (\<lambda>(fetch, send). fst (publish_once fetch send)) rounds)"

section \<open>One round of the registry reaches the follower\<close>

definition status_message :: "string \<times> bool \<Rightarrow> string \<times> raw" where
  "status_message e = (fst e, RObj [(''company_id'', JStr (fst e)), (''active'', JBool (snd e))])"

lemma registry_rows_canonical:
  "(c, a) \<in> set (registry_rows rows) \<Longrightarrow>
     canonical_company_id c = Inr c \<and> (\<exists>s. (s, a) \<in> set rows \<and> company_id_from_schema s = Inr c)"
  by (induction rows rule: registry_rows.induct)
    (auto split: sum.splits dest: company_id_from_schema_strict)

lemma registry_rows_mem:
  "(s, a) \<in> set rows \<Longrightarrow> company_id_from_schema s = Inr c \<Longrightarrow> (c, a) \<in> set (registry_rows rows)"
  by (induction rows rule: registry_rows.induct) (auto split: sum.splits)

lemma registry_rows_distinct:
  assumes "distinct (map fst rows)"
  shows "distinct (map fst (registry_rows rows))"
  using assms
proof (induction rows rule: registry_rows.induct)
  case (2 s a rows)
  show ?case
  proof (cases "company_id_from_schema s")
    case (Inr c)
    have "c \<notin> fst ` set (registry_rows rows)"
    proof
      assume "c \<in> fst ` set (registry_rows rows)"
      then obtain b s' where "(s', b) \<in> set rows" "company_id_from_schema s' = Inr c"
        using registry_rows_canonical by fastforce
      with Inr have "s' = s" by (metis company_id_from_schema_inj)
      with \<open>(s', b) \<in> set rows\<close> 2(3) show False by force
    qed
    with Inr 2 show ?thesis by simp
  qed (use 2 in simp)
qed simp

lemma publish_all_complete:
  assumes "\<And>c a. (c, a) \<in> set st \<Longrightarrow> canonical_company_id c = Inr c" "send = (\<lambda>m. None)"
  shows "publish_all send st = (map status_message st, None)"
  using assms(1)
proof (induction st)
  case (Cons e st)
  obtain c a where e: "e = (c, a)" by force
  with Cons.prems have "canonical_company_id c = Inr c" by auto
  moreover have "publish_all send st = (map status_message st, None)"
    using Cons.prems by (intro Cons.IH) auto
  ultimately show ?case using e assms(2) by (simp add: status_encode_def status_message_def)
qed simp

lemma apply_message:
  "canonical_company_id (fst e) = Inr (fst e) \<Longrightarrow>
     apply_status t (snd (status_message e)) st = st\<lparr>heard := (heard st)(fst e \<mapsto> (snd e, t))\<rparr>"
  by (cases e) (simp add: apply_status_def status_message_def decode_encoded)

lemma apply_all_Cons: "apply_all ((t, v) # ms) st = apply_all ms (apply_status t v st)"
  by (simp add: apply_all_def)

text \<open>What the follower has heard after the messages of \<open>es\<close>, each at its own time.\<close>

definition heard_of :: "rat list \<Rightarrow> (string \<times> bool) list \<Rightarrow> (string \<times> bool \<times> rat) list" where
  "heard_of ts es = map (\<lambda>(t, c, a). (c, a, t)) (zip ts es)"

lemma apply_all_round:
  assumes "\<And>e. e \<in> set es \<Longrightarrow> canonical_company_id (fst e) = Inr (fst e)" "length ts = length es"
  shows "apply_all (zip ts (map (\<lambda>e. snd (status_message e)) es)) st =
    st\<lparr>heard := heard st ++ map_of (rev (heard_of ts es))\<rparr>"
  using assms
proof (induction es arbitrary: ts st)
  case (Cons e es)
  obtain t ts' where ts: "ts = t # ts'" "length ts' = length es"
    using Cons.prems(2) by (metis length_Suc_conv)
  have ap: "apply_status t (snd (status_message e)) st = st\<lparr>heard := (heard st)(fst e \<mapsto> (snd e, t))\<rparr>"
    using Cons.prems(1) by (intro apply_message) auto
  have "apply_all (zip ts' (map (\<lambda>e. snd (status_message e)) es)) st' =
      st'\<lparr>heard := heard st' ++ map_of (rev (heard_of ts' es))\<rparr>" for st'
    using Cons.prems(1) ts(2) by (intro Cons.IH) auto
  then show ?case
    using ap by (cases e) (simp add: ts apply_all_Cons heard_of_def map_add_assoc map_add_upd_left)
qed (simp add: apply_all_def heard_of_def)

lemma heard_of_get:
  assumes "distinct (map fst es)" "length ts = length es" "i < length es"
  shows "map_of (rev (heard_of ts es)) (fst (es ! i)) = Some (snd (es ! i), ts ! i)"
proof -
  have keys: "map fst (heard_of ts es) = map fst es"
    using assms(2) by (simp add: heard_of_def list_eq_iff_nth_eq split_beta)
  have "(fst (es ! i), snd (es ! i), ts ! i) \<in> set (heard_of ts es)"
  proof -
    have "(ts ! i, es ! i) \<in> set (zip ts es)" using assms(2,3) by (auto simp: set_zip)
    then show ?thesis by (cases "es ! i") (force simp: heard_of_def)
  qed
  then show ?thesis
    using assms(1) keys by (intro map_of_is_SomeI) (simp_all flip: rev_map)
qed

text \<open>
  C30. One complete round of the publisher makes ingestion agree with the registry: for a registry
  whose schema names are distinct, once every message of the round has been applied (each at its own
  time, to whatever the follower held before), a registered tenant is refused exactly when the
  registry holds it inactive, for as long as its message is not older than the staleness bound; after
  that it is let through and forgotten.
\<close>

theorem round_reaches_follower:
  assumes rows: "distinct (map fst rows)" "(schema, active) \<in> set rows"
      "company_id_from_schema schema = Inr company_id"
    and round: "publish_once (Inr rows) send = (messages, outcome)" "send = (\<lambda>m. None)"
    and times: "length ts = length messages" "\<And>t. t \<in> set ts \<Longrightarrow> t1 \<le> t \<and> t \<le> t2"
    and st': "st' = apply_all (zip ts (map snd messages)) st"
  shows "outcome = Inr (int (length (registry_rows rows))) \<and>
    (clock - t1 \<le> stale_after st \<longrightarrow> is_suspended clock company_id st' = (\<not> active, st')) \<and>
    (clock - t2 > stale_after st \<longrightarrow>
       fst (is_suspended clock company_id st') = False \<and>
       heard (snd (is_suspended clock company_id st')) company_id = None)"
proof -
  let ?es = "registry_rows rows"
  have can: "canonical_company_id (fst e) = Inr (fst e)" if "e \<in> set ?es" for e
    using that registry_rows_canonical [of "fst e" "snd e"] by simp
  then have pub: "publish_all send ?es = (map status_message ?es, None)"
    using round(2) by (intro publish_all_complete) fastforce+
  with round(1) have ms: "messages = map status_message ?es"
    and out: "outcome = Inr (int (length ?es))"
    by (auto simp: publish_once_def registry_status_def)
  have len: "length ts = length ?es" using times(1) ms by simp
  obtain i where i: "i < length ?es" "?es ! i = (company_id, active)"
    using registry_rows_mem [OF rows(2,3)] by (auto simp: in_set_conv_nth)
  have eq: "st' = st\<lparr>heard := heard st ++ map_of (rev (heard_of ts ?es))\<rparr>"
    using apply_all_round [OF can len] by (simp add: st' ms comp_def)
  have "heard st' company_id = Some (active, ts ! i)" "stale_after st' = stale_after st"
    using heard_of_get [OF registry_rows_distinct [OF rows(1)] len i(1)] i(2) by (simp_all add: eq)
  moreover have "t1 \<le> ts ! i" "ts ! i \<le> t2" using times(2) i(1) len by simp_all
  ultimately show ?thesis using out by (auto simp: is_suspended_def)
qed

text \<open>A message that is not a status changes nothing, whatever it holds.\<close>

lemma apply_status_ignored: "status_decode v = Inl e \<Longrightarrow> apply_status t v st = st"
  by (simp add: apply_status_def)

lemma schema_a:
  "company_id_from_schema ''tenant_0b2f503a_6e59_4c8d_9a01_0123456789ab'' = Inr uuid_a"
proof -
  have "uscore uuid_a = ''0b2f503a_6e59_4c8d_9a01_0123456789ab''" by simp
  then show ?thesis using company_id_from_schema_of_schema [of uuid_a uuid_a] by simp
qed

theorem round_reaches_follower_witness:
  "is_suspended 30 uuid_a (apply_status 10 (RObj [(''company_id'', JStr uuid_a), (''active'', JBool False)])
     TenantStatus_init) =
   (True, apply_status 10 (RObj [(''company_id'', JStr uuid_a), (''active'', JBool False)]) TenantStatus_init)"
proof -
  let ?m = "(uuid_a, RObj [(''company_id'', JStr uuid_a), (''active'', JBool False)])"
  let ?rows = "[(''tenant_0b2f503a_6e59_4c8d_9a01_0123456789ab'', False)]"
  have p: "publish_once (Inr ?rows) (\<lambda>m. None) = ([?m], Inr 1)"
    using schema_a by (simp add: publish_once_def registry_status_def status_encode_def)
  have d: "distinct (map fst ?rows)" and m: "(''tenant_0b2f503a_6e59_4c8d_9a01_0123456789ab'', False) \<in> set ?rows"
    by simp_all
  have ts: "\<And>t. t \<in> set [10] \<Longrightarrow> (10::rat) \<le> t \<and> t \<le> 10" and l: "length [10::rat] = length [?m]"
    by simp_all
  show ?thesis
    using round_reaches_follower [OF d m schema_a p refl l ts refl, of 30 TenantStatus_init]
    by (simp add: TenantStatus_init_def STALE_AFTER_SECONDS_def PUBLISH_INTERVAL_SECONDS_def
        apply_all_def)
qed

end
