(* ===== verification/Redis.thy ===== *)
theory Redis
  imports Prelude
begin

text \<open>
  The shared key-value store the services reach through a Redis client. It is not part of the
  repository, so it is a parameter: a record of the commands the code issues, over an arbitrary type
  \<open>'s\<close> of store states, and the locale \<open>redis\<close> with what the code relies on: the documented
  effect of each command on what can be read later. Every key holds a text, a hash or a set, for a
  limited or an unlimited time; \<open>view\<close> is what a read at a time finds.

  \<open>ref_redis\<close> is a store in memory that satisfies the laws, so that no theorem about the services
  rests on assumptions no store could meet.
\<close>

section \<open>Commands\<close>

datatype rvalue = VText raw | VHash "(string, raw) od" | VSet "string list"

text \<open>One entry of a stream: its fields. The text of an ISO timestamp stands as the time it reads as.\<close>

datatype ftext = FStr string | FTime datetime

type_synonym fields = "(string, ftext) od"

record 's redis =
  view :: "'s \<Rightarrow> rat \<Rightarrow> string \<Rightarrow> rvalue option"
  stream :: "'s \<Rightarrow> fields list"
  c_set :: "'s \<Rightarrow> rat \<Rightarrow> string \<Rightarrow> raw \<Rightarrow> rat option \<Rightarrow> 's"
  c_del :: "'s \<Rightarrow> rat \<Rightarrow> string \<Rightarrow> 's"
  c_expire :: "'s \<Rightarrow> rat \<Rightarrow> string \<Rightarrow> rat \<Rightarrow> 's"
  c_modify :: "'s \<Rightarrow> rat \<Rightarrow> string \<Rightarrow> rvalue \<Rightarrow> 's"
  c_xadd :: "'s \<Rightarrow> nat \<Rightarrow> fields \<Rightarrow> 's"

text \<open>\<open>GET\<close>, \<open>EXISTS\<close>, \<open>HGETALL\<close>, \<open>SMEMBERS\<close>.\<close>

definition r_get :: "'s redis \<Rightarrow> 's \<Rightarrow> rat \<Rightarrow> string \<Rightarrow> raw option" where
  "r_get R s t k = (case view R s t k of Some (VText v) \<Rightarrow> Some v | _ \<Rightarrow> None)"

definition r_exists :: "'s redis \<Rightarrow> 's \<Rightarrow> rat \<Rightarrow> string \<Rightarrow> bool" where
  "r_exists R s t k \<longleftrightarrow> view R s t k \<noteq> None"

definition r_hgetall :: "'s redis \<Rightarrow> 's \<Rightarrow> rat \<Rightarrow> string \<Rightarrow> (string, raw) od" where
  "r_hgetall R s t k = (case view R s t k of Some (VHash h) \<Rightarrow> h | _ \<Rightarrow> [])"

definition r_smembers :: "'s redis \<Rightarrow> 's \<Rightarrow> rat \<Rightarrow> string \<Rightarrow> string list" where
  "r_smembers R s t k = (case view R s t k of Some (VSet m) \<Rightarrow> m | _ \<Rightarrow> [])"

text \<open>\<open>SET k v NX EX ttl\<close>, \<open>GETDEL\<close>, \<open>DEL\<close> with its reply, \<open>INCR\<close>.\<close>

definition r_setnx :: "'s redis \<Rightarrow> 's \<Rightarrow> rat \<Rightarrow> string \<Rightarrow> raw \<Rightarrow> rat \<Rightarrow> bool \<times> 's" where
  "r_setnx R s t k v ttl =
     (if r_exists R s t k then (False, s) else (True, c_set R s t k v (Some ttl)))"

definition r_getdel :: "'s redis \<Rightarrow> 's \<Rightarrow> rat \<Rightarrow> string \<Rightarrow> raw option \<times> 's" where
  "r_getdel R s t k = (r_get R s t k, c_del R s t k)"

definition r_del :: "'s redis \<Rightarrow> 's \<Rightarrow> rat \<Rightarrow> string \<Rightarrow> int \<times> 's" where
  "r_del R s t k = (if r_exists R s t k then 1 else 0, c_del R s t k)"

definition count_of :: "raw option \<Rightarrow> int" where
  "count_of r = (case r of Some (RNum (Fin q)) \<Rightarrow> \<lfloor>q\<rfloor> | _ \<Rightarrow> 0)"

definition r_incr :: "'s redis \<Rightarrow> 's \<Rightarrow> rat \<Rightarrow> string \<Rightarrow> int \<times> 's" where
  "r_incr R s t k =
     (let n = count_of (r_get R s t k) + 1 in (n, c_modify R s t k (VText (RNum (Fin (of_int n))))))"

definition r_hset :: "'s redis \<Rightarrow> 's \<Rightarrow> rat \<Rightarrow> string \<Rightarrow> string \<Rightarrow> raw \<Rightarrow> 's" where
  "r_hset R s t k f v = c_modify R s t k (VHash (od_set (r_hgetall R s t k) f v))"

definition r_hdel :: "'s redis \<Rightarrow> 's \<Rightarrow> rat \<Rightarrow> string \<Rightarrow> string list \<Rightarrow> 's" where
  "r_hdel R s t k fs =
     (if r_exists R s t k
      then c_modify R s t k (VHash (filter (\<lambda>(f, v). f \<notin> set fs) (r_hgetall R s t k))) else s)"

definition r_sadd :: "'s redis \<Rightarrow> 's \<Rightarrow> rat \<Rightarrow> string \<Rightarrow> string \<Rightarrow> 's" where
  "r_sadd R s t k m = c_modify R s t k (VSet (List.insert m (r_smembers R s t k)))"

definition r_srem :: "'s redis \<Rightarrow> 's \<Rightarrow> rat \<Rightarrow> string \<Rightarrow> string list \<Rightarrow> 's" where
  "r_srem R s t k ms =
     (if r_exists R s t k
      then c_modify R s t k (VSet (filter (\<lambda>m. m \<notin> set ms) (r_smembers R s t k))) else s)"

section \<open>What the code relies on\<close>

definition lives :: "rat option \<Rightarrow> rat \<Rightarrow> rat \<Rightarrow> bool" where
  "lives ttl t t' = (case ttl of None \<Rightarrow> True | Some d \<Rightarrow> t' < t + d)"

fun empty_value :: "rvalue \<Rightarrow> bool" where
  "empty_value (VText r) = False"
| "empty_value (VHash h) = (h = [])"
| "empty_value (VSet m) = (m = [])"

locale redis =
  fixes R :: "'s redis"
  assumes view_stable: "t \<le> t' \<Longrightarrow> view R s t' k = Some x \<Longrightarrow> view R s t k = Some x"
    and view_set: "t \<le> t' \<Longrightarrow> view R (c_set R s t k v ttl) t' k' =
      (if k' = k then (if lives ttl t t' then Some (VText v) else None) else view R s t' k')"
    and view_del: "t \<le> t' \<Longrightarrow> view R (c_del R s t k) t' k' = (if k' = k then None else view R s t' k')"
    and view_expire: "t \<le> t' \<Longrightarrow> view R (c_expire R s t k d) t' k' =
      (if k' = k then (if t' < t + d then view R s t k else None) else view R s t' k')"
    and view_modify: "t \<le> t' \<Longrightarrow> view R (c_modify R s t k x) t' k' =
      (if k' = k then (if (view R s t k = None \<or> view R s t' k \<noteq> None) \<and> \<not> empty_value x
                       then Some x else None)
       else view R s t' k')"
    and view_xadd: "view R (c_xadd R s n e) t k = view R s t k"
    and stream_set: "stream R (c_set R s t k v ttl) = stream R s"
    and stream_del: "stream R (c_del R s t k) = stream R s"
    and stream_expire: "stream R (c_expire R s t k d) = stream R s"
    and stream_modify: "stream R (c_modify R s t k x) = stream R s"
    and stream_xadd: "\<exists>m. stream R (c_xadd R s n e) = drop m (stream R s) @ [e] \<and>
      (length (stream R s) < n \<longrightarrow> m = 0)"
begin

lemmas views = view_set view_del view_expire view_modify view_xadd

lemmas streams = stream_set stream_del stream_expire stream_modify

lemma view_gone: "t \<le> t' \<Longrightarrow> view R s t k = None \<Longrightarrow> view R s t' k = None"
  using view_stable by (metis not_Some_eq)

lemma get_set: "t \<le> t' \<Longrightarrow> r_get R (c_set R s t k v ttl) t' k' =
    (if k' = k then (if lives ttl t t' then Some v else None) else r_get R s t' k')"
  by (simp add: r_get_def view_set)

lemma get_del: "t \<le> t' \<Longrightarrow> r_get R (c_del R s t k) t' k' = (if k' = k then None else r_get R s t' k')"
  by (simp add: r_get_def view_del)

lemma get_other:
  assumes "t \<le> t'" "k' \<noteq> k"
  shows "r_get R (c_expire R s t k d) t' k' = r_get R s t' k'"
    and "r_get R (c_modify R s t k x) t' k' = r_get R s t' k'"
  using assms by (simp_all add: r_get_def view_expire view_modify)

lemma get_xadd [simp]: "r_get R (c_xadd R s n e) t k = r_get R s t k"
  by (simp add: r_get_def view_xadd)

lemma get_stable: "t \<le> t' \<Longrightarrow> r_get R s t' k = Some v \<Longrightarrow> r_get R s t k = Some v"
  using view_stable by (fastforce simp: r_get_def split: option.splits rvalue.splits)

lemma get_gone: "t \<le> t' \<Longrightarrow> view R s t k = None \<Longrightarrow> r_get R s t' k = None"
  by (simp add: r_get_def view_gone)

lemma exists_gone: "t \<le> t' \<Longrightarrow> \<not> r_exists R s t k \<Longrightarrow> \<not> r_exists R s t' k"
  by (simp add: r_exists_def view_gone)

lemma exists_get: "r_get R s t k \<noteq> None \<Longrightarrow> r_exists R s t k"
  by (auto simp: r_exists_def r_get_def split: option.splits)

lemma xadd_last: "last (stream R (c_xadd R s n e)) = e \<and> stream R (c_xadd R s n e) \<noteq> []"
  using stream_xadd [of s n e] by auto

lemma xadd_room: "length (stream R s) < n \<Longrightarrow> stream R (c_xadd R s n e) = stream R s @ [e]"
  using stream_xadd [of s n e] by auto

lemma xadd_length: "length (stream R (c_xadd R s n e)) \<le> length (stream R s) + 1"
  using stream_xadd [of s n e] by auto

end

section \<open>A store in memory\<close>

record mem =
  ents :: "string \<rightharpoonup> rvalue \<times> rat option"
  mem_stream :: "fields list"

definition mem_empty :: mem where
  "mem_empty = \<lparr>ents = Map.empty, mem_stream = []\<rparr>"

definition mem_view :: "mem \<Rightarrow> rat \<Rightarrow> string \<Rightarrow> rvalue option" where
  "mem_view s t k =
     (case ents s k of
        None \<Rightarrow> None
      | Some (v, None) \<Rightarrow> Some v
      | Some (v, Some e) \<Rightarrow> if t < e then Some v else None)"

definition mem_expiry :: "mem \<Rightarrow> rat \<Rightarrow> string \<Rightarrow> rat option" where
  "mem_expiry s t k = (if mem_view s t k = None then None else case ents s k of None \<Rightarrow> None | Some (v, e) \<Rightarrow> e)"

definition ref_redis :: "mem redis" where
  "ref_redis =
     \<lparr>view = mem_view,
      stream = mem_stream,
      c_set = (\<lambda>s t k v ttl. s\<lparr>ents := (ents s)(k \<mapsto> (VText v, map_option (\<lambda>d. t + d) ttl))\<rparr>),
      c_del = (\<lambda>s t k. s\<lparr>ents := (ents s)(k := None)\<rparr>),
      c_expire = (\<lambda>s t k d. s\<lparr>ents := (ents s)(k := map_option (\<lambda>v. (v, Some (t + d))) (mem_view s t k))\<rparr>),
      c_modify = (\<lambda>s t k x. s\<lparr>ents := (ents s)(k := (if empty_value x then None else Some (x, mem_expiry s t k)))\<rparr>),
      c_xadd = (\<lambda>s n e. s\<lparr>mem_stream := drop (length (mem_stream s) + 1 - n) (mem_stream s) @ [e]\<rparr>)\<rparr>"

interpretation ref: redis ref_redis
proof unfold_locales
  fix s :: mem and t t' d :: rat and k k' :: string and v x and n :: nat and e :: fields
  assume le: "t \<le> t'"
  show "view ref_redis s t' k = Some v \<Longrightarrow> view ref_redis s t k = Some v"
    using le by (auto simp: ref_redis_def mem_view_def split: option.splits if_splits)
  show "view ref_redis (c_expire ref_redis s t k d) t' k' =
      (if k' = k then (if t' < t + d then view ref_redis s t k else None) else view ref_redis s t' k')"
    by (auto simp: ref_redis_def mem_view_def split: option.splits if_splits)
  show "view ref_redis (c_modify ref_redis s t k x) t' k' =
      (if k' = k then (if (view ref_redis s t k = None \<or> view ref_redis s t' k \<noteq> None) \<and> \<not> empty_value x
                       then Some x else None)
       else view ref_redis s t' k')"
    using le by (auto simp: ref_redis_def mem_view_def mem_expiry_def split: option.splits if_splits)
next
  fix s :: mem and n :: nat and e :: fields
  show "\<exists>m. stream ref_redis (c_xadd ref_redis s n e) = drop m (stream ref_redis s) @ [e] \<and>
      (length (stream ref_redis s) < n \<longrightarrow> m = 0)"
    by (rule exI [of _ "length (mem_stream s) + 1 - n"]) (auto simp: ref_redis_def)
qed (auto simp: ref_redis_def mem_view_def lives_def split: option.splits)

lemmas ref_eval = ref_redis_def mem_view_def mem_expiry_def mem_empty_def r_get_def r_exists_def
  r_hgetall_def r_smembers_def r_setnx_def r_getdel_def r_del_def r_incr_def r_hset_def r_hdel_def
  r_sadd_def r_srem_def count_of_def

end
