(* ===== verification/Capability_Audit.thy ===== *)
theory Capability_Audit
  imports Tenancy Redis
begin

text \<open>
  \<open>libs/industryflow_contracts/industryflow_contracts/capability_audit.py\<close>: the events of the
  capability-use record, the scripts that append them to the stream in one atomic step with the store
  change they describe, and the writer's reading of an entry. A script is a function of the store, the
  time it runs at, its keys and its arguments; the event's pairs are passed as the fields themselves,
  which is what \<open>flat\<close> and \<open>unpack\<close> carry. Hashing is the parameter \<open>sha256hex\<close>.

  Shown: every event the contract builds, the writer reads back; a first use is appended once per
  marker lifetime; what one source can append with unknown values is bounded; a repeatable event is
  recorded or counted, never lost; a removal is recorded exactly when it removed a live entry.
\<close>

section \<open>Constants\<close>

definition STREAM_KEY :: string where "STREAM_KEY = ''nbcap-audit''"
definition STREAM_MAXLEN :: nat where "STREAM_MAXLEN = 100000"
definition FIRST_USE_PREFIX :: string where "FIRST_USE_PREFIX = ''nbcap-audit-seen:''"
definition FIRST_USE_MARKER_TTL_SECONDS :: rat where "FIRST_USE_MARKER_TTL_SECONDS = 7 * 24 * 3600"
definition UNKNOWN_REFUSAL_PREFIX :: string where "UNKNOWN_REFUSAL_PREFIX = ''nbcap-audit-refused:''"
definition UNKNOWN_REFUSAL_WINDOW_SECONDS :: rat where "UNKNOWN_REFUSAL_WINDOW_SECONDS = 3600"
definition SOURCE_LIMIT_PREFIX :: string where "SOURCE_LIMIT_PREFIX = ''nbcap-audit-source:''"
definition SOURCE_LIMIT :: int where "SOURCE_LIMIT = 60"
definition SOURCE_WINDOW_SECONDS :: rat where "SOURCE_WINDOW_SECONDS = 60"
definition REPEAT_PREFIX :: string where "REPEAT_PREFIX = ''nbcap-audit-repeat:''"
definition REPEAT_COUNT_PREFIX :: string where "REPEAT_COUNT_PREFIX = ''nbcap-audit-repeats:''"
definition REPEAT_WINDOW_SECONDS :: rat where "REPEAT_WINDOW_SECONDS = 300"
definition REPEAT_COUNT_TTL_SECONDS :: rat where "REPEAT_COUNT_TTL_SECONDS = 7 * 24 * 3600"

definition KINDS :: "string list" where
  "KINDS = [''minted'', ''first_use'', ''refused'', ''revoked'', ''consumed'', ''environment_started'',
     ''environment_stopped'', ''sql_session_opened'', ''sql_session_closed'']"

definition REPEATABLE :: "string list" where
  "REPEATABLE = [''refused'', ''sql_session_opened'', ''sql_session_closed'']"

definition PLANES :: "string list" where
  "PLANES = [''hub'', ''ml_service'', ''api_gateway'', ''sql_proxy'', ''tracking_gateway'',
     ''cold_broker'', ''tenant_delete'']"

definition AUDIENCES :: "string list" where
  "AUDIENCES = [''api'', ''sql'', ''tracking'', ''cold'', ''upload'']"

definition MAX_DETAIL :: nat where "MAX_DETAIL = 512"

section \<open>Events\<close>

text \<open>\<open>str(uuid.UUID(str(v)))\<close>, which is also \<open>tenancy.canonical_company_id\<close>.\<close>

abbreviation uuid_text :: "string \<Rightarrow> string result" where
  "uuid_text \<equiv> canonical_company_id"

definition opt_uuid :: "string option \<Rightarrow> string option result" where
  "opt_uuid v = (case v of None \<Rightarrow> Inr None | Some x \<Rightarrow> res_map Some (uuid_text x))"

text \<open>
  \<open>^[0-9a-f]{16}$\<close>; \<open>$\<close> also matches before a newline that ends the text.
\<close>

definition digest_ok :: "string \<Rightarrow> bool" where
  "digest_ok d \<longleftrightarrow>
     (let b = (if d \<noteq> [] \<and> last d = CHR 0x0A then butlast d else d)
      in length b = 16 \<and> list_all lower_hex b)"

text \<open>
  \<open>_text\<close>. The code point U+FFFD that replaces a NUL lies beyond the modelled ones; the character
  \<open>REPLACEMENT\<close> stands for it.
\<close>

definition REPLACEMENT :: char where "REPLACEMENT = CHR 0x1A"

definition audit_text :: "string \<Rightarrow> string" where
  "audit_text v = take MAX_DETAIL (py_replace [CHR 0x00] [REPLACEMENT] v)"

text \<open>The keyword arguments of \<open>event\<close>, None where one is not given.\<close>

record event_args =
  ev_user :: "string option"
  ev_company :: "string option"
  ev_audience :: "string option"
  ev_handle :: "string option"
  ev_digest :: "string option"
  ev_reason :: "string option"
  ev_detail :: "string option"

definition no_args :: event_args where
  "no_args = \<lparr>ev_user = None, ev_company = None, ev_audience = None, ev_handle = None,
     ev_digest = None, ev_reason = None, ev_detail = None\<rparr>"

definition opt_field :: "string \<Rightarrow> string option \<Rightarrow> fields" where
  "opt_field name v = (case v of None \<Rightarrow> [] | Some x \<Rightarrow> [(name, FStr x)])"

definition audit_event :: "string \<Rightarrow> string \<Rightarrow> datetime \<Rightarrow> event_args \<Rightarrow> fields result" where
  "audit_event kind plane now a =
     (if kind \<notin> set KINDS then Inl ValueError
      else if plane \<notin> set PLANES then Inl ValueError
      else if (case ev_audience a of None \<Rightarrow> False | Some x \<Rightarrow> x \<notin> set AUDIENCES) then Inl ValueError
      else (case opt_uuid (ev_company a) of
         Inl e \<Rightarrow> Inl e
       | Inr company \<Rightarrow>
           (case opt_uuid (ev_handle a) of
              Inl e \<Rightarrow> Inl e
            | Inr handle \<Rightarrow>
                if (case ev_digest a of None \<Rightarrow> False | Some d \<Rightarrow> \<not> digest_ok d) then Inl ValueError
                else Inr ([(''kind'', FStr kind), (''plane'', FStr plane), (''at'', FTime now)]
                  @ opt_field ''company_id'' company @ opt_field ''handle_id'' handle
                  @ opt_field ''user'' (map_option audit_text (ev_user a))
                  @ opt_field ''audience'' (map_option audit_text (ev_audience a))
                  @ opt_field ''digest'' (map_option audit_text (ev_digest a))
                  @ opt_field ''reason'' (map_option audit_text (ev_reason a))
                  @ opt_field ''detail'' (map_option audit_text (ev_detail a))))))"

section \<open>The writer's reading\<close>

record audit_row =
  row_kind :: string
  row_plane :: string
  row_at :: datetime
  row_user :: "string option"
  row_company :: "string option"
  row_audience :: "string option"
  row_handle :: "string option"
  row_digest :: "string option"
  row_reason :: "string option"
  row_detail :: "string option"
  row_suppressed :: "string option"

definition fget :: "fields \<Rightarrow> string \<Rightarrow> string option" where
  "fget f k = (case map_of f k of Some (FStr s) \<Rightarrow> Some s | _ \<Rightarrow> None)"

text \<open>\<open>re.fullmatch(r"[1-9][0-9]{0,9}", s) and int(s) < 2**31\<close>.\<close>

definition is_digit :: "char \<Rightarrow> bool" where
  "is_digit c \<longleftrightarrow> 48 \<le> ord c \<and> ord c \<le> 57"

definition decimal :: "string \<Rightarrow> int" where
  "decimal s = foldl (\<lambda>n c. 10 * n + (ord c - 48)) 0 s"

definition suppressed_ok :: "string \<Rightarrow> bool" where
  "suppressed_ok s \<longleftrightarrow>
     s \<noteq> [] \<and> list_all is_digit s \<and> hd s \<noteq> CHR ''0'' \<and> length s \<le> 10 \<and> decimal s < 2 ^ 31"

definition audit_decode :: "fields \<Rightarrow> audit_row result" where
  "audit_decode f =
     (case (fget f ''kind'', fget f ''plane'') of
        (Some kind, Some plane) \<Rightarrow>
          if kind \<notin> set KINDS \<or> plane \<notin> set PLANES then Inl ValueError
          else (case map_of f ''at'' of
             None \<Rightarrow> Inl KeyError
           | Some (FStr _) \<Rightarrow> Inl ValueError
           | Some (FTime moment) \<Rightarrow>
               if utc_offset moment = None then Inl ValueError
               else (case opt_uuid (fget f ''company_id'') of
                  Inl e \<Rightarrow> Inl e
                | Inr company \<Rightarrow>
                    (case opt_uuid (fget f ''handle_id'') of
                       Inl e \<Rightarrow> Inl e
                     | Inr handle \<Rightarrow>
                         if (case fget f ''audience'' of None \<Rightarrow> False | Some x \<Rightarrow> x \<notin> set AUDIENCES)
                         then Inl ValueError
                         else if (case fget f ''digest'' of None \<Rightarrow> False | Some d \<Rightarrow> \<not> digest_ok d)
                         then Inl ValueError
                         else if (case fget f ''suppressed'' of None \<Rightarrow> False | Some n \<Rightarrow> \<not> suppressed_ok n)
                         then Inl ValueError
                         else Inr \<lparr>row_kind = kind, row_plane = plane, row_at = moment,
                           row_user = map_option audit_text (fget f ''user''), row_company = company,
                           row_audience = fget f ''audience'', row_handle = handle,
                           row_digest = fget f ''digest'',
                           row_reason = map_option audit_text (fget f ''reason''),
                           row_detail = map_option audit_text (fget f ''detail''),
                           row_suppressed = fget f ''suppressed''\<rparr>)))
      | _ \<Rightarrow> Inl ValueError)"

section \<open>Keys and scripts\<close>

definition presented_digest :: "(string \<Rightarrow> string) \<Rightarrow> string \<Rightarrow> string" where
  "presented_digest sha256hex handle = take 16 (sha256hex handle)"

definition first_use_key :: "string \<Rightarrow> string \<Rightarrow> string" where
  "first_use_key handle_id plane = FIRST_USE_PREFIX @ plane @ '':'' @ handle_id"

definition unknown_refusal_key :: "string \<Rightarrow> string \<Rightarrow> string" where
  "unknown_refusal_key digest plane = UNKNOWN_REFUSAL_PREFIX @ plane @ '':'' @ digest"

definition source_limit_key :: "string \<Rightarrow> string \<Rightarrow> string" where
  "source_limit_key plane src = SOURCE_LIMIT_PREFIX @ plane @ '':'' @ src"

definition or_empty :: "string option \<Rightarrow> string" where
  "or_empty v = (case v of None \<Rightarrow> [] | Some x \<Rightarrow> x)"

definition repeat_keys :: "fields \<Rightarrow> string \<times> string" where
  "repeat_keys f =
     (let what = or_empty (fget f ''handle_id'') @ '':'' @ or_empty (fget f ''plane'') @ '':'' @
        or_empty (fget f ''kind'') @ '':'' @ or_empty (fget f ''reason'')
      in (REPEAT_PREFIX @ what, REPEAT_COUNT_PREFIX @ what))"

definition repeat_script_args :: "fields \<Rightarrow> (string \<times> string) result" where
  "repeat_script_args f =
     (if (case fget f ''kind'' of None \<Rightarrow> True | Some k \<Rightarrow> k \<notin> set REPEATABLE) \<or> fget f ''handle_id'' = None
      then Inl ValueError else Inr (repeat_keys f))"

definition first_use_script_args :: "fields \<Rightarrow> string result" where
  "first_use_script_args f =
     (case (fget f ''handle_id'', fget f ''plane'') of
        (Some h, Some p) \<Rightarrow>
          if fget f ''kind'' \<noteq> Some ''first_use'' then Inl ValueError else Inr (first_use_key h p)
      | _ \<Rightarrow> Inl ValueError)"

definition delete_recorded_args :: "string \<Rightarrow> fields \<Rightarrow> string result" where
  "delete_recorded_args store_key f =
     (if fget f ''kind'' \<noteq> Some ''revoked'' \<and> fget f ''kind'' \<noteq> Some ''consumed''
      then Inl ValueError else Inr store_key)"

abbreviation marker_value :: raw where "marker_value \<equiv> RNum (Fin 1)"

definition FIRST_USE_SCRIPT :: "'s redis \<Rightarrow> 's \<Rightarrow> rat \<Rightarrow> string \<Rightarrow> rat \<Rightarrow> nat \<Rightarrow> fields \<Rightarrow> int \<times> 's" where
  "FIRST_USE_SCRIPT R s t marker ttl maxlen f =
     (case r_setnx R s t marker marker_value ttl of
        (True, s1) \<Rightarrow> (1, c_xadd R s1 maxlen f)
      | (False, s1) \<Rightarrow> (0, s1))"

definition UNKNOWN_REFUSAL_SCRIPT ::
    "'s redis \<Rightarrow> 's \<Rightarrow> rat \<Rightarrow> string \<Rightarrow> string \<Rightarrow> rat \<Rightarrow> int \<Rightarrow> rat \<Rightarrow> nat \<Rightarrow> fields \<Rightarrow> int \<times> 's" where
  "UNKNOWN_REFUSAL_SCRIPT R s t marker counter window limit source_window maxlen f =
     (if r_exists R s t marker then (0, s)
      else (case r_incr R s t counter of
         (n, s1) \<Rightarrow>
           (let s2 = (if n = 1 then c_expire R s1 t counter source_window else s1)
            in if n > limit then (if n = limit + 1 then (-1, s2) else (-2, s2))
               else (1, c_xadd R (c_set R s2 t marker marker_value (Some window)) maxlen f))))"

definition REPEAT_SCRIPT ::
    "'s redis \<Rightarrow> 's \<Rightarrow> rat \<Rightarrow> string \<Rightarrow> string \<Rightarrow> rat \<Rightarrow> rat \<Rightarrow> nat \<Rightarrow> fields \<Rightarrow> int \<times> 's" where
  "REPEAT_SCRIPT R s t marker counter window count_ttl maxlen f =
     (case r_setnx R s t marker marker_value window of
        (True, s1) \<Rightarrow>
          (case r_getdel R s1 t counter of
             (n, s2) \<Rightarrow>
               (1, c_xadd R s2 maxlen
                  (case n of None \<Rightarrow> f | Some _ \<Rightarrow> f @ [(''suppressed'', FStr (show_int (count_of n)))])))
      | (False, s1) \<Rightarrow> (0, c_expire R (snd (r_incr R s1 t counter)) t counter count_ttl))"

definition DELETE_RECORDED_SCRIPT :: "'s redis \<Rightarrow> 's \<Rightarrow> rat \<Rightarrow> string \<Rightarrow> nat \<Rightarrow> fields \<Rightarrow> int \<times> 's" where
  "DELETE_RECORDED_SCRIPT R s t key maxlen f =
     (case r_del R s t key of (removed, s1) \<Rightarrow> (removed, if removed = 1 then c_xadd R s1 maxlen f else s1))"

text \<open>
  \<open>refusal\<close> returns which script to evaluate with which keys; \<open>eval_refusal\<close> evaluates it with the
  contract's windows and bounds, as every plane does.
\<close>

type_synonym facts = "(string, string) od"

datatype refusal_call = UnknownCall string string fields | RepeatCall string string fields

definition refusal ::
    "(string \<Rightarrow> string) \<Rightarrow> string \<Rightarrow> string \<Rightarrow> string \<Rightarrow> facts \<Rightarrow> string option \<Rightarrow> datetime \<Rightarrow> refusal_call result" where
  "refusal sha256hex plane handle reason facts src now =
     (case od_get facts ''handle_id'' of
        None \<Rightarrow>
          (let digest = presented_digest sha256hex handle;
               named = (case src of None \<Rightarrow> None | Some x \<Rightarrow> if x = [] then None else Some x)
           in case audit_event ''refused'' plane now
                \<lparr>ev_user = od_get facts ''user'', ev_company = od_get facts ''company_id'',
                 ev_audience = od_get facts ''audience'', ev_handle = None, ev_digest = Some digest,
                 ev_reason = Some reason, ev_detail = map_option (\<lambda>x. ''source='' @ x) named\<rparr> of
                Inl e \<Rightarrow> Inl e
              | Inr f \<Rightarrow> Inr (UnknownCall (unknown_refusal_key digest plane)
                  (source_limit_key plane (case named of None \<Rightarrow> ''unknown'' | Some x \<Rightarrow> x)) f))
      | Some h \<Rightarrow>
          (case audit_event ''refused'' plane now
                \<lparr>ev_user = od_get facts ''user'', ev_company = od_get facts ''company_id'',
                 ev_audience = od_get facts ''audience'', ev_handle = Some h, ev_digest = None,
                 ev_reason = Some reason, ev_detail = None\<rparr> of
             Inl e \<Rightarrow> Inl e
           | Inr f \<Rightarrow> res_map (\<lambda>(m, c). RepeatCall m c f) (repeat_script_args f)))"

definition eval_refusal :: "'s redis \<Rightarrow> 's \<Rightarrow> rat \<Rightarrow> refusal_call \<Rightarrow> int \<times> 's" where
  "eval_refusal R s t call =
     (case call of
        UnknownCall m c f \<Rightarrow>
          UNKNOWN_REFUSAL_SCRIPT R s t m c UNKNOWN_REFUSAL_WINDOW_SECONDS SOURCE_LIMIT
            SOURCE_WINDOW_SECONDS STREAM_MAXLEN f
      | RepeatCall m c f \<Rightarrow>
          REPEAT_SCRIPT R s t m c REPEAT_WINDOW_SECONDS REPEAT_COUNT_TTL_SECONDS STREAM_MAXLEN f)"

text \<open>
  \<open>client_source\<close>: the address the edge reported, when the connecting peer is the edge. Whether it is
  (\<open>EdgePeers.contains\<close>) is the parameter \<open>edge\<close>.
\<close>

definition client_source :: "(string \<Rightarrow> bool) \<Rightarrow> string option \<Rightarrow> string option \<Rightarrow> string option" where
  "client_source edge peer reported =
     (case (peer, reported) of
        (Some p, Some r) \<Rightarrow>
          if r \<noteq> [] \<and> edge p
          then (let named = take 64 (py_strip (hd (split_on (CHR '','') r)))
                in Some (if named = [] then p else named))
          else peer
      | _ \<Rightarrow> peer)"

section \<open>Events round trip\<close>

lemma audit_text_idem [simp]: "audit_text (audit_text v) = audit_text v"
proof -
  have "map (\<lambda>x. if x = CHR 0x00 then REPLACEMENT else x) (audit_text v) = audit_text v"
    by (auto simp: audit_text_def py_replace_map REPLACEMENT_def take_map intro!: map_idI dest!: in_set_takeD)
  then show ?thesis
    by (subst audit_text_def) (simp add: py_replace_map, simp add: audit_text_def)
qed

lemma audit_text_id: "CHR 0x00 \<notin> set v \<Longrightarrow> length v \<le> 512 \<Longrightarrow> audit_text v = v"
  by (simp add: audit_text_def MAX_DETAIL_def py_replace_absent)

lemma audience_text: "x \<in> set AUDIENCES \<Longrightarrow> audit_text x = x"
  by (intro audit_text_id) (auto simp: AUDIENCES_def)

lemma digest_text:
  assumes "digest_ok d"
  shows "audit_text d = d"
proof -
  have hex: "\<not> lower_hex (CHR 0x00)" by (simp add: lower_hex_def ord_def)
  define b where "b = (if d \<noteq> [] \<and> last d = CHR 0x0A then butlast d else d)"
  have "d = b \<or> d = b @ [CHR 0x0A]"
    unfolding b_def using append_butlast_last_id [of d] by metis
  moreover have "length b = 16" "list_all lower_hex b"
    using assms by (auto simp: digest_ok_def Let_def b_def)
  moreover note b = calculation
  then have "CHR 0x00 \<notin> set b" using hex by (auto simp: list_all_iff)
  with b show ?thesis by (intro audit_text_id) auto
qed

lemma fget_simps [simp]:
  "fget [] k = None"
  "fget ((n, FStr x) # rest) k = (if k = n then Some x else fget rest k)"
  "fget ((n, FTime d) # rest) k = (if k = n then None else fget rest k)"
  "fget (opt_field n v @ rest) k =
     (if k = n then (case v of None \<Rightarrow> fget rest k | Some x \<Rightarrow> Some x) else fget rest k)"
  "fget (opt_field n v) k = (if k = n then v else None)"
  by (auto simp: fget_def opt_field_def split: option.splits)

lemma case_option_id [simp]: "(case v of None \<Rightarrow> None | Some x \<Rightarrow> Some x) = v"
  by (cases v) auto

lemma opt_uuid_Inr: "opt_uuid v = Inr w \<Longrightarrow> opt_uuid w = Inr w"
  by (auto simp: opt_uuid_def dest: canonical_idem split: option.splits)

text \<open>What an event's fields hold, by name.\<close>

lemma audit_event_fields:
  assumes "audit_event kind plane now a = Inr f"
  obtains company handle where
    "kind \<in> set KINDS" "plane \<in> set PLANES" "opt_uuid (ev_company a) = Inr company"
    "opt_uuid (ev_handle a) = Inr handle"
    "\<And>x. ev_audience a = Some x \<Longrightarrow> x \<in> set AUDIENCES" "\<And>d. ev_digest a = Some d \<Longrightarrow> digest_ok d"
    "fget f ''kind'' = Some kind" "fget f ''plane'' = Some plane" "map_of f ''at'' = Some (FTime now)"
    "fget f ''company_id'' = company" "fget f ''handle_id'' = handle"
    "fget f ''user'' = map_option audit_text (ev_user a)" "fget f ''audience'' = ev_audience a"
    "fget f ''digest'' = ev_digest a" "fget f ''reason'' = map_option audit_text (ev_reason a)"
    "fget f ''detail'' = map_option audit_text (ev_detail a)" "fget f ''suppressed'' = None"
proof -
  from assms obtain company handle where
    g: "kind \<in> set KINDS" "plane \<in> set PLANES" "opt_uuid (ev_company a) = Inr company"
      "opt_uuid (ev_handle a) = Inr handle"
      "\<And>x. ev_audience a = Some x \<Longrightarrow> x \<in> set AUDIENCES" "\<And>d. ev_digest a = Some d \<Longrightarrow> digest_ok d"
    and f: "f = [(''kind'', FStr kind), (''plane'', FStr plane), (''at'', FTime now)]
      @ opt_field ''company_id'' company @ opt_field ''handle_id'' handle
      @ opt_field ''user'' (map_option audit_text (ev_user a))
      @ opt_field ''audience'' (map_option audit_text (ev_audience a))
      @ opt_field ''digest'' (map_option audit_text (ev_digest a))
      @ opt_field ''reason'' (map_option audit_text (ev_reason a))
      @ opt_field ''detail'' (map_option audit_text (ev_detail a))"
    by (fastforce simp: audit_event_def split: if_splits sum.splits option.splits)
  have "map_option audit_text (ev_audience a) = ev_audience a"
    "map_option audit_text (ev_digest a) = ev_digest a"
    using g(5,6) audience_text digest_text by (auto intro!: option.map_ident_strong)
  then show thesis by (intro that [of company handle] g) (simp_all add: f split: option.split del: map_of_append)
qed

text \<open>
  Every event a plane can build, the writer reads back as the row it meant: the kind, the plane, the
  time, the canonical tenant and handle identifiers, and the texts bounded and without NUL. So no plane
  appends what the writer would refuse.
\<close>

theorem audit_decode_event:
  assumes "audit_event kind plane now a = Inr f" "utc_offset now \<noteq> None"
  shows "\<exists>company handle. opt_uuid (ev_company a) = Inr company \<and> opt_uuid (ev_handle a) = Inr handle \<and>
    audit_decode f = Inr \<lparr>row_kind = kind, row_plane = plane, row_at = now,
      row_user = map_option audit_text (ev_user a), row_company = company,
      row_audience = ev_audience a, row_handle = handle, row_digest = ev_digest a,
      row_reason = map_option audit_text (ev_reason a),
      row_detail = map_option audit_text (ev_detail a), row_suppressed = None\<rparr>"
proof -
  from assms(1) obtain company handle where
    g: "kind \<in> set KINDS" "plane \<in> set PLANES" "opt_uuid (ev_company a) = Inr company"
      "opt_uuid (ev_handle a) = Inr handle"
      "\<And>x. ev_audience a = Some x \<Longrightarrow> x \<in> set AUDIENCES" "\<And>d. ev_digest a = Some d \<Longrightarrow> digest_ok d"
    and f: "fget f ''kind'' = Some kind" "fget f ''plane'' = Some plane"
      "map_of f ''at'' = Some (FTime now)" "fget f ''company_id'' = company"
      "fget f ''handle_id'' = handle" "fget f ''user'' = map_option audit_text (ev_user a)"
      "fget f ''audience'' = ev_audience a" "fget f ''digest'' = ev_digest a"
      "fget f ''reason'' = map_option audit_text (ev_reason a)"
      "fget f ''detail'' = map_option audit_text (ev_detail a)" "fget f ''suppressed'' = None"
    by (rule audit_event_fields) blast
  have tt: "map_option audit_text (map_option audit_text v) = map_option audit_text v" for v
    by (cases v) auto
  show ?thesis
    using g(1,2) g(3,4) [THEN opt_uuid_Inr] assms(2) g(5,6)
    by (auto simp: audit_decode_def f g(3,4) tt split: option.splits)
qed

theorem audit_decode_event_witness:
  "\<exists>f. audit_event ''first_use'' ''sql_proxy'' \<lparr>local_seconds = 0, utc_offset = Some 0\<rparr>
      (no_args\<lparr>ev_user := Some ''u'', ev_audience := Some ''sql'', ev_handle := Some uuid_a\<rparr>) = Inr f \<and>
    audit_decode f = Inr \<lparr>row_kind = ''first_use'', row_plane = ''sql_proxy'',
      row_at = \<lparr>local_seconds = 0, utc_offset = Some 0\<rparr>, row_user = Some ''u'', row_company = None,
      row_audience = Some ''sql'', row_handle = Some uuid_a, row_digest = None, row_reason = None,
      row_detail = None, row_suppressed = None\<rparr>"
proof -
  let ?a = "no_args\<lparr>ev_user := Some ''u'', ev_audience := Some ''sql'', ev_handle := Some uuid_a\<rparr>"
  let ?t = "\<lparr>local_seconds = 0, utc_offset = Some 0\<rparr>"
  have u: "opt_uuid None = Inr None" "opt_uuid (Some uuid_a) = Inr (Some uuid_a)"
    by (simp_all add: opt_uuid_def)
  obtain f where f: "audit_event ''first_use'' ''sql_proxy'' ?t ?a = Inr f"
    using u by (simp add: audit_event_def no_args_def KINDS_def PLANES_def AUDIENCES_def)
  have tz: "utc_offset ?t \<noteq> None" by simp
  have "audit_text ''u'' = ''u''" by (intro audit_text_id) auto
  with f audit_decode_event [OF f tz] u show ?thesis by (auto simp: no_args_def)
qed

section \<open>Sequences of script evaluations\<close>

text \<open>Calls evaluated one after another: their replies and the store they leave.\<close>

fun run_calls :: "('s \<Rightarrow> 'a \<Rightarrow> int \<times> 's) \<Rightarrow> 's \<Rightarrow> 'a list \<Rightarrow> int list \<times> 's" where
  "run_calls f s [] = ([], s)"
| "run_calls f s (x # xs) =
     (case f s x of (r, s1) \<Rightarrow> (case run_calls f s1 xs of (rs, s2) \<Rightarrow> (r # rs, s2)))"

lemma run_calls_map: "run_calls f s (map h xs) = run_calls (\<lambda>s x. f s (h x)) s xs"
  by (induction xs arbitrary: s) (simp_all split: prod.splits)

lemma run_calls_Cons:
  "fst (run_calls f s (x # xs)) = fst (f s x) # fst (run_calls f (snd (f s x)) xs)"
  "snd (run_calls f s (x # xs)) = snd (run_calls f (snd (f s x)) xs)"
  by (simp_all split: prod.splits)

definition ones :: "int list \<Rightarrow> nat" where
  "ones rs = length (filter (\<lambda>r. r = 1) rs)"

lemma ones_simps [simp]: "ones [] = 0" "ones (r # rs) = (if r = 1 then Suc (ones rs) else ones rs)"
  by (simp_all add: ones_def)

context redis
begin

lemma delete_recorded:
  assumes "t \<le> t'"
  shows "fst (DELETE_RECORDED_SCRIPT R s t k n f) = (if r_exists R s t k then 1 else 0)"
    and "view R (snd (DELETE_RECORDED_SCRIPT R s t k n f)) t' k' = (if k' = k then None else view R s t' k')"
    and "\<not> r_exists R s t k \<Longrightarrow> stream R (snd (DELETE_RECORDED_SCRIPT R s t k n f)) = stream R s"
    and "r_exists R s t k \<Longrightarrow> last (stream R (snd (DELETE_RECORDED_SCRIPT R s t k n f))) = f"
  using assms xadd_last
  by (simp_all add: DELETE_RECORDED_SCRIPT_def r_del_def view_xadd view_del stream_del)

lemma first_use_repeat:
  assumes "view R s u m \<noteq> None" "\<And>t f. (t, f) \<in> set calls \<Longrightarrow> t \<le> u"
  shows "run_calls (\<lambda>s (t, f). FIRST_USE_SCRIPT R s t m ttl n f) s calls = (replicate (length calls) 0, s)"
  using assms(2)
proof (induction calls)
  case (Cons c calls)
  obtain t f where c: "c = (t, f)" by force
  with Cons.prems have "t \<le> u" by auto
  then have "r_exists R s t m" using assms(1) view_stable by (metis not_Some_eq r_exists_def)
  then have "FIRST_USE_SCRIPT R s t m ttl n f = (0, s)"
    by (simp add: FIRST_USE_SCRIPT_def r_setnx_def)
  moreover have "run_calls (\<lambda>s (t, f). FIRST_USE_SCRIPT R s t m ttl n f) s calls =
      (replicate (length calls) 0, s)"
    using Cons.prems by (intro Cons.IH) auto
  ultimately show ?case by (simp add: c)
qed simp

lemma unknown_refusal_step:
  assumes le: "t \<le> t'" and m: "m \<noteq> c" and fresh: "\<not> r_exists R s t m"
    and c: "view R s t c = (if j = 0 then None else Some (VText (RNum (Fin (of_int j)))))" "0 \<le> j"
    and res_def: "res = UNKNOWN_REFUSAL_SCRIPT R s t m c w limit sw n f"
  shows "fst res = (if j + 1 \<le> limit then 1 else if j = limit then -1 else -2)"
    and "length (stream R (snd res)) \<le> length (stream R s) + (if j + 1 \<le> limit then 1 else 0)"
    and "view R (snd res) t' c = (if (if j = 0 then t' < t + sw else view R s t' c \<noteq> None)
           then Some (VText (RNum (Fin (of_int (j + 1))))) else None)"
proof -
  define s1 where "s1 = c_modify R s t c (VText (RNum (Fin (of_int (j + 1)))))"
  define s2 where "s2 = (if j = 0 then c_expire R s1 t c sw else s1)"
  define s3 where "s3 = c_set R s2 t m marker_value (Some w)"
  have inc: "r_incr R s t c = (j + 1, s1)"
    using c by (simp add: r_incr_def r_get_def count_of_def Let_def s1_def)
  have res: "res = (if j + 1 > limit then (if j = limit then (-1, s2) else (-2, s2))
      else (1, c_xadd R s3 n f))"
    using fresh by (simp add: res_def UNKNOWN_REFUSAL_SCRIPT_def inc Let_def s2_def s3_def)
  have st: "stream R s2 = stream R s" "stream R s3 = stream R s"
    by (simp_all add: streams s1_def s2_def s3_def)
  have v1: "view R s1 t' c = (if j = 0 \<or> view R s t' c \<noteq> None
      then Some (VText (RNum (Fin (of_int (j + 1))))) else None)"
    "view R s1 t c = Some (VText (RNum (Fin (of_int (j + 1)))))"
    using le c by (simp_all add: view_modify s1_def)
  have v: "view R s2 t' c = (if (if j = 0 then t' < t + sw else view R s t' c \<noteq> None)
      then Some (VText (RNum (Fin (of_int (j + 1))))) else None)" (is "_ = ?v")
    using le v1 by (simp add: view_expire s2_def)
  have v3: "view R s3 t' c = view R s2 t' c"
    using le m by (simp add: view_set s3_def)
  show "fst res = (if j + 1 \<le> limit then 1 else if j = limit then -1 else -2)"
    by (simp add: res)
  show "length (stream R (snd res)) \<le> length (stream R s) + (if j + 1 \<le> limit then 1 else 0)"
    using st xadd_length [of s3 n f] by (simp add: res)
  have "view R (snd res) t' c = view R s2 t' c" using v3 by (simp add: res view_xadd)
  with v show "view R (snd res) t' c = ?v" by simp
qed

lemma unknown_refusals_within:
  assumes "sorted (map fst calls)" "\<And>t m f. (t, m, f) \<in> set calls \<Longrightarrow> u \<le> t \<and> t < e \<and> m \<noteq> c"
    and "\<And>t. u \<le> t \<Longrightarrow> t < e \<Longrightarrow>
      view R s t c = (if j = 0 then None else Some (VText (RNum (Fin (of_int j)))))"
    and "0 \<le> j" "e \<le> u + sw"
    and g_def: "g = (\<lambda>s (t, m, f). UNKNOWN_REFUSAL_SCRIPT R s t m c w limit sw n f)"
  shows "int (ones (fst (run_calls g s calls))) \<le> max 0 (limit - j) \<and>
    int (length (stream R (snd (run_calls g s calls)))) \<le> int (length (stream R s)) + max 0 (limit - j)"
  using assms(1-5)
proof (induction calls arbitrary: s j u)
  case (Cons call calls)
  obtain t m f where call: "call = (t, m, f)" using prod_cases3 by blast
  have tm: "u \<le> t" "t < e" "m \<noteq> c" using Cons.prems(2) call by auto
  have later: "t \<le> t' \<and> t' < e \<and> m' \<noteq> c" if "(t', m', f') \<in> set calls" for t' m' f'
    using Cons.prems(1) Cons.prems(2) [of t' m' f'] that call by auto
  have srt: "sorted (map fst calls)" using Cons.prems(1) by simp
  have e: "e \<le> t + sw" using Cons.prems(5) tm(1) by linarith
  have vt: "view R s t c = (if j = 0 then None else Some (VText (RNum (Fin (of_int j)))))"
    using Cons.prems(3) tm by blast
  show ?case
  proof (cases "r_exists R s t m")
    case True
    then have "g s call = (0, s)" by (simp add: g_def call UNKNOWN_REFUSAL_SCRIPT_def)
    moreover have "view R s t' c = (if j = 0 then None else Some (VText (RNum (Fin (of_int j)))))"
      if "t \<le> t'" "t' < e" for t'
      using Cons.prems(3) that tm(1) by simp
    ultimately show ?thesis
      using Cons.IH [OF srt later _ Cons.prems(4) e] by (simp add: run_calls_Cons del: run_calls.simps)
  next
    case False
    note st = unknown_refusal_step [OF _ tm(3) False vt Cons.prems(4) refl]
    define s1 where "s1 = snd (g s call)"
    have g: "g s call = UNKNOWN_REFUSAL_SCRIPT R s t m c w limit sw n f" by (simp add: g_def call)
    have v1: "view R s1 t' c = (if j + 1 = 0 then None else Some (VText (RNum (Fin (of_int (j + 1))))))"
      if "t \<le> t'" "t' < e" for t'
      using st(3) [OF that(1), of w limit sw n f] Cons.prems(3) [of t'] that tm(1) e Cons.prems(4)
      by (auto simp: s1_def g)
    have IH: "int (ones (fst (run_calls g s1 calls))) \<le> max 0 (limit - (j + 1))"
      "int (length (stream R (snd (run_calls g s1 calls)))) \<le> int (length (stream R s1)) + max 0 (limit - (j + 1))"
      using Cons.IH [OF srt later v1 _ e] Cons.prems(4) by simp_all
    show ?thesis
      using IH st(1,2) [OF order_refl, of w limit sw n f]
      by (simp add: run_calls_Cons s1_def g del: run_calls.simps split: if_splits)
  qed
qed simp_all

end

text \<open>
  Within one source window, however many distinct unknown values one source presents to a plane,
  and whatever repeats among them, at most \<open>SOURCE_LIMIT\<close> of them are recorded: at most that many
  events are appended to the stream.
\<close>

theorem unknown_refusals_bounded:
  assumes "redis R" and fresh: "view R s t0 (source_limit_key plane src) = None"
    and times: "sorted (map fst calls)"
      "\<forall>(t, d, f) \<in> set calls. t0 \<le> t \<and> t < t0 + SOURCE_WINDOW_SECONDS"
    and run: "run_calls (\<lambda>s (t, d, f). eval_refusal R s t
        (UnknownCall (unknown_refusal_key d plane) (source_limit_key plane src) f)) s calls = (replies, s')"
  shows "int (ones replies) \<le> SOURCE_LIMIT \<and>
    int (length (stream R s')) \<le> int (length (stream R s)) + SOURCE_LIMIT"
proof -
  let ?c = "source_limit_key plane src"
  let ?calls = "map (\<lambda>(t, d, f). (t, unknown_refusal_key d plane, f)) calls"
  let ?g = "\<lambda>s (t, m, f). UNKNOWN_REFUSAL_SCRIPT R s t m ?c UNKNOWN_REFUSAL_WINDOW_SECONDS SOURCE_LIMIT
    SOURCE_WINDOW_SECONDS STREAM_MAXLEN f"
  have key: "unknown_refusal_key d plane \<noteq> ?c" for d
    by (simp add: unknown_refusal_key_def source_limit_key_def UNKNOWN_REFUSAL_PREFIX_def
        SOURCE_LIMIT_PREFIX_def)
  have run': "run_calls ?g s ?calls = (replies, s')"
    using run by (simp add: run_calls_map eval_refusal_def split_def)
  have srt: "sorted (map fst ?calls)" using times(1) by (simp add: comp_def split_def)
  have bnd: "t0 \<le> t \<and> t < t0 + SOURCE_WINDOW_SECONDS \<and> m \<noteq> ?c" if "(t, m, f) \<in> set ?calls" for t m f
    using times(2) that key by auto
  have none: "view R s t ?c = (if (0::int) = 0 then None else Some (VText (RNum (Fin (of_int 0)))))"
    if "t0 \<le> t" for t
    using redis.view_gone [OF assms(1) that fresh] by simp
  have "int (ones (fst (run_calls ?g s ?calls))) \<le> max 0 (SOURCE_LIMIT - 0) \<and>
      int (length (stream R (snd (run_calls ?g s ?calls)))) \<le>
        int (length (stream R s)) + max 0 (SOURCE_LIMIT - 0)"
    by (rule redis.unknown_refusals_within [OF assms(1) srt, where e = "t0 + SOURCE_WINDOW_SECONDS"],
        erule bnd) (simp_all add: none)
  then show ?thesis unfolding run' by (simp add: SOURCE_LIMIT_def)
qed

theorem unknown_refusals_bounded_witness:
  "int (ones (fst (run_calls (\<lambda>s (t, d, f). eval_refusal ref_redis s t
     (UnknownCall (unknown_refusal_key d ''api_gateway'') (source_limit_key ''api_gateway'' ''10.0.0.9'') f))
     mem_empty [(0, ''aa'', []), (1, ''bb'', [])]))) \<le> 60"
proof -
  let ?calls = "[(0, ''aa'', []), (1, ''bb'', [])] :: (rat \<times> string \<times> fields) list"
  have fresh: "view ref_redis mem_empty 0 (source_limit_key ''api_gateway'' ''10.0.0.9'') = None"
    by (simp add: ref_eval)
  have times: "sorted (map fst ?calls)"
    "\<forall>(t, d, f) \<in> set ?calls. 0 \<le> t \<and> t < 0 + SOURCE_WINDOW_SECONDS"
    by (simp_all add: SOURCE_WINDOW_SECONDS_def)
  show ?thesis
    using unknown_refusals_bounded [OF ref.redis_axioms fresh times surjective_pairing]
    by (simp add: SOURCE_LIMIT_def)
qed

section \<open>First uses, repeats and removals\<close>

text \<open>
  Of any number of uses of one handle at one plane within the marker's lifetime of the first, the
  first appends its event and every later one changes nothing.
\<close>

theorem first_use_recorded_once:
  assumes "redis R" "view R s t0 marker = None" "length (stream R s) < maxlen"
    and "\<forall>(t, f) \<in> set calls. t0 \<le> t \<and> t < t0 + ttl"
    and "run_calls (\<lambda>s (t, f). FIRST_USE_SCRIPT R s t marker ttl maxlen f) s ((t0, f0) # calls) = (replies, s')"
  shows "replies = 1 # replicate (length calls) 0 \<and> stream R s' = stream R s @ [f0]"
proof -
  let ?g = "\<lambda>s (t, f). FIRST_USE_SCRIPT R s t marker ttl maxlen f"
  define s1 where "s1 = c_xadd R (c_set R s t0 marker marker_value (Some ttl)) maxlen f0"
  have step: "FIRST_USE_SCRIPT R s t0 marker ttl maxlen f0 = (1, s1)"
    using assms(2) by (simp add: FIRST_USE_SCRIPT_def r_setnx_def r_exists_def s1_def)
  have st: "stream R s1 = stream R s @ [f0]"
    using redis.xadd_room [OF assms(1)] assms(3) by (simp add: s1_def redis.stream_set [OF assms(1)])
  have "run_calls ?g s1 calls = (replicate (length calls) 0, s1)"
  proof (cases "calls = []")
    case False
    define u where "u = Max (fst ` set calls)"
    have "u \<in> fst ` set calls" using False by (simp add: u_def)
    with assms(4) have "t0 \<le> u" "u < t0 + ttl" by auto
    then have "view R s1 u marker \<noteq> None"
      by (simp add: s1_def redis.view_xadd [OF assms(1)] redis.view_set [OF assms(1)] lives_def)
    moreover have "t \<le> u" if "(t, f) \<in> set calls" for t f
      using that by (auto simp: u_def rev_image_eqI)
    ultimately show ?thesis by (rule redis.first_use_repeat [OF assms(1)]) blast
  qed simp
  with assms(5) step st show ?thesis by simp
qed

theorem first_use_recorded_once_witness:
  "stream ref_redis (snd (run_calls (\<lambda>s (t, f). FIRST_USE_SCRIPT ref_redis s t ''m'' 100 5 f)
     mem_empty [(0, [(''kind'', FStr ''first_use'')]), (7, [])])) = [[(''kind'', FStr ''first_use'')]]"
proof -
  have "view ref_redis mem_empty 0 ''m'' = None" "length (stream ref_redis mem_empty) < 5"
    "\<forall>(t, f) \<in> set [(7, [])]. (0::rat) \<le> t \<and> t < 0 + 100"
    by (simp_all add: ref_eval)
  from first_use_recorded_once [OF ref.redis_axioms this surjective_pairing, of "[(''kind'', FStr ''first_use'')]"]
  show ?thesis by (simp add: ref_eval)
qed

text \<open>The number of occurrences an entry of the stream stands for: itself and those it carries.\<close>

definition weight :: "fields \<Rightarrow> int" where
  "weight f = 1 + (case fget f ''suppressed'' of None \<Rightarrow> 0 | Some d \<Rightarrow> decimal d)"

lemma ord_digit: "0 \<le> d \<Longrightarrow> d < 10 \<Longrightarrow> ord (char_of (48 + d)) = 48 + (d::int)"
  by (simp add: ord_def)

lemma decimal_snoc: "decimal (s @ [c]) = 10 * decimal s + (ord c - 48)"
  by (simp add: decimal_def)

lemma decimal_show_nat: "0 \<le> n \<Longrightarrow> decimal (show_nat n) = n"
proof (induction n rule: show_nat.induct)
  case (1 n)
  show ?case
  proof (cases "n < 10")
    case True
    with 1 show ?thesis by (subst show_nat.simps) (simp add: decimal_def ord_digit)
  next
    case False
    with 1 have "decimal (show_nat (n div 10)) = n div 10" by simp
    with False show ?thesis
      by (subst show_nat.simps) (simp add: decimal_snoc ord_digit)
  qed
qed

lemma decimal_show_int: "0 \<le> n \<Longrightarrow> decimal (show_int n) = n"
  by (simp add: show_int_def decimal_show_nat)

lemma fget_append: "fget (f @ [(k, FStr v)]) k = (case map_of f k of None \<Rightarrow> Some v | Some _ \<Rightarrow> fget f k)"
  by (auto simp: fget_def map_add_def split: option.splits)

lemma weight_suppressed:
  "map_of f ''suppressed'' = None \<Longrightarrow> 0 \<le> n \<Longrightarrow> weight (f @ [(''suppressed'', FStr (show_int n))]) = 1 + n"
  by (simp add: weight_def fget_append decimal_show_int)

context redis
begin

abbreviation (input) pending :: "int \<Rightarrow> rvalue option" where
  "pending p \<equiv> (if p = 0 then None else Some (VText (RNum (Fin (of_int p)))))"

lemma repeat_step:
  assumes le: "t \<le> t'" and m: "m \<noteq> c" and p: "view R s t c = pending p" "0 \<le> p"
    and f: "map_of f ''suppressed'' = None" and room: "length (stream R s) < n"
    and res: "res = REPEAT_SCRIPT R s t m c w ttl n f"
  shows "(\<exists>e. stream R (snd res) = stream R s @ [e] \<and> weight e = 1 + p \<and> view R (snd res) t' c = None) \<or>
    stream R (snd res) = stream R s \<and> (t' < t + ttl \<longrightarrow> view R (snd res) t' c = pending (p + 1))"
proof (cases "r_exists R s t m")
  case True
  have inc: "r_incr R s t c = (p + 1, c_modify R s t c (VText (RNum (Fin (of_int (p + 1))))))"
    using p by (simp add: r_incr_def r_get_def count_of_def Let_def)
  have "snd res = c_expire R (c_modify R s t c (VText (RNum (Fin (of_int (p + 1)))))) t c ttl"
    using True by (simp add: res REPEAT_SCRIPT_def r_setnx_def inc)
  then show ?thesis using le p by (simp add: streams view_expire view_modify)
next
  case False
  define s1 where "s1 = c_del R (c_set R s t m marker_value (Some w)) t c"
  have g: "r_get R (c_set R s t m marker_value (Some w)) t c = r_get R s t c"
    using m by (simp add: get_set)
  let ?e = "case r_get R s t c of None \<Rightarrow> f
    | Some _ \<Rightarrow> f @ [(''suppressed'', FStr (show_int (count_of (r_get R s t c))))]"
  have "snd res = c_xadd R s1 n ?e"
    using False by (simp add: res REPEAT_SCRIPT_def r_setnx_def r_getdel_def g s1_def cong: option.case_cong)
  moreover have "stream R s1 = stream R s" by (simp add: s1_def streams)
  moreover have "weight ?e = 1 + p"
    using p f weight_suppressed [OF f, of p]
    by (simp add: r_get_def count_of_def) (simp add: weight_def fget_def)
  moreover have "view R s1 t' c = None" using le by (simp add: s1_def view_del)
  ultimately show ?thesis using room by (simp add: xadd_room view_xadd)
qed

lemma repeats_accounted:
  assumes "sorted (map fst calls)"
    "\<And>t f. (t, f) \<in> set calls \<Longrightarrow> u \<le> t \<and> t \<le> u' \<and> map_of f ''suppressed'' = None"
    and "\<And>t. u \<le> t \<Longrightarrow> t \<le> u' \<Longrightarrow> view R s t c = pending p" "0 \<le> p"
    and "u \<le> u'" "u' < u + ttl" "m \<noteq> c" "length (stream R s) + length calls \<le> n"
    and g_def: "g = (\<lambda>s (t, f). REPEAT_SCRIPT R s t m c w ttl n f)"
  shows "\<exists>es q. stream R (snd (run_calls g s calls)) = stream R s @ es \<and>
    view R (snd (run_calls g s calls)) u' c = pending q \<and> 0 \<le> q \<and>
    sum_list (map weight es) + q = int (length calls) + p"
  using assms(1-6,8)
proof (induction calls arbitrary: s p u)
  case Nil
  then show ?case by (intro exI [of _ "[]"] exI [of _ p]) auto
next
  case (Cons call calls)
  obtain t f where call: "call = (t, f)" by force
  have t: "u \<le> t" "t \<le> u'" "map_of f ''suppressed'' = None" using Cons.prems(2) call by auto
  have later: "t \<le> t' \<and> t' \<le> u' \<and> map_of f' ''suppressed'' = None" if "(t', f') \<in> set calls" for t' f'
    using Cons.prems(1) Cons.prems(2) [of t' f'] that call by auto
  have room: "length (stream R s) < n" using Cons.prems(7) by simp
  define s1 where "s1 = snd (g s call)"
  have g: "g s call = REPEAT_SCRIPT R s t m c w ttl n f" by (simp add: g_def call)
  have vt: "view R s t c = pending p" using Cons.prems(3) t by blast
  have win: "u' < t + ttl" using Cons.prems(6) t(1) by linarith
  note step = repeat_step [OF _ assms(7) vt Cons.prems(4) t(3) room refl, of _ w ttl, folded g s1_def]
  obtain es p1 where s1: "stream R s1 = stream R s @ es" "length es \<le> 1" "0 \<le> p1"
      "sum_list (map weight es) + p1 = 1 + p" "\<And>t'. t \<le> t' \<Longrightarrow> t' \<le> u' \<Longrightarrow> view R s1 t' c = pending p1"
  proof (cases "stream R s1 = stream R s")
    case True
    have "view R s1 t' c = pending (p + 1)" if "t \<le> t'" "t' \<le> u'" for t'
      using step [OF that(1)] True that(2) win by auto
    with True show thesis using that [of "[]" "p + 1"] Cons.prems(4) by simp
  next
    case False
    obtain e where "stream R s1 = stream R s @ [e]" "weight e = 1 + p" using step [OF order_refl] False by blast
    moreover have "view R s1 t' c = pending 0" if "t \<le> t'" "t' \<le> u'" for t'
      using step [OF that(1)] False by auto
    ultimately show thesis using that [of "[e]" 0] by simp
  qed
  have "\<exists>es q. stream R (snd (run_calls g s1 calls)) = stream R s1 @ es \<and>
      view R (snd (run_calls g s1 calls)) u' c = pending q \<and> 0 \<le> q \<and>
      sum_list (map weight es) + q = int (length calls) + p1"
    by (rule Cons.IH [of t]) (use Cons.prems later s1 t win in auto)
  then obtain es' q where "stream R (snd (run_calls g s1 calls)) = stream R s1 @ es'"
      "view R (snd (run_calls g s1 calls)) u' c = pending q" "0 \<le> q"
      "sum_list (map weight es') + q = int (length calls) + p1"
    by blast
  then show ?case
    using s1(1,4) by (intro exI [of _ "es @ es'"] exI [of _ q]) (simp add: run_calls_Cons s1_def del: run_calls.simps)
qed

end

text \<open>
  No occurrence of a repeatable event is lost: over any run of them for one entry, plane and kind,
  no longer than the count's lifetime, the occurrences the appended entries stand for (themselves and
  the count they carry) and the count still kept add up to the number of events.
\<close>

theorem repeats_never_lost:
  assumes "redis R" "repeat_script_args f0 = Inr (marker, counter)"
    and "sorted (map fst calls)"
      "\<forall>(t, f) \<in> set calls. t0 \<le> t \<and> t \<le> t1 \<and> map_of f ''suppressed'' = None"
    and "view R s t0 counter = None" "t0 \<le> t1" "t1 < t0 + REPEAT_COUNT_TTL_SECONDS"
      "length (stream R s) + length calls \<le> STREAM_MAXLEN"
    and run: "run_calls (\<lambda>s (t, f). eval_refusal R s t (RepeatCall marker counter f)) s calls = (replies, s')"
  shows "\<exists>appended. stream R s' = stream R s @ appended \<and>
    sum_list (map weight appended) + count_of (r_get R s' t1 counter) = int (length calls)"
proof -
  let ?g = "\<lambda>s (t, f). REPEAT_SCRIPT R s t marker counter REPEAT_WINDOW_SECONDS REPEAT_COUNT_TTL_SECONDS
    STREAM_MAXLEN f"
  have key: "marker \<noteq> counter"
    using assms(2) by (auto simp: repeat_script_args_def repeat_keys_def Let_def REPEAT_PREFIX_def
        REPEAT_COUNT_PREFIX_def split: if_splits)
  have run': "run_calls ?g s calls = (replies, s')" using run by (simp add: eval_refusal_def split_def)
  have none: "view R s t counter = (if (0::int) = 0 then None else Some (VText (RNum (Fin (of_int 0)))))"
    if "t0 \<le> t" for t
    using redis.view_gone [OF assms(1) that assms(5)] by simp
  have bnd: "t0 \<le> t \<and> t \<le> t1 \<and> map_of f ''suppressed'' = None" if "(t, f) \<in> set calls" for t f
    using assms(4) that by auto
  have "\<exists>es q. stream R (snd (run_calls ?g s calls)) = stream R s @ es \<and>
      view R (snd (run_calls ?g s calls)) t1 counter =
        (if q = 0 then None else Some (VText (RNum (Fin (of_int q))))) \<and> 0 \<le> q \<and>
      sum_list (map weight es) + q = int (length calls) + 0"
    by (rule redis.repeats_accounted [OF assms(1,3) _ _ order_refl assms(6,7) key assms(8) refl],
        erule bnd) (simp_all add: none)
  then obtain es q where "stream R s' = stream R s @ es"
      "view R s' t1 counter = (if q = 0 then None else Some (VText (RNum (Fin (of_int q)))))"
      "sum_list (map weight es) + q = int (length calls)"
    unfolding run' by auto
  then show ?thesis by (intro exI [of _ es]) (auto simp: r_get_def count_of_def)
qed

theorem repeats_never_lost_witness:
  "\<exists>marker counter appended.
     repeat_script_args [(''kind'', FStr ''refused''), (''handle_id'', FStr ''h'')] = Inr (marker, counter) \<and>
     stream ref_redis (snd (run_calls (\<lambda>s (t, f). eval_refusal ref_redis s t (RepeatCall marker counter f))
       mem_empty [(0, []), (1, []), (400, [])])) = stream ref_redis mem_empty @ appended \<and>
     sum_list (map weight appended) + count_of (r_get ref_redis (snd (run_calls
       (\<lambda>s (t, f). eval_refusal ref_redis s t (RepeatCall marker counter f))
       mem_empty [(0, []), (1, []), (400, [])])) 400 counter) = 3"
proof -
  let ?f = "[(''kind'', FStr ''refused''), (''handle_id'', FStr ''h'')]"
  let ?calls = "[(0, []), (1, []), (400, [])] :: (rat \<times> fields) list"
  obtain m c where k: "repeat_script_args ?f = Inr (m, c)"
    by (simp add: repeat_script_args_def REPEATABLE_def repeat_keys_def Let_def)
  have h: "sorted (map fst ?calls)"
    "\<forall>(t, f) \<in> set ?calls. 0 \<le> t \<and> t \<le> 400 \<and> map_of f ''suppressed'' = None"
    "view ref_redis mem_empty 0 c = None" "(0::rat) \<le> 400" "400 < 0 + REPEAT_COUNT_TTL_SECONDS"
    "length (stream ref_redis mem_empty) + length ?calls \<le> STREAM_MAXLEN"
    by (simp_all add: ref_eval REPEAT_COUNT_TTL_SECONDS_def STREAM_MAXLEN_def)
  have three: "int (length ?calls) = 3" by simp
  show ?thesis
    using repeats_never_lost [OF ref.redis_axioms k h surjective_pairing] k unfolding three by blast
qed

end
