(* ===== verification/Sessions.thy ===== *)
theory Sessions
  imports Prelude
begin

text \<open>
  \<open>libs/industryflow_contracts/industryflow_contracts/sessions.py\<close>: the ended-session record every
  verifier of an access token reads. The store is the parameter \<open>aget\<close>, its asynchronous
  \<open>get\<close>: the stored text, None for no such key, or the failure of the read (a timeout included,
  which is what \<open>asyncio.wait_for\<close> raises). The token's issue time is what \<open>float\<close> reads in the
  claim, None for no claim.

  Shown: a token counts as live exactly when both records were read and neither ends it; a failed
  read is never an answer.
\<close>

type_synonym reader = "string \<Rightarrow> raw option result"

definition ENDED_SESSION_PREFIX :: string where "ENDED_SESSION_PREFIX = ''session-ended:''"
definition USER_ENDED_PREFIX :: string where "USER_ENDED_PREFIX = ''sessions-ended-at:''"
definition ROTATED_REFRESH_PREFIX :: string where "ROTATED_REFRESH_PREFIX = ''refresh-rotated:''"
definition CLOCK_SKEW_SECONDS :: rat where "CLOCK_SKEW_SECONDS = 2"

definition ended_session_key :: "string \<Rightarrow> string" where
  "ended_session_key session_id = ENDED_SESSION_PREFIX @ session_id"

definition user_ended_key :: "string \<Rightarrow> string" where
  "user_ended_key user_id = USER_ENDED_PREFIX @ user_id"

text \<open>The part of \<open>_ended\<close> below the session's own record.\<close>

definition user_ended :: "reader \<Rightarrow> string \<Rightarrow> raw option \<Rightarrow> bool result" where
  "user_ended aget user_id issued_at =
     (case aget (user_ended_key user_id) of
        Inl e \<Rightarrow> Inl e
      | Inr None \<Rightarrow> Inr False
      | Inr (Some ended_at) \<Rightarrow>
          (case raw_float ended_at of
             None \<Rightarrow> Inr True
           | Some ended \<Rightarrow>
               (case issued_at of
                  None \<Rightarrow> Inr True
                | Some claim \<Rightarrow>
                    (case raw_float claim of
                       None \<Rightarrow> Inr True
                     | Some issued \<Rightarrow> Inr (float_le issued (float_plus ended CLOCK_SKEW_SECONDS))))))"

definition session_ended :: "reader \<Rightarrow> string \<Rightarrow> string option \<Rightarrow> raw option \<Rightarrow> bool result" where
  "session_ended aget user_id session_id issued_at =
     (case session_id of
        None \<Rightarrow> user_ended aget user_id issued_at
      | Some sid \<Rightarrow>
          if sid = [] then user_ended aget user_id issued_at
          else (case aget (ended_session_key sid) of
                  Inl e \<Rightarrow> Inl e
                | Inr (Some _) \<Rightarrow> Inr True
                | Inr None \<Rightarrow> user_ended aget user_id issued_at))"

lemma user_ended_False:
  "user_ended aget u iat = Inr False \<longleftrightarrow>
     aget (user_ended_key u) = Inr None \<or>
     (\<exists>r e c i. aget (user_ended_key u) = Inr (Some r) \<and> raw_float r = Some e \<and> iat = Some c \<and>
        raw_float c = Some i \<and> \<not> float_le i (float_plus e CLOCK_SKEW_SECONDS))"
  by (auto simp: user_ended_def split: sum.splits option.splits)

text \<open>
  An access token is taken as standing for a live session exactly when its session's own record
  was read and is absent (or the token names no session), and the record of the user's last general
  end was read and is absent or lies more than the clock skew before the token's issue time. A store
  failure, a missing or unreadable issue time against a recorded end, or an unreadable record never
  yields a live session.
\<close>

theorem session_live_iff:
  "session_ended aget user_id session_id issued_at = Inr False \<longleftrightarrow>
     (\<forall>sid. session_id = Some sid \<and> sid \<noteq> [] \<longrightarrow> aget (ended_session_key sid) = Inr None) \<and>
     (aget (user_ended_key user_id) = Inr None \<or>
      (\<exists>r e c i. aget (user_ended_key user_id) = Inr (Some r) \<and> raw_float r = Some e \<and>
         issued_at = Some c \<and> raw_float c = Some i \<and>
         \<not> float_le i (float_plus e CLOCK_SKEW_SECONDS)))"
  unfolding session_ended_def user_ended_False [symmetric]
  by (auto split: sum.splits option.splits)

text \<open>
  The statement above at a token issued ten seconds after a general end of the user's sessions and
  at one issued within the clock skew.
\<close>

theorem session_live_iff_witness:
  "session_ended (\<lambda>k. Inr (if k = ''sessions-ended-at:u'' then Some (RNum (Fin 100)) else None))
     ''u'' (Some ''s'') (Some (RNum (Fin 110))) = Inr False \<and>
   session_ended (\<lambda>k. Inr (if k = ''sessions-ended-at:u'' then Some (RNum (Fin 100)) else None))
     ''u'' (Some ''s'') (Some (RNum (Fin 102))) \<noteq> Inr False"
  unfolding session_live_iff
  by (simp add: user_ended_key_def USER_ENDED_PREFIX_def ended_session_key_def
      ENDED_SESSION_PREFIX_def CLOCK_SKEW_SECONDS_def)

text \<open>
  A stored end time that reads as \<open>nan\<close> compares with no issue time, so the token counts as live:
  the one unreadable end time the docstring's rule does not reach.
\<close>

theorem nan_end_time_is_live:
  "session_ended (\<lambda>k. Inr (if k = ''sessions-ended-at:u'' then Some (RNum NaN) else None))
     ''u'' None (Some (RNum (Fin i))) = Inr False"
  by (simp add: session_ended_def user_ended_def user_ended_key_def USER_ENDED_PREFIX_def)

end
