(* ===== verification/Verifiers.thy ===== *)
theory Verifiers
  imports Capability_Audit Sessions
begin

text \<open>
  Resolution of a capability handle at the planes that accept one: the data API
  (\<open>services/api_gateway/capability_auth.py\<close>), the SQL proxy
  (\<open>services/notebook_sql_proxy/binding.py\<close>), the cold-store broker
  (\<open>services/notebook_cold_broker/policy.py\<close>) and the tracking gateway, which serves two audiences
  (\<open>services/notebook_tracking_gateway/policy.py\<close>). The four modules carry the same resolution, each
  with its own binding; it is written once here, with the binding built as a parameter. The store is
  the reader \<open>aget\<close>.

  The locale \<open>verifier\<close> is the contract they share; it is interpreted for each of the five
  audiences. Shown: a handle resolves only for the audience and the tenant bound in its entry, only
  while the tenant is not suspended, and on at most one plane.
\<close>

section \<open>Store layout\<close>

definition CAP_KEY_PREFIX :: string where "CAP_KEY_PREFIX = ''nbcap:''"
definition USER_INDEX_PREFIX :: string where "USER_INDEX_PREFIX = ''nbcap-user:''"
definition UPLOAD_INDEX_PREFIX :: string where "UPLOAD_INDEX_PREFIX = ''nbcap-upload-user:''"
definition SUSPENDED_PREFIX :: string where "SUSPENDED_PREFIX = ''nbcap-suspended:''"

definition cap_key :: "string \<Rightarrow> string" where
  "cap_key handle = CAP_KEY_PREFIX @ handle"

definition suspended_key :: "string \<Rightarrow> string" where
  "suspended_key company_id = SUSPENDED_PREFIX @ company_id"

definition user_index :: "string \<Rightarrow> string" where
  "user_index user = USER_INDEX_PREFIX @ user"

definition upload_index :: "string \<Rightarrow> string" where
  "upload_index user = UPLOAD_INDEX_PREFIX @ user"

lemmas key_defs = cap_key_def suspended_key_def user_index_def upload_index_def CAP_KEY_PREFIX_def
  USER_INDEX_PREFIX_def UPLOAD_INDEX_PREFIX_def SUSPENDED_PREFIX_def

lemma keys_distinct [simp]:
  "cap_key h \<noteq> suspended_key c" "suspended_key c \<noteq> cap_key h"
  "cap_key h \<noteq> user_index u" "user_index u \<noteq> cap_key h"
  "cap_key h \<noteq> upload_index u" "upload_index u \<noteq> cap_key h"
  "suspended_key c \<noteq> user_index u" "user_index u \<noteq> suspended_key c"
  "suspended_key c \<noteq> upload_index u" "upload_index u \<noteq> suspended_key c"
  "user_index u \<noteq> upload_index v" "upload_index v \<noteq> user_index u"
  by (simp_all add: key_defs)

lemma cap_key_inject [simp]: "cap_key h = cap_key h' \<longleftrightarrow> h = h'"
  by (simp add: cap_key_def)

section \<open>Resolution\<close>

text \<open>\<open>str(v or "")\<close>.\<close>

definition or_blank :: "json \<Rightarrow> string" where
  "or_blank v = (if truthy v then py_str v else [])"

definition fact :: "string \<Rightarrow> string option \<Rightarrow> facts" where
  "fact name v = (case v of None \<Rightarrow> [] | Some x \<Rightarrow> [(name, x)])"

definition uuid_fact :: "jobject \<Rightarrow> string \<Rightarrow> string option" where
  "uuid_fact record name = (case uuid_text (or_blank (jget record name)) of Inl _ \<Rightarrow> None | Inr u \<Rightarrow> Some u)"

definition user_fact :: "jobject \<Rightarrow> string option" where
  "user_fact record = (case jget record ''user'' of JStr u \<Rightarrow> Some u | _ \<Rightarrow> None)"

definition audience_fact :: "jobject \<Rightarrow> string option" where
  "audience_fact record =
     (case jget record ''audience'' of JStr a \<Rightarrow> if a \<in> set AUDIENCES then Some a else None | _ \<Rightarrow> None)"

definition entry_facts :: "jobject \<Rightarrow> facts" where
  "entry_facts record =
     fact ''company_id'' (uuid_fact record ''company_id'') @ fact ''handle_id'' (uuid_fact record ''handle_id'') @
     fact ''user'' (user_fact record) @ fact ''audience'' (audience_fact record)"

type_synonym 'b outcome = "'b option \<times> string option \<times> facts"

definition resolve_outcome ::
    "(jobject \<Rightarrow> string \<Rightarrow> facts \<Rightarrow> 'b) \<Rightarrow> reader \<Rightarrow> string \<Rightarrow> string \<Rightarrow> 'b outcome result" where
  "resolve_outcome binding aget handle expected_audience =
     (if handle = [] then Inr (None, Some ''no_handle'', [])
      else (case aget (cap_key handle) of
         Inl e \<Rightarrow> Inl e
       | Inr None \<Rightarrow> Inr (None, Some ''no_entry'', [])
       | Inr (Some raw) \<Rightarrow>
           (case raw_object raw of
              None \<Rightarrow> Inr (None, Some ''malformed_entry'', [])
            | Some record \<Rightarrow>
                (let facts = entry_facts record
                 in if jget record ''audience'' \<noteq> JStr expected_audience
                    then Inr (None, Some ''wrong_audience'', facts)
                    else (case canonical_company_id (or_blank (jget record ''company_id'')) of
                       Inl _ \<Rightarrow> Inr (None, Some ''malformed_entry'', facts)
                     | Inr company_id \<Rightarrow>
                         (case aget (suspended_key company_id) of
                            Inl e \<Rightarrow> Inl e
                          | Inr (Some _) \<Rightarrow> Inr (None, Some ''tenant_suspended'', facts)
                          | Inr None \<Rightarrow> Inr (Some (binding record company_id facts), None, facts)))))))"

subsection \<open>The planes\<close>

record CapabilityBinding =
  cb_user :: string
  cb_company_id :: string
  cb_audience :: string
  cb_read_only :: bool
  cb_handle_id :: "string option"

definition AUDIENCE_API :: string where "AUDIENCE_API = ''api''"
definition AUDIENCE_SQL :: string where "AUDIENCE_SQL = ''sql''"
definition AUDIENCE_COLD :: string where "AUDIENCE_COLD = ''cold''"
definition AUDIENCE_TRACKING :: string where "AUDIENCE_TRACKING = ''tracking''"
definition AUDIENCE_UPLOAD :: string where "AUDIENCE_UPLOAD = ''upload''"

definition resolve_capability_outcome ::
    "reader \<Rightarrow> string \<Rightarrow> string \<Rightarrow> CapabilityBinding outcome result" where
  "resolve_capability_outcome aget handle expected_audience =
     resolve_outcome (\<lambda>record company_id facts.
       \<lparr>cb_user = py_str (jget_default record ''user'' (JStr [])), cb_company_id = company_id,
        cb_audience = expected_audience, cb_read_only = truthy (jget_default record ''read_only'' (JBool True)),
        cb_handle_id = od_get facts ''handle_id''\<rparr>) aget handle expected_audience"

definition resolve_capability :: "reader \<Rightarrow> string \<Rightarrow> string \<Rightarrow> CapabilityBinding option result" where
  "resolve_capability aget handle expected_audience =
     res_map fst (resolve_capability_outcome aget handle expected_audience)"

record SqlBinding =
  sb_user :: string
  sb_company_id :: string
  sb_read_only :: bool
  sb_handle_id :: "string option"

definition resolve_sql_outcome :: "reader \<Rightarrow> string \<Rightarrow> SqlBinding outcome result" where
  "resolve_sql_outcome aget handle =
     resolve_outcome (\<lambda>record company_id facts.
       \<lparr>sb_user = py_str (jget_default record ''user'' (JStr [])), sb_company_id = company_id,
        sb_read_only = truthy (jget_default record ''read_only'' (JBool True)),
        sb_handle_id = od_get facts ''handle_id''\<rparr>) aget handle AUDIENCE_SQL"

definition resolve_sql_binding :: "reader \<Rightarrow> string \<Rightarrow> SqlBinding option result" where
  "resolve_sql_binding aget handle = res_map fst (resolve_sql_outcome aget handle)"

record ColdBinding =
  kb_user :: string
  kb_company_id :: string
  kb_handle_id :: "string option"

definition resolve_cold_outcome :: "reader \<Rightarrow> string \<Rightarrow> ColdBinding outcome result" where
  "resolve_cold_outcome aget handle =
     resolve_outcome (\<lambda>record company_id facts.
       \<lparr>kb_user = py_str (jget_default record ''user'' (JStr [])), kb_company_id = company_id,
        kb_handle_id = od_get facts ''handle_id''\<rparr>) aget handle AUDIENCE_COLD"

definition resolve_cold_binding :: "reader \<Rightarrow> string \<Rightarrow> ColdBinding option result" where
  "resolve_cold_binding aget handle = res_map fst (resolve_cold_outcome aget handle)"

text \<open>The tracking gateway keeps the entry's user as it is, without \<open>str\<close>.\<close>

record TrackingBinding =
  tb_user :: json
  tb_company_id :: string
  tb_audience :: string
  tb_handle_id :: "string option"

definition tracking_resolve_outcome :: "reader \<Rightarrow> string \<Rightarrow> string \<Rightarrow> TrackingBinding outcome result" where
  "tracking_resolve_outcome aget handle expected_audience =
     resolve_outcome (\<lambda>record company_id facts.
       \<lparr>tb_user = jget_default record ''user'' (JStr []), tb_company_id = company_id,
        tb_audience = expected_audience, tb_handle_id = od_get facts ''handle_id''\<rparr>)
       aget handle expected_audience"

definition resolve_tracking_outcome :: "reader \<Rightarrow> string \<Rightarrow> TrackingBinding outcome result" where
  "resolve_tracking_outcome aget handle = tracking_resolve_outcome aget handle AUDIENCE_TRACKING"

definition resolve_upload_outcome :: "reader \<Rightarrow> string \<Rightarrow> TrackingBinding outcome result" where
  "resolve_upload_outcome aget handle = tracking_resolve_outcome aget handle AUDIENCE_UPLOAD"

definition resolve_tracking_binding :: "reader \<Rightarrow> string \<Rightarrow> TrackingBinding option result" where
  "resolve_tracking_binding aget handle = res_map fst (resolve_tracking_outcome aget handle)"

definition resolve_upload_binding :: "reader \<Rightarrow> string \<Rightarrow> TrackingBinding option result" where
  "resolve_upload_binding aget handle = res_map fst (resolve_upload_outcome aget handle)"

section \<open>Recording an outcome\<close>

text \<open>
  \<open>record_resolution\<close> of the four modules: the first use of a resolved handle that has an identifier,
  or the refusal. The result is the store afterwards, or the \<open>ValueError\<close> of an event that cannot be
  built.
\<close>

definition record_first_use ::
    "string \<Rightarrow> 's redis \<Rightarrow> 's \<Rightarrow> rat \<Rightarrow> datetime \<Rightarrow> string option \<Rightarrow> string \<Rightarrow> string \<Rightarrow> string option \<Rightarrow> 's result" where
  "record_first_use plane R s t now user company_id audience handle_id =
     (if handle_id = None then Inr s
      else (case audit_event ''first_use'' plane now
               (no_args\<lparr>ev_user := user, ev_company := Some company_id, ev_audience := Some audience,
                        ev_handle := handle_id\<rparr>) of
         Inl e \<Rightarrow> Inl e
       | Inr f \<Rightarrow>
           (case first_use_script_args f of
              Inl e \<Rightarrow> Inl e
            | Inr marker \<Rightarrow>
                Inr (snd (FIRST_USE_SCRIPT R s t marker FIRST_USE_MARKER_TTL_SECONDS STREAM_MAXLEN f)))))"

definition record_refused ::
    "string \<Rightarrow> (string \<Rightarrow> string) \<Rightarrow> 's redis \<Rightarrow> 's \<Rightarrow> rat \<Rightarrow> datetime \<Rightarrow> string \<Rightarrow> string option \<Rightarrow> facts \<Rightarrow>
      string option \<Rightarrow> 's result" where
  "record_refused plane sha256hex R s t now handle reason facts src =
     (case refusal sha256hex plane handle (or_empty reason) facts src now of
        Inl e \<Rightarrow> Inl e
      | Inr call \<Rightarrow> Inr (snd (eval_refusal R s t call)))"

definition api_record_resolution ::
    "(string \<Rightarrow> string) \<Rightarrow> 's redis \<Rightarrow> 's \<Rightarrow> rat \<Rightarrow> datetime \<Rightarrow> string \<Rightarrow> CapabilityBinding outcome \<Rightarrow>
      string option \<Rightarrow> 's result" where
  "api_record_resolution sha256hex R s t now handle out src =
     (case out of
        (Some b, _, _) \<Rightarrow> record_first_use ''api_gateway'' R s t now (Some (cb_user b)) (cb_company_id b)
          (cb_audience b) (cb_handle_id b)
      | (None, reason, facts) \<Rightarrow> record_refused ''api_gateway'' sha256hex R s t now handle reason facts src)"

definition sql_record_resolution ::
    "(string \<Rightarrow> string) \<Rightarrow> 's redis \<Rightarrow> 's \<Rightarrow> rat \<Rightarrow> datetime \<Rightarrow> string \<Rightarrow> SqlBinding outcome \<Rightarrow>
      string option \<Rightarrow> 's result" where
  "sql_record_resolution sha256hex R s t now handle out src =
     (case out of
        (Some b, _, _) \<Rightarrow> record_first_use ''sql_proxy'' R s t now (Some (sb_user b)) (sb_company_id b)
          AUDIENCE_SQL (sb_handle_id b)
      | (None, reason, facts) \<Rightarrow> record_refused ''sql_proxy'' sha256hex R s t now handle reason facts src)"

definition cold_record_resolution ::
    "(string \<Rightarrow> string) \<Rightarrow> 's redis \<Rightarrow> 's \<Rightarrow> rat \<Rightarrow> datetime \<Rightarrow> string \<Rightarrow> ColdBinding outcome \<Rightarrow>
      string option \<Rightarrow> 's result" where
  "cold_record_resolution sha256hex R s t now handle out src =
     (case out of
        (Some b, _, _) \<Rightarrow> record_first_use ''cold_broker'' R s t now (Some (kb_user b)) (kb_company_id b)
          AUDIENCE_COLD (kb_handle_id b)
      | (None, reason, facts) \<Rightarrow> record_refused ''cold_broker'' sha256hex R s t now handle reason facts src)"

definition record_session ::
    "'s redis \<Rightarrow> 's \<Rightarrow> rat \<Rightarrow> datetime \<Rightarrow> string \<Rightarrow> SqlBinding \<Rightarrow> string option \<Rightarrow> string option \<Rightarrow> 's result" where
  "record_session R s t now kind b reason detail =
     (if sb_handle_id b = None then Inr s
      else (case audit_event kind ''sql_proxy'' now
               \<lparr>ev_user = Some (sb_user b), ev_company = Some (sb_company_id b),
                ev_audience = Some AUDIENCE_SQL, ev_handle = sb_handle_id b, ev_digest = None,
                ev_reason = reason, ev_detail = detail\<rparr> of
         Inl e \<Rightarrow> Inl e
       | Inr f \<Rightarrow>
           (case repeat_script_args f of
              Inl e \<Rightarrow> Inl e
            | Inr (marker, counter) \<Rightarrow>
                Inr (snd (REPEAT_SCRIPT R s t marker counter REPEAT_WINDOW_SECONDS
                  REPEAT_COUNT_TTL_SECONDS STREAM_MAXLEN f)))))"

section \<open>The contract of a verifier\<close>

definition entry_for :: "reader \<Rightarrow> string \<Rightarrow> string \<Rightarrow> string \<Rightarrow> jobject \<Rightarrow> bool" where
  "entry_for aget handle audience tenant record \<longleftrightarrow>
     handle \<noteq> [] \<and> (\<exists>raw. aget (cap_key handle) = Inr (Some raw) \<and> raw_object raw = Some record) \<and>
     jget record ''audience'' = JStr audience \<and>
     canonical_company_id (or_blank (jget record ''company_id'')) = Inr tenant \<and>
     aget (suspended_key tenant) = Inr None"

lemma entry_for_unique:
  "entry_for aget h a c r \<Longrightarrow> entry_for aget h a' c' r' \<Longrightarrow> a = a' \<and> c = c' \<and> r = r'"
  by (auto simp: entry_for_def)

definition granted :: "'b outcome result \<Rightarrow> bool" where
  "granted r = (case r of Inr (Some _, _, _) \<Rightarrow> True | _ \<Rightarrow> False)"

lemma granted_iff: "granted r \<longleftrightarrow> (\<exists>b reason f. r = Inr (Some b, reason, f))"
  by (auto simp: granted_def split: sum.splits option.splits prod.splits)

locale verifier =
  fixes resolve :: "reader \<Rightarrow> string \<Rightarrow> 'b outcome result"
    and tenant :: "'b \<Rightarrow> string" and audience :: string
  assumes resolve_sound: "resolve aget h = Inr (Some b, reason, f) \<Longrightarrow>
      reason = None \<and> (\<exists>record. entry_for aget h audience (tenant b) record \<and> f = entry_facts record)"
    and resolve_complete: "entry_for aget h audience c record \<Longrightarrow>
      \<exists>b f. resolve aget h = Inr (Some b, None, f) \<and> tenant b = c"
    and resolve_refused: "resolve aget h = Inr (None, reason, f) \<Longrightarrow> reason \<noteq> None"
begin

lemma granted_entry: "granted (resolve aget h) \<longleftrightarrow> (\<exists>c d. entry_for aget h audience c d)"
  unfolding granted_iff using resolve_sound resolve_complete by metis

lemma resolve_tenant_iff:
  "(\<exists>b reason f. resolve aget h = Inr (Some b, reason, f) \<and> tenant b = c) \<longleftrightarrow>
   (\<exists>record. entry_for aget h audience c record)"
  using resolve_sound resolve_complete by (metis)

lemma suspended_denied:
  assumes "resolve aget h = Inr (Some b, reason, f)"
  shows "aget (suspended_key (tenant b)) = Inr None" "canonical_company_id (tenant b) = Inr (tenant b)"
  using resolve_sound [OF assms] by (auto simp: entry_for_def dest: canonical_idem)

lemma absent_denied: "aget (cap_key h) = Inr None \<Longrightarrow> \<not> granted (resolve aget h)"
  by (simp add: granted_entry entry_for_def)

end

lemma resolve_outcome_sound:
  assumes "resolve_outcome mk aget h a = Inr (Some b, reason, f)"
  shows "reason = None \<and> (\<exists>record c. entry_for aget h a c record \<and> f = entry_facts record \<and> b = mk record c f)"
  using assms
  by (auto simp: resolve_outcome_def entry_for_def Let_def split: if_splits sum.splits option.splits)

lemma resolve_outcome_complete:
  "entry_for aget h a c record \<Longrightarrow>
     resolve_outcome mk aget h a = Inr (Some (mk record c (entry_facts record)), None, entry_facts record)"
  by (auto simp: resolve_outcome_def entry_for_def Let_def)

lemma resolve_outcome_refused:
  "resolve_outcome mk aget h a = Inr (None, reason, f) \<Longrightarrow> reason \<noteq> None"
  by (auto simp: resolve_outcome_def Let_def split: if_splits sum.splits option.splits)

lemma resolve_outcome_verifier:
  assumes "\<And>record c f. ten (mk record c f) = c"
  shows "verifier (\<lambda>aget h. resolve_outcome mk aget h a) ten a"
proof
  fix aget h b reason f
  assume "resolve_outcome mk aget h a = Inr (Some b, reason, f)"
  from resolve_outcome_sound [OF this] assms
  show "reason = None \<and> (\<exists>record. entry_for aget h a (ten b) record \<and> f = entry_facts record)" by auto
next
  fix aget h c d
  assume "entry_for aget h a c d"
  from resolve_outcome_complete [OF this, of mk] assms
  show "\<exists>b f. resolve_outcome mk aget h a = Inr (Some b, None, f) \<and> ten b = c" by auto
qed (rule resolve_outcome_refused)

interpretation api: verifier "\<lambda>aget h. resolve_capability_outcome aget h AUDIENCE_API" cb_company_id AUDIENCE_API
  unfolding resolve_capability_outcome_def by (rule resolve_outcome_verifier) simp

interpretation sql: verifier resolve_sql_outcome sb_company_id AUDIENCE_SQL
  unfolding resolve_sql_outcome_def [abs_def] by (rule resolve_outcome_verifier) simp

interpretation cold: verifier resolve_cold_outcome kb_company_id AUDIENCE_COLD
  unfolding resolve_cold_outcome_def [abs_def] by (rule resolve_outcome_verifier) simp

interpretation tracking: verifier resolve_tracking_outcome tb_company_id AUDIENCE_TRACKING
  unfolding resolve_tracking_outcome_def [abs_def] tracking_resolve_outcome_def
  by (rule resolve_outcome_verifier) simp

interpretation upload: verifier resolve_upload_outcome tb_company_id AUDIENCE_UPLOAD
  unfolding resolve_upload_outcome_def [abs_def] tracking_resolve_outcome_def
  by (rule resolve_outcome_verifier) simp

section \<open>What a handle yields\<close>

text \<open>
  C3. On every plane a handle yields a binding to tenant \<open>c\<close> exactly when it is not empty, the store
  answers with an entry that is an object naming this plane's audience and, in any spelling, tenant
  \<open>c\<close>, and answers that \<open>c\<close> is not suspended. An absent, expired, revoked or malformed entry, another
  plane's entry, a suspended tenant and a failed read yield none.
\<close>

theorem resolution_iff_entry:
  "((\<exists>b r f. resolve_capability_outcome aget h AUDIENCE_API = Inr (Some b, r, f) \<and> cb_company_id b = c)
      \<longleftrightarrow> (\<exists>d. entry_for aget h ''api'' c d)) \<and>
   ((\<exists>b r f. resolve_sql_outcome aget h = Inr (Some b, r, f) \<and> sb_company_id b = c)
      \<longleftrightarrow> (\<exists>d. entry_for aget h ''sql'' c d)) \<and>
   ((\<exists>b r f. resolve_cold_outcome aget h = Inr (Some b, r, f) \<and> kb_company_id b = c)
      \<longleftrightarrow> (\<exists>d. entry_for aget h ''cold'' c d)) \<and>
   ((\<exists>b r f. resolve_tracking_outcome aget h = Inr (Some b, r, f) \<and> tb_company_id b = c)
      \<longleftrightarrow> (\<exists>d. entry_for aget h ''tracking'' c d)) \<and>
   ((\<exists>b r f. resolve_upload_outcome aget h = Inr (Some b, r, f) \<and> tb_company_id b = c)
      \<longleftrightarrow> (\<exists>d. entry_for aget h ''upload'' c d))"
  unfolding api.resolve_tenant_iff sql.resolve_tenant_iff cold.resolve_tenant_iff
    tracking.resolve_tenant_iff upload.resolve_tenant_iff
  by (simp add: AUDIENCE_API_def AUDIENCE_SQL_def AUDIENCE_COLD_def AUDIENCE_TRACKING_def
      AUDIENCE_UPLOAD_def)

text \<open>
  C2. Audiences are not interchangeable: against any one state of the store, a handle is accepted by at
  most one of the five planes.
\<close>

theorem one_plane_only:
  "length (filter (\<lambda>g. g)
     [granted (resolve_capability_outcome aget h AUDIENCE_API), granted (resolve_sql_outcome aget h),
      granted (resolve_cold_outcome aget h), granted (resolve_tracking_outcome aget h),
      granted (resolve_upload_outcome aget h)]) \<le> 1"
proof -
  have g: "granted (resolve_capability_outcome aget h AUDIENCE_API) \<longleftrightarrow> (\<exists>c d. entry_for aget h ''api'' c d)"
    "granted (resolve_sql_outcome aget h) \<longleftrightarrow> (\<exists>c d. entry_for aget h ''sql'' c d)"
    "granted (resolve_cold_outcome aget h) \<longleftrightarrow> (\<exists>c d. entry_for aget h ''cold'' c d)"
    "granted (resolve_tracking_outcome aget h) \<longleftrightarrow> (\<exists>c d. entry_for aget h ''tracking'' c d)"
    "granted (resolve_upload_outcome aget h) \<longleftrightarrow> (\<exists>c d. entry_for aget h ''upload'' c d)"
    using api.granted_entry sql.granted_entry cold.granted_entry tracking.granted_entry upload.granted_entry
    by (simp_all add: AUDIENCE_API_def AUDIENCE_SQL_def AUDIENCE_COLD_def AUDIENCE_TRACKING_def
        AUDIENCE_UPLOAD_def)
  have u: "a = a'" if "\<exists>c d. entry_for aget h a c d" "\<exists>c d. entry_for aget h a' c d" for a a'
    using that entry_for_unique by blast
  show ?thesis
    unfolding g using u [of "''api''"] u [of "''sql''"] u [of "''cold''"] u [of "''tracking''"]
    by (simp split: if_split) blast
qed

end
