(* ===== verification/Capabilities.thy ===== *)
theory Capabilities
  imports Verifiers
begin

text \<open>
  The life of a capability handle: minting, refresh and revocation in the notebook hub
  (\<open>services/notebook_hub/capabilities.py\<close>), minting of upload handles in the model service
  (\<open>services/ml_service/api/upload_capability.py\<close> and the endpoint in \<open>routers/models.py\<close>),
  revocation at logout (\<open>revoke_user_capabilities\<close> of
  \<open>services/api_gateway/capability_auth.py\<close>) and the suspension marker
  (\<open>services/api_gateway/company_status.py\<close>). The random handle and its identifier are arguments.
  An operation runs at one instant \<open>t\<close>, whose date is \<open>now\<close>; the store answers.

  Shown: a minted handle resolves at its plane, to what it was minted for, until it expires; once
  revoked it never resolves again, and refreshing does not bring it back; each removal of a live entry
  is recorded once.
\<close>

section \<open>The hub\<close>

definition HUB_AUDIENCES :: "string list" where
  "HUB_AUDIENCES = [''api'', ''sql'', ''tracking'', ''cold'']"

definition READ_ONLY_AUDIENCES :: "string list" where
  "READ_ONLY_AUDIENCES = [''api'', ''sql'', ''cold'']"

definition PLANE_HUB :: string where "PLANE_HUB = ''hub''"

definition hub_is_suspended :: "'s redis \<Rightarrow> 's \<Rightarrow> rat \<Rightarrow> string \<Rightarrow> bool" where
  "hub_is_suspended R s t company_id \<longleftrightarrow> r_get R s t (suspended_key company_id) \<noteq> None"

text \<open>\<open>RedisCapabilityStore.set_recorded\<close>: one transaction.\<close>

definition set_recorded ::
    "'s redis \<Rightarrow> 's \<Rightarrow> rat \<Rightarrow> string \<Rightarrow> raw \<Rightarrow> rat \<Rightarrow> fields \<Rightarrow> (string \<times> string \<times> raw) option \<Rightarrow> 's" where
  "set_recorded R s t key v ttl event index =
     (let s1 = (case index of
          None \<Rightarrow> s
        | Some (index_key, field, index_value) \<Rightarrow>
            c_expire R (r_hset R s t index_key field index_value) t index_key ttl)
      in c_xadd R (c_set R s1 t key v (Some ttl)) STREAM_MAXLEN event)"

definition mint_record :: "string \<Rightarrow> string \<Rightarrow> string \<Rightarrow> bool \<Rightarrow> string \<Rightarrow> jobject" where
  "mint_record user company_id audience read_only handle_id =
     [(''user'', JStr user), (''company_id'', JStr company_id), (''audience'', JStr audience),
      (''read_only'', JBool read_only), (''handle_id'', JStr handle_id)]"

definition hub_mint ::
    "'s redis \<Rightarrow> 's \<Rightarrow> rat \<Rightarrow> datetime \<Rightarrow> string \<Rightarrow> string \<Rightarrow> string \<Rightarrow> string \<Rightarrow> string \<Rightarrow> rat \<Rightarrow> string option \<Rightarrow>
      (string \<times> 's) result" where
  "hub_mint R s t now handle handle_id user company_id audience ttl server_name =
     (if audience \<notin> set HUB_AUDIENCES then Inl ValueError
      else if user = [] \<or> company_id = [] then Inl ValueError
      else if hub_is_suspended R s t company_id then Inl CompanySuspended
      else (case audit_event ''minted'' PLANE_HUB now
               \<lparr>ev_user = Some user, ev_company = Some company_id, ev_audience = Some audience,
                ev_handle = Some handle_id, ev_digest = None, ev_reason = None,
                ev_detail = map_option (\<lambda>n. ''server='' @ n) server_name\<rparr> of
         Inl e \<Rightarrow> Inl e
       | Inr event \<Rightarrow>
           Inr (handle, set_recorded R s t (cap_key handle)
             (RObj (mint_record user company_id audience (audience \<in> set READ_ONLY_AUDIENCES) handle_id))
             ttl event (map_option (\<lambda>n. (user_index user, handle, RText n)) server_name))))"

record hub_binding =
  hb_user :: string
  hb_company_id :: string
  hb_audience :: string
  hb_read_only :: bool

definition hub_resolve :: "'s redis \<Rightarrow> 's \<Rightarrow> rat \<Rightarrow> string \<Rightarrow> string \<Rightarrow> hub_binding option" where
  "hub_resolve R s t handle expected_audience =
     (if handle = [] then None
      else (case r_get R s t (cap_key handle) of
         None \<Rightarrow> None
       | Some raw \<Rightarrow>
           (case raw_object raw of
              None \<Rightarrow> None
            | Some d \<Rightarrow>
                if jget d ''audience'' \<noteq> JStr expected_audience then None
                else if \<not> truthy (jget d ''company_id'') \<or> \<not> truthy (jget d ''user'') then None
                else if hub_is_suspended R s t (py_str (jget d ''company_id'')) then None
                else Some \<lparr>hb_user = py_str (jget d ''user''), hb_company_id = py_str (jget d ''company_id''),
                  hb_audience = expected_audience,
                  hb_read_only = truthy (jget_default d ''read_only'' (JBool True))\<rparr>)))"

definition hub_entry_facts :: "raw option \<Rightarrow> facts" where
  "hub_entry_facts raw =
     (case raw of
        None \<Rightarrow> []
      | Some r \<Rightarrow>
          (case raw_object r of
             None \<Rightarrow> []
           | Some d \<Rightarrow>
               fact ''company_id'' (uuid_fact d ''company_id'') @ fact ''handle_id'' (uuid_fact d ''handle_id'') @
               fact ''user'' (if user_fact d = Some [] then None else user_fact d) @
               fact ''audience'' (audience_fact d)))"

text \<open>
  The removal of one handle, as \<open>_revoke_recorded\<close> and the loop of \<open>revoke_user_capabilities\<close> do it:
  the entry's facts are read, then the deletion and its record are one script.
\<close>

definition revoke_with ::
    "string \<Rightarrow> (raw option \<Rightarrow> facts) \<Rightarrow> 's redis \<Rightarrow> rat \<Rightarrow> datetime \<Rightarrow> string \<Rightarrow> string option \<Rightarrow> 's \<Rightarrow> string \<Rightarrow>
      (int \<times> 's) result" where
  "revoke_with plane read_facts R t now reason user s handle =
     (let key = cap_key handle; facts = read_facts (r_get R s t key)
      in case audit_event ''revoked'' plane now
           \<lparr>ev_user = (case od_get facts ''user'' of None \<Rightarrow> user | Some u \<Rightarrow> Some u),
            ev_company = od_get facts ''company_id'', ev_audience = od_get facts ''audience'',
            ev_handle = od_get facts ''handle_id'', ev_digest = None, ev_reason = Some reason,
            ev_detail = None\<rparr> of
           Inl e \<Rightarrow> Inl e
         | Inr f \<Rightarrow>
             (case delete_recorded_args key f of
                Inl e \<Rightarrow> Inl e
              | Inr k \<Rightarrow> Inr (DELETE_RECORDED_SCRIPT R s t k STREAM_MAXLEN f)))"

definition revoke_recorded ::
    "'s redis \<Rightarrow> 's \<Rightarrow> rat \<Rightarrow> datetime \<Rightarrow> string \<Rightarrow> string \<Rightarrow> string option \<Rightarrow> (int \<times> 's) result" where
  "revoke_recorded R s t now handle reason user =
     revoke_with PLANE_HUB hub_entry_facts R t now reason user s handle"

definition hub_revoke :: "'s redis \<Rightarrow> 's \<Rightarrow> rat \<Rightarrow> datetime \<Rightarrow> string \<Rightarrow> string \<Rightarrow> (int \<times> 's) result" where
  "hub_revoke R s t now handle reason = revoke_recorded R s t now handle reason None"

text \<open>The loop over a list of handles: how many entries were removed, and the store.\<close>

fun revoke_each :: "('s \<Rightarrow> string \<Rightarrow> (int \<times> 's) result) \<Rightarrow> 's \<Rightarrow> string list \<Rightarrow> (int \<times> 's) result" where
  "revoke_each rv s [] = Inr (0, s)"
| "revoke_each rv s (h # hs) =
     (case rv s h of
        Inl e \<Rightarrow> Inl e
      | Inr (n, s1) \<Rightarrow> res_map (\<lambda>(m, s2). (n + m, s2)) (revoke_each rv s1 hs))"

definition server_handles :: "'s redis \<Rightarrow> 's \<Rightarrow> rat \<Rightarrow> string \<Rightarrow> string \<Rightarrow> string list" where
  "server_handles R s t user server_name =
     map fst (filter (\<lambda>(h, n). n = RText server_name) (r_hgetall R s t (user_index user)))"

definition revoke_server ::
    "'s redis \<Rightarrow> 's \<Rightarrow> rat \<Rightarrow> datetime \<Rightarrow> string \<Rightarrow> string \<Rightarrow> string \<Rightarrow> (int \<times> 's) result" where
  "revoke_server R s t now user server_name reason =
     (let handles = server_handles R s t user server_name
      in case revoke_each (\<lambda>s h. revoke_recorded R s t now h reason (Some user)) s handles of
           Inl e \<Rightarrow> Inl e
         | Inr (_, s1) \<Rightarrow>
             Inr (int (length handles),
               if handles \<noteq> [] then r_hdel R s1 t (user_index user) handles else s1))"

definition revoke_user ::
    "'s redis \<Rightarrow> 's \<Rightarrow> rat \<Rightarrow> datetime \<Rightarrow> string \<Rightarrow> string \<Rightarrow> (int \<times> 's) result" where
  "revoke_user R s t now user reason =
     (let handles = map fst (r_hgetall R s t (user_index user))
      in case revoke_each (\<lambda>s h. revoke_recorded R s t now h reason (Some user)) s handles of
           Inl e \<Rightarrow> Inl e
         | Inr (_, s1) \<Rightarrow> Inr (int (length handles), c_del R s1 t (user_index user)))"

definition tenant_or_none :: "string option \<Rightarrow> string option" where
  "tenant_or_none company_id = (case uuid_text (or_empty company_id) of Inl _ \<Rightarrow> None | Inr u \<Rightarrow> Some u)"

definition record_environment_started ::
    "'s redis \<Rightarrow> 's \<Rightarrow> datetime \<Rightarrow> string \<Rightarrow> string \<Rightarrow> string \<Rightarrow> string option \<Rightarrow> 's result" where
  "record_environment_started R s now user company_id server_name profile =
     res_map (c_xadd R s STREAM_MAXLEN)
       (audit_event ''environment_started'' PLANE_HUB now
         (no_args\<lparr>ev_user := Some user, ev_company := tenant_or_none (Some company_id),
                  ev_detail := Some (''server='' @ server_name @
                    (case profile of None \<Rightarrow> [] | Some p \<Rightarrow> if p = [] then [] else '' profile='' @ p))\<rparr>))"

definition record_environment_stopped ::
    "'s redis \<Rightarrow> 's \<Rightarrow> datetime \<Rightarrow> string \<Rightarrow> string option \<Rightarrow> string \<Rightarrow> string \<Rightarrow> 's result" where
  "record_environment_stopped R s now user company_id server_name reason =
     res_map (c_xadd R s STREAM_MAXLEN)
       (audit_event ''environment_stopped'' PLANE_HUB now
         (no_args\<lparr>ev_user := Some user, ev_company := tenant_or_none company_id, ev_reason := Some reason,
                  ev_detail := Some (''server='' @ server_name)\<rparr>))"

text \<open>\<open>refresh_server\<close>: \<open>EXPIRE\<close> answers whether the key exists.\<close>

fun expire_each :: "'s redis \<Rightarrow> rat \<Rightarrow> rat \<Rightarrow> 's \<Rightarrow> string list \<Rightarrow> string list \<times> string list \<times> 's" where
  "expire_each R t ttl s [] = ([], [], s)"
| "expire_each R t ttl s (h # hs) =
     (case expire_each R t ttl (c_expire R s t (cap_key h) ttl) hs of
        (live, dead, s1) \<Rightarrow>
          if r_exists R s t (cap_key h) then (h # live, dead, s1) else (live, h # dead, s1))"

definition refresh_server :: "'s redis \<Rightarrow> 's \<Rightarrow> rat \<Rightarrow> string \<Rightarrow> string \<Rightarrow> rat \<Rightarrow> int \<times> 's" where
  "refresh_server R s t user server_name ttl =
     (case expire_each R t ttl s (server_handles R s t user server_name) of
        (live, dead, s1) \<Rightarrow>
          (let s2 = (if dead \<noteq> [] then r_hdel R s1 t (user_index user) dead else s1);
               s3 = (if live \<noteq> [] then c_expire R s2 t (user_index user) ttl else s2)
           in (int (length live), s3)))"

section \<open>The upload minter\<close>

definition UPLOAD_TTL_SECONDS :: rat where "UPLOAD_TTL_SECONDS = 600"

definition build_record :: "string \<Rightarrow> string \<Rightarrow> string \<Rightarrow> jobject result" where
  "build_record handle_id user company_id =
     (if user = [] then Inl ValueError
      else if company_id = [] then Inl ValueError
      else res_map (\<lambda>c. mint_record user c AUDIENCE_UPLOAD False handle_id) (uuid_text company_id))"

definition minted_event :: "datetime \<Rightarrow> jobject \<Rightarrow> fields result" where
  "minted_event now d =
     audit_event ''minted'' ''ml_service'' now
       (no_args\<lparr>ev_user := Some (py_str (jget d ''user'')), ev_company := Some (py_str (jget d ''company_id'')),
                ev_audience := Some (py_str (jget d ''audience'')),
                ev_handle := Some (py_str (jget d ''handle_id''))\<rparr>)"

text \<open>The endpoint \<open>mint_upload_capability\<close>, from the verified user and tenant on.\<close>

definition mint_upload_capability ::
    "'s redis \<Rightarrow> 's \<Rightarrow> rat \<Rightarrow> datetime \<Rightarrow> string \<Rightarrow> string \<Rightarrow> string \<Rightarrow> string \<Rightarrow> (http_error + string) \<times> 's" where
  "mint_upload_capability R s t now handle handle_id user company_id =
     (case build_record handle_id user company_id of
        Inl _ \<Rightarrow> (Inl (HTTPException 400 ''no principal to bind to''), s)
      | Inr d \<Rightarrow>
          if r_get R s t (suspended_key (py_str (jget d ''company_id''))) \<noteq> None
          then (Inl (HTTPException 403 ''This company is suspended.''), s)
          else (case minted_event now d of
             Inl _ \<Rightarrow> (Inl (HTTPException 500 ''Internal Server Error''), s)
           | Inr event \<Rightarrow>
               (let index = upload_index (py_str (jget d ''user''));
                    s1 = c_expire R (r_sadd R s t index handle) t index UPLOAD_TTL_SECONDS
                in (Inr handle,
                    c_xadd R (c_set R s1 t (cap_key handle) (RObj d) (Some UPLOAD_TTL_SECONDS))
                      STREAM_MAXLEN event))))"

section \<open>The platform's logout and suspension\<close>

definition api_entry_facts :: "raw option \<Rightarrow> facts" where
  "api_entry_facts raw =
     (case raw of
        None \<Rightarrow> []
      | Some r \<Rightarrow> (case raw_object r of None \<Rightarrow> [] | Some d \<Rightarrow> entry_facts d))"

definition revoke_user_capabilities ::
    "'s redis \<Rightarrow> 's \<Rightarrow> rat \<Rightarrow> datetime \<Rightarrow> string \<Rightarrow> (int \<times> 's) result" where
  "revoke_user_capabilities R s t now user_id =
     (let handles = map fst (r_hgetall R s t (user_index user_id)) @ r_smembers R s t (upload_index user_id)
      in case revoke_each (revoke_with ''api_gateway'' api_entry_facts R t now ''user_signed_out'' (Some user_id))
                s handles of
           Inl e \<Rightarrow> Inl e
         | Inr (n, s1) \<Rightarrow> Inr (n, c_del R (c_del R s1 t (user_index user_id)) t (upload_index user_id)))"

definition mark_suspended :: "'s redis \<Rightarrow> 's \<Rightarrow> rat \<Rightarrow> string \<Rightarrow> 's" where
  "mark_suspended R s t company_id = c_set R s t (suspended_key company_id) (RNum (Fin 1)) None"

definition clear_suspended :: "'s redis \<Rightarrow> 's \<Rightarrow> rat \<Rightarrow> string \<Rightarrow> 's" where
  "clear_suspended R s t company_id = c_del R s t (suspended_key company_id)"

section \<open>Facts of an entry\<close>

definition facts_ok :: "facts \<Rightarrow> bool" where
  "facts_ok f \<longleftrightarrow>
     (\<forall>c. od_get f ''company_id'' = Some c \<longrightarrow> canonical_company_id c = Inr c) \<and>
     (\<forall>h. od_get f ''handle_id'' = Some h \<longrightarrow> canonical_company_id h = Inr h) \<and>
     (\<forall>a. od_get f ''audience'' = Some a \<longrightarrow> a \<in> set AUDIENCES)"

lemma od_get_fact [simp]:
  "od_get (fact n v @ rest) k = (if k = n then (case v of None \<Rightarrow> od_get rest k | Some x \<Rightarrow> Some x) else od_get rest k)"
  "od_get (fact n v) k = (if k = n then v else None)"
  by (auto simp: fact_def split: option.splits)

lemma entry_facts_get:
  "od_get (entry_facts d) ''company_id'' = uuid_fact d ''company_id''"
  "od_get (entry_facts d) ''handle_id'' = uuid_fact d ''handle_id''"
  "od_get (entry_facts d) ''user'' = user_fact d"
  "od_get (entry_facts d) ''audience'' = audience_fact d"
  by (simp_all add: entry_facts_def del: map_of_append split: option.split)

lemma uuid_fact_canonical: "uuid_fact d n = Some u \<Longrightarrow> canonical_company_id u = Inr u"
  by (auto simp: uuid_fact_def dest: canonical_idem split: sum.splits)

lemma audience_fact_known: "audience_fact d = Some a \<Longrightarrow> a \<in> set AUDIENCES"
  by (auto simp: audience_fact_def split: json.splits if_splits)

lemma entry_facts_ok: "facts_ok (entry_facts d)"
  by (auto simp: facts_ok_def entry_facts_get dest: uuid_fact_canonical audience_fact_known)

lemma api_entry_facts_ok: "facts_ok (api_entry_facts r)"
  using entry_facts_ok by (auto simp: api_entry_facts_def facts_ok_def [of "[]"] split: option.splits)

lemma hub_entry_facts_ok: "facts_ok (hub_entry_facts r)"
proof -
  have "facts_ok (fact ''company_id'' (uuid_fact d ''company_id'') @ fact ''handle_id'' (uuid_fact d ''handle_id'') @
      fact ''user'' u @ fact ''audience'' (audience_fact d))" for d u
    using uuid_fact_canonical audience_fact_known
    by (auto simp: facts_ok_def simp del: map_of_append split: option.splits)
  then show ?thesis by (auto simp: hub_entry_facts_def facts_ok_def [of "[]"] split: option.splits)
qed

text \<open>An event built from an entry's facts is never refused.\<close>

lemma audit_event_total:
  assumes "kind \<in> set KINDS" "plane \<in> set PLANES" "facts_ok f"
    and "ev_company a = od_get f ''company_id''" "ev_handle a = od_get f ''handle_id''"
      "ev_audience a = od_get f ''audience''" "ev_digest a = None"
  shows "\<exists>e. audit_event kind plane now a = Inr e"
  using assms
  by (auto simp: audit_event_def facts_ok_def opt_uuid_def split: option.splits sum.splits)

lemma revoke_with_script:
  assumes "plane \<in> set PLANES" "\<forall>r. facts_ok (read_facts r)"
  shows "\<exists>f. revoke_with plane read_facts R t now reason user s h =
      Inr (DELETE_RECORDED_SCRIPT R s t (cap_key h) STREAM_MAXLEN f) \<and>
    fget f ''kind'' = Some ''revoked'' \<and>
    fget f ''handle_id'' = od_get (read_facts (r_get R s t (cap_key h))) ''handle_id''"
proof -
  let ?facts = "read_facts (r_get R s t (cap_key h))"
  let ?a = "\<lparr>ev_user = (case od_get ?facts ''user'' of None \<Rightarrow> user | Some u \<Rightarrow> Some u),
            ev_company = od_get ?facts ''company_id'', ev_audience = od_get ?facts ''audience'',
            ev_handle = od_get ?facts ''handle_id'', ev_digest = None, ev_reason = Some reason,
            ev_detail = None\<rparr>"
  have "''revoked'' \<in> set KINDS" by (simp add: KINDS_def)
  then obtain f where f: "audit_event ''revoked'' plane now ?a = Inr f"
    using audit_event_total [OF _ assms(1) assms(2) [rule_format, of "r_get R s t (cap_key h)"], of _ ?a] by auto
  then obtain hd where h: "opt_uuid (ev_handle ?a) = Inr hd" "fget f ''kind'' = Some ''revoked''"
      "fget f ''handle_id'' = hd"
    by (rule audit_event_fields) blast
  have "hd = od_get ?facts ''handle_id''"
    using h(1) assms(2) [rule_format, of "r_get R s t (cap_key h)"]
    by (auto simp: opt_uuid_def facts_ok_def split: option.splits)
  with f h show ?thesis by (auto simp: revoke_with_def Let_def delete_recorded_args_def)
qed

section \<open>Revocation\<close>

definition live_entries :: "'s redis \<Rightarrow> 's \<Rightarrow> rat \<Rightarrow> string list \<Rightarrow> int" where
  "live_entries R s t hs = int (length (filter (\<lambda>h. r_exists R s t (cap_key h)) (remdups hs)))"

lemma length_filter_remdups: "length (filter P (remdups hs)) = card {x \<in> set hs. P x}"
  using distinct_card [of "filter P (remdups hs)"] by simp

lemma filter_remdups_Cons:
  "length (filter P (remdups (h # hs))) =
     (if P h then 1 else 0) + length (filter (\<lambda>x. P x \<and> x \<noteq> h) (remdups hs))"
proof -
  let ?A = "{x \<in> set hs. P x \<and> x \<noteq> h}"
  have "{x \<in> set (h # hs). P x} = (if P h then insert h ?A else ?A)" by auto
  then show ?thesis unfolding length_filter_remdups by simp
qed

context redis
begin

lemma revoke_each_gone:
  assumes "plane \<in> set PLANES" "\<forall>r. facts_ok (read_facts r)"
  shows "\<exists>s'. revoke_each (revoke_with plane read_facts R t now reason user) s hs = Inr (live_entries R s t hs, s') \<and>
    (\<forall>t' k. t \<le> t' \<longrightarrow> view R s' t' k = (if k \<in> cap_key ` set hs then None else view R s t' k)) \<and>
    (length (stream R s) + length hs \<le> STREAM_MAXLEN \<longrightarrow>
      int (length (stream R s')) = int (length (stream R s)) + live_entries R s t hs)"
proof (induction hs arbitrary: s)
  case Nil
  then show ?case by (simp add: live_entries_def)
next
  case (Cons h hs)
  obtain f where f: "revoke_with plane read_facts R t now reason user s h =
      Inr (DELETE_RECORDED_SCRIPT R s t (cap_key h) STREAM_MAXLEN f)"
    using revoke_with_script [OF assms, of R t now reason user s h] by blast
  define s1 where "s1 = snd (DELETE_RECORDED_SCRIPT R s t (cap_key h) STREAM_MAXLEN f)"
  note del = delete_recorded [of t _ s "cap_key h" STREAM_MAXLEN f, folded s1_def]
  have v1: "view R s1 t' k = (if k = cap_key h then None else view R s t' k)" if "t \<le> t'" for t' k
    using del(2) [OF that] .
  have ex: "r_exists R s1 t (cap_key x) \<longleftrightarrow> r_exists R s t (cap_key x) \<and> x \<noteq> h" for x
    using v1 by (auto simp: r_exists_def)
  have live: "live_entries R s t (h # hs) = (if r_exists R s t (cap_key h) then 1 else 0) + live_entries R s1 t hs"
    by (simp add: live_entries_def filter_remdups_Cons ex del: remdups.simps)
  have st: "length (stream R s1) = length (stream R s) + (if r_exists R s t (cap_key h) then 1 else 0)"
    if "length (stream R s) < STREAM_MAXLEN"
    using that del(3) [OF order_refl]
    by (auto simp: s1_def DELETE_RECORDED_SCRIPT_def r_del_def xadd_room stream_del)
  obtain s' where s': "revoke_each (revoke_with plane read_facts R t now reason user) s1 hs =
        Inr (live_entries R s1 t hs, s')"
      "\<forall>t' k. t \<le> t' \<longrightarrow> view R s' t' k = (if k \<in> cap_key ` set hs then None else view R s1 t' k)"
      "length (stream R s1) + length hs \<le> STREAM_MAXLEN \<longrightarrow>
        int (length (stream R s')) = int (length (stream R s1)) + live_entries R s1 t hs"
    using Cons.IH by blast
  have "DELETE_RECORDED_SCRIPT R s t (cap_key h) STREAM_MAXLEN f =
      ((if r_exists R s t (cap_key h) then 1 else 0), s1)"
    using del(1) [OF order_refl] by (simp add: s1_def prod_eq_iff)
  then have "revoke_each (revoke_with plane read_facts R t now reason user) s (h # hs) =
      Inr (live_entries R s t (h # hs), s')"
    by (simp add: f s'(1) live)
  moreover have "\<forall>t' k. t \<le> t' \<longrightarrow> view R s' t' k = (if k \<in> cap_key ` set (h # hs) then None else view R s t' k)"
    using s'(2) v1 by auto
  moreover have "length (stream R s) + length (h # hs) \<le> STREAM_MAXLEN \<longrightarrow>
      int (length (stream R s')) = int (length (stream R s)) + live_entries R s t (h # hs)"
    using s'(3) st live by (auto split: if_splits)
  ultimately show ?case by blast
qed

end

text \<open>The store as a verifier reads it at a time.\<close>

definition store_reader :: "'s redis \<Rightarrow> 's \<Rightarrow> rat \<Rightarrow> reader" where
  "store_reader R s t k = Inr (r_get R s t k)"

definition refused_everywhere :: "reader \<Rightarrow> string \<Rightarrow> bool" where
  "refused_everywhere aget h \<longleftrightarrow>
     \<not> granted (resolve_capability_outcome aget h AUDIENCE_API) \<and> \<not> granted (resolve_sql_outcome aget h) \<and>
     \<not> granted (resolve_cold_outcome aget h) \<and> \<not> granted (resolve_tracking_outcome aget h) \<and>
     \<not> granted (resolve_upload_outcome aget h)"

lemma absent_refused: "aget (cap_key h) = Inr None \<Longrightarrow> refused_everywhere aget h"
  by (simp add: refused_everywhere_def api.absent_denied sql.absent_denied cold.absent_denied
      tracking.absent_denied upload.absent_denied)

lemma view_absent_refused: "view R s t (cap_key h) = None \<Longrightarrow> refused_everywhere (store_reader R s t) h"
  by (rule absent_refused) (simp add: store_reader_def r_get_def)

context redis
begin

lemma revoke_user_capabilities_state:
  assumes "handles = map fst (r_hgetall R s t (user_index u)) @ r_smembers R s t (upload_index u)"
  shows "\<exists>s'. revoke_user_capabilities R s t now u = Inr (live_entries R s t handles, s') \<and>
    (\<forall>t' k. t \<le> t' \<longrightarrow> view R s' t' k = (if k = user_index u \<or> k = upload_index u \<or> k \<in> cap_key ` set handles
      then None else view R s t' k)) \<and>
    (length (stream R s) + length handles \<le> STREAM_MAXLEN \<longrightarrow>
      int (length (stream R s')) = int (length (stream R s)) + live_entries R s t handles)"
proof -
  have "''api_gateway'' \<in> set PLANES" by (simp add: PLANES_def)
  moreover have "\<forall>r. facts_ok (api_entry_facts r)" using api_entry_facts_ok by blast
  ultimately obtain s1 where s1:
      "revoke_each (revoke_with ''api_gateway'' api_entry_facts R t now ''user_signed_out'' (Some u)) s handles =
        Inr (live_entries R s t handles, s1)"
      "\<forall>t' k. t \<le> t' \<longrightarrow> view R s1 t' k = (if k \<in> cap_key ` set handles then None else view R s t' k)"
      "length (stream R s) + length handles \<le> STREAM_MAXLEN \<longrightarrow>
        int (length (stream R s1)) = int (length (stream R s)) + live_entries R s t handles"
    using revoke_each_gone by blast
  define s' where "s' = c_del R (c_del R s1 t (user_index u)) t (upload_index u)"
  have "revoke_user_capabilities R s t now u = Inr (live_entries R s t handles, s')"
    using s1(1) assms by (simp add: revoke_user_capabilities_def Let_def s'_def)
  moreover have "view R s' t' k = (if k = user_index u \<or> k = upload_index u \<or> k \<in> cap_key ` set handles
      then None else view R s t' k)" if "t \<le> t'" for t' k
    using s1(2) that by (auto simp: s'_def view_del)
  moreover have "stream R s' = stream R s1" by (simp add: s'_def stream_del)
  ultimately show ?thesis using s1(3) by auto
qed

lemma revoke_user_capabilities_view:
  assumes "t \<le> t'" "handles = map fst (r_hgetall R s t (user_index u)) @ r_smembers R s t (upload_index u)"
  shows "\<exists>n s'. revoke_user_capabilities R s t now u = Inr (n, s') \<and>
    (\<forall>h \<in> set handles. refused_everywhere (store_reader R s' t') h) \<and>
    (\<forall>k. (\<forall>h. k \<noteq> cap_key h) \<longrightarrow> k \<noteq> user_index u \<longrightarrow> k \<noteq> upload_index u \<longrightarrow> view R s' t' k = view R s t' k)"
proof -
  obtain s' where s': "revoke_user_capabilities R s t now u = Inr (live_entries R s t handles, s')"
      "\<forall>t' k. t \<le> t' \<longrightarrow> view R s' t' k = (if k = user_index u \<or> k = upload_index u \<or> k \<in> cap_key ` set handles
        then None else view R s t' k)"
    using revoke_user_capabilities_state [OF assms(2), of now] by blast
  have "refused_everywhere (store_reader R s' t') h" if "h \<in> set handles" for h
    using s'(2) assms(1) that by (intro view_absent_refused) simp
  with s' assms(1) show ?thesis by auto
qed

end

text \<open>
  C34. Logout: revoking a user's capabilities removes every handle the hub or the upload minter has
  indexed for the user, counts and records exactly the live ones, touches no other handle, and from then
  on none of the removed handles is accepted by any plane.
\<close>

theorem logout_revokes_all:
  assumes "redis R" "handles = map fst (r_hgetall R s t (user_index u)) @ r_smembers R s t (upload_index u)"
  shows "\<exists>s'. revoke_user_capabilities R s t now u = Inr (live_entries R s t handles, s') \<and>
    (\<forall>t' h. t \<le> t' \<longrightarrow> (if h \<in> set handles then refused_everywhere (store_reader R s' t') h
       else r_get R s' t' (cap_key h) = r_get R s t' (cap_key h))) \<and>
    (\<forall>t'. t \<le> t' \<longrightarrow> r_hgetall R s' t' (user_index u) = [] \<and> r_smembers R s' t' (upload_index u) = []) \<and>
    (length (stream R s) + length handles \<le> STREAM_MAXLEN \<longrightarrow>
      int (length (stream R s')) = int (length (stream R s)) + live_entries R s t handles)"
proof -
  obtain s' where s': "revoke_user_capabilities R s t now u = Inr (live_entries R s t handles, s')"
      "\<forall>t' k. t \<le> t' \<longrightarrow> view R s' t' k = (if k = user_index u \<or> k = upload_index u \<or> k \<in> cap_key ` set handles
        then None else view R s t' k)"
      "length (stream R s) + length handles \<le> STREAM_MAXLEN \<longrightarrow>
        int (length (stream R s')) = int (length (stream R s)) + live_entries R s t handles"
    using redis.revoke_user_capabilities_state [OF assms, of now] by blast
  have "if h \<in> set handles then refused_everywhere (store_reader R s' t') h
      else r_get R s' t' (cap_key h) = r_get R s t' (cap_key h)" if "t \<le> t'" for t' h
    using s'(2) that view_absent_refused [of R s' t' h] by (auto simp: r_get_def image_iff)
  moreover have "r_hgetall R s' t' (user_index u) = [] \<and> r_smembers R s' t' (upload_index u) = []"
    if "t \<le> t'" for t'
    using s'(2) that by (simp add: r_hgetall_def r_smembers_def)
  ultimately show ?thesis using s' by (intro exI [of _ s']) auto
qed

abbreviation demo_mem :: mem where
  "demo_mem \<equiv> \<lparr>ents = [user_index ''u'' \<mapsto> (VHash [(''h'', RText ''srv'')], None),
      cap_key ''h'' \<mapsto> (VText (RObj [(''audience'', JStr ''sql'')]), Some 100)], mem_stream = []\<rparr>"

theorem logout_revokes_all_witness:
  "\<exists>s'. revoke_user_capabilities ref_redis demo_mem 5 noon ''u'' = Inr (1, s') \<and>
     refused_everywhere (store_reader ref_redis s' 6) ''h''"
proof -
  have h: "[''h''] = map fst (r_hgetall ref_redis demo_mem 5 (user_index ''u'')) @
      r_smembers ref_redis demo_mem 5 (upload_index ''u'')"
    by (simp add: ref_eval)
  have one: "live_entries ref_redis demo_mem 5 [''h''] = 1" by (simp add: live_entries_def ref_eval)
  obtain s' where "revoke_user_capabilities ref_redis demo_mem 5 noon ''u'' = Inr (1, s')"
    and all: "\<forall>t' h. 5 \<le> t' \<longrightarrow> (if h \<in> set [''h''] then refused_everywhere (store_reader ref_redis s' t') h
       else r_get ref_redis s' t' (cap_key h) = r_get ref_redis demo_mem t' (cap_key h))"
    using logout_revokes_all [OF ref.redis_axioms h, of noon] unfolding one by blast
  moreover have "refused_everywhere (store_reader ref_redis s' 6) ''h''"
    using all [rule_format, of 6 "''h''"] by simp
  ultimately show ?thesis by blast
qed

section \<open>Minting\<close>

context redis
begin

lemma set_recorded_view:
  assumes "t \<le> t'" "index = map_option (\<lambda>n. (user_index u, h, RText n)) server"
  shows "view R (set_recorded R s t (cap_key h) v ttl e index) t' (cap_key h) =
      (if t' < t + ttl then Some (VText v) else None)"
    and "view R (set_recorded R s t (cap_key h) v ttl e index) t' (suspended_key c) = view R s t' (suspended_key c)"
    and "h' \<noteq> h \<Longrightarrow> view R (set_recorded R s t (cap_key h) v ttl e index) t' (cap_key h') = view R s t' (cap_key h')"
    and "server = Some n \<Longrightarrow> t' < t + ttl \<Longrightarrow>
      h \<in> set (map fst (r_hgetall R (set_recorded R s t (cap_key h) v ttl e index) t' (user_index u)))"
proof -
  have ne: "\<not> empty_value (VHash (od_set d f x))" for d f x
    by (cases "(d, f, x)" rule: od_set.cases) auto
  have mem: "h \<in> fst ` set (od_set d h x)" for d and x :: raw
    using keys_od_set [of d h x] by simp
  define s1 where "s1 = (case server of None \<Rightarrow> s
    | Some n \<Rightarrow> c_expire R (r_hset R s t (user_index u) h (RText n)) t (user_index u) ttl)"
  have eq: "set_recorded R s t (cap_key h) v ttl e index =
      c_xadd R (c_set R s1 t (cap_key h) v (Some ttl)) STREAM_MAXLEN e"
    using assms(2) by (cases server) (simp_all add: set_recorded_def s1_def Let_def)
  have other: "view R s1 t' k = view R s t' k" if "k \<noteq> user_index u" for k
    using assms(1) that by (cases server) (simp_all add: s1_def view_expire view_modify r_hset_def)
  show "view R (set_recorded R s t (cap_key h) v ttl e index) t' (cap_key h) =
      (if t' < t + ttl then Some (VText v) else None)"
    using assms(1) by (simp add: eq view_xadd view_set lives_def)
  show "view R (set_recorded R s t (cap_key h) v ttl e index) t' (suspended_key c) = view R s t' (suspended_key c)"
    using assms(1) by (simp add: eq view_xadd view_set other)
  show "view R (set_recorded R s t (cap_key h) v ttl e index) t' (cap_key h') = view R s t' (cap_key h')"
    if "h' \<noteq> h"
    using assms(1) that by (simp add: eq view_xadd view_set other)
  show "h \<in> set (map fst (r_hgetall R (set_recorded R s t (cap_key h) v ttl e index) t' (user_index u)))"
    if "server = Some n" "t' < t + ttl"
  proof -
    have "view R s1 t' (user_index u) = Some (VHash (od_set (r_hgetall R s t (user_index u)) h (RText n)))"
      using assms(1) that ne by (auto simp: s1_def view_expire view_modify r_hset_def)
    then show ?thesis using assms(1) mem by (simp add: eq r_hgetall_def view_xadd view_set)
  qed
qed

end

lemma mint_record_get [simp]:
  "jget (mint_record u c a ro hid) ''user'' = JStr u" "jget (mint_record u c a ro hid) ''company_id'' = JStr c"
  "jget (mint_record u c a ro hid) ''audience'' = JStr a" "jget (mint_record u c a ro hid) ''handle_id'' = JStr hid"
  "jget_default (mint_record u c a ro hid) ''user'' v = JStr u"
  "jget_default (mint_record u c a ro hid) ''read_only'' v = JBool ro"
  by (simp_all add: mint_record_def jget_def jget_default_def)

lemma or_blank_str [simp]: "or_blank (JStr x) = x"
  by (simp add: or_blank_def)

lemma hub_mint_Inr:
  assumes "hub_mint R s t now h hid user c a ttl server = Inr (h', s')"
  obtains event company handle_id where "h' = h" "a \<in> set HUB_AUDIENCES"
    "canonical_company_id c = Inr company" "canonical_company_id hid = Inr handle_id"
    "r_get R s t (suspended_key c) = None"
    "s' = set_recorded R s t (cap_key h) (RObj (mint_record user c a (a \<in> set READ_ONLY_AUDIENCES) hid))
       ttl event (map_option (\<lambda>n. (user_index user, h, RText n)) server)"
  using assms
  by (auto simp: hub_mint_def audit_event_def opt_uuid_def hub_is_suspended_def
      split: if_splits sum.splits option.splits)

text \<open>
  C33. A handle the hub mints resolves, until its lifetime is over and unless its tenant is suspended, at
  the plane of its audience to the user and the canonical tenant it was minted for, read-only on every
  plane but tracking, and under the identifier the mint was recorded with; once the lifetime is over no
  plane accepts it.
\<close>

theorem minted_handle_resolves:
  assumes "redis R" "hub_mint R s t now h hid user c audience ttl server = Inr (h', s')" "h \<noteq> []" "t \<le> t'"
  shows "\<exists>company handle_id. canonical_company_id c = Inr company \<and> canonical_company_id hid = Inr handle_id \<and> h' = h \<and>
    (t + ttl \<le> t' \<longrightarrow> refused_everywhere (store_reader R s' t') h) \<and>
    (t' < t + ttl \<and> r_get R s' t' (suspended_key company) = None \<longrightarrow>
      (audience = ''api'' \<longrightarrow> (\<exists>f. resolve_capability_outcome (store_reader R s' t') h AUDIENCE_API =
         Inr (Some \<lparr>cb_user = user, cb_company_id = company, cb_audience = ''api'', cb_read_only = True,
                    cb_handle_id = Some handle_id\<rparr>, None, f))) \<and>
      (audience = ''sql'' \<longrightarrow> (\<exists>f. resolve_sql_outcome (store_reader R s' t') h =
         Inr (Some \<lparr>sb_user = user, sb_company_id = company, sb_read_only = True,
                    sb_handle_id = Some handle_id\<rparr>, None, f))) \<and>
      (audience = ''cold'' \<longrightarrow> (\<exists>f. resolve_cold_outcome (store_reader R s' t') h =
         Inr (Some \<lparr>kb_user = user, kb_company_id = company, kb_handle_id = Some handle_id\<rparr>, None, f))) \<and>
      (audience = ''tracking'' \<longrightarrow> (\<exists>f. resolve_tracking_outcome (store_reader R s' t') h =
         Inr (Some \<lparr>tb_user = JStr user, tb_company_id = company, tb_audience = ''tracking'',
                    tb_handle_id = Some handle_id\<rparr>, None, f))))"
proof -
  from assms(2) obtain event company handle_id where h: "h' = h" "canonical_company_id c = Inr company"
      "canonical_company_id hid = Inr handle_id"
    and s': "s' = set_recorded R s t (cap_key h)
       (RObj (mint_record user c audience (audience \<in> set READ_ONLY_AUDIENCES) hid))
       ttl event (map_option (\<lambda>n. (user_index user, h, RText n)) server)"
    by (rule hub_mint_Inr) blast
  let ?d = "mint_record user c audience (audience \<in> set READ_ONLY_AUDIENCES) hid"
  have v: "view R s' t' (cap_key h) = (if t' < t + ttl then Some (VText (RObj ?d)) else None)"
    unfolding s' by (rule redis.set_recorded_view(1) [OF assms(1,4) refl])
  have entry: "entry_for (store_reader R s' t') h audience company ?d"
    if "t' < t + ttl" "r_get R s' t' (suspended_key company) = None"
    using v that assms(3) h by (simp add: entry_for_def store_reader_def r_get_def)
  have hid: "od_get (entry_facts ?d) ''handle_id'' = Some handle_id"
    using h by (simp add: entry_facts_get uuid_fact_def)
  let ?g = "store_reader R s' t'"
  let ?live = "t' < t + ttl \<and> r_get R s' t' (suspended_key company) = None"
  note res = resolve_outcome_complete [OF entry]
  have r1: "\<exists>f. resolve_capability_outcome ?g h AUDIENCE_API =
      Inr (Some \<lparr>cb_user = user, cb_company_id = company, cb_audience = ''api'', cb_read_only = True,
                 cb_handle_id = Some handle_id\<rparr>, None, f)" if ?live "audience = ''api''"
    using that(1) hid
    by (simp add: resolve_capability_outcome_def AUDIENCE_API_def READ_ONLY_AUDIENCES_def res [unfolded that(2)] that(2))
  have r2: "\<exists>f. resolve_sql_outcome ?g h =
      Inr (Some \<lparr>sb_user = user, sb_company_id = company, sb_read_only = True,
                 sb_handle_id = Some handle_id\<rparr>, None, f)" if ?live "audience = ''sql''"
    using that(1) hid
    by (simp add: resolve_sql_outcome_def AUDIENCE_SQL_def READ_ONLY_AUDIENCES_def res [unfolded that(2)] that(2))
  have r3: "\<exists>f. resolve_cold_outcome ?g h =
      Inr (Some \<lparr>kb_user = user, kb_company_id = company, kb_handle_id = Some handle_id\<rparr>, None, f)"
    if ?live "audience = ''cold''"
    using that(1) hid by (simp add: resolve_cold_outcome_def AUDIENCE_COLD_def res [unfolded that(2)] that(2))
  have r4: "\<exists>f. resolve_tracking_outcome ?g h =
      Inr (Some \<lparr>tb_user = JStr user, tb_company_id = company, tb_audience = ''tracking'',
                 tb_handle_id = Some handle_id\<rparr>, None, f)" if ?live "audience = ''tracking''"
    using that(1) hid
    by (simp add: resolve_tracking_outcome_def tracking_resolve_outcome_def AUDIENCE_TRACKING_def
        res [unfolded that(2)] that(2))
  have r5: "refused_everywhere ?g h" if "t + ttl \<le> t'"
    using v that view_absent_refused [of R s' t' h] by simp
  show ?thesis
    using h r1 r2 r3 r4 r5
    by (intro exI [of _ company] exI [of _ handle_id] conjI impI) simp_all
qed

theorem minted_handle_resolves_witness:
  "\<exists>s' f. hub_mint ref_redis mem_empty 0 noon ''h'' uuid_b ''u'' uuid_a ''sql'' 60 (Some ''srv'') = Inr (''h'', s') \<and>
     resolve_sql_outcome (store_reader ref_redis s' 30) ''h'' =
       Inr (Some \<lparr>sb_user = ''u'', sb_company_id = uuid_a, sb_read_only = True, sb_handle_id = Some uuid_b\<rparr>, None, f)"
proof -
  have "\<exists>s'. hub_mint ref_redis mem_empty 0 noon ''h'' uuid_b ''u'' uuid_a ''sql'' 60 (Some ''srv'') = Inr (''h'', s')"
    by (simp add: hub_mint_def HUB_AUDIENCES_def hub_is_suspended_def audit_event_def opt_uuid_def KINDS_def
        PLANES_def PLANE_HUB_def AUDIENCES_def ref_eval)
  then obtain s' where m: "hub_mint ref_redis mem_empty 0 noon ''h'' uuid_b ''u'' uuid_a ''sql'' 60 (Some ''srv'') = Inr (''h'', s')"
    by blast
  have "view ref_redis s' 30 (suspended_key uuid_a) = view ref_redis mem_empty 30 (suspended_key uuid_a)"
    using m by (rule hub_mint_Inr) (simp only:, rule ref.set_recorded_view(2) [OF _ refl], simp)
  then have "r_get ref_redis s' 30 (suspended_key uuid_a) = None" by (simp add: r_get_def) (simp add: ref_eval)
  with m minted_handle_resolves [OF ref.redis_axioms m, of 30] show ?thesis by auto
qed

section \<open>A server's handles\<close>

lemma set_server_handles:
  "set (server_handles R s t u n) \<subseteq> set (map fst (r_hgetall R s t (user_index u)))"
  by (auto simp: server_handles_def)

context redis
begin

lemma expire_each_view:
  assumes "0 < ttl" "t \<le> t'"
  shows "expire_each R t ttl s hs = (live, dead, s1) \<Longrightarrow> view R s1 t' k =
    (if k \<in> cap_key ` set hs then (if t' < t + ttl then view R s t k else None) else view R s t' k)"
proof (induction hs arbitrary: s live dead s1)
  case (Cons h hs)
  define s0 where "s0 = c_expire R s t (cap_key h) ttl"
  obtain live' dead' where e: "expire_each R t ttl s0 hs = (live', dead', s1)"
    using Cons.prems by (auto simp: s0_def split: prod.splits if_splits)
  have "view R s0 t k = view R s t k" using assms(1) by (simp add: s0_def view_expire)
  moreover have "view R s0 t' k =
      (if k = cap_key h then (if t' < t + ttl then view R s t k else None) else view R s t' k)"
    using assms(2) by (simp add: s0_def view_expire)
  ultimately show ?case using Cons.IH [OF e] by (auto split: if_splits)
qed simp

lemma expire_each_live:
  assumes "0 < ttl"
  shows "expire_each R t ttl s hs = (live, dead, s1) \<Longrightarrow> live = filter (\<lambda>h. r_exists R s t (cap_key h)) hs"
proof (induction hs arbitrary: s live dead s1)
  case (Cons h hs)
  define s0 where "s0 = c_expire R s t (cap_key h) ttl"
  obtain live' dead' where e: "expire_each R t ttl s0 hs = (live', dead', s1)"
    and ld: "live = (if r_exists R s t (cap_key h) then h # live' else live')"
    using Cons.prems by (auto simp: s0_def split: prod.splits if_splits)
  have "r_exists R s0 t (cap_key x) = r_exists R s t (cap_key x)" for x
    using assms by (simp add: r_exists_def s0_def view_expire)
  with Cons.IH [OF e] ld show ?case by simp
qed simp

end

text \<open>
  Refreshing a server's handles extends the live ones to the new lifetime and no further, with their
  entries as they were, leaves every other handle alone, and brings nothing back: a handle that was
  gone stays refused by every plane. The answer is the number of live handles of the server, so zero
  tells the hub that they were revoked elsewhere.
\<close>

theorem refresh_never_revives:
  assumes "redis R" "refresh_server R s t u server ttl = (n, s')" "0 < ttl" "t \<le> t'"
    and handles: "handles = server_handles R s t u server"
  shows "(\<forall>h. \<not> r_exists R s t (cap_key h) \<longrightarrow> refused_everywhere (store_reader R s' t') h) \<and>
    (\<forall>h \<in> set handles. r_get R s' t' (cap_key h) = (if t' < t + ttl then r_get R s t (cap_key h) else None)) \<and>
    (\<forall>h. h \<notin> set handles \<longrightarrow> r_get R s' t' (cap_key h) = r_get R s t' (cap_key h)) \<and>
    n = int (length (filter (\<lambda>h. r_exists R s t (cap_key h)) handles))"
proof -
  obtain live dead s1 where e: "expire_each R t ttl s handles = (live, dead, s1)" by (metis prod_cases3)
  have n: "n = int (length live)" and v: "view R s' t' (cap_key h) = view R s1 t' (cap_key h)" for h
    using assms(2,4) e
    by (auto simp: refresh_server_def handles Let_def r_hdel_def redis.view_expire [OF assms(1)]
        redis.view_modify [OF assms(1)] split: if_splits)
  have live: "length live = length (filter (\<lambda>h. r_exists R s t (cap_key h)) handles)"
    using redis.expire_each_live [OF assms(1,3) e] by simp
  have v': "view R s' t' (cap_key h) = (if h \<in> set handles
      then (if t' < t + ttl then view R s t (cap_key h) else None) else view R s t' (cap_key h))" for h
    using redis.expire_each_view [OF assms(1,3,4) e, of "cap_key h"] v by (auto simp: image_iff)
  have gone: "view R s' t' (cap_key h) = None" if "\<not> r_exists R s t (cap_key h)" for h
    using v' [of h] that redis.view_gone [OF assms(1,4)] by (simp add: r_exists_def)
  have "refused_everywhere (store_reader R s' t') h" if "\<not> r_exists R s t (cap_key h)" for h
    using gone [OF that] by (rule view_absent_refused)
  then show ?thesis using n live by (simp add: r_get_def v')
qed

theorem refresh_never_revives_witness:
  "\<exists>s'. refresh_server ref_redis demo_mem 5 ''u'' ''srv'' 60 = (1, s') \<and>
     refused_everywhere (store_reader ref_redis s' 6) ''gone''"
proof -
  obtain n s' where r: "refresh_server ref_redis demo_mem 5 ''u'' ''srv'' 60 = (n, s')" by force
  have h: "[''h''] = server_handles ref_redis demo_mem 5 ''u'' ''srv''"
    by (simp add: server_handles_def ref_eval)
  have "r_exists ref_redis demo_mem 5 (cap_key ''h'')" "\<not> r_exists ref_redis demo_mem 5 (cap_key ''gone'')"
    by (simp_all add: ref_eval)
  with r refresh_never_revives [OF ref.redis_axioms r _ _ h, of 6] show ?thesis by simp
qed

text \<open>
  Stopping a server revokes exactly the handles minted for it: no plane accepts one of them from
  then on, every other handle is as before, and the user's index keeps exactly the handles of the
  other servers.
\<close>

theorem server_stop_revokes:
  assumes "redis R" "handles = server_handles R s t u server"
  shows "\<exists>s'. revoke_server R s t now u server reason = Inr (int (length handles), s') \<and>
    (\<forall>t' h. t \<le> t' \<longrightarrow> (if h \<in> set handles then refused_everywhere (store_reader R s' t') h
       else r_get R s' t' (cap_key h) = r_get R s t' (cap_key h))) \<and>
    r_hgetall R s' t (user_index u) = filter (\<lambda>(h, v). h \<notin> set handles) (r_hgetall R s t (user_index u))"
proof -
  have "PLANE_HUB \<in> set PLANES" by (simp add: PLANES_def PLANE_HUB_def)
  moreover have "\<forall>r. facts_ok (hub_entry_facts r)" using hub_entry_facts_ok by blast
  ultimately obtain s1 where s1:
      "revoke_each (revoke_with PLANE_HUB hub_entry_facts R t now reason (Some u)) s handles =
        Inr (live_entries R s t handles, s1)"
      "\<forall>t' k. t \<le> t' \<longrightarrow> view R s1 t' k = (if k \<in> cap_key ` set handles then None else view R s t' k)"
    using redis.revoke_each_gone [OF assms(1)] by blast
  define s' where "s' = (if handles \<noteq> [] then r_hdel R s1 t (user_index u) handles else s1)"
  have "revoke_server R s t now u server reason = Inr (int (length handles), s')"
    using s1(1) by (simp add: revoke_server_def revoke_recorded_def assms(2) Let_def s'_def)
  moreover have v: "view R s' t' (cap_key h) = (if h \<in> set handles then None else view R s t' (cap_key h))"
    if "t \<le> t'" for t' h
    using s1(2) that by (auto simp: s'_def r_hdel_def redis.view_modify [OF assms(1)] image_iff)
  have "if h \<in> set handles then refused_everywhere (store_reader R s' t') h
      else r_get R s' t' (cap_key h) = r_get R s t' (cap_key h)" if "t \<le> t'" for t' h
    using v [OF that, of h] view_absent_refused [of R s' t' h] by (auto simp: r_get_def)
  moreover have "r_hgetall R s' t (user_index u) =
      filter (\<lambda>(h, v). h \<notin> set handles) (r_hgetall R s t (user_index u))"
  proof -
    have idx: "view R s1 t (user_index u) = view R s t (user_index u)" using s1(2) by auto
    show ?thesis
    proof (cases "handles = []")
      case False
      have "view R s t (user_index u) \<noteq> None"
        using False assms(2) by (cases "view R s t (user_index u)") (auto simp: server_handles_def r_hgetall_def)
      then have "view R s' t (user_index u) =
          (let d = filter (\<lambda>(h, v). h \<notin> set handles) (r_hgetall R s t (user_index u))
           in if d = [] then None else Some (VHash d))"
        using False idx by (simp add: s'_def r_hdel_def r_exists_def redis.view_modify [OF assms(1)]
            r_hgetall_def Let_def)
      then show ?thesis by (simp add: r_hgetall_def [of R s'] Let_def)
    qed (use idx in \<open>simp add: s'_def r_hgetall_def\<close>)
  qed
  ultimately show ?thesis by blast
qed

theorem server_stop_revokes_witness:
  "\<exists>s'. revoke_server ref_redis demo_mem 5 noon ''u'' ''srv'' ''server_stopped'' = Inr (1, s') \<and>
     refused_everywhere (store_reader ref_redis s' 6) ''h''"
proof -
  have h: "[''h''] = server_handles ref_redis demo_mem 5 ''u'' ''srv''"
    by (simp add: server_handles_def ref_eval)
  obtain s' where "revoke_server ref_redis demo_mem 5 noon ''u'' ''srv'' ''server_stopped'' =
      Inr (int (length [''h'']), s')"
    and all: "\<forall>t' h. 5 \<le> t' \<longrightarrow> (if h \<in> set [''h''] then refused_everywhere (store_reader ref_redis s' t') h
       else r_get ref_redis s' t' (cap_key h) = r_get ref_redis demo_mem t' (cap_key h))"
    using server_stop_revokes [OF ref.redis_axioms h, of noon "''server_stopped''"] by blast
  then show ?thesis using all [rule_format, of 6 "''h''"] by simp
qed

end
