(* ===== verification/Refresh_Tokens.thy ===== *)
theory Refresh_Tokens
  imports Capabilities
begin

text \<open>
  \<open>services/api_gateway/messaging/refresh_tokens.py\<close>: the server-side refresh tokens, their
  rotation, and the ends of sessions. The random tokens and session ids are arguments, the hash of the
  password hash is the parameter \<open>sha256hex\<close>, \<open>t\<close> is the store's time and \<open>clock\<close> the
  gateway's (\<open>time.time()\<close>). Where the code waits for another request, what it reads at each poll is
  an argument: the stores seen.

  Shown: a token is claimed at most once whatever else happens in between; a rotation keeps user,
  credential and session; ending all sessions makes every refresh token unclaimable and every access
  token issued before refused; a reuse ends its session.
\<close>

section \<open>Keys and values\<close>

record auth_settings =
  refresh_expire_days :: rat
  access_expire_minutes :: rat

record RefreshClaim =
  rc_user_id :: string
  rc_credential :: string
  rc_session_id :: "string option"

definition ROTATION_GRACE_SECONDS :: rat where "ROTATION_GRACE_SECONDS = 10"

definition refresh_key :: "string \<Rightarrow> string" where
  "refresh_key token = ''refresh:'' @ token"

definition refresh_user_key :: "string \<Rightarrow> string" where
  "refresh_user_key user_id = ''refresh-user:'' @ user_id"

definition rotated_key :: "string \<Rightarrow> string" where
  "rotated_key token = ROTATED_REFRESH_PREFIX @ token"

definition credential_fingerprint :: "(string \<Rightarrow> string) \<Rightarrow> string \<Rightarrow> string" where
  "credential_fingerprint sha256hex hashed_password = sha256hex hashed_password"

definition refresh_ttl :: "auth_settings \<Rightarrow> rat" where
  "refresh_ttl cfg = refresh_expire_days cfg * 24 * 3600"

definition ended_ttl :: "auth_settings \<Rightarrow> rat" where
  "ended_ttl cfg = access_expire_minutes cfg * 60 + 60"

lemma refresh_keys_distinct [simp]:
  "refresh_key a \<noteq> refresh_user_key b" "refresh_user_key b \<noteq> refresh_key a"
  "refresh_key a \<noteq> rotated_key b" "rotated_key b \<noteq> refresh_key a"
  "refresh_key a \<noteq> ended_session_key b" "ended_session_key b \<noteq> refresh_key a"
  "refresh_key a \<noteq> user_ended_key b" "user_ended_key b \<noteq> refresh_key a"
  "refresh_user_key a \<noteq> rotated_key b" "rotated_key b \<noteq> refresh_user_key a"
  "refresh_user_key a \<noteq> ended_session_key b" "ended_session_key b \<noteq> refresh_user_key a"
  "refresh_user_key a \<noteq> user_ended_key b" "user_ended_key b \<noteq> refresh_user_key a"
  "rotated_key a \<noteq> ended_session_key b" "ended_session_key b \<noteq> rotated_key a"
  "rotated_key a \<noteq> user_ended_key b" "user_ended_key b \<noteq> rotated_key a"
  "ended_session_key a \<noteq> user_ended_key b" "user_ended_key b \<noteq> ended_session_key a"
  by (simp_all add: refresh_key_def refresh_user_key_def rotated_key_def ended_session_key_def
      user_ended_key_def ROTATED_REFRESH_PREFIX_def ENDED_SESSION_PREFIX_def USER_ENDED_PREFIX_def)

lemma refresh_cap_keys_distinct [simp]:
  "refresh_key a \<noteq> cap_key b" "refresh_user_key a \<noteq> cap_key b" "rotated_key a \<noteq> cap_key b"
  "ended_session_key a \<noteq> cap_key b" "user_ended_key a \<noteq> cap_key b"
  "refresh_key a \<noteq> user_index b" "refresh_user_key a \<noteq> user_index b"
  "ended_session_key a \<noteq> user_index b" "user_ended_key a \<noteq> user_index b"
  "refresh_key a \<noteq> upload_index b" "refresh_user_key a \<noteq> upload_index b"
  "ended_session_key a \<noteq> upload_index b" "user_ended_key a \<noteq> upload_index b"
  "cap_key b \<noteq> refresh_key a" "cap_key b \<noteq> refresh_user_key a" "cap_key b \<noteq> ended_session_key a"
  "cap_key b \<noteq> user_ended_key a"
  "user_index b \<noteq> refresh_key a" "user_index b \<noteq> refresh_user_key a" "user_index b \<noteq> ended_session_key a"
  "user_index b \<noteq> user_ended_key a"
  "upload_index b \<noteq> refresh_key a" "upload_index b \<noteq> refresh_user_key a"
  "upload_index b \<noteq> ended_session_key a" "upload_index b \<noteq> user_ended_key a"
  by (simp_all add: refresh_key_def refresh_user_key_def rotated_key_def ended_session_key_def
      user_ended_key_def ROTATED_REFRESH_PREFIX_def ENDED_SESSION_PREFIX_def USER_ENDED_PREFIX_def key_defs)

lemma refresh_keys_inject [simp]:
  "refresh_key a = refresh_key b \<longleftrightarrow> a = b" "ended_session_key a = ended_session_key b \<longleftrightarrow> a = b"
  "user_ended_key a = user_ended_key b \<longleftrightarrow> a = b" "rotated_key a = rotated_key b \<longleftrightarrow> a = b"
  by (simp_all add: refresh_key_def ended_session_key_def user_ended_key_def rotated_key_def)

section \<open>Operations\<close>

definition token_value :: "string \<Rightarrow> string \<Rightarrow> string \<Rightarrow> jobject" where
  "token_value uid cred sid = [(''uid'', JStr uid), (''cred'', JStr cred), (''sid'', JStr sid)]"

definition create_refresh_token ::
    "(string \<Rightarrow> string) \<Rightarrow> auth_settings \<Rightarrow> 's redis \<Rightarrow> 's \<Rightarrow> rat \<Rightarrow> string \<Rightarrow> string \<Rightarrow> string \<Rightarrow> string \<Rightarrow> string option \<Rightarrow>
      string \<times> 's" where
  "create_refresh_token sha256hex cfg R s t token new_session user_id hashed_password session_id =
     (let sid = (case session_id of None \<Rightarrow> new_session | Some x \<Rightarrow> if x = [] then new_session else x);
          s1 = c_set R s t (refresh_key token)
            (RObj (token_value user_id (credential_fingerprint sha256hex hashed_password) sid))
            (Some (refresh_ttl cfg));
          s2 = r_sadd R s1 t (refresh_user_key user_id) token
      in (token, c_expire R s2 t (refresh_user_key user_id) (refresh_ttl cfg)))"

definition sid_of :: "jobject \<Rightarrow> string option" where
  "sid_of d = (let sid = jget d ''sid'' in if truthy sid then Some (py_str sid) else None)"

definition read_claim :: "raw \<Rightarrow> RefreshClaim option" where
  "read_claim raw =
     (case raw_object raw of
        None \<Rightarrow> None
      | Some d \<Rightarrow>
          (case (map_of d ''uid'', map_of d ''cred'') of
             (Some uid, Some cred) \<Rightarrow>
               Some \<lparr>rc_user_id = py_str uid, rc_credential = py_str cred, rc_session_id = sid_of d\<rparr>
           | _ \<Rightarrow> None))"

definition opt_json :: "string option \<Rightarrow> json" where
  "opt_json v = (case v of None \<Rightarrow> JNull | Some x \<Rightarrow> JStr x)"

definition rotation_value :: "RefreshClaim \<Rightarrow> rat \<Rightarrow> jobject" where
  "rotation_value claim clock =
     [(''uid'', JStr (rc_user_id claim)), (''cred'', JStr (rc_credential claim)),
      (''sid'', opt_json (rc_session_id claim)), (''at'', JFloat (Fin clock)), (''successor'', JNull)]"

definition claim_refresh_token ::
    "auth_settings \<Rightarrow> 's redis \<Rightarrow> 's \<Rightarrow> rat \<Rightarrow> rat \<Rightarrow> string \<Rightarrow> RefreshClaim option \<times> 's" where
  "claim_refresh_token cfg R s t clock token =
     (case r_getdel R s t (refresh_key token) of
        (None, s1) \<Rightarrow> (None, s1)
      | (Some raw, s1) \<Rightarrow>
          (case read_claim raw of
             None \<Rightarrow> (None, s1)
           | Some claim \<Rightarrow>
               (Some claim,
                c_set R (r_srem R s1 t (refresh_user_key (rc_user_id claim)) [token]) t (rotated_key token)
                  (RObj (rotation_value claim clock)) (Some (refresh_ttl cfg)))))"

text \<open>\<open>record["successor"] = successor\<close>: an assignment to a key of the parsed object. A record that is
  not an object is an error that propagates.\<close>

definition record_successor :: "auth_settings \<Rightarrow> 's redis \<Rightarrow> 's \<Rightarrow> rat \<Rightarrow> string \<Rightarrow> string \<Rightarrow> 's result" where
  "record_successor cfg R s t token successor =
     (case r_get R s t (rotated_key token) of
        None \<Rightarrow> Inr s
      | Some raw \<Rightarrow>
          (case raw_object raw of
             None \<Rightarrow> Inl (case raw of RText _ \<Rightarrow> ValueError | _ \<Rightarrow> TypeError)
           | Some d \<Rightarrow>
               Inr (c_set R s t (rotated_key token) (RObj (od_set d ''successor'' (JStr successor)))
                 (Some (refresh_ttl cfg)))))"

definition token_owner :: "raw \<Rightarrow> string \<times> string option" where
  "token_owner raw =
     (case raw_object raw of
        None \<Rightarrow> (raw_text raw, None)
      | Some d \<Rightarrow>
          (case map_of d ''uid'' of None \<Rightarrow> (raw_text raw, None) | Some uid \<Rightarrow> (py_str uid, sid_of d)))"

definition record_session_ended :: "'s redis \<Rightarrow> 's \<Rightarrow> rat \<Rightarrow> string \<Rightarrow> rat \<Rightarrow> 's" where
  "record_session_ended R s t session_id ttl =
     c_set R s t (ended_session_key session_id) (RNum (Fin 1)) (Some ttl)"

definition revoke_refresh_token ::
    "auth_settings \<Rightarrow> 's redis \<Rightarrow> 's \<Rightarrow> rat \<Rightarrow> string \<Rightarrow> string option \<times> 's" where
  "revoke_refresh_token cfg R s t token =
     (case r_getdel R s t (refresh_key token) of
        (None, s1) \<Rightarrow> (None, s1)
      | (Some raw, s1) \<Rightarrow>
          (case token_owner raw of
             (user_id, session_id) \<Rightarrow>
               (let s2 = (case session_id of
                      None \<Rightarrow> s1
                    | Some sid \<Rightarrow> if sid = [] then s1 else record_session_ended R s1 t sid (ended_ttl cfg))
                in (Some user_id, r_srem R s2 t (refresh_user_key user_id) [token]))))"

definition session_was_ended :: "reader \<Rightarrow> string option \<Rightarrow> bool result" where
  "session_was_ended aget session_id =
     (case session_id of
        None \<Rightarrow> Inr False
      | Some sid \<Rightarrow> if sid = [] then Inr False else res_map (\<lambda>r. r \<noteq> None) (aget (ended_session_key sid)))"

definition end_session :: "auth_settings \<Rightarrow> 's redis \<Rightarrow> 's \<Rightarrow> rat \<Rightarrow> string \<Rightarrow> 's" where
  "end_session cfg R s t session_id = record_session_ended R s t session_id (ended_ttl cfg)"

text \<open>The loop of \<open>revoke_all_refresh_tokens\<close>.\<close>

fun revoke_tokens :: "auth_settings \<Rightarrow> 's redis \<Rightarrow> rat \<Rightarrow> 's \<Rightarrow> string list \<Rightarrow> int \<times> 's" where
  "revoke_tokens cfg R t s [] = (0, s)"
| "revoke_tokens cfg R t s (token # tokens) =
     (case r_getdel R s t (refresh_key token) of
        (None, s1) \<Rightarrow> revoke_tokens cfg R t s1 tokens
      | (Some raw, s1) \<Rightarrow>
          (let s2 = (case snd (token_owner raw) of
               None \<Rightarrow> s1
             | Some sid \<Rightarrow> if sid = [] then s1 else record_session_ended R s1 t sid (ended_ttl cfg))
           in case revoke_tokens cfg R t s2 tokens of (live, s3) \<Rightarrow> (live + 1, s3)))"

definition revoke_all_refresh_tokens :: "auth_settings \<Rightarrow> 's redis \<Rightarrow> 's \<Rightarrow> rat \<Rightarrow> string \<Rightarrow> int \<times> 's" where
  "revoke_all_refresh_tokens cfg R s t user_id =
     (let index = refresh_user_key user_id; tokens = r_smembers R s t index
      in if tokens = [] then (0, s)
         else (case revoke_tokens cfg R t s tokens of (live, s1) \<Rightarrow> (live, r_srem R s1 t index tokens)))"

definition end_all_sessions ::
    "auth_settings \<Rightarrow> 's redis \<Rightarrow> 's \<Rightarrow> rat \<Rightarrow> rat \<Rightarrow> datetime \<Rightarrow> string \<Rightarrow> 's result" where
  "end_all_sessions cfg R s t clock now user_id =
     (let s1 = c_set R s t (user_ended_key user_id) (RNum (Fin clock)) (Some (ended_ttl cfg));
          s2 = snd (revoke_all_refresh_tokens cfg R s1 t user_id)
      in res_map snd (revoke_user_capabilities R s2 t now user_id))"

section \<open>Replay\<close>

datatype Replay =
    Unknown
  | Reused RefreshClaim bool
  | Successor RefreshClaim string

definition rotation :: "'s redis \<Rightarrow> 's \<times> rat \<Rightarrow> string \<Rightarrow> jobject option" where
  "rotation R seen token =
     (case r_get R (fst seen) (snd seen) (rotated_key token) of None \<Rightarrow> None | Some raw \<Rightarrow> raw_object raw)"

text \<open>The first poll at which the rotation is recorded; the stores seen are those before the deadline.\<close>

fun await_rotation :: "'s redis \<Rightarrow> string \<Rightarrow> ('s \<times> rat) list \<Rightarrow> jobject option" where
  "await_rotation R token [] = None"
| "await_rotation R token (seen # later) =
     (case rotation R seen token of None \<Rightarrow> await_rotation R token later | Some d \<Rightarrow> Some d)"

text \<open>Polling for the successor: \<open>record = await _rotation(token) or record\<close>.\<close>

fun await_successor :: "'s redis \<Rightarrow> string \<Rightarrow> jobject \<Rightarrow> ('s \<times> rat) list \<Rightarrow> jobject" where
  "await_successor R token d [] = d"
| "await_successor R token d (seen # later) =
     (if truthy (jget d ''successor'') then d
      else await_successor R token
        (case rotation R seen token of None \<Rightarrow> d | Some e \<Rightarrow> if e = [] then d else e) later)"

text \<open>\<open>float(record.get("at", 0))\<close>.\<close>

definition rotation_at :: "jobject \<Rightarrow> rat result" where
  "rotation_at d =
     (case jget_default d ''at'' (JInt 0) of
        JFloat (Fin q) \<Rightarrow> Inr q | JInt i \<Rightarrow> Inr (of_int i) | JBool b \<Rightarrow> Inr (if b then 1 else 0) | _ \<Rightarrow> Inl TypeError)"

definition rotation_claim :: "jobject \<Rightarrow> RefreshClaim result" where
  "rotation_claim d =
     (case map_of d ''uid'' of
        None \<Rightarrow> Inl KeyError
      | Some uid \<Rightarrow> Inr \<lparr>rc_user_id = py_str uid, rc_credential = py_str (jget_default d ''cred'' (JStr [])),
          rc_session_id = (case jget d ''sid'' of JNull \<Rightarrow> None | v \<Rightarrow> Some (py_str v))\<rparr>)"

fun end_session_tokens :: "'s redis \<Rightarrow> rat \<Rightarrow> string \<Rightarrow> string \<Rightarrow> 's \<Rightarrow> string list \<Rightarrow> 's" where
  "end_session_tokens R t index sid s [] = s"
| "end_session_tokens R t index sid s (token # tokens) =
     end_session_tokens R t index sid
       (case r_get R s t (refresh_key token) of
          None \<Rightarrow> s
        | Some raw \<Rightarrow>
            if snd (token_owner raw) = Some sid
            then r_srem R (c_del R s t (refresh_key token)) t index [token] else s) tokens"

definition end_reused_session :: "auth_settings \<Rightarrow> 's redis \<Rightarrow> 's \<Rightarrow> rat \<Rightarrow> RefreshClaim \<Rightarrow> 's" where
  "end_reused_session cfg R s t claim =
     (case rc_session_id claim of
        None \<Rightarrow> s
      | Some sid \<Rightarrow>
          if sid = [] then s
          else (let s1 = record_session_ended R s t sid (refresh_ttl cfg);
                    index = refresh_user_key (rc_user_id claim)
                in end_session_tokens R t index sid s1 (r_smembers R s1 t index)))"

text \<open>
  \<open>replay\<close> against the store \<open>s\<close> reached after the waits: \<open>seen1\<close> are the stores read while waiting
  for the rotation's record, the first read included, and \<open>seen2\<close> those read while waiting for its
  successor.
\<close>

definition replay ::
    "auth_settings \<Rightarrow> 's redis \<Rightarrow> ('s \<times> rat) list \<Rightarrow> ('s \<times> rat) list \<Rightarrow> 's \<Rightarrow> rat \<Rightarrow> rat \<Rightarrow> string \<Rightarrow>
      (Replay \<times> 's) result" where
  "replay cfg R seen1 seen2 s t clock token =
     (case await_rotation R token seen1 of
        None \<Rightarrow> Inr (Unknown, s)
      | Some d \<Rightarrow>
          (case (rotation_claim d, rotation_at d) of
             (Inl e, _) \<Rightarrow> Inl e
           | (Inr _, Inl e) \<Rightarrow> Inl e
           | (Inr claim, Inr rotated_at) \<Rightarrow>
               if clock - rotated_at > ROTATION_GRACE_SECONDS
               then (if truthy (jget d ''ended'') then Inr (Reused claim False, s)
                     else (let s1 = c_set R s t (rotated_key token) (RObj (od_set d ''ended'' (JBool True)))
                             (Some (refresh_ttl cfg))
                           in Inr (Reused claim True, end_reused_session cfg R s1 t claim)))
               else (let successor = jget (await_successor R token d seen2) ''successor''
                     in if truthy successor \<and> r_get R s t (refresh_key (py_str successor)) \<noteq> None
                        then Inr (Successor claim (py_str successor), s) else Inr (Unknown, s))))"

section \<open>Waiting out an end\<close>

text \<open>
  \<open>wait_out_an_end\<close>: the time the next token may be issued at. \<open>wake\<close> is when the last sleep ended,
  which the loop condition makes no earlier than \<open>ready\<close>.
\<close>

definition ready_time :: "rat \<Rightarrow> rat" where
  "ready_time ended = of_int (\<lfloor>ended + CLOCK_SKEW_SECONDS\<rfloor> + 1)"

definition wait_out_an_end :: "reader \<Rightarrow> rat \<Rightarrow> (rat \<Rightarrow> rat) \<Rightarrow> string \<Rightarrow> rat result" where
  "wait_out_an_end aget started wake user_id =
     (case aget (user_ended_key user_id) of
        Inl _ \<Rightarrow> Inr 0
      | Inr None \<Rightarrow> Inr 0
      | Inr (Some raw) \<Rightarrow>
          (case raw_float raw of
             None \<Rightarrow> Inr 0
           | Some (Fin ended) \<Rightarrow>
               (let ready = ready_time ended
                in if 0 < ready - started \<and> ready - started \<le> CLOCK_SKEW_SECONDS + 1
                   then Inr (wake ready - started) else Inr 0)
           | Some NaN \<Rightarrow> Inl ValueError
           | Some _ \<Rightarrow> Inl OverflowError))"

section \<open>A token is claimed once\<close>

lemma token_value_read [simp]:
  "read_claim (RObj (token_value uid cred sid)) =
     Some \<lparr>rc_user_id = uid, rc_credential = cred, rc_session_id = (if sid = [] then None else Some sid)\<rparr>"
  by (simp add: read_claim_def token_value_def sid_of_def jget_def Let_def)

text \<open>The operations other requests may run meanwhile, each at its own time.\<close>

datatype refresh_op =
    OpCreate string string string string "string option"
  | OpClaim string
  | OpSuccessor string string
  | OpRevoke string
  | OpRevokeAll string
  | OpEndSession string
  | OpReplay string

text \<open>The store after one operation, and the claim it yields, if it is one.\<close>

fun refresh_step ::
    "(string \<Rightarrow> string) \<Rightarrow> auth_settings \<Rightarrow> 's redis \<Rightarrow> 's \<Rightarrow> rat \<times> refresh_op \<Rightarrow> (string \<times> RefreshClaim) option \<times> 's" where
  "refresh_step h cfg R s (t, OpCreate token fresh uid pw sid) =
     (None, snd (create_refresh_token h cfg R s t token fresh uid pw sid))"
| "refresh_step h cfg R s (t, OpClaim token) =
     (case claim_refresh_token cfg R s t t token of (c, s1) \<Rightarrow> (map_option (Pair token) c, s1))"
| "refresh_step h cfg R s (t, OpSuccessor token successor) =
     (None, case record_successor cfg R s t token successor of Inl _ \<Rightarrow> s | Inr s1 \<Rightarrow> s1)"
| "refresh_step h cfg R s (t, OpRevoke token) = (None, snd (revoke_refresh_token cfg R s t token))"
| "refresh_step h cfg R s (t, OpRevokeAll uid) = (None, snd (revoke_all_refresh_tokens cfg R s t uid))"
| "refresh_step h cfg R s (t, OpEndSession sid) = (None, end_session cfg R s t sid)"
| "refresh_step h cfg R s (t, OpReplay token) =
     (None, case replay cfg R [(s, t)] [] s t t token of Inl _ \<Rightarrow> s | Inr (_, s1) \<Rightarrow> s1)"

fun refresh_run ::
    "(string \<Rightarrow> string) \<Rightarrow> auth_settings \<Rightarrow> 's redis \<Rightarrow> 's \<Rightarrow> (rat \<times> refresh_op) list \<Rightarrow> (string \<times> RefreshClaim) list \<times> 's" where
  "refresh_run h cfg R s [] = ([], s)"
| "refresh_run h cfg R s (op # ops) =
     (case refresh_step h cfg R s op of
        (c, s1) \<Rightarrow> (case refresh_run h cfg R s1 ops of (cs, s2) \<Rightarrow>
          ((case c of None \<Rightarrow> cs | Some x \<Rightarrow> x # cs), s2)))"

fun creates :: "string \<Rightarrow> rat \<times> refresh_op \<Rightarrow> bool" where
  "creates token (t, OpCreate x _ _ _ _) = (x = token)"
| "creates token _ = False"

context redis
begin

lemma srem_view: "t \<le> t' \<Longrightarrow> k' \<noteq> k \<Longrightarrow> view R (r_srem R s t k ms) t' k' = view R s t' k'"
  by (simp add: r_srem_def view_modify)

lemma srem_gone: "view R s t k' = None \<Longrightarrow> view R (r_srem R s t k ms) t k' = None"
  by (simp add: r_srem_def view_modify r_exists_def) (metis not_None_eq)

lemma set_gone: "k \<noteq> refresh_key x \<Longrightarrow> view R s t (refresh_key x) = None \<Longrightarrow>
    view R (c_set R s t k v ttl) t (refresh_key x) = None"
  by (simp add: view_set)

lemma del_gone: "view R s t k = None \<Longrightarrow> view R (c_del R s t k') t k = None"
  by (simp add: view_del)

lemma end_session_tokens_gone:
  "view R s t k = None \<Longrightarrow> view R (end_session_tokens R t index sid s tokens) t k = None"
proof (induction tokens arbitrary: s)
  case (Cons x tokens)
  then show ?case by (auto intro!: Cons.IH srem_gone del_gone split: option.split)
qed simp

lemma revoke_tokens_gone:
  "view R s t (refresh_key x) = None \<Longrightarrow> view R (snd (revoke_tokens cfg R t s tokens)) t (refresh_key x) = None"
proof (induction tokens arbitrary: s)
  case (Cons y tokens)
  have "view R (snd (revoke_tokens cfg R t (c_del R s t (refresh_key y)) tokens)) t (refresh_key x) = None"
    "view R (snd (revoke_tokens cfg R t (record_session_ended R (c_del R s t (refresh_key y)) t sid ttl) tokens)) t
       (refresh_key x) = None" for sid ttl
    using Cons.prems by (auto intro!: Cons.IH set_gone del_gone simp: record_session_ended_def)
  then show ?case by (simp add: r_getdel_def Let_def case_prod_beta split: option.split)
qed simp

lemma step_keeps_gone:
  assumes "view R s t (refresh_key x) = None" "\<not> creates x (t, op)"
  shows "view R (snd (refresh_step h cfg R s (t, op))) t (refresh_key x) = None"
    and "fst (refresh_step h cfg R s (t, op)) = Some (y, c) \<Longrightarrow> y \<noteq> x"
proof -
  have "view R (snd (refresh_step h cfg R s (t, op))) t (refresh_key x) = None \<and>
      (fst (refresh_step h cfg R s (t, op)) = Some (y, c) \<longrightarrow> y \<noteq> x)"
  proof (cases op)
    case (OpCreate token fresh uid pw sid)
    then show ?thesis using assms
      by (simp add: create_refresh_token_def Let_def view_expire r_sadd_def view_modify view_set)
  next
    case (OpClaim token)
    then show ?thesis using assms(1)
      by (auto simp: claim_refresh_token_def r_getdel_def r_get_def intro!: set_gone srem_gone del_gone
          split: option.split)
  next
    case (OpSuccessor token successor)
    then show ?thesis using assms(1)
      by (auto simp: record_successor_def intro!: set_gone split: option.split)
  next
    case (OpRevoke token)
    then show ?thesis using assms(1)
      by (auto simp: revoke_refresh_token_def r_getdel_def Let_def record_session_ended_def
          intro!: set_gone srem_gone del_gone split: option.split prod.split)
  next
    case (OpRevokeAll uid)
    then show ?thesis using assms(1) revoke_tokens_gone [OF assms(1), of cfg]
      by (auto simp: revoke_all_refresh_tokens_def Let_def intro!: srem_gone split: prod.split)
        (metis snd_conv)
  next
    case (OpEndSession sid)
    then show ?thesis using assms(1) by (simp add: end_session_def record_session_ended_def set_gone)
  next
    case (OpReplay token)
    then show ?thesis using assms(1)
      by (auto simp: replay_def end_reused_session_def record_session_ended_def Let_def
          intro!: set_gone end_session_tokens_gone split: option.split sum.split)
  qed
  then show "view R (snd (refresh_step h cfg R s (t, op))) t (refresh_key x) = None"
    and "fst (refresh_step h cfg R s (t, op)) = Some (y, c) \<Longrightarrow> y \<noteq> x" by blast+
qed

lemma run_gone:
  assumes "view R s t (refresh_key x) = None" "sorted (map fst ops)"
    "\<And>op. op \<in> set ops \<Longrightarrow> t \<le> fst op \<and> \<not> creates x op"
  shows "x \<notin> fst ` set (fst (refresh_run h cfg R s ops))"
  using assms
proof (induction ops arbitrary: s t)
  case (Cons op ops)
  obtain u o' where op: "op = (u, o')" by force
  have u: "t \<le> u" "\<not> creates x (u, o')" using Cons.prems(3) [of op] op by simp_all
  have g: "view R s u (refresh_key x) = None" using view_gone [OF u(1) Cons.prems(1)] .
  define s1 where "s1 = snd (refresh_step h cfg R s op)"
  have "view R s1 u (refresh_key x) = None" using step_keeps_gone(1) [OF g u(2)] by (simp add: s1_def op)
  then have "x \<notin> fst ` set (fst (refresh_run h cfg R s1 ops))"
    using Cons.prems(2,3) op by (intro Cons.IH [of _ u]) auto
  moreover have "y \<noteq> x" if "fst (refresh_step h cfg R s op) = Some (y, c)" for y c
    using step_keeps_gone(2) [OF g u(2)] that op by blast
  ultimately show ?case by (auto simp: s1_def split: prod.splits option.splits)
qed simp

lemma claim_step_gone:
  assumes "fst (refresh_step h cfg R s (t, op)) = Some (x, c)"
  shows "view R (snd (refresh_step h cfg R s (t, op))) t (refresh_key x) = None"
  using assms
  by (cases op) (auto simp: claim_refresh_token_def r_getdel_def view_del intro!: set_gone srem_gone
      split: option.splits prod.splits)

lemma run_claims_once:
  assumes "sorted (map fst ops)" "\<And>op. op \<in> set ops \<Longrightarrow> \<not> creates x op"
  shows "length (filter (\<lambda>(y, c). y = x) (fst (refresh_run h cfg R s ops))) \<le> 1"
  using assms
proof (induction ops arbitrary: s)
  case (Cons op ops)
  obtain t o' where op: "op = (t, o')" by force
  define s1 where "s1 = snd (refresh_step h cfg R s op)"
  have IH: "length (filter (\<lambda>(y, c). y = x) (fst (refresh_run h cfg R s1 ops))) \<le> 1"
    using Cons.prems by (intro Cons.IH) auto
  show ?case
  proof (cases "\<exists>c. fst (refresh_step h cfg R s op) = Some (x, c)")
    case True
    then have "view R s1 t (refresh_key x) = None" using claim_step_gone op by (auto simp: s1_def)
    then have "x \<notin> fst ` set (fst (refresh_run h cfg R s1 ops))"
      using Cons.prems op by (intro run_gone [of _ t]) auto
    then have "filter (\<lambda>(y, c). y = x) (fst (refresh_run h cfg R s1 ops)) = []"
      by (force simp: filter_empty_conv)
    with True show ?thesis by (auto simp: s1_def split: prod.splits)
  next
    case False
    with IH show ?thesis by (auto simp: s1_def split: prod.splits option.splits)
  qed
qed simp

lemma create_view:
  assumes "create_refresh_token h cfg R s t token fresh uid pw sid = (token', s')" "t \<le> t'"
  shows "token' = token"
    and "view R s' t' (refresh_key token) = (if t' < t + refresh_ttl cfg then
      Some (VText (RObj (token_value uid (credential_fingerprint h pw)
        (case sid of None \<Rightarrow> fresh | Some x \<Rightarrow> if x = [] then fresh else x)))) else None)"
    and "t' < t + refresh_ttl cfg \<Longrightarrow> token \<in> set (r_smembers R s' t' (refresh_user_key uid))"
proof -
  define v where "v = RObj (token_value uid (credential_fingerprint h pw)
    (case sid of None \<Rightarrow> fresh | Some x \<Rightarrow> if x = [] then fresh else x))"
  define s1 where "s1 = c_set R s t (refresh_key token) v (Some (refresh_ttl cfg))"
  have s': "s' = c_expire R (r_sadd R s1 t (refresh_user_key uid) token) t (refresh_user_key uid) (refresh_ttl cfg)"
    using assms(1) by (auto simp: create_refresh_token_def Let_def s1_def v_def)
  show "token' = token" using assms(1) by (simp add: create_refresh_token_def Let_def)
  show "view R s' t' (refresh_key token) = (if t' < t + refresh_ttl cfg then
      Some (VText (RObj (token_value uid (credential_fingerprint h pw)
        (case sid of None \<Rightarrow> fresh | Some x \<Rightarrow> if x = [] then fresh else x)))) else None)"
    using assms(2) by (simp add: s' s1_def r_sadd_def view_expire view_modify view_set lives_def v_def)
  have "List.insert token m \<noteq> []" for m by (metis List.set_insert empty_set insert_not_empty)
  then show "token \<in> set (r_smembers R s' t' (refresh_user_key uid))" if "t' < t + refresh_ttl cfg"
    using assms(2) that by (auto simp: s' r_sadd_def r_smembers_def view_expire view_modify)
qed

end

text \<open>
  C7. A refresh token is single use. Whatever creations, claims, rotations, revocations, ends of
  sessions and replays run against the store, in whatever order, at most one of them obtains the
  claim of a token that is not issued again.
\<close>

theorem refresh_token_single_use:
  assumes "redis R" "sorted (map fst ops)" "\<forall>op \<in> set ops. \<not> creates token op"
    and "refresh_run sha256hex cfg R s ops = (claims, s')"
  shows "length (filter (\<lambda>(y, c). y = token) claims) \<le> 1"
  using redis.run_claims_once [OF assms(1,2), of token sha256hex cfg s] assms(3,4) by simp

theorem refresh_token_single_use_witness:
  "length (filter (\<lambda>(y, c). y = ''tok'') (fst (refresh_run (\<lambda>p. p) \<lparr>refresh_expire_days = 7, access_expire_minutes = 15\<rparr>
     ref_redis (snd (create_refresh_token (\<lambda>p. p) \<lparr>refresh_expire_days = 7, access_expire_minutes = 15\<rparr> ref_redis
       mem_empty 0 ''tok'' ''sid'' ''u'' ''pw'' None))
     [(1, OpClaim ''tok''), (2, OpRevokeAll ''u''), (3, OpClaim ''tok'')]))) \<le> 1"
  by (rule refresh_token_single_use [OF ref.redis_axioms _ _ surjective_pairing]) simp_all

text \<open>
  A rotation carries the session on: until its lifetime is over, the token issued for a user in a
  session is claimed exactly once, yielding that user, the fingerprint of the password it was issued
  under and that session.
\<close>

theorem refresh_token_round_trip:
  assumes "redis R" "create_refresh_token sha256hex cfg R s t token fresh uid pw (Some sid) = (token', s1)"
    and "sid \<noteq> []" "t \<le> t'" "t' < t + refresh_ttl cfg"
    and "claim_refresh_token cfg R s1 t' clock token' = (claim, s2)" "t' \<le> t''"
  shows "claim = Some \<lparr>rc_user_id = uid, rc_credential = credential_fingerprint sha256hex pw,
      rc_session_id = Some sid\<rparr> \<and>
    fst (claim_refresh_token cfg R s2 t'' clock' token') = None"
proof -
  note cv = redis.create_view [OF assms(1,2,4)]
  have g: "r_get R s1 t' (refresh_key token) =
      Some (RObj (token_value uid (credential_fingerprint sha256hex pw) sid))"
    using cv(2) assms(3,5) by (simp add: r_get_def)
  let ?c = "\<lparr>rc_user_id = uid, rc_credential = credential_fingerprint sha256hex pw, rc_session_id = Some sid\<rparr>"
  have s2: "claim = Some ?c" "s2 = c_set R (r_srem R (c_del R s1 t' (refresh_key token)) t'
      (refresh_user_key uid) [token]) t' (rotated_key token) (RObj (rotation_value ?c clock)) (Some (refresh_ttl cfg))"
    using assms(3,6) g cv(1) by (auto simp: claim_refresh_token_def r_getdel_def)
  have "view R s2 t' (refresh_key token) = None"
    unfolding s2 by (rule redis.set_gone [OF assms(1)], simp, rule redis.srem_gone [OF assms(1)])
      (simp add: redis.view_del [OF assms(1)])
  then have "r_get R s2 t'' (refresh_key token) = None" by (rule redis.get_gone [OF assms(1,7)])
  then show ?thesis using s2(1) cv(1) by (simp add: claim_refresh_token_def r_getdel_def)
qed

theorem refresh_token_round_trip_witness:
  "fst (claim_refresh_token \<lparr>refresh_expire_days = 7, access_expire_minutes = 15\<rparr> ref_redis
     (snd (create_refresh_token (\<lambda>p. p) \<lparr>refresh_expire_days = 7, access_expire_minutes = 15\<rparr> ref_redis
       mem_empty 0 ''tok'' ''x'' ''u'' ''pw'' (Some ''sid''))) 5 5 ''tok'') =
   Some \<lparr>rc_user_id = ''u'', rc_credential = ''pw'', rc_session_id = Some ''sid''\<rparr>"
proof -
  let ?cfg = "\<lparr>refresh_expire_days = 7, access_expire_minutes = 15\<rparr>"
  obtain s1 where c: "create_refresh_token (\<lambda>p. p) ?cfg ref_redis mem_empty 0 ''tok'' ''x'' ''u'' ''pw'' (Some ''sid'') =
      (''tok'', s1)"
    by (simp add: create_refresh_token_def Let_def)
  have "''sid'' \<noteq> []" "(0::rat) \<le> 5" "5 < 0 + refresh_ttl ?cfg" by (simp_all add: refresh_ttl_def)
  from refresh_token_round_trip [OF ref.redis_axioms c this surjective_pairing order_refl, of 5]
  show ?thesis using c by (simp add: credential_fingerprint_def)
qed

section \<open>Ending every session of a user\<close>

context redis
begin

lemma revoke_tokens_removes:
  "x \<in> set tokens \<Longrightarrow> view R (snd (revoke_tokens cfg R t s tokens)) t (refresh_key x) = None"
proof (induction tokens arbitrary: s)
  case (Cons y tokens)
  let ?s1 = "c_del R s t (refresh_key y)"
  have d: "view R ?s1 t (refresh_key y) = None"
    "view R (record_session_ended R ?s1 t sid ttl) t (refresh_key y) = None" for sid ttl
    by (simp_all add: view_del record_session_ended_def view_set)
  show ?case
  proof (cases "x \<in> set tokens")
    case True
    from Cons.IH [OF True] show ?thesis by (simp add: r_getdel_def Let_def case_prod_beta split: option.split)
  next
    case False
    with Cons.prems have "x = y" by simp
    with revoke_tokens_gone [OF d(1)] revoke_tokens_gone [OF d(2)] show ?thesis
      by (simp add: r_getdel_def Let_def case_prod_beta split: option.split)
  qed
qed simp

lemma revoke_tokens_other:
  assumes "t \<le> t'" "\<And>x. k \<noteq> refresh_key x" "\<And>x. k \<noteq> ended_session_key x"
  shows "view R (snd (revoke_tokens cfg R t s tokens)) t' k = view R s t' k"
proof (induction tokens arbitrary: s)
  case (Cons y tokens)
  have "view R (c_del R s t (refresh_key y)) t' k = view R s t' k" for s
    using assms by (simp add: view_del)
  moreover have "view R (record_session_ended R s t sid ttl) t' k = view R s t' k" for s sid ttl
    using assms by (simp add: record_session_ended_def view_set)
  ultimately show ?case
    using Cons.IH by (simp add: r_getdel_def Let_def case_prod_beta split: option.split)
qed simp

lemma revoke_all_view:
  assumes "t \<le> t'"
  shows "x \<in> set (r_smembers R s t (refresh_user_key u)) \<Longrightarrow>
      view R (snd (revoke_all_refresh_tokens cfg R s t u)) t' (refresh_key x) = None"
    and "(\<And>x. k \<noteq> refresh_key x) \<Longrightarrow> (\<And>x. k \<noteq> ended_session_key x) \<Longrightarrow> k \<noteq> refresh_user_key u \<Longrightarrow>
      view R (snd (revoke_all_refresh_tokens cfg R s t u)) t' k = view R s t' k"
proof -
  let ?ts = "r_smembers R s t (refresh_user_key u)"
  have eq: "snd (revoke_all_refresh_tokens cfg R s t u) =
      (if ?ts = [] then s else r_srem R (snd (revoke_tokens cfg R t s ?ts)) t (refresh_user_key u) ?ts)"
    by (simp add: revoke_all_refresh_tokens_def Let_def case_prod_beta)
  show "view R (snd (revoke_all_refresh_tokens cfg R s t u)) t' (refresh_key x) = None" if "x \<in> set ?ts"
  proof (rule view_gone [OF assms])
    have "view R (snd (revoke_tokens cfg R t s ?ts)) t (refresh_key x) = None"
      by (rule revoke_tokens_removes [OF that])
    then show "view R (snd (revoke_all_refresh_tokens cfg R s t u)) t (refresh_key x) = None"
      using that by (auto simp: eq intro: srem_gone)
  qed
  show "view R (snd (revoke_all_refresh_tokens cfg R s t u)) t' k = view R s t' k"
    if "\<And>x. k \<noteq> refresh_key x" "\<And>x. k \<noteq> ended_session_key x" "k \<noteq> refresh_user_key u"
    using revoke_tokens_other [OF assms that(1,2)] srem_view [OF assms that(3)] by (simp add: eq)
qed

end

text \<open>
  What ending all of a user's sessions leaves in the store: no refresh token indexed for the user, no
  capability indexed for the user, and the time of the end for as long as the record lives.
\<close>

lemma end_all_sessions_state:
  assumes "redis R"
    and tokens: "tokens = r_smembers R s t (refresh_user_key u)"
    and handles: "handles = map fst (r_hgetall R s t (user_index u)) @ r_smembers R s t (upload_index u)"
  shows "\<exists>s'. end_all_sessions cfg R s t clock now u = Inr s' \<and>
    (\<forall>t' \<ge> t. (\<forall>token \<in> set tokens. view R s' t' (refresh_key token) = None) \<and>
       (t' < t + ended_ttl cfg \<longrightarrow> r_get R s' t' (user_ended_key u) = Some (RNum (Fin clock))) \<and>
       (\<forall>h \<in> set handles. view R s' t' (cap_key h) = None))"
proof -
  define s1 where "s1 = c_set R s t (user_ended_key u) (RNum (Fin clock)) (Some (ended_ttl cfg))"
  define s2 where "s2 = snd (revoke_all_refresh_tokens cfg R s1 t u)"
  have v1: "view R s1 t k = view R s t k" if "k \<noteq> user_ended_key u" for k
    using that by (simp add: s1_def redis.view_set [OF assms(1)])
  have ix: "view R s2 t (user_index u) = view R s t (user_index u)"
    "view R s2 t (upload_index u) = view R s t (upload_index u)"
    unfolding s2_def by (subst redis.revoke_all_view(2) [OF assms(1)]; simp add: v1)+
  have h2: "handles = map fst (r_hgetall R s2 t (user_index u)) @ r_smembers R s2 t (upload_index u)"
    using handles ix by (simp add: r_hgetall_def r_smembers_def)
  obtain n s' where s': "revoke_user_capabilities R s2 t now u = Inr (n, s')"
      "\<forall>t' k. t \<le> t' \<longrightarrow> view R s' t' k = (if k = user_index u \<or> k = upload_index u \<or> k \<in> cap_key ` set handles
        then None else view R s2 t' k)"
    using redis.revoke_user_capabilities_state [OF assms(1) h2, of now] by blast
  have keep: "view R s' t' k = view R s2 t' k"
    if "t \<le> t'" "\<And>h. k \<noteq> cap_key h" "k \<noteq> user_index u" "k \<noteq> upload_index u" for t' k
    using s'(2) that by auto
  have "view R s' t' (refresh_key token) = None" if "t \<le> t'" "token \<in> set tokens" for t' token
  proof -
    have "token \<in> set (r_smembers R s1 t (refresh_user_key u))"
      using that tokens v1 by (simp add: r_smembers_def)
    then have "view R s2 t' (refresh_key token) = None"
      unfolding s2_def by (rule redis.revoke_all_view(1) [OF assms(1) that(1)])
    then show ?thesis using that(1) by (subst keep) simp_all
  qed
  moreover have "r_get R s' t' (user_ended_key u) = Some (RNum (Fin clock))"
    if "t \<le> t'" "t' < t + ended_ttl cfg" for t'
  proof -
    have "view R s' t' (user_ended_key u) = view R s1 t' (user_ended_key u)"
      using that(1) by (subst keep, simp_all add: s2_def) (subst redis.revoke_all_view(2) [OF assms(1)], simp_all)
    then show ?thesis
      using that by (simp add: r_get_def s1_def redis.view_set [OF assms(1)] lives_def)
  qed
  moreover have "end_all_sessions cfg R s t clock now u = Inr s'"
    using s'(1) by (simp add: end_all_sessions_def Let_def s1_def s2_def)
  ultimately show ?thesis using s'(2) by (intro exI [of _ s']) auto
qed

section \<open>Reuse and clock skew\<close>

context redis
begin

lemma end_session_tokens_other:
  assumes "t \<le> t'" "\<And>x. k \<noteq> refresh_key x" "k \<noteq> index"
  shows "view R (end_session_tokens R t index sid s tokens) t' k = view R s t' k"
proof (induction tokens arbitrary: s)
  case (Cons y tokens)
  have "view R (r_srem R (c_del R s t (refresh_key y)) t index [y]) t' k = view R s t' k" for s
    using assms by (simp add: srem_view view_del)
  with Cons.IH show ?case by (simp split: option.split)
qed simp

lemma end_session_tokens_removes:
  assumes "x \<in> set tokens" "r_get R s t (refresh_key x) = Some raw" "snd (token_owner raw) = Some sid"
    and "\<And>y. index \<noteq> refresh_key y"
  shows "view R (end_session_tokens R t index sid s tokens) t (refresh_key x) = None"
  using assms(1,2)
proof (induction tokens arbitrary: s)
  case (Cons y tokens)
  let ?s1 = "case r_get R s t (refresh_key y) of None \<Rightarrow> s
    | Some raw \<Rightarrow> if snd (token_owner raw) = Some sid
        then r_srem R (c_del R s t (refresh_key y)) t index [y] else s"
  show ?case
  proof (cases "y = x")
    case True
    then have "view R ?s1 t (refresh_key x) = None"
      using Cons.prems(2) assms(3) by (simp add: srem_gone view_del)
    then show ?thesis using end_session_tokens_gone by simp
  next
    case False
    then have "view R ?s1 t (refresh_key x) = view R s t (refresh_key x)"
      using assms(4) [THEN not_sym] by (simp add: srem_view view_del split: option.split)
    then have "r_get R ?s1 t (refresh_key x) = Some raw" using Cons.prems(2) by (simp add: r_get_def)
    then show ?thesis using Cons.IH [of ?s1] Cons.prems(1) False by simp
  qed
qed simp

end

text \<open>
  A rotated refresh token presented again after the grace ends its session: from then on, for a
  refresh token's whole lifetime, the session is recorded as ended (so its access tokens are refused and
  a refresh token of it issued in a race is refused too), and every live refresh token of that session
  in the user's index is gone.
\<close>

theorem reuse_ends_session:
  assumes "redis R" "replay cfg R seen1 seen2 s t clock token = Inr (Reused claim True, s')"
    and "rc_session_id claim = Some sid" "sid \<noteq> []" "t \<le> t'"
  shows "(t' < t + refresh_ttl cfg \<longrightarrow>
      session_was_ended (store_reader R s' t') (Some sid) = Inr True \<and>
      session_ended (store_reader R s' t') user (Some sid) issued_at = Inr True) \<and>
    (\<forall>x raw. x \<in> set (r_smembers R s t (refresh_user_key (rc_user_id claim))) \<and>
      r_get R s t (refresh_key x) = Some raw \<and> snd (token_owner raw) = Some sid \<longrightarrow>
      fst (claim_refresh_token cfg R s' t' clock' x) = None)"
proof -
  from assms(2) obtain d where d: "s' = end_reused_session cfg R
      (c_set R s t (rotated_key token) (RObj d) (Some (refresh_ttl cfg))) t claim"
    by (auto simp: replay_def Let_def split: option.splits sum.splits if_splits)
  define s1 where "s1 = record_session_ended R
    (c_set R s t (rotated_key token) (RObj d) (Some (refresh_ttl cfg))) t sid (refresh_ttl cfg)"
  let ?ix = "refresh_user_key (rc_user_id claim)"
  have s': "s' = end_session_tokens R t ?ix sid s1 (r_smembers R s1 t ?ix)"
    using assms(3,4) by (simp add: d end_reused_session_def s1_def Let_def)
  have v1: "view R s1 t k = view R s t k" if "k \<noteq> rotated_key token" "k \<noteq> ended_session_key sid" for k
    using that by (simp add: s1_def record_session_ended_def redis.view_set [OF assms(1)])
  have mem: "r_smembers R s1 t ?ix = r_smembers R s t ?ix" using v1 by (simp add: r_smembers_def)
  have "view R s' t' (ended_session_key sid) = view R s1 t' (ended_session_key sid)"
    unfolding s' by (rule redis.end_session_tokens_other [OF assms(1,5)]) simp_all
  then have "r_get R s' t' (ended_session_key sid) = (if t' < t + refresh_ttl cfg then Some (RNum (Fin 1)) else None)"
    using assms(5) by (simp add: r_get_def s1_def record_session_ended_def redis.view_set [OF assms(1)] lives_def)
  moreover have "fst (claim_refresh_token cfg R s' t' clock' x) = None"
    if "x \<in> set (r_smembers R s t ?ix)" "r_get R s t (refresh_key x) = Some raw" "snd (token_owner raw) = Some sid"
    for x raw
  proof -
    have "r_get R s1 t (refresh_key x) = Some raw" using that(2) v1 by (simp add: r_get_def)
    then have "view R s' t (refresh_key x) = None"
      unfolding s' using that(1,3) mem by (intro redis.end_session_tokens_removes [OF assms(1)]) simp_all
    then have "r_get R s' t' (refresh_key x) = None" by (rule redis.get_gone [OF assms(1,5)])
    then show ?thesis by (simp add: claim_refresh_token_def r_getdel_def)
  qed
  ultimately show ?thesis
    using assms(4) by (auto simp: session_was_ended_def session_ended_def store_reader_def)
qed

abbreviation demo_claim :: RefreshClaim where
  "demo_claim \<equiv> \<lparr>rc_user_id = ''u'', rc_credential = ''c'', rc_session_id = Some ''sid''\<rparr>"

abbreviation demo_rotated :: mem where
  "demo_rotated \<equiv> \<lparr>ents = [rotated_key ''old'' \<mapsto> (VText (RObj (rotation_value demo_claim 0)), None),
     refresh_user_key ''u'' \<mapsto> (VSet [''new''], None),
     refresh_key ''new'' \<mapsto> (VText (RObj (token_value ''u'' ''c'' ''sid'')), None)], mem_stream = []\<rparr>"

theorem reuse_ends_session_witness:
  "\<exists>s'. replay \<lparr>refresh_expire_days = 7, access_expire_minutes = 15\<rparr> ref_redis [(demo_rotated, 100)] []
       demo_rotated 100 100 ''old'' = Inr (Reused demo_claim True, s') \<and>
     session_was_ended (store_reader ref_redis s' 101) (Some ''sid'') = Inr True \<and>
     fst (claim_refresh_token \<lparr>refresh_expire_days = 7, access_expire_minutes = 15\<rparr> ref_redis s' 101 101 ''new'') = None"
proof -
  let ?cfg = "\<lparr>refresh_expire_days = 7, access_expire_minutes = 15\<rparr>"
  have "rotation ref_redis (demo_rotated, 100) ''old'' = Some (rotation_value demo_claim 0)"
    by (simp add: rotation_def ref_eval)
  moreover have "rotation_claim (rotation_value demo_claim 0) = Inr demo_claim"
    "rotation_at (rotation_value demo_claim 0) = Inr 0"
    "\<not> truthy (jget (rotation_value demo_claim 0) ''ended'')"
    by (simp_all add: rotation_claim_def rotation_value_def rotation_at_def jget_def jget_default_def opt_json_def)
  ultimately obtain s' where r: "replay ?cfg ref_redis [(demo_rotated, 100)] [] demo_rotated 100 100 ''old'' =
      Inr (Reused demo_claim True, s')"
    by (simp add: replay_def ROTATION_GRACE_SECONDS_def Let_def)
  have m: "''new'' \<in> set (r_smembers ref_redis demo_rotated 100 (refresh_user_key (rc_user_id demo_claim)))"
    "r_get ref_redis demo_rotated 100 (refresh_key ''new'') = Some (RObj (token_value ''u'' ''c'' ''sid''))"
    "snd (token_owner (RObj (token_value ''u'' ''c'' ''sid''))) = Some ''sid''"
    by (simp_all add: ref_eval token_owner_def token_value_def sid_of_def jget_def Let_def)
  have "session_was_ended (store_reader ref_redis s' 101) (Some ''sid'') = Inr True"
    using reuse_ends_session [OF ref.redis_axioms r, of "''sid''" 101] by (simp add: refresh_ttl_def)
  moreover have "fst (claim_refresh_token ?cfg ref_redis s' 101 101 ''new'') = None"
    using reuse_ends_session [OF ref.redis_axioms r, of "''sid''" 101 _ _ 101] m by simp
  ultimately show ?thesis using r by blast
qed

text \<open>
  A token minted after \<open>wait_out_an_end\<close> is not refused by the end it waited out: when the wait was
  possible (the end is not further ahead of the clock than the skew explains), the whole second the
  token is issued in counts as issued after the end.
\<close>

lemma wait_out_an_end_sound:
  assumes "aget (user_ended_key user) = Inr (Some raw)" "raw_float raw = Some (Fin ended)"
    and "\<And>ready. ready \<le> wake ready" "ready_time ended - started \<le> CLOCK_SKEW_SECONDS + 1"
    and "wait_out_an_end aget started wake user = Inr waited"
  shows "0 \<le> waited \<and> user_ended aget user (Some (RNum (Fin (of_int \<lfloor>started + waited\<rfloor>)))) = Inr False"
proof -
  let ?r = "\<lfloor>ended + CLOCK_SKEW_SECONDS\<rfloor> + 1"
  have r: "ended + CLOCK_SKEW_SECONDS < of_int ?r" by linarith
  have w: "waited = (if 0 < ready_time ended - started then wake (ready_time ended) - started else 0)"
    using assms by (auto simp: wait_out_an_end_def Let_def split: if_splits)
  have "of_int ?r \<le> started + waited" "0 \<le> waited"
    using w assms(3) [of "ready_time ended"] by (auto simp: ready_time_def split: if_splits)
  then have "?r \<le> \<lfloor>started + waited\<rfloor>" by (simp add: le_floor_iff)
  with r have "ended + CLOCK_SKEW_SECONDS < of_int \<lfloor>started + waited\<rfloor>" by linarith
  then show ?thesis
    using assms(1,2) \<open>0 \<le> waited\<close> by (auto simp: user_ended_def)
qed

end
