(* ===== verification/Company_Status.thy ===== *)
theory Company_Status
  imports Capabilities
begin

text \<open>
  \<open>services/api_gateway/company_status.py\<close>: whether a company is active, as authentication reads it,
  through a bounded cache of bounded staleness. The registry query and the marker's read are
  parameters; None for the marker's read is a gateway without a store.

  Shown: an answer is never staler than the cache's lifetime, a marked company is never active, and
  the cache never holds more than its bound.
\<close>

definition CACHE_MAX_COMPANIES :: nat where "CACHE_MAX_COMPANIES = 4096"

type_synonym status_cache = "(string, bool \<times> rat) od"

definition read_is_active :: "bool option \<Rightarrow> bool" where
  "read_is_active row = (case row of None \<Rightarrow> False | Some is_active \<Rightarrow> is_active)"

definition status_canonical :: "string \<Rightarrow> string option" where
  "status_canonical company_id = (case canonical_company_id company_id of Inl _ \<Rightarrow> None | Inr c \<Rightarrow> Some c)"

definition marked_suspended :: "(string \<Rightarrow> bool result) option \<Rightarrow> string \<Rightarrow> bool" where
  "marked_suspended store company_id =
     (case store of
        None \<Rightarrow> False
      | Some present \<Rightarrow> (case present (suspended_key company_id) of Inl _ \<Rightarrow> False | Inr b \<Rightarrow> b))"

definition is_company_active ::
    "rat \<Rightarrow> (string \<Rightarrow> bool result) option \<Rightarrow> (string \<Rightarrow> bool option result) \<Rightarrow> rat \<Rightarrow> string \<Rightarrow> status_cache \<Rightarrow>
      bool result \<times> status_cache" where
  "is_company_active cache_seconds store registry now company_id cache =
     (case status_canonical company_id of
        None \<Rightarrow> (Inr False, cache)
      | Some key \<Rightarrow>
          if marked_suspended store key then (Inr False, cache)
          else (case od_get cache key of
             Some (active, until) \<Rightarrow>
               if until > now then (Inr active, od_move_to_end cache key)
               else (case registry key of
                  Inl e \<Rightarrow> (Inl e, cache)
                | Inr row \<Rightarrow> (Inr (read_is_active row),
                    od_put CACHE_MAX_COMPANIES cache key (read_is_active row, now + cache_seconds)))
           | None \<Rightarrow>
               (case registry key of
                  Inl e \<Rightarrow> (Inl e, cache)
                | Inr row \<Rightarrow> (Inr (read_is_active row),
                    od_put CACHE_MAX_COMPANIES cache key (read_is_active row, now + cache_seconds)))))"

definition forget_company :: "string \<Rightarrow> status_cache \<Rightarrow> status_cache" where
  "forget_company company_id cache =
     (case status_canonical company_id of None \<Rightarrow> cache | Some key \<Rightarrow> od_del cache key)"

definition clear_cache :: "status_cache \<Rightarrow> status_cache" where
  "clear_cache cache = []"

section \<open>Staleness\<close>

text \<open>
  \<open>reg u k\<close>: the registry's row for a company at time \<open>u\<close>. The invariant: every cached flag is what the
  registry said when it was read, one lifetime before the entry's end, and the cache is within bounds.
\<close>

definition cache_inv :: "(rat \<Rightarrow> string \<Rightarrow> bool option) \<Rightarrow> rat \<Rightarrow> rat \<Rightarrow> status_cache \<Rightarrow> bool" where
  "cache_inv reg seconds now cache \<longleftrightarrow>
     od_wf cache \<and> length cache \<le> CACHE_MAX_COMPANIES \<and>
     (\<forall>k a e. od_get cache k = Some (a, e) \<longrightarrow> e - seconds \<le> now \<and> a = read_is_active (reg (e - seconds) k))"

lemma cache_inv_later: "cache_inv reg seconds now cache \<Longrightarrow> now \<le> now' \<Longrightarrow> cache_inv reg seconds now' cache"
  unfolding cache_inv_def by (meson order.trans)

lemma cache_inv_empty: "cache_inv reg seconds now []"
  by (simp add: cache_inv_def od_wf_def)

lemma cache_inv_del: "cache_inv reg seconds now cache \<Longrightarrow> cache_inv reg seconds now (od_del cache k)"
  using length_od_del [of cache k] by (auto simp: cache_inv_def split: if_splits)

lemma cache_inv_put:
  assumes "cache_inv reg seconds now cache" "row = reg now k"
  shows "cache_inv reg seconds now
    (od_put CACHE_MAX_COMPANIES cache k (read_is_active row, now + seconds))"
  unfolding cache_inv_def
proof (intro conjI allI impI)
  have wf: "od_wf cache" using assms(1) by (simp add: cache_inv_def)
  then show "od_wf (od_put CACHE_MAX_COMPANIES cache k (read_is_active row, now + seconds))" by simp
  show "length (od_put CACHE_MAX_COMPANIES cache k (read_is_active row, now + seconds)) \<le> CACHE_MAX_COMPANIES"
    by (rule od_put_bound)
  fix k' a e
  assume g: "od_get (od_put CACHE_MAX_COMPANIES cache k (read_is_active row, now + seconds)) k' = Some (a, e)"
  show "e - seconds \<le> now" "a = read_is_active (reg (e - seconds) k')"
  proof (atomize (full), cases "k' = k")
    case True
    then have "a = read_is_active row" "e = now + seconds"
      using g od_put_get [of CACHE_MAX_COMPANIES cache k] by (simp_all add: CACHE_MAX_COMPANIES_def)
    with True assms(2) show "e - seconds \<le> now \<and> a = read_is_active (reg (e - seconds) k')" by simp
  next
    case False
    from od_put_other [OF wf g False] assms(1)
    show "e - seconds \<le> now \<and> a = read_is_active (reg (e - seconds) k')" by (auto simp: cache_inv_def)
  qed
qed

text \<open>
  The answer for a company is bounded in staleness: from any cache the checks can reach, an active
  answer means that no suspension marker was read and that the registry held the company active at
  some moment within the cache's lifetime before now; the check keeps the cache consistent with the
  registry and within its bound, and an unreadable registry is an error, never an answer.
\<close>

theorem company_status_fresh:
  assumes "cache_inv reg seconds t cache" "t \<le> now" "0 < seconds"
    and "registry = (\<lambda>k. if reachable then Inr (reg now k) else Inl StoreError)"
    and "is_company_active seconds store registry now company_id cache = (answer, cache')"
  shows "cache_inv reg seconds now cache' \<and> length cache' \<le> CACHE_MAX_COMPANIES \<and>
    (answer = Inr True \<longrightarrow> (\<exists>key u. canonical_company_id company_id = Inr key \<and>
       \<not> marked_suspended store key \<and> now - seconds < u \<and> u \<le> now \<and> reg u key = Some True))"
proof -
  note inv = cache_inv_later [OF assms(1,2)]
  have move: "cache_inv reg seconds now (od_move_to_end cache k)" for k
    using inv by (simp add: cache_inv_def)
  have put: "cache_inv reg seconds now
      (od_put CACHE_MAX_COMPANIES cache k (read_is_active (reg now k), now + seconds))" for k
    by (rule cache_inv_put [OF inv refl])
  have fresh: "now - seconds < e - seconds \<and> e - seconds \<le> now \<and> a = read_is_active (reg (e - seconds) k)"
    if "od_get cache k = Some (a, e)" "e > now" for k a e
    using that inv by (auto simp: cache_inv_def)
  have act: "read_is_active r \<longleftrightarrow> r = Some True" for r
    by (auto simp: read_is_active_def split: option.split)
  have inv': "cache_inv reg seconds now cache'"
    using assms(4,5) inv move put
    by (auto simp: is_company_active_def split: option.splits if_splits)
  have "\<exists>key u. canonical_company_id company_id = Inr key \<and> \<not> marked_suspended store key \<and>
      now - seconds < u \<and> u \<le> now \<and> reg u key = Some True" if "answer = Inr True"
  proof -
    from assms(5) that obtain key where key: "status_canonical company_id = Some key"
        "\<not> marked_suspended store key"
      by (auto simp: is_company_active_def split: option.splits if_splits)
    have "(\<exists>e. od_get cache key = Some (True, e) \<and> e > now) \<or> reg now key = Some True"
      using assms(4,5) that key act
      by (auto simp: is_company_active_def split: option.splits if_splits)
    moreover have "now - seconds < e - seconds \<and> e - seconds \<le> now \<and> reg (e - seconds) key = Some True"
      if "od_get cache key = Some (True, e)" "e > now" for e
      using fresh [OF that] act by blast
    ultimately have "\<exists>u. now - seconds < u \<and> u \<le> now \<and> reg u key = Some True"
      using assms(3) by (metis diff_less_eq less_add_same_cancel1 order_refl)
    with key show ?thesis by (auto simp: status_canonical_def split: sum.splits)
  qed
  with inv' show ?thesis by (auto simp: cache_inv_def)
qed

definition demo_reg :: "rat \<Rightarrow> string \<Rightarrow> bool option" where
  "demo_reg u k = (if u < 90 then Some True else None)"

theorem company_status_fresh_witness:
  "fst (is_company_active 60 None (\<lambda>k. if True then Inr (demo_reg 100 k) else Inl StoreError) 100 uuid_a
     [(uuid_a, (True, 140))]) = Inr True \<and>
   (\<exists>u. 40 < u \<and> u \<le> 100 \<and> demo_reg u uuid_a = Some True)"
proof -
  have c: "canonical_company_id uuid_a = Inr uuid_a" by simp
  have inv: "cache_inv demo_reg 60 80 [(uuid_a, (True, 140))]"
    by (simp add: cache_inv_def od_wf_def CACHE_MAX_COMPANIES_def read_is_active_def demo_reg_def)
  have a: "is_company_active 60 None (\<lambda>k. if True then Inr (demo_reg 100 k) else Inl StoreError) 100 uuid_a
      [(uuid_a, (True, 140))] = (Inr True, [(uuid_a, (True, 140))])"
    using c by (simp add: is_company_active_def status_canonical_def marked_suspended_def
        od_move_to_end_def od_del_def)
  from company_status_fresh [OF inv _ _ refl a] a c show ?thesis by auto
qed

end
