(* ===== verification/Sign_In.thy ===== *)
theory Sign_In
  imports Refresh_Tokens Company_Status
begin

text \<open>
  The throttle of failed sign-ins, \<open>services/api_gateway/sign_in_throttle.py\<close>. Parameters: the hash
  \<open>sha256hex\<close>; how \<open>ipaddress\<close> reads a source (\<open>ip_norm\<close>: the counted form of an address, None
  when it is not one).

  Shown: the throttle admits an attempt exactly when the delay of its source's failures is over and
  counts sources apart.
\<close>

section \<open>The throttle\<close>

definition THRESHOLD :: int where "THRESHOLD = 5"
definition MAX_DELAY_SECONDS :: int where "MAX_DELAY_SECONDS = 300"
definition FORGET_AFTER_SECONDS :: rat where "FORGET_AFTER_SECONDS = 3600"

definition throttle_key :: "(string \<Rightarrow> string) \<Rightarrow> string \<Rightarrow> string" where
  "throttle_key sha256hex email = ''sign-in-failures:'' @ sha256hex (py_lower (py_strip email))"

definition THROTTLE_MODES :: "string list" where "THROTTLE_MODES = [''per-source'', ''off'']"

text \<open>\<open>check_configuration\<close>; \<open>edge_known\<close> is whether \<open>EdgePeers\<close> names a network or a host.\<close>

definition check_configuration :: "string \<Rightarrow> bool \<Rightarrow> unit result" where
  "check_configuration mode edge_known =
     (if mode \<notin> set THROTTLE_MODES then Inl RuntimeError
      else if mode = ''per-source'' \<and> \<not> edge_known then Inl RuntimeError
      else Inr ())"

definition throttle_source :: "(string \<Rightarrow> string option) \<Rightarrow> string option \<Rightarrow> string" where
  "throttle_source ip_norm src =
     (let x = take 64 (case src of None \<Rightarrow> ''unknown'' | Some v \<Rightarrow> if v = [] then ''unknown'' else v)
      in case ip_norm x of None \<Rightarrow> x | Some a \<Rightarrow> a)"

definition delay_after :: "int \<Rightarrow> int" where
  "delay_after failures =
     (if failures < THRESHOLD then 0 else min (2 ^ nat (failures - THRESHOLD)) MAX_DELAY_SECONDS)"

text \<open>\<open>tonumber(redis.call('HGET', k, f) or '0')\<close>.\<close>

definition hnum :: "'s redis \<Rightarrow> 's \<Rightarrow> rat \<Rightarrow> string \<Rightarrow> string \<Rightarrow> rat" where
  "hnum R s t k f = (case od_get (r_hgetall R s t k) f of Some (RNum (Fin q)) \<Rightarrow> q | _ \<Rightarrow> 0)"

definition RESERVE_SCRIPT :: "'s redis \<Rightarrow> 's \<Rightarrow> rat \<Rightarrow> string \<Rightarrow> string \<Rightarrow> rat \<Rightarrow> int \<Rightarrow> int \<Rightarrow> rat \<Rightarrow> int \<times> 's" where
  "RESERVE_SCRIPT R s t k src now threshold cap forget =
     (let n = hnum R s t k (''n:'' @ src); last_at = hnum R s t k (''at:'' @ src);
          remaining = last_at + of_int (min (2 ^ nat (\<lfloor>n\<rfloor> - threshold)) cap) - now
      in if n \<ge> of_int threshold \<and> remaining > 0 then (\<lceil>remaining\<rceil>, s)
         else (let s1 = r_hset R s t k (''n:'' @ src) (RNum (Fin (n + 1)));
                   s2 = r_hset R s1 t k (''at:'' @ src) (RNum (Fin now))
               in (0, c_expire R s2 t k forget)))"

definition reserve ::
    "(string \<Rightarrow> string) \<Rightarrow> (string \<Rightarrow> string option) \<Rightarrow> 's redis \<Rightarrow> 's \<Rightarrow> rat \<Rightarrow> rat \<Rightarrow> string \<Rightarrow> string option \<Rightarrow> int \<times> 's" where
  "reserve sha256hex ip_norm R s t now email src =
     RESERVE_SCRIPT R s t (throttle_key sha256hex email) (throttle_source ip_norm src) now THRESHOLD
       MAX_DELAY_SECONDS FORGET_AFTER_SECONDS"

definition succeeded ::
    "(string \<Rightarrow> string) \<Rightarrow> (string \<Rightarrow> string option) \<Rightarrow> 's redis \<Rightarrow> 's \<Rightarrow> rat \<Rightarrow> string \<Rightarrow> string option \<Rightarrow> 's" where
  "succeeded sha256hex ip_norm R s t email src =
     (let x = throttle_source ip_norm src
      in r_hdel R s t (throttle_key sha256hex email) [''n:'' @ x, ''at:'' @ x])"

definition cleared :: "(string \<Rightarrow> string) \<Rightarrow> 's redis \<Rightarrow> 's \<Rightarrow> rat \<Rightarrow> string \<Rightarrow> 's" where
  "cleared sha256hex R s t email = c_del R s t (throttle_key sha256hex email)"

subsection \<open>What the throttle admits\<close>

text \<open>The record the throttle keeps for a source: the attempts counted and when the last was.\<close>

definition failures :: "'s redis \<Rightarrow> 's \<Rightarrow> rat \<Rightarrow> string \<Rightarrow> string \<Rightarrow> rat \<times> rat" where
  "failures R s t k src = (hnum R s t k (''n:'' @ src), hnum R s t k (''at:'' @ src))"

lemma od_set_ne [simp]: "od_set d f v \<noteq> []"
  by (cases "(d, f, v)" rule: od_set.cases) auto

context redis
begin

lemma hset_hgetall:
  assumes "view R s t k = None \<or> (\<exists>h. view R s t k = Some (VHash h))"
  shows "r_hgetall R (r_hset R s t k f v) t k = od_set (r_hgetall R s t k) f v"
    and "\<exists>h. view R (r_hset R s t k f v) t k = Some (VHash h)"
  using assms by (auto simp: r_hset_def r_hgetall_def view_modify)

lemma admitted_hash:
  assumes "view R s t k = None \<or> (\<exists>h. view R s t k = Some (VHash h))" "t \<le> t'" "t' < t + d"
  shows "r_hgetall R (c_expire R (r_hset R (r_hset R s t k f v) t k f' v') t k d) t' k =
    od_set (od_set (r_hgetall R s t k) f v) f' v'"
proof -
  note h1 = hset_hgetall [OF assms(1), of f v]
  have "r_hgetall R (r_hset R (r_hset R s t k f v) t k f' v') t k = od_set (od_set (r_hgetall R s t k) f v) f' v'"
    using hset_hgetall(1) [of "r_hset R s t k f v" t k f' v'] h1 by auto
  then show ?thesis using assms(2,3) by (simp add: r_hgetall_def view_expire)
qed

end

text \<open>
  The throttle admits an attempt exactly when the delay for the failures counted against its
  source is over (no delay below the threshold, then doubling up to the cap), and answers the whole
  seconds still to wait otherwise, leaving the store as it was. An admitted attempt is counted at once,
  until the record is forgotten, and never changes what is counted against another source.
\<close>

lemma reserve_spec:
  assumes "redis R" "view R s t k = None \<or> (\<exists>h. view R s t k = Some (VHash h))"
    and f: "failures R s t k src = (of_int n, last_at)" "0 \<le> n"
    and r: "RESERVE_SCRIPT R s t k src now THRESHOLD MAX_DELAY_SECONDS FORGET_AFTER_SECONDS = (w, s')"
    and "t \<le> t'" "t' < t + FORGET_AFTER_SECONDS"
  shows "(w = 0 \<longleftrightarrow> n < THRESHOLD \<or> last_at + of_int (delay_after n) \<le> now) \<and>
    (w \<noteq> 0 \<longrightarrow> w = \<lceil>last_at + of_int (delay_after n) - now\<rceil> \<and> s' = s) \<and>
    (w = 0 \<longrightarrow> failures R s' t' k src = (of_int (n + 1), now) \<and>
      (\<forall>other. other \<noteq> src \<longrightarrow> failures R s' t' k other = failures R s t k other))"
proof -
  have n: "hnum R s t k (''n:'' @ src) = of_int n" "hnum R s t k (''at:'' @ src) = last_at"
    using f by (simp_all add: failures_def)
  let ?rem = "last_at + of_int (min (2 ^ nat (n - THRESHOLD)) MAX_DELAY_SECONDS) - now"
  let ?s1 = "r_hset R s t k (''n:'' @ src) (RNum (Fin (of_int n + 1)))"
  let ?s2 = "c_expire R (r_hset R ?s1 t k (''at:'' @ src) (RNum (Fin now))) t k FORGET_AFTER_SECONDS"
  have res: "(w, s') = (if n \<ge> THRESHOLD \<and> ?rem > 0 then (\<lceil>?rem\<rceil>, s) else (0, ?s2))"
    using r unfolding RESERVE_SCRIPT_def Let_def n by (auto split: if_splits)
  have pos: "?rem > 0 \<Longrightarrow> \<lceil>?rem\<rceil> > 0" by linarith
  note hash = redis.admitted_hash [OF assms(1,2,6,7), of "''n:'' @ src" "RNum (Fin (of_int n + 1))"
      "''at:'' @ src" "RNum (Fin now)"]
  have upd: "failures R ?s2 t' k src = (of_int (n + 1), now)"
    "other \<noteq> src \<Longrightarrow> failures R ?s2 t' k other = failures R s t k other" for other
    unfolding failures_def hnum_def hash by simp_all
  show ?thesis
  proof (cases "n \<ge> THRESHOLD \<and> ?rem > 0")
    case True
    then have w: "w = \<lceil>?rem\<rceil>" "s' = s" using res by auto
    have "0 < \<lceil>?rem\<rceil>" using pos True by blast
    with w have "w \<noteq> 0" by linarith
    moreover have "delay_after n = min (2 ^ nat (n - THRESHOLD)) MAX_DELAY_SECONDS"
      using True by (simp add: delay_after_def)
    ultimately show ?thesis using True w by simp
  next
    case False
    then have w: "w = 0" "s' = ?s2" using res by auto
    have "n < THRESHOLD \<or> last_at + of_int (delay_after n) \<le> now"
      using False by (auto simp: delay_after_def)
    with w upd show ?thesis by auto
  qed
qed

lemma reserve_keeps_hash:
  assumes "redis R" "view R s t k = None \<or> (\<exists>h. view R s t k = Some (VHash h))"
    and "RESERVE_SCRIPT R s t k src now threshold cap FORGET_AFTER_SECONDS = (w, s')"
  shows "view R s' t k = None \<or> (\<exists>h. view R s' t k = Some (VHash h))"
proof -
  note h1 = redis.hset_hgetall(2) [OF assms(1)]
  have "\<exists>h. view R (c_expire R (r_hset R (r_hset R s t k f v) t k f' v') t k FORGET_AFTER_SECONDS) t k = Some (VHash h)"
    for f v f' v'
    using h1 [OF assms(2), of f v] h1 [of "r_hset R s t k f v" t k f' v'] redis.view_expire [OF assms(1), of t t]
    by (simp add: FORGET_AFTER_SECONDS_def)
  then show ?thesis using assms(2,3) by (auto simp: RESERVE_SCRIPT_def Let_def split: if_splits)
qed

text \<open>A success forgets its source's failures and no other's.\<close>

lemma od_get_filter: "od_get (filter (\<lambda>(f, v). f \<notin> F) h) f = (if f \<in> F then None else od_get h f)"
  by (induction h) auto

lemma succeeded_failures:
  assumes "redis R" "view R s t k = None \<or> (\<exists>h. view R s t k = Some (VHash h))" "k = throttle_key sha256hex email"
    and "x = throttle_source ip_norm src"
  shows "failures R (succeeded sha256hex ip_norm R s t email src) t k x = (0, 0)"
    and "other \<noteq> x \<Longrightarrow>
      failures R (succeeded sha256hex ip_norm R s t email src) t k other = failures R s t k other"
proof -
  let ?F = "{''n:'' @ x, ''at:'' @ x}"
  have "r_hgetall R (succeeded sha256hex ip_norm R s t email src) t k =
      filter (\<lambda>(f, v). f \<notin> ?F) (r_hgetall R s t k)"
    using assms(2-) redis.view_modify [OF assms(1), of t t]
    by (auto simp: succeeded_def Let_def r_hdel_def r_exists_def r_hgetall_def)
  note h = this
  show "failures R (succeeded sha256hex ip_norm R s t email src) t k x = (0, 0)"
    unfolding failures_def hnum_def h od_get_filter by simp
  show "failures R (succeeded sha256hex ip_norm R s t email src) t k other = failures R s t k other" if "other \<noteq> x"
    unfolding failures_def hnum_def h od_get_filter using that by simp
qed

end
