(* ===== verification/Users.thy ===== *)
theory Users
  imports Sign_In
begin

text \<open>
  \<open>services/api_gateway/users.py\<close>: the gateway's user manager (signing in, what a change to an account
  ends) and its access-token strategy (minting, reading and destroying a token).

  What the gateway runs with is one record, \<open>gateway\<close>. Its functions \<open>gw_*\<close> stand for code outside the
  repository: the store, the registry query, the user table, the library's password check
  (\<open>BaseUserManager.authenticate\<close>), its reading of a token (\<open>JWTStrategy.read_token\<close>) and the JWT
  codec, which verifies signature, audience and expiry. \<open>gw_up\<close> is whether the store answers.

  Shown: exactly which tokens a request is admitted with, that a credential change ends what the user
  was signed in with, that a token minted after such an end is admitted, and that the throttle is
  consulted before the password is.
\<close>

section \<open>The gateway\<close>

record gateway_user =
  gu_id :: string
  gu_email :: string
  gu_hashed_password :: string
  gu_is_active :: bool
  gu_company :: "string option"
  gu_role :: "string option"
  gu_password_change_required :: bool

text \<open>The claims of an access token, as \<open>claims.get\<close> reads them.\<close>

record access_claims =
  ac_sub :: string
  ac_iat :: "raw option"
  ac_company :: "string option"
  ac_role :: "string option"
  ac_sid :: "string option"

record 's gateway =
  gw_redis :: "'s redis"
  gw_up :: bool
  gw_settings :: auth_settings
  gw_throttle :: string
  gw_cache_seconds :: rat
  gw_sha256hex :: "string \<Rightarrow> string"
  gw_ip_norm :: "string \<Rightarrow> string option"
  gw_registry :: "string \<Rightarrow> bool option result"
  gw_authenticate :: "string \<Rightarrow> string \<Rightarrow> gateway_user option"
  gw_verify_password :: "string \<Rightarrow> string \<Rightarrow> bool"
  gw_get_user :: "string \<Rightarrow> gateway_user option"
  gw_read_token :: "rat \<Rightarrow> string \<Rightarrow> gateway_user option"
  gw_encode :: "rat \<Rightarrow> access_claims \<Rightarrow> rat \<Rightarrow> string"
  gw_decode :: "rat \<Rightarrow> string \<Rightarrow> access_claims option"

definition gw_reader :: "'s gateway \<Rightarrow> 's \<Rightarrow> rat \<Rightarrow> reader" where
  "gw_reader G s t k = (if gw_up G then store_reader (gw_redis G) s t k else Inl StoreError)"

definition server_error :: http_error where
  "server_error = HTTPException 500 ''Internal Server Error''"

definition store_unavailable :: http_error where
  "store_unavailable = HTTPException 503 ''Session store not available''"

definition has_text :: "string option \<Rightarrow> bool" where
  "has_text x \<longleftrightarrow> x \<noteq> None \<and> x \<noteq> Some []"

text \<open>\<open>not user.company_id or await is_company_active(user.company_id)\<close>.\<close>

definition company_ok ::
    "'s gateway \<Rightarrow> 's \<Rightarrow> rat \<Rightarrow> gateway_user \<Rightarrow> status_cache \<Rightarrow> bool result \<times> status_cache" where
  "company_ok G s t user cache =
     (if has_text (gu_company user)
      then is_company_active (gw_cache_seconds G)
             (Some (\<lambda>k. if gw_up G then Inr (r_exists (gw_redis G) s t k) else Inl StoreError))
             (gw_registry G) t (the (gu_company user)) cache
      else (Inr True, cache))"

section \<open>Signing in\<close>

definition admitted ::
    "'s gateway \<Rightarrow> 's \<Rightarrow> rat \<Rightarrow> status_cache \<Rightarrow> string \<Rightarrow> string \<Rightarrow>
      (http_error + gateway_user option) \<times> status_cache" where
  "admitted G s t cache email password =
     (case gw_authenticate G email password of
        None \<Rightarrow> (Inr None, cache)
      | Some user \<Rightarrow>
          if \<not> gu_is_active user then (Inr (Some user), cache)
          else (case company_ok G s t user cache of
             (Inl _, cache1) \<Rightarrow> (Inl server_error, cache1)
           | (Inr ok, cache1) \<Rightarrow> (Inr (if ok then Some user else None), cache1)))"

definition authenticate ::
    "'s gateway \<Rightarrow> 's \<Rightarrow> rat \<Rightarrow> rat \<Rightarrow> status_cache \<Rightarrow> string option \<Rightarrow> string \<Rightarrow> string \<Rightarrow>
      (http_error + gateway_user option) \<times> 's \<times> status_cache" where
  "authenticate G s t clock cache src email password =
     (if gw_throttle G = ''off''
      then (case admitted G s t cache email password of (r, cache1) \<Rightarrow> (r, s, cache1))
      else if \<not> gw_up G then (Inl store_unavailable, s, cache)
      else (case reserve (gw_sha256hex G) (gw_ip_norm G) (gw_redis G) s t clock email src of
         (wait, s1) \<Rightarrow>
           if wait \<noteq> 0
           then (Inl (HTTPException 429 ''Too many failed sign-ins; try again later''), s1, cache)
           else (case admitted G s1 t cache email password of
              (Inl e, cache1) \<Rightarrow> (Inl e, s1, cache1)
            | (Inr None, cache1) \<Rightarrow> (Inr None, s1, cache1)
            | (Inr (Some user), cache1) \<Rightarrow>
                (Inr (Some user),
                 if gu_is_active user
                 then succeeded (gw_sha256hex G) (gw_ip_norm G) (gw_redis G) s1 t email src else s1,
                 cache1))))"

section \<open>What a change to an account ends\<close>

text \<open>\<open>update_dict\<close> is the dictionary of the fields changed.\<close>

definition ends_sessions :: "jobject \<Rightarrow> bool" where
  "ends_sessions d \<longleftrightarrow>
     od_get d ''password'' \<noteq> None \<or> od_get d ''company_id'' \<noteq> None \<or> jget d ''is_active'' = JBool False"

definition end_all ::
    "'s gateway \<Rightarrow> 's \<Rightarrow> rat \<Rightarrow> rat \<Rightarrow> datetime \<Rightarrow> gateway_user \<Rightarrow> (http_error + unit) \<times> 's" where
  "end_all G s t clock now user =
     (if \<not> gw_up G then (Inl server_error, s)
      else (case end_all_sessions (gw_settings G) (gw_redis G) s t clock now (gu_id user) of
         Inl _ \<Rightarrow> (Inl server_error, s)
       | Inr s1 \<Rightarrow> (Inr (), s1)))"

definition clear_sign_in_failures :: "'s gateway \<Rightarrow> 's \<Rightarrow> rat \<Rightarrow> gateway_user \<Rightarrow> (http_error + unit) \<times> 's" where
  "clear_sign_in_failures G s t user =
     (if gu_email user = [] then (Inr (), s)
      else if \<not> gw_up G then (Inl store_unavailable, s)
      else (Inr (), cleared (gw_sha256hex G) (gw_redis G) s t (gu_email user)))"

definition on_after_update ::
    "'s gateway \<Rightarrow> 's \<Rightarrow> rat \<Rightarrow> rat \<Rightarrow> datetime \<Rightarrow> gateway_user \<Rightarrow> jobject \<Rightarrow> (http_error + unit) \<times> 's" where
  "on_after_update G s t clock now user d =
     (case (if ends_sessions d then end_all G s t clock now user else (Inr (), s)) of
        (Inl e, s1) \<Rightarrow> (Inl e, s1)
      | (Inr _, s1) \<Rightarrow>
          if od_get d ''password'' \<noteq> None then clear_sign_in_failures G s1 t user else (Inr (), s1))"

definition on_after_reset_password ::
    "'s gateway \<Rightarrow> 's \<Rightarrow> rat \<Rightarrow> rat \<Rightarrow> datetime \<Rightarrow> gateway_user \<Rightarrow> (http_error + unit) \<times> 's" where
  "on_after_reset_password G s t clock now user =
     (case end_all G s t clock now user of
        (Inl e, s1) \<Rightarrow> (Inl e, s1)
      | (Inr _, s1) \<Rightarrow> clear_sign_in_failures G s1 t user)"

definition on_after_delete ::
    "'s gateway \<Rightarrow> 's \<Rightarrow> rat \<Rightarrow> rat \<Rightarrow> datetime \<Rightarrow> gateway_user \<Rightarrow> (http_error + unit) \<times> 's" where
  "on_after_delete G s t clock now user = end_all G s t clock now user"

definition DEFAULT_PASSWORD :: string where "DEFAULT_PASSWORD = ''industryflow''"

text \<open>\<open>validate_password\<close>: False is \<open>InvalidPasswordException\<close>.\<close>

definition validate_password :: "'s gateway \<Rightarrow> string \<Rightarrow> gateway_user \<Rightarrow> bool" where
  "validate_password G password user \<longleftrightarrow>
     \<not> gu_password_change_required user \<or>
     \<not> (py_lower (py_strip password) = DEFAULT_PASSWORD \<or>
        gu_hashed_password user \<noteq> [] \<and> gw_verify_password G password (gu_hashed_password user))"

text \<open>\<open>_update\<close>: the fields handed to the library's update.\<close>

definition update_fields :: "gateway_user \<Rightarrow> jobject \<Rightarrow> jobject" where
  "update_fields user d =
     (if jget d ''password'' \<noteq> JNull \<and> gu_password_change_required user
      then od_set d ''password_change_required'' (JBool False) else d)"

section \<open>Access tokens\<close>

definition PASSWORD_CHANGE_ALLOWED :: "(string \<times> string) list" where
  "PASSWORD_CHANGE_ALLOWED =
     [(''GET'', ''/users/me''), (''PATCH'', ''/users/me''), (''POST'', ''/auth/logout''), (''POST'', ''/auth/jwt/logout'')]"

text \<open>
  \<open>write_token\<close>: \<open>clock\<close> is the wall clock when the wait begins, \<open>wake\<close> as in \<open>wait_out_an_end\<close>; the
  token is issued when the wait ends. The clock is not before the epoch, so \<open>int\<close> rounds down.
\<close>

definition token_data :: "gateway_user \<Rightarrow> string \<Rightarrow> rat \<Rightarrow> access_claims" where
  "token_data user sid now =
     \<lparr>ac_sub = gu_id user, ac_iat = Some (RNum (Fin (of_int \<lfloor>now\<rfloor>))),
      ac_company = (if has_text (gu_company user) then gu_company user else None),
      ac_role = gu_role user, ac_sid = Some sid\<rparr>"

definition lifetime_seconds :: "'s gateway \<Rightarrow> rat" where
  "lifetime_seconds G = access_expire_minutes (gw_settings G) * 60"

definition write_token ::
    "'s gateway \<Rightarrow> 's \<Rightarrow> rat \<Rightarrow> rat \<Rightarrow> (rat \<Rightarrow> rat) \<Rightarrow> string \<Rightarrow> gateway_user \<Rightarrow> string option \<Rightarrow> string result" where
  "write_token G s t clock wake fresh_sid user session_id =
     (let sid = (if has_text session_id then the session_id else fresh_sid)
      in case wait_out_an_end (gw_reader G s t) clock wake (gu_id user) of
           Inl e \<Rightarrow> Inl e
         | Inr waited \<Rightarrow>
             (let now = clock + waited in Inr (gw_encode G now (token_data user sid now) (lifetime_seconds G))))"

text \<open>\<open>read_token\<close>; \<open>request\<close> is \<open>CURRENT_REQUEST\<close>. The answer None is an unauthenticated request.\<close>

definition read_token ::
    "'s gateway \<Rightarrow> 's \<Rightarrow> rat \<Rightarrow> rat \<Rightarrow> status_cache \<Rightarrow> (string \<times> string) option \<Rightarrow> string \<Rightarrow>
      (http_error + gateway_user option) \<times> status_cache" where
  "read_token G s t clock cache request token =
     (case gw_read_token G clock token of
        None \<Rightarrow> (Inr None, cache)
      | Some user \<Rightarrow>
          (case company_ok G s t user cache of
             (Inl _, cache1) \<Rightarrow> (Inl server_error, cache1)
           | (Inr False, cache1) \<Rightarrow> (Inr None, cache1)
           | (Inr True, cache1) \<Rightarrow>
               (case gw_decode G clock token of
                  None \<Rightarrow> (Inr None, cache1)
                | Some claims \<Rightarrow>
                    (case session_ended (gw_reader G s t) (gu_id user) (ac_sid claims) (ac_iat claims) of
                       Inl _ \<Rightarrow> (Inl store_unavailable, cache1)
                     | Inr True \<Rightarrow> (Inr None, cache1)
                     | Inr False \<Rightarrow>
                         if gu_password_change_required user \<and>
                            \<not> (case request of None \<Rightarrow> False | Some r \<Rightarrow> r \<in> set PASSWORD_CHANGE_ALLOWED)
                         then (Inl (HTTPException 403 ''PASSWORD_CHANGE_REQUIRED''), cache1)
                         else (Inr (Some user), cache1)))))"

definition destroy_token ::
    "'s gateway \<Rightarrow> 's \<Rightarrow> rat \<Rightarrow> rat \<Rightarrow> datetime \<Rightarrow> string \<Rightarrow> gateway_user \<Rightarrow> (http_error + unit) \<times> 's" where
  "destroy_token G s t clock now token user =
     (if \<not> gw_up G then (Inl server_error, s)
      else (let s1 = (case gw_decode G clock token of
                 None \<Rightarrow> s
               | Some claims \<Rightarrow> if has_text (ac_sid claims)
                   then end_session (gw_settings G) (gw_redis G) s t (the (ac_sid claims)) else s)
            in case revoke_user_capabilities (gw_redis G) s1 t now (gu_id user) of
                 Inl _ \<Rightarrow> (Inl server_error, s1)
               | Inr (_, s2) \<Rightarrow> (Inr (), s2)))"

section \<open>What a token admits\<close>

lemma read_token_Some:
  "fst (read_token G s t clock cache request token) = Inr (Some user) \<longleftrightarrow>
     gw_read_token G clock token = Some user \<and> fst (company_ok G s t user cache) = Inr True \<and>
     (\<exists>claims. gw_decode G clock token = Some claims \<and>
        session_ended (gw_reader G s t) (gu_id user) (ac_sid claims) (ac_iat claims) = Inr False) \<and>
     (gu_password_change_required user \<longrightarrow> request \<in> Some ` set PASSWORD_CHANGE_ALLOWED)"
  by (cases "company_ok G s t user cache")
    (auto simp: read_token_def split: option.splits prod.splits sum.splits bool.splits if_splits)

lemma session_live_store:
  "session_ended (gw_reader G s t) u sid iat = Inr False \<longleftrightarrow>
     gw_up G \<and>
     (\<forall>x. sid = Some x \<and> x \<noteq> [] \<longrightarrow> r_get (gw_redis G) s t (ended_session_key x) = None) \<and>
     (r_get (gw_redis G) s t (user_ended_key u) = None \<or>
      (\<exists>r e c i. r_get (gw_redis G) s t (user_ended_key u) = Some r \<and> raw_float r = Some e \<and>
         iat = Some c \<and> raw_float c = Some i \<and> \<not> float_le i (float_plus e CLOCK_SKEW_SECONDS)))"
  by (auto simp: session_ended_def user_ended_False gw_reader_def store_reader_def
      split: option.splits if_splits)

text \<open>
  C1. A request is admitted as a user exactly when the library reads the token as that user's, the
  user's company (if any) is active, the token's claims verify, the session store answered and holds
  neither an end of the token's session nor an end of all of the user's sessions that its issue time
  does not lie more than the clock skew after, and, while the password must be changed, the request is
  one of those such an account may make. So a store that does not answer admits nobody.
\<close>

theorem read_token_admits_iff:
  "fst (read_token G s t clock cache request token) = Inr (Some user) \<longleftrightarrow>
     gw_read_token G clock token = Some user \<and> fst (company_ok G s t user cache) = Inr True \<and> gw_up G \<and>
     (\<exists>claims. gw_decode G clock token = Some claims \<and>
        (\<forall>x. ac_sid claims = Some x \<and> x \<noteq> [] \<longrightarrow> r_get (gw_redis G) s t (ended_session_key x) = None) \<and>
        (r_get (gw_redis G) s t (user_ended_key (gu_id user)) = None \<or>
         (\<exists>r e c i. r_get (gw_redis G) s t (user_ended_key (gu_id user)) = Some r \<and> raw_float r = Some e \<and>
            ac_iat claims = Some c \<and> raw_float c = Some i \<and>
            \<not> float_le i (float_plus e CLOCK_SKEW_SECONDS)))) \<and>
     (gu_password_change_required user \<longrightarrow> request \<in> Some ` set PASSWORD_CHANGE_ALLOWED)"
  unfolding read_token_Some session_live_store by blast

abbreviation demo_cfg :: auth_settings where
  "demo_cfg \<equiv> \<lparr>refresh_expire_days = 7, access_expire_minutes = 15\<rparr>"

abbreviation demo_user :: gateway_user where
  "demo_user \<equiv> \<lparr>gu_id = uuid_a, gu_email = ''a@b'', gu_hashed_password = ''pw'', gu_is_active = True, gu_company = None,
     gu_role = None, gu_password_change_required = False\<rparr>"

text \<open>A gateway with one account and a token codec that knows one token at a time: the claims a token
  of this codec carries are those it was last asked to encode at that clock, in the session \<open>sid\<close>.\<close>

definition demo_claims :: "int \<Rightarrow> access_claims" where
  "demo_claims iat = \<lparr>ac_sub = uuid_a, ac_iat = Some (RNum (Fin (of_int iat))), ac_company = None, ac_role = None,
     ac_sid = Some ''sid''\<rparr>"

definition demo_gateway :: "access_claims \<Rightarrow> rat \<Rightarrow> mem gateway" where
  "demo_gateway claims until =
     \<lparr>gw_redis = ref_redis, gw_up = True, gw_settings = demo_cfg, gw_throttle = ''per-source'',
      gw_cache_seconds = 30, gw_sha256hex = (\<lambda>x. x), gw_ip_norm = (\<lambda>x. None), gw_registry = (\<lambda>k. Inr None),
      gw_authenticate = (\<lambda>e p. if p = ''secret'' then Some demo_user else None),
      gw_verify_password = (\<lambda>p h. p = ''secret''), gw_get_user = (\<lambda>u. if u = uuid_a then Some demo_user else None),
      gw_read_token = (\<lambda>t x. if t < until then Some demo_user else None),
      gw_encode = (\<lambda>t c l. ''jwt''), gw_decode = (\<lambda>t x. if t < until then Some claims else None)\<rparr>"

theorem read_token_admits_iff_witness:
  "fst (read_token (demo_gateway (demo_claims 1010) 2000) mem_empty 0 1020 [] None ''jwt'') = Inr (Some demo_user) \<and>
   fst (read_token (demo_gateway (demo_claims 1010) 2000)
     (c_set ref_redis mem_empty 0 (user_ended_key uuid_a) (RNum (Fin 1009)) None) 0 1020 [] None ''jwt'') \<noteq>
     Inr (Some demo_user)"
  unfolding read_token_admits_iff
  by (simp add: demo_gateway_def demo_claims_def company_ok_def has_text_def ref_eval CLOCK_SKEW_SECONDS_def)

section \<open>A credential change\<close>

lemma throttle_key_apart [simp]:
  "refresh_key x \<noteq> throttle_key h e" "user_ended_key x \<noteq> throttle_key h e" "cap_key x \<noteq> throttle_key h e"
  by (simp_all add: refresh_key_def user_ended_key_def USER_ENDED_PREFIX_def key_defs throttle_key_def)

lemma on_after_update_state:
  assumes "redis (gw_redis G)" "gw_up G" "ends_sessions d"
    and "tokens = r_smembers (gw_redis G) s t (refresh_user_key (gu_id user))"
    and "handles = map fst (r_hgetall (gw_redis G) s t (user_index (gu_id user))) @
      r_smembers (gw_redis G) s t (upload_index (gu_id user))"
  shows "\<exists>s'. on_after_update G s t clock now user d = (Inr (), s') \<and>
    (\<forall>t' \<ge> t. (\<forall>token \<in> set tokens. view (gw_redis G) s' t' (refresh_key token) = None) \<and>
       (t' < t + ended_ttl (gw_settings G) \<longrightarrow>
          r_get (gw_redis G) s' t' (user_ended_key (gu_id user)) = Some (RNum (Fin clock))) \<and>
       (\<forall>h \<in> set handles. view (gw_redis G) s' t' (cap_key h) = None))"
proof -
  obtain s1 where s1: "end_all_sessions (gw_settings G) (gw_redis G) s t clock now (gu_id user) = Inr s1"
      "\<forall>t' \<ge> t. (\<forall>token \<in> set tokens. view (gw_redis G) s1 t' (refresh_key token) = None) \<and>
       (t' < t + ended_ttl (gw_settings G) \<longrightarrow>
          r_get (gw_redis G) s1 t' (user_ended_key (gu_id user)) = Some (RNum (Fin clock))) \<and>
       (\<forall>h \<in> set handles. view (gw_redis G) s1 t' (cap_key h) = None)"
    using end_all_sessions_state [OF assms(1,4,5)] by blast
  let ?s' = "if od_get d ''password'' \<noteq> None \<and> gu_email user \<noteq> []
    then cleared (gw_sha256hex G) (gw_redis G) s1 t (gu_email user) else s1"
  have "on_after_update G s t clock now user d = (Inr (), ?s')"
    using s1(1) assms(2,3) by (simp add: on_after_update_def end_all_def clear_sign_in_failures_def)
  moreover have "view (gw_redis G) ?s' t' k = view (gw_redis G) s1 t' k"
    if "t \<le> t'" "\<And>h e. k \<noteq> throttle_key h e" for t' k
    using that by (simp add: cleared_def redis.view_del [OF assms(1)])
  ultimately show ?thesis using s1(2) by (intro exI [of _ ?s'] conjI) (simp_all only: r_get_def, simp_all)
qed

text \<open>
  C11. When an account's password or company changes, or it is deactivated, everything the user was
  signed in with ends at once: no refresh token in the user's index can be claimed again, no notebook
  capability in the user's indexes is accepted by any plane, and a request with an access token of the
  user issued before then (or within the clock skew after, or with no issue time) is not admitted for as
  long as the record of the end lives, which is longer than such a token does.
\<close>

theorem credential_change_ends:
  assumes "redis (gw_redis G)" "gw_up G"
    and "od_get d ''password'' \<noteq> None \<or> od_get d ''company_id'' \<noteq> None \<or> jget d ''is_active'' = JBool False"
    and "tokens = r_smembers (gw_redis G) s t (refresh_user_key (gu_id user))"
    and "handles = map fst (r_hgetall (gw_redis G) s t (user_index (gu_id user))) @
      r_smembers (gw_redis G) s t (upload_index (gu_id user))"
    and "on_after_update G s t clock now user d = (r, s')" "t \<le> t'"
  shows "r = Inr () \<and>
    (\<forall>token \<in> set tokens. fst (claim_refresh_token (gw_settings G) (gw_redis G) s' t' clock' token) = None) \<and>
    (\<forall>h \<in> set handles. refused_everywhere (store_reader (gw_redis G) s' t') h) \<and>
    (\<forall>who x claims. t' < t + ended_ttl (gw_settings G) \<and> gu_id who = gu_id user \<and>
       gw_decode G clock' x = Some claims \<and>
       (ac_iat claims = None \<or> (\<exists>i \<le> clock + CLOCK_SKEW_SECONDS. ac_iat claims = Some (RNum (Fin i)))) \<longrightarrow>
       fst (read_token G s' t' clock' cache request x) \<noteq> Inr (Some who))"
proof (intro conjI allI ballI impI)
  have ends: "ends_sessions d" using assms(3) unfolding ends_sessions_def .
  obtain s1 where s1: "on_after_update G s t clock now user d = (Inr (), s1)"
      "\<forall>t' \<ge> t. (\<forall>token \<in> set tokens. view (gw_redis G) s1 t' (refresh_key token) = None) \<and>
       (t' < t + ended_ttl (gw_settings G) \<longrightarrow>
          r_get (gw_redis G) s1 t' (user_ended_key (gu_id user)) = Some (RNum (Fin clock))) \<and>
       (\<forall>h \<in> set handles. view (gw_redis G) s1 t' (cap_key h) = None)"
    using on_after_update_state [OF assms(1,2) ends assms(4,5)] by blast
  with assms(6) have s': "s1 = s'" and "r = Inr ()" by auto
  then show "r = Inr ()" by simp
  show "fst (claim_refresh_token (gw_settings G) (gw_redis G) s' t' clock' token) = None" if "token \<in> set tokens" for token
    using s1(2) s' assms(7) that by (simp add: claim_refresh_token_def r_getdel_def r_get_def)
  show "refused_everywhere (store_reader (gw_redis G) s' t') h" if "h \<in> set handles" for h
    using s1(2) s' assms(7) that by (intro view_absent_refused) simp
  fix who :: gateway_user and x and claims :: access_claims
  assume a: "t' < t + ended_ttl (gw_settings G) \<and> gu_id who = gu_id user \<and> gw_decode G clock' x = Some claims \<and>
    (ac_iat claims = None \<or> (\<exists>i \<le> clock + CLOCK_SKEW_SECONDS. ac_iat claims = Some (RNum (Fin i))))"
  then have "r_get (gw_redis G) s' t' (user_ended_key (gu_id who)) = Some (RNum (Fin clock))"
    using s1(2) s' assms(7) by simp
  with a show "fst (read_token G s' t' clock' cache request x) \<noteq> Inr (Some who)"
    unfolding read_token_Some session_live_store by auto
qed

theorem credential_change_ends_witness:
  "\<exists>s'. on_after_update (demo_gateway (demo_claims 1001) 2000) mem_empty 5 1000 noon demo_user
       [(''password'', JStr ''new'')] = (Inr (), s') \<and>
     fst (read_token (demo_gateway (demo_claims 1001) 2000) s' 6 1010 [] None ''jwt'') \<noteq> Inr (Some demo_user)"
proof -
  let ?G = "demo_gateway (demo_claims 1001) 2000" and ?d = "[(''password'', JStr ''new'')]"
  have G: "gw_redis ?G = ref_redis" "gw_up ?G" "gw_settings ?G = demo_cfg"
    "gw_decode ?G 1010 ''jwt'' = Some (demo_claims 1001)"
    by (simp_all add: demo_gateway_def)
  have up: "redis (gw_redis ?G)" unfolding G by (rule ref.redis_axioms)
  have d: "od_get ?d ''password'' \<noteq> None \<or> od_get ?d ''company_id'' \<noteq> None \<or> jget ?d ''is_active'' = JBool False"
    by simp
  obtain r s' where u: "on_after_update ?G mem_empty 5 1000 noon demo_user ?d = (r, s')" by force
  from credential_change_ends [OF up G(2) d refl refl u, of 6 1010 "[]" None] G
  have "r = Inr ()" "fst (read_token ?G s' 6 1010 [] None ''jwt'') \<noteq> Inr (Some demo_user)"
    by (auto simp: demo_claims_def ended_ttl_def CLOCK_SKEW_SECONDS_def)
  with u show ?thesis by blast
qed

section \<open>A fresh token\<close>

lemma user_ended_store:
  assumes "gw_up G"
  shows "user_ended (gw_reader G s t) u iat = Inr False \<longleftrightarrow>
     r_get (gw_redis G) s t (user_ended_key u) = None \<or>
     (\<exists>r e c i. r_get (gw_redis G) s t (user_ended_key u) = Some r \<and> raw_float r = Some e \<and>
        iat = Some c \<and> raw_float c = Some i \<and> \<not> float_le i (float_plus e CLOCK_SKEW_SECONDS))"
  using assms by (simp add: user_ended_False gw_reader_def store_reader_def)

text \<open>
  A sign-in or a refresh never yields a token that is refused: the token minted for a user after an
  end of all of the user's sessions (at most the clock skew ahead of this gateway's clock) is admitted
  from its issue to its expiry, as long as its own session is not ended and no later end is recorded,
  the user's company is active and the password need not be changed. What the library relied on
  promises: a token it encoded decodes to its claims until its lifetime is over, and is read as the
  user it names.
\<close>

theorem minted_token_admitted:
  assumes "gw_up G" "\<forall>ready. ready \<le> wake ready" "sid \<noteq> []"
    and w: "write_token G s t clock wake fresh user (Some sid) = Inr token"
    and wt: "wait_out_an_end (gw_reader G s t) clock wake (gu_id user) = Inr waited"
    and issued: "issued = clock + waited" "issued \<le> clock'" "clock' < issued + lifetime_seconds G"
    and codec: "\<forall>u. issued \<le> u \<and> u < issued + lifetime_seconds G \<longrightarrow>
      gw_decode G u (gw_encode G issued (token_data user sid issued) (lifetime_seconds G)) =
        Some (token_data user sid issued)"
    and reads: "\<forall>u x claims. gw_decode G u x = Some claims \<longrightarrow> gw_read_token G u x = gw_get_user G (ac_sub claims)"
    and user: "gw_get_user G (gu_id user) = Some user" "\<not> gu_password_change_required user"
      "fst (company_ok G s' t' user cache) = Inr True"
    and end_read: "\<forall>r. r_get (gw_redis G) s t (user_ended_key (gu_id user)) = Some r \<longrightarrow>
      (\<exists>ended. r = RNum (Fin ended) \<and> ready_time ended - clock \<le> CLOCK_SKEW_SECONDS + 1)"
    and later: "r_get (gw_redis G) s' t' (ended_session_key sid) = None"
      "r_get (gw_redis G) s' t' (user_ended_key (gu_id user)) \<in> {None, r_get (gw_redis G) s t (user_ended_key (gu_id user))}"
  shows "fst (read_token G s' t' clock' cache request token) = Inr (Some user)"
proof -
  let ?c = "token_data user sid issued"
  have tok: "token = gw_encode G issued ?c (lifetime_seconds G)"
    using w wt issued(1) assms(3) by (simp add: write_token_def has_text_def Let_def)
  have dec: "gw_decode G clock' token = Some ?c" using codec issued(2,3) tok by simp
  have "user_ended (gw_reader G s t) (gu_id user) (ac_iat ?c) = Inr False"
  proof (cases "r_get (gw_redis G) s t (user_ended_key (gu_id user))")
    case None
    then show ?thesis using assms(1) by (simp add: user_ended_store)
  next
    case (Some r)
    then obtain ended where e: "r = RNum (Fin ended)" "ready_time ended - clock \<le> CLOCK_SKEW_SECONDS + 1"
      using end_read by blast
    have "gw_reader G s t (user_ended_key (gu_id user)) = Inr (Some r)"
      using Some assms(1) by (simp add: gw_reader_def store_reader_def)
    from wait_out_an_end_sound [OF this _ _ e(2) wt] e(1) assms(2)
    show ?thesis by (simp add: token_data_def issued(1))
  qed
  then have "user_ended (gw_reader G s' t') (gu_id user) (ac_iat ?c) = Inr False"
    using later(2) assms(1) by (auto simp: user_ended_store)
  then have "session_ended (gw_reader G s' t') (gu_id user) (ac_sid ?c) (ac_iat ?c) = Inr False"
    using later(1) assms(1,3) by (simp add: session_ended_def token_data_def gw_reader_def store_reader_def)
  moreover have "gw_read_token G clock' token = Some user"
    using reads dec user(1) by (simp add: token_data_def)
  ultimately show ?thesis using dec user(2,3) by (simp add: read_token_Some)
qed

text \<open>All of the user's sessions ended at 1000; the gateway's clock says 1001, so it waits until 1003.\<close>

theorem minted_token_admitted_witness:
  "\<exists>token. write_token (demo_gateway (demo_claims 1003) 1903)
       (c_set ref_redis mem_empty 0 (user_ended_key uuid_a) (RNum (Fin 1000)) None) 0 1001 (\<lambda>r. r) ''f''
       demo_user (Some ''sid'') = Inr token \<and>
     fst (read_token (demo_gateway (demo_claims 1003) 1903)
       (c_set ref_redis mem_empty 0 (user_ended_key uuid_a) (RNum (Fin 1000)) None) 1 1003 [] None token) =
       Inr (Some demo_user)"
proof -
  let ?s = "c_set ref_redis mem_empty 0 (user_ended_key uuid_a) (RNum (Fin 1000)) None"
  let ?G = "demo_gateway (demo_claims 1003) 1903"
  have get: "r_get (gw_redis ?G) ?s t (user_ended_key uuid_a) = Some (RNum (Fin 1000))"
    "r_get (gw_redis ?G) ?s t (ended_session_key ''sid'') = None" for t
    by (simp_all add: demo_gateway_def ref_eval)
  have rd: "gw_reader ?G ?s 0 (user_ended_key uuid_a) = Inr (Some (RNum (Fin 1000)))"
    using get(1) by (simp add: gw_reader_def store_reader_def demo_gateway_def)
  have wt: "wait_out_an_end (gw_reader ?G ?s 0) 1001 (\<lambda>r. r) (gu_id demo_user) = Inr 2"
    using rd by (simp add: wait_out_an_end_def ready_time_def CLOCK_SKEW_SECONDS_def Let_def)
  have data: "token_data demo_user ''sid'' 1003 = demo_claims 1003"
    by (simp add: token_data_def demo_claims_def has_text_def)
  have life: "lifetime_seconds ?G = 900" by (simp add: lifetime_seconds_def demo_gateway_def)
  have w: "write_token ?G ?s 0 1001 (\<lambda>r. r) ''f'' demo_user (Some ''sid'') = Inr ''jwt''"
    using wt by (simp add: write_token_def demo_gateway_def)
  have "fst (read_token ?G ?s 1 1003 [] None ''jwt'') = Inr (Some demo_user)"
    by (rule minted_token_admitted [OF _ _ _ w wt, of 1003])
      (simp_all add: data life get ready_time_def CLOCK_SKEW_SECONDS_def,
       simp_all add: demo_gateway_def company_ok_def has_text_def demo_claims_def)
  with w show ?thesis by blast
qed

section \<open>The throttle comes before the password\<close>

lemma admitted_active:
  "fst (admitted G s t cache email password) = Inr (Some user) \<Longrightarrow> gw_authenticate G email password = Some user"
  by (auto simp: admitted_def split: option.splits if_splits prod.splits sum.splits)

text \<open>
  With the throttle on, a sign-in from a source whose counted failures have reached the threshold
  and whose delay is not over is refused with 429 whatever the password, and leaves the store as it
  was. Any other attempt is counted against its source at once; the count is forgotten exactly when the
  attempt signs an active user in, which takes the password check's yes, and what is counted against
  another source never changes.
\<close>

theorem sign_in_throttled:
  assumes "redis (gw_redis G)" "gw_up G" "gw_throttle G \<noteq> ''off''"
    and k: "k = throttle_key (gw_sha256hex G) email" and x: "x = throttle_source (gw_ip_norm G) src"
    and "view (gw_redis G) s t k = None \<or> (\<exists>h. view (gw_redis G) s t k = Some (VHash h))"
    and "failures (gw_redis G) s t k x = (of_int n, last_at)" "0 \<le> n"
    and a: "authenticate G s t clock cache src email password = (r, s', cache')"
  shows "if n \<ge> THRESHOLD \<and> clock < last_at + of_int (delay_after n)
    then r = Inl (HTTPException 429 ''Too many failed sign-ins; try again later'') \<and> s' = s \<and> cache' = cache
    else failures (gw_redis G) s' t k x =
           (if \<exists>user. r = Inr (Some user) \<and> gu_is_active user then (0, 0) else (of_int (n + 1), clock)) \<and>
         (\<forall>user. r = Inr (Some user) \<longrightarrow> gw_authenticate G email password = Some user) \<and>
         (\<forall>other. other \<noteq> x \<longrightarrow> failures (gw_redis G) s' t k other = failures (gw_redis G) s t k other)"
proof -
  obtain w s1 where w: "RESERVE_SCRIPT (gw_redis G) s t k x clock THRESHOLD MAX_DELAY_SECONDS
      FORGET_AFTER_SECONDS = (w, s1)" by force
  note spec = reserve_spec [OF assms(1,6-8) w, of t]
  note hash = reserve_keeps_hash [OF assms(1,6) w]
  note succ = succeeded_failures [OF assms(1) hash k x]
  have res: "reserve (gw_sha256hex G) (gw_ip_norm G) (gw_redis G) s t clock email src = (w, s1)"
    using w k x by (simp add: reserve_def)
  show ?thesis
  proof (cases "n \<ge> THRESHOLD \<and> clock < last_at + of_int (delay_after n)")
    case True
    then have "w \<noteq> 0" "s1 = s" using spec by (auto simp: FORGET_AFTER_SECONDS_def)
    then show ?thesis using True a res assms(2,3) by (simp add: authenticate_def)
  next
    case False
    then have w0: "w = 0" and f1: "failures (gw_redis G) s1 t k x = (of_int (n + 1), clock)"
      and o1: "\<And>other. other \<noteq> x \<Longrightarrow> failures (gw_redis G) s1 t k other = failures (gw_redis G) s t k other"
      using spec by (auto simp: FORGET_AFTER_SECONDS_def)
    have r: "r = fst (admitted G s1 t cache email password)"
      and s': "s' = (if \<exists>user. r = Inr (Some user) \<and> gu_is_active user
        then succeeded (gw_sha256hex G) (gw_ip_norm G) (gw_redis G) s1 t email src else s1)"
      using a res w0 assms(2,3)
      by (auto simp: authenticate_def split: prod.splits sum.splits option.splits if_splits)
    have "failures (gw_redis G) s' t k x =
        (if \<exists>user. r = Inr (Some user) \<and> gu_is_active user then (0, 0) else (of_int (n + 1), clock))"
      using succ(1) f1 unfolding s' by auto
    moreover have "failures (gw_redis G) s' t k other = failures (gw_redis G) s t k other" if "other \<noteq> x" for other
      using succ(2) [OF that] o1 [OF that] unfolding s' by simp
    ultimately show ?thesis using False admitted_active r by auto
  qed
qed

text \<open>Seven failures at 100 delay an attempt until 104; the right password does not help at 102.\<close>

theorem sign_in_throttled_witness:
  "fst (authenticate (demo_gateway (demo_claims 0) 0)
     \<lparr>ents = [''sign-in-failures:e'' \<mapsto> (VHash [(''n:a'', RNum (Fin 7)), (''at:a'', RNum (Fin 100))], None)],
      mem_stream = []\<rparr> 0 102 [] (Some ''a'') ''e'' ''secret'') =
   Inl (HTTPException 429 ''Too many failed sign-ins; try again later'')"
proof -
  let ?s = "\<lparr>ents = [''sign-in-failures:e'' \<mapsto> (VHash [(''n:a'', RNum (Fin 7)), (''at:a'', RNum (Fin 100))], None)],
      mem_stream = []\<rparr>"
  let ?G = "demo_gateway (demo_claims 0) 0"
  have k: "''sign-in-failures:e'' = throttle_key (gw_sha256hex ?G) ''e''"
    and x: "''a'' = throttle_source (gw_ip_norm ?G) (Some ''a'')"
    by (simp_all add: throttle_key_def throttle_source_def demo_gateway_def py_strip_def py_lower_def is_space_def
        char_lower_def ord_def of_char_def Let_def)
  have G: "gw_redis ?G = ref_redis" "gw_up ?G" "gw_throttle ?G \<noteq> ''off''" by (simp_all add: demo_gateway_def)
  have rd: "redis (gw_redis ?G)" unfolding G by (rule ref.redis_axioms)
  have v: "view (gw_redis ?G) ?s 0 ''sign-in-failures:e'' = None \<or>
      (\<exists>h. view (gw_redis ?G) ?s 0 ''sign-in-failures:e'' = Some (VHash h))"
    and f: "failures (gw_redis ?G) ?s 0 ''sign-in-failures:e'' ''a'' = (of_int 7, 100)"
    unfolding G by (simp_all add: failures_def hnum_def ref_eval)
  obtain r s' c where a: "authenticate ?G ?s 0 102 [] (Some ''a'') ''e'' ''secret'' = (r, s', c)"
    by (cases "authenticate ?G ?s 0 102 [] (Some ''a'') ''e'' ''secret''") auto
  from sign_in_throttled [OF rd G(2,3) k x v f _ a] a show ?thesis
    by (simp add: THRESHOLD_def delay_after_def MAX_DELAY_SECONDS_def)
qed

end
