(* ===== verification/Tracking_Names.thy ===== *)
theory Tracking_Names
  imports Verifiers
begin

text \<open>
  The tracking gateway's rules on names, \<open>services/notebook_tracking_gateway\<close>: a tenant's experiment and
  model names and artifact keys (\<open>policy.py\<close>), the table of the MLflow routes it forwards
  (\<open>routes.py\<close>), and the rewriting of names in requests and responses (\<open>scoping.py\<close>).

  Shown: the names a response carries are exactly the caller's own, stripped; every name a request
  carries lands in the caller's name space.
\<close>

section \<open>Names and keys of a tenant\<close>

definition tracking_qualify_name :: "string \<Rightarrow> string \<Rightarrow> string result" where
  "tracking_qualify_name company_id name = res_map (\<lambda>p. qualify_name p name) (mlflow_name_prefix company_id)"

definition owns_name :: "string \<Rightarrow> json \<Rightarrow> bool result" where
  "owns_name company_id qualified = res_map (\<lambda>p. owned_name p qualified \<noteq> None) (mlflow_name_prefix company_id)"

definition unqualify_name :: "string \<Rightarrow> json \<Rightarrow> string option result" where
  "unqualify_name company_id qualified = res_map (\<lambda>p. owned_name p qualified) (mlflow_name_prefix company_id)"

definition owns_artifact_key :: "string \<Rightarrow> json \<Rightarrow> bool result" where
  "owns_artifact_key company_id key = res_map (\<lambda>p. owns_key p key True) (mlflow_artifact_prefix company_id)"

definition experiment_artifact_location :: "string \<Rightarrow> string \<Rightarrow> string result" where
  "experiment_artifact_location company_id nonce =
     res_map (\<lambda>p. ''mlflow-artifacts:/'' @ p @ nonce) (mlflow_artifact_prefix company_id)"

definition scope_artifact_key :: "string \<Rightarrow> string option \<Rightarrow> string result" where
  "scope_artifact_key company_id key =
     (case mlflow_artifact_prefix company_id of Inl e \<Rightarrow> Inl e | Inr p \<Rightarrow> scope_key p key)"

definition STAGING_ROOT :: string where "STAGING_ROOT = ''_upload-staging/''"
definition ADMITTED_ROOT :: string where "ADMITTED_ROOT = ''uploads/''"

definition is_upload_reserved :: "string \<Rightarrow> string \<Rightarrow> bool result" where
  "is_upload_reserved company_id scoped_key =
     (let key = lstrip_chars ''/'' scoped_key
      in res_map (\<lambda>p. let relative = (case owned_name p (JStr key) of Some r \<Rightarrow> if r = [] then key else r | None \<Rightarrow> key)
                     in hd (split_on (CHR ''/'') relative) \<in>
                          {rstrip_chars ''/'' ADMITTED_ROOT, rstrip_chars ''/'' STAGING_ROOT})
           (mlflow_artifact_prefix company_id))"

section \<open>The name fields of the MLflow endpoints\<close>

text \<open>An endpoint, its request fields and its response paths.\<close>

definition NAME_FIELDS :: "(string \<times> string list \<times> string list) list" where
  "NAME_FIELDS =
     [(''experiments/create'', [''name''], []),
      (''experiments/get-by-name'', [''experiment_name''], [''experiment.name'']),
      (''experiments/get'', [], [''experiment.name'']),
      (''experiments/update'', [''new_name''], []),
      (''experiments/search'', [], [''experiments[].name'']),
      (''registered-models/create'', [''name''], [''registered_model.name'']),
      (''registered-models/get'', [''name''], [''registered_model.name'']),
      (''registered-models/search'', [], [''registered_models[].name'']),
      (''registered-models/update'', [''name''], [''registered_model.name'']),
      (''registered-models/delete'', [''name''], []),
      (''model-versions/create'', [''name''], [''model_version.name'']),
      (''model-versions/get'', [''name''], [''model_version.name'']),
      (''model-versions/search'', [], [''model_versions[].name'']),
      (''registered-models/rename'', [''name'', ''new_name''], [''registered_model.name'']),
      (''registered-models/set-tag'', [''name''], []),
      (''registered-models/delete-tag'', [''name''], []),
      (''registered-models/get-latest-versions'', [''name''], [''model_versions[].name'']),
      (''registered-models/alias'', [''name''], [''model_version.name'']),
      (''model-versions/update'', [''name''], [''model_version.name'']),
      (''model-versions/delete'', [''name''], []),
      (''model-versions/set-tag'', [''name''], []),
      (''model-versions/delete-tag'', [''name''], []),
      (''model-versions/transition-stage'', [''name''], [''model_version.name'']),
      (''model-versions/get-download-uri'', [''name''], [])]"

definition request_name_fields :: "string \<Rightarrow> string list" where
  "request_name_fields endpoint = (case map_of NAME_FIELDS endpoint of None \<Rightarrow> [] | Some (req, resp) \<Rightarrow> req)"

definition response_name_paths :: "string \<Rightarrow> string list" where
  "response_name_paths endpoint = (case map_of NAME_FIELDS endpoint of None \<Rightarrow> [] | Some (req, resp) \<Rightarrow> resp)"

section \<open>Routes\<close>

text \<open>A route: its template and its rules.\<close>

type_synonym route = "string \<times> string list"

definition ROUTES :: "((string \<times> string) \<times> string list) list" where
  "ROUTES =
     [((''POST'', ''experiments/create''), [''create_experiment'']),
      ((''GET'', ''experiments/get''), [''experiment'']),
      ((''GET'', ''experiments/get-by-name''), [''names'']),
      ((''GET'', ''experiments/search''), [''filtered'', ''names'']),
      ((''POST'', ''experiments/search''), [''filtered'', ''names'']),
      ((''POST'', ''experiments/update''), [''experiment'', ''names'']),
      ((''POST'', ''experiments/delete''), [''experiment'']),
      ((''POST'', ''experiments/restore''), [''experiment'']),
      ((''POST'', ''experiments/set-experiment-tag''), [''experiment'']),
      ((''POST'', ''experiments/delete-experiment-tag''), [''experiment'']),
      ((''POST'', ''runs/create''), [''experiment'']),
      ((''POST'', ''runs/search''), [''experiment'']),
      ((''GET'', ''runs/get''), [''run'']),
      ((''POST'', ''runs/update''), [''run'']),
      ((''POST'', ''runs/delete''), [''run'']),
      ((''POST'', ''runs/restore''), [''run'']),
      ((''POST'', ''runs/log-metric''), [''run'']),
      ((''POST'', ''runs/log-parameter''), [''run'']),
      ((''POST'', ''runs/log-batch''), [''run'']),
      ((''POST'', ''runs/log-inputs''), [''run'']),
      ((''POST'', ''runs/outputs''), [''run'']),
      ((''POST'', ''runs/log-model''), [''run'']),
      ((''POST'', ''runs/set-tag''), [''run'']),
      ((''POST'', ''runs/delete-tag''), [''run'']),
      ((''GET'', ''metrics/get-history''), [''run'']),
      ((''GET'', ''metrics/get-history-bulk-interval''), [''runs'']),
      ((''GET'', ''artifacts/list''), [''run'']),
      ((''POST'', ''logged-models''), [''experiment'', ''run_opt'']),
      ((''POST'', ''logged-models/search''), [''experiment'']),
      ((''GET'', ''logged-models/{model_id}''), [''logged_model'']),
      ((''PATCH'', ''logged-models/{model_id}''), [''logged_model'']),
      ((''DELETE'', ''logged-models/{model_id}''), [''logged_model'']),
      ((''POST'', ''logged-models/{model_id}/params''), [''logged_model'']),
      ((''PATCH'', ''logged-models/{model_id}/tags''), [''logged_model'']),
      ((''DELETE'', ''logged-models/{model_id}/tags/{tag_key}''), [''logged_model'']),
      ((''GET'', ''logged-models/{model_id}/artifacts/directories''), [''logged_model'']),
      ((''POST'', ''registered-models/create''), [''names'']),
      ((''GET'', ''registered-models/get''), [''names'']),
      ((''GET'', ''registered-models/search''), [''filtered'', ''names'']),
      ((''PATCH'', ''registered-models/update''), [''names'']),
      ((''DELETE'', ''registered-models/delete''), [''names'']),
      ((''POST'', ''registered-models/rename''), [''names'']),
      ((''POST'', ''registered-models/set-tag''), [''names'']),
      ((''DELETE'', ''registered-models/delete-tag''), [''names'']),
      ((''GET'', ''registered-models/get-latest-versions''), [''names'']),
      ((''POST'', ''registered-models/get-latest-versions''), [''names'']),
      ((''POST'', ''registered-models/alias''), [''names'']),
      ((''DELETE'', ''registered-models/alias''), [''names'']),
      ((''GET'', ''registered-models/alias''), [''names'']),
      ((''POST'', ''model-versions/create''), [''names'', ''mv_source'', ''run_opt'', ''logged_model_opt'']),
      ((''GET'', ''model-versions/get''), [''names'']),
      ((''GET'', ''model-versions/search''), [''filtered'', ''names'']),
      ((''PATCH'', ''model-versions/update''), [''names'']),
      ((''DELETE'', ''model-versions/delete''), [''names'']),
      ((''POST'', ''model-versions/set-tag''), [''names'']),
      ((''DELETE'', ''model-versions/delete-tag''), [''names'']),
      ((''POST'', ''model-versions/transition-stage''), [''names'']),
      ((''GET'', ''model-versions/get-download-uri''), [''names''])]"

definition is_param :: "string \<Rightarrow> bool" where
  "is_param seg \<longleftrightarrow> starts_with seg ''{''"

text \<open>
  \<open>_compile\<close>: a parameter segment of the template matches one non-empty segment, any other only itself.
  The pattern's \<open>$\<close> also matches before a final line feed.
\<close>

fun segments_match :: "string list \<Rightarrow> string list \<Rightarrow> bool" where
  "segments_match [] [] = True"
| "segments_match (p # ps) (x # xs) = ((if is_param p then x \<noteq> [] else x = p) \<and> segments_match ps xs)"
| "segments_match _ _ = False"

definition template_match :: "string \<Rightarrow> string \<Rightarrow> bool" where
  "template_match templ endpoint \<longleftrightarrow>
     segments_match (split_on (CHR ''/'') templ) (split_on (CHR ''/'') endpoint) \<or>
     ends_with endpoint [CHR 0x0A] \<and>
       segments_match (split_on (CHR ''/'') templ) (split_on (CHR ''/'') (butlast endpoint))"

definition PATTERNS :: "((string \<times> string) \<times> string list) list" where
  "PATTERNS = filter (\<lambda>((m, ep), rules). CHR ''{'' \<in> set ep) ROUTES"

definition path_args :: "string \<Rightarrow> string \<Rightarrow> string list" where
  "path_args templ endpoint =
     map snd (filter (\<lambda>(p, seg). is_param p) (zip (split_on (CHR ''/'') templ) (split_on (CHR ''/'') endpoint)))"

definition routes_match :: "string \<Rightarrow> string \<Rightarrow> (route \<times> string list) option" where
  "routes_match method endpoint =
     (if list_ex (\<lambda>seg. seg \<in> {[], ''.'', ''..''}) (split_on (CHR ''/'') endpoint) then None
      else (case map_of ROUTES (method, endpoint) of
         Some rules \<Rightarrow> Some ((endpoint, rules), [])
       | None \<Rightarrow>
           map_option (\<lambda>((m, ep), rules). ((ep, rules), path_args ep endpoint))
             (List.find (\<lambda>((m, ep), rules). m = method \<and> template_match ep endpoint) PATTERNS)))"

text \<open>What a model version's source points at.\<close>

datatype source_kind = SourceRun string | SourceLoggedModel string | SourceArtifact string | SourceRefused string

definition source_refusal :: string where
  "source_refusal = ''model version source must be runs:/<run>, models:/<logged model> or a tenant artifact path''"

definition hex32 :: "string \<Rightarrow> bool" where
  "hex32 s \<longleftrightarrow> 32 \<le> length s \<and> list_all lower_hex (take 32 s)"

definition RUNS_SOURCE :: "string \<Rightarrow> string option" where
  "RUNS_SOURCE source =
     (let r = drop 6 source; rest = drop 32 r
      in if starts_with source ''runs:/'' \<and> hex32 r \<and>
            (rest = [] \<or> hd rest = CHR ''/'' \<and> CHR 0x0A \<notin> set rest)
         then Some (take 32 r) else None)"

definition LOGGED_MODEL_SOURCE :: "string \<Rightarrow> string option" where
  "LOGGED_MODEL_SOURCE source =
     (let r = drop 8 source; rest = drop 34 r
      in if starts_with source ''models:/'' \<and> starts_with r ''m-'' \<and> hex32 (drop 2 r) \<and> rest \<in> {[], ''/''}
         then Some (take 34 r) else None)"

definition source_kind_of :: "string \<Rightarrow> source_kind" where
  "source_kind_of given =
     (let source = py_strip given
      in case RUNS_SOURCE source of
           Some run \<Rightarrow> SourceRun run
         | None \<Rightarrow>
             (case LOGGED_MODEL_SOURCE source of
                Some model \<Rightarrow> SourceLoggedModel model
              | None \<Rightarrow>
                  if starts_with source ''mlflow-artifacts:/''
                  then SourceArtifact (drop (length ''mlflow-artifacts:/'') source)
                  else SourceRefused source_refusal))"

text \<open>\<open>_check_table\<close>, which runs when the module is imported.\<close>

definition check_table :: "unit result" where
  "check_table =
     (if list_all (\<lambda>((m, ep), rules).
           (''names'' \<in> set rules \<and> ''filtered'' \<notin> set rules \<longrightarrow> request_name_fields ep \<noteq> []) \<and>
           (''filtered'' \<in> set rules \<longrightarrow> response_name_paths ep \<noteq> [])) ROUTES
      then Inr () else Inl RuntimeError)"

section \<open>Rewriting requests and responses\<close>

fun scope_fields :: "string \<Rightarrow> string list \<Rightarrow> jobject \<Rightarrow> jobject result" where
  "scope_fields company_id [] out = Inr out"
| "scope_fields company_id (field # fs) out =
     (case od_get out field of
        Some (JStr name) \<Rightarrow>
          (case tracking_qualify_name company_id name of
             Inl e \<Rightarrow> Inl e
           | Inr q \<Rightarrow> scope_fields company_id fs (od_set out field (JStr q)))
      | _ \<Rightarrow> scope_fields company_id fs out)"

definition scope_request :: "string \<Rightarrow> jobject \<Rightarrow> string \<Rightarrow> jobject result" where
  "scope_request endpoint payload company_id = scope_fields company_id (request_name_fields endpoint) payload"

text \<open>\<open>_unqualify_leaf\<close>: whether to keep the entry, and the entry as it is left.\<close>

definition unqualify_leaf :: "json \<Rightarrow> string \<Rightarrow> string \<Rightarrow> (bool \<times> json) result" where
  "unqualify_leaf obj field company_id =
     (case obj of
        JObj d \<Rightarrow>
          (case od_get d field of
             Some (JStr name) \<Rightarrow>
               (case unqualify_name company_id (JStr name) of
                  Inl e \<Rightarrow> Inl e
                | Inr None \<Rightarrow> Inr (False, obj)
                | Inr (Some plain) \<Rightarrow> Inr (True, JObj (od_set d field (JStr plain))))
           | _ \<Rightarrow> Inr (True, obj))
      | _ \<Rightarrow> Inr (True, obj))"

fun keep_owned :: "string \<Rightarrow> string \<Rightarrow> json list \<Rightarrow> json list result" where
  "keep_owned company_id field [] = Inr []"
| "keep_owned company_id field (item # items) =
     (case unqualify_leaf item field company_id of
        Inl e \<Rightarrow> Inl e
      | Inr (keep, item') \<Rightarrow>
          res_map (\<lambda>rest. if keep then item' # rest else rest) (keep_owned company_id field items))"

text \<open>\<open>path.partition(".")\<close>.\<close>

definition partition_dot :: "string \<Rightarrow> string \<times> string" where
  "partition_dot path =
     (takeWhile (\<lambda>c. c \<noteq> CHR ''.'') path, drop 1 (dropWhile (\<lambda>c. c \<noteq> CHR ''.'') path))"

definition apply_name_path :: "jobject \<Rightarrow> string \<Rightarrow> string \<Rightarrow> jobject result" where
  "apply_name_path obj path company_id =
     (case partition_dot path of
        (head, tail) \<Rightarrow>
          if ends_with head ''[]''
          then (let key = take (length head - 2) head
                in case od_get obj key of
                     Some (JArr items) \<Rightarrow>
                       res_map (\<lambda>kept. od_set obj key (JArr kept)) (keep_owned company_id tail items)
                   | _ \<Rightarrow> Inr obj)
          else if tail \<noteq> []
          then (case od_get obj head of
                  Some (JObj child) \<Rightarrow>
                    res_map (\<lambda>(keep, child'). od_set obj head (if keep then child' else JNull))
                      (unqualify_leaf (JObj child) tail company_id)
                | _ \<Rightarrow> Inr obj)
          else (case unqualify_leaf (JObj obj) head company_id of
                  Inl e \<Rightarrow> Inl e
                | Inr (_, JObj obj') \<Rightarrow> Inr obj'
                | Inr _ \<Rightarrow> Inr obj))"

fun apply_name_paths :: "string \<Rightarrow> string list \<Rightarrow> jobject \<Rightarrow> jobject result" where
  "apply_name_paths company_id [] obj = Inr obj"
| "apply_name_paths company_id (path # paths) obj =
     (case apply_name_path obj path company_id of
        Inl e \<Rightarrow> Inl e
      | Inr obj' \<Rightarrow> apply_name_paths company_id paths obj')"

definition scope_response :: "string \<Rightarrow> jobject \<Rightarrow> string \<Rightarrow> jobject result" where
  "scope_response endpoint payload company_id =
     apply_name_paths company_id (response_name_paths endpoint) payload"

section \<open>What a response names\<close>

text \<open>The strings a document carries at a name path.\<close>

definition leaf_names :: "string \<Rightarrow> json \<Rightarrow> string list" where
  "leaf_names field j =
     (case j of
        JObj d \<Rightarrow> (case od_get d field of Some (JStr s) \<Rightarrow> [s] | _ \<Rightarrow> [])
      | _ \<Rightarrow> [])"

definition names_at :: "string \<Rightarrow> jobject \<Rightarrow> string list" where
  "names_at path obj =
     (case partition_dot path of
        (head, tail) \<Rightarrow>
          if ends_with head ''[]''
          then (case od_get obj (take (length head - 2) head) of
                  Some (JArr items) \<Rightarrow> concat (map (leaf_names tail) items) | _ \<Rightarrow> [])
          else if tail \<noteq> [] then (case od_get obj head of Some j \<Rightarrow> leaf_names tail j | _ \<Rightarrow> [])
          else leaf_names head (JObj obj))"

abbreviation own_names :: "string \<Rightarrow> string list \<Rightarrow> string list" where
  "own_names p names \<equiv> List.map_filter (\<lambda>s. owned_name p (JStr s)) names"

lemma map_filter_append: "List.map_filter f (xs @ ys) = List.map_filter f xs @ List.map_filter f ys"
  by (simp add: List.map_filter_def)

lemma map_filter_single: "List.map_filter f [x] = (case f x of None \<Rightarrow> [] | Some y \<Rightarrow> [y])"
  by (simp add: List.map_filter_def split: option.split)

lemma map_filter_none [simp]: "List.map_filter f [] = []"
  by (simp add: List.map_filter_def)

lemma unqualify_leaf_names:
  assumes "mlflow_name_prefix company_id = Inr p"
  shows "\<exists>keep obj'. unqualify_leaf obj field company_id = Inr (keep, obj') \<and>
    (if keep then leaf_names field obj' else []) = own_names p (leaf_names field obj)"
proof (cases "\<exists>d n. obj = JObj d \<and> od_get d field = Some (JStr n)")
  case True
  then obtain d n where "obj = JObj d" "od_get d field = Some (JStr n)" by blast
  with assms show ?thesis
    by (cases "owned_name p (JStr n)")
      (auto simp: unqualify_leaf_def leaf_names_def unqualify_name_def map_filter_single)
next
  case False
  then have "unqualify_leaf obj field company_id = Inr (True, obj)" "leaf_names field obj = []"
    by (auto simp: unqualify_leaf_def leaf_names_def split: json.split option.split)
  then show ?thesis by auto
qed

lemma keep_owned_names:
  assumes "mlflow_name_prefix company_id = Inr p"
  shows "\<exists>kept. keep_owned company_id field items = Inr kept \<and>
    concat (map (leaf_names field) kept) = own_names p (concat (map (leaf_names field) items))"
proof (induction items)
  case (Cons item items)
  then obtain kept where k: "keep_owned company_id field items = Inr kept"
      "concat (map (leaf_names field) kept) = own_names p (concat (map (leaf_names field) items))" by blast
  obtain keep obj' where u: "unqualify_leaf item field company_id = Inr (keep, obj')"
      "(if keep then leaf_names field obj' else []) = own_names p (leaf_names field item)"
    using unqualify_leaf_names [OF assms] by blast
  then show ?case using k by (cases keep) (simp_all add: map_filter_append)
qed simp

lemma apply_name_path_names:
  assumes "mlflow_name_prefix company_id = Inr p" "snd (partition_dot path) \<noteq> []"
  shows "\<exists>out. apply_name_path obj path company_id = Inr out \<and> names_at path out = own_names p (names_at path obj)"
proof -
  obtain head tail where ht: "partition_dot path = (head, tail)" by force
  with assms(2) have tail: "tail \<noteq> []" by simp
  let ?key = "take (length head - 2) head"
  have "leaf_names field JNull = []" for field by (simp add: leaf_names_def)
  note [simp] = this
  show ?thesis
  proof (cases "ends_with head ''[]''")
    case True
    show ?thesis
    proof (cases "\<exists>items. od_get obj ?key = Some (JArr items)")
      case items: True
      then obtain items where i: "od_get obj ?key = Some (JArr items)" by blast
      obtain kept where "keep_owned company_id tail items = Inr kept"
          "concat (map (leaf_names tail) kept) = own_names p (concat (map (leaf_names tail) items))"
        using keep_owned_names [OF assms(1)] by blast
      with ht True i show ?thesis by (simp add: apply_name_path_def names_at_def)
    next
      case False
      with ht True show ?thesis
        by (auto simp: apply_name_path_def names_at_def split: option.splits json.splits)
    qed
  next
    case False
    show ?thesis
    proof (cases "\<exists>child. od_get obj head = Some (JObj child)")
      case True
      then obtain child where c: "od_get obj head = Some (JObj child)" by blast
      obtain keep obj' where "unqualify_leaf (JObj child) tail company_id = Inr (keep, obj')"
          "(if keep then leaf_names tail obj' else []) = own_names p (leaf_names tail (JObj child))"
        using unqualify_leaf_names [OF assms(1)] by blast
      with ht False tail c show ?thesis by (cases keep) (simp_all add: apply_name_path_def names_at_def)
    next
      case n: False
      with ht False tail show ?thesis
        by (auto simp: apply_name_path_def names_at_def leaf_names_def split: option.splits json.splits)
    qed
  qed
qed

text \<open>Every endpoint of the table has at most one response path, and it ends in a field.\<close>

lemma NAME_FIELDS_paths:
  "\<forall>(ep, req, resp) \<in> set NAME_FIELDS. length resp \<le> 1 \<and> (\<forall>path \<in> set resp. snd (partition_dot path) \<noteq> [])"
  by (simp add: NAME_FIELDS_def partition_dot_def)

lemma response_name_paths_cases:
  "response_name_paths endpoint = [] \<or>
     (\<exists>path. response_name_paths endpoint = [path] \<and> snd (partition_dot path) \<noteq> [])"
proof (cases "map_of NAME_FIELDS endpoint")
  case None
  then show ?thesis by (simp add: response_name_paths_def)
next
  case (Some e)
  obtain req resp where e: "e = (req, resp)" by force
  with Some have "(endpoint, req, resp) \<in> set NAME_FIELDS" by (auto dest: map_of_SomeD)
  then have "length resp \<le> 1 \<and> (\<forall>path \<in> set resp. snd (partition_dot path) \<noteq> [])"
    using NAME_FIELDS_paths by blast
  then show ?thesis using Some e by (cases resp) (auto simp: response_name_paths_def)
qed


abbreviation demo_experiments :: jobject where
  "demo_experiments \<equiv>
     [(''experiments'', JArr [JObj [(''name'', JStr (''tenant_'' @ uscore uuid_a @ ''.mine''))],
                            JObj [(''name'', JStr (''tenant_'' @ uscore uuid_b @ ''.theirs''))]])]"


section \<open>What a request names\<close>

lemma scope_fields_spec:
  assumes "mlflow_name_prefix company_id = Inr p" "p \<noteq> []"
  shows "\<exists>out. scope_fields company_id fs payload = Inr out \<and>
    (\<forall>f. od_get out f = (case od_get payload f of
        Some (JStr n) \<Rightarrow> Some (JStr (if f \<in> set fs then qualify_name p n else n)) | v \<Rightarrow> v))"
proof (induction fs arbitrary: payload)
  case Nil
  then show ?case by (auto split: option.splits json.splits)
next
  case (Cons g fs)
  have idem: "qualify_name p (qualify_name p n) = qualify_name p n" for n by (simp add: qualify_name_def)
  show ?case
  proof (cases "\<exists>n. od_get payload g = Some (JStr n)")
    case True
    then obtain n where n: "od_get payload g = Some (JStr n)" by blast
    obtain out where o: "scope_fields company_id fs (od_set payload g (JStr (qualify_name p n))) = Inr out"
        "\<forall>f. od_get out f = (case od_get (od_set payload g (JStr (qualify_name p n))) f of
          Some (JStr m) \<Rightarrow> Some (JStr (if f \<in> set fs then qualify_name p m else m)) | v \<Rightarrow> v)"
      using Cons.IH by blast
    have "scope_fields company_id (g # fs) payload = Inr out"
      using n o(1) assms(1) by (simp add: tracking_qualify_name_def)
    moreover have "od_get out f = (case od_get payload f of
        Some (JStr m) \<Rightarrow> Some (JStr (if f \<in> set (g # fs) then qualify_name p m else m)) | v \<Rightarrow> v)" for f
      using o(2) n idem by (cases "f = g") (simp_all split: option.splits json.splits)
    ultimately show ?thesis by blast
  next
    case False
    then have eq: "scope_fields company_id (g # fs) payload = scope_fields company_id fs payload"
      by (auto split: option.splits json.splits)
    obtain out where o: "scope_fields company_id fs payload = Inr out"
        "\<forall>f. od_get out f = (case od_get payload f of
          Some (JStr m) \<Rightarrow> Some (JStr (if f \<in> set fs then qualify_name p m else m)) | v \<Rightarrow> v)"
      using Cons.IH by blast
    moreover have "od_get out f = (case od_get payload f of
        Some (JStr m) \<Rightarrow> Some (JStr (if f \<in> set (g # fs) then qualify_name p m else m)) | v \<Rightarrow> v)" for f
      using o(2) False by (cases "f = g") (auto split: option.splits json.splits)
    ultimately show ?thesis using eq by auto
  qed
qed

end
