(* ===== verification/Tracking_Gateway.thy ===== *)
theory Tracking_Gateway
  imports Tracking_Names Redis
begin

text \<open>
  The tracking gateway's wire entry points, \<open>services/notebook_tracking_gateway/gateway.py\<close>: the ownership
  lookups of one request, the proxied MLflow call and the artifact plane. Parameters: \<open>upstream\<close>, the
  MLflow server, as its answer to a call; the random part of an artifact location.

  A handler's result is what it makes the world do: the call it forwards with the answer it returns,
  or the object-store action. A \<open>failure\<close> is an HTTP refusal or a crash (status 500).

  Shown: the memoised lookups answer as direct ones do; a call is forwarded only for a listed route,
  with every id it names owned by the caller's tenant and every name in the tenant's name space; the
  artifact plane acts only on keys of the tenant and never writes where only uploads may.
\<close>

section \<open>Failures and lookups\<close>

datatype failure = Refuse int string | Crash

type_synonym upstream = "string \<Rightarrow> string \<Rightarrow> jobject \<Rightarrow> jobject option \<Rightarrow> int \<times> json"

text \<open>\<open>((data or {}).get(a) or {}).get(b)\<close>, for any number of keys.\<close>

fun dig :: "json \<Rightarrow> string list \<Rightarrow> failure + json" where
  "dig j [] = Inr j"
| "dig j (k # ks) =
     (if \<not> truthy j then dig JNull ks
      else (case j of JObj d \<Rightarrow> dig (jget d k) ks | _ \<Rightarrow> Inl Crash))"

record lookups =
  lk_experiments :: "(string, bool) od"
  lk_runs :: "(string, bool) od"
  lk_models :: "(string, bool) od"

definition no_lookups :: lookups where
  "no_lookups = \<lparr>lk_experiments = [], lk_runs = [], lk_models = []\<rparr>"

definition cross_experiment :: failure where
  "cross_experiment = Refuse 403 ''cross-tenant or unknown experiment''"

definition named_experiment :: "upstream \<Rightarrow> string \<Rightarrow> failure + json" where
  "named_experiment upstream key =
     (case upstream ''GET'' ''experiments/get'' [(''experiment_id'', JStr key)] None of
        (status, data) \<Rightarrow> if status = 200 then dig data [''experiment'', ''name''] else Inr JNull)"

definition experiment_verdict :: "upstream \<Rightarrow> string \<Rightarrow> string \<Rightarrow> failure + bool" where
  "experiment_verdict upstream company_id key =
     (case named_experiment upstream key of
        Inl e \<Rightarrow> Inl e
      | Inr name \<Rightarrow>
          if \<not> truthy name then Inr False
          else (case owns_name company_id name of Inl _ \<Rightarrow> Inl Crash | Inr b \<Rightarrow> Inr b))"

definition lk_experiment :: "upstream \<Rightarrow> string \<Rightarrow> lookups \<Rightarrow> json \<Rightarrow> (failure + unit) \<times> lookups" where
  "lk_experiment upstream company_id L experiment_id =
     (if \<not> truthy experiment_id then (Inl cross_experiment, L)
      else (let key = py_str experiment_id
            in case (case od_get (lk_experiments L) key of
                       Some v \<Rightarrow> Inr (v, L)
                     | None \<Rightarrow>
                         (case experiment_verdict upstream company_id key of
                            Inl e \<Rightarrow> Inl e
                          | Inr v \<Rightarrow> Inr (v, L\<lparr>lk_experiments := od_set (lk_experiments L) key v\<rparr>))) of
                 Inl e \<Rightarrow> (Inl e, L)
               | Inr (v, L1) \<Rightarrow> (if v then Inr () else Inl cross_experiment, L1)))"

text \<open>\<open>_owned\<close>: an HTTP refusal is the answer no, anything else propagates.\<close>

definition lk_owned :: "upstream \<Rightarrow> string \<Rightarrow> lookups \<Rightarrow> json \<Rightarrow> (failure + bool) \<times> lookups" where
  "lk_owned upstream company_id L experiment_id =
     (case lk_experiment upstream company_id L experiment_id of
        (Inr _, L1) \<Rightarrow> (Inr True, L1)
      | (Inl Crash, L1) \<Rightarrow> (Inl Crash, L1)
      | (Inl (Refuse _ _), L1) \<Rightarrow> (Inr False, L1))"

definition run_experiment :: "upstream \<Rightarrow> string \<Rightarrow> failure + json" where
  "run_experiment upstream key =
     (case upstream ''GET'' ''runs/get'' [(''run_id'', JStr key)] None of
        (status, data) \<Rightarrow> if status = 200 then dig data [''run'', ''info'', ''experiment_id''] else Inr JNull)"

definition model_experiment :: "upstream \<Rightarrow> string \<Rightarrow> failure + json" where
  "model_experiment upstream key =
     (case upstream ''GET'' (''logged-models/'' @ key) [] None of
        (status, data) \<Rightarrow> if status = 200 then dig data [''model'', ''info'', ''experiment_id''] else Inr JNull)"

definition lk_run :: "upstream \<Rightarrow> string \<Rightarrow> lookups \<Rightarrow> json \<Rightarrow> (failure + unit) \<times> lookups" where
  "lk_run upstream company_id L run_id =
     (let key = py_str run_id
      in case od_get (lk_runs L) key of
           Some v \<Rightarrow> (if v then Inr () else Inl cross_experiment, L)
         | None \<Rightarrow>
             (case run_experiment upstream key of
                Inl e \<Rightarrow> (Inl e, L)
              | Inr exp_id \<Rightarrow>
                  (case lk_owned upstream company_id L exp_id of
                     (Inl e, L1) \<Rightarrow> (Inl e, L1)
                   | (Inr v, L1) \<Rightarrow>
                       (if v then Inr () else Inl cross_experiment, L1\<lparr>lk_runs := od_set (lk_runs L1) key v\<rparr>))))"

definition lk_logged_model :: "upstream \<Rightarrow> string \<Rightarrow> lookups \<Rightarrow> json \<Rightarrow> (failure + unit) \<times> lookups" where
  "lk_logged_model upstream company_id L model_id =
     (if \<not> truthy model_id then (Inl (Refuse 403 ''cross-tenant or unknown logged model''), L)
      else (let key = py_str model_id
            in case od_get (lk_models L) key of
                 Some v \<Rightarrow> (if v then Inr () else Inl cross_experiment, L)
               | None \<Rightarrow>
                   (case model_experiment upstream key of
                      Inl e \<Rightarrow> (Inl e, L)
                    | Inr exp_id \<Rightarrow>
                        (case lk_owned upstream company_id L exp_id of
                           (Inl e, L1) \<Rightarrow> (Inl e, L1)
                         | (Inr v, L1) \<Rightarrow>
                             (if v then Inr () else Inl cross_experiment,
                              L1\<lparr>lk_models := od_set (lk_models L1) key v\<rparr>)))))"

section \<open>The ownership rules of a route\<close>

definition as_list :: "json \<Rightarrow> json list" where
  "as_list v = (case v of JNull \<Rightarrow> [] | JArr xs \<Rightarrow> xs | _ \<Rightarrow> [v])"

fun lk_each :: "(lookups \<Rightarrow> json \<Rightarrow> (failure + unit) \<times> lookups) \<Rightarrow> lookups \<Rightarrow> json list \<Rightarrow> (failure + unit) \<times> lookups" where
  "lk_each f L [] = (Inr (), L)"
| "lk_each f L (x # xs) =
     (case f L x of (Inl e, L1) \<Rightarrow> (Inl e, L1) | (Inr _, L1) \<Rightarrow> lk_each f L1 xs)"

definition lk_required ::
    "(lookups \<Rightarrow> json \<Rightarrow> (failure + unit) \<times> lookups) \<Rightarrow> string \<Rightarrow> json list \<Rightarrow> lookups \<Rightarrow> (failure + unit) \<times> lookups" where
  "lk_required f detail ids L = (if ids = [] then (Inl (Refuse 403 detail), L) else lk_each f L ids)"

text \<open>The rules, each as one check, in the order \<open>_ensure_owns\<close> runs them.\<close>

definition experiment_ids :: "jobject \<Rightarrow> json list" where
  "experiment_ids src = as_list (jget src ''experiment_id'') @ as_list (jget src ''experiment_ids'')"

definition run_ids_of :: "jobject \<Rightarrow> json list" where
  "run_ids_of src = filter truthy [jget src ''run_id'', jget src ''run_uuid'', jget src ''source_run_id'']"

definition check_source :: "upstream \<Rightarrow> string \<Rightarrow> json \<Rightarrow> lookups \<Rightarrow> (failure + unit) \<times> lookups" where
  "check_source upstream company_id source L =
     (case (if truthy source then source else JStr []) of
        JStr s \<Rightarrow>
          (case source_kind_of s of
             SourceRun run \<Rightarrow> lk_run upstream company_id L (JStr run)
           | SourceLoggedModel model \<Rightarrow> lk_logged_model upstream company_id L (JStr model)
           | SourceArtifact key \<Rightarrow>
               (case owns_artifact_key company_id (JStr key) of
                  Inl _ \<Rightarrow> (Inl Crash, L)
                | Inr b \<Rightarrow> (if b then Inr () else Inl (Refuse 403 ''model version source is outside the tenant''), L))
           | SourceRefused reason \<Rightarrow> (Inl (Refuse 403 reason), L))
      | _ \<Rightarrow> (Inl Crash, L))"

fun run_checks :: "(lookups \<Rightarrow> (failure + unit) \<times> lookups) list \<Rightarrow> lookups \<Rightarrow> (failure + unit) \<times> lookups" where
  "run_checks [] L = (Inr (), L)"
| "run_checks (c # cs) L = (case c L of (Inl e, L1) \<Rightarrow> (Inl e, L1) | (Inr _, L1) \<Rightarrow> run_checks cs L1)"

definition ensure_owns ::
    "upstream \<Rightarrow> string \<Rightarrow> route \<Rightarrow> string list \<Rightarrow> jobject \<Rightarrow> lookups \<Rightarrow> (failure + unit) \<times> lookups" where
  "ensure_owns upstream company_id route args src =
     (let rules = snd route; exps = lk_experiment upstream company_id; runs = lk_run upstream company_id;
          models = lk_logged_model upstream company_id
      in run_checks
           ((if ''experiment'' \<in> set rules
             then [lk_required exps ''an experiment id is required'' (experiment_ids src)] else []) @
            (if ''run'' \<in> set rules \<or> ''run_opt'' \<in> set rules \<and> run_ids_of src \<noteq> []
             then [lk_required runs ''a run id is required'' (run_ids_of src)] else []) @
            (if ''runs'' \<in> set rules
             then [lk_required runs ''run ids are required'' (as_list (jget src ''run_ids''))] else []) @
            (if ''logged_model'' \<in> set rules
             then [\<lambda>L. models L (case args of [] \<Rightarrow> jget src ''model_id'' | a # _ \<Rightarrow> JStr a)] else []) @
            (if ''logged_model_opt'' \<in> set rules \<and> truthy (jget src ''model_id'')
             then [\<lambda>L. models L (jget src ''model_id'')] else []) @
            (if ''mv_source'' \<in> set rules then [check_source upstream company_id (jget src ''source'')] else [])))"

section \<open>The proxied call\<close>

text \<open>A request's body: none, not JSON, or a JSON value.\<close>

datatype request_body = NoBody | NotJson | Body json

definition json_body :: "request_body \<Rightarrow> failure + jobject" where
  "json_body body =
     (case body of
        NoBody \<Rightarrow> Inr []
      | NotJson \<Rightarrow> Inl (Refuse 400 ''invalid JSON body'')
      | Body (JObj d) \<Rightarrow> Inr d
      | Body _ \<Rightarrow> Inl (Refuse 400 ''the JSON body must be an object''))"

definition add_item :: "jobject \<Rightarrow> string \<times> string \<Rightarrow> jobject" where
  "add_item message item =
     (case od_get message (fst item) of
        None \<Rightarrow> od_set message (fst item) (JStr (snd item))
      | Some (JArr xs) \<Rightarrow> od_set message (fst item) (JArr (xs @ [JStr (snd item)]))
      | Some v \<Rightarrow> od_set message (fst item) (JArr [v, JStr (snd item)]))"

definition request_message :: "string \<Rightarrow> (string \<times> string) list \<Rightarrow> request_body \<Rightarrow> failure + jobject" where
  "request_message method query body =
     (if method = ''GET''
      then (if body \<noteq> NoBody then Inl (Refuse 400 ''a GET request carries its fields in the query string'')
            else Inr (foldl add_item [] query))
      else if query \<noteq> []
      then Inl (Refuse 400 ''this request carries its fields in the JSON body, not the query string'')
      else json_body body)"

text \<open>The call forwarded: method, endpoint and the one message MLflow acts on.\<close>

record forwarded =
  fw_method :: string
  fw_endpoint :: string
  fw_message :: jobject

definition is_JStr :: "json \<Rightarrow> bool" where
  "is_JStr v = (case v of JStr _ \<Rightarrow> True | _ \<Rightarrow> False)"

definition call_upstream :: "upstream \<Rightarrow> forwarded \<Rightarrow> int \<times> json" where
  "call_upstream upstream fw =
     (if fw_method fw = ''GET'' then upstream ''GET'' (fw_endpoint fw) (fw_message fw) None
      else upstream (fw_method fw) (fw_endpoint fw) [] (Some (fw_message fw)))"

definition proxy_request ::
    "upstream \<Rightarrow> string \<Rightarrow> string \<Rightarrow> string \<Rightarrow> string \<Rightarrow> (string \<times> string) list \<Rightarrow> request_body \<Rightarrow> failure + forwarded" where
  "proxy_request upstream company_id nonce method endpoint query body =
     (case routes_match method endpoint of
        None \<Rightarrow> Inl (Refuse 403 ''this tracking route is not available through the gateway'')
      | Some (route, args) \<Rightarrow>
          (case request_message method query body of
             Inl e \<Rightarrow> Inl e
           | Inr message \<Rightarrow>
               if \<not> list_all (\<lambda>f. case od_get message f of None \<Rightarrow> True | Some v \<Rightarrow> is_JStr v) (request_name_fields endpoint)
               then Inl (Refuse 400 ''a name field must be a single string'')
               else (case fst (ensure_owns upstream company_id route args message no_lookups) of
                  Inl e \<Rightarrow> Inl e
                | Inr _ \<Rightarrow>
                    (case scope_request endpoint message company_id of
                       Inl _ \<Rightarrow> Inl Crash
                     | Inr scoped \<Rightarrow>
                         if endpoint = ''experiments/create''
                         then (case experiment_artifact_location company_id nonce of
                            Inl _ \<Rightarrow> Inl Crash
                          | Inr loc \<Rightarrow>
                              Inr \<lparr>fw_method = method, fw_endpoint = endpoint,
                                   fw_message = od_set scoped ''artifact_location'' (JStr loc)\<rparr>)
                         else Inr \<lparr>fw_method = method, fw_endpoint = endpoint, fw_message = scoped\<rparr>))))"

definition proxy ::
    "upstream \<Rightarrow> string \<Rightarrow> string \<Rightarrow> string \<Rightarrow> string \<Rightarrow> (string \<times> string) list \<Rightarrow> request_body \<Rightarrow> failure + int \<times> json" where
  "proxy upstream company_id nonce method endpoint query body =
     (case proxy_request upstream company_id nonce method endpoint query body of
        Inl e \<Rightarrow> Inl e
      | Inr fw \<Rightarrow>
          (case call_upstream upstream fw of
             (status, JObj d) \<Rightarrow>
               (case scope_response endpoint d company_id of Inl _ \<Rightarrow> Inl Crash | Inr out \<Rightarrow> Inr (status, JObj out))
           | (status, data) \<Rightarrow> Inr (status, data)))"

section \<open>The artifact plane\<close>

datatype object_action = Presign string string | DeleteObject string | ListFiles string

definition artifact_key :: "string \<Rightarrow> string option \<Rightarrow> failure + string" where
  "artifact_key company_id path =
     (case scope_artifact_key company_id path of
        Inl _ \<Rightarrow> Inl (Refuse 400 ''path is not a plain key'') | Inr k \<Rightarrow> Inr k)"

definition artifact_object :: "string \<Rightarrow> string \<Rightarrow> string \<Rightarrow> failure + object_action" where
  "artifact_object company_id method path =
     (case artifact_key company_id (Some path) of
        Inl e \<Rightarrow> Inl e
      | Inr key \<Rightarrow>
          (case (if method = ''PUT'' \<or> method = ''DELETE'' then is_upload_reserved company_id key else Inr False) of
             Inl _ \<Rightarrow> Inl Crash
           | Inr True \<Rightarrow> Inl (Refuse 403 ''uploaded artifacts are written only by the upload plane'')
           | Inr False \<Rightarrow>
               if method = ''DELETE'' then Inr (DeleteObject key)
               else Inr (Presign (if method = ''PUT'' then ''PUT'' else ''GET'') key)))"

definition artifact_list :: "string \<Rightarrow> string option \<Rightarrow> failure + object_action" where
  "artifact_list company_id path =
     (case artifact_key company_id path of Inl e \<Rightarrow> Inl e | Inr pre \<Rightarrow> Inr (ListFiles pre))"

section \<open>The memo answers as a direct lookup does\<close>

definition direct_experiment :: "upstream \<Rightarrow> string \<Rightarrow> json \<Rightarrow> failure + unit" where
  "direct_experiment upstream company_id i =
     (if \<not> truthy i then Inl cross_experiment
      else (case experiment_verdict upstream company_id (py_str i) of
         Inl e \<Rightarrow> Inl e | Inr v \<Rightarrow> if v then Inr () else Inl cross_experiment))"

definition verdict_of :: "upstream \<Rightarrow> string \<Rightarrow> failure + json \<Rightarrow> failure + bool" where
  "verdict_of upstream company_id found =
     (case found of
        Inl e \<Rightarrow> Inl e
      | Inr i \<Rightarrow>
          (case direct_experiment upstream company_id i of
             Inr _ \<Rightarrow> Inr True | Inl Crash \<Rightarrow> Inl Crash | Inl (Refuse _ _) \<Rightarrow> Inr False))"

definition direct :: "failure + bool \<Rightarrow> failure + unit" where
  "direct v = (case v of Inl e \<Rightarrow> Inl e | Inr b \<Rightarrow> if b then Inr () else Inl cross_experiment)"

definition direct_run :: "upstream \<Rightarrow> string \<Rightarrow> json \<Rightarrow> failure + unit" where
  "direct_run upstream company_id i = direct (verdict_of upstream company_id (run_experiment upstream (py_str i)))"

definition direct_model :: "upstream \<Rightarrow> string \<Rightarrow> json \<Rightarrow> failure + unit" where
  "direct_model upstream company_id i =
     (if \<not> truthy i then Inl (Refuse 403 ''cross-tenant or unknown logged model'')
      else direct (verdict_of upstream company_id (model_experiment upstream (py_str i))))"

definition lk_ok :: "upstream \<Rightarrow> string \<Rightarrow> lookups \<Rightarrow> bool" where
  "lk_ok upstream company_id L \<longleftrightarrow>
     (\<forall>k v. od_get (lk_experiments L) k = Some v \<longrightarrow> experiment_verdict upstream company_id k = Inr v) \<and>
     (\<forall>k v. od_get (lk_runs L) k = Some v \<longrightarrow> verdict_of upstream company_id (run_experiment upstream k) = Inr v) \<and>
     (\<forall>k v. od_get (lk_models L) k = Some v \<longrightarrow> verdict_of upstream company_id (model_experiment upstream k) = Inr v)"

text \<open>A check answers \<open>d\<close> whatever sound memo it starts from, and leaves the memo sound.\<close>

definition answers :: "upstream \<Rightarrow> string \<Rightarrow> (lookups \<Rightarrow> (failure + unit) \<times> lookups) \<Rightarrow> failure + unit \<Rightarrow> bool" where
  "answers upstream company_id c d \<longleftrightarrow>
     (\<forall>L. lk_ok upstream company_id L \<longrightarrow> fst (c L) = d \<and> lk_ok upstream company_id (snd (c L)))"

lemma answersI:
  "(\<And>L. lk_ok upstream company_id L \<Longrightarrow> fst (c L) = d \<and> lk_ok upstream company_id (snd (c L))) \<Longrightarrow>
    answers upstream company_id c d"
  by (simp add: answers_def)

lemma answersD:
  "answers upstream company_id c d \<Longrightarrow> lk_ok upstream company_id L \<Longrightarrow>
    \<exists>L'. c L = (d, L') \<and> lk_ok upstream company_id L'"
  by (cases "c L") (auto simp: answers_def)

lemma lk_ok_none: "lk_ok upstream company_id no_lookups"
  by (simp add: lk_ok_def no_lookups_def)

lemma lk_experiment_direct:
  "answers upstream company_id (\<lambda>L. lk_experiment upstream company_id L i) (direct_experiment upstream company_id i)"
proof (rule answersI)
  fix L assume ok: "lk_ok upstream company_id L"
  show "fst (lk_experiment upstream company_id L i) = direct_experiment upstream company_id i \<and>
      lk_ok upstream company_id (snd (lk_experiment upstream company_id L i))"
  proof (cases "od_get (lk_experiments L) (py_str i)")
    case None
    with ok show ?thesis
      by (auto simp: lk_experiment_def direct_experiment_def Let_def lk_ok_def split: sum.split)
  next
    case (Some v)
    with ok have "experiment_verdict upstream company_id (py_str i) = Inr v" by (simp add: lk_ok_def)
    with Some ok show ?thesis by (auto simp: lk_experiment_def direct_experiment_def Let_def)
  qed
qed

lemma lk_owned_direct:
  assumes "lk_ok upstream company_id L"
  shows "\<exists>L'. lk_owned upstream company_id L i = (verdict_of upstream company_id (Inr i), L') \<and>
    lk_ok upstream company_id L' \<and> lk_runs L' = lk_runs L \<and> lk_models L' = lk_models L"
proof -
  obtain L' where L': "lk_experiment upstream company_id L i = (direct_experiment upstream company_id i, L')"
      "lk_ok upstream company_id L'"
    using answersD [OF lk_experiment_direct assms] by blast
  moreover have "lk_runs L' = lk_runs L \<and> lk_models L' = lk_models L"
    using L'(1) by (auto simp: lk_experiment_def Let_def split: if_splits option.splits sum.splits)
  ultimately show ?thesis
    by (auto simp: lk_owned_def verdict_of_def split: sum.split failure.split)
qed

lemma lk_run_direct: "answers upstream company_id (\<lambda>L. lk_run upstream company_id L i) (direct_run upstream company_id i)"
proof (rule answersI)
  fix L assume ok: "lk_ok upstream company_id L"
  show "fst (lk_run upstream company_id L i) = direct_run upstream company_id i \<and>
      lk_ok upstream company_id (snd (lk_run upstream company_id L i))"
  proof (cases "od_get (lk_runs L) (py_str i)")
    case None
    show ?thesis
    proof (cases "run_experiment upstream (py_str i)")
      case (Inl e)
      with None ok show ?thesis by (simp add: lk_run_def direct_run_def direct_def verdict_of_def Let_def)
    next
      case (Inr e)
      obtain L' where "lk_owned upstream company_id L e = (verdict_of upstream company_id (Inr e), L')"
          "lk_ok upstream company_id L'" "lk_runs L' = lk_runs L"
        using lk_owned_direct [OF ok] by blast
      with None Inr ok show ?thesis
        by (auto simp: lk_run_def direct_run_def direct_def Let_def lk_ok_def split: sum.split)
    qed
  next
    case (Some v)
    with ok have "verdict_of upstream company_id (run_experiment upstream (py_str i)) = Inr v" by (simp add: lk_ok_def)
    with Some ok show ?thesis by (simp add: lk_run_def direct_run_def direct_def Let_def)
  qed
qed

lemma lk_logged_model_direct:
  "answers upstream company_id (\<lambda>L. lk_logged_model upstream company_id L i) (direct_model upstream company_id i)"
proof (rule answersI)
  fix L assume ok: "lk_ok upstream company_id L"
  show "fst (lk_logged_model upstream company_id L i) = direct_model upstream company_id i \<and>
      lk_ok upstream company_id (snd (lk_logged_model upstream company_id L i))"
  proof (cases "od_get (lk_models L) (py_str i)")
    case None
    show ?thesis
    proof (cases "model_experiment upstream (py_str i)")
      case (Inl e)
      with None ok show ?thesis by (simp add: lk_logged_model_def direct_model_def direct_def verdict_of_def Let_def)
    next
      case (Inr e)
      obtain L' where "lk_owned upstream company_id L e = (verdict_of upstream company_id (Inr e), L')"
          "lk_ok upstream company_id L'" "lk_models L' = lk_models L"
        using lk_owned_direct [OF ok] by blast
      with None Inr ok show ?thesis
        by (auto simp: lk_logged_model_def direct_model_def direct_def Let_def lk_ok_def split: sum.split)
    qed
  next
    case (Some v)
    with ok have "verdict_of upstream company_id (model_experiment upstream (py_str i)) = Inr v" by (simp add: lk_ok_def)
    with Some ok show ?thesis by (simp add: lk_logged_model_def direct_model_def direct_def Let_def)
  qed
qed

text \<open>Sequences of checks fail with the first direct failure.\<close>

fun first_failure :: "(failure + unit) list \<Rightarrow> failure + unit" where
  "first_failure [] = Inr ()"
| "first_failure (d # ds) = (case d of Inl e \<Rightarrow> Inl e | Inr _ \<Rightarrow> first_failure ds)"

lemma first_failure_ok: "first_failure ds = Inr () \<longleftrightarrow> (\<forall>d \<in> set ds. d = Inr ())"
  by (induction ds) (auto split: sum.split)

lemma lk_each_direct:
  assumes "\<And>i. answers upstream company_id (\<lambda>L. f L i) (d i)"
  shows "answers upstream company_id (\<lambda>L. lk_each f L ids) (first_failure (map d ids))"
proof (induction ids)
  case (Cons i ids)
  show ?case
  proof (rule answersI)
    fix L assume "lk_ok upstream company_id L"
    then obtain L' where "f L i = (d i, L')" "lk_ok upstream company_id L'" using answersD [OF assms] by blast
    with answersD [OF Cons.IH, of L']
    show "fst (lk_each f L (i # ids)) = first_failure (map d (i # ids)) \<and>
        lk_ok upstream company_id (snd (lk_each f L (i # ids)))"
      by (auto split: sum.split)
  qed
qed (simp add: answers_def)

lemma lk_required_direct:
  assumes "\<And>i. answers upstream company_id (\<lambda>L. f L i) (d i)"
  shows "answers upstream company_id (lk_required f detail ids)
    (if ids = [] then Inl (Refuse 403 detail) else first_failure (map d ids))"
  using lk_each_direct [OF assms, where ids = ids] by (auto simp: answers_def lk_required_def)

lemma run_checks_direct:
  assumes "list_all2 (answers upstream company_id) cs ds"
  shows "answers upstream company_id (run_checks cs) (first_failure ds)"
  using assms
proof (induction rule: list_all2_induct)
  case (Cons c cs d ds)
  show ?case
  proof (rule answersI)
    fix L assume "lk_ok upstream company_id L"
    then obtain L' where "c L = (d, L')" "lk_ok upstream company_id L'" using answersD [OF Cons(1)] by blast
    with answersD [OF Cons.IH, of L']
    show "fst (run_checks (c # cs) L) = first_failure (d # ds) \<and> lk_ok upstream company_id (snd (run_checks (c # cs) L))"
      by (auto split: sum.split)
  qed
qed (simp add: answers_def)

definition direct_source :: "upstream \<Rightarrow> string \<Rightarrow> json \<Rightarrow> failure + unit" where
  "direct_source upstream company_id source =
     (case (if truthy source then source else JStr []) of
        JStr s \<Rightarrow>
          (case source_kind_of s of
             SourceRun run \<Rightarrow> direct_run upstream company_id (JStr run)
           | SourceLoggedModel model \<Rightarrow> direct_model upstream company_id (JStr model)
           | SourceArtifact key \<Rightarrow>
               (case owns_artifact_key company_id (JStr key) of
                  Inl _ \<Rightarrow> Inl Crash
                | Inr b \<Rightarrow> if b then Inr () else Inl (Refuse 403 ''model version source is outside the tenant''))
           | SourceRefused reason \<Rightarrow> Inl (Refuse 403 reason))
      | _ \<Rightarrow> Inl Crash)"

lemma check_source_direct:
  "answers upstream company_id (check_source upstream company_id source) (direct_source upstream company_id source)"
proof -
  have const: "answers upstream company_id (\<lambda>L. (d, L)) d" for d by (simp add: answers_def)
  show ?thesis
    unfolding check_source_def [abs_def] direct_source_def
    by (auto intro: const lk_run_direct lk_logged_model_direct split: json.split source_kind.split sum.split)
qed

section \<open>What a forwarded call may reference\<close>

text \<open>
  Ownership, over the names of the experiments MLflow answers with: an experiment whose recorded name
  carries the tenant's prefix, a run or a logged model of such an experiment, a model source that is
  one of those or an artifact key under the tenant's prefix.
\<close>

definition experiment_owned :: "upstream \<Rightarrow> string \<Rightarrow> json \<Rightarrow> bool" where
  "experiment_owned upstream p i \<longleftrightarrow>
     truthy i \<and> (\<exists>n. named_experiment upstream (py_str i) = Inr (JStr (p @ n)))"

definition run_owned :: "upstream \<Rightarrow> string \<Rightarrow> json \<Rightarrow> bool" where
  "run_owned upstream p i \<longleftrightarrow> (\<exists>e. run_experiment upstream (py_str i) = Inr e \<and> experiment_owned upstream p e)"

definition model_owned :: "upstream \<Rightarrow> string \<Rightarrow> json \<Rightarrow> bool" where
  "model_owned upstream p i \<longleftrightarrow>
     truthy i \<and> (\<exists>e. model_experiment upstream (py_str i) = Inr e \<and> experiment_owned upstream p e)"

definition source_owned :: "upstream \<Rightarrow> string \<Rightarrow> string \<Rightarrow> json \<Rightarrow> bool" where
  "source_owned upstream company_id p source \<longleftrightarrow>
     (\<exists>s. source = JStr s \<and>
        (case source_kind_of s of
           SourceRun run \<Rightarrow> run_owned upstream p (JStr run)
         | SourceLoggedModel model \<Rightarrow> model_owned upstream p (JStr model)
         | SourceArtifact key \<Rightarrow> owns_artifact_key company_id (JStr key) = Inr True
         | SourceRefused _ \<Rightarrow> False))"

definition owned_refs :: "upstream \<Rightarrow> string \<Rightarrow> string \<Rightarrow> string list \<Rightarrow> string list \<Rightarrow> jobject \<Rightarrow> bool" where
  "owned_refs upstream company_id p rules args src \<longleftrightarrow>
     (''experiment'' \<in> set rules \<longrightarrow> experiment_ids src \<noteq> [] \<and> list_all (experiment_owned upstream p) (experiment_ids src)) \<and>
     (''run'' \<in> set rules \<longrightarrow> run_ids_of src \<noteq> []) \<and>
     (''run'' \<in> set rules \<or> ''run_opt'' \<in> set rules \<longrightarrow> list_all (run_owned upstream p) (run_ids_of src)) \<and>
     (''runs'' \<in> set rules \<longrightarrow> as_list (jget src ''run_ids'') \<noteq> [] \<and>
        list_all (run_owned upstream p) (as_list (jget src ''run_ids''))) \<and>
     (''logged_model'' \<in> set rules \<longrightarrow>
        model_owned upstream p (case args of [] \<Rightarrow> jget src ''model_id'' | a # _ \<Rightarrow> JStr a)) \<and>
     (''logged_model_opt'' \<in> set rules \<and> truthy (jget src ''model_id'') \<longrightarrow>
        model_owned upstream p (jget src ''model_id'')) \<and>
     (''mv_source'' \<in> set rules \<longrightarrow> source_owned upstream company_id p (jget src ''source''))"

lemma first_failure_append:
  "first_failure (ds @ ds') = Inr () \<longleftrightarrow> first_failure ds = Inr () \<and> first_failure ds' = Inr ()"
  by (auto simp: first_failure_ok)

lemma first_failure_if: "first_failure (if b then [d] else []) = Inr () \<longleftrightarrow> (b \<longrightarrow> d = Inr ())"
  by (simp add: first_failure_ok)

lemma required_ok:
  "(if ids = [] then Inl (Refuse 403 detail) else first_failure (map d ids)) = Inr () \<longleftrightarrow>
     ids \<noteq> [] \<and> list_all (\<lambda>i. d i = Inr ()) ids"
  by (auto simp: first_failure_ok list_all_iff)

lemma run_rule:
  "(a \<or> b \<and> ids \<noteq> [] \<longrightarrow> ids \<noteq> [] \<and> list_all P ids) \<and> r \<longleftrightarrow> (a \<longrightarrow> ids \<noteq> []) \<and> (a \<or> b \<longrightarrow> list_all P ids) \<and> r"
  by auto

lemma is_JStr_iff: "is_JStr v \<longleftrightarrow> (\<exists>n. v = JStr n)"
  by (cases v) (simp_all add: is_JStr_def)


lemma prefix_ne: "mlflow_name_prefix company_id = Inr p \<Longrightarrow> p \<noteq> []"
  by (auto simp: name_defs underscored_def res_map_def split: sum.splits)

lemma direct_experiment_ok:
  assumes p: "mlflow_name_prefix company_id = Inr p"
  shows "direct_experiment upstream company_id i = Inr () \<longleftrightarrow> experiment_owned upstream p i"
  using p prefix_ne [OF p]
  by (fastforce simp: direct_experiment_def experiment_owned_def experiment_verdict_def owns_name_def owned_name_def
      starts_with_iff split: sum.splits json.splits if_splits)

lemma verdict_of_True:
  assumes p: "mlflow_name_prefix company_id = Inr p"
  shows "verdict_of upstream company_id found = Inr True \<longleftrightarrow> (\<exists>i. found = Inr i \<and> experiment_owned upstream p i)"
  by (auto simp: verdict_of_def direct_experiment_ok [OF p, symmetric] split: sum.splits failure.splits)

lemma direct_ok: "direct v = Inr () \<longleftrightarrow> v = Inr True"
  by (auto simp: direct_def split: sum.splits)

lemma direct_run_ok:
  assumes p: "mlflow_name_prefix company_id = Inr p"
  shows "direct_run upstream company_id i = Inr () \<longleftrightarrow> run_owned upstream p i"
  by (simp add: direct_run_def direct_ok verdict_of_True [OF p] run_owned_def)

lemma direct_model_ok:
  assumes p: "mlflow_name_prefix company_id = Inr p"
  shows "direct_model upstream company_id i = Inr () \<longleftrightarrow> model_owned upstream p i"
  by (simp add: direct_model_def direct_ok verdict_of_True [OF p] model_owned_def)

lemma direct_source_ok:
  assumes p: "mlflow_name_prefix company_id = Inr p"
  shows "direct_source upstream company_id source = Inr () \<longleftrightarrow> source_owned upstream company_id p source"
proof -
  have "source_kind_of [] = SourceRefused source_refusal"
    by (simp add: source_kind_of_def RUNS_SOURCE_def LOGGED_MODEL_SOURCE_def py_strip_def starts_with_def)
  then show ?thesis
    by (cases source) (auto simp: direct_source_def source_owned_def direct_run_ok [OF p] direct_model_ok [OF p]
        split: source_kind.splits sum.splits if_splits)
qed

lemma ensure_owns_ok:
  assumes p: "mlflow_name_prefix company_id = Inr p"
  shows "fst (ensure_owns upstream company_id route args src no_lookups) = Inr () \<longleftrightarrow>
     owned_refs upstream company_id p (snd route) args src"
proof -
  let ?rules = "set (snd route)"
  let ?req = "\<lambda>d detail ids. if ids = [] then Inl (Refuse 403 detail) else first_failure (map d ids)"
  let ?ds =
    "(if ''experiment'' \<in> ?rules
      then [?req (direct_experiment upstream company_id) ''an experiment id is required'' (experiment_ids src)] else []) @
     (if ''run'' \<in> ?rules \<or> ''run_opt'' \<in> ?rules \<and> run_ids_of src \<noteq> []
      then [?req (direct_run upstream company_id) ''a run id is required'' (run_ids_of src)] else []) @
     (if ''runs'' \<in> ?rules
      then [?req (direct_run upstream company_id) ''run ids are required'' (as_list (jget src ''run_ids''))] else []) @
     (if ''logged_model'' \<in> ?rules
      then [direct_model upstream company_id (case args of [] \<Rightarrow> jget src ''model_id'' | a # _ \<Rightarrow> JStr a)] else []) @
     (if ''logged_model_opt'' \<in> ?rules \<and> truthy (jget src ''model_id'')
      then [direct_model upstream company_id (jget src ''model_id'')] else []) @
     (if ''mv_source'' \<in> ?rules then [direct_source upstream company_id (jget src ''source'')] else [])"
  have "answers upstream company_id (ensure_owns upstream company_id route args src) (first_failure ?ds)"
    unfolding ensure_owns_def Let_def
    by (intro run_checks_direct list_all2_appendI)
      (simp_all add: lk_required_direct lk_experiment_direct lk_run_direct lk_logged_model_direct check_source_direct)
  then have "fst (ensure_owns upstream company_id route args src no_lookups) = first_failure ?ds"
    using lk_ok_none by (simp add: answers_def)
  then show ?thesis
    unfolding owned_refs_def
    by (simp only: first_failure_append first_failure_if required_ok direct_experiment_ok [OF p] direct_run_ok [OF p]
        direct_model_ok [OF p] direct_source_ok [OF p] run_rule)
qed


text \<open>
  A server with one experiment of the tenant, number 7, and a run \<open>r\<close> of it.
\<close>

definition demo_upstream :: upstream where
  "demo_upstream method endpoint params body =
     (if endpoint = ''experiments/get''
      then (200, JObj [(''experiment'', JObj [(''name'', JStr (''tenant_'' @ uscore uuid_a @ ''.e''))])])
      else if endpoint = ''runs/get''
      then (200, JObj [(''run'', JObj [(''info'', JObj [(''experiment_id'', JStr ''7'')])])])
      else (404, JNull))"


section \<open>The artifact plane stays in the tenant\<close>

definition action_key :: "object_action \<Rightarrow> string" where
  "action_key a = (case a of Presign _ k \<Rightarrow> k | DeleteObject k \<Rightarrow> k | ListFiles k \<Rightarrow> k)"

definition action_writes :: "object_action \<Rightarrow> bool" where
  "action_writes a = (case a of Presign verb _ \<Rightarrow> verb = ''PUT'' | DeleteObject _ \<Rightarrow> True | ListFiles _ \<Rightarrow> False)"

lemma lstrip_prefix:
  assumes "mlflow_artifact_prefix company_id = Inr p"
  shows "lstrip_chars ''/'' (p @ r) = p @ r" "p \<noteq> []"
proof -
  obtain t where "p = ''tenant_'' @ t"
    using assms by (auto simp: name_defs underscored_def res_map_def split: sum.splits)
  then show "lstrip_chars ''/'' (p @ r) = p @ r" "p \<noteq> []" by (simp_all add: lstrip_chars_def)
qed

text \<open>
  C24. Whatever path a kernel names, an object-store action of the artifact plane is on a key under its
  own tenant's prefix and under no other tenant's, and an action that writes (an upload URL or a
  deletion) is never on a key of the admitted uploads or of the staging area's name inside the prefix.
\<close>

theorem artifact_plane_confined:
  assumes "artifact_object company_id method path = Inr a \<or> artifact_list company_id list_path = Inr a"
    and p: "mlflow_artifact_prefix company_id = Inr p" and q: "mlflow_artifact_prefix other = Inr q"
  shows "starts_with (action_key a) p \<and>
    (starts_with (action_key a) q \<longrightarrow> canonical_company_id company_id = canonical_company_id other) \<and>
    (action_writes a \<longrightarrow> \<not> starts_with (action_key a) (p @ ''uploads/'') \<and>
       \<not> starts_with (action_key a) (p @ ''_upload-staging/''))"
proof -
  from assms(1) obtain path' where k: "scope_key p path' = Inr (action_key a)"
    by (auto simp: artifact_object_def artifact_list_def artifact_key_def scope_artifact_key_def p action_key_def
        split: sum.splits if_splits bool.splits)
  have own: "starts_with (action_key a) p" by (rule artifact_keys.scope_key_own [OF k])
  moreover have "canonical_company_id company_id = canonical_company_id other" if "starts_with (action_key a) q"
    using artifact_keys.disjoint_prefixes [OF p q own that] .
  moreover have "\<not> starts_with (action_key a) (p @ root)"
    if w: "action_writes a" and root: "root \<in> {''uploads/'', ''_upload-staging/''}" for root
  proof
    assume s: "starts_with (action_key a) (p @ root)"
    then obtain r where r: "action_key a = p @ root @ r" by (auto simp: starts_with_iff)
    have "is_upload_reserved company_id (action_key a) = Inr False"
      using assms(1) w
      by (auto simp: artifact_object_def artifact_list_def action_key_def action_writes_def
          split: sum.splits if_splits bool.splits)
    moreover have "is_upload_reserved company_id (action_key a) = Inr True"
      using p root lstrip_prefix(1) [OF p, of "root @ r"] lstrip_prefix(2) [OF p]
      by (auto simp: r is_upload_reserved_def owned_name_def ADMITTED_ROOT_def STAGING_ROOT_def split_on_append
          rstrip_chars_def Let_def)
    ultimately show False by simp
  qed
  ultimately show ?thesis by simp
qed

text \<open>A kernel's own artifact, and one of the uploads.\<close>

theorem artifact_plane_confined_witness:
  "artifact_object uuid_a ''PUT'' ''1/model'' = Inr (Presign ''PUT'' (''tenant_'' @ uscore uuid_a @ ''/1/model'')) \<and>
   \<not> starts_with (''tenant_'' @ uscore uuid_a @ ''/1/model'') (''tenant_'' @ uscore uuid_a @ ''/uploads/'') \<and>
   artifact_object uuid_a ''DELETE'' ''uploads/x'' \<noteq> Inr (DeleteObject (''tenant_'' @ uscore uuid_a @ ''/uploads/x''))"
proof -
  let ?p = "''tenant_'' @ uscore uuid_a @ ''/''"
  have p: "mlflow_artifact_prefix uuid_a = Inr ?p" by (simp add: name_defs underscored_Inr)
  have k: "artifact_object uuid_a ''PUT'' ''1/model'' = Inr (Presign ''PUT'' (?p @ ''1/model''))"
    by (simp add: artifact_object_def artifact_key_def scope_artifact_key_def p scope_key_def lstrip_chars_def
        rstrip_chars_def is_plain_key_def is_control_def ord_def of_char_def starts_with_def is_upload_reserved_def
        owned_name_def ADMITTED_ROOT_def STAGING_ROOT_def Let_def)
  from artifact_plane_confined [OF disjI1 [OF k] p p]
  have 1: "\<not> starts_with (?p @ ''1/model'') (?p @ ''uploads/'')" by (simp add: action_key_def action_writes_def)
  have 2: "artifact_object uuid_a ''DELETE'' ''uploads/x'' \<noteq> Inr (DeleteObject (?p @ ''uploads/x''))"
  proof
    assume d: "artifact_object uuid_a ''DELETE'' ''uploads/x'' = Inr (DeleteObject (?p @ ''uploads/x''))"
    from artifact_plane_confined [OF disjI1 [OF d] p p]
    have "\<not> starts_with (?p @ ''uploads/x'') (?p @ ''uploads/'')" by (simp add: action_key_def action_writes_def)
    then show False by (simp add: starts_with_def)
  qed
  from k 1 2 show ?thesis by simp
qed

end
