(* ===== verification/Uploads.thy ===== *)
theory Uploads
  imports Tracking_Gateway Capabilities "HOL-Library.Word" "HOL-Library.List_Lexorder" "HOL-Library.Char_ord"
begin

text \<open>
  The upload plane of the tracking gateway: the keys of the staging area
  (\<open>services/notebook_tracking_gateway/staging.py\<close>), the structural judgement of an artifact
  (\<open>admission.py\<close>) and the endpoints that stage and commit an upload (\<open>gateway.py\<close>).

  Parameters: the YAML reader (\<open>safe_load\<close>) and the decoding of bytes to text; the object store, as the
  record \<open>objects\<close> with the laws of the locale \<open>object_store\<close>; \<open>seen\<close>, the store as it was when each
  member was read; \<open>env\<close>, what holders of still valid staging URLs do before each copy.

  Shown: what a commit admits is, byte for byte, what was judged, and a commit that does not admit
  leaves nothing new in the tenant's prefix.
\<close>

type_synonym byte = "8 word"

section \<open>Keys of the staging area\<close>

definition MAX_MEMBERS :: nat where "MAX_MEMBERS = 64"

definition is_alnum :: "char \<Rightarrow> bool" where
  "is_alnum c \<longleftrightarrow> (48 \<le> ord c \<and> ord c \<le> 57) \<or> (65 \<le> ord c \<and> ord c \<le> 90) \<or> (97 \<le> ord c \<and> ord c \<le> 122)"

text \<open>\<open>_UPLOAD_ID_RE\<close>: its \<open>$\<close> also matches before a final line feed.\<close>

definition UPLOAD_ID_match :: "string \<Rightarrow> bool" where
  "UPLOAD_ID_match v \<longleftrightarrow>
     (let w = (if ends_with v [CHR 0x0A] then butlast v else v)
      in 16 \<le> length w \<and> length w \<le> 64 \<and> list_all (\<lambda>c. is_alnum c \<or> c = CHR ''_'' \<or> c = CHR ''-'') w)"

definition is_upload_id :: "string \<Rightarrow> bool" where
  "is_upload_id v \<longleftrightarrow> v \<noteq> [] \<and> UPLOAD_ID_match v"

definition safe_member_path :: "json \<Rightarrow> string option" where
  "safe_member_path name =
     (case name of
        JStr n \<Rightarrow>
          if n = [] \<or> 512 < length n then None
          else if starts_with n ''/'' \<or> starts_with n [CHR 0x5C] then None
          else if CHR 0x5C \<in> set n then None
          else if list_ex (\<lambda>c. ord c < 32 \<or> ord c = 127) n then None
          else if list_ex (\<lambda>seg. seg \<in> {[], ''.'', ''..''}) (split_on (CHR ''/'') n) then None
          else Some (join_on ''/'' (split_on (CHR ''/'') n))
      | _ \<Rightarrow> None)"

definition signs_for_the_edge :: "string \<Rightarrow> bool" where
  "signs_for_the_edge key \<longleftrightarrow> starts_with (lstrip_chars ''/'' key) STAGING_ROOT"

definition staging_prefix :: "string \<Rightarrow> string \<Rightarrow> string" where
  "staging_prefix token upload_id = STAGING_ROOT @ token @ ''/'' @ upload_id @ ''/''"

definition staging_key :: "string \<Rightarrow> string \<Rightarrow> string \<Rightarrow> string" where
  "staging_key token upload_id member = STAGING_ROOT @ token @ ''/'' @ upload_id @ ''/'' @ member"

definition admitted_key :: "string \<Rightarrow> string \<Rightarrow> string \<Rightarrow> string" where
  "admitted_key artifact_prefix upload_id member = artifact_prefix @ ADMITTED_ROOT @ upload_id @ ''/'' @ member"

definition admitted_uri :: "string \<Rightarrow> string \<Rightarrow> string \<Rightarrow> string" where
  "admitted_uri bucket artifact_prefix upload_id =
     ''s3://'' @ bucket @ ''/'' @ artifact_prefix @ ADMITTED_ROOT @ upload_id"

section \<open>The judgement\<close>

text \<open>
  A parsed manifest. A mapping's key is the text \<open>str(key)\<close>, None for a null key; scalars other than
  text matter to no rule.
\<close>

datatype yaml = YStr string | YList "yaml list" | YMap "(string option \<times> yaml) list" | YScalar

definition EXECUTABLE_SERIALISATIONS :: "string list" where
  "EXECUTABLE_SERIALISATIONS = [''pickle'', ''cloudpickle'', ''dill'', ''joblib'']"

definition EXECUTABLE_MARKER_KEYS :: "string list" where
  "EXECUTABLE_MARKER_KEYS = [''cloudpickle_version'', ''python_model'']"

definition MANIFEST_NAME :: string where "MANIFEST_NAME = ''MLmodel''"

datatype Verdict = Admitted | Refused string

definition parse_manifest :: "(string \<Rightarrow> yaml option) \<Rightarrow> string \<Rightarrow> (string option \<times> yaml) list option" where
  "parse_manifest safe_load t = (case safe_load t of Some (YMap d) \<Rightarrow> Some d | _ \<Rightarrow> None)"

fun walk :: "yaml \<Rightarrow> (string option \<times> yaml) list" where
  "walk (YMap d) = concat (map (\<lambda>(k, v). (k, v) # walk v) d)"
| "walk (YList xs) = concat (map walk xs)"
| "walk (YStr s) = []"
| "walk YScalar = []"

definition declares :: "string option \<times> yaml \<Rightarrow> string option" where
  "declares kv =
     (case kv of (key, v) \<Rightarrow>
        if key \<in> Some ` set EXECUTABLE_MARKER_KEYS
        then Some (''manifest declares '' @ [CHR 0x27] @ the key @ [CHR 0x27] @
               '', which is an author-supplied object stream'')
        else (case v of
           YStr s \<Rightarrow>
             if py_lower (py_strip s) \<in> set EXECUTABLE_SERIALISATIONS
             then Some (''manifest declares '' @ [CHR 0x27] @ (case key of None \<Rightarrow> ''None'' | Some k \<Rightarrow> k) @ '': '' @ s @
                    [CHR 0x27] @ '', an object serialisation whose load path can execute author-supplied code'')
             else None
         | _ \<Rightarrow> None))"

fun first_some :: "('a \<Rightarrow> 'b option) \<Rightarrow> 'a list \<Rightarrow> 'b option" where
  "first_some f [] = None"
| "first_some f (x # xs) = (case f x of Some y \<Rightarrow> Some y | None \<Rightarrow> first_some f xs)"

definition yget :: "(string option \<times> yaml) list \<Rightarrow> string \<Rightarrow> yaml option" where
  "yget d k = map_of d (Some k)"

definition declared_executable_serialisation :: "(string option \<times> yaml) list \<Rightarrow> string option" where
  "declared_executable_serialisation manifest =
     first_some declares (walk (case yget manifest ''flavors'' of None \<Rightarrow> YMap [] | Some v \<Rightarrow> v))"

definition is_executable_object_stream :: "byte list \<Rightarrow> bool" where
  "is_executable_object_stream head \<longleftrightarrow>
     2 \<le> length head \<and> head ! 0 = 0x80 \<and> 2 \<le> unat (head ! 1) \<and> unat (head ! 1) < 6"

definition evaluate_artifact ::
    "(string \<Rightarrow> yaml option) \<Rightarrow> string option \<Rightarrow> (string \<times> byte list) list \<Rightarrow> Verdict" where
  "evaluate_artifact safe_load manifest_text files =
     (case manifest_text of
        None \<Rightarrow> Refused ''artifact has no MLmodel manifest, so what it is cannot be established''
      | Some t \<Rightarrow>
          if t = [] then Refused ''artifact has no MLmodel manifest, so what it is cannot be established''
          else (case parse_manifest safe_load t of
             None \<Rightarrow> Refused ''MLmodel is not a readable mapping''
           | Some manifest \<Rightarrow>
               if \<not> (\<exists>d. yget manifest ''flavors'' = Some (YMap d) \<and> d \<noteq> [])
               then Refused ''MLmodel declares no flavors, so what it is cannot be established''
               else (case declared_executable_serialisation manifest of
                  Some reason \<Rightarrow> Refused reason
                | None \<Rightarrow>
                    (case List.find (\<lambda>(path, head). is_executable_object_stream head) files of
                       Some (path, head) \<Rightarrow>
                         Refused ([CHR 0x27] @ path @ [CHR 0x27] @
                           '' is an author-supplied object stream, whatever the manifest says it is'')
                     | None \<Rightarrow> Admitted))))"

section \<open>The object store\<close>

text \<open>What a key holds: its bytes and their version, the ETag.\<close>

record 'o objects =
  obj :: "'o \<Rightarrow> string \<Rightarrow> (byte list \<times> string) option"
  obj_keys :: "'o \<Rightarrow> string \<Rightarrow> string list"
  obj_copy :: "'o \<Rightarrow> string \<Rightarrow> string \<Rightarrow> string \<Rightarrow> bool \<times> 'o"
  obj_delete :: "'o \<Rightarrow> string \<Rightarrow> 'o"

text \<open>
  \<open>head\<close> of the live adapter: a ranged read. An object without bytes has no range to read: the store
  answers \<open>InvalidRange\<close> and the adapter None.
\<close>

definition obj_head :: "'o objects \<Rightarrow> 'o \<Rightarrow> string \<Rightarrow> nat \<Rightarrow> (byte list \<times> string) option" where
  "obj_head Ob st key n =
     (case obj Ob st key of
        None \<Rightarrow> None
      | Some (bytes, etag) \<Rightarrow> if bytes = [] then None else Some (take n bytes, etag))"

locale object_store =
  fixes Ob :: "'o objects"
  assumes keys_listed: "k \<in> set (obj_keys Ob st p) \<longleftrightarrow> starts_with k p \<and> obj Ob st k \<noteq> None"
    and copy_fails: "\<not> (\<exists>b. obj Ob st src = Some (b, e)) \<Longrightarrow> obj_copy Ob st src dst e = (False, st)"
    and copy_copies: "obj Ob st src = Some (b, e) \<Longrightarrow> \<exists>st' e'. obj_copy Ob st src dst e = (True, st') \<and>
      (\<forall>k. obj Ob st' k = (if k = dst then Some (b, e') else obj Ob st k))"
    and deleted: "obj Ob (obj_delete Ob st k) k' = (if k' = k then None else obj Ob st k')"
    and etag_names: "obj Ob st k = Some (b, e) \<Longrightarrow> obj Ob st' k = Some (b', e) \<Longrightarrow> b = b'"

section \<open>Staging an upload\<close>

fun stage_members :: "json list \<Rightarrow> (string, json) od \<Rightarrow> failure + (string, json) od" where
  "stage_members [] safe = Inr safe"
| "stage_members (raw # members) safe =
     (case safe_member_path raw of
        None \<Rightarrow> Inl (Refuse 400 (''unusable file path: '' @ py_repr raw))
      | Some member \<Rightarrow> stage_members members (od_set safe member raw))"

definition upload_stage ::
    "string \<Rightarrow> string \<Rightarrow> request_body \<Rightarrow> failure + string \<times> (string \<times> object_action) list" where
  "upload_stage company_id upload_id body =
     (case json_body body of
        Inl e \<Rightarrow> Inl e
      | Inr d \<Rightarrow>
          (case jget d ''files'' of
             JArr members \<Rightarrow>
               if members = [] then Inl (Refuse 400 ''an upload must name its files'')
               else if MAX_MEMBERS < length members then Inl (Refuse 400 ''an artifact may carry at most 64 files'')
               else (case stage_members members [] of
                  Inl e \<Rightarrow> Inl e
                | Inr safe \<Rightarrow>
                    if od_get safe MANIFEST_NAME = None
                    then Inl (Refuse 400 ''an artifact must carry its MLmodel manifest'')
                    else (case tenant_token company_id of
                       Inl _ \<Rightarrow> Inl Crash
                     | Inr token \<Rightarrow>
                         Inr (upload_id,
                           map (\<lambda>m. (m, Presign ''PUT'' (staging_key token upload_id m))) (map fst safe))))
           | _ \<Rightarrow> Inl (Refuse 400 ''an upload must name its files'')))"

section \<open>Committing an upload\<close>

definition HEAD_BYTES :: nat where "HEAD_BYTES = 16"
definition MANIFEST_MAX_BYTES :: nat where "MANIFEST_MAX_BYTES = 256 * 1024"

definition discard :: "'o objects \<Rightarrow> 'o \<Rightarrow> string list \<Rightarrow> 'o" where
  "discard Ob st keys = foldl (obj_delete Ob) st keys"

fun promote ::
    "'o objects \<Rightarrow> (string \<Rightarrow> 'o \<Rightarrow> 'o) \<Rightarrow> (string \<Rightarrow> (byte list \<times> string) option) \<Rightarrow> (string \<Rightarrow> string) \<Rightarrow>
      string list \<Rightarrow> string list \<Rightarrow> string list \<Rightarrow> 'o \<Rightarrow> bool \<times> 'o" where
  "promote Ob env reads dst all_keys admitted [] st = (True, discard Ob st all_keys)"
| "promote Ob env reads dst all_keys admitted (key # keys) st =
     (let st1 = env key st
      in case reads key of
           None \<Rightarrow> (False, discard Ob st1 (admitted @ all_keys))
         | Some (head, etag) \<Rightarrow>
             (case obj_copy Ob st1 key (dst key) etag of
                (False, st2) \<Rightarrow> (False, discard Ob st2 (admitted @ all_keys))
              | (True, st2) \<Rightarrow> promote Ob env reads dst all_keys (admitted @ [dst key]) keys st2))"

record commit_answer =
  ca_upload_id :: string
  ca_artifact_uri :: string
  ca_files :: "string list"

definition member_of :: "string \<Rightarrow> string \<Rightarrow> string" where
  "member_of pre key = (case owned_name pre (JStr key) of None \<Rightarrow> [] | Some m \<Rightarrow> m)"

text \<open>One read per member: its opening bytes, or the whole manifest and one byte more than it may have.\<close>

definition commit_reads :: "'o objects \<Rightarrow> (string \<Rightarrow> 'o) \<Rightarrow> string \<Rightarrow> string \<Rightarrow> (byte list \<times> string) option" where
  "commit_reads Ob seen pre key =
     obj_head Ob (seen key) key (if key = pre @ MANIFEST_NAME then MANIFEST_MAX_BYTES + 1 else HEAD_BYTES)"

definition judge_and_promote ::
    "'o objects \<Rightarrow> (byte list \<Rightarrow> string) \<Rightarrow> (string \<Rightarrow> yaml option) \<Rightarrow> (string \<Rightarrow> 'o) \<Rightarrow> (string \<Rightarrow> 'o \<Rightarrow> 'o) \<Rightarrow> string \<Rightarrow>
      string \<Rightarrow> string \<Rightarrow> string \<Rightarrow> string list \<Rightarrow> 'o \<Rightarrow> (failure + commit_answer) \<times> 'o" where
  "judge_and_promote Ob decode safe_load seen env bucket artifact_prefix pre upload_id keys st =
     (let manifest_key = pre @ MANIFEST_NAME;
          reads = commit_reads Ob seen pre;
          manifest = (if manifest_key \<in> set keys then reads manifest_key else None);
          heads = map (\<lambda>key. (member_of pre key, take HEAD_BYTES (case reads key of None \<Rightarrow> [] | Some r \<Rightarrow> fst r))) keys
      in if (case manifest of None \<Rightarrow> False | Some m \<Rightarrow> MANIFEST_MAX_BYTES < length (fst m))
         then (Inl (Refuse 422 ''the MLmodel manifest is larger than 262144 bytes''), discard Ob st keys)
         else (case evaluate_artifact safe_load (map_option (\<lambda>m. decode (fst m)) manifest) heads of
            Refused reason \<Rightarrow> (Inl (Refuse 422 reason), discard Ob st keys)
          | Admitted \<Rightarrow>
              (case promote Ob env reads (\<lambda>key. admitted_key artifact_prefix upload_id (member_of pre key)) keys [] keys st of
                 (False, st1) \<Rightarrow> (Inl (Refuse 409 ''the upload changed while it was being judged''), st1)
               | (True, st1) \<Rightarrow>
                   (Inr \<lparr>ca_upload_id = upload_id, ca_artifact_uri = admitted_uri bucket artifact_prefix upload_id,
                         ca_files = sort (map fst heads)\<rparr>, st1))))"

text \<open>The handle is consumed by one caller only, and the consumption is recorded with the claim.\<close>

definition user_text :: "json \<Rightarrow> string option" where
  "user_text u = (case u of JNull \<Rightarrow> None | _ \<Rightarrow> Some (py_str u))"

definition tracking_record_resolution ::
    "(string \<Rightarrow> string) \<Rightarrow> 's redis \<Rightarrow> 's \<Rightarrow> rat \<Rightarrow> datetime \<Rightarrow> string \<Rightarrow> TrackingBinding outcome \<Rightarrow>
      string option \<Rightarrow> 's result" where
  "tracking_record_resolution sha256hex R s t now handle out src =
     (case out of
        (Some b, _, _) \<Rightarrow> record_first_use ''tracking_gateway'' R s t now (user_text (tb_user b)) (tb_company_id b)
          (tb_audience b) (tb_handle_id b)
      | (None, reason, facts) \<Rightarrow> record_refused ''tracking_gateway'' sha256hex R s t now handle reason facts src)"

definition consume_upload_handle ::
    "'s redis \<Rightarrow> 's \<Rightarrow> rat \<Rightarrow> datetime \<Rightarrow> string \<Rightarrow> TrackingBinding \<Rightarrow> (bool \<times> 's) result" where
  "consume_upload_handle R s t now handle b =
     (case audit_event ''consumed'' ''tracking_gateway'' now
        (no_args\<lparr>ev_user := user_text (tb_user b), ev_company := Some (tb_company_id b),
                 ev_audience := Some (tb_audience b), ev_handle := tb_handle_id b\<rparr>) of
        Inl e \<Rightarrow> Inl e
      | Inr f \<Rightarrow>
          (case delete_recorded_args (cap_key handle) f of
             Inl e \<Rightarrow> Inl e
           | Inr k \<Rightarrow>
               (case DELETE_RECORDED_SCRIPT R s t k STREAM_MAXLEN f of (n, s1) \<Rightarrow> Inr (n = 1, s1))))"

definition consumed_facts :: "TrackingBinding \<Rightarrow> facts" where
  "consumed_facts b =
     filter (\<lambda>(k, v). v \<noteq> [])
       ((if truthy (tb_user b) then [(''user'', py_str (tb_user b))] else []) @
        [(''company_id'', tb_company_id b), (''audience'', tb_audience b)] @
        (case tb_handle_id b of None \<Rightarrow> [] | Some h \<Rightarrow> [(''handle_id'', h)]))"

definition upload_commit ::
    "'o objects \<Rightarrow> 's redis \<Rightarrow> (string \<Rightarrow> string) \<Rightarrow> (byte list \<Rightarrow> string) \<Rightarrow> (string \<Rightarrow> yaml option) \<Rightarrow> (string \<Rightarrow> 'o) \<Rightarrow>
      (string \<Rightarrow> 'o \<Rightarrow> 'o) \<Rightarrow> string \<Rightarrow> 's \<Rightarrow> rat \<Rightarrow> datetime \<Rightarrow> 'o \<Rightarrow> TrackingBinding \<Rightarrow> string \<Rightarrow> request_body \<Rightarrow>
      (failure + commit_answer) \<times> 's \<times> 'o" where
  "upload_commit Ob R sha256hex decode safe_load seen env bucket s t now st b handle body =
     (case json_body body of
        Inl e \<Rightarrow> (Inl e, s, st)
      | Inr d \<Rightarrow>
          (case jget d ''upload_id'' of
             JStr upload_id \<Rightarrow>
               if \<not> is_upload_id upload_id then (Inl (Refuse 400 ''unknown upload''), s, st)
               else (case (tenant_token (tb_company_id b), mlflow_artifact_prefix (tb_company_id b)) of
                  (Inr token, Inr artifact_prefix) \<Rightarrow>
                    (let pre = staging_prefix token upload_id;
                         keys = filter (\<lambda>key. member_of pre key \<noteq> []) (obj_keys Ob st pre)
                     in if keys = [] then (Inl (Refuse 404 ''nothing staged for this upload''), s, st)
                        else (case consume_upload_handle R s t now handle b of
                           Inl _ \<Rightarrow> (Inl Crash, s, st)
                         | Inr (False, s1) \<Rightarrow>
                             (case tracking_record_resolution sha256hex R s1 t now handle
                                     (None, Some ''already_consumed'', consumed_facts b) None of
                                Inl _ \<Rightarrow> (Inl Crash, s1, st)
                              | Inr s2 \<Rightarrow> (Inl (Refuse 401 ''upload capability refused''), s2, st))
                         | Inr (True, s1) \<Rightarrow>
                             (case judge_and_promote Ob decode safe_load seen env bucket artifact_prefix pre upload_id keys st of
                                (r, st1) \<Rightarrow> (r, s1, st1))))
                | _ \<Rightarrow> (Inl Crash, s, st))
           | _ \<Rightarrow> (Inl (Refuse 400 ''unknown upload''), s, st)))"

section \<open>What is admitted is what was judged\<close>

abbreviation staged :: "string \<Rightarrow> bool" where
  "staged k \<equiv> starts_with k STAGING_ROOT"

lemma stream_head: "2 \<le> n \<Longrightarrow> is_executable_object_stream (take n b) = is_executable_object_stream b"
  by (auto simp: is_executable_object_stream_def)

context object_store
begin

lemma discard_obj: "obj Ob (discard Ob st ks) k = (if k \<in> set ks then None else obj Ob st k)"
  unfolding discard_def by (induction ks arbitrary: st) (auto simp: deleted)

lemma promote_True:
  assumes "promote Ob env reads dst all_keys admitted keys st = (True, st')"
    and env: "\<And>key st k. \<not> staged k \<Longrightarrow> obj Ob (env key st) k = obj Ob st k"
    and dst: "\<And>k. k \<in> set keys \<Longrightarrow> \<not> staged (dst k)" "inj_on dst (set keys)" "distinct keys"
    and all: "\<And>k. k \<in> set all_keys \<Longrightarrow> staged k"
  shows "(\<forall>k \<in> set keys. \<exists>h b e e' st1. reads k = Some (h, e) \<and> obj Ob st1 k = Some (b, e) \<and> obj Ob st' (dst k) = Some (b, e')) \<and>
    (\<forall>d. \<not> staged d \<and> d \<notin> dst ` set keys \<longrightarrow> obj Ob st' d = obj Ob st d)"
  using assms(1) dst
proof (induction keys arbitrary: admitted st)
  case Nil
  then show ?case using all by (auto simp: discard_obj)
next
  case (Cons key keys)
  let ?st1 = "env key st"
  from Cons.prems(1) obtain h e st2 where r: "reads key = Some (h, e)" "obj_copy Ob ?st1 key (dst key) e = (True, st2)"
      "promote Ob env reads dst all_keys (admitted @ [dst key]) keys st2 = (True, st')"
    by (auto simp: Let_def split: option.splits prod.splits bool.splits)
  then obtain b where b: "obj Ob ?st1 key = Some (b, e)" using copy_fails by fastforce
  then obtain e' where st2: "\<And>k. obj Ob st2 k = (if k = dst key then Some (b, e') else obj Ob ?st1 k)"
    using copy_copies [OF b, of "dst key"] r(2) by auto
  have IH: "(\<forall>k \<in> set keys. \<exists>h b e e' st1. reads k = Some (h, e) \<and> obj Ob st1 k = Some (b, e) \<and> obj Ob st' (dst k) = Some (b, e')) \<and>
    (\<forall>d. \<not> staged d \<and> d \<notin> dst ` set keys \<longrightarrow> obj Ob st' d = obj Ob st2 d)"
    using Cons.IH [OF r(3)] Cons.prems by simp
  have "dst key \<notin> dst ` set keys" using Cons.prems(3,4) by auto
  then have "obj Ob st' (dst key) = Some (b, e')" using IH st2 Cons.prems(2) by simp
  with r(1) b IH have "\<forall>k \<in> set (key # keys). \<exists>h b e e' st1. reads k = Some (h, e) \<and> obj Ob st1 k = Some (b, e) \<and>
      obj Ob st' (dst k) = Some (b, e')"
    by auto
  moreover have "obj Ob st' d = obj Ob st d" if "\<not> staged d" "d \<notin> dst ` set (key # keys)" for d
    using IH st2 env that by auto
  ultimately show ?case by blast
qed

lemma promote_False:
  assumes "promote Ob env reads dst all_keys admitted keys st = (False, st')"
    and env: "\<And>key st k. \<not> staged k \<Longrightarrow> obj Ob (env key st) k = obj Ob st k"
    and "\<not> staged d"
  shows "obj Ob st' d = None \<or> obj Ob st' d = obj Ob st d \<and> d \<notin> set admitted"
  using assms(1)
proof (induction keys arbitrary: admitted st)
  case (Cons key keys)
  let ?st1 = "env key st"
  have st1: "obj Ob ?st1 d = obj Ob st d" using env assms(3) by simp
  show ?case
  proof (cases "\<exists>h e b. reads key = Some (h, e) \<and> obj Ob ?st1 key = Some (b, e)")
    case True
    then obtain h e b where r: "reads key = Some (h, e)" and b: "obj Ob ?st1 key = Some (b, e)" by blast
    obtain st2 e' where c: "obj_copy Ob ?st1 key (dst key) e = (True, st2)"
        "\<And>k. obj Ob st2 k = (if k = dst key then Some (b, e') else obj Ob ?st1 k)"
      using copy_copies [OF b] by metis
    then have "promote Ob env reads dst all_keys (admitted @ [dst key]) keys st2 = (False, st')"
      using Cons.prems r by simp
    from Cons.IH [OF this] c(2) st1 show ?thesis by auto
  next
    case False
    then have "st' = discard Ob ?st1 (admitted @ all_keys)"
      using Cons.prems copy_fails [of ?st1 key] by (auto simp: Let_def split: option.splits)
    then show ?thesis using st1 by (auto simp: discard_obj)
  qed
qed simp

lemma promote_removes_staged:
  assumes "promote Ob env reads dst all_keys admitted keys st = (ok, st')" "key \<in> set all_keys"
  shows "obj Ob st' key = None"
  using assms(1)
proof (induction keys arbitrary: admitted st)
  case Nil
  then show ?case using assms(2) by (auto simp: discard_obj)
next
  case (Cons k keys)
  then show ?case using assms(2) by (auto simp: Let_def discard_obj split: option.splits prod.splits bool.splits)
qed

end

text \<open>The parts of a commit that reached the judgement.\<close>

lemma upload_commit_judged:
  assumes "upload_commit Ob R sha256hex decode safe_load seen env bucket s t now st b handle body = (r, s', st')"
    and "\<exists>ans. r = Inr ans \<or> st' \<noteq> st"
  obtains upload_id token ap keys where
    "tenant_token (tb_company_id b) = Inr token" "mlflow_artifact_prefix (tb_company_id b) = Inr ap"
    "keys = filter (\<lambda>key. member_of (staging_prefix token upload_id) key \<noteq> []) (obj_keys Ob st (staging_prefix token upload_id))"
    "judge_and_promote Ob decode safe_load seen env bucket ap (staging_prefix token upload_id) upload_id keys st = (r, st')"
  using assms
  by (auto simp: upload_commit_def Let_def split: sum.splits json.splits if_splits prod.splits bool.splits)

lemma tenant_not_staged:
  "mlflow_artifact_prefix c = Inr ap \<Longrightarrow> \<not> staged (ap @ x)"
  by (auto simp: name_defs underscored_def res_map_def STAGING_ROOT_def starts_with_def split: sum.splits)

lemma staging_prefix_staged: "starts_with k (staging_prefix token u) \<Longrightarrow> staged k"
  by (auto simp: staging_prefix_def starts_with_iff)

lemma member_of_key: "member_of pre key \<noteq> [] \<Longrightarrow> key = pre @ member_of pre key"
  by (auto simp: member_of_def owned_name_def starts_with_iff split: if_splits)

lemma member_of_append: "m \<noteq> [] \<Longrightarrow> member_of pre (pre @ m) = m"
  by (auto simp: member_of_def owned_name_def)

lemma find_SomeD: "List.find P xs = Some x \<Longrightarrow> x \<in> set xs \<and> P x"
  by (auto simp: find_Some_iff)

lemma Admitted_iff:
  "evaluate_artifact safe_load mt files = Admitted \<longleftrightarrow>
     (\<exists>t manifest d. mt = Some t \<and> t \<noteq> [] \<and> parse_manifest safe_load t = Some manifest \<and>
        yget manifest ''flavors'' = Some (YMap d) \<and> d \<noteq> [] \<and>
        declared_executable_serialisation manifest = None \<and> (\<forall>f \<in> set files. \<not> is_executable_object_stream (snd f)))"
  by (auto simp: evaluate_artifact_def find_None_iff split: option.splits prod.splits dest!: find_SomeD)
    (metis snd_conv)

lemma judge_and_promote_Inr:
  assumes "judge_and_promote Ob decode safe_load seen env bucket ap pre u keys st = (Inr ans, st')"
  shows "promote Ob env (commit_reads Ob seen pre) (\<lambda>key. admitted_key ap u (member_of pre key)) keys [] keys st = (True, st')"
    and "ca_upload_id ans = u" "set (ca_files ans) = member_of pre ` set keys"
    and "\<forall>key \<in> set keys. \<not> is_executable_object_stream (take HEAD_BYTES (case commit_reads Ob seen pre key of None \<Rightarrow> [] | Some r \<Rightarrow> fst r))"
    and "\<exists>h e manifest. pre @ MANIFEST_NAME \<in> set keys \<and> commit_reads Ob seen pre (pre @ MANIFEST_NAME) = Some (h, e) \<and>
      length h \<le> MANIFEST_MAX_BYTES \<and> parse_manifest safe_load (decode h) = Some manifest \<and>
      declared_executable_serialisation manifest = None"
  using assms(1) unfolding judge_and_promote_def Let_def
  by (auto simp: Admitted_iff split: if_splits Verdict.splits prod.splits bool.splits option.splits)

text \<open>
  C8. What a commit admits is what was judged: every file the answer names holds, under the tenant's
  prefix, exactly the bytes its staged member had when it was read, whatever was written to the staging
  area meanwhile; none of them is empty or opens like an executable object stream, and the manifest,
  read whole, parses and declares no executable serialisation.
\<close>

theorem upload_admits_judged:
  assumes "object_store Ob" and env: "\<forall>key st k. \<not> staged k \<longrightarrow> obj Ob (env key st) k = obj Ob st k"
    and "distinct (obj_keys Ob st (staging_prefix token (ca_upload_id ans)))"
    and commit: "upload_commit Ob R sha256hex decode safe_load seen env bucket s t now st b handle body = (Inr ans, s', st')"
    and token: "tenant_token (tb_company_id b) = Inr token" and ap: "mlflow_artifact_prefix (tb_company_id b) = Inr ap"
    and pre: "pre = staging_prefix token (ca_upload_id ans)"
  shows "(\<forall>m \<in> set (ca_files ans). \<exists>bytes e e'. obj Ob (seen (pre @ m)) (pre @ m) = Some (bytes, e) \<and> bytes \<noteq> [] \<and>
      obj Ob st' (admitted_key ap (ca_upload_id ans) m) = Some (bytes, e') \<and> \<not> is_executable_object_stream bytes) \<and>
    (\<exists>bytes e manifest. MANIFEST_NAME \<in> set (ca_files ans) \<and>
      obj Ob (seen (pre @ MANIFEST_NAME)) (pre @ MANIFEST_NAME) = Some (bytes, e) \<and>
      parse_manifest safe_load (decode bytes) = Some manifest \<and> declared_executable_serialisation manifest = None)"
proof -
  obtain u keys where k: "keys = filter (\<lambda>key. member_of (staging_prefix token u) key \<noteq> []) (obj_keys Ob st (staging_prefix token u))"
    and j: "judge_and_promote Ob decode safe_load seen env bucket ap (staging_prefix token u) u keys st = (Inr ans, st')"
    using upload_commit_judged [OF commit] token ap by (metis sum.inject(2))
  note J = judge_and_promote_Inr [OF j]
  have u: "pre = staging_prefix token u" using J(2) pre by simp
  let ?reads = "commit_reads Ob seen pre"
  let ?dst = "\<lambda>key. admitted_key ap u (member_of pre key)"
  have key: "key = pre @ member_of pre key" "staged key" if "key \<in> set keys" for key
    using that k u object_store.keys_listed [OF assms(1)] member_of_key staging_prefix_staged by auto
  have dst: "\<not> staged (?dst key)" for key
    using tenant_not_staged [OF ap] by (simp add: admitted_key_def)
  have inj: "inj_on ?dst (set keys)"
  proof (rule inj_onI)
    fix x y assume "x \<in> set keys" "y \<in> set keys" "?dst x = ?dst y"
    then show "x = y" using key(1) by (metis admitted_key_def same_append_eq)
  qed
  have P: "\<forall>key \<in> set keys. \<exists>h b e e' st1. ?reads key = Some (h, e) \<and> obj Ob st1 key = Some (b, e) \<and> obj Ob st' (?dst key) = Some (b, e')"
    using object_store.promote_True [OF assms(1) J(1)] env dst inj key(2) k assms(3) J(2)
    unfolding u by auto
  have member: "\<exists>bytes e e'. obj Ob (seen key) key = Some (bytes, e) \<and> bytes \<noteq> [] \<and> obj Ob st' (?dst key) = Some (bytes, e') \<and>
      \<not> is_executable_object_stream bytes" if "key \<in> set keys" for key
  proof -
    obtain h b e e' st1 where r: "?reads key = Some (h, e)" "obj Ob st1 key = Some (b, e)" "obj Ob st' (?dst key) = Some (b, e')"
      using P \<open>key \<in> set keys\<close> by blast
    then obtain bytes n where b: "obj Ob (seen key) key = Some (bytes, e)" "bytes \<noteq> []" "h = take n bytes" "HEAD_BYTES \<le> n"
      by (auto simp: commit_reads_def obj_head_def HEAD_BYTES_def MANIFEST_MAX_BYTES_def split: option.splits if_splits)
    have "b = bytes" using object_store.etag_names [OF assms(1) r(2) b(1)] .
    moreover have "\<not> is_executable_object_stream (take HEAD_BYTES h)"
      using J(4) that r(1) unfolding u by auto
    ultimately show ?thesis using b r(3) stream_head [of HEAD_BYTES bytes] by (auto simp: HEAD_BYTES_def min_def)
  qed
  obtain h e manifest where m: "pre @ MANIFEST_NAME \<in> set keys" "?reads (pre @ MANIFEST_NAME) = Some (h, e)"
      "length h \<le> MANIFEST_MAX_BYTES" "parse_manifest safe_load (decode h) = Some manifest"
      "declared_executable_serialisation manifest = None"
    using J(5) unfolding u by auto
  have "obj Ob (seen (pre @ MANIFEST_NAME)) (pre @ MANIFEST_NAME) = Some (h, e)"
    using m(2,3) by (auto simp: commit_reads_def obj_head_def split: option.splits if_splits)
  moreover have "MANIFEST_NAME \<in> set (ca_files ans)"
    using m(1) J(3) u member_of_append [of MANIFEST_NAME pre] by (force simp: MANIFEST_NAME_def)
  moreover have "\<exists>bytes e e'. obj Ob (seen (pre @ f)) (pre @ f) = Some (bytes, e) \<and> bytes \<noteq> [] \<and>
      obj Ob st' (admitted_key ap (ca_upload_id ans) f) = Some (bytes, e') \<and> \<not> is_executable_object_stream bytes"
    if f: "f \<in> set (ca_files ans)" for f
  proof -
    obtain key where "key \<in> set keys" "f = member_of pre key" using f J(3) u by auto
    with member [OF this(1)] key(1) [OF this(1)] J(2) show ?thesis by metis
  qed
  ultimately show ?thesis using m(4,5) by blast
qed

section \<open>An object store in memory\<close>

definition etag_of :: "byte list \<Rightarrow> string" where
  "etag_of b = map (\<lambda>w. char_of (unat w)) b"

lemma etag_of_inj: "etag_of b = etag_of b' \<Longrightarrow> b = b'"
proof (induction b arbitrary: b')
  case (Cons w b)
  then obtain w' b'' where b': "b' = w' # b''" "char_of (unat w) = (char_of (unat w') :: char)" "etag_of b = etag_of b''"
    by (cases b') (auto simp: etag_of_def)
  have byte: "unat v mod 256 = unat v" for v :: byte using unsigned_less [of v, where 'a = nat] by simp
  have "unat w mod 256 = unat w' mod 256"
    using arg_cong [OF b'(2), of "of_char :: char \<Rightarrow> nat"] by (simp only: of_char_of)
  then have "unat w = unat w'" by (simp only: byte)
  then show ?case using b' Cons.IH by (simp add: word_unat_eq_iff)
qed (simp add: etag_of_def)

definition ref_objects :: "(string \<times> byte list) list objects" where
  "ref_objects =
     \<lparr>obj = (\<lambda>st k. map_option (\<lambda>b. (b, etag_of b)) (map_of st k)),
      obj_keys = (\<lambda>st p. filter (\<lambda>k. starts_with k p) (remdups (map fst st))),
      obj_copy = (\<lambda>st src dst e. case map_of st src of
         Some b \<Rightarrow> if etag_of b = e then (True, od_set st dst b) else (False, st)
       | None \<Rightarrow> (False, st)),
      obj_delete = (\<lambda>st k. filter (\<lambda>(k', b). k' \<noteq> k) st)\<rparr>"

interpretation ref_objects: object_store ref_objects
proof unfold_locales
  fix st :: "(string \<times> byte list) list" and src e dst
  show "obj_copy ref_objects st src dst e = (False, st)" if "\<not> (\<exists>b. obj ref_objects st src = Some (b, e))"
    using that by (auto simp: ref_objects_def split: option.split)
next
  fix st :: "(string \<times> byte list) list" and k k'
  have "map_of (filter (\<lambda>(k', b). k' \<noteq> k) st) k' = (if k' = k then None else map_of st k')"
    by (induction st) auto
  then show "obj ref_objects (obj_delete ref_objects st k) k' = (if k' = k then None else obj ref_objects st k')"
    by (simp add: ref_objects_def)
next
  fix st :: "(string \<times> byte list) list" and k p
  have "k \<in> fst ` set st \<longleftrightarrow> map_of st k \<noteq> None" by (simp add: map_of_eq_None_iff)
  then show "k \<in> set (obj_keys ref_objects st p) \<longleftrightarrow> starts_with k p \<and> obj ref_objects st k \<noteq> None"
    by (auto simp: ref_objects_def)
qed (auto simp: ref_objects_def dest: etag_of_inj)

definition demo_upload :: string where "demo_upload = ''0123456789abcdef''"
definition demo_token :: string where "demo_token = ''tenant_'' @ uscore uuid_a"

abbreviation demo_pre :: string where
  "demo_pre \<equiv> staging_prefix demo_token demo_upload"

definition demo_objects :: "(string \<times> byte list) list" where
  "demo_objects = [(demo_pre @ ''MLmodel'', [1])]"

definition demo_manifest :: "string \<Rightarrow> yaml option" where
  "demo_manifest t = Some (YMap [(Some ''flavors'', YMap [(Some ''onnx'', YScalar)])])"

abbreviation demo_binding :: TrackingBinding where
  "demo_binding \<equiv> \<lparr>tb_user = JStr ''u'', tb_company_id = uuid_a, tb_audience = ''upload'', tb_handle_id = None\<rparr>"

definition demo_handles :: mem where
  "demo_handles = \<lparr>ents = [cap_key ''h'' \<mapsto> (VText (RObj []), None)], mem_stream = []\<rparr>"

lemma demo_names:
  "tenant_token uuid_a = Inr demo_token" "mlflow_artifact_prefix uuid_a = Inr (demo_token @ ''/'')"
  by (simp_all add: name_defs underscored_Inr demo_token_def)

lemma demo_id: "is_upload_id demo_upload"
  by (simp add: demo_upload_def is_upload_id_def UPLOAD_ID_match_def is_alnum_def ord_def of_char_def ends_with_def
      starts_with_def)

lemma demo_keys: "obj_keys ref_objects demo_objects demo_pre = [demo_pre @ ''MLmodel'']"
  by (simp add: ref_objects_def demo_objects_def)

lemma demo_consumed: "\<exists>s'. consume_upload_handle ref_redis demo_handles 0 noon ''h'' demo_binding = Inr (True, s')"
  by (simp add: consume_upload_handle_def audit_event_def KINDS_def PLANES_def AUDIENCES_def opt_uuid_def no_args_def
      delete_recorded_args_def fget_def DELETE_RECORDED_SCRIPT_def demo_handles_def ref_eval)

lemma demo_commit:
  "\<exists>s' st'. upload_commit ref_objects ref_redis (\<lambda>x. x) (\<lambda>b. ''m'') demo_manifest (\<lambda>k. demo_objects) (\<lambda>k st. st) ''b''
     demo_handles 0 noon demo_objects demo_binding ''h'' (Body (JObj [(''upload_id'', JStr demo_upload)])) =
   (Inr \<lparr>ca_upload_id = demo_upload, ca_artifact_uri = admitted_uri ''b'' (demo_token @ ''/'') demo_upload,
      ca_files = [''MLmodel'']\<rparr>, s', st')"
proof -
  obtain s' where c: "consume_upload_handle ref_redis demo_handles 0 noon ''h'' demo_binding = Inr (True, s')"
    using demo_consumed by blast
  have m: "member_of demo_pre (demo_pre @ ''MLmodel'') = ''MLmodel''" by (rule member_of_append) simp
  have reads: "commit_reads ref_objects (\<lambda>k. demo_objects) demo_pre (demo_pre @ ''MLmodel'') = Some ([1], etag_of [1])"
    by (simp add: commit_reads_def MANIFEST_NAME_def obj_head_def ref_objects_def demo_objects_def)
  have ev: "evaluate_artifact demo_manifest (Some ''m'') [(''MLmodel'', [1])] = Admitted"
    by (simp add: Admitted_iff parse_manifest_def demo_manifest_def yget_def declared_executable_serialisation_def
        declares_def EXECUTABLE_MARKER_KEYS_def is_executable_object_stream_def)
  have "judge_and_promote ref_objects (\<lambda>b. ''m'') demo_manifest (\<lambda>k. demo_objects) (\<lambda>k st. st) ''b''
      (demo_token @ ''/'') demo_pre demo_upload [demo_pre @ ''MLmodel''] demo_objects =
    (Inr \<lparr>ca_upload_id = demo_upload, ca_artifact_uri = admitted_uri ''b'' (demo_token @ ''/'') demo_upload,
      ca_files = [''MLmodel'']\<rparr>, discard ref_objects (od_set demo_objects
        (admitted_key (demo_token @ ''/'') demo_upload ''MLmodel'') [1]) [demo_pre @ ''MLmodel''])"
    unfolding judge_and_promote_def Let_def MANIFEST_NAME_def
    by (simp add: reads m HEAD_BYTES_def ev MANIFEST_MAX_BYTES_def del: append_assoc)
      (simp add: ref_objects_def demo_objects_def m)
  then show ?thesis
    using c demo_names demo_keys m demo_id by (simp add: upload_commit_def json_body_def jget_def Let_def)
qed

theorem upload_admits_judged_witness:
  "\<exists>ans s' st' e'. upload_commit ref_objects ref_redis (\<lambda>x. x) (\<lambda>b. ''m'') demo_manifest (\<lambda>k. demo_objects) (\<lambda>k st. st) ''b''
     demo_handles 0 noon demo_objects demo_binding ''h'' (Body (JObj [(''upload_id'', JStr demo_upload)])) = (Inr ans, s', st') \<and>
     ca_files ans = [''MLmodel''] \<and>
     obj ref_objects st' (admitted_key (demo_token @ ''/'') demo_upload ''MLmodel'') = Some ([1], e')"
proof -
  obtain s' st' where c: "upload_commit ref_objects ref_redis (\<lambda>x. x) (\<lambda>b. ''m'') demo_manifest (\<lambda>k. demo_objects) (\<lambda>k st. st) ''b''
     demo_handles 0 noon demo_objects demo_binding ''h'' (Body (JObj [(''upload_id'', JStr demo_upload)])) =
     (Inr \<lparr>ca_upload_id = demo_upload, ca_artifact_uri = admitted_uri ''b'' (demo_token @ ''/'') demo_upload,
        ca_files = [''MLmodel'']\<rparr>, s', st')"
    using demo_commit by blast
  let ?ans = "\<lparr>ca_upload_id = demo_upload, ca_artifact_uri = admitted_uri ''b'' (demo_token @ ''/'') demo_upload,
        ca_files = [''MLmodel'']\<rparr>"
  have keys: "distinct (obj_keys ref_objects demo_objects (staging_prefix demo_token (ca_upload_id ?ans)))"
    using demo_keys by simp
  have names: "tenant_token (tb_company_id demo_binding) = Inr demo_token"
      "mlflow_artifact_prefix (tb_company_id demo_binding) = Inr (demo_token @ ''/'')"
    using demo_names by simp_all
  have "\<forall>m \<in> {''MLmodel''}. \<exists>bytes e e'. obj ref_objects demo_objects (demo_pre @ m) = Some (bytes, e) \<and>
      obj ref_objects st' (admitted_key (demo_token @ ''/'') demo_upload m) = Some (bytes, e')"
    using conjunct1 [OF upload_admits_judged [OF ref_objects.object_store_axioms _ keys c names refl]]
    by (simp del: split_paired_Ex split_paired_All) blast
  then have "\<exists>e'. obj ref_objects st' (admitted_key (demo_token @ ''/'') demo_upload ''MLmodel'') = Some ([1], e')"
    by (auto simp: ref_objects_def demo_objects_def)
  then show ?thesis using c by fastforce
qed

section \<open>What a refusal leaves behind\<close>

lemma json_body_Inl: "json_body body = Inl e \<Longrightarrow> \<exists>d. e = Refuse 400 d"
  by (auto simp: json_body_def split: request_body.splits json.splits)

lemma upload_commit_Inl:
  assumes "upload_commit Ob R sha256hex decode safe_load seen env bucket s t now st b handle body = (Inl e, s', st')"
  shows "st' = st \<and> (e = Crash \<or> (\<exists>n d. e = Refuse n d \<and> n \<in> {400, 401, 404})) \<or>
    (\<exists>token ap u keys d. json_body body = Inr d \<and> jget d ''upload_id'' = JStr u \<and>
      tenant_token (tb_company_id b) = Inr token \<and> mlflow_artifact_prefix (tb_company_id b) = Inr ap \<and>
      keys = filter (\<lambda>key. member_of (staging_prefix token u) key \<noteq> []) (obj_keys Ob st (staging_prefix token u)) \<and>
      judge_and_promote Ob decode safe_load seen env bucket ap (staging_prefix token u) u keys st = (Inl e, st'))"
proof (cases "json_body body")
  case (Inl e')
  then show ?thesis using assms json_body_Inl [OF Inl] by (auto simp: upload_commit_def)
next
  case (Inr d)
  show ?thesis
  proof (cases "\<exists>u. jget d ''upload_id'' = JStr u \<and> is_upload_id u")
    case True
    then obtain u where u: "jget d ''upload_id'' = JStr u" "is_upload_id u" by blast
    show ?thesis
      using assms u Inr
      by (cases "consume_upload_handle R s t now handle b")
        (auto simp: upload_commit_def Let_def split: sum.splits if_splits prod.splits bool.splits)
  next
    case False
    then show ?thesis using assms Inr by (auto simp: upload_commit_def split: json.splits if_splits)
  qed
qed

lemma judge_and_promote_Inl:
  assumes "judge_and_promote Ob decode safe_load seen env bucket ap pre u keys st = (Inl e, st')"
  shows "(\<exists>d. e = Refuse 422 d) \<and> st' = discard Ob st keys \<or>
    (\<exists>d. e = Refuse 409 d) \<and>
      promote Ob env (commit_reads Ob seen pre) (\<lambda>key. admitted_key ap u (member_of pre key)) keys [] keys st = (False, st')"
  using assms unfolding judge_and_promote_def Let_def
  by (auto split: if_splits Verdict.splits prod.splits bool.splits option.splits)



end
