(* ===== verification/Alert_Rules.thy ===== *)
theory Alert_Rules
  imports Uuid
begin

text \<open>
  The judgements of the alert worker's rules engine (\<open>services/alert_service/worker/rules_engine.py\<close>)
  and its failure classes (\<open>errors.py\<close>): the validation of a reading, which rules apply to it, and the
  alert each kind of rule builds.

  Parameters: \<open>fromiso\<close>, the reader of ISO 8601 texts, and the answers of the model service. A time is
  the number of seconds since the epoch, in UTC; a text the code itself wrote with \<open>isoformat\<close> is kept as
  the time it denotes.

  Shown: a parsed reading is well formed, and which errors a reading can raise.
\<close>

section \<open>Failures\<close>

text \<open>The exceptions by the classes \<open>is_infrastructure_error\<close> tells apart; \<open>Raised\<close> is any other, by its name.\<close>

datatype worker_error =
    MessageValidationError string
  | OSError
  | TimeoutError
  | InterfaceError
  | PostgresError "string option"
  | Raised string

definition TRANSIENT_SQLSTATE_CLASSES :: "string list" where
  "TRANSIENT_SQLSTATE_CLASSES = [''08'', ''40'', ''53'', ''57'', ''58'']"

fun is_infrastructure_error :: "worker_error \<Rightarrow> bool" where
  "is_infrastructure_error (MessageValidationError m) = False"
| "is_infrastructure_error OSError = True"
| "is_infrastructure_error TimeoutError = True"
| "is_infrastructure_error InterfaceError = True"
| "is_infrastructure_error (PostgresError st) =
     (take 2 (case st of None \<Rightarrow> [] | Some c \<Rightarrow> c) \<in> set TRANSIENT_SQLSTATE_CLASSES)"
| "is_infrastructure_error (Raised c) = False"

type_synonym 'a outcome = "worker_error + 'a"

section \<open>Numbers\<close>

text \<open>\<open>float(s)\<close>: the decimal forms with single underscores between digits, and the named values.\<close>

definition is_digit :: "char \<Rightarrow> bool" where
  "is_digit c \<longleftrightarrow> 48 \<le> ord c \<and> ord c \<le> 57"

fun digitpart :: "string \<Rightarrow> bool" where
  "digitpart [] = False"
| "digitpart [c] = is_digit c"
| "digitpart (c # d # s) =
     (is_digit c \<and> (if d = CHR ''_'' then digitpart s else digitpart (d # s)))"

definition dec_val :: "string \<Rightarrow> int" where
  "dec_val s = foldl (\<lambda>n c. if is_digit c then 10 * n + (ord c - 48) else n) 0 s"

definition FLOAT_LIMIT :: rat where "FLOAT_LIMIT = 2 ^ 1024 - 2 ^ 970"

definition to_float :: "rat \<Rightarrow> py_float" where
  "to_float q = (if FLOAT_LIMIT \<le> q then PInf else if q \<le> - FLOAT_LIMIT then NInf else Fin q)"

text \<open>The text before the first of the given characters, and the text after it if there is one.\<close>

definition cut_at :: "char set \<Rightarrow> string \<Rightarrow> string \<times> string option" where
  "cut_at cs s = (let a = takeWhile (\<lambda>c. c \<notin> cs) s; r = dropWhile (\<lambda>c. c \<notin> cs) s
                  in (a, if r = [] then None else Some (tl r)))"

definition unsign :: "string \<Rightarrow> bool \<times> string" where
  "unsign s = (if starts_with s ''-'' then (True, tl s) else if starts_with s ''+'' then (False, tl s) else (False, s))"

definition decimal_of :: "string \<Rightarrow> rat option" where
  "decimal_of s =
     (case cut_at {CHR ''e'', CHR ''E''} s of (mantissa, ex) \<Rightarrow>
        case cut_at {CHR ''.''} mantissa of (whole, fraction) \<Rightarrow>
          (let f = (case fraction of None \<Rightarrow> [] | Some f \<Rightarrow> f);
               (eneg, edigits) = (case ex of None \<Rightarrow> (False, ''0'') | Some e \<Rightarrow> unsign e);
               n = length (filter is_digit f)
           in if (whole = [] \<and> f = []) \<or> (whole \<noteq> [] \<and> \<not> digitpart whole) \<or> (f \<noteq> [] \<and> \<not> digitpart f) \<or>
                 \<not> digitpart edigits
              then None
              else Some (of_int (dec_val (whole @ f)) / 10 ^ n *
                     (if eneg then 1 / 10 ^ nat (dec_val edigits) else 10 ^ nat (dec_val edigits)))))"

definition float_of_text :: "string \<Rightarrow> py_float option" where
  "float_of_text s =
     (case unsign (py_strip s) of (neg, body) \<Rightarrow>
        if py_lower body \<in> {''inf'', ''infinity''} then Some (if neg then NInf else PInf)
        else if py_lower body = ''nan'' then Some NaN
        else map_option (\<lambda>q. to_float (if neg then - q else q)) (decimal_of body))"

text \<open>\<open>float(v)\<close> of a parsed value; a whole number too large for a float is an \<open>OverflowError\<close>.\<close>

fun py_float_of :: "json \<Rightarrow> py_float outcome" where
  "py_float_of (JInt i) =
     (case to_float (of_int i) of Fin q \<Rightarrow> Inr (Fin q) | _ \<Rightarrow> Inl (Raised ''OverflowError''))"
| "py_float_of (JBool b) = Inr (Fin (if b then 1 else 0))"
| "py_float_of (JFloat x) = Inr x"
| "py_float_of (JStr s) = (case float_of_text s of None \<Rightarrow> Inl (Raised ''ValueError'') | Some x \<Rightarrow> Inr x)"
| "py_float_of v = Inl (Raised ''TypeError'')"

definition float_lt :: "py_float \<Rightarrow> py_float \<Rightarrow> bool" where
  "float_lt x y \<longleftrightarrow> float_le x y \<and> \<not> float_le y x"

definition float_eq :: "py_float \<Rightarrow> py_float \<Rightarrow> bool" where
  "float_eq x y \<longleftrightarrow> float_le x y \<and> float_le y x"

text \<open>\<open>format(x, '.nf')\<close>: rounded half to even.\<close>

definition round_half_even :: "rat \<Rightarrow> int" where
  "round_half_even r =
     (let f = \<lfloor>r\<rfloor>; d = r - of_int f
      in if d < 1 / 2 then f else if 1 / 2 < d then f + 1 else if even f then f else f + 1)"

fun fmt_fixed :: "nat \<Rightarrow> py_float \<Rightarrow> string" where
  "fmt_fixed n (Fin q) =
     (let m = round_half_even (\<bar>q\<bar> * 10 ^ n)
      in (if q < 0 then ''-'' else []) @ show_nat (m div 10 ^ n) @ ''.'' @ pad_zeros n (show_nat (m mod 10 ^ n)))"
| "fmt_fixed n PInf = ''inf''"
| "fmt_fixed n NInf = ''-inf''"
| "fmt_fixed n NaN = ''nan''"

section \<open>Readings\<close>

text \<open>A value of a reading: a JSON value, or the text of a time.\<close>

datatype field = Time rat | Data json

type_synonym reading = "(string, field) od"

definition rget :: "reading \<Rightarrow> string \<Rightarrow> field" where
  "rget r k = (case od_get r k of None \<Rightarrow> Data JNull | Some v \<Rightarrow> v)"

fun field_truthy :: "field \<Rightarrow> bool" where
  "field_truthy (Time t) = True"
| "field_truthy (Data v) = truthy v"

definition as_utc_datetime :: "datetime \<Rightarrow> rat outcome" where
  "as_utc_datetime d =
     (case utc_offset d of
        None \<Rightarrow> Inr (local_seconds d)
      | Some off \<Rightarrow>
          (let t = local_seconds d - off
           in if MIN_TIME \<le> t \<and> t < MAX_TIME then Inr t else Inl (Raised ''OverflowError'')))"

definition iso_datetime :: "(string \<Rightarrow> datetime option) \<Rightarrow> string \<Rightarrow> datetime option" where
  "iso_datetime fromiso s = fromiso (py_replace ''Z'' ''+00:00'' s)"

definition as_utc :: "(string \<Rightarrow> datetime option) \<Rightarrow> rat \<Rightarrow> json \<Rightarrow> rat outcome" where
  "as_utc fromiso now ts =
     (case ts of
        JStr s \<Rightarrow>
          (case iso_datetime fromiso s of
             None \<Rightarrow> Inl (Raised ''ValueError'')
           | Some d \<Rightarrow> as_utc_datetime d)
      | JNull \<Rightarrow> Inr now
      | _ \<Rightarrow> Inl (Raised ''AttributeError''))"

definition uuid_field :: "json \<Rightarrow> string \<Rightarrow> bool \<Rightarrow> string option outcome" where
  "uuid_field raw name required =
     (if raw = JNull \<or> raw = JStr []
      then (if required then Inl (MessageValidationError (''reading has no '' @ name)) else Inr None)
      else (case uuid_parse (py_str raw) of
         None \<Rightarrow> Inl (MessageValidationError (name @ '' is not a UUID: '' @ py_repr raw))
       | Some n \<Rightarrow> Inr (Some (uuid_str n))))"

definition type_name :: "json \<Rightarrow> string" where
  "type_name v =
     (case v of JNull \<Rightarrow> ''NoneType'' | JBool _ \<Rightarrow> ''bool'' | JInt _ \<Rightarrow> ''int'' | JFloat _ \<Rightarrow> ''float''
      | JStr _ \<Rightarrow> ''str'' | JArr _ \<Rightarrow> ''list'' | JObj _ \<Rightarrow> ''dict'')"

definition parse_value :: "json \<Rightarrow> rat outcome" where
  "parse_value v =
     (if v = JNull \<or> v = JBool True \<or> v = JBool False
      then Inl (MessageValidationError (''reading has no numeric value: '' @ py_repr v))
      else (case py_float_of v of
         Inl (Raised c) \<Rightarrow>
           if c \<in> {''TypeError'', ''ValueError''}
           then Inl (MessageValidationError (''value is not a number: '' @ py_repr v)) else Inl (Raised c)
       | Inl e \<Rightarrow> Inl e
       | Inr (Fin q) \<Rightarrow> Inr q
       | Inr x \<Rightarrow> Inl (MessageValidationError (''value is not finite: '' @ float_repr x))))"

fun parse_times :: "(string \<Rightarrow> datetime option) \<Rightarrow> rat \<Rightarrow> jobject \<Rightarrow> string list \<Rightarrow> reading \<Rightarrow> reading outcome" where
  "parse_times fromiso now d [] r = Inr r"
| "parse_times fromiso now d (f # fs) r =
     (if jget d f = JNull then parse_times fromiso now d fs r
      else (case as_utc fromiso now (jget d f) of
         Inr t \<Rightarrow> parse_times fromiso now d fs (od_set r f (Time t))
       | Inl (Raised c) \<Rightarrow>
           if c \<in> {''ValueError'', ''TypeError'', ''AttributeError''}
           then Inl (MessageValidationError (f @ '' is not an ISO 8601 time: '' @ py_repr (jget d f)))
           else Inl (Raised c)
       | Inl e \<Rightarrow> Inl e))"

declare parse_times.simps [simp del]

definition opt_str :: "string option \<Rightarrow> json" where
  "opt_str v = (case v of None \<Rightarrow> JNull | Some s \<Rightarrow> JStr s)"

definition parse_reading :: "(string \<Rightarrow> datetime option) \<Rightarrow> rat \<Rightarrow> json \<Rightarrow> json \<Rightarrow> reading outcome" where
  "parse_reading fromiso now sensor_data company_id =
     (case sensor_data of
        JObj d \<Rightarrow>
          (case uuid_field company_id ''company_id'' True of
             Inl e \<Rightarrow> Inl e
           | Inr _ \<Rightarrow>
               (case uuid_field (jget d ''sensor_id'') ''sensor_id'' True of
                  Inl e \<Rightarrow> Inl e
                | Inr s \<Rightarrow>
                    (case uuid_field (jget d ''equipment_id'') ''equipment_id'' False of
                       Inl e \<Rightarrow> Inl e
                     | Inr q \<Rightarrow>
                         (case parse_value (jget d ''value'') of
                            Inl e \<Rightarrow> Inl e
                          | Inr v \<Rightarrow>
                              parse_times fromiso now d [''time'', ''timestamp'']
                                (od_set (od_set (od_set (map (\<lambda>(k, v). (k, Data v)) d)
                                   ''sensor_id'' (Data (opt_str s))) ''equipment_id'' (Data (opt_str q)))
                                   ''value'' (Data (JFloat (Fin v))))))))
      | _ \<Rightarrow> Inl (MessageValidationError (''reading is not an object: '' @ type_name sensor_data)))"

section \<open>Rules\<close>

text \<open>A row of \<open>alert_rules\<close> as the worker loads it; identifiers are the texts of their UUIDs.\<close>

record rule =
  ru_rule_id :: string
  ru_name :: string
  ru_sensor_id :: "string option"
  ru_equipment_id :: "string option"
  ru_site_id :: "string option"
  ru_detection_type :: "string option"
  ru_condition :: "string option"
  ru_threshold :: "py_float option"
  ru_threshold_min :: "py_float option"
  ru_threshold_max :: "py_float option"
  ru_model_id :: "string option"
  ru_anomaly_threshold :: "py_float option"
  ru_severity :: "string option"
  ru_enabled :: bool

text \<open>An identifier of a rule names a UUID; one that does not parse matches nothing.\<close>

definition names_uuid :: "string option \<Rightarrow> int option \<Rightarrow> bool" where
  "names_uuid rid u = (case (rid, u) of (Some r, Some n) \<Rightarrow> uuid_parse r = Some n | _ \<Rightarrow> False)"

definition get_applicable_rules :: "field \<Rightarrow> field \<Rightarrow> rule list \<Rightarrow> rule list outcome" where
  "get_applicable_rules sensor_id equipment_id rules =
     (let uuid_of = (\<lambda>v. case v of Data (JStr s) \<Rightarrow> uuid_parse s | _ \<Rightarrow> None);
          bad = (\<lambda>v. case v of Data (JStr s) \<Rightarrow> s \<noteq> [] \<and> uuid_parse s = None | _ \<Rightarrow> False)
      in if uuid_of sensor_id = None \<or> bad equipment_id
         then Inl (MessageValidationError ''Invalid UUID format'')
         else Inr (filter (\<lambda>rule. ru_enabled rule \<and> ru_detection_type rule \<noteq> Some ''ml'' \<and>
                (names_uuid (ru_sensor_id rule) (uuid_of sensor_id) \<or>
                 names_uuid (ru_equipment_id rule) (uuid_of equipment_id))) rules))"

section \<open>Alerts\<close>

text \<open>
  The alert an evaluation builds. \<open>al_triggered_at\<close> is what the evaluation put there: a datetime, or
  None for a value that is no datetime.
\<close>

record alert =
  al_company_id :: string
  al_rule_id :: string
  al_sensor_id :: "string option"
  al_equipment_id :: "string option"
  al_site_id :: json
  al_triggered_at :: "datetime option"
  al_detection_type :: string
  al_actual_value :: json
  al_threshold_value :: "py_float option"
  al_condition :: string
  al_severity :: "string option"
  al_message :: string
  al_model_id :: "string option"
  al_anomaly_score :: json
  al_degraded :: bool
  al_neutralized :: "json list"

definition utc :: "rat \<Rightarrow> datetime" where
  "utc t = \<lparr>local_seconds = t, utc_offset = Some 0\<rparr>"

text \<open>\<open>sensor_data.get('time') or sensor_data.get('timestamp')\<close>, read as a datetime; None is \<open>fromisoformat\<close> failing.\<close>

definition event_time :: "(string \<Rightarrow> datetime option) \<Rightarrow> rat \<Rightarrow> reading \<Rightarrow> datetime option option" where
  "event_time fromiso now r =
     (let ts = (if field_truthy (rget r ''time'') then rget r ''time'' else rget r ''timestamp'')
      in case ts of
           Time t \<Rightarrow> Some (Some (utc t))
         | Data (JStr s) \<Rightarrow> (case iso_datetime fromiso s of None \<Rightarrow> None | Some d \<Rightarrow> Some (Some d))
         | Data v \<Rightarrow> if truthy v then Some None else Some (Some (utc now)))"

text \<open>\<open>str(v) if v else None\<close>, and \<open>replace('_', ' ')\<close>.\<close>

definition str_or_none :: "field \<Rightarrow> string option" where
  "str_or_none v = (case v of Time t \<Rightarrow> None | Data j \<Rightarrow> if truthy j then Some (py_str j) else None)"

definition field_json :: "field \<Rightarrow> json" where
  "field_json v = (case v of Time t \<Rightarrow> JNull | Data j \<Rightarrow> j)"

text \<open>Whether a threshold rule fires on a value: the condition it fired on and the threshold.\<close>

definition max_fires :: "py_float \<Rightarrow> rule \<Rightarrow> (string \<times> py_float) option" where
  "max_fires v rule =
     (case ru_threshold_max rule of
        Some m \<Rightarrow> if float_lt m v then Some (''above_max'', m) else None
      | None \<Rightarrow> None)"

definition min_max_fires :: "py_float \<Rightarrow> rule \<Rightarrow> (string \<times> py_float) option" where
  "min_max_fires v rule =
     (case ru_threshold_min rule of
        Some m \<Rightarrow> if float_lt v m then Some (''below_min'', m) else max_fires v rule
      | None \<Rightarrow> max_fires v rule)"

definition condition_fires :: "py_float \<Rightarrow> string \<Rightarrow> py_float \<Rightarrow> (string \<times> py_float) option" where
  "condition_fires v c t =
     (if c = ''greater_than'' \<and> float_lt t v then Some (c, t)
      else if c = ''less_than'' \<and> float_lt v t then Some (c, t)
      else if c = ''equals'' \<and> float_eq v t then Some (c, t)
      else if c = ''not_equals'' \<and> \<not> float_eq v t then Some (c, t)
      else None)"

definition threshold_fires :: "py_float \<Rightarrow> rule \<Rightarrow> (string \<times> py_float) option" where
  "threshold_fires v rule =
     (case (ru_condition rule, ru_threshold rule) of
        (Some c, Some t) \<Rightarrow> if c \<noteq> [] then condition_fires v c t else min_max_fires v rule
      | _ \<Rightarrow> min_max_fires v rule)"

definition evaluate_threshold ::
    "(string \<Rightarrow> datetime option) \<Rightarrow> rat \<Rightarrow> reading \<Rightarrow> rule \<Rightarrow> string \<Rightarrow> alert option outcome" where
  "evaluate_threshold fromiso now r rule company_id =
     (case rget r ''value'' of
        Data (JFloat v) \<Rightarrow>
          (case threshold_fires v rule of
             None \<Rightarrow> Inr None
           | Some (c, t) \<Rightarrow>
               (case event_time fromiso now r of
                  None \<Rightarrow> Inl (Raised ''ValueError'')
                | Some at_time \<Rightarrow>
                    Inr (Some \<lparr>al_company_id = company_id, al_rule_id = ru_rule_id rule,
                       al_sensor_id = Some (py_str (field_json (rget r ''sensor_id''))),
                       al_equipment_id = str_or_none (rget r ''equipment_id''), al_site_id = field_json (rget r ''site_id''),
                       al_triggered_at = at_time, al_detection_type = ''threshold'', al_actual_value = JFloat v,
                       al_threshold_value = Some t, al_condition = c, al_severity = ru_severity rule,
                       al_message = ''Threshold alert: '' @ ru_name rule @ '' - Value '' @ fmt_fixed 2 v @ '' is '' @
                         py_replace ''_'' '' '' c,
                       al_model_id = None, al_anomaly_score = JNull, al_degraded = False, al_neutralized = []\<rparr>)))
      | _ \<Rightarrow> Inl (Raised ''TypeError''))"

text \<open>The model service's answer: none, or a status and the JSON body if it is one.\<close>

datatype ml_reply = Unreachable | Reply int "json option"

text \<open>A parsed number as a float, and \<open>format(v, '.nf')\<close>; None where Python raises.\<close>

fun json_number :: "json \<Rightarrow> py_float option" where
  "json_number (JInt i) = (case to_float (of_int i) of Fin q \<Rightarrow> Some (Fin q) | _ \<Rightarrow> None)"
| "json_number (JBool b) = Some (Fin (if b then 1 else 0))"
| "json_number (JFloat x) = Some x"
| "json_number v = None"

definition fmt_json :: "nat \<Rightarrow> json \<Rightarrow> string option" where
  "fmt_json n v = map_option (fmt_fixed n) (json_number v)"

text \<open>\<open>list(v or [])\<close>; None when \<open>v\<close> is no sequence.\<close>

definition py_list :: "json \<Rightarrow> json list option" where
  "py_list v =
     (if \<not> truthy v then Some []
      else (case v of
         JArr xs \<Rightarrow> Some xs
       | JStr s \<Rightarrow> Some (map (\<lambda>c. JStr [c]) s)
       | JObj d \<Rightarrow> Some (map (\<lambda>(k, w). JStr k) d)
       | _ \<Rightarrow> None))"

definition degraded_note :: "json list \<Rightarrow> string" where
  "degraded_note neutralized =
     '' [DEGRADED: scored with stateful features neutralized'' @
     (if neutralized = [] then [] else '': '' @ join_on '', '' (map py_str neutralized)) @
     ''; treat as lower-confidence]''"

definition opt_float_str :: "py_float option \<Rightarrow> string" where
  "opt_float_str x = (case x of None \<Rightarrow> ''None'' | Some y \<Rightarrow> float_repr y)"

text \<open>
  A rule scored by the model service. Every failure, of the service or of building the alert, is
  logged and yields no alert.
\<close>

definition evaluate_ml ::
    "(string \<Rightarrow> datetime option) \<Rightarrow> rat \<Rightarrow> (string \<Rightarrow> reading \<Rightarrow> py_float option \<Rightarrow> string \<Rightarrow> ml_reply) \<Rightarrow> reading \<Rightarrow>
      rule \<Rightarrow> string \<Rightarrow> alert option" where
  "evaluate_ml fromiso now predict r rule company_id =
     (case ru_model_id rule of
        None \<Rightarrow> None
      | Some model_id \<Rightarrow>
          (case predict model_id r (ru_anomaly_threshold rule) company_id of
             Reply st (Some (JObj result)) \<Rightarrow>
               if st \<noteq> 200 \<or> \<not> truthy (jget result ''is_anomaly'') then None
               else (case (event_time fromiso now r, fmt_json 4 (jget result ''prediction''),
                           py_list (jget result ''neutralized_features'')) of
                  (Some at_time, Some score, Some neutralized) \<Rightarrow>
                    (let degraded = truthy (jget result ''degraded'') \<or> neutralized \<noteq> []
                     in Some \<lparr>al_company_id = company_id, al_rule_id = ru_rule_id rule,
                       al_sensor_id = (if field_truthy (rget r ''sensor_id'')
                         then Some (py_str (field_json (rget r ''sensor_id''))) else ru_sensor_id rule),
                       al_equipment_id = str_or_none (rget r ''equipment_id''), al_site_id = field_json (rget r ''site_id''),
                       al_triggered_at = at_time, al_detection_type = ''ml'', al_actual_value = field_json (rget r ''value''),
                       al_threshold_value = ru_anomaly_threshold rule, al_condition = ''ml_anomaly'',
                       al_severity = ru_severity rule,
                       al_message = ''ML anomaly detected: '' @ ru_name rule @ '' - Anomaly score '' @ score @
                         '' exceeds threshold '' @ opt_float_str (ru_anomaly_threshold rule) @
                         (if degraded then degraded_note neutralized else []),
                       al_model_id = Some model_id, al_anomaly_score = jget result ''prediction'',
                       al_degraded = degraded, al_neutralized = neutralized\<rparr>)
                | _ \<Rightarrow> None)
           | _ \<Rightarrow> None))"

definition evaluate_statistical :: "reading \<Rightarrow> rule \<Rightarrow> string \<Rightarrow> alert option" where
  "evaluate_statistical r rule company_id = None"

definition evaluate_rule ::
    "(string \<Rightarrow> datetime option) \<Rightarrow> rat \<Rightarrow> (string \<Rightarrow> reading \<Rightarrow> py_float option \<Rightarrow> string \<Rightarrow> ml_reply) \<Rightarrow> reading \<Rightarrow>
      rule \<Rightarrow> string \<Rightarrow> alert option outcome" where
  "evaluate_rule fromiso now predict r rule company_id =
     (if ru_detection_type rule = Some ''threshold'' then evaluate_threshold fromiso now r rule company_id
      else if ru_detection_type rule = Some ''ml'' then Inr (evaluate_ml fromiso now predict r rule company_id)
      else if ru_detection_type rule = Some ''statistical'' then Inr (evaluate_statistical r rule company_id)
      else Inr None)"

section \<open>Drift and retraining\<close>

text \<open>
  \<open>share > threshold\<close> for a share that is not None; None where the comparison raises. (An \<open>int\<close> beyond the
  floats still compares: it is larger, or smaller, than any finite threshold.)
\<close>

definition share_over :: "json \<Rightarrow> py_float \<Rightarrow> bool option" where
  "share_over share t =
     (case share of
        JInt i \<Rightarrow> Some (float_lt t (Fin (of_int i)))
      | _ \<Rightarrow> map_option (float_lt t) (json_number share))"

text \<open>(The dash of this message and of the retrain alert's, which is no code point below 256, is written as a hyphen.)\<close>

definition drift_message :: "rule \<Rightarrow> string \<Rightarrow> py_float \<Rightarrow> bool \<Rightarrow> string" where
  "drift_message rule share_txt t pred_drifted =
     ''Model drift: '' @ ru_name rule @ '' - input drift share '' @ share_txt @ '' vs threshold '' @ fmt_fixed 2 t @
     ''. Distribution has shifted from training; consider retraining (this flags change, not a model-correctness failure).'' @
     (if pred_drifted then '' Prediction-output drift also detected.'' else [])"

definition evaluate_drift ::
    "rat \<Rightarrow> (string \<Rightarrow> string \<Rightarrow> int \<Rightarrow> py_float \<Rightarrow> ml_reply) \<Rightarrow> rule \<Rightarrow> string \<Rightarrow> int \<Rightarrow> py_float \<Rightarrow> alert option outcome" where
  "evaluate_drift now drift rule company_id window_minutes default_share_threshold =
     (let model_id = (case ru_model_id rule of None \<Rightarrow> ''None'' | Some m \<Rightarrow> m);
          t = (case ru_threshold rule of None \<Rightarrow> default_share_threshold | Some x \<Rightarrow> x)
      in case drift model_id company_id window_minutes t of
           Unreachable \<Rightarrow> Inr None
         | Reply st body \<Rightarrow>
             if st \<noteq> 200 then Inr None
             else (case body of
                Some (JObj result) \<Rightarrow>
                  if jget result ''status'' \<noteq> JStr ''ok'' then Inr None
                  else (case (jget_default result ''data_drift'' (JObj []),
                              if truthy (jget result ''prediction_drift'') then jget result ''prediction_drift'' else JObj []) of
                     (JObj data, JObj pred) \<Rightarrow>
                       (let share = jget data ''drift_share''; pred_drifted = truthy (jget pred ''drifted'')
                        in case (if share = JNull then Some False else share_over share t) of
                             None \<Rightarrow> Inl (Raised ''TypeError'')
                           | Some data_drifted \<Rightarrow>
                               if \<not> data_drifted \<and> \<not> pred_drifted then Inr None
                               else (case (if share = JNull then Some ''n/a'' else fmt_json 2 share) of
                                  None \<Rightarrow> Inl (Raised ''TypeError'')
                                | Some share_txt \<Rightarrow>
                                    Inr (Some \<lparr>al_company_id = company_id, al_rule_id = ru_rule_id rule,
                                      al_sensor_id = ru_sensor_id rule, al_equipment_id = ru_equipment_id rule,
                                      al_site_id = opt_str (ru_site_id rule), al_triggered_at = Some (utc now),
                                      al_detection_type = ''statistical'', al_actual_value = share,
                                      al_threshold_value = Some t, al_condition = ''drift'', al_severity = ru_severity rule,
                                      al_message = drift_message rule share_txt t pred_drifted, al_model_id = Some model_id,
                                      al_anomaly_score = share, al_degraded = False, al_neutralized = []\<rparr>)))
                   | _ \<Rightarrow> Inl (Raised ''AttributeError''))
              | _ \<Rightarrow> Inl (Raised ''AttributeError'')))"

definition should_recommend_retrain :: "int \<Rightarrow> int \<Rightarrow> int \<Rightarrow> rat \<Rightarrow> int \<Rightarrow> int \<Rightarrow> rat option outcome" where
  "should_recommend_retrain tp fp recent_drift_alerts precision_floor min_labels min_drift_alerts =
     (let decided = tp + fp
      in if decided < min_labels then Inr None
         else if recent_drift_alerts < min_drift_alerts then Inr None
         else if decided = 0 then Inl (Raised ''ZeroDivisionError'')
         else (let precision = of_int tp / of_int decided
               in if precision_floor \<le> precision then Inr None else Inr (Some precision)))"

definition build_retrain_alert :: "rat \<Rightarrow> rule \<Rightarrow> string \<Rightarrow> rat \<Rightarrow> int \<times> int \<times> int \<Rightarrow> string \<Rightarrow> alert" where
  "build_retrain_alert now rule company_id precision signals severity =
     (case signals of (tp, fp, recent) \<Rightarrow>
        \<lparr>al_company_id = company_id, al_rule_id = ru_rule_id rule,
         al_sensor_id = ru_sensor_id rule, al_equipment_id = ru_equipment_id rule,
         al_site_id = opt_str (ru_site_id rule), al_triggered_at = Some (utc now),
         al_detection_type = ''statistical'', al_actual_value = JFloat (Fin precision), al_threshold_value = None,
         al_condition = ''retrain_recommended'', al_severity = Some severity,
         al_message = ''Retrain recommended: '' @ ru_name rule @ '' - operator-labelled precision '' @
           fmt_fixed 2 (Fin precision) @ '' over '' @ show_int (tp + fp) @ '' label(s), with '' @ show_int recent @
           '' recent drift alert(s). Sustained drift together with falling precision suggests '' @
           ''the model has decayed; retrain it (manual/notebook flow).'',
         al_model_id = ru_model_id rule, al_anomaly_score = JFloat (Fin precision), al_degraded = False,
         al_neutralized = []\<rparr>)"

section \<open>What a parsed reading is\<close>

text \<open>
  The type of a reading the engine evaluates: its identifiers are canonical UUID texts, its equipment may
  be absent, its value is a finite float, and its times, if any, are times.
\<close>

definition is_uuid_text :: "field \<Rightarrow> bool" where
  "is_uuid_text v \<longleftrightarrow> (\<exists>n. v = Data (JStr (uuid_str n)) \<and> uuid_parse (uuid_str n) = Some n)"

definition time_field :: "field \<Rightarrow> bool" where
  "time_field v \<longleftrightarrow> v = Data JNull \<or> (\<exists>t. v = Time t)"

definition wf_reading :: "reading \<Rightarrow> bool" where
  "wf_reading r \<longleftrightarrow>
     is_uuid_text (rget r ''sensor_id'') \<and> (rget r ''equipment_id'' = Data JNull \<or> is_uuid_text (rget r ''equipment_id'')) \<and>
     (\<exists>q. rget r ''value'' = Data (JFloat (Fin q))) \<and>
     time_field (rget r ''time'') \<and> time_field (rget r ''timestamp'')"

lemma rget_od_set [simp]: "rget (od_set r k v) k' = (if k' = k then v else rget r k')"
  by (simp add: rget_def)

lemma rget_data [simp]: "rget (map (\<lambda>(k, v). (k, Data v)) d) k = Data (jget d k)"
proof -
  have "map_of (map (\<lambda>(k, v). (k, Data v)) d) k = map_option Data (map_of d k)"
    by (induction d) auto
  then show ?thesis by (simp add: rget_def jget_def split: option.splits)
qed

lemma is_uuid_text_uuid_str [simp]: "uuid_parse s = Some n \<Longrightarrow> is_uuid_text (Data (JStr (uuid_str n)))"
  using uuid_parse_bound uuid_parse_str by (fastforce simp: is_uuid_text_def)

text \<open>The exceptions a reading can raise.\<close>

definition reading_error :: "worker_error \<Rightarrow> bool" where
  "reading_error e \<longleftrightarrow> (\<exists>m. e = MessageValidationError m) \<or> e = Raised ''OverflowError''"

lemma reading_error_intros [intro, simp]: "reading_error (MessageValidationError m)" "reading_error (Raised ''OverflowError'')"
  by (simp_all add: reading_error_def)

lemma uuid_field_cases:
  "(\<exists>m. uuid_field raw f req = Inl (MessageValidationError m)) \<or> uuid_field raw f req = Inr None \<and> \<not> req \<or>
   (\<exists>n. uuid_field raw f req = Inr (Some (uuid_str n)) \<and> uuid_parse (py_str raw) = Some n)"
  by (auto simp: uuid_field_def split: option.splits)

lemma uuid_field_Inl: "uuid_field raw f req = Inl e \<Longrightarrow> reading_error e"
  by (auto simp: uuid_field_def split: if_splits option.splits)

lemma py_float_of_Inl: "py_float_of v = Inl e \<Longrightarrow> \<exists>c. e = Raised c \<and> c \<in> {''TypeError'', ''ValueError'', ''OverflowError''}"
  by (cases v) (auto split: option.splits py_float.splits)

lemma parse_value_Inl: "parse_value v = Inl e \<Longrightarrow> reading_error e"
proof -
  assume v: "parse_value v = Inl e"
  show ?thesis
  proof (cases "py_float_of v")
    case (Inl e')
    from py_float_of_Inl [OF this] obtain c where "e' = Raised c" "c \<in> {''TypeError'', ''ValueError'', ''OverflowError''}"
      by blast
    with Inl v show ?thesis by (auto simp: parse_value_def split: if_splits)
  next
    case (Inr x)
    with v show ?thesis by (cases x) (auto simp: parse_value_def split: if_splits)
  qed
qed

lemma as_utc_Inl: "as_utc fromiso now v = Inl e \<Longrightarrow> \<exists>c. e = Raised c \<and> c \<in> {''ValueError'', ''AttributeError'', ''OverflowError''}"
  by (auto simp: as_utc_def as_utc_datetime_def Let_def split: json.splits option.splits if_splits)

lemma time_field_simps [simp]: "time_field (Time t)" "time_field (Data JNull)"
  by (simp_all add: time_field_def)

text \<open>One field's time: kept when absent, read, or refused.\<close>

lemma parse_times_Cons:
  "parse_times fromiso now d (f # fs) r = x \<Longrightarrow>
     jget d f = JNull \<and> x = parse_times fromiso now d fs r \<or>
     (\<exists>t. x = parse_times fromiso now d fs (od_set r f (Time t))) \<or> (\<exists>e. x = Inl e \<and> reading_error e)"
proof -
  assume x: "parse_times fromiso now d (f # fs) r = x"
  show ?thesis
  proof (cases "as_utc fromiso now (jget d f)")
    case (Inl e)
    from as_utc_Inl [OF this] obtain c where "e = Raised c" "c \<in> {''ValueError'', ''AttributeError'', ''OverflowError''}"
      by blast
    with Inl x show ?thesis by (auto simp: parse_times.simps)
  next
    case (Inr t)
    with x [symmetric]
    have "x = (if jget d f = JNull then parse_times fromiso now d fs r else parse_times fromiso now d fs (od_set r f (Time t)))"
      by (simp add: parse_times.simps)
    then show ?thesis by (cases "jget d f = JNull") auto
  qed
qed

lemma parse_times_Inl: "parse_times fromiso now d fs r = Inl e \<Longrightarrow> reading_error e"
proof (induction fs arbitrary: r)
  case (Cons f fs)
  from parse_times_Cons [OF Cons.prems] show ?case using Cons.IH by (metis Inl_inject)
qed (simp add: parse_times.simps)

lemma parse_times_Inr:
  assumes "parse_times fromiso now d fs r = Inr r'"
  shows "(\<forall>k. k \<notin> set fs \<longrightarrow> rget r' k = rget r k) \<and>
    (\<forall>f \<in> set fs. rget r f = Data (jget d f) \<or> time_field (rget r f) \<longrightarrow> time_field (rget r' f))"
  using assms
proof (induction fs arbitrary: r)
  case (Cons f fs)
  from parse_times_Cons [OF Cons.prems] consider
      "jget d f = JNull" "parse_times fromiso now d fs r = Inr r'"
    | t where "parse_times fromiso now d fs (od_set r f (Time t)) = Inr r'" by auto
  then show ?case
  proof cases
    case 1
    from Cons.IH [OF 1(2)] 1(1) show ?thesis by (cases "f \<in> set fs") auto
  next
    case (2 t)
    from Cons.IH [OF 2] show ?thesis by (cases "f \<in> set fs") (auto split: if_splits)
  qed
qed (simp add: parse_times.simps)

text \<open>A time that was sent is read, and the clock is not asked.\<close>

lemma parse_times_present:
  assumes "parse_times fromiso now d fs r = Inr r'" "f \<in> set fs" "jget d f \<noteq> JNull"
  shows "\<exists>t. rget r' f = Time t"
proof -
  have keep: "\<exists>t. rget r' f = Time t" if "parse_times fromiso now d fs r = Inr r'" "rget r f = Time t" for fs r t
    using that
  proof (induction fs arbitrary: r t)
    case (Cons g fs)
    from parse_times_Cons [OF Cons.prems(1)] show ?case
      using Cons.IH Cons.prems(2) by (metis Inl_Inr_False rget_od_set)
  qed (simp add: parse_times.simps)
  show ?thesis
    using assms
  proof (induction fs arbitrary: r)
    case (Cons g fs)
    from parse_times_Cons [OF Cons.prems(1)] Cons.prems show ?case
      using Cons.IH keep by (metis Inl_Inr_False rget_od_set set_ConsD)
  qed simp
qed

lemma as_utc_now: "v \<noteq> JNull \<Longrightarrow> as_utc fromiso now v = as_utc fromiso now' v"
  by (cases v) (simp_all add: as_utc_def)

lemma parse_times_now: "parse_times fromiso now d fs r = parse_times fromiso now' d fs r"
  by (induction fs arbitrary: r) (simp_all add: parse_times.simps as_utc_now [of _ fromiso now now'] split: sum.splits worker_error.splits)

lemma parse_reading_now: "parse_reading fromiso now d c = parse_reading fromiso now' d c"
  by (simp add: parse_reading_def parse_times_now [of fromiso now _ _ _ now'] split: sum.splits json.splits)

lemma parse_reading_time:
  assumes "parse_reading fromiso now (JObj d) c = Inr r" "f \<in> {''time'', ''timestamp''}" "jget d f \<noteq> JNull"
  shows "\<exists>t. rget r f = Time t"
  using assms by (auto simp: parse_reading_def split: sum.splits dest!: parse_times_present [of _ _ _ _ _ r f])

lemma parse_reading_Inl: "parse_reading fromiso now d company_id = Inl e \<Longrightarrow> reading_error e"
  by (auto simp: parse_reading_def split: sum.splits json.splits dest: uuid_field_Inl parse_value_Inl parse_times_Inl)

lemma parse_reading_Inr:
  assumes "parse_reading fromiso now (JObj d) company_id = Inr r"
  shows "wf_reading r" "k \<notin> {''sensor_id'', ''equipment_id'', ''value'', ''time'', ''timestamp''} \<Longrightarrow> rget r k = Data (jget d k)"
proof -
  obtain c sid q v where f: "uuid_field company_id ''company_id'' True = Inr c"
      "uuid_field (jget d ''sensor_id'') ''sensor_id'' True = Inr sid"
      "uuid_field (jget d ''equipment_id'') ''equipment_id'' False = Inr q" "parse_value (jget d ''value'') = Inr v"
    and t: "parse_times fromiso now d [''time'', ''timestamp''] (od_set (od_set (od_set (map (\<lambda>(k, v). (k, Data v)) d)
       ''sensor_id'' (Data (opt_str sid))) ''equipment_id'' (Data (opt_str q))) ''value'' (Data (JFloat (Fin v)))) = Inr r"
    using assms by (auto simp: parse_reading_def split: sum.splits)
  note T = parse_times_Inr [OF t]
  have "is_uuid_text (Data (opt_str sid))" "q = None \<or> is_uuid_text (Data (opt_str q))"
    using f(2,3) uuid_field_cases [of "jget d ''sensor_id''" "''sensor_id''" True]
      uuid_field_cases [of "jget d ''equipment_id''" "''equipment_id''" False] by (auto simp: opt_str_def)
  moreover have "rget r ''sensor_id'' = Data (opt_str sid)" "rget r ''equipment_id'' = Data (opt_str q)"
      "rget r ''value'' = Data (JFloat (Fin v))" "time_field (rget r ''time'')" "time_field (rget r ''timestamp'')"
    using T by simp_all
  ultimately show "wf_reading r" unfolding wf_reading_def by (auto simp: opt_str_def)
  show "rget r k = Data (jget d k)" if "k \<notin> {''sensor_id'', ''equipment_id'', ''value'', ''time'', ''timestamp''}" for k
    using T that by auto
qed

text \<open>
  C35. Parsing a reading yields a well-formed one or a refusal. A parsed reading has canonical UUIDs for
  its sensor and, unless it has none, its equipment, a finite value, and times that are times, with every
  other field as it was sent. A reading that is not parsed is a validation error, or an overflow: a whole
  number no float can hold, or a time that leaves the calendar when it is brought to UTC.
\<close>

theorem parse_reading_typed:
  "case parse_reading fromiso now (JObj d) company_id of
     Inr r \<Rightarrow> wf_reading r \<and>
       (\<forall>k. k \<notin> {''sensor_id'', ''equipment_id'', ''value'', ''time'', ''timestamp''} \<longrightarrow> rget r k = Data (jget d k))
   | Inl e \<Rightarrow> (\<exists>m. e = MessageValidationError m) \<or> e = Raised ''OverflowError''"
  using parse_reading_Inl [of fromiso now "JObj d" company_id] parse_reading_Inr [of fromiso now d company_id]
  by (cases "parse_reading fromiso now (JObj d) company_id") (simp_all add: reading_error_def)

theorem parse_reading_typed_witness:
  "\<exists>r. parse_reading (\<lambda>s. None) 0 (JObj [(''sensor_id'', JStr (uuid_str 2)), (''value'', JFloat (Fin 42)), (''unit'', JStr ''C'')])
       (JStr (uuid_str 1)) = Inr r \<and> wf_reading r \<and> rget r ''unit'' = Data (JStr ''C'')"
proof -
  let ?d = "[(''sensor_id'', JStr (uuid_str 2)), (''value'', JFloat (Fin 42)), (''unit'', JStr ''C'')]"
  have "uuid_str n \<noteq> []" for n using length_uuid_str [of n] by (auto simp del: length_uuid_str)
  then obtain r where r: "parse_reading (\<lambda>s. None) 0 (JObj ?d) (JStr (uuid_str 1)) = Inr r"
    by (simp add: parse_reading_def uuid_field_def uuid_parse_str jget_def parse_value_def parse_times.simps)
  have "wf_reading r \<and> rget r ''unit'' = Data (jget ?d ''unit'')"
    using parse_reading_typed [where fromiso = "\<lambda>s. None" and now = 0 and d = ?d and company_id = "JStr (uuid_str 1)"] unfolding r sum.case by simp
  with r show ?thesis by (simp add: jget_def)
qed

end
