(* ===== verification/Alert_Engine.thy ===== *)
theory Alert_Engine
  imports Feature_Store Tenancy "HOL-Library.List_Lexorder" "HOL-Library.Char_ord"
begin

text \<open>
  The rules engine of the alert worker (\<open>rules_engine.py\<close>) over the alert tables of the tenants
  (\<open>repository.py\<close>): one engine is a replica's rules and caches, the tables are shared by all replicas.

  Parameters, the fields of \<open>worker_env\<close>: the clock, the ISO reader and writer, the hash behind an alert's
  id, the rows the catalogue queries answer, the model service, and the link to the database, which can be
  lost before or after a statement committed. The advisory lock makes one save one step.

  What the theory \<open>Alert_Dedup\<close> shows of it: in every tenant's table the alerts of one scope are at least
  the cooldown apart, whatever the replicas evaluate and however often; the dedup cache changes no answer; a
  redelivered reading writes nothing.
\<close>

section \<open>The alert tables\<close>

text \<open>A row: the columns the statements compare, and the alert it was written from.\<close>

record alert_row =
  row_alert_id :: int
  row_triggered_at :: rat
  row_rule_id :: int
  row_sensor_id :: "int option"
  row_equipment_id :: "int option"
  row_model_id :: "int option"
  row_alert :: alert

type_synonym tables = "string \<Rightarrow> alert_row list"

text \<open>
  The parameters as the driver encodes them: identifiers as UUIDs, the site as text, values as floats.
  A parameter that does not encode is the driver's \<open>DataError\<close>, an \<open>InterfaceError\<close>.
\<close>

definition encode_uuid :: "string option \<Rightarrow> int option option" where
  "encode_uuid v = (case v of None \<Rightarrow> Some None | Some s \<Rightarrow> map_option Some (uuid_parse s))"

definition encodes_text :: "json \<Rightarrow> bool" where
  "encodes_text v \<longleftrightarrow> (case v of JNull \<Rightarrow> True | JStr _ \<Rightarrow> True | _ \<Rightarrow> False)"

definition encodes_float :: "json \<Rightarrow> bool" where
  "encodes_float v \<longleftrightarrow> v = JNull \<or> json_number v \<noteq> None"

definition alert_row_of :: "alert \<Rightarrow> int \<Rightarrow> rat \<Rightarrow> alert_row option" where
  "alert_row_of a aid t =
     (case (uuid_parse (al_rule_id a), encode_uuid (al_sensor_id a), encode_uuid (al_equipment_id a), encode_uuid (al_model_id a)) of
        (Some r, Some sn, Some q, Some m) \<Rightarrow>
          if encodes_text (al_site_id a) \<and> encodes_float (al_actual_value a) \<and> encodes_float (al_anomaly_score a)
          then Some \<lparr>row_alert_id = aid, row_triggered_at = t, row_rule_id = r, row_sensor_id = sn, row_equipment_id = q,
                     row_model_id = m, row_alert = a\<rparr>
          else None
      | _ \<Rightarrow> None)"

definition is_retrain :: "alert_row \<Rightarrow> bool" where
  "is_retrain r \<longleftrightarrow> al_condition (row_alert r) = ''retrain_recommended''"

text \<open>\<open>_ALERT_SCOPE\<close> and \<open>_RETRAIN_SCOPE\<close>: whether row \<open>r\<close> is in the scope of the row to insert.\<close>

definition ALERT_SCOPE :: "alert_row \<Rightarrow> alert_row \<Rightarrow> bool" where
  "ALERT_SCOPE new r \<longleftrightarrow> row_rule_id r = row_rule_id new \<and> row_sensor_id r = row_sensor_id new \<and>
     row_equipment_id r = row_equipment_id new \<and> \<not> is_retrain r"

definition RETRAIN_SCOPE :: "alert_row \<Rightarrow> alert_row \<Rightarrow> bool" where
  "RETRAIN_SCOPE new r \<longleftrightarrow> row_model_id r \<noteq> None \<and> row_model_id r = row_model_id new \<and> is_retrain r"

definition in_scope :: "bool \<Rightarrow> alert_row \<Rightarrow> alert_row \<Rightarrow> bool" where
  "in_scope retrain new r = (if retrain then RETRAIN_SCOPE new r else ALERT_SCOPE new r)"

text \<open>The statement \<open>_SAVE_ALERT_ONCE\<close> on one table.\<close>

definition SAVE_ALERT_ONCE :: "bool \<Rightarrow> rat \<Rightarrow> alert_row \<Rightarrow> alert_row list \<Rightarrow> (bool \<times> rat option) \<times> alert_row list" where
  "SAVE_ALERT_ONCE retrain w new rows =
     (let prior = filter (\<lambda>r. in_scope retrain new r \<and> row_triggered_at new - w < row_triggered_at r \<and>
            row_triggered_at r < row_triggered_at new + w) rows;
          prior_at = (if prior = [] then None else Some (Max (set (map row_triggered_at prior))));
          conflict = list_ex (\<lambda>r. row_alert_id r = row_alert_id new \<and> row_triggered_at r = row_triggered_at new) rows
      in if prior = [] \<and> \<not> conflict then ((True, prior_at), rows @ [new]) else ((False, prior_at), rows))"

text \<open>What happens to a statement on its way: it is answered, or lost before or after it committed.\<close>

datatype link = Up | LostBefore worker_error | LostAfter worker_error

definition save_alert_once :: "link \<Rightarrow> tables \<Rightarrow> alert \<Rightarrow> int \<Rightarrow> rat \<Rightarrow> rat \<Rightarrow> bool \<Rightarrow> (bool \<times> rat option) outcome \<times> tables" where
  "save_alert_once l db a aid t w retrain =
     (case schema_name (al_company_id a) of
        Inl _ \<Rightarrow> (Inl (Raised ''ValueError''), db)
      | Inr schema \<Rightarrow>
          (case l of
             LostBefore e \<Rightarrow> (Inl e, db)
           | _ \<Rightarrow>
               (case alert_row_of a aid t of
                  None \<Rightarrow> (Inl InterfaceError, db)
                | Some new \<Rightarrow>
                    (case SAVE_ALERT_ONCE retrain w new (db schema) of
                       (ans, rows) \<Rightarrow>
                         (case l of LostAfter e \<Rightarrow> Inl e | _ \<Rightarrow> Inr ans, db(schema := rows))))))"

section \<open>The engine\<close>

type_synonym scope = "string option list"

record engine =
  tenant_rules :: "(string \<times> rule list) list"
  sensor_name_cache :: "((json \<times> string) \<times> string) list"
  last_emit :: "(scope, rat) od"

record engine_settings =
  es_cooldown :: rat
  es_dedup_max :: nat
  es_features :: "feature_settings option"
  es_feature_max_age :: "rat option"

record worker_env =
  e_now :: rat
  e_fromiso :: "string \<Rightarrow> datetime option"
  e_isoformat :: "rat \<Rightarrow> string"
  e_uuid5 :: "string \<Rightarrow> int"
  e_json_loads :: "string \<Rightarrow> json option"
  e_link :: "alert \<Rightarrow> link"
  e_feat_up :: bool
  e_sensor_name :: "string \<Rightarrow> int \<Rightarrow> string option outcome"
  e_model_row :: "string \<Rightarrow> int \<Rightarrow> string option option outcome"
  e_feature_config :: "string \<Rightarrow> int \<Rightarrow> json option outcome"
  e_labels :: "string \<Rightarrow> (int \<times> string \<times> rat) list outcome"
  e_predict :: "string \<Rightarrow> reading \<Rightarrow> py_float option \<Rightarrow> string \<Rightarrow> ml_reply"
  e_drift :: "string \<Rightarrow> string \<Rightarrow> int \<Rightarrow> py_float \<Rightarrow> ml_reply"

text \<open>What all replicas share.\<close>

record shared =
  sh_alerts :: tables
  sh_features :: features

definition update_rules :: "engine \<Rightarrow> (string \<times> rule list) list \<Rightarrow> engine" where
  "update_rules eng rules = eng\<lparr>tenant_rules := rules\<rparr>"

definition rules_of :: "engine \<Rightarrow> json \<Rightarrow> rule list" where
  "rules_of eng company_id =
     (case company_id of JStr c \<Rightarrow> (case map_of (tenant_rules eng) c of None \<Rightarrow> [] | Some rs \<Rightarrow> rs) | _ \<Rightarrow> [])"

definition repo_get_sensor_name :: "worker_env \<Rightarrow> string \<Rightarrow> json \<Rightarrow> string option outcome" where
  "repo_get_sensor_name E sensor_id company_id =
     (case (schema_name (py_str company_id), uuid_parse sensor_id) of
        (Inr schema, Some n) \<Rightarrow> e_sensor_name E schema n
      | _ \<Rightarrow> Inl (Raised ''ValueError''))"

definition get_sensor_name :: "worker_env \<Rightarrow> engine \<Rightarrow> string \<Rightarrow> json \<Rightarrow> string outcome \<times> engine" where
  "get_sensor_name E eng sensor_id company_id =
     (case map_of (sensor_name_cache eng) (company_id, sensor_id) of
        Some n \<Rightarrow> (Inr n, eng)
      | None \<Rightarrow>
          (case repo_get_sensor_name E sensor_id company_id of
             Inl e \<Rightarrow> (Inl e, eng)
           | Inr (Some n) \<Rightarrow>
               if n \<noteq> [] then (Inr n, eng\<lparr>sensor_name_cache := ((company_id, sensor_id), n) # sensor_name_cache eng\<rparr>)
               else (Inr sensor_id, eng)
           | Inr None \<Rightarrow> (Inr sensor_id, eng)))"

definition cached_within :: "engine \<Rightarrow> scope \<Rightarrow> rat \<Rightarrow> rat \<Rightarrow> bool" where
  "cached_within eng sc t w = (case od_get (last_emit eng) sc of None \<Rightarrow> False | Some l \<Rightarrow> \<bar>t - l\<bar> < w)"

definition remember :: "engine_settings \<Rightarrow> engine \<Rightarrow> scope \<Rightarrow> rat \<Rightarrow> engine" where
  "remember S eng sc t = eng\<lparr>last_emit := od_put (es_dedup_max S) (last_emit eng) sc t\<rparr>"

definition scope_of :: "bool \<Rightarrow> alert \<Rightarrow> scope" where
  "scope_of retrain a =
     (if retrain then [Some (al_company_id a), Some ''retrain'', al_model_id a]
      else [Some (al_company_id a), Some (al_rule_id a), al_sensor_id a, al_equipment_id a])"

definition deterministic_alert_id :: "worker_env \<Rightarrow> scope \<Rightarrow> rat \<Rightarrow> int" where
  "deterministic_alert_id E sc t =
     e_uuid5 E (join_on ''|'' (map (\<lambda>p. case p of None \<Rightarrow> [] | Some s \<Rightarrow> s) sc) @ ''|'' @ e_isoformat E t)"

text \<open>\<open>_emit\<close>: the alert as it was written, or None when it was suppressed.\<close>

definition emit ::
    "engine_settings \<Rightarrow> worker_env \<Rightarrow> engine \<Rightarrow> tables \<Rightarrow> alert \<Rightarrow> bool \<Rightarrow> rat option \<Rightarrow> alert option outcome \<times> engine \<times> tables" where
  "emit S E eng db a retrain cooldown =
     (case al_triggered_at a of
        None \<Rightarrow> (Inl (Raised ''AttributeError''), eng, db)
      | Some d \<Rightarrow>
          (case as_utc_datetime d of
             Inl e \<Rightarrow> (Inl e, eng, db)
           | Inr t \<Rightarrow>
               (let sc = scope_of retrain a; w = (case cooldown of None \<Rightarrow> es_cooldown S | Some c \<Rightarrow> c);
                    a' = a\<lparr>al_triggered_at := Some (utc t)\<rparr>
                in if cached_within eng sc t w then (Inr None, eng, db)
                   else (case save_alert_once (e_link E a') db a' (deterministic_alert_id E sc t) t w retrain of
                      (Inl e, db') \<Rightarrow> (Inl e, eng, db')
                    | (Inr (True, _), db') \<Rightarrow> (Inr (Some a'), remember S eng sc t, db')
                    | (Inr (False, Some p), db') \<Rightarrow> (Inr None, remember S eng sc p, db')
                    | (Inr (False, None), db') \<Rightarrow> (Inr None, eng, db')))))"

section \<open>Evaluating a reading\<close>

fun eval_rules ::
    "engine_settings \<Rightarrow> worker_env \<Rightarrow> reading \<Rightarrow> string \<Rightarrow> rule list \<Rightarrow> alert list \<Rightarrow> engine \<Rightarrow> tables \<Rightarrow>
      alert list outcome \<times> engine \<times> tables" where
  "eval_rules S E r c [] acc eng db = (Inr acc, eng, db)"
| "eval_rules S E r c (rule # rules) acc eng db =
     (case evaluate_rule (e_fromiso E) (e_now E) (e_predict E) r rule c of
        Inl e \<Rightarrow> (Inl e, eng, db)
      | Inr None \<Rightarrow> eval_rules S E r c rules acc eng db
      | Inr (Some a) \<Rightarrow>
          (case emit S E eng db a False None of
             (Inl e, eng', db') \<Rightarrow> (Inl e, eng', db')
           | (Inr None, eng', db') \<Rightarrow> eval_rules S E r c rules acc eng' db'
           | (Inr (Some a'), eng', db') \<Rightarrow> eval_rules S E r c rules (acc @ [a']) eng' db'))"

text \<open>What of a reading goes to the snapshot store: nothing without a store or an equipment.\<close>

definition feed_args :: "engine_settings \<Rightarrow> reading \<Rightarrow> (feature_settings \<times> string \<times> string \<times> py_float) option" where
  "feed_args S r =
     (case (es_features S, rget r ''equipment_id'', rget r ''sensor_id'', rget r ''value'') of
        (Some C, Data (JStr q), Data (JStr sid), Data (JFloat v)) \<Rightarrow> if q = [] then None else Some (C, q, sid, v)
      | _ \<Rightarrow> None)"

text \<open>A failure of the snapshot store is logged, one of the database is not.\<close>

definition feed_features ::
    "engine_settings \<Rightarrow> worker_env \<Rightarrow> engine \<Rightarrow> features \<Rightarrow> reading \<Rightarrow> json \<Rightarrow> unit outcome \<times> engine \<times> features" where
  "feed_features S E eng F r company_id =
     (case feed_args S r of
        None \<Rightarrow> (Inr (), eng, F)
      | Some (C, q, sid, v) \<Rightarrow>
          (case get_sensor_name E eng sid company_id of
             (Inl e, eng') \<Rightarrow> (Inl e, eng', F)
           | (Inr n, eng') \<Rightarrow>
               (let ts = (if field_truthy (rget r ''timestamp'') then rget r ''timestamp''
                          else if field_truthy (rget r ''time'') then rget r ''time'' else Time (e_now E))
                in if \<not> e_feat_up E then (Inr (), eng', F)
                   else (case store_reading C F (e_now E) (py_str company_id) q n ts v of
                      Inl e \<Rightarrow> (Inr (), eng', F)
                    | Inr F' \<Rightarrow> (Inr (), eng', F')))))"

definition evaluate ::
    "engine_settings \<Rightarrow> worker_env \<Rightarrow> engine \<Rightarrow> shared \<Rightarrow> json \<Rightarrow> json \<Rightarrow> alert list outcome \<times> engine \<times> shared" where
  "evaluate S E eng sh sensor_data company_id =
     (case parse_reading (e_fromiso E) (e_now E) sensor_data company_id of
        Inl e \<Rightarrow> (Inl e, eng, sh)
      | Inr r \<Rightarrow>
          (case feed_features S E eng (sh_features sh) r company_id of
             (Inl e, eng1, F) \<Rightarrow> (Inl e, eng1, sh\<lparr>sh_features := F\<rparr>)
           | (Inr _, eng1, F) \<Rightarrow>
               (let sh1 = sh\<lparr>sh_features := F\<rparr>; rules = rules_of eng1 company_id
                in if rules = [] then (Inr [], eng1, sh1)
                   else (case get_applicable_rules (rget r ''sensor_id'') (rget r ''equipment_id'') rules of
                      Inl e \<Rightarrow> (Inl e, eng1, sh1)
                    | Inr applicable \<Rightarrow>
                        (case eval_rules S E r (py_str company_id) applicable [] eng1 (sh_alerts sh1) of
                           (res, eng2, db) \<Rightarrow> (res, eng2, sh1\<lparr>sh_alerts := db\<rparr>))))))"

section \<open>The periodic evaluations\<close>

text \<open>A pass over rules in which a failure of one rule is logged and the next one follows.\<close>

fun pass_rules ::
    "engine_settings \<Rightarrow> worker_env \<Rightarrow> bool \<Rightarrow> rat option \<Rightarrow> (tables \<Rightarrow> 'r \<Rightarrow> alert option outcome) \<Rightarrow> 'r list \<Rightarrow> alert list \<Rightarrow>
      engine \<Rightarrow> tables \<Rightarrow> alert list \<times> engine \<times> tables" where
  "pass_rules S E retrain cooldown build [] acc eng db = (acc, eng, db)"
| "pass_rules S E retrain cooldown build (rule # rules) acc eng db =
     (case build db rule of
        Inr (Some a) \<Rightarrow>
          (case emit S E eng db a retrain cooldown of
             (Inr (Some a'), eng', db') \<Rightarrow> pass_rules S E retrain cooldown build rules (acc @ [a']) eng' db'
           | (_, eng', db') \<Rightarrow> pass_rules S E retrain cooldown build rules acc eng' db')
      | _ \<Rightarrow> pass_rules S E retrain cooldown build rules acc eng db)"

definition get_feature_config_for_model :: "worker_env \<Rightarrow> string \<Rightarrow> string \<Rightarrow> string option" where
  "get_feature_config_for_model E model_id company_id =
     (case (schema_name company_id, uuid_parse model_id) of
        (Inr schema, Some n) \<Rightarrow> (case e_model_row E schema n of Inr (Some fc) \<Rightarrow> fc | _ \<Rightarrow> None)
      | _ \<Rightarrow> None)"

definition get_feature_config :: "worker_env \<Rightarrow> string \<Rightarrow> string \<Rightarrow> json option outcome" where
  "get_feature_config E config_id company_id =
     (case (schema_name company_id, uuid_parse config_id) of
        (Inr schema, Some n) \<Rightarrow> e_feature_config E schema n
      | _ \<Rightarrow> Inl (Raised ''ValueError''))"

text \<open>The names \<open>base_sensors\<close> lists: the column's text is JSON, and a list or an object is walked.\<close>

definition base_sensor_names :: "worker_env \<Rightarrow> json \<Rightarrow> string list option" where
  "base_sensor_names E v =
     (case (case v of JStr t \<Rightarrow> e_json_loads E t | _ \<Rightarrow> Some v) of
        Some (JArr xs) \<Rightarrow> Some (map py_str xs)
      | Some (JObj d) \<Rightarrow> Some (map fst d)
      | _ \<Rightarrow> None)"

definition ml_sensor_data :: "field \<Rightarrow> string \<Rightarrow> (string, py_float) od \<Rightarrow> reading" where
  "ml_sensor_data ts equipment_id snapshot =
     od_set (foldl (\<lambda>r (k, v). od_set r k (Data (JFloat v)))
       [(''timestamp'', ts), (''equipment_id'', Data (JStr equipment_id))] snapshot)
       ''equipment_id'' (Data (JStr equipment_id))"

definition build_ml_alert ::
    "engine_settings \<Rightarrow> worker_env \<Rightarrow> features \<Rightarrow> string \<Rightarrow> string \<Rightarrow> field \<Rightarrow> rule \<Rightarrow> alert option outcome" where
  "build_ml_alert S E F equipment_id company_id ts rule =
     (case ru_model_id rule of
        None \<Rightarrow> Inr None
      | Some model_id \<Rightarrow>
          (case get_feature_config_for_model E model_id company_id of
             None \<Rightarrow> Inr None
           | Some fc \<Rightarrow>
               (case get_feature_config E fc company_id of
                  Inl e \<Rightarrow> Inl e
                | Inr None \<Rightarrow> Inr None
                | Inr (Some base) \<Rightarrow>
                    (case base_sensor_names E base of
                       None \<Rightarrow> Inl (Raised ''TypeError'')
                     | Some names \<Rightarrow>
                         if names = [] then Inr None
                         else if \<not> e_feat_up E then Inl OSError
                         else (case get_current_snapshot (e_fromiso E) F (e_now E) company_id equipment_id names (es_feature_max_age S) of
                            Inl e \<Rightarrow> Inl e
                          | Inr (snapshot, as_of) \<Rightarrow>
                              if length snapshot < length names then Inr None
                              else Inr (evaluate_ml (e_fromiso E) (e_now E) (e_predict E)
                                (ml_sensor_data (if field_truthy ts then ts
                                   else (case as_of of Some t \<Rightarrow> Time t | None \<Rightarrow> Time (e_now E))) equipment_id snapshot)
                                rule company_id))))))"

definition evaluate_equipment_ml_rules ::
    "engine_settings \<Rightarrow> worker_env \<Rightarrow> engine \<Rightarrow> shared \<Rightarrow> string \<Rightarrow> string \<Rightarrow> field \<Rightarrow> alert list \<times> engine \<times> shared" where
  "evaluate_equipment_ml_rules S E eng sh equipment_id company_id ts =
     (if es_features S = None then ([], eng, sh)
      else (let ml_rules = filter (\<lambda>rule. ru_enabled rule \<and> ru_detection_type rule = Some ''ml'' \<and>
                  ru_equipment_id rule = Some equipment_id) (rules_of eng (JStr company_id))
            in case pass_rules S E False None (\<lambda>db. build_ml_alert S E (sh_features sh) equipment_id company_id ts) ml_rules [] eng
                      (sh_alerts sh) of
                 (acc, eng', db) \<Rightarrow> (acc, eng', sh\<lparr>sh_alerts := db\<rparr>)))"

definition drift_rules :: "engine \<Rightarrow> string \<Rightarrow> rule list" where
  "drift_rules eng company_id =
     filter (\<lambda>rule. ru_enabled rule \<and> ru_detection_type rule = Some ''statistical'' \<and> ru_model_id rule \<noteq> None)
       (rules_of eng (JStr company_id))"

definition evaluate_drift_rules ::
    "engine_settings \<Rightarrow> worker_env \<Rightarrow> engine \<Rightarrow> shared \<Rightarrow> string \<Rightarrow> int \<Rightarrow> py_float \<Rightarrow> alert list \<times> engine \<times> shared" where
  "evaluate_drift_rules S E eng sh company_id window_minutes default_share_threshold =
     (case pass_rules S E False None
             (\<lambda>db rule. evaluate_drift (e_now E) (e_drift E) rule company_id window_minutes default_share_threshold)
             (drift_rules eng company_id) [] eng (sh_alerts sh) of
        (acc, eng', db) \<Rightarrow> (acc, eng', sh\<lparr>sh_alerts := db\<rparr>))"

record retrain_settings =
  rs_precision_floor :: rat
  rs_min_labels :: int
  rs_min_drift_alerts :: int
  rs_precision_window_days :: int
  rs_drift_lookback_hours :: int
  rs_cooldown_seconds :: rat
  rs_severity :: string

definition get_retrain_signals ::
    "worker_env \<Rightarrow> tables \<Rightarrow> string \<Rightarrow> string \<Rightarrow> int \<Rightarrow> int \<Rightarrow> (int \<times> int \<times> int) outcome" where
  "get_retrain_signals E db model_id company_id days hours =
     (case (schema_name company_id, uuid_parse model_id) of
        (Inr schema, Some n) \<Rightarrow>
          (case e_labels E schema of
             Inl e \<Rightarrow> Inl e
           | Inr labels \<Rightarrow>
               (let count = (\<lambda>v. int (length (filter (\<lambda>(m, verdict, t). m = n \<and> verdict = v \<and> e_now E - of_int days * 86400 \<le> t) labels)))
                in Inr (count ''true_positive'', count ''false_positive'',
                     int (length (filter (\<lambda>r. row_model_id r = Some n \<and> al_detection_type (row_alert r) = ''statistical'' \<and>
                       al_condition (row_alert r) = ''drift'' \<and> e_now E - of_int hours * 3600 \<le> row_triggered_at r) (db schema))))))
      | _ \<Rightarrow> Inl (Raised ''ValueError''))"

text \<open>The first rule of each model: \<open>seen_models\<close>.\<close>

fun first_per_model :: "string option list \<Rightarrow> rule list \<Rightarrow> rule list" where
  "first_per_model seen [] = []"
| "first_per_model seen (rule # rules) =
     (if ru_model_id rule \<in> set seen then first_per_model seen rules
      else rule # first_per_model (ru_model_id rule # seen) rules)"

definition recommend_retrain :: "worker_env \<Rightarrow> retrain_settings \<Rightarrow> string \<Rightarrow> tables \<Rightarrow> rule \<Rightarrow> alert option outcome" where
  "recommend_retrain E P company_id db rule =
     (case get_retrain_signals E db (the (ru_model_id rule)) company_id (rs_precision_window_days P) (rs_drift_lookback_hours P) of
        Inl e \<Rightarrow> Inl e
      | Inr (tp, fp, recent) \<Rightarrow>
          (case should_recommend_retrain tp fp recent (rs_precision_floor P) (rs_min_labels P) (rs_min_drift_alerts P) of
             Inl e \<Rightarrow> Inl e
           | Inr None \<Rightarrow> Inr None
           | Inr (Some precision) \<Rightarrow>
               Inr (Some (build_retrain_alert (e_now E) rule company_id precision (tp, fp, recent) (rs_severity P)))))"

definition evaluate_retrain_recommendations ::
    "engine_settings \<Rightarrow> worker_env \<Rightarrow> retrain_settings \<Rightarrow> engine \<Rightarrow> shared \<Rightarrow> string \<Rightarrow> alert list \<times> engine \<times> shared" where
  "evaluate_retrain_recommendations S E P eng sh company_id =
     (case pass_rules S E True (Some (rs_cooldown_seconds P)) (recommend_retrain E P company_id)
             (first_per_model [] (drift_rules eng company_id)) [] eng (sh_alerts sh) of
        (acc, eng', db) \<Rightarrow> (acc, eng', sh\<lparr>sh_alerts := db\<rparr>))"

section \<open>Loading the rules\<close>

text \<open>
  The registry's rows (schema, active) and the schemas that exist. The pattern of the query,
  \<open>tenancy.SCHEMA_LIKE\<close>, is the tenant prefix followed by anything.
\<close>

definition TENANT_SCHEMAS_SELECT :: "(string \<times> bool) list \<Rightarrow> string set \<Rightarrow> string list" where
  "TENANT_SCHEMAS_SELECT companies schemata =
     sort (map fst (filter (\<lambda>(schema, active). active \<and> schema \<in> schemata \<and> starts_with schema tenancy_PREFIX) companies))"

definition get_tenant_schemas :: "(string \<times> bool) list \<Rightarrow> string set \<Rightarrow> string list" where
  "get_tenant_schemas companies schemata =
     filter (\<lambda>schema. case company_id_from_schema schema of Inr _ \<Rightarrow> True | Inl _ \<Rightarrow> False)
       (TENANT_SCHEMAS_SELECT companies schemata)"

text \<open>The rows of \<open>alert_rules\<close> with priority and creation time, as the query orders them.\<close>

definition get_active_rules :: "(string \<Rightarrow> (int \<times> rat \<times> rule) list outcome) \<Rightarrow> string \<Rightarrow> rule list outcome" where
  "get_active_rules rows company_id =
     (case schema_name company_id of
        Inl _ \<Rightarrow> Inl (Raised ''ValueError'')
      | Inr schema \<Rightarrow>
          res_map (\<lambda>rs. map (\<lambda>(p, c, r). r)
            (sort_key (\<lambda>(p, c, r). - p) (sort_key (\<lambda>(p, c, r). c) (filter (\<lambda>(p, c, r). ru_enabled r) rs)))) (rows schema))"

text \<open>A tenant whose rules cannot be read gets none.\<close>

definition load_all_tenant_rules ::
    "(string \<times> bool) list \<Rightarrow> string set \<Rightarrow> (string \<Rightarrow> (int \<times> rat \<times> rule) list outcome) \<Rightarrow> (string \<times> rule list) list" where
  "load_all_tenant_rules companies schemata rows =
     foldl (\<lambda>acc schema.
       case company_id_from_schema schema of
         Inl _ \<Rightarrow> acc
       | Inr c \<Rightarrow> od_set acc c (case get_active_rules rows c of Inr rs \<Rightarrow> rs | Inl _ \<Rightarrow> []))
     [] (get_tenant_schemas companies schemata)"

section \<open>The worker's timers\<close>

text \<open>The equipment the model pass visits; a set, so in no order.\<close>

definition ml_targets :: "engine \<Rightarrow> (string \<times> string) set" where
  "ml_targets eng =
     {(q, c). \<exists>rs rule. (c, rs) \<in> set (tenant_rules eng) \<and> rule \<in> set rs \<and> ru_enabled rule \<and>
        ru_detection_type rule = Some ''ml'' \<and> ru_equipment_id rule = Some q}"

definition ml_pass ::
    "engine_settings \<Rightarrow> worker_env \<Rightarrow> (string \<times> string) list \<Rightarrow> engine \<times> shared \<Rightarrow> engine \<times> shared" where
  "ml_pass S E targets st =
     foldl (\<lambda>(eng, sh) (q, c). snd (evaluate_equipment_ml_rules S E eng sh q c (Data JNull))) st targets"

definition drift_pass ::
    "engine_settings \<Rightarrow> worker_env \<Rightarrow> retrain_settings \<Rightarrow> bool \<Rightarrow> int \<Rightarrow> py_float \<Rightarrow> engine \<times> shared \<Rightarrow> engine \<times> shared" where
  "drift_pass S E P retrain_enabled window_minutes share_threshold st =
     foldl (\<lambda>(eng, sh) c.
       case evaluate_drift_rules S E eng sh c window_minutes share_threshold of
         (alerts, eng1, sh1) \<Rightarrow>
           if retrain_enabled then snd (evaluate_retrain_recommendations S E P eng1 sh1 c) else (eng1, sh1))
     st (map fst (tenant_rules (fst st)))"

section \<open>Replicas\<close>

text \<open>
  What a replica of the worker does, in any order: evaluate a reading, run a periodic pass, reload its
  rules, or start again with empty caches.
\<close>

datatype worker_op =
    Reading json json
  | MlPass string string field
  | DriftPass string int py_float
  | RetrainPass string
  | Reload "(string \<times> rule list) list"
  | Restart "(string \<times> rule list) list"

definition fresh_engine :: "(string \<times> rule list) list \<Rightarrow> engine" where
  "fresh_engine rules = \<lparr>tenant_rules = rules, sensor_name_cache = [], last_emit = []\<rparr>"

definition engine_step ::
    "engine_settings \<Rightarrow> retrain_settings \<Rightarrow> worker_env \<Rightarrow> worker_op \<Rightarrow> engine \<Rightarrow> shared \<Rightarrow> engine \<times> shared" where
  "engine_step S P E op eng sh =
     (case op of
        Reading d c \<Rightarrow> snd (evaluate S E eng sh d c)
      | MlPass q c ts \<Rightarrow> snd (evaluate_equipment_ml_rules S E eng sh q c ts)
      | DriftPass c m t \<Rightarrow> snd (evaluate_drift_rules S E eng sh c m t)
      | RetrainPass c \<Rightarrow> snd (evaluate_retrain_recommendations S E P eng sh c)
      | Reload rules \<Rightarrow> (update_rules eng rules, sh)
      | Restart rules \<Rightarrow> (fresh_engine rules, sh))"

definition worker_step ::
    "engine_settings \<Rightarrow> retrain_settings \<Rightarrow> nat \<times> worker_env \<times> worker_op \<Rightarrow> (nat \<Rightarrow> engine) \<times> shared \<Rightarrow> (nat \<Rightarrow> engine) \<times> shared" where
  "worker_step S P ev st =
     (case (ev, st) of ((i, E, op), (engs, sh)) \<Rightarrow>
        (case engine_step S P E op (engs i) sh of (eng, sh') \<Rightarrow> (engs(i := eng), sh')))"

definition worker_run ::
    "engine_settings \<Rightarrow> retrain_settings \<Rightarrow> (nat \<times> worker_env \<times> worker_op) list \<Rightarrow> (nat \<Rightarrow> engine) \<times> shared \<Rightarrow> (nat \<Rightarrow> engine) \<times> shared" where
  "worker_run S P evs st = foldl (\<lambda>st ev. worker_step S P ev st) st evs"

end
