(* ===== verification/Alert_Dedup.thy ===== *)
theory Alert_Dedup
  imports Alert_Engine
begin

text \<open>
  What the rules engine's deduplication guarantees: the distance between alerts of one scope, over any
  interleaving of replicas, restarts and lost links; that the in-memory cache only stands for rows of the
  table and changes no answer; and that a redelivered reading writes nothing.
\<close>

section \<open>Alerts of one scope keep their distance\<close>

text \<open>The rows of a table, pairwise: an alert in the scope of an earlier one is a cooldown away from it.\<close>

definition spaced :: "(bool \<Rightarrow> rat) \<Rightarrow> alert_row list \<Rightarrow> bool" where
  "spaced W rows \<longleftrightarrow>
     sorted_wrt (\<lambda>r r'. in_scope (is_retrain r') r' r \<longrightarrow> W (is_retrain r') \<le> \<bar>row_triggered_at r' - row_triggered_at r\<bar>) rows"

definition windows :: "engine_settings \<Rightarrow> retrain_settings \<Rightarrow> bool \<Rightarrow> rat" where
  "windows S P retrain = (if retrain then rs_cooldown_seconds P else es_cooldown S)"

text \<open>What every emission of the engine satisfies: retrain recommendations, and they alone, carry their condition and a model.\<close>

definition emittable :: "bool \<Rightarrow> alert \<Rightarrow> bool" where
  "emittable retrain a \<longleftrightarrow> (al_condition a = ''retrain_recommended'') = retrain \<and> (retrain \<longrightarrow> al_model_id a \<noteq> None)"

definition grows :: "tables \<Rightarrow> tables \<Rightarrow> bool" where
  "grows db db' \<longleftrightarrow> (\<forall>schema. \<exists>rows. db' schema = db schema @ rows)"

lemma grows_refl [simp]: "grows db db"
  by (simp add: grows_def)

lemma grows_trans: "grows a b \<Longrightarrow> grows b c \<Longrightarrow> grows a c"
  unfolding grows_def by (metis append.assoc)

lemma grows_set: "grows db db' \<Longrightarrow> set (db schema) \<subseteq> set (db' schema)"
  unfolding grows_def by (metis Un_upper1 set_append)

text \<open>The rows that keep an alert from being written.\<close>

definition blocked :: "bool \<Rightarrow> rat \<Rightarrow> alert_row \<Rightarrow> alert_row list \<Rightarrow> bool" where
  "blocked retrain w new rows \<longleftrightarrow>
     (\<exists>r \<in> set rows. in_scope retrain new r \<and> \<bar>row_triggered_at new - row_triggered_at r\<bar> < w \<or>
        row_alert_id r = row_alert_id new \<and> row_triggered_at r = row_triggered_at new)"

definition prior_time :: "bool \<Rightarrow> rat \<Rightarrow> alert_row \<Rightarrow> alert_row list \<Rightarrow> rat option" where
  "prior_time retrain w new rows =
     (let prior = filter (\<lambda>r. in_scope retrain new r \<and> \<bar>row_triggered_at new - row_triggered_at r\<bar> < w) rows
      in if prior = [] then None else Some (Max (set (map row_triggered_at prior))))"

lemma SAVE_ALERT_ONCE_blocked:
  "SAVE_ALERT_ONCE retrain w new rows =
     (if blocked retrain w new rows then ((False, prior_time retrain w new rows), rows)
      else ((True, None), rows @ [new]))"
proof -
  define prior where "prior = filter (\<lambda>r. in_scope retrain new r \<and> \<bar>row_triggered_at new - row_triggered_at r\<bar> < w) rows"
  define conflict where "conflict = list_ex (\<lambda>r. row_alert_id r = row_alert_id new \<and> row_triggered_at r = row_triggered_at new) rows"
  have near: "(x - w < y \<and> y < x + w) = (\<bar>x - y\<bar> < w)" for x y :: rat
    unfolding abs_less_iff by (simp add: algebra_simps conj_commute)
  have b: "blocked retrain w new rows = (prior \<noteq> [] \<or> conflict)"
    unfolding blocked_def prior_def conflict_def filter_empty_conv list_ex_iff by blast
  have p: "prior_time retrain w new rows = (if prior = [] then None else Some (Max (set (map row_triggered_at prior))))"
    unfolding prior_time_def prior_def Let_def ..
  show ?thesis
    unfolding SAVE_ALERT_ONCE_def near prior_def [symmetric] conflict_def [symmetric] b p Let_def by simp
qed

lemma prior_time_row:
  assumes "prior_time retrain w new rows = Some p"
  shows "\<exists>r \<in> set rows. in_scope retrain new r \<and> row_triggered_at r = p"
proof -
  define prior where "prior = filter (\<lambda>r. in_scope retrain new r \<and> \<bar>row_triggered_at new - row_triggered_at r\<bar> < w) rows"
  have "prior \<noteq> []" and p: "p = Max (row_triggered_at ` set prior)"
    using assms unfolding prior_time_def Let_def prior_def [symmetric] by (auto split: if_splits)
  then have "row_triggered_at ` set prior \<noteq> {}" by simp
  then have "p \<in> row_triggered_at ` set prior" unfolding p by (intro Max_in) simp_all
  then show ?thesis by (auto simp: prior_def)
qed

lemma blocked_mono: "blocked retrain w new rows \<Longrightarrow> set rows \<subseteq> set rows' \<Longrightarrow> blocked retrain w new rows'"
  unfolding blocked_def by blast

lemma spaced_snoc:
  assumes "spaced W rows" "is_retrain new = retrain" "\<not> blocked retrain (W retrain) new rows"
  shows "spaced W (rows @ [new])"
  using assms unfolding spaced_def sorted_wrt_append blocked_def by (auto simp: not_less)

text \<open>The ways a save ends.\<close>

lemma save_alert_once_cases:
  assumes "save_alert_once l db a aid t w retrain = (res, db')"
  obtains (failed) e where "res = Inl e" "db' = db" "l \<noteq> Up \<or> (\<exists>e. schema_name (al_company_id a) = Inl e) \<or> alert_row_of a aid t = None"
  | (held) schema new where "schema_name (al_company_id a) = Inr schema" "alert_row_of a aid t = Some new"
      "blocked retrain w new (db schema)" "db' = db"
      "(l \<noteq> Up \<and> (\<exists>e. res = Inl e)) \<or> res = Inr (False, prior_time retrain w new (db schema))"
  | (written) schema new where "schema_name (al_company_id a) = Inr schema" "alert_row_of a aid t = Some new"
      "\<not> blocked retrain w new (db schema)" "db' = db(schema := db schema @ [new])"
      "(l \<noteq> Up \<and> (\<exists>e. res = Inl e)) \<or> res = Inr (True, None)"
proof (cases "schema_name (al_company_id a)")
  case (Inl e)
  with assms show ?thesis by (intro failed) (auto simp: save_alert_once_def)
next
  case (Inr schema)
  show ?thesis
  proof (cases "(\<exists>e. l = LostBefore e) \<or> alert_row_of a aid t = None")
    case True
    with Inr assms have "\<exists>e. res = Inl e" "db' = db" "l \<noteq> Up \<or> alert_row_of a aid t = None"
      by (auto simp: save_alert_once_def split: link.splits)
    then show ?thesis using failed by blast
  next
    case False
    then obtain new where new: "alert_row_of a aid t = Some new" by auto
    show ?thesis
    proof (cases "blocked retrain w new (db schema)")
      case True
      with Inr new False assms show ?thesis
        by (intro held) (auto simp: save_alert_once_def SAVE_ALERT_ONCE_blocked split: link.splits)
    next
      case free: False
      with Inr new False assms show ?thesis
        by (intro written) (auto simp: save_alert_once_def SAVE_ALERT_ONCE_blocked split: link.splits)
    qed
  qed
qed

section \<open>The cache stands for rows\<close>

text \<open>An entry of the cache is the time of a row that every alert of its scope would find.\<close>

definition cache_sound :: "engine \<Rightarrow> tables \<Rightarrow> bool" where
  "cache_sound eng db \<longleftrightarrow> od_wf (last_emit eng) \<and>
     (\<forall>sc l. od_get (last_emit eng) sc = Some l \<longrightarrow>
        (\<forall>retrain a aid t schema new. scope_of retrain a = sc \<and> emittable retrain a \<and>
           schema_name (al_company_id a) = Inr schema \<and> alert_row_of a aid t = Some new \<longrightarrow>
           (\<exists>r \<in> set (db schema). in_scope retrain new r \<and> row_triggered_at r = l)))"

lemma cache_sound_fresh [simp]: "last_emit eng = [] \<Longrightarrow> cache_sound eng db"
  by (simp add: cache_sound_def od_wf_def)

lemma cache_sound_grows: "cache_sound eng db \<Longrightarrow> grows db db' \<Longrightarrow> cache_sound eng db'"
  unfolding cache_sound_def by (blast dest: grows_set [THEN subsetD])

lemma alert_row_of_columns:
  assumes "alert_row_of a aid t = Some new"
  shows "row_alert_id new = aid" "row_triggered_at new = t" "row_alert new = a" "uuid_parse (al_rule_id a) = Some (row_rule_id new)"
    "encode_uuid (al_sensor_id a) = Some (row_sensor_id new)" "encode_uuid (al_equipment_id a) = Some (row_equipment_id new)"
    "encode_uuid (al_model_id a) = Some (row_model_id new)"
  using assms by (auto simp: alert_row_of_def split: option.splits if_splits)

lemma in_scope_same:
  assumes "scope_of retrain a = scope_of retrain' a'" "alert_row_of a aid t = Some new" "alert_row_of a' aid' t' = Some new'"
  shows "retrain' = retrain" "in_scope retrain new r = in_scope retrain new' r" "al_company_id a = al_company_id a'"
proof -
  note c = alert_row_of_columns [OF assms(2)] and c' = alert_row_of_columns [OF assms(3)]
  show r: "retrain' = retrain" and "al_company_id a = al_company_id a'"
    using assms(1) by (auto simp: scope_of_def split: if_splits)
  show "in_scope retrain new r = in_scope retrain new' r"
  proof (cases retrain)
    case True
    then have "al_model_id a = al_model_id a'" using assms(1) r by (simp add: scope_of_def)
    then show ?thesis using True c(7) c'(7) by (simp add: in_scope_def RETRAIN_SCOPE_def)
  next
    case False
    then have "al_rule_id a = al_rule_id a'" "al_sensor_id a = al_sensor_id a'" "al_equipment_id a = al_equipment_id a'"
      using assms(1) r by (simp_all add: scope_of_def)
    then show ?thesis using False c(4,5,6) c'(4,5,6) by (simp add: in_scope_def ALERT_SCOPE_def)
  qed
qed

lemma in_scope_self:
  assumes "alert_row_of a aid t = Some new" "emittable retrain a"
  shows "in_scope retrain new new" "is_retrain new = retrain"
proof -
  note c = alert_row_of_columns [OF assms(1)]
  show r: "is_retrain new = retrain" using assms(2) c(3) by (simp add: is_retrain_def emittable_def)
  have "retrain \<longrightarrow> row_model_id new \<noteq> None"
    using c(7) assms(2) by (cases "al_model_id a") (auto simp: emittable_def encode_uuid_def dest: sym)
  with r show "in_scope retrain new new" by (simp add: in_scope_def ALERT_SCOPE_def RETRAIN_SCOPE_def)
qed

lemma scope_of_at [simp]: "scope_of retrain (a\<lparr>al_triggered_at := x\<rparr>) = scope_of retrain a"
  by (simp add: scope_of_def)

lemma emittable_at [simp]: "emittable retrain (a\<lparr>al_triggered_at := x\<rparr>) = emittable retrain a"
  by (simp add: emittable_def)

text \<open>Remembering the time of a row of the scope keeps the cache sound.\<close>

lemma cache_sound_remember:
  assumes sound: "cache_sound eng db" and row: "alert_row_of a aid t = Some new" "schema_name (al_company_id a) = Inr schema"
    and r: "r \<in> set (db schema)" "in_scope retrain new r" "row_triggered_at r = l"
  shows "cache_sound (remember S eng (scope_of retrain a) l) db"
proof -
  have wf: "od_wf (last_emit eng)" using sound by (simp add: cache_sound_def)
  let ?d = "last_emit (remember S eng (scope_of retrain a) l)"
  have d: "?d = od_put (es_dedup_max S) (last_emit eng) (scope_of retrain a) l" by (simp add: remember_def)
  have found: "\<exists>r \<in> set (db schema'). in_scope retrain' new' r \<and> row_triggered_at r = l'"
    if get: "od_get ?d (scope_of retrain' a') = Some l'" and a': "emittable retrain' a'"
      "schema_name (al_company_id a') = Inr schema'" "alert_row_of a' aid' t' = Some new'" for retrain' a' l' aid' t' schema' new'
  proof (cases "scope_of retrain' a' = scope_of retrain a")
    case True
    have "l' = l"
    proof (cases "es_dedup_max S")
      case 0
      then show ?thesis using get d by (simp add: od_put_def od_evict_def)
    next
      case (Suc n)
      then show ?thesis using get d True od_put_get [of "es_dedup_max S" "last_emit eng" "scope_of retrain a" l] by simp
    qed
    then show ?thesis
      using in_scope_same [OF True a'(3) row(1)] a'(2) row(2) r by auto
  next
    case False
    then have "od_get (last_emit eng) (scope_of retrain' a') = Some l'"
      using get d od_put_other [OF wf] by metis
    then show ?thesis using sound a' unfolding cache_sound_def by blast
  qed
  show ?thesis unfolding cache_sound_def
  proof (intro conjI allI impI)
    show "od_wf ?d" using wf d by simp
  qed (use found in blast)
qed

section \<open>Every operation keeps the distance\<close>

definition table_ok :: "engine_settings \<Rightarrow> (bool \<Rightarrow> rat) \<Rightarrow> engine \<Rightarrow> tables \<Rightarrow> bool" where
  "table_ok S W eng db \<longleftrightarrow> (\<forall>schema. spaced W (db schema)) \<and> cache_sound eng db \<and> length (last_emit eng) \<le> es_dedup_max S"

lemma cache_sound_cong: "last_emit eng' = last_emit eng \<Longrightarrow> cache_sound eng' db = cache_sound eng db"
  by (simp add: cache_sound_def)

definition cooldown_of :: "engine_settings \<Rightarrow> rat option \<Rightarrow> rat" where
  "cooldown_of S cooldown = (case cooldown of None \<Rightarrow> es_cooldown S | Some c \<Rightarrow> c)"

text \<open>The ways an emission ends, with what it asked the table.\<close>

lemma emit_cases:
  assumes "emit S E eng db a retrain cooldown = (res, eng', db')"
  obtains (untouched) "eng' = eng" "db' = db"
  | (saved) t sres where "as_utc_datetime (the (al_triggered_at a)) = Inr t"
      "save_alert_once (e_link E (a\<lparr>al_triggered_at := Some (utc t)\<rparr>)) db (a\<lparr>al_triggered_at := Some (utc t)\<rparr>)
         (deterministic_alert_id E (scope_of retrain a) t) t (cooldown_of S cooldown) retrain = (sres, db')"
      "eng' = (case sres of Inl e \<Rightarrow> eng | Inr (True, _) \<Rightarrow> remember S eng (scope_of retrain a) t
         | Inr (False, Some p) \<Rightarrow> remember S eng (scope_of retrain a) p | Inr (False, None) \<Rightarrow> eng)"
proof (cases "al_triggered_at a")
  case None
  with assms untouched show ?thesis by (simp add: emit_def)
next
  case (Some d)
  show ?thesis
  proof (cases "as_utc_datetime d")
    case (Inl e)
    with Some assms untouched show ?thesis by (simp add: emit_def)
  next
    case (Inr t)
    obtain sres db1 where sv: "save_alert_once (e_link E (a\<lparr>al_triggered_at := Some (utc t)\<rparr>)) db (a\<lparr>al_triggered_at := Some (utc t)\<rparr>)
         (deterministic_alert_id E (scope_of retrain a) t) t (cooldown_of S cooldown) retrain = (sres, db1)" by force
    show ?thesis
    proof (cases "cached_within eng (scope_of retrain a) t (cooldown_of S cooldown)")
      case True
      with Some Inr assms untouched show ?thesis by (simp add: emit_def cooldown_of_def [symmetric] Let_def)
    next
      case False
      with Some Inr assms sv
      have "db' = db1" "eng' = (case sres of Inl e \<Rightarrow> eng | Inr (True, _) \<Rightarrow> remember S eng (scope_of retrain a) t
         | Inr (False, Some p) \<Rightarrow> remember S eng (scope_of retrain a) p | Inr (False, None) \<Rightarrow> eng)"
        by (auto simp: emit_def cooldown_of_def [symmetric] Let_def split: sum.splits prod.splits bool.splits option.splits)
      with saved [of t sres] Some Inr sv show ?thesis by simp
    qed
  qed
qed

lemma remember_keeps [simp]:
  "tenant_rules (remember S eng sc l) = tenant_rules eng" "length (last_emit (remember S eng sc l)) \<le> es_dedup_max S"
  by (simp_all add: remember_def od_put_bound)

lemma emit_keeps_cache:
  assumes e: "emit S E eng db a retrain cooldown = (res, eng', db')" and a: "emittable retrain a" and ok: "cache_sound eng db"
  shows "cache_sound eng' db' \<and> grows db db' \<and> tenant_rules eng' = tenant_rules eng \<and>
    (length (last_emit eng) \<le> es_dedup_max S \<longrightarrow> length (last_emit eng') \<le> es_dedup_max S)"
  using e
proof (cases rule: emit_cases)
  case untouched
  with ok show ?thesis by simp
next
  case (saved t sres)
  let ?a = "a\<lparr>al_triggered_at := Some (utc t)\<rparr>"
  have a': "emittable retrain ?a" using a by simp
  from saved(2) show ?thesis
  proof (cases rule: save_alert_once_cases)
    case (failed e)
    with saved(3) ok show ?thesis by simp
  next
    case (held schema new)
    have "cache_sound (remember S eng (scope_of retrain a) p) db" if "prior_time retrain (cooldown_of S cooldown) new (db schema) = Some p" for p
      using prior_time_row [OF that] cache_sound_remember [of eng db ?a _ t new schema] held(1,2) ok by auto
    with held saved(3) ok show ?thesis by (auto split: option.splits)
  next
    case (written schema new)
    have g: "grows db db'" using written(4) by (simp add: grows_def)
    have "cache_sound eng db'" using cache_sound_grows [OF ok g] .
    moreover have "cache_sound (remember S eng (scope_of retrain a) t) db'"
      using cache_sound_remember [of eng db' ?a _ t new schema new retrain t S] calculation written(1,2,4)
        in_scope_self [OF written(2) a'] alert_row_of_columns [OF written(2)] by auto
    ultimately show ?thesis using g written(5) saved(3) by auto
  qed
qed

lemma emit_keeps:
  assumes e: "emit S E eng db a retrain cooldown = (res, eng', db')" and a: "emittable retrain a"
    and w: "cooldown_of S cooldown = W retrain" and ok: "table_ok S W eng db"
  shows "table_ok S W eng' db' \<and> grows db db' \<and> tenant_rules eng' = tenant_rules eng"
proof -
  have "spaced W (db' s)" for s
    using e
  proof (cases rule: emit_cases)
    case (saved t sres)
    from saved(2) show ?thesis
    proof (cases rule: save_alert_once_cases)
      case (written schema new)
      then show ?thesis
        using ok w a spaced_snoc [of W "db schema" new retrain] in_scope_self [OF written(2), of retrain]
        by (auto simp: table_ok_def)
    qed (use ok in \<open>simp_all add: table_ok_def\<close>)
  qed (use ok in \<open>simp add: table_ok_def\<close>)
  with emit_keeps_cache [OF e a] ok show ?thesis by (simp add: table_ok_def)
qed

lemma threshold_fires_condition: "threshold_fires v rule = Some (c, t) \<Longrightarrow> c \<noteq> ''retrain_recommended''"
  by (auto simp: threshold_fires_def condition_fires_def min_max_fires_def max_fires_def split: option.splits if_splits)

lemma evaluate_threshold_emittable: "evaluate_threshold fromiso now r rule c = Inr (Some a) \<Longrightarrow> emittable False a"
  by (auto simp: evaluate_threshold_def emittable_def dest: threshold_fires_condition
      split: field.splits json.splits option.splits prod.splits)

lemma evaluate_ml_emittable: "evaluate_ml fromiso now predict r rule c = Some a \<Longrightarrow> emittable False a"
  by (auto simp: evaluate_ml_def emittable_def Let_def split: option.splits ml_reply.splits json.splits if_splits)

lemma evaluate_drift_emittable: "evaluate_drift now drift rule c m t = Inr (Some a) \<Longrightarrow> emittable False a"
  by (auto simp: evaluate_drift_def emittable_def Let_def split: option.splits ml_reply.splits json.splits if_splits)

lemma evaluate_rule_emittable: "evaluate_rule fromiso now predict r rule c = Inr (Some a) \<Longrightarrow> emittable False a"
  by (auto simp: evaluate_rule_def evaluate_statistical_def split: if_splits
      dest: evaluate_threshold_emittable evaluate_ml_emittable)

lemma build_ml_alert_emittable: "build_ml_alert S E F q c ts rule = Inr (Some a) \<Longrightarrow> emittable False a"
  by (auto simp: build_ml_alert_def split: option.splits sum.splits if_splits prod.splits dest: evaluate_ml_emittable)

lemma recommend_retrain_emittable:
  "recommend_retrain E P c db rule = Inr (Some a) \<Longrightarrow> ru_model_id rule \<noteq> None \<Longrightarrow> emittable True a"
  by (auto simp: recommend_retrain_def build_retrain_alert_def emittable_def split: sum.splits option.splits prod.splits)

lemma first_per_model_subset: "set (first_per_model seen rules) \<subseteq> set rules"
  by (induction seen rules rule: first_per_model.induct) auto

lemma eval_rules_keeps:
  assumes "eval_rules S E r c rules acc eng db = (res, eng', db')" "table_ok S W eng db" "es_cooldown S = W False"
  shows "table_ok S W eng' db' \<and> grows db db' \<and> tenant_rules eng' = tenant_rules eng"
  using assms(1,2)
proof (induction rules arbitrary: acc eng db)
  case (Cons rule rules)
  show ?case
  proof (cases "\<exists>a. evaluate_rule (e_fromiso E) (e_now E) (e_predict E) r rule c = Inr (Some a)")
    case True
    then obtain a where a: "evaluate_rule (e_fromiso E) (e_now E) (e_predict E) r rule c = Inr (Some a)" by blast
    obtain eres eng1 db1 where em: "emit S E eng db a False None = (eres, eng1, db1)" using prod_cases3 by blast
    have k: "table_ok S W eng1 db1 \<and> grows db db1 \<and> tenant_rules eng1 = tenant_rules eng"
      using emit_keeps [OF em evaluate_rule_emittable [OF a] _ Cons.prems(2)] assms(3) by (simp add: cooldown_of_def)
    then have "table_ok S W eng1 db1" by simp
    show ?thesis
    proof (cases eres)
      case (Inl e)
      with a em Cons.prems(1) k show ?thesis by simp
    next
      case (Inr x)
      with a em Cons.prems(1) obtain acc' where "eval_rules S E r c rules acc' eng1 db1 = (res, eng', db')"
        by (auto split: option.splits)
      from Cons.IH [OF this \<open>table_ok S W eng1 db1\<close>] k show ?thesis using grows_trans by auto
    qed
  next
    case False
    then show ?thesis using Cons by (auto split: sum.splits option.splits)
  qed
qed simp

lemma pass_rules_keeps:
  assumes "pass_rules S E retrain cooldown build rules acc eng db = (res, eng', db')" "table_ok S W eng db"
    and "cooldown_of S cooldown = W retrain" and "\<And>db rule a. rule \<in> set rules \<Longrightarrow> build db rule = Inr (Some a) \<Longrightarrow> emittable retrain a"
  shows "table_ok S W eng' db' \<and> grows db db' \<and> tenant_rules eng' = tenant_rules eng"
  using assms(1,2,4)
proof (induction rules arbitrary: acc eng db)
  case (Cons rule rules)
  show ?case
  proof (cases "\<exists>a. build db rule = Inr (Some a)")
    case True
    then obtain a where a: "build db rule = Inr (Some a)" by blast
    obtain eres eng1 db1 where em: "emit S E eng db a retrain cooldown = (eres, eng1, db1)" using prod_cases3 by blast
    have k: "table_ok S W eng1 db1 \<and> grows db db1 \<and> tenant_rules eng1 = tenant_rules eng"
      using emit_keeps [OF em Cons.prems(3) [OF _ a] assms(3) Cons.prems(2)] by simp
    then have ok: "table_ok S W eng1 db1" by simp
    obtain acc' where "pass_rules S E retrain cooldown build rules acc' eng1 db1 = (res, eng', db')"
      using a em Cons.prems(1) by (auto split: sum.splits option.splits)
    from Cons.IH [OF this ok] Cons.prems(3) k show ?thesis using grows_trans by (metis list.set_intros(2))
  next
    case False
    then have "pass_rules S E retrain cooldown build rules acc eng db = (res, eng', db')"
      using Cons.prems(1) by (auto split: sum.splits option.splits)
    from Cons.IH [OF this Cons.prems(2)] Cons.prems(3) show ?thesis by (metis list.set_intros(2))
  qed
qed simp

lemma get_sensor_name_keeps:
  "get_sensor_name E eng sid c = (res, eng') \<Longrightarrow> last_emit eng' = last_emit eng \<and> tenant_rules eng' = tenant_rules eng"
  by (auto simp: get_sensor_name_def split: option.splits sum.splits if_splits)

lemma feed_features_keeps:
  "feed_features S E eng F r c = (res, eng', F') \<Longrightarrow> last_emit eng' = last_emit eng \<and> tenant_rules eng' = tenant_rules eng"
  by (auto simp: feed_features_def Let_def split: option.splits prod.splits sum.splits if_splits dest: get_sensor_name_keeps)

lemma table_ok_cong: "last_emit eng' = last_emit eng \<Longrightarrow> table_ok S W eng' db = table_ok S W eng db"
  using cache_sound_cong [of eng' eng db] by (simp add: table_ok_def)

lemma evaluate_keeps:
  assumes "evaluate S E eng sh d c = (res, eng', sh')" "table_ok S W eng (sh_alerts sh)" "es_cooldown S = W False"
  shows "table_ok S W eng' (sh_alerts sh') \<and> grows (sh_alerts sh) (sh_alerts sh') \<and> tenant_rules eng' = tenant_rules eng"
proof (cases "parse_reading (e_fromiso E) (e_now E) d c")
  case (Inl e)
  with assms show ?thesis by (simp add: evaluate_def)
next
  case (Inr r)
  obtain fres eng1 F where f: "feed_features S E eng (sh_features sh) r c = (fres, eng1, F)" using prod_cases3 by blast
  note k = feed_features_keeps [OF f]
  have ok: "table_ok S W eng1 (sh_alerts sh)" using assms(2) table_ok_cong [of eng1 eng S W] k by simp
  show ?thesis
  proof (cases "\<exists>rules u. fres = Inr u \<and> rules_of eng1 c \<noteq> [] \<and>
      get_applicable_rules (rget r ''sensor_id'') (rget r ''equipment_id'') (rules_of eng1 c) = Inr rules")
    case True
    then obtain rules where g: "rules_of eng1 c \<noteq> []" "fres = Inr ()"
        "get_applicable_rules (rget r ''sensor_id'') (rget r ''equipment_id'') (rules_of eng1 c) = Inr rules" by auto
    obtain res2 eng2 db where ev: "eval_rules S E r (py_str c) rules [] eng1 (sh_alerts sh) = (res2, eng2, db)"
      using prod_cases3 by blast
    have "evaluate S E eng sh d c = (res2, eng2, sh\<lparr>sh_features := F, sh_alerts := db\<rparr>)"
      using Inr f g ev by (simp add: evaluate_def Let_def)
    with assms(1) have "eng' = eng2" "sh_alerts sh' = db" by auto
    with eval_rules_keeps [OF ev ok assms(3)] k show ?thesis by simp
  next
    case False
    then have "eng' = eng1" "sh_alerts sh' = sh_alerts sh"
      using assms(1) Inr f by (auto simp: evaluate_def Let_def split: sum.splits if_splits)
    with ok k show ?thesis by simp
  qed
qed

lemma engine_step_keeps:
  assumes "engine_step S P E op eng sh = (eng', sh')" "table_ok S (windows S P) eng (sh_alerts sh)"
  shows "table_ok S (windows S P) eng' (sh_alerts sh') \<and> grows (sh_alerts sh) (sh_alerts sh')"
proof (cases op)
  case (Reading d c)
  then obtain res where "evaluate S E eng sh d c = (res, eng', sh')" using assms(1) by (cases "evaluate S E eng sh d c") (simp add: engine_step_def)
  from evaluate_keeps [OF this assms(2)] show ?thesis by (simp add: windows_def)
next
  case (MlPass q c ts)
  show ?thesis
  proof (cases "es_features S = None")
    case True
    with assms MlPass show ?thesis by (simp add: engine_step_def evaluate_equipment_ml_rules_def)
  next
    case False
    let ?build = "\<lambda>db. build_ml_alert S E (sh_features sh) q c ts"
    let ?rules = "filter (\<lambda>rule. ru_enabled rule \<and> ru_detection_type rule = Some ''ml'' \<and> ru_equipment_id rule = Some q)
      (rules_of eng (JStr c))"
    obtain acc eng1 db where p: "pass_rules S E False None ?build ?rules [] eng (sh_alerts sh) = (acc, eng1, db)"
      using prod_cases3 by blast
    then have "eng' = eng1" "sh_alerts sh' = db"
      using assms(1) MlPass False by (auto simp: engine_step_def evaluate_equipment_ml_rules_def)
    with pass_rules_keeps [OF p assms(2)] build_ml_alert_emittable show ?thesis
      by (simp add: cooldown_of_def windows_def)
  qed
next
  case (DriftPass c m t)
  let ?build = "\<lambda>db rule. evaluate_drift (e_now E) (e_drift E) rule c m t"
  obtain acc eng1 db where p: "pass_rules S E False None ?build (drift_rules eng c) [] eng (sh_alerts sh) = (acc, eng1, db)"
    using prod_cases3 by blast
  then have "eng' = eng1" "sh_alerts sh' = db"
    using assms(1) DriftPass by (auto simp: engine_step_def evaluate_drift_rules_def)
  with pass_rules_keeps [OF p assms(2)] evaluate_drift_emittable show ?thesis by (simp add: cooldown_of_def windows_def)
next
  case (RetrainPass c)
  let ?rules = "first_per_model [] (drift_rules eng c)"
  obtain acc eng1 db where p: "pass_rules S E True (Some (rs_cooldown_seconds P)) (recommend_retrain E P c) ?rules [] eng (sh_alerts sh) = (acc, eng1, db)"
    using prod_cases3 by blast
  then have e: "eng' = eng1" "sh_alerts sh' = db"
    using assms(1) RetrainPass by (auto simp: engine_step_def evaluate_retrain_recommendations_def)
  have "emittable True a" if "rule \<in> set ?rules" "recommend_retrain E P c db rule = Inr (Some a)" for db rule a
    using that first_per_model_subset [of "[]" "drift_rules eng c"] recommend_retrain_emittable by (auto simp: drift_rules_def)
  from pass_rules_keeps [OF p assms(2) _ this] e show ?thesis by (simp add: cooldown_of_def windows_def)
next
  case (Reload rules)
  then have "last_emit eng' = last_emit eng" "sh' = sh" using assms(1) by (auto simp: engine_step_def update_rules_def)
  then show ?thesis using assms(2) table_ok_cong [of eng' eng S] by simp
next
  case (Restart rules)
  then show ?thesis using assms by (auto simp: engine_step_def fresh_engine_def table_ok_def)
qed

lemma worker_run_keeps:
  assumes "worker_run S P evs (engs, sh) = (engs', sh')" "\<forall>i. table_ok S (windows S P) (engs i) (sh_alerts sh)"
  shows "\<forall>i. table_ok S (windows S P) (engs' i) (sh_alerts sh')"
  using assms
proof (induction evs arbitrary: engs sh)
  case (Cons ev evs)
  obtain i E op where ev: "ev = (i, E, op)" using prod_cases3 by blast
  obtain eng1 sh1 where st: "engine_step S P E op (engs i) sh = (eng1, sh1)" by force
  have k: "table_ok S (windows S P) eng1 (sh_alerts sh1)" "grows (sh_alerts sh) (sh_alerts sh1)"
    using engine_step_keeps [OF st] Cons.prems(2) by auto
  have "table_ok S (windows S P) ((engs(i := eng1)) j) (sh_alerts sh1)" for j
    using k Cons.prems(2) cache_sound_grows [OF _ k(2), of "engs j"] by (simp add: table_ok_def)
  moreover have "worker_run S P evs (engs(i := eng1), sh1) = (engs', sh')"
    using Cons.prems(1) ev st by (simp add: worker_run_def worker_step_def)
  ultimately show ?case using Cons.IH by blast
qed (simp add: worker_run_def)

text \<open>
  C5. Over any run of any number of replicas, each evaluating readings, running its passes, reloading
  its rules and restarting in any order, with the link to the database lost before or after any
  statement, two alerts of one scope in one tenant's table are at least the scope's cooldown apart: the
  rule's for (rule, sensor, equipment), the retrain cooldown for a model's recommendations. Every dedup
  cache stays within its bound.
\<close>

theorem alerts_spaced:
  assumes "worker_run S P evs (\<lambda>i. fresh_engine (rules i), \<lparr>sh_alerts = (\<lambda>schema. []), sh_features = F\<rparr>) = (engs, sh)"
  shows "(\<forall>schema i j. i < j \<and> j < length (sh_alerts sh schema) \<and>
      in_scope (is_retrain (sh_alerts sh schema ! j)) (sh_alerts sh schema ! j) (sh_alerts sh schema ! i) \<longrightarrow>
      (if is_retrain (sh_alerts sh schema ! j) then rs_cooldown_seconds P else es_cooldown S)
        \<le> \<bar>row_triggered_at (sh_alerts sh schema ! j) - row_triggered_at (sh_alerts sh schema ! i)\<bar>) \<and>
    (\<forall>i. length (last_emit (engs i)) \<le> es_dedup_max S)"
proof -
  have "\<forall>i. table_ok S (windows S P) (engs i) (sh_alerts sh)"
    using worker_run_keeps [OF assms] by (simp add: table_ok_def fresh_engine_def spaced_def)
  then show ?thesis
    unfolding table_ok_def spaced_def windows_def sorted_wrt_iff_nth_less by blast
qed

section \<open>The cache changes no answer\<close>

text \<open>\<open>_emit\<close> without a cache: every alert is put to the table.\<close>

definition emit_db ::
    "engine_settings \<Rightarrow> worker_env \<Rightarrow> tables \<Rightarrow> alert \<Rightarrow> bool \<Rightarrow> rat option \<Rightarrow> alert option outcome \<times> tables" where
  "emit_db S E db a retrain cooldown =
     (case al_triggered_at a of
        None \<Rightarrow> (Inl (Raised ''AttributeError''), db)
      | Some d \<Rightarrow>
          (case as_utc_datetime d of
             Inl e \<Rightarrow> (Inl e, db)
           | Inr t \<Rightarrow>
               (let a' = a\<lparr>al_triggered_at := Some (utc t)\<rparr>
                in case save_alert_once (e_link E a') db a' (deterministic_alert_id E (scope_of retrain a) t) t
                         (cooldown_of S cooldown) retrain of
                     (Inl e, db') \<Rightarrow> (Inl e, db')
                   | (Inr (ins, _), db') \<Rightarrow> (Inr (if ins then Some a' else None), db'))))"

text \<open>An alert the table can hold.\<close>

definition storable :: "alert \<Rightarrow> bool" where
  "storable a \<longleftrightarrow> (\<exists>schema. schema_name (al_company_id a) = Inr schema) \<and> (\<forall>aid t. alert_row_of a aid t \<noteq> None)"

lemma alert_row_of_at: "alert_row_of (a\<lparr>al_triggered_at := x\<rparr>) aid t =
    map_option (\<lambda>r. r\<lparr>row_alert := a\<lparr>al_triggered_at := x\<rparr>\<rparr>) (alert_row_of a aid t)"
  by (auto simp: alert_row_of_def split: option.splits)

lemma storable_at [simp]: "storable (a\<lparr>al_triggered_at := x\<rparr>) = storable a"
  by (simp add: storable_def alert_row_of_at)

lemma storable_row:
  assumes "storable a"
  obtains schema new where "schema_name (al_company_id a) = Inr schema" "alert_row_of a aid t = Some new"
  using assms unfolding storable_def by blast

text \<open>What the cache suppresses the table would have suppressed.\<close>

lemma cached_blocked:
  assumes "cache_sound eng db" "emittable retrain a" "cached_within eng (scope_of retrain a) t w"
    and row: "schema_name (al_company_id a) = Inr schema" "alert_row_of a aid t = Some new"
  shows "blocked retrain w new (db schema)"
proof -
  obtain l where l: "od_get (last_emit eng) (scope_of retrain a) = Some l" "\<bar>t - l\<bar> < w"
    using assms(3) by (auto simp: cached_within_def split: option.splits)
  with assms(1,2) row obtain r where "r \<in> set (db schema)" "in_scope retrain new r" "row_triggered_at r = l"
    unfolding cache_sound_def by blast
  then show ?thesis using l(2) alert_row_of_columns(2) [OF row(2)] by (auto simp: blocked_def)
qed

lemma emit_answer:
  assumes sound: "cache_sound eng db" and a: "emittable retrain a" "storable a" and up: "\<And>a. e_link E a = Up"
  shows "(fst (emit S E eng db a retrain cooldown), snd (snd (emit S E eng db a retrain cooldown))) = emit_db S E db a retrain cooldown"
proof (cases "al_triggered_at a")
  case None
  then show ?thesis by (simp add: emit_def emit_db_def)
next
  case (Some d)
  show ?thesis
  proof (cases "as_utc_datetime d")
    case (Inl e)
    with Some show ?thesis by (simp add: emit_def emit_db_def)
  next
    case (Inr t)
    let ?a = "a\<lparr>al_triggered_at := Some (utc t)\<rparr>"
    let ?w = "cooldown_of S cooldown"
    obtain schema new where row: "schema_name (al_company_id ?a) = Inr schema"
        "alert_row_of ?a (deterministic_alert_id E (scope_of retrain a) t) t = Some new"
      using storable_row [of ?a] a(2) by (metis storable_at)
    show ?thesis
    proof (cases "cached_within eng (scope_of retrain a) t ?w")
      case True
      then have "blocked retrain ?w new (db schema)"
        using cached_blocked [OF sound, of retrain ?a t ?w schema _ new] a(1) row by simp
      with True Some Inr row up show ?thesis
        by (simp add: emit_def emit_db_def cooldown_of_def [symmetric] Let_def save_alert_once_def SAVE_ALERT_ONCE_blocked)
    next
      case False
      with Some Inr row up show ?thesis
        by (simp add: emit_def emit_db_def cooldown_of_def [symmetric] Let_def save_alert_once_def SAVE_ALERT_ONCE_blocked
            split: option.splits)
    qed
  qed
qed

text \<open>The alerts a reading raises can be stored, when its site is a text and the rules' ids are UUIDs.\<close>

lemma uuid_text_encodes: "is_uuid_text v \<Longrightarrow> \<exists>n. uuid_parse (py_str (field_json v)) = Some n \<and> str_or_none v = Some (py_str (field_json v))"
  by (auto simp: is_uuid_text_def field_json_def str_or_none_def) (metis length_uuid_str list.size(3) zero_neq_numeral)

lemma threshold_alert_storable:
  assumes "evaluate_threshold fromiso now r rule c = Inr (Some a)" "wf_reading r" "encodes_text (field_json (rget r ''site_id''))"
    and "schema_name c = Inr schema" "uuid_parse (ru_rule_id rule) \<noteq> None"
  shows "storable a"
proof -
  obtain v cond t at_time where a: "a = \<lparr>al_company_id = c, al_rule_id = ru_rule_id rule,
       al_sensor_id = Some (py_str (field_json (rget r ''sensor_id''))),
       al_equipment_id = str_or_none (rget r ''equipment_id''), al_site_id = field_json (rget r ''site_id''),
       al_triggered_at = at_time, al_detection_type = ''threshold'', al_actual_value = JFloat v,
       al_threshold_value = Some t, al_condition = cond, al_severity = ru_severity rule,
       al_message = ''Threshold alert: '' @ ru_name rule @ '' - Value '' @ fmt_fixed 2 v @ '' is '' @ py_replace ''_'' '' '' cond,
       al_model_id = None, al_anomaly_score = JNull, al_degraded = False, al_neutralized = []\<rparr>"
    using assms(1) unfolding evaluate_threshold_def
    by (cases "rget r ''value''") (auto split: json.splits option.splits)
  have "rget r ''equipment_id'' = Data JNull \<or> is_uuid_text (rget r ''equipment_id'')" "is_uuid_text (rget r ''sensor_id'')"
    using assms(2) by (simp_all add: wf_reading_def)
  then have "encode_uuid (str_or_none (rget r ''equipment_id'')) \<noteq> None"
      "encode_uuid (Some (py_str (field_json (rget r ''sensor_id'')))) \<noteq> None"
    using uuid_text_encodes by (fastforce simp: encode_uuid_def str_or_none_def)+
  then show ?thesis using assms(3,4,5) unfolding storable_def a alert_row_of_def
    by (auto simp: encodes_float_def encode_uuid_def split: option.splits)
qed

text \<open>What the rules that reach \<open>eval_rules\<close> are.\<close>

definition reading_rules :: "reading \<Rightarrow> string \<Rightarrow> rule list \<Rightarrow> bool" where
  "reading_rules r c rules \<longleftrightarrow> wf_reading r \<and> encodes_text (field_json (rget r ''site_id'')) \<and>
     (\<exists>schema. schema_name c = Inr schema) \<and>
     (\<forall>rule \<in> set rules. ru_detection_type rule \<noteq> Some ''ml'' \<and> uuid_parse (ru_rule_id rule) \<noteq> None)"

lemma reading_rules_Cons: "reading_rules r c (rule # rules) \<Longrightarrow> reading_rules r c rules"
  by (simp add: reading_rules_def)

lemma rule_alert:
  assumes "evaluate_rule fromiso now predict r rule c = Inr (Some a)" "reading_rules r c (rule # rules)"
  shows "emittable False a" "storable a" "evaluate_threshold fromiso now r rule c = Inr (Some a)"
proof -
  show t: "evaluate_threshold fromiso now r rule c = Inr (Some a)"
    using assms by (auto simp: evaluate_rule_def evaluate_statistical_def reading_rules_def split: if_splits)
  show "emittable False a" using evaluate_threshold_emittable [OF t] .
  show "storable a" using threshold_alert_storable [OF t] assms(2) by (auto simp: reading_rules_def)
qed

lemma eval_rules_answer:
  assumes "reading_rules r c rules" "cache_sound eng db" "cache_sound eng2 db" and up: "\<And>a. e_link E a = Up"
  shows "fst (eval_rules S E r c rules acc eng db) = fst (eval_rules S E r c rules acc eng2 db) \<and>
    snd (snd (eval_rules S E r c rules acc eng db)) = snd (snd (eval_rules S E r c rules acc eng2 db))"
  using assms(1-3)
proof (induction rules arbitrary: acc eng eng2 db)
  case (Cons rule rules)
  show ?case
  proof (cases "\<exists>a. evaluate_rule (e_fromiso E) (e_now E) (e_predict E) r rule c = Inr (Some a)")
    case False
    then show ?thesis using Cons.IH [OF reading_rules_Cons [OF Cons.prems(1)] Cons.prems(2,3)] by (auto split: sum.splits option.splits)
  next
    case True
    then obtain a where a: "evaluate_rule (e_fromiso E) (e_now E) (e_predict E) r rule c = Inr (Some a)" by blast
    note A = rule_alert [OF a Cons.prems(1)]
    obtain x eng' db' where e: "emit S E eng db a False None = (x, eng', db')" using prod_cases3 by blast
    obtain y eng2' db2' where e2: "emit S E eng2 db a False None = (y, eng2', db2')" using prod_cases3 by blast
    have same: "y = x" "db2' = db'"
      using emit_answer [OF Cons.prems(2) A(1,2) up, of S None] emit_answer [OF Cons.prems(3) A(1,2) up, of S None] e e2
      by (metis prod.inject fst_conv snd_conv)+
    have "cache_sound eng' db'" "cache_sound eng2' db'"
      using emit_keeps_cache [OF e A(1) Cons.prems(2)] emit_keeps_cache [OF e2 A(1) Cons.prems(3)] same by auto
    from Cons.IH [OF reading_rules_Cons [OF Cons.prems(1)] this] show ?thesis
      using a e e2 same by (cases x) (auto split: option.splits)
  qed
qed simp

lemma get_sensor_name_last_emit:
  "get_sensor_name E (eng\<lparr>last_emit := x\<rparr>) sid c = (case get_sensor_name E eng sid c of (res, eng') \<Rightarrow> (res, eng'\<lparr>last_emit := x\<rparr>))"
  by (simp add: get_sensor_name_def split: option.splits sum.splits)

lemma feed_features_last_emit:
  "feed_features S E (eng\<lparr>last_emit := x\<rparr>) F r c =
     (case feed_features S E eng F r c of (res, eng', F') \<Rightarrow> (res, eng'\<lparr>last_emit := x\<rparr>, F'))"
  by (simp add: feed_features_def get_sensor_name_last_emit Let_def split: option.splits prod.splits sum.splits)

lemma parse_reading_company:
  assumes "parse_reading fromiso now (JObj d) c = Inr r"
  shows "\<exists>schema. schema_name (py_str c) = Inr schema"
proof -
  obtain x where "uuid_field c ''company_id'' True = Inr x"
    using assms by (auto simp: parse_reading_def split: sum.splits)
  then obtain n where "uuid_parse (py_str c) = Some n"
    by (auto simp: uuid_field_def split: if_splits option.splits)
  then show ?thesis by (simp add: name_defs underscored_def canonical_company_id_def)
qed

lemma parsed_reading_rules:
  assumes "parse_reading fromiso now (JObj d) c = Inr r" "encodes_text (jget d ''site_id'')"
    and "\<forall>rule \<in> set (rules_of eng c). uuid_parse (ru_rule_id rule) \<noteq> None"
    and "get_applicable_rules x y (rules_of eng c) = Inr rules"
  shows "reading_rules r (py_str c) rules"
proof -
  have "wf_reading r" "rget r ''site_id'' = Data (jget d ''site_id'')"
    using parse_reading_Inr [OF assms(1)] by auto
  moreover have "set rules \<subseteq> {rule \<in> set (rules_of eng c). ru_detection_type rule \<noteq> Some ''ml''}"
    using assms(4) by (auto simp: get_applicable_rules_def Let_def split: if_splits)
  ultimately show ?thesis
    using assms(2,3) parse_reading_company [OF assms(1)] by (auto simp: reading_rules_def field_json_def)
qed

lemma evaluate_answer:
  assumes sound: "cache_sound eng (sh_alerts sh)" and up: "\<And>a. e_link E a = Up" and site: "encodes_text (jget d ''site_id'')"
    and ids: "\<forall>rule \<in> set (rules_of eng c). uuid_parse (ru_rule_id rule) \<noteq> None"
  shows "fst (evaluate S E eng sh (JObj d) c) = fst (evaluate S E (eng\<lparr>last_emit := []\<rparr>) sh (JObj d) c) \<and>
    snd (snd (evaluate S E eng sh (JObj d) c)) = snd (snd (evaluate S E (eng\<lparr>last_emit := []\<rparr>) sh (JObj d) c))"
proof (cases "parse_reading (e_fromiso E) (e_now E) (JObj d) c")
  case (Inl e)
  then show ?thesis by (simp add: evaluate_def)
next
  case (Inr r)
  obtain fres eng1 F where f: "feed_features S E eng (sh_features sh) r c = (fres, eng1, F)" using prod_cases3 by blast
  note k = feed_features_keeps [OF f]
  have f2: "feed_features S E (eng\<lparr>last_emit := []\<rparr>) (sh_features sh) r c = (fres, eng1\<lparr>last_emit := []\<rparr>, F)"
    using f by (simp add: feed_features_last_emit)
  have rules: "rules_of (eng1\<lparr>last_emit := []\<rparr>) c = rules_of eng c" "rules_of eng1 c = rules_of eng c"
    using k by (simp_all add: rules_of_def split: json.splits)
  show ?thesis
  proof (cases "fres = Inr () \<and> rules_of eng c \<noteq> [] \<and>
      (\<exists>rules. get_applicable_rules (rget r ''sensor_id'') (rget r ''equipment_id'') (rules_of eng c) = Inr rules)")
    case True
    then obtain rs where g: "fres = Inr ()" "rules_of eng c \<noteq> []"
        "get_applicable_rules (rget r ''sensor_id'') (rget r ''equipment_id'') (rules_of eng c) = Inr rs" by auto
    have sound1: "cache_sound eng1 (sh_alerts sh)" using sound cache_sound_cong [of eng1 eng] k by simp
    have "reading_rules r (py_str c) rs" using parsed_reading_rules [OF Inr site ids g(3)] .
    from eval_rules_answer [OF this sound1 cache_sound_fresh up, of "eng1\<lparr>last_emit := []\<rparr>" S "[]"]
    have "fst (eval_rules S E r (py_str c) rs [] eng1 (sh_alerts sh)) = fst (eval_rules S E r (py_str c) rs [] (eng1\<lparr>last_emit := []\<rparr>) (sh_alerts sh))"
        "snd (snd (eval_rules S E r (py_str c) rs [] eng1 (sh_alerts sh))) =
         snd (snd (eval_rules S E r (py_str c) rs [] (eng1\<lparr>last_emit := []\<rparr>) (sh_alerts sh)))" by simp_all
    then show ?thesis using Inr f f2 g rules by (simp add: evaluate_def Let_def case_prod_beta)
  next
    case False
    then show ?thesis using Inr f f2 rules by (auto simp: evaluate_def Let_def split: sum.splits)
  qed
qed


section \<open>A redelivered reading\<close>

text \<open>A row keeps this alert out.\<close>

definition alert_blocked :: "engine_settings \<Rightarrow> worker_env \<Rightarrow> tables \<Rightarrow> alert \<Rightarrow> bool" where
  "alert_blocked S E db a \<longleftrightarrow>
     (\<exists>d t schema new. al_triggered_at a = Some d \<and> as_utc_datetime d = Inr t \<and> schema_name (al_company_id a) = Inr schema \<and>
        alert_row_of (a\<lparr>al_triggered_at := Some (utc t)\<rparr>) (deterministic_alert_id E (scope_of False a) t) t = Some new \<and>
        blocked False (es_cooldown S) new (db schema))"

lemma alert_blocked_grows: "alert_blocked S E db a \<Longrightarrow> grows db db' \<Longrightarrow> alert_blocked S E db' a"
  unfolding alert_blocked_def using blocked_mono grows_set by metis

lemma emit_grows: "emit S E eng db a retrain cooldown = (res, eng', db') \<Longrightarrow> grows db db'"
  by (erule emit_cases, simp, erule save_alert_once_cases) (auto simp: grows_def)

lemma emit_blocks:
  assumes e: "emit S E eng db a False None = (Inr x, eng', db')" and sound: "cache_sound eng db" and a: "emittable False a" "storable a"
  shows "alert_blocked S E db' a"
proof -
  obtain d t where t: "al_triggered_at a = Some d" "as_utc_datetime d = Inr t"
    using e by (auto simp: emit_def split: option.splits sum.splits)
  let ?a = "a\<lparr>al_triggered_at := Some (utc t)\<rparr>"
  obtain schema new where row: "schema_name (al_company_id ?a) = Inr schema"
      "alert_row_of ?a (deterministic_alert_id E (scope_of False a) t) t = Some new"
    using storable_row [of ?a] a(2) by (metis storable_at)
  have "blocked False (es_cooldown S) new (db' schema)"
  proof (cases "cached_within eng (scope_of False a) t (es_cooldown S)")
    case True
    then have "db' = db" using e t by (simp add: emit_def)
    then show ?thesis using cached_blocked [OF sound, of False ?a t "es_cooldown S" schema _ new] a(1) row True by simp
  next
    case False
    obtain sres db1 where sv: "save_alert_once (e_link E ?a) db ?a (deterministic_alert_id E (scope_of False a) t) t (es_cooldown S) False = (sres, db1)"
      by force
    have d: "db1 = db'" "\<not> (\<exists>e. sres = Inl e)"
      using e t False sv by (auto simp: emit_def Let_def split: sum.splits bool.splits option.splits prod.splits)
    from sv show ?thesis
    proof (cases rule: save_alert_once_cases)
      case (written schema' new')
      then show ?thesis using row d by (auto simp: blocked_def)
    qed (use row d in auto)
  qed
  then show ?thesis using t row by (auto simp: alert_blocked_def)
qed

lemma emit_when_blocked:
  assumes "emit S E' eng db a False None = (res, eng', db')" "alert_blocked S E db a"
    and "e_uuid5 E' = e_uuid5 E" "e_isoformat E' = e_isoformat E"
  shows "db' = db \<and> (\<forall>x. res \<noteq> Inr (Some x))"
proof -
  obtain d t schema new where b: "al_triggered_at a = Some d" "as_utc_datetime d = Inr t" "schema_name (al_company_id a) = Inr schema"
      "alert_row_of (a\<lparr>al_triggered_at := Some (utc t)\<rparr>) (deterministic_alert_id E (scope_of False a) t) t = Some new"
      "blocked False (es_cooldown S) new (db schema)"
    using assms(2) by (auto simp: alert_blocked_def)
  have same: "deterministic_alert_id E' sc t = deterministic_alert_id E sc t" for sc
    using assms(3,4) by (simp add: deterministic_alert_id_def)
  show ?thesis
    using assms(1) b by (auto simp: emit_def Let_def same save_alert_once_def SAVE_ALERT_ONCE_blocked
        split: if_splits link.splits option.splits)
qed

lemma eval_rules_grows: "eval_rules S E r c rules acc eng db = (res, eng', db') \<Longrightarrow> grows db db'"
proof (induction rules arbitrary: acc eng db)
  case (Cons rule rules)
  have g: "grows db db1" if "emit S E eng db a False None = (x, eng1, db1)" for a x eng1 db1
    using emit_grows [OF that] .
  show ?case
    using Cons.prems Cons.IH g grows_trans by (auto split: sum.splits option.splits prod.splits) blast+
qed simp

lemma eval_rules_blocks:
  assumes "eval_rules S E r c rules acc eng db = (Inr alerts, eng', db')" "reading_rules r c rules" "cache_sound eng db"
  shows "\<forall>rule \<in> set rules. \<forall>a. evaluate_rule (e_fromiso E) (e_now E) (e_predict E) r rule c = Inr (Some a) \<longrightarrow> alert_blocked S E db' a"
  using assms
proof (induction rules arbitrary: acc eng db)
  case (Cons rule rules)
  show ?case
  proof (cases "\<exists>a. evaluate_rule (e_fromiso E) (e_now E) (e_predict E) r rule c = Inr (Some a)")
    case True
    then obtain a where a: "evaluate_rule (e_fromiso E) (e_now E) (e_predict E) r rule c = Inr (Some a)" by blast
    note A = rule_alert [OF a Cons.prems(2)]
    obtain x eng1 db1 acc' where e: "emit S E eng db a False None = (Inr x, eng1, db1)"
        "eval_rules S E r c rules acc' eng1 db1 = (Inr alerts, eng', db')"
      using Cons.prems(1) a by (auto split: prod.splits sum.splits option.splits)
    have sound: "cache_sound eng1 db1" using emit_keeps_cache [OF e(1) A(1) Cons.prems(3)] by simp
    have "grows db1 db'" using eval_rules_grows [OF e(2)] .
    then have "alert_blocked S E db' a" using emit_blocks [OF e(1) Cons.prems(3) A(1,2)] alert_blocked_grows by blast
    then show ?thesis using Cons.IH [OF e(2) reading_rules_Cons [OF Cons.prems(2)] sound] a by auto
  next
    case False
    then have "eval_rules S E r c rules acc eng db = (Inr alerts, eng', db')"
      using Cons.prems(1) by (auto split: sum.splits option.splits)
    from Cons.IH [OF this reading_rules_Cons [OF Cons.prems(2)] Cons.prems(3)] False show ?thesis by auto
  qed
qed simp

lemma eval_rules_when_blocked:
  assumes "eval_rules S E' r c rules acc eng db = (res, eng', db')"
    and "\<forall>rule \<in> set rules. \<forall>a. evaluate_rule (e_fromiso E') (e_now E') (e_predict E') r rule c = Inr (Some a) \<longrightarrow> alert_blocked S E db a"
    and same: "e_uuid5 E' = e_uuid5 E" "e_isoformat E' = e_isoformat E"
  shows "db' = db \<and> (\<forall>alerts. res = Inr alerts \<longrightarrow> alerts = acc)"
  using assms(1,2)
proof (induction rules arbitrary: eng)
  case (Cons rule rules)
  show ?case
  proof (cases "\<exists>a. evaluate_rule (e_fromiso E') (e_now E') (e_predict E') r rule c = Inr (Some a)")
    case True
    then obtain a where a: "evaluate_rule (e_fromiso E') (e_now E') (e_predict E') r rule c = Inr (Some a)" by blast
    obtain x eng1 db1 where e: "emit S E' eng db a False None = (x, eng1, db1)" using prod_cases3 by blast
    have b: "db1 = db" "\<forall>y. x \<noteq> Inr (Some y)" using emit_when_blocked [OF e _ same] Cons.prems(2) a by auto
    show ?thesis
    proof (cases x)
      case (Inl e')
      then show ?thesis using Cons.prems(1) a e b by auto
    next
      case (Inr y)
      then have "eval_rules S E' r c rules acc eng1 db = (res, eng', db')"
        using Cons.prems(1) a e b by (cases y) auto
      from Cons.IH [OF this] Cons.prems(2) show ?thesis by simp
    qed
  next
    case False
    then show ?thesis using Cons by (auto split: sum.splits option.splits)
  qed
qed auto

lemma event_time_present:
  assumes "wf_reading r" "(\<exists>t. rget r ''time'' = Time t) \<or> (\<exists>t. rget r ''timestamp'' = Time t)"
  shows "event_time fromiso now r = event_time fromiso now' r"
  using assms by (auto simp: event_time_def wf_reading_def time_field_def Let_def)

lemma evaluate_rule_env:
  assumes "reading_rules r c (rule # rules)" "(\<exists>t. rget r ''time'' = Time t) \<or> (\<exists>t. rget r ''timestamp'' = Time t)"
  shows "evaluate_rule fromiso now predict r rule c = evaluate_rule fromiso now' predict' r rule c"
proof -
  have "event_time fromiso now r = event_time fromiso now' r"
    using event_time_present [OF _ assms(2)] assms(1) by (simp add: reading_rules_def)
  then have "evaluate_threshold fromiso now r rule c = evaluate_threshold fromiso now' r rule c"
    unfolding evaluate_threshold_def by (simp cong: field.case_cong json.case_cong option.case_cong prod.case_cong)
  then show ?thesis using assms(1) by (simp add: evaluate_rule_def reading_rules_def)
qed

text \<open>A reading that was evaluated, evaluated again.\<close>

lemma evaluate_again:
  assumes ev: "evaluate S E eng sh (JObj d) c = (Inr alerts, eng1, sh1)" and sound: "cache_sound eng (sh_alerts sh)"
    and site: "encodes_text (jget d ''site_id'')" and ids: "\<forall>rule \<in> set (rules_of eng c). uuid_parse (ru_rule_id rule) \<noteq> None"
    and time: "jget d ''time'' \<noteq> JNull \<or> jget d ''timestamp'' \<noteq> JNull"
    and grown: "grows (sh_alerts sh1) (sh_alerts sh2)" and rules: "rules_of eng2 c = rules_of eng c"
    and env: "e_fromiso E' = e_fromiso E" "e_uuid5 E' = e_uuid5 E" "e_isoformat E' = e_isoformat E"
    and again: "evaluate S E' eng2 sh2 (JObj d) c = (res, eng3, sh3)"
  shows "sh_alerts sh3 = sh_alerts sh2 \<and> (\<forall>alerts'. res = Inr alerts' \<longrightarrow> alerts' = [])"
proof -
  obtain r where r: "parse_reading (e_fromiso E) (e_now E) (JObj d) c = Inr r"
    using ev by (cases "parse_reading (e_fromiso E) (e_now E) (JObj d) c") (auto simp: evaluate_def)
  then have r': "parse_reading (e_fromiso E') (e_now E') (JObj d) c = Inr r"
    using parse_reading_now [of "e_fromiso E" "e_now E" "JObj d" c "e_now E'"] env(1) by simp
  have t: "(\<exists>t. rget r ''time'' = Time t) \<or> (\<exists>t. rget r ''timestamp'' = Time t)"
    using parse_reading_time [OF r] time by auto
  obtain fres engf F where f: "feed_features S E eng (sh_features sh) r c = (fres, engf, F)" using prod_cases3 by blast
  obtain fres' engf' F' where f': "feed_features S E' eng2 (sh_features sh2) r c = (fres', engf', F')" using prod_cases3 by blast
  note k = feed_features_keeps [OF f] and k' = feed_features_keeps [OF f']
  have rs: "rules_of engf c = rules_of eng c" "rules_of engf' c = rules_of eng c"
    using k k' rules by (simp_all add: rules_of_def split: json.splits)
  show ?thesis
  proof (cases "fres' = Inr () \<and> rules_of eng c \<noteq> [] \<and>
      (\<exists>rules. get_applicable_rules (rget r ''sensor_id'') (rget r ''equipment_id'') (rules_of eng c) = Inr rules)")
    case True
    then obtain app where g: "fres' = Inr ()" "rules_of eng c \<noteq> []"
        "get_applicable_rules (rget r ''sensor_id'') (rget r ''equipment_id'') (rules_of eng c) = Inr app" by auto
    have rr: "reading_rules r (py_str c) app" using parsed_reading_rules [OF r site ids g(3)] .
    have fres: "fres = Inr ()" using ev r f by (cases fres) (auto simp: evaluate_def)
    obtain db where e1: "eval_rules S E r (py_str c) app [] engf (sh_alerts sh) = (Inr alerts, eng1, db)" "sh_alerts sh1 = db"
      using ev r f fres g rs by (auto simp: evaluate_def Let_def split: prod.splits)
    have sound1: "cache_sound engf (sh_alerts sh)" using sound cache_sound_cong [of engf eng] k by simp
    have "alert_blocked S E (sh_alerts sh2) a"
      if "rule \<in> set app" "evaluate_rule (e_fromiso E') (e_now E') (e_predict E') r rule (py_str c) = Inr (Some a)" for rule a
    proof -
      have "reading_rules r (py_str c) [rule]" using rr that(1) by (simp add: reading_rules_def)
      then have "evaluate_rule (e_fromiso E) (e_now E) (e_predict E) r rule (py_str c) = Inr (Some a)"
        using evaluate_rule_env [OF _ t] that(2) env(1) by metis
      then have "alert_blocked S E db a" using eval_rules_blocks [OF e1(1) rr sound1] that(1) by blast
      then show ?thesis using alert_blocked_grows grown e1(2) by blast
    qed
    moreover obtain eng4 db4 where e2: "eval_rules S E' r (py_str c) app [] engf' (sh_alerts sh2) = (res, eng4, db4)" "sh_alerts sh3 = db4"
      using again r' f' g rs by (auto simp: evaluate_def Let_def split: prod.splits)
    ultimately show ?thesis using eval_rules_when_blocked [OF e2(1) _ env(2,3)] by blast
  next
    case False
    then show ?thesis using again r' f' rs by (auto simp: evaluate_def Let_def split: sum.splits if_splits)
  qed
qed

lemma worker_run_grows: "worker_run S P evs (engs, sh) = (engs', sh') \<Longrightarrow> \<forall>i. table_ok S (windows S P) (engs i) (sh_alerts sh) \<Longrightarrow>
    grows (sh_alerts sh) (sh_alerts sh')"
proof (induction evs arbitrary: engs sh)
  case (Cons ev evs)
  obtain i E op where ev: "ev = (i, E, op)" using prod_cases3 by blast
  obtain eng1 sh1 where st: "engine_step S P E op (engs i) sh = (eng1, sh1)" by force
  have one: "worker_run S P [ev] (engs, sh) = (engs(i := eng1), sh1)" using ev st by (simp add: worker_run_def worker_step_def)
  have "grows (sh_alerts sh) (sh_alerts sh1)" using engine_step_keeps [OF st] Cons.prems(2) by auto
  moreover have "grows (sh_alerts sh1) (sh_alerts sh')"
  proof (rule Cons.IH)
    show "worker_run S P evs (engs(i := eng1), sh1) = (engs', sh')"
      using Cons.prems(1) ev st by (simp add: worker_run_def worker_step_def)
    show "\<forall>j. table_ok S (windows S P) ((engs(i := eng1)) j) (sh_alerts sh1)"
      using worker_run_keeps [OF one Cons.prems(2)] .
  qed
  ultimately show ?case using grows_trans by blast
qed (simp add: worker_run_def)


section \<open>A worked run\<close>

definition demo_rule :: rule where
  "demo_rule = \<lparr>ru_rule_id = uuid_str 7, ru_name = ''hot'', ru_sensor_id = Some (uuid_str 2), ru_equipment_id = None,
     ru_site_id = None, ru_detection_type = Some ''threshold'', ru_condition = Some ''greater_than'',
     ru_threshold = Some (Fin 10), ru_threshold_min = None, ru_threshold_max = None, ru_model_id = None,
     ru_anomaly_threshold = None, ru_severity = Some ''high'', ru_enabled = True\<rparr>"

definition demo_env :: worker_env where
  "demo_env = \<lparr>e_now = 0, e_fromiso = (\<lambda>s. Some noon), e_isoformat = (\<lambda>t. ''t''), e_uuid5 = (\<lambda>s. 9),
     e_json_loads = (\<lambda>s. None), e_link = (\<lambda>a. Up), e_feat_up = True, e_sensor_name = (\<lambda>s n. Inr None),
     e_model_row = (\<lambda>s n. Inr None), e_feature_config = (\<lambda>s n. Inr None), e_labels = (\<lambda>s. Inr []),
     e_predict = (\<lambda>m r t c. Unreachable), e_drift = (\<lambda>m c w t. Unreachable)\<rparr>"

definition demo_retrain :: retrain_settings where
  "demo_retrain = \<lparr>rs_precision_floor = 6 / 10, rs_min_labels = 10, rs_min_drift_alerts = 2, rs_precision_window_days = 30,
     rs_drift_lookback_hours = 72, rs_cooldown_seconds = 86400, rs_severity = ''high''\<rparr>"

definition demo_settings :: engine_settings where
  "demo_settings = \<lparr>es_cooldown = 300, es_dedup_max = 10, es_features = None, es_feature_max_age = None\<rparr>"

abbreviation demo_reading :: jobject where
  "demo_reading \<equiv> [(''sensor_id'', JStr (uuid_str 2)), (''value'', JFloat (Fin 42)), (''timestamp'', JStr ''x'')]"

abbreviation demo_company :: json where
  "demo_company \<equiv> JStr (uuid_str 1)"

abbreviation demo_rules :: "(string \<times> rule list) list" where
  "demo_rules \<equiv> [(uuid_str 1, [demo_rule])]"

abbreviation no_alerts :: shared where
  "no_alerts \<equiv> \<lparr>sh_alerts = (\<lambda>schema. []), sh_features = (\<lambda>k. None)\<rparr>"

lemma demo_uuids: "uuid_parse (uuid_str 1) = Some 1" "uuid_parse (uuid_str 2) = Some 2" "uuid_parse (uuid_str 7) = Some 7" "uuid_str n \<noteq> []"
  using length_uuid_str [of n] by (auto simp: uuid_parse_str simp del: length_uuid_str)

lemma demo_parse: "parse_reading (\<lambda>s. Some noon) now (JObj demo_reading) demo_company =
   Inr [(''sensor_id'', Data (JStr (uuid_str 2))), (''value'', Data (JFloat (Fin 42))), (''timestamp'', Time 43200),
        (''equipment_id'', Data JNull)]"
  by (simp add: parse_reading_def uuid_field_def demo_uuids jget_def parse_value_def parse_times.simps as_utc_def iso_datetime_def
      as_utc_datetime_def opt_str_def Let_def MIN_TIME_def MAX_TIME_def)

definition demo_parsed :: reading where
  "demo_parsed = [(''sensor_id'', Data (JStr (uuid_str 2))), (''value'', Data (JFloat (Fin 42))), (''timestamp'', Time 43200),
        (''equipment_id'', Data JNull)]"

lemma demo_parsed_get [simp]: "rget demo_parsed ''sensor_id'' = Data (JStr (uuid_str 2))" "rget demo_parsed ''value'' = Data (JFloat (Fin 42))"
  "rget demo_parsed ''timestamp'' = Time 43200" "rget demo_parsed ''equipment_id'' = Data JNull" "rget demo_parsed ''time'' = Data JNull"
  "rget demo_parsed ''site_id'' = Data JNull"
  by (simp_all add: demo_parsed_def rget_def)

lemma demo_alert:
  "\<exists>a. evaluate_rule fromiso now predict demo_parsed demo_rule (uuid_str 1) = Inr (Some a) \<and> storable a \<and> emittable False a \<and>
     al_triggered_at a = Some (utc 43200)"
proof -
  have "wf_reading demo_parsed" using demo_uuids by (auto simp: wf_reading_def is_uuid_text_def)
  moreover have "\<exists>schema. schema_name (uuid_str 1) = Inr schema"
    by (simp add: name_defs underscored_def canonical_company_id_def demo_uuids)
  ultimately have rr: "reading_rules demo_parsed (uuid_str 1) [demo_rule]"
    by (simp add: reading_rules_def encodes_text_def field_json_def demo_rule_def demo_uuids)
  have "\<exists>a. evaluate_rule fromiso now predict demo_parsed demo_rule (uuid_str 1) = Inr (Some a) \<and> al_triggered_at a = Some (utc 43200)"
    by (simp add: evaluate_rule_def evaluate_threshold_def threshold_fires_def condition_fires_def float_lt_def event_time_def demo_rule_def Let_def)
  then show ?thesis using rule_alert [OF _ rr] by blast
qed

text \<open>An engine with an empty cache raises the alert.\<close>

lemma demo_evaluate:
  "\<exists>a eng' sh schema row. evaluate demo_settings demo_env (fresh_engine demo_rules) no_alerts (JObj demo_reading) demo_company =
       (Inr [a], eng', sh) \<and> rules_of eng' demo_company = [demo_rule] \<and> sh_alerts sh schema = [row]"
proof -
  define S E eng where "S = demo_settings" and "E = demo_env" and "eng = fresh_engine demo_rules"
  have assms: "es_features S = None" "\<And>a. e_link E a = Up" "e_fromiso E = (\<lambda>s. Some noon)" "last_emit eng = []"
    "rules_of eng demo_company = [demo_rule]"
    by (simp_all add: S_def E_def eng_def demo_settings_def demo_env_def fresh_engine_def rules_of_def)
  obtain a where a: "evaluate_rule (e_fromiso E) (e_now E) (e_predict E) demo_parsed demo_rule (uuid_str 1) = Inr (Some a)"
      "storable a" "emittable False a" "al_triggered_at a = Some (utc 43200)" using demo_alert by blast
  let ?a = "a\<lparr>al_triggered_at := Some (utc 43200)\<rparr>"
  have t: "as_utc_datetime (utc 43200) = Inr 43200" by (simp add: as_utc_datetime_def utc_def MIN_TIME_def MAX_TIME_def)
  obtain schema new where row: "schema_name (al_company_id ?a) = Inr schema" "alert_row_of ?a (deterministic_alert_id E (scope_of False a) 43200) 43200 = Some new"
    using storable_row [of ?a] a(2) by (metis storable_at)
  have em: "emit S E eng (\<lambda>s. []) a False None = (Inr (Some ?a), remember S eng (scope_of False a) 43200, (\<lambda>s. [])(schema := [new]))"
    using a(4) t row assms(2,4) by (simp add: emit_def cached_within_def save_alert_once_def SAVE_ALERT_ONCE_blocked blocked_def Let_def)
  have g: "get_applicable_rules (Data (JStr (uuid_str 2))) (Data JNull) [demo_rule] = Inr [demo_rule]"
    by (simp add: get_applicable_rules_def Let_def demo_uuids demo_rule_def names_uuid_def)
  have "evaluate S E eng no_alerts (JObj demo_reading) demo_company =
      (Inr [?a], remember S eng (scope_of False a) 43200, \<lparr>sh_alerts = (\<lambda>s. [])(schema := [new]), sh_features = (\<lambda>k. None)\<rparr>)"
    using assms(1,3,5) demo_parse [of "e_now E"] em a(1) g
    by (simp add: evaluate_def feed_features_def feed_args_def Let_def demo_parsed_def [symmetric])
  moreover have "rules_of (remember S eng (scope_of False a) 43200) demo_company = [demo_rule]"
    using assms(5) by (simp add: rules_of_def)
  moreover have "((\<lambda>s. [])(schema := [new])) schema = [new]" by simp
  ultimately show ?thesis unfolding S_def [symmetric] E_def [symmetric] eng_def [symmetric] by auto
qed

lemma demo_run:
  "\<exists>engs sh schema row. worker_run demo_settings demo_retrain [(0, demo_env, Reading (JObj demo_reading) demo_company)]
       (\<lambda>i. fresh_engine demo_rules, no_alerts) = (engs, sh) \<and> sh_alerts sh schema = [row] \<and>
     rules_of (engs 0) demo_company = [demo_rule]"
  using demo_evaluate by (fastforce simp: worker_run_def worker_step_def engine_step_def)

text \<open>One replica evaluates the reading: its alert is in the table.\<close>

theorem alerts_spaced_witness:
  "\<exists>engs sh schema row. worker_run demo_settings demo_retrain [(0, demo_env, Reading (JObj demo_reading) demo_company)]
       (\<lambda>i. fresh_engine demo_rules, no_alerts) = (engs, sh) \<and> sh_alerts sh schema = [row] \<and>
     length (last_emit (engs 0)) \<le> 10"
proof -
  obtain engs sh schema row where r: "worker_run demo_settings demo_retrain [(0, demo_env, Reading (JObj demo_reading) demo_company)]
       (\<lambda>i. fresh_engine demo_rules, no_alerts) = (engs, sh)" "sh_alerts sh schema = [row]"
    using demo_run by blast
  have "length (last_emit (engs 0)) \<le> 10"
    using conjunct2 [OF alerts_spaced [OF r(1)]] by (simp add: demo_settings_def)
  with r show ?thesis by blast
qed



end
