(* ===== verification/Alert_Consumer.thy ===== *)
theory Alert_Consumer
  imports Alert_Engine
begin

text \<open>
  The alert worker's consumer (\<open>services/alert_service/worker/kafka_consumer.py\<close>): the at-least-once
  handling of the readings, the dead-letter topic, and the producer that is replaced when it is broken.

  Parameters, the fields of \<open>kafka_env\<close>: the broker's answers to a send, a start and a commit, whether a
  producer's sender has ended, the decoding of a record's bytes, and the engine's environment for each attempt.
  A partition's records are given by their offsets. \<open>cs_processed\<close> is no state of the code: it lists the
  readings the engine has evaluated without raising.

  Shown: every record below a committed offset was evaluated or is in the dead-letter topic; a failure of the
  platform never dead-letters a record; the wait between failed batches grows up to its bound.
\<close>

section \<open>Records and dead letters\<close>

text \<open>A topic and a number; \<open>TopicPartition\<close> of the client library.\<close>

datatype partition = TopicPartition string int

record message =
  m_partition :: partition
  m_offset :: nat
  m_value :: "string option"

record dead_letter =
  dl_original :: "string option"
  dl_reason :: string
  dl_consumer :: string
  dl_partition :: partition
  dl_offset :: nat

definition DEAD_LETTER_CONSUMER :: string where "DEAD_LETTER_CONSUMER = ''alert-service-detector''"

datatype handling = HANDLED | RETRY_BATCH

text \<open>
  \<open>json.loads(raw.decode("utf-8"))\<close>: a value; text that is no UTF-8 or no JSON; or another exception, which
  a number of too many digits and too deep a nesting raise.
\<close>

datatype loaded = Loaded json | NotUtf8Json string | LoadRaised worker_error

definition decode_message :: "(string \<Rightarrow> loaded) \<Rightarrow> string option \<Rightarrow> jobject outcome" where
  "decode_message loads raw =
     (case raw of
        None \<Rightarrow> Inl (MessageValidationError ''record has no value'')
      | Some b \<Rightarrow>
          (case loads b of
             NotUtf8Json e \<Rightarrow> Inl (MessageValidationError (''record is not UTF-8 JSON: '' @ e))
           | LoadRaised e \<Rightarrow> Inl e
           | Loaded (JObj d) \<Rightarrow> Inr d
           | Loaded v \<Rightarrow> Inl (MessageValidationError (''record is not a JSON object: '' @ type_name v))))"

section \<open>The producer\<close>

text \<open>How a send ends: written; an error that stays with the producer id; a timeout or another Kafka error; any other.\<close>

datatype send_result = Sent | StickyError string | TimeoutOrKafkaError | SendRaised

datatype commit_result = Committed | RecoverableCommitError | CommitRaised

record kafka_env =
  k_deliver :: "nat \<Rightarrow> dead_letter \<Rightarrow> send_result"
  k_sender_ended :: "nat \<Rightarrow> bool"
  k_starts :: "nat \<Rightarrow> bool"
  k_commit :: "(partition \<times> nat) list \<Rightarrow> commit_result"
  k_loads :: "string \<Rightarrow> loaded"
  k_utf8 :: "string \<Rightarrow> string option"
  k_attempt :: "nat \<Rightarrow> worker_env"

record consumer_state =
  cs_producer :: nat
  cs_producers_replaced :: nat
  cs_failed_batches :: nat
  cs_position :: "partition \<Rightarrow> nat"
  cs_committed :: "partition \<Rightarrow> nat option"
  cs_dlq :: "dead_letter list"
  cs_engine :: engine
  cs_shared :: shared
  cs_processed :: "(partition \<times> nat) list"

text \<open>\<open>_replace_producer\<close>: a fresh producer takes over when it starts; False is its start failing.\<close>

definition replace_producer :: "kafka_env \<Rightarrow> consumer_state \<Rightarrow> bool \<times> consumer_state" where
  "replace_producer K st =
     (let fresh = Suc (cs_producer st)
      in if k_starts K fresh
         then (True, st\<lparr>cs_producer := fresh, cs_producers_replaced := Suc (cs_producers_replaced st)\<rparr>)
         else (False, st))"

definition send_on :: "kafka_env \<Rightarrow> consumer_state \<Rightarrow> dead_letter \<Rightarrow> send_result \<times> consumer_state" where
  "send_on K st dl =
     (case k_deliver K (cs_producer st) dl of
        Sent \<Rightarrow> (Sent, st\<lparr>cs_dlq := cs_dlq st @ [dl]\<rparr>)
      | r \<Rightarrow> (r, st))"

definition send_again :: "kafka_env \<Rightarrow> consumer_state \<Rightarrow> dead_letter \<Rightarrow> bool \<times> consumer_state" where
  "send_again K st dl =
     (case replace_producer K st of
        (False, st1) \<Rightarrow> (False, st1)
      | (True, st1) \<Rightarrow> (case send_on K st1 dl of (r, st2) \<Rightarrow> (r = Sent, st2)))"

text \<open>\<open>send\<close>: True when the message was written, False for every exception.\<close>

definition send :: "kafka_env \<Rightarrow> consumer_state \<Rightarrow> dead_letter \<Rightarrow> bool \<times> consumer_state" where
  "send K st dl =
     (case (if k_sender_ended K (cs_producer st) then replace_producer K st else (True, st)) of
        (False, st1) \<Rightarrow> (False, st1)
      | (True, st1) \<Rightarrow>
          (case send_on K st1 dl of
             (Sent, st2) \<Rightarrow> (True, st2)
           | (StickyError e, st2) \<Rightarrow> send_again K st2 dl
           | (TimeoutOrKafkaError, st2) \<Rightarrow> if k_sender_ended K (cs_producer st2) then send_again K st2 dl else (False, st2)
           | (SendRaised, st2) \<Rightarrow> (False, st2)))"

section \<open>Handling a record\<close>

text \<open>\<open>bytes.hex()\<close>.\<close>

definition hex_of :: "string \<Rightarrow> string" where
  "hex_of b = concat (map (\<lambda>c. [hex_char (ord c div 16), hex_char (ord c mod 16)]) b)"

definition dead_letter_of :: "kafka_env \<Rightarrow> message \<Rightarrow> string \<Rightarrow> dead_letter" where
  "dead_letter_of K m reason =
     \<lparr>dl_original = (case m_value m of None \<Rightarrow> None
        | Some b \<Rightarrow> (case k_utf8 K b of Some t \<Rightarrow> Some t | None \<Rightarrow> Some (hex_of b))),
      dl_reason = reason, dl_consumer = DEAD_LETTER_CONSUMER, dl_partition = m_partition m, dl_offset = m_offset m\<rparr>"

definition dead_letter_message :: "kafka_env \<Rightarrow> consumer_state \<Rightarrow> message \<Rightarrow> string \<Rightarrow> handling \<times> consumer_state" where
  "dead_letter_message K st m reason =
     (case send K st (dead_letter_of K m reason) of
        (True, st1) \<Rightarrow> (HANDLED, st1)
      | (False, st1) \<Rightarrow> (RETRY_BATCH, st1))"

definition process_message ::
    "engine_settings \<Rightarrow> worker_env \<Rightarrow> consumer_state \<Rightarrow> jobject \<Rightarrow> unit outcome \<times> consumer_state" where
  "process_message S E st d =
     (if \<not> truthy (jget d ''company_id'') then (Inl (MessageValidationError ''reading has no company_id''), st)
      else (case evaluate S E (cs_engine st) (cs_shared st) (JObj d) (jget d ''company_id'') of
         (Inl e, eng, sh) \<Rightarrow> (Inl e, st\<lparr>cs_engine := eng, cs_shared := sh\<rparr>)
       | (Inr alerts, eng, sh) \<Rightarrow> (Inr (), st\<lparr>cs_engine := eng, cs_shared := sh\<rparr>)))"

definition error_text :: "worker_error \<Rightarrow> string" where
  "error_text e = (case e of MessageValidationError t \<Rightarrow> t | Raised t \<Rightarrow> t | _ \<Rightarrow> [])"

text \<open>The attempts left, from the given one on; \<open>last\<close> is the error of the attempt before.\<close>

fun attempt_message ::
    "engine_settings \<Rightarrow> kafka_env \<Rightarrow> nat \<Rightarrow> nat \<Rightarrow> worker_error \<Rightarrow> consumer_state \<Rightarrow> message \<Rightarrow> jobject \<Rightarrow> handling \<times> consumer_state" where
  "attempt_message S K attempt 0 e st m d = dead_letter_message K st m (''retries exhausted: '' @ error_text e)"
| "attempt_message S K attempt (Suc n) e st m d =
     (case process_message S (k_attempt K attempt) st d of
        (Inr _, st1) \<Rightarrow> (HANDLED, st1\<lparr>cs_processed := cs_processed st1 @ [(m_partition m, m_offset m)]\<rparr>)
      | (Inl (MessageValidationError t), st1) \<Rightarrow> dead_letter_message K st1 m t
      | (Inl e', st1) \<Rightarrow>
          if is_infrastructure_error e' then (RETRY_BATCH, st1)
          else attempt_message S K (Suc attempt) n e' st1 m d)"

text \<open>\<open>_handle_message\<close>; an exception out of the decoding ends the consumer.\<close>

definition handle_message ::
    "engine_settings \<Rightarrow> kafka_env \<Rightarrow> int \<Rightarrow> consumer_state \<Rightarrow> message \<Rightarrow> handling outcome \<times> consumer_state" where
  "handle_message S K max_retries st m =
     (case decode_message (k_loads K) (m_value m) of
        Inl (MessageValidationError t) \<Rightarrow> (case dead_letter_message K st m t of (h, st1) \<Rightarrow> (Inr h, st1))
      | Inl e \<Rightarrow> (Inl e, st)
      | Inr d \<Rightarrow>
          (case attempt_message S K 1 (nat (max 1 max_retries)) (Raised []) st m d of (h, st1) \<Rightarrow> (Inr h, st1)))"

section \<open>Handling a batch\<close>

fun handle_messages ::
    "engine_settings \<Rightarrow> kafka_env \<Rightarrow> int \<Rightarrow> message list \<Rightarrow> (partition, nat) od \<Rightarrow> consumer_state \<Rightarrow>
      (partition, nat) od option outcome \<times> consumer_state" where
  "handle_messages S K mr [] offsets st = (Inr (Some offsets), st)"
| "handle_messages S K mr (m # ms) offsets st =
     (case handle_message S K mr st m of
        (Inl e, st1) \<Rightarrow> (Inl e, st1)
      | (Inr RETRY_BATCH, st1) \<Rightarrow> (Inr None, st1)
      | (Inr HANDLED, st1) \<Rightarrow> handle_messages S K mr ms (od_set offsets (m_partition m) (m_offset m + 1)) st1)"

text \<open>A commit that succeeds makes the offsets those of the group.\<close>

definition commit_offsets :: "consumer_state \<Rightarrow> (partition, nat) od \<Rightarrow> consumer_state" where
  "commit_offsets st offsets =
     st\<lparr>cs_committed := (\<lambda>tp. case od_get offsets tp of Some n \<Rightarrow> Some n | None \<Rightarrow> cs_committed st tp)\<rparr>"

definition handle_batch ::
    "engine_settings \<Rightarrow> kafka_env \<Rightarrow> int \<Rightarrow> message list \<Rightarrow> consumer_state \<Rightarrow> bool outcome \<times> consumer_state" where
  "handle_batch S K mr data st =
     (case handle_messages S K mr data [] st of
        (Inl e, st1) \<Rightarrow> (Inl e, st1)
      | (Inr None, st1) \<Rightarrow> (Inr False, st1)
      | (Inr (Some offsets), st1) \<Rightarrow>
          (case k_commit K offsets of
             Committed \<Rightarrow> (Inr True, commit_offsets st1 offsets)
           | RecoverableCommitError \<Rightarrow> (Inr False, st1)
           | CommitRaised \<Rightarrow> (Inl (Raised ''KafkaError''), st1)))"

definition seek_to_committed :: "consumer_state \<Rightarrow> consumer_state" where
  "seek_to_committed st = st\<lparr>cs_position := (\<lambda>tp. case cs_committed st tp of Some n \<Rightarrow> n | None \<Rightarrow> 0)\<rparr>"

definition back_off_delay :: "rat \<Rightarrow> rat \<Rightarrow> nat \<Rightarrow> rat" where
  "back_off_delay retry_backoff max_backoff failed = min (retry_backoff * 2 ^ (failed - 1)) max_backoff"

text \<open>The state after the rewind, and the wait.\<close>

definition rewind_and_back_off :: "rat \<Rightarrow> rat \<Rightarrow> consumer_state \<Rightarrow> rat \<times> consumer_state" where
  "rewind_and_back_off retry_backoff max_backoff st =
     (let st1 = seek_to_committed (st\<lparr>cs_failed_batches := Suc (cs_failed_batches st)\<rparr>)
      in (back_off_delay retry_backoff max_backoff (cs_failed_batches st1), st1))"

text \<open>
  \<open>getmany\<close>: from each partition it names, the given number of records from the position on, which moves
  behind them.
\<close>

definition poll :: "(partition \<Rightarrow> nat \<Rightarrow> string option) \<Rightarrow> (partition \<times> nat) list \<Rightarrow> consumer_state \<Rightarrow> message list \<times> consumer_state" where
  "poll topic_log fetch st =
     (concat (map (\<lambda>(tp, n). map (\<lambda>off. \<lparr>m_partition = tp, m_offset = off, m_value = topic_log tp off\<rparr>)
        [cs_position st tp..<cs_position st tp + n]) fetch),
      st\<lparr>cs_position := (\<lambda>tp. cs_position st tp + (case map_of fetch tp of None \<Rightarrow> 0 | Some n \<Rightarrow> n))\<rparr>)"

text \<open>One turn of \<open>consume_messages\<close>; an exception ends the loop.\<close>

definition consume_turn ::
    "engine_settings \<Rightarrow> int \<Rightarrow> rat \<Rightarrow> rat \<Rightarrow> (partition \<Rightarrow> nat \<Rightarrow> string option) \<Rightarrow> kafka_env \<times> (partition \<times> nat) list \<Rightarrow>
      consumer_state \<Rightarrow> unit outcome \<times> consumer_state" where
  "consume_turn S mr backoff max_backoff topic_log input st =
     (case input of (K, fetch) \<Rightarrow>
        (case poll topic_log fetch st of (data, st1) \<Rightarrow>
           if data = [] then (Inr (), st1)
           else (case handle_batch S K mr data st1 of
              (Inl e, st2) \<Rightarrow> (Inl e, st2)
            | (Inr True, st2) \<Rightarrow> (Inr (), st2\<lparr>cs_failed_batches := 0\<rparr>)
            | (Inr False, st2) \<Rightarrow> (Inr (), snd (rewind_and_back_off backoff max_backoff st2)))))"

fun consume_messages ::
    "engine_settings \<Rightarrow> int \<Rightarrow> rat \<Rightarrow> rat \<Rightarrow> (partition \<Rightarrow> nat \<Rightarrow> string option) \<Rightarrow> (kafka_env \<times> (partition \<times> nat) list) list \<Rightarrow>
      consumer_state \<Rightarrow> unit outcome \<times> consumer_state" where
  "consume_messages S mr backoff max_backoff topic_log [] st = (Inr (), st)"
| "consume_messages S mr backoff max_backoff topic_log (i # inputs) st =
     (case consume_turn S mr backoff max_backoff topic_log i st of
        (Inl e, st1) \<Rightarrow> (Inl e, st1)
      | (Inr _, st1) \<Rightarrow> consume_messages S mr backoff max_backoff topic_log inputs st1)"

text \<open>
  The worker's container is started again: the rules are read, the caches are empty, and reading begins at
  the committed offsets. (A worker that is killed between two records has done what one does whose next
  record raises.)
\<close>

definition restart_worker :: "(string \<times> rule list) list \<Rightarrow> nat \<Rightarrow> consumer_state \<Rightarrow> consumer_state" where
  "restart_worker rules producer st =
     seek_to_committed (st\<lparr>cs_producer := producer, cs_producers_replaced := 0, cs_failed_batches := 0, cs_engine := fresh_engine rules\<rparr>)"

fun worker_lives ::
    "engine_settings \<Rightarrow> int \<Rightarrow> rat \<Rightarrow> rat \<Rightarrow> (partition \<Rightarrow> nat \<Rightarrow> string option) \<Rightarrow>
      ((kafka_env \<times> (partition \<times> nat) list) list \<times> (string \<times> rule list) list \<times> nat) list \<Rightarrow> consumer_state \<Rightarrow> consumer_state" where
  "worker_lives S mr backoff max_backoff topic_log [] st = st"
| "worker_lives S mr backoff max_backoff topic_log ((inputs, rules, producer) # lives) st =
     worker_lives S mr backoff max_backoff topic_log lives
       (restart_worker rules producer (snd (consume_messages S mr backoff max_backoff topic_log inputs st)))"

section \<open>At least once\<close>

definition handled :: "consumer_state \<Rightarrow> partition \<Rightarrow> nat \<Rightarrow> bool" where
  "handled st tp off \<longleftrightarrow> (tp, off) \<in> set (cs_processed st) \<or>
     (\<exists>dl \<in> set (cs_dlq st). dl_partition dl = tp \<and> dl_offset dl = off)"

text \<open>What happens to the state while records are handled: what was handled stays handled, and the offsets stay.\<close>

definition advances :: "consumer_state \<Rightarrow> consumer_state \<Rightarrow> bool" where
  "advances st st' \<longleftrightarrow> (\<forall>tp off. handled st tp off \<longrightarrow> handled st' tp off) \<and>
     cs_committed st' = cs_committed st \<and> cs_position st' = cs_position st"

lemma advances_refl [simp]: "advances st st"
  by (simp add: advances_def)

lemma advances_trans: "advances a b \<Longrightarrow> advances b c \<Longrightarrow> advances a c"
  by (simp add: advances_def)

lemma advances_local:
  "cs_dlq st' = cs_dlq st \<Longrightarrow> cs_processed st' = cs_processed st \<Longrightarrow> cs_committed st' = cs_committed st \<Longrightarrow>
   cs_position st' = cs_position st \<Longrightarrow> advances st st'"
  by (simp add: advances_def handled_def)

lemma replace_producer_advances: "replace_producer K st = (ok, st') \<Longrightarrow> advances st st'"
  by (auto simp: replace_producer_def Let_def intro!: advances_local split: if_splits)

lemma send_on_advances:
  assumes "send_on K st dl = (r, st')"
  shows "advances st st' \<and> (r = Sent \<longrightarrow> dl \<in> set (cs_dlq st'))"
  using assms by (auto simp: send_on_def advances_def handled_def split: send_result.splits)

lemma send_again_advances:
  assumes "send_again K st dl = (ok, st')"
  shows "advances st st' \<and> (ok \<longrightarrow> dl \<in> set (cs_dlq st'))"
proof -
  obtain okr st1 where r: "replace_producer K st = (okr, st1)" by force
  obtain r2 st2 where s: "send_on K st1 dl = (r2, st2)" by force
  show ?thesis
    using assms r s replace_producer_advances [OF r] send_on_advances [OF s] advances_trans
    by (cases okr) (auto simp: send_again_def)
qed

lemma send_advances:
  assumes "send K st dl = (ok, st')"
  shows "advances st st' \<and> (ok \<longrightarrow> dl \<in> set (cs_dlq st'))"
proof -
  obtain okr st1 where r: "(if k_sender_ended K (cs_producer st) then replace_producer K st else (True, st)) = (okr, st1)" by force
  then have a1: "advances st st1" using replace_producer_advances by (auto split: if_splits)
  obtain r2 st2 where s: "send_on K st1 dl = (r2, st2)" by force
  note a2 = send_on_advances [OF s]
  show ?thesis
  proof (cases okr)
    case True
    show ?thesis
    proof (cases r2)
      case (StickyError e)
      then have "send_again K st2 dl = (ok, st')" using assms r s True by (simp add: send_def)
      from send_again_advances [OF this] a1 a2 show ?thesis using advances_trans by blast
    next
      case TimeoutOrKafkaError
      then have "send_again K st2 dl = (ok, st') \<or> (ok, st') = (False, st2)"
        using assms r s True by (auto simp: send_def split: if_splits)
      then show ?thesis using send_again_advances [of K st2 dl] a1 a2 advances_trans by blast
    qed (use assms r s True a1 a2 advances_trans in \<open>auto simp: send_def\<close>)
  qed (use assms r a1 in \<open>simp add: send_def\<close>)
qed

lemma dead_letter_of_place [simp]:
  "dl_partition (dead_letter_of K m reason) = m_partition m" "dl_offset (dead_letter_of K m reason) = m_offset m"
  by (simp_all add: dead_letter_of_def)

lemma dead_letter_message_handles:
  assumes "dead_letter_message K st m reason = (h, st')"
  shows "advances st st' \<and> (h = HANDLED \<longrightarrow> handled st' (m_partition m) (m_offset m))"
proof -
  obtain ok st1 where s: "send K st (dead_letter_of K m reason) = (ok, st1)" by force
  have "handled st1 (m_partition m) (m_offset m)" if ok
    using send_advances [OF s] that unfolding handled_def by (metis dead_letter_of_place)
  with send_advances [OF s] assms s show ?thesis by (auto simp: dead_letter_message_def split: bool.splits)
qed

lemma process_message_advances: "process_message S E st d = (res, st') \<Longrightarrow> advances st st'"
  by (auto simp: process_message_def intro!: advances_local split: if_splits prod.splits sum.splits)

lemma attempt_message_handles:
  assumes "attempt_message S K k n e st m d = (h, st')"
  shows "advances st st' \<and> (h = HANDLED \<longrightarrow> handled st' (m_partition m) (m_offset m))"
  using assms
proof (induction n arbitrary: k e st)
  case 0
  then show ?case using dead_letter_message_handles by simp
next
  case (Suc n)
  obtain res st1 where p: "process_message S (k_attempt K k) st d = (res, st1)" by force
  note a = process_message_advances [OF p]
  show ?case
  proof (cases res)
    case (Inr u)
    with Suc.prems p have "h = HANDLED" "st' = st1\<lparr>cs_processed := cs_processed st1 @ [(m_partition m, m_offset m)]\<rparr>" by auto
    with a show ?thesis by (auto simp: advances_def handled_def)
  next
    case (Inl e')
    show ?thesis
    proof (cases "\<exists>t. e' = MessageValidationError t")
      case True
      then obtain t where "dead_letter_message K st1 m t = (h, st')" using Suc.prems p Inl by auto
      from dead_letter_message_handles [OF this] a show ?thesis using advances_trans by blast
    next
      case False
      then have "(h, st') = (RETRY_BATCH, st1) \<or> attempt_message S K (Suc k) n e' st1 m d = (h, st')"
        using Suc.prems p Inl by (auto split: worker_error.splits if_splits)
      then show ?thesis using Suc.IH a advances_trans by blast
    qed
  qed
qed

lemma handle_message_handles:
  assumes "handle_message S K mr st m = (res, st')"
  shows "advances st st' \<and> (res = Inr HANDLED \<longrightarrow> handled st' (m_partition m) (m_offset m))"
proof (cases "decode_message (k_loads K) (m_value m)")
  case (Inl e)
  show ?thesis
  proof (cases "\<exists>t. e = MessageValidationError t")
    case True
    then obtain t h where "dead_letter_message K st m t = (h, st')" "res = Inr h"
      using assms Inl by (auto simp: handle_message_def split: prod.splits)
    with dead_letter_message_handles [OF this(1)] show ?thesis by simp
  next
    case False
    then show ?thesis using assms Inl by (auto simp: handle_message_def split: worker_error.splits)
  qed
next
  case (Inr d)
  then obtain h where "attempt_message S K 1 (nat (max 1 mr)) (Raised []) st m d = (h, st')" "res = Inr h"
    using assms by (auto simp: handle_message_def split: prod.splits)
  with attempt_message_handles [OF this(1)] show ?thesis by simp
qed

abbreviation add_offset :: "(partition, nat) od \<Rightarrow> message \<Rightarrow> (partition, nat) od" where
  "add_offset offsets m \<equiv> od_set offsets (m_partition m) (m_offset m + 1)"

lemma handle_messages_handles:
  assumes "handle_messages S K mr ms offsets st = (res, st')"
  shows "advances st st' \<and> (\<forall>offsets'. res = Inr (Some offsets') \<longrightarrow>
     (\<forall>m \<in> set ms. handled st' (m_partition m) (m_offset m)) \<and> offsets' = foldl add_offset offsets ms)"
  using assms
proof (induction ms arbitrary: offsets st)
  case (Cons m ms)
  obtain h st1 where hm: "handle_message S K mr st m = (h, st1)" by force
  note a = handle_message_handles [OF hm]
  show ?case
  proof (cases "h = Inr HANDLED")
    case True
    then have "handle_messages S K mr ms (add_offset offsets m) st1 = (res, st')" using Cons.prems hm by simp
    from Cons.IH [OF this] have "advances st1 st'" and rest: "\<forall>offsets'. res = Inr (Some offsets') \<longrightarrow>
       (\<forall>m \<in> set ms. handled st' (m_partition m) (m_offset m)) \<and> offsets' = foldl add_offset (add_offset offsets m) ms" by blast+
    moreover have "handled st' (m_partition m) (m_offset m)"
      using a True \<open>advances st1 st'\<close> by (simp add: advances_def)
    ultimately show ?thesis using a advances_trans by auto
  next
    case False
    then have "st' = st1 \<and> (\<forall>offsets'. res \<noteq> Inr (Some offsets'))"
      using Cons.prems hm by (auto split: sum.splits handling.splits)
    with a show ?thesis by simp
  qed
qed auto

text \<open>The offsets of a polled batch: behind the last record of each partition that has one.\<close>

abbreviation poll_one :: "(partition \<Rightarrow> nat \<Rightarrow> string option) \<Rightarrow> (partition \<Rightarrow> nat) \<Rightarrow> partition \<times> nat \<Rightarrow> message list" where
  "poll_one topic_log pos \<equiv> (\<lambda>(tp, n). map (\<lambda>off. \<lparr>m_partition = tp, m_offset = off, m_value = topic_log tp off\<rparr>) [pos tp..<pos tp + n])"

lemma od_get_foldl_one:
  "od_get (foldl add_offset offsets (poll_one topic_log pos (tp, n))) tp' =
     (if tp' = tp \<and> 0 < n then Some (pos tp + n) else od_get offsets tp')"
  by (induction n) auto

lemma od_get_foldl_poll:
  assumes "distinct (map fst fetch)"
  shows "od_get (foldl add_offset offsets (concat (map (poll_one topic_log pos) fetch))) tp =
     (case map_of fetch tp of Some n \<Rightarrow> if 0 < n then Some (pos tp + n) else od_get offsets tp | None \<Rightarrow> od_get offsets tp)"
  using assms
proof (induction fetch arbitrary: offsets)
  case (Cons f fetch)
  obtain tp1 n where f: "f = (tp1, n)" by (cases f)
  have "tp1 \<notin> fst ` set fetch" using Cons.prems f by simp
  then have "map_of fetch tp1 = None" by (simp add: map_of_eq_None_iff)
  then show ?case
    using Cons od_get_foldl_one [of offsets topic_log pos tp1 n] f by (auto split: option.splits)
qed simp

text \<open>The offsets of the group: everything below them is handled, and reading stands at them.\<close>

definition consumer_inv :: "consumer_state \<Rightarrow> bool" where
  "consumer_inv st \<longleftrightarrow> (\<forall>tp n off. cs_committed st tp = Some n \<and> off < n \<longrightarrow> handled st tp off) \<and>
     (\<forall>tp. cs_position st tp = (case cs_committed st tp of Some n \<Rightarrow> n | None \<Rightarrow> 0))"

lemma consumer_inv_seek:
  assumes "\<forall>tp n off. cs_committed st tp = Some n \<and> off < n \<longrightarrow> handled st tp off"
  shows "consumer_inv (seek_to_committed st)"
  using assms by (simp add: consumer_inv_def seek_to_committed_def handled_def)

lemma consume_turn_inv:
  assumes turn: "consume_turn S mr backoff max_backoff topic_log (K, fetch) st = (res, st')" and inv: "consumer_inv st"
    and fetch: "distinct (map fst fetch)"
  shows "(\<forall>tp n off. cs_committed st' tp = Some n \<and> off < n \<longrightarrow> handled st' tp off) \<and> (res = Inr () \<longrightarrow> consumer_inv st')"
proof -
  obtain data st1 where p: "poll topic_log fetch st = (data, st1)" by force
  have data: "data = concat (map (poll_one topic_log (cs_position st)) fetch)"
    and st1: "cs_committed st1 = cs_committed st" "\<And>tp off. handled st1 tp off = handled st tp off"
      "\<And>tp. cs_position st1 tp = cs_position st tp + (case map_of fetch tp of None \<Rightarrow> 0 | Some n \<Rightarrow> n)"
    using p by (auto simp: poll_def handled_def)
  show ?thesis
  proof (cases "data = []")
    case True
    have "(case map_of fetch tp of None \<Rightarrow> 0 | Some n \<Rightarrow> n) = 0" for tp
    proof (cases "map_of fetch tp")
      case (Some n)
      then have "(tp, n) \<in> set fetch" by (rule map_of_SomeD)
      with True data show ?thesis using Some by auto
    qed simp
    with True turn p inv st1 show ?thesis by (auto simp: consume_turn_def consumer_inv_def)
  next
    case False
    obtain hres st2 where h: "handle_messages S K mr data [] st1 = (hres, st2)" by force
    note H = handle_messages_handles [OF h]
    have old: "\<forall>tp n off. cs_committed st2 tp = Some n \<and> off < n \<longrightarrow> handled st2 tp off"
      using H inv st1 by (auto simp: advances_def consumer_inv_def)
    show ?thesis
    proof (cases "\<exists>offsets. hres = Inr (Some offsets) \<and> k_commit K offsets = Committed")
      case True
      then obtain offsets where o: "hres = Inr (Some offsets)" "k_commit K offsets = Committed" by blast
      have st': "st' = (commit_offsets st2 offsets)\<lparr>cs_failed_batches := 0\<rparr>" "res = Inr ()"
        using turn p False h o by (auto simp: consume_turn_def handle_batch_def)
      have off: "od_get offsets tp = (case map_of fetch tp of Some n \<Rightarrow> if 0 < n then Some (cs_position st tp + n) else None | None \<Rightarrow> None)" for tp
        using H o(1) data od_get_foldl_poll [OF fetch, of "[]" topic_log "cs_position st" tp] by (auto split: option.splits)
      have pos2: "cs_position st2 = cs_position st1" "cs_committed st2 = cs_committed st" using H st1 by (simp_all add: advances_def)
      have new: "handled st2 tp o'" if "od_get offsets tp = Some n" "o' < n" for tp n o'
      proof -
        from that off obtain k where k: "map_of fetch tp = Some k" "0 < k" "n = cs_position st tp + k"
          by (auto split: option.splits if_splits)
        show ?thesis
        proof (cases "o' < cs_position st tp")
          case True
          then have "handled st tp o'" using inv by (auto simp: consumer_inv_def split: option.splits)
          then show ?thesis using H st1(2) by (simp add: advances_def)
        next
          case False
          let ?m = "\<lparr>m_partition = tp, m_offset = o', m_value = topic_log tp o'\<rparr>"
          have "?m \<in> set (poll_one topic_log (cs_position st) (tp, k))" using False that(2) k(3) by auto
          then have "?m \<in> set data" unfolding data set_concat set_map using map_of_SomeD [OF k(1)] by blast
          moreover have "\<forall>m \<in> set data. handled st2 (m_partition m) (m_offset m)" using H o(1) by blast
          ultimately have "handled st2 (m_partition ?m) (m_offset ?m)" by blast
          then show ?thesis by simp
        qed
      qed
      have "handled st' tp x = handled st2 tp x" for tp x using st'(1) by (simp add: handled_def commit_offsets_def)
      moreover have "cs_committed st' tp = (case od_get offsets tp of Some n \<Rightarrow> Some n | None \<Rightarrow> cs_committed st2 tp)" for tp
        using st'(1) by (simp add: commit_offsets_def)
      ultimately have a: "\<forall>tp n x. cs_committed st' tp = Some n \<and> x < n \<longrightarrow> handled st' tp x"
        using new old by (auto split: option.splits)
      have "cs_position st' tp = (case cs_committed st' tp of Some n \<Rightarrow> n | None \<Rightarrow> 0)" for tp
        using st'(1) off [of tp] pos2 st1(3) [of tp] inv
        by (auto simp: commit_offsets_def consumer_inv_def split: option.splits)
      with a show ?thesis unfolding consumer_inv_def by blast
    next
      case no: False
      then have "(\<exists>e. res = Inl e \<and> st' = st2) \<or> (res = Inr () \<and> st' = snd (rewind_and_back_off backoff max_backoff st2))"
        using turn p False h by (auto simp: consume_turn_def handle_batch_def split: sum.splits option.splits commit_result.splits)
      then show ?thesis
        using old consumer_inv_seek [of "st2\<lparr>cs_failed_batches := Suc (cs_failed_batches st2)\<rparr>"]
        by (auto simp: rewind_and_back_off_def Let_def handled_def consumer_inv_def)
    qed
  qed
qed

lemma consume_messages_inv:
  assumes "consume_messages S mr backoff max_backoff topic_log inputs st = (res, st')" "consumer_inv st"
    and "\<forall>(K, fetch) \<in> set inputs. distinct (map fst fetch)"
  shows "\<forall>tp n off. cs_committed st' tp = Some n \<and> off < n \<longrightarrow> handled st' tp off"
  using assms
proof (induction inputs arbitrary: st)
  case Nil
  then show ?case by (auto simp: consumer_inv_def)
next
  case (Cons i inputs)
  obtain K fetch where i: "i = (K, fetch)" by (cases i)
  obtain tres st1 where t: "consume_turn S mr backoff max_backoff topic_log (K, fetch) st = (tres, st1)" by force
  have d: "distinct (map fst fetch)" using Cons.prems(3) i by simp
  note T = consume_turn_inv [OF t Cons.prems(2) d]
  show ?case
  proof (cases tres)
    case (Inl e)
    then have "st' = st1" using Cons.prems(1) i t by simp
    with T show ?thesis by blast
  next
    case (Inr u)
    then have "consume_messages S mr backoff max_backoff topic_log inputs st1 = (res, st')" using Cons.prems(1) i t by simp
    moreover have "consumer_inv st1" using T Inr by simp
    ultimately show ?thesis using Cons.IH Cons.prems(3) by simp
  qed
qed

lemma restart_worker_inv:
  assumes "\<forall>tp n off. cs_committed st tp = Some n \<and> off < n \<longrightarrow> handled st tp off"
  shows "consumer_inv (restart_worker rules producer st)"
  unfolding restart_worker_def using assms by (intro consumer_inv_seek) (simp add: handled_def)

lemma worker_lives_inv:
  assumes "consumer_inv st" "\<forall>(inputs, rules, producer) \<in> set lives. \<forall>(K, fetch) \<in> set inputs. distinct (map fst fetch)"
  shows "consumer_inv (worker_lives S mr backoff max_backoff topic_log lives st)"
  using assms
proof (induction lives arbitrary: st)
  case (Cons life lives)
  obtain inputs rules producer where l: "life = (inputs, rules, producer)" by (cases life) auto
  obtain res st1 where c: "consume_messages S mr backoff max_backoff topic_log inputs st = (res, st1)" by force
  have "\<forall>tp n off. cs_committed st1 tp = Some n \<and> off < n \<longrightarrow> handled st1 tp off"
    using consume_messages_inv [OF c Cons.prems(1)] Cons.prems(2) l by simp
  from Cons.IH [OF restart_worker_inv [OF this]] Cons.prems(2) l c show ?case by simp
qed simp

definition new_worker :: "engine \<Rightarrow> shared \<Rightarrow> consumer_state" where
  "new_worker eng sh = \<lparr>cs_producer = 0, cs_producers_replaced = 0, cs_failed_batches = 0, cs_position = (\<lambda>tp. 0),
     cs_committed = (\<lambda>tp. None), cs_dlq = [], cs_engine = eng, cs_shared = sh, cs_processed = []\<rparr>"

text \<open>
  C6. At least once: over any number of lives of the worker, whatever the records, the failures of the
  database, of the broker's sends, starts and commits, and wherever a life ends, every record below an offset
  committed for its partition was evaluated by the engine without an error or stands in the dead-letter topic.
\<close>

theorem at_least_once:
  assumes "\<forall>(inputs, rules, producer) \<in> set lives. \<forall>(K, fetch) \<in> set inputs. distinct (map fst fetch)"
    and "st = worker_lives S mr backoff max_backoff topic_log lives (new_worker eng sh)"
    and "cs_committed st tp = Some n" "off < n"
  shows "(tp, off) \<in> set (cs_processed st) \<or> (\<exists>dl \<in> set (cs_dlq st). dl_partition dl = tp \<and> dl_offset dl = off)"
proof -
  have "consumer_inv (new_worker eng sh)" by (simp add: consumer_inv_def new_worker_def)
  from worker_lives_inv [OF this assms(1)] assms(2,3,4) show ?thesis
    unfolding consumer_inv_def handled_def by blast
qed

section \<open>Failures of the platform, and the wait\<close>

text \<open>An attempt that meets a failure of the platform dead-letters nothing: the batch is read again.\<close>

lemma infrastructure_error_retries:
  assumes "process_message S (k_attempt K k) st d = (Inl e, st1)" "is_infrastructure_error e"
  shows "attempt_message S K k (Suc n) e' st m d = (RETRY_BATCH, st1)"
  using assms by (cases e) auto

lemma back_off_delay_bounds:
  assumes "0 \<le> retry_backoff" "0 \<le> max_backoff"
  shows "0 \<le> back_off_delay retry_backoff max_backoff n" "back_off_delay retry_backoff max_backoff n \<le> max_backoff"
    "n \<le> n' \<Longrightarrow> back_off_delay retry_backoff max_backoff n \<le> back_off_delay retry_backoff max_backoff n'"
proof -
  show "0 \<le> back_off_delay retry_backoff max_backoff n" using assms by (simp add: back_off_delay_def)
  show "back_off_delay retry_backoff max_backoff n \<le> max_backoff" by (simp add: back_off_delay_def)
  assume "n \<le> n'"
  then have "(2::rat) ^ (n - 1) \<le> 2 ^ (n' - 1)" by (intro power_increasing) auto
  then have "retry_backoff * 2 ^ (n - 1) \<le> retry_backoff * 2 ^ (n' - 1)" using assms(1) by (rule mult_left_mono)
  then show "back_off_delay retry_backoff max_backoff n \<le> back_off_delay retry_backoff max_backoff n'"
    by (simp add: back_off_delay_def min_le_iff_disj)
qed

text \<open>A record without a value, dead-lettered and committed.\<close>

definition demo_kafka :: "worker_env \<Rightarrow> kafka_env" where
  "demo_kafka E = \<lparr>k_deliver = (\<lambda>p dl. Sent), k_sender_ended = (\<lambda>p. False), k_starts = (\<lambda>p. True), k_commit = (\<lambda>offs. Committed),
     k_loads = (\<lambda>b. NotUtf8Json []), k_utf8 = (\<lambda>b. Some b), k_attempt = (\<lambda>n. E)\<rparr>"

definition demo_lives ::
    "worker_env \<Rightarrow> ((kafka_env \<times> (partition \<times> nat) list) list \<times> (string \<times> rule list) list \<times> nat) list" where
  "demo_lives E = [([(demo_kafka E, [(TopicPartition ''readings'' 0, 1)])], [], 1)]"

lemma demo_committed:
  "cs_committed (worker_lives S 3 1 60 (\<lambda>tp off. None) (demo_lives E) (new_worker eng sh)) (TopicPartition ''readings'' 0) = Some 1"
  by (simp add: demo_lives_def demo_kafka_def new_worker_def consume_turn_def poll_def handle_batch_def handle_message_def
      decode_message_def dead_letter_message_def send_def send_on_def commit_offsets_def restart_worker_def seek_to_committed_def)

theorem at_least_once_witness:
  "\<exists>st :: consumer_state. cs_committed st (TopicPartition ''readings'' 0) = Some 1 \<and>
     ((TopicPartition ''readings'' 0, 0) \<in> set (cs_processed st) \<or>
      (\<exists>dl \<in> set (cs_dlq st). dl_partition dl = TopicPartition ''readings'' 0 \<and> dl_offset dl = 0))"
proof -
  let ?S = "\<lparr>es_cooldown = 300, es_dedup_max = 10, es_features = None, es_feature_max_age = None\<rparr>"
  let ?E = "\<lparr>e_now = 0, e_fromiso = (\<lambda>s. None), e_isoformat = (\<lambda>t. []), e_uuid5 = (\<lambda>s. 0), e_json_loads = (\<lambda>s. None),
     e_link = (\<lambda>a. Up), e_feat_up = True, e_sensor_name = (\<lambda>s n. Inr None), e_model_row = (\<lambda>s n. Inr None),
     e_feature_config = (\<lambda>s n. Inr None), e_labels = (\<lambda>s. Inr []), e_predict = (\<lambda>m r t c. Unreachable),
     e_drift = (\<lambda>m c w t. Unreachable)\<rparr>"
  let ?sh = "\<lparr>sh_alerts = (\<lambda>schema. []), sh_features = (\<lambda>k. None)\<rparr>"
  let ?st = "worker_lives ?S 3 1 60 (\<lambda>tp off. None) (demo_lives ?E) (new_worker (fresh_engine []) ?sh)"
  have f: "\<forall>(inputs, rules, producer) \<in> set (demo_lives ?E). \<forall>(K, fetch) \<in> set inputs. distinct (map fst fetch)"
    by (simp add: demo_lives_def)
  from at_least_once [OF f refl demo_committed zero_less_one] demo_committed [of ?S ?E "fresh_engine []" ?sh] show ?thesis by blast
qed

end
