(* ===== verification/Sql_Wire.thy ===== *)
theory Sql_Wire
  imports Tenancy "HOL-Library.Word"
begin

text \<open>
  The PostgreSQL wire codec of the SQL proxy (\<open>services/notebook_sql_proxy/wire.py\<close>) and the
  frontend handshake of \<open>services/notebook_sql_proxy/server.py\<close> that reads it from a socket.

  A socket's reading side is the list of bytes the peer sends before it closes; \<open>readexactly\<close> takes
  from its front. The loops that read until some message are \<^theory_text>\<open>partial_function\<close>s: \<open>None\<close> is a
  loop that never ends. Texts are converted by the \<open>codec\<close> parameter, Python's UTF-8; its laws are
  the locale \<open>utf8_codec\<close>, interpreted on the codec of the texts the development represents.

  Shown: what is built is parsed back, the handshake returns on every finite input, and it never
  answers an encryption request otherwise than by declining.
\<close>

type_synonym octet = "8 word"
type_synonym octets = "octet list"

text \<open>
  The exceptions of the proxy by class: those of the wire, a socket closed in the middle of a message,
  and \<open>PyError\<close> for the built-in ones. \<open>struct.error\<close> is \<open>StructError\<close>.
\<close>

datatype sql_error =
  ProtocolError | IncompleteReadError | UnicodeDecodeError | StructError | UpstreamAuthRejected | ConnectionError
| PyError py_error

section \<open>Bytes and texts\<close>

record codec =
  cd_enc :: "string \<Rightarrow> octets"
  cd_dec :: "octets \<Rightarrow> string option"
  cd_replace :: "octets \<Rightarrow> string"

text \<open>A bytes literal of ASCII characters.\<close>

definition b_lit :: "string \<Rightarrow> octets" where
  "b_lit s = map of_char s"

text \<open>\<open>struct.pack("!I", n)\<close> and \<open>struct.unpack("!I", b)\<close>: four bytes, most significant first.\<close>

definition pack_I :: "nat \<Rightarrow> sql_error + octets" where
  "pack_I n =
     (if n < 2 ^ 32 then Inr [of_nat (n div 2 ^ 24), of_nat (n div 2 ^ 16), of_nat (n div 2 ^ 8), of_nat n]
      else Inl StructError)"

definition unpack_I :: "octets \<Rightarrow> nat" where
  "unpack_I bs = foldl (\<lambda>n b. 256 * n + unat b) 0 bs"

definition decode_utf8 :: "codec \<Rightarrow> octets \<Rightarrow> sql_error + string" where
  "decode_utf8 U bs = (case cd_dec U bs of None \<Rightarrow> Inl UnicodeDecodeError | Some s \<Rightarrow> Inr s)"

section \<open>Constants\<close>

definition PROTOCOL_VERSION_3 :: nat where "PROTOCOL_VERSION_3 = 196608"
definition SSL_REQUEST_CODE :: nat where "SSL_REQUEST_CODE = 80877103"
definition GSSENC_REQUEST_CODE :: nat where "GSSENC_REQUEST_CODE = 80877104"
definition CANCEL_REQUEST_CODE :: nat where "CANCEL_REQUEST_CODE = 80877102"

definition MSG_AUTHENTICATION :: octets where "MSG_AUTHENTICATION = b_lit ''R''"
definition MSG_ERROR_RESPONSE :: octets where "MSG_ERROR_RESPONSE = b_lit ''E''"
definition MSG_READY_FOR_QUERY :: octets where "MSG_READY_FOR_QUERY = b_lit ''Z''"
definition MSG_PARAMETER_STATUS :: octets where "MSG_PARAMETER_STATUS = b_lit ''S''"
definition MSG_BACKEND_KEY_DATA :: octets where "MSG_BACKEND_KEY_DATA = b_lit ''K''"
definition MSG_PASSWORD :: octets where "MSG_PASSWORD = b_lit ''p''"
definition MSG_QUERY :: octets where "MSG_QUERY = b_lit ''Q''"
definition MSG_TERMINATE :: octets where "MSG_TERMINATE = b_lit ''X''"

definition AUTH_OK :: nat where "AUTH_OK = 0"
definition AUTH_CLEARTEXT_PASSWORD :: nat where "AUTH_CLEARTEXT_PASSWORD = 3"
definition AUTH_SASL :: nat where "AUTH_SASL = 10"
definition TXN_IDLE :: octets where "TXN_IDLE = b_lit ''I''"

lemmas msg_defs = MSG_AUTHENTICATION_def MSG_ERROR_RESPONSE_def MSG_READY_FOR_QUERY_def MSG_PARAMETER_STATUS_def
  MSG_BACKEND_KEY_DATA_def MSG_PASSWORD_def MSG_QUERY_def MSG_TERMINATE_def TXN_IDLE_def b_lit_def

lemmas code_defs = PROTOCOL_VERSION_3_def SSL_REQUEST_CODE_def GSSENC_REQUEST_CODE_def CANCEL_REQUEST_CODE_def

section \<open>The startup phase\<close>

text \<open>The walk over the tokens of a StartupMessage's body, a pair at a time, until an empty key.\<close>

fun startup_tokens ::
    "codec \<Rightarrow> octets list \<Rightarrow> (string, string) od \<Rightarrow> sql_error + (string, string) od" where
  "startup_tokens U [] params = Inl ProtocolError"
| "startup_tokens U (key # tokens) params =
     (if key = [] then Inr params
      else (case tokens of
         [] \<Rightarrow> Inl ProtocolError
       | v # tokens' \<Rightarrow>
           (case decode_utf8 U v of
              Inl e \<Rightarrow> Inl e
            | Inr value_text \<Rightarrow>
                (case decode_utf8 U key of
                   Inl e \<Rightarrow> Inl e
                 | Inr key_text \<Rightarrow> startup_tokens U tokens' (od_set params key_text value_text)))))"

definition parse_startup_packet :: "codec \<Rightarrow> octets \<Rightarrow> sql_error + nat \<times> (string, string) od" where
  "parse_startup_packet U data =
     (if length data < 4 then Inl ProtocolError
      else (let code = unpack_I (take 4 data)
            in if code \<in> {SSL_REQUEST_CODE, GSSENC_REQUEST_CODE, CANCEL_REQUEST_CODE} then Inr (code, [])
               else if code \<noteq> PROTOCOL_VERSION_3 then Inl ProtocolError
               else (let body = drop 4 data
                     in if \<not> ends_with body [0] then Inl ProtocolError
                        else res_map (Pair code) (startup_tokens U (split_on 0 body) []))))"

text \<open>Several \<open>Int32\<close> fields in a row, as \<open>struct.pack("!II", ...)\<close> writes them.\<close>

fun pack_all :: "nat list \<Rightarrow> sql_error + octets" where
  "pack_all [] = Inr []"
| "pack_all (n # ns) =
     (case pack_I n of
        Inl e \<Rightarrow> Inl e
      | Inr b \<Rightarrow> res_map (\<lambda>bs. b @ bs) (pack_all ns))"

definition build_ssl_request :: "sql_error + octets" where
  "build_ssl_request = pack_all [8, SSL_REQUEST_CODE]"

definition parse_cancel_request :: "octets \<Rightarrow> sql_error + nat \<times> nat" where
  "parse_cancel_request data =
     (if length data \<noteq> 12 then Inl ProtocolError
      else if unpack_I (take 4 data) \<noteq> CANCEL_REQUEST_CODE then Inl ProtocolError
      else Inr (unpack_I (take 4 (drop 4 data)), unpack_I (drop 8 data)))"

definition build_cancel_request :: "nat \<Rightarrow> nat \<Rightarrow> sql_error + octets" where
  "build_cancel_request pid key = pack_all [16, CANCEL_REQUEST_CODE, pid, key]"

definition startup_body :: "codec \<Rightarrow> (string, string) od \<Rightarrow> octets" where
  "startup_body U params = concat (map (\<lambda>(k, v). cd_enc U k @ [0] @ cd_enc U v @ [0]) params) @ [0]"

definition build_startup_message :: "codec \<Rightarrow> (string, string) od \<Rightarrow> sql_error + octets" where
  "build_startup_message U params =
     (case pack_I PROTOCOL_VERSION_3 of
        Inl e \<Rightarrow> Inl e
      | Inr version \<Rightarrow>
          (let body = version @ startup_body U params
           in res_map (\<lambda>len. len @ body) (pack_I (length body + 4))))"

section \<open>Regular framing\<close>

definition build_message :: "octets \<Rightarrow> octets \<Rightarrow> sql_error + octets" where
  "build_message type_byte payload =
     (if length type_byte \<noteq> 1 then Inl (PyError ValueError)
      else res_map (\<lambda>len. type_byte @ len @ payload) (pack_I (length payload + 4)))"

text \<open>
  \<open>data[5:total]\<close> is empty when \<open>total\<close> is below 5: a length below 4 is accepted here, with what follows
  the four length bytes split in the middle of the header.
\<close>

definition split_message :: "octets \<Rightarrow> sql_error + octets \<times> octets \<times> octets" where
  "split_message data =
     (if length data < 5 then Inl ProtocolError
      else (let total = 1 + unpack_I (take 4 (drop 1 data))
            in if length data < total then Inl ProtocolError
               else Inr (take 1 data, take (total - 5) (drop 5 data), drop total data)))"

definition build_backend_key_data :: "nat \<Rightarrow> nat \<Rightarrow> sql_error + octets" where
  "build_backend_key_data pid key =
     (case pack_all [pid, key] of Inl e \<Rightarrow> Inl e | Inr p \<Rightarrow> build_message MSG_BACKEND_KEY_DATA p)"

definition parse_backend_key_data :: "octets \<Rightarrow> sql_error + nat \<times> nat" where
  "parse_backend_key_data payload =
     (if length payload \<noteq> 8 then Inl ProtocolError
      else Inr (unpack_I (take 4 payload), unpack_I (drop 4 payload)))"

section \<open>Authentication, queries, errors\<close>

definition build_authentication_request :: "nat \<Rightarrow> octets \<Rightarrow> sql_error + octets" where
  "build_authentication_request code payload =
     (case pack_I code of Inl e \<Rightarrow> Inl e | Inr c \<Rightarrow> build_message MSG_AUTHENTICATION (c @ payload))"

definition build_authentication_cleartext_password :: "sql_error + octets" where
  "build_authentication_cleartext_password = build_authentication_request AUTH_CLEARTEXT_PASSWORD []"

definition build_authentication_ok :: "sql_error + octets" where
  "build_authentication_ok = build_authentication_request AUTH_OK []"

definition parse_authentication :: "octets \<Rightarrow> sql_error + nat \<times> octets" where
  "parse_authentication payload =
     (if length payload < 4 then Inl ProtocolError else Inr (unpack_I (take 4 payload), drop 4 payload))"

definition parse_password_message :: "codec \<Rightarrow> octets \<Rightarrow> sql_error + string" where
  "parse_password_message U payload =
     (if \<not> ends_with payload [0] then Inl ProtocolError else decode_utf8 U (butlast payload))"

definition build_password_message :: "codec \<Rightarrow> string \<Rightarrow> sql_error + octets" where
  "build_password_message U password = build_message MSG_PASSWORD (cd_enc U password @ [0])"

definition build_query :: "codec \<Rightarrow> string \<Rightarrow> sql_error + octets" where
  "build_query U sql = build_message MSG_QUERY (cd_enc U sql @ [0])"

definition build_ready_for_query :: "octets \<Rightarrow> sql_error + octets" where
  "build_ready_for_query status =
     (if length status \<noteq> 1 then Inl (PyError ValueError) else build_message MSG_READY_FOR_QUERY status)"

definition error_body :: "codec \<Rightarrow> string \<Rightarrow> string \<Rightarrow> string \<Rightarrow> octets" where
  "error_body U message code severity =
     b_lit ''S'' @ cd_enc U severity @ [0] @ b_lit ''V'' @ cd_enc U severity @ [0] @
     b_lit ''C'' @ cd_enc U code @ [0] @ b_lit ''M'' @ cd_enc U message @ [0] @ [0]"

definition build_error_response :: "codec \<Rightarrow> string \<Rightarrow> string \<Rightarrow> string \<Rightarrow> sql_error + octets" where
  "build_error_response U message code severity = build_message MSG_ERROR_RESPONSE (error_body U message code severity)"

text \<open>One field per non-empty chunk; a tag given twice keeps its last value.\<close>

fun error_fields :: "codec \<Rightarrow> octets list \<Rightarrow> (char, string) od \<Rightarrow> (char, string) od" where
  "error_fields U [] acc = acc"
| "error_fields U ([] # chunks) acc = error_fields U chunks acc"
| "error_fields U ((tag # chunk) # chunks) acc =
     error_fields U chunks (od_set acc (char_of (unat tag)) (cd_replace U chunk))"

definition parse_error_response :: "codec \<Rightarrow> octets \<Rightarrow> (char, string) od" where
  "parse_error_response U payload = error_fields U (split_on 0 payload) []"

section \<open>Reading from a socket\<close>

definition readexactly :: "nat \<Rightarrow> octets \<Rightarrow> sql_error + octets \<times> octets" where
  "readexactly n inp = (if length inp < n then Inl IncompleteReadError else Inr (take n inp, drop n inp))"

text \<open>The framing both readers share: an \<open>Int32\<close> length that counts itself, with its upper bound.\<close>

definition read_counted :: "nat \<Rightarrow> octets \<Rightarrow> sql_error + octets \<times> octets" where
  "read_counted bound inp =
     (case readexactly 4 inp of
        Inl e \<Rightarrow> Inl e
      | Inr (header, inp1) \<Rightarrow>
          (let len = unpack_I header
           in if len < 4 \<or> bound < len then Inl ProtocolError else readexactly (len - 4) inp1))"

definition read_startup_packet :: "octets \<Rightarrow> sql_error + octets \<times> octets" where
  "read_startup_packet inp = read_counted (2 ^ 20) inp"

definition read_regular_message :: "octets \<Rightarrow> sql_error + (octets \<times> octets) \<times> octets" where
  "read_regular_message inp =
     (case readexactly 1 inp of
        Inl e \<Rightarrow> Inl e
      | Inr (type_byte, inp1) \<Rightarrow>
          res_map (\<lambda>(payload, rest). ((type_byte, payload), rest)) (read_counted (2 ^ 24) inp1))"

record ClientStartup =
  cs_code :: nat
  cs_params :: "(string, string) od"
  cs_body :: octets

definition is_cancel :: "ClientStartup \<Rightarrow> bool" where
  "is_cancel startup \<longleftrightarrow> cs_code startup = CANCEL_REQUEST_CODE"

definition DECLINE_SSL :: octets where "DECLINE_SSL = b_lit ''N''"

text \<open>
  \<open>read_startup\<close>: reads packets and declines encryption until another packet comes. The result is the
  packet with what is left to read, or the error, and what was written to the kernel.
\<close>

partial_function (option) read_startup_from ::
    "codec \<Rightarrow> octets \<Rightarrow> octets \<Rightarrow> ((sql_error + ClientStartup \<times> octets) \<times> octets) option" where
  "read_startup_from U inp out =
     (case read_startup_packet inp of
        Inl e \<Rightarrow> Some (Inl e, out)
      | Inr (body, inp1) \<Rightarrow>
          (case parse_startup_packet U body of
             Inl e \<Rightarrow> Some (Inl e, out)
           | Inr (code, params) \<Rightarrow>
               if code = SSL_REQUEST_CODE \<or> code = GSSENC_REQUEST_CODE
               then read_startup_from U inp1 (out @ DECLINE_SSL)
               else Some (Inr (\<lparr>cs_code = code, cs_params = params, cs_body = body\<rparr>, inp1), out)))"

definition read_startup ::
    "codec \<Rightarrow> octets \<Rightarrow> ((sql_error + ClientStartup \<times> octets) \<times> octets) option" where
  "read_startup U inp = read_startup_from U inp []"

definition request_handle :: "codec \<Rightarrow> octets \<Rightarrow> (sql_error + string \<times> octets) \<times> octets" where
  "request_handle U inp =
     (case build_authentication_cleartext_password of
        Inl e \<Rightarrow> (Inl e, [])
      | Inr ask \<Rightarrow>
          (case read_regular_message inp of
             Inl e \<Rightarrow> (Inl e, ask)
           | Inr ((type_byte, payload), inp1) \<Rightarrow>
               if type_byte \<noteq> MSG_PASSWORD then (Inl ProtocolError, ask)
               else (res_map (\<lambda>h. (h, inp1)) (parse_password_message U payload), ask)))"

definition authenticate_client ::
    "codec \<Rightarrow> octets \<Rightarrow> ((sql_error + ((string, string) od \<times> string) \<times> octets) \<times> octets) option" where
  "authenticate_client U inp =
     (case read_startup U inp of
        None \<Rightarrow> None
      | Some (Inl e, out) \<Rightarrow> Some (Inl e, out)
      | Some (Inr (startup, inp1), out) \<Rightarrow>
          if is_cancel startup then Some (Inl ProtocolError, out)
          else (case request_handle U inp1 of
             (r, ask) \<Rightarrow> Some (res_map (\<lambda>(h, rest). ((cs_params startup, h), rest)) r, out @ ask)))"

section \<open>Integers on the wire\<close>

lemma pack_I_Inr:
  assumes "pack_I n = Inr bs"
  shows "length bs = 4" and "unpack_I bs = n"
proof -
  have n: "n < 2 ^ 32" and bs: "bs = [of_nat (n div 2 ^ 24), of_nat (n div 2 ^ 16), of_nat (n div 2 ^ 8), of_nat n]"
    using assms by (auto simp: pack_I_def split: if_splits)
  then show "length bs = 4" by simp
  have join: "256 * (m div 256) + m mod 256 = m" for m :: nat by simp
  have "unpack_I bs = 256 * (256 * (256 * (n div 256 div 256 div 256 mod 256) + n div 256 div 256 mod 256) + n div 256 mod 256) + n mod 256"
    by (simp add: unpack_I_def bs unsigned_of_nat take_bit_eq_mod div_mult2_eq [symmetric])
  also have "n div 256 div 256 div 256 mod 256 = n div 256 div 256 div 256"
    using n by (simp add: div_mult2_eq [symmetric] less_mult_imp_div_less)
  also have "256 * (256 * (256 * (n div 256 div 256 div 256) + n div 256 div 256 mod 256) + n div 256 mod 256) + n mod 256 = n"
    by (simp only: join)
  finally show "unpack_I bs = n" .
qed

lemma pack_I_small [simp]: "n < 2 ^ 32 \<Longrightarrow> \<exists>bs. pack_I n = Inr bs"
  by (simp add: pack_I_def)

lemma unpack_I_bound: "unpack_I bs < 256 ^ length bs"
proof (induction bs rule: rev_induct)
  case (snoc b bs)
  have "unat b < 256" using unsigned_less [of b, where 'a = nat] by simp
  with snoc show ?case by (simp add: unpack_I_def)
qed (simp add: unpack_I_def)

lemma pack_all_two:
  assumes "pack_all [m, n] = Inr bs"
  shows "length bs = 8" "unpack_I (take 4 bs) = m" "unpack_I (drop 4 bs) = n"
  using assms by (auto simp: pack_I_Inr split: sum.splits dest!: pack_I_Inr)

lemma pack_all_three_after:
  assumes "pack_all [c, m, n] = Inr bs"
  shows "length bs = 12" "unpack_I (take 4 bs) = c" "unpack_I (take 4 (drop 4 bs)) = m" "unpack_I (drop 8 bs) = n"
  using assms by (auto simp: pack_I_Inr split: sum.splits dest!: pack_I_Inr)

section \<open>Framing\<close>

lemma build_message_Inr:
  "build_message ty payload = Inr m \<longleftrightarrow>
     (\<exists>len. length ty = 1 \<and> pack_I (length payload + 4) = Inr len \<and> m = ty @ len @ payload)"
  by (auto simp: build_message_def)

lemma split_message_build:
  assumes "build_message ty payload = Inr m"
  shows "split_message (m @ rest) = Inr (ty, payload, rest)"
proof -
  obtain len where len: "length ty = 1" "pack_I (length payload + 4) = Inr len" "m = ty @ len @ payload"
    using assms by (auto simp: build_message_Inr)
  note l = pack_I_Inr [OF len(2)]
  have "take 4 (drop 1 (m @ rest)) = len" using len l by simp
  moreover have "take 1 (m @ rest) = ty" "drop 5 (m @ rest) = payload @ rest" "drop (1 + (length payload + 4)) (m @ rest) = rest"
    using len l by auto
  moreover have "length (m @ rest) = 5 + length payload + length rest" using len l by simp
  ultimately show ?thesis unfolding split_message_def Let_def using l(2) by simp
qed

lemma readexactly_Inr:
  "readexactly n inp = Inr (bs, rest) \<longleftrightarrow> length bs = n \<and> inp = bs @ rest"
  by (auto simp: readexactly_def append_eq_conv_conj)

lemma read_counted_Inr:
  "read_counted bound inp = Inr (body, rest) \<longleftrightarrow>
     (\<exists>header. length header = 4 \<and> unpack_I header = length body + 4 \<and> length body + 4 \<le> bound \<and> inp = header @ body @ rest)"
proof
  assume "read_counted bound inp = Inr (body, rest)"
  then obtain header inp1 where h: "readexactly 4 inp = Inr (header, inp1)"
    "4 \<le> unpack_I header" "unpack_I header \<le> bound" "readexactly (unpack_I header - 4) inp1 = Inr (body, rest)"
    by (auto simp: read_counted_def Let_def not_less split: sum.splits if_splits)
  then show "\<exists>header. length header = 4 \<and> unpack_I header = length body + 4 \<and> length body + 4 \<le> bound \<and> inp = header @ body @ rest"
    unfolding readexactly_Inr by (intro exI [of _ header]) auto
next
  assume "\<exists>header. length header = 4 \<and> unpack_I header = length body + 4 \<and> length body + 4 \<le> bound \<and> inp = header @ body @ rest"
  then show "read_counted bound inp = Inr (body, rest)"
    by (auto simp: read_counted_def readexactly_def)
qed

lemma read_counted_shorter:
  "read_counted bound inp = Inr (body, rest) \<Longrightarrow> length inp = 4 + length body + length rest"
  by (auto simp: read_counted_Inr)

lemma read_regular_message_Inr:
  "read_regular_message inp = Inr ((ty, payload), rest) \<longleftrightarrow>
     (\<exists>inp1. length ty = 1 \<and> inp = ty @ inp1 \<and> read_counted (2 ^ 24) inp1 = Inr (payload, rest))"
proof -
  have "read_regular_message inp = Inr ((ty, payload), rest) \<longleftrightarrow>
      (\<exists>inp1. readexactly 1 inp = Inr (ty, inp1) \<and> read_counted (2 ^ 24) inp1 = Inr (payload, rest))"
    by (auto simp: read_regular_message_def split: sum.splits)
  then show ?thesis by (simp add: readexactly_Inr)
qed

lemma read_regular_message_shorter:
  "read_regular_message inp = Inr ((ty, payload), rest) \<Longrightarrow> length inp = 5 + length payload + length rest"
  by (auto simp: read_regular_message_Inr dest: read_counted_shorter)

text \<open>A message that is not too long is read as it was built.\<close>

lemma read_built_message:
  assumes "build_message ty payload = Inr m" "length payload + 4 \<le> 2 ^ 24"
  shows "read_regular_message (m @ rest) = Inr ((ty, payload), rest)"
proof -
  obtain len where len: "length ty = 1" "pack_I (length payload + 4) = Inr len" "m = ty @ len @ payload"
    using assms(1) by (auto simp: build_message_Inr)
  have "read_counted (2 ^ 24) (len @ payload @ rest) = Inr (payload, rest)"
    unfolding read_counted_Inr using pack_I_Inr [OF len(2)] assms(2) by blast
  with len show ?thesis by (auto simp: read_regular_message_Inr)
qed

lemma build_message_short: "length ty = 1 \<Longrightarrow> length payload + 4 < 2 ^ 32 \<Longrightarrow> \<exists>m. build_message ty payload = Inr m"
  by (simp add: build_message_def pack_I_def)

section \<open>Round trips\<close>

lemma backend_key_round_trip:
  assumes "build_backend_key_data pid key = Inr m"
  shows "\<exists>p. split_message (m @ rest) = Inr (MSG_BACKEND_KEY_DATA, p, rest) \<and> parse_backend_key_data p = Inr (pid, key)"
proof -
  obtain p where p: "pack_all [pid, key] = Inr p" "build_message MSG_BACKEND_KEY_DATA p = Inr m"
    using assms unfolding build_backend_key_data_def by (cases "pack_all [pid, key]") simp_all
  have "parse_backend_key_data p = Inr (pid, key)"
    using pack_all_two [OF p(1)] by (simp add: parse_backend_key_data_def)
  with split_message_build [OF p(2)] show ?thesis by blast
qed

text \<open>The packet a cancel is forwarded with is read as a startup packet and parsed to the same pair.\<close>

lemma cancel_request_round_trip:
  assumes "build_cancel_request pid key = Inr m"
  shows "\<exists>body. read_startup_packet (m @ rest) = Inr (body, rest) \<and> parse_cancel_request body = Inr (pid, key)"
proof -
  obtain len body where b: "pack_I 16 = Inr len" "pack_all [CANCEL_REQUEST_CODE, pid, key] = Inr body" "m = len @ body"
    using assms unfolding build_cancel_request_def pack_all.simps(2) [of 16] by (cases "pack_I 16") auto
  note body = pack_all_three_after [OF b(2)]
  have "read_startup_packet (m @ rest) = Inr (body, rest)"
    unfolding read_startup_packet_def read_counted_Inr using pack_I_Inr [OF b(1)] body(1) b(3) by auto
  moreover have "parse_cancel_request body = Inr (pid, key)"
    using body by (simp add: parse_cancel_request_def)
  ultimately show ?thesis by blast
qed

text \<open>What the proxy relies on in Python's UTF-8, on texts below code point 256.\<close>

locale utf8_codec =
  fixes U :: codec
  assumes dec_enc: "cd_dec U (cd_enc U s) = Some s"
    and replace_enc: "cd_replace U (cd_enc U s) = s"
    and enc_append: "cd_enc U (s @ t) = cd_enc U s @ cd_enc U t"
    and enc_nul: "0 \<in> set (cd_enc U s) \<longleftrightarrow> CHR 0x00 \<in> set s"
begin

lemma enc_Nil [simp]: "cd_enc U [] = []"
  using enc_append [of "[]" "[]"] by simp

lemma enc_inj: "cd_enc U s = cd_enc U t \<longleftrightarrow> s = t"
  by (metis dec_enc option.inject)

lemma enc_eq_Nil [simp]: "cd_enc U s = [] \<longleftrightarrow> s = []"
  using enc_inj [of s "[]"] by simp

lemma password_round_trip: "parse_password_message U (cd_enc U pw @ [0]) = Inr pw"
  by (simp add: parse_password_message_def ends_with_iff decode_utf8_def dec_enc)

definition wire_params :: "(string, string) od \<Rightarrow> bool" where
  "wire_params params \<longleftrightarrow>
     distinct (map fst params) \<and> (\<forall>(k, v) \<in> set params. k \<noteq> [] \<and> CHR 0x00 \<notin> set k \<and> CHR 0x00 \<notin> set v)"

lemma startup_tokens_built:
  assumes "wire_params params" "fst ` set params \<inter> fst ` set acc = {}"
  shows "startup_tokens U (split_on 0 (startup_body U params)) acc = Inr (acc @ params)"
  using assms
proof (induction params arbitrary: acc)
  case (Cons p params)
  obtain k v where p: "p = (k, v)" by force
  have k: "k \<noteq> []" "0 \<notin> set (cd_enc U k)" "0 \<notin> set (cd_enc U v)"
    using Cons.prems(1) by (auto simp: p wire_params_def enc_nul)
  have set: "od_set acc k v = acc @ [(k, v)]"
    using Cons.prems(2) unfolding p by (induction acc) auto
  have "split_on 0 (startup_body U (p # params)) = cd_enc U k # cd_enc U v # split_on 0 (startup_body U params)"
    unfolding p startup_body_def by (simp add: split_on_append split_on_no_sep k)
  moreover have "startup_tokens U (split_on 0 (startup_body U params)) (acc @ [(k, v)]) = Inr ((acc @ [(k, v)]) @ params)"
    using Cons.prems unfolding p by (intro Cons.IH) (auto simp: wire_params_def)
  ultimately show ?case using k by (simp add: p decode_utf8_def dec_enc set)
qed (simp add: startup_body_def)

lemma startup_round_trip:
  assumes "build_startup_message U params = Inr m" "wire_params params" "length m \<le> 2 ^ 20"
  shows "\<exists>body. read_startup_packet (m @ rest) = Inr (body, rest) \<and>
    parse_startup_packet U body = Inr (PROTOCOL_VERSION_3, params)"
proof -
  obtain version len where v: "pack_I PROTOCOL_VERSION_3 = Inr version"
    and len: "pack_I (length (version @ startup_body U params) + 4) = Inr len"
    and m: "m = len @ version @ startup_body U params"
    using assms(1) unfolding build_startup_message_def Let_def by (cases "pack_I PROTOCOL_VERSION_3") auto
  let ?body = "version @ startup_body U params"
  have "read_startup_packet (m @ rest) = Inr (?body, rest)"
    unfolding read_startup_packet_def read_counted_Inr using pack_I_Inr [OF len] assms(3) m
    by (intro exI [of _ len]) auto
  moreover have "ends_with (startup_body U params) [0]"
    unfolding ends_with_iff startup_body_def by blast
  then have "parse_startup_packet U ?body = Inr (PROTOCOL_VERSION_3, params)"
    using pack_I_Inr [OF v] startup_tokens_built [OF assms(2), of "[]"]
    by (simp add: parse_startup_packet_def code_defs)
  ultimately show ?thesis by blast
qed

lemma error_round_trip:
  assumes "CHR 0x00 \<notin> set message" "CHR 0x00 \<notin> set code" "CHR 0x00 \<notin> set severity"
  shows "parse_error_response U (error_body U message code severity) =
    [(CHR ''S'', severity), (CHR ''V'', severity), (CHR ''C'', code), (CHR ''M'', message)]"
proof -
  have nz: "0 \<notin> set (cd_enc U message)" "0 \<notin> set (cd_enc U code)" "0 \<notin> set (cd_enc U severity)"
    using assms by (simp_all add: enc_nul)
  have "split_on 0 (error_body U message code severity) =
    [of_char (CHR ''S'') # cd_enc U severity, of_char (CHR ''V'') # cd_enc U severity,
     of_char (CHR ''C'') # cd_enc U code, of_char (CHR ''M'') # cd_enc U message, [], []]"
    unfolding error_body_def b_lit_def
    by (simp add: split_on_append split_on_no_sep nz)
  then show ?thesis by (simp add: parse_error_response_def replace_enc char_of_def bit_0)
qed

end

section \<open>The codec of the texts represented\<close>

definition utf8_char :: "char \<Rightarrow> octets" where
  "utf8_char c = (let n = (of_char c :: nat)
     in if n < 128 then [of_nat n] else [of_nat (192 + n div 64), of_nat (128 + n mod 64)])"

fun utf8_decode :: "octets \<Rightarrow> string option" where
  "utf8_decode [] = Some []"
| "utf8_decode (b # bs) =
     (if unat b < 128 then map_option (Cons (char_of (unat b))) (utf8_decode bs)
      else if unat b \<in> {194, 195} then
        (case bs of
           [] \<Rightarrow> None
         | c # cs \<Rightarrow>
             if 128 \<le> unat c \<and> unat c < 192
             then map_option (Cons (char_of (64 * (unat b - 192) + (unat c - 128)))) (utf8_decode cs) else None)
      else None)"

definition latin_codec :: codec where
  "latin_codec = \<lparr>cd_enc = \<lambda>s. concat (map utf8_char s), cd_dec = utf8_decode,
     cd_replace = \<lambda>b. case utf8_decode b of None \<Rightarrow> ''?'' | Some s \<Rightarrow> s\<rparr>"

lemma unat_octet: "n < 256 \<Longrightarrow> unat (of_nat n :: octet) = n"
  by (simp add: unsigned_of_nat take_bit_eq_mod)

lemma utf8_decode_char: "utf8_decode (utf8_char c @ bs) = map_option (Cons c) (utf8_decode bs)"
proof -
  define n :: nat where "n = of_char c"
  have n: "n < 256" unfolding n_def using of_char_mod_256 [of c] by (metis mod_less_divisor zero_less_numeral)
  have c: "char_of n = c" unfolding n_def by simp
  show ?thesis
  proof (cases "n < 128")
    case True
    then have "unat (of_nat n :: octet) = n" by (simp add: unat_octet)
    with True c show ?thesis unfolding utf8_char_def Let_def n_def [symmetric] by simp
  next
    case False
    have lo: "2 \<le> n div 64" using False div_le_mono [of 128 n 64] by simp
    have hi: "n div 64 < 4" using n by (intro less_mult_imp_div_less) simp
    have r: "n mod 64 < 64" by simp
    have "unat (of_nat (192 + n div 64) :: octet) = 192 + n div 64" by (rule unat_octet) (use hi in simp)
    moreover have "unat (of_nat (128 + n mod 64) :: octet) = 128 + n mod 64" by (rule unat_octet) (use r in simp)
    moreover have "n div 64 = 2 \<or> n div 64 = 3" using lo hi by auto
    moreover note r
    moreover have "64 * (n div 64) + n mod 64 = n" by simp
    ultimately show ?thesis
      using False c unfolding utf8_char_def Let_def n_def [symmetric] by auto
  qed
qed

lemma utf8_decode_enc: "utf8_decode (concat (map utf8_char s)) = Some s"
  by (induction s) (simp_all add: utf8_decode_char)

lemma utf8_char_nul: "0 \<in> set (utf8_char c) \<longleftrightarrow> c = CHR 0x00"
proof -
  have r: "utf8_decode (utf8_char c) = Some [c]" using utf8_decode_char [of c "[]"] by simp
  show ?thesis
  proof
    assume "c = CHR 0x00"
    then show "0 \<in> set (utf8_char c)" by (simp add: utf8_char_def)
  next
    assume z: "0 \<in> set (utf8_char c)"
    have "utf8_char c = [0]"
    proof (cases "(of_char c :: nat) < 128")
      case True with z show ?thesis by (simp add: utf8_char_def)
    next
      case False
      with r z show ?thesis by (auto simp: utf8_char_def Let_def split: if_splits)
    qed
    with r show "c = CHR 0x00" by (simp add: char_of_def)
  qed
qed

interpretation latin: utf8_codec latin_codec
proof unfold_locales
  show "0 \<in> set (cd_enc latin_codec s) \<longleftrightarrow> CHR 0x00 \<in> set s" for s
    unfolding latin_codec_def by (auto simp: utf8_char_nul)
qed (simp_all add: latin_codec_def utf8_decode_enc)

section \<open>The handshake returns\<close>

lemma startup_tokens_error:
  "startup_tokens U tokens params = Inl e \<Longrightarrow> e = ProtocolError \<or> e = UnicodeDecodeError"
  by (induction U tokens params rule: startup_tokens.induct)
    (auto simp: decode_utf8_def split: if_splits list.splits sum.splits option.splits)

lemma parse_startup_packet_error:
  assumes "parse_startup_packet U body = Inl e"
  shows "e = ProtocolError \<or> e = UnicodeDecodeError"
  using assms startup_tokens_error unfolding parse_startup_packet_def Let_def
  by (auto split: if_splits)

lemma parse_startup_packet_Inr:
  assumes "parse_startup_packet U body = Inr (code, params)"
  shows "4 \<le> length body"
    and "code \<in> {SSL_REQUEST_CODE, GSSENC_REQUEST_CODE, CANCEL_REQUEST_CODE, PROTOCOL_VERSION_3}"
  using assms by (auto simp: parse_startup_packet_def Let_def split: if_splits)

lemma read_counted_error: "read_counted bound inp = Inl e \<Longrightarrow> e = ProtocolError \<or> e = IncompleteReadError"
  by (auto simp: read_counted_def readexactly_def Let_def split: if_splits)

definition startup_answer :: "octets \<Rightarrow> nat \<Rightarrow> sql_error + ClientStartup \<times> octets \<Rightarrow> bool" where
  "startup_answer inp n r \<longleftrightarrow>
     (case r of
        Inl e \<Rightarrow> e \<in> {IncompleteReadError, ProtocolError, UnicodeDecodeError} \<and> 8 * n \<le> length inp
      | Inr (startup, rest) \<Rightarrow>
          (cs_code startup = PROTOCOL_VERSION_3 \<or> is_cancel startup) \<and> 8 * (n + 1) + length rest \<le> length inp)"

lemma startup_answer_error:
  "e = ProtocolError \<or> e = UnicodeDecodeError \<or> e = IncompleteReadError \<Longrightarrow> startup_answer inp 0 (Inl e)"
  by (auto simp: startup_answer_def)

lemma read_startup_from_returns:
  "\<exists>r n. read_startup_from U inp out = Some (r, out @ concat (replicate n DECLINE_SSL)) \<and> startup_answer inp n r"
proof (induction "length inp" arbitrary: inp out rule: less_induct)
  case less
  show ?case
  proof (cases "read_startup_packet inp")
    case (Inl e)
    then have "startup_answer inp 0 (Inl e)"
      unfolding read_startup_packet_def by (intro startup_answer_error) (blast dest: read_counted_error)
    with Inl show ?thesis by (subst read_startup_from.simps) (auto intro!: exI [of _ 0])
  next
    case (Inr p)
    obtain body inp1 where p: "read_startup_packet inp = Inr (body, inp1)" using Inr by (cases p) simp
    have len: "length inp = 4 + length body + length inp1"
      using read_counted_shorter p unfolding read_startup_packet_def by blast
    show ?thesis
    proof (cases "parse_startup_packet U body")
      case (Inl e)
      then have "startup_answer inp 0 (Inl e)"
        by (intro startup_answer_error) (blast dest: parse_startup_packet_error)
      with p Inl show ?thesis by (subst read_startup_from.simps) (auto intro!: exI [of _ 0])
    next
      case (Inr q)
      obtain code params where q: "parse_startup_packet U body = Inr (code, params)" using Inr by (cases q) simp
      note body = parse_startup_packet_Inr [OF q]
      show ?thesis
      proof (cases "code = SSL_REQUEST_CODE \<or> code = GSSENC_REQUEST_CODE")
        case True
        have "length inp1 < length inp" using len by simp
        from less [OF this, of "out @ DECLINE_SSL"] obtain r n
          where n: "read_startup_from U inp1 (out @ DECLINE_SSL) =
              Some (r, (out @ DECLINE_SSL) @ concat (replicate n DECLINE_SSL))" "startup_answer inp1 n r" by blast
        have "read_startup_from U inp out = Some (r, out @ concat (replicate (Suc n) DECLINE_SSL))"
          using p q True n(1) by (subst read_startup_from.simps) auto
        moreover have "startup_answer inp (Suc n) r"
          using n(2) len body(1) by (auto simp: startup_answer_def split: sum.splits)
        ultimately show ?thesis by blast
      next
        case False
        have "read_startup_from U inp out = Some (Inr (\<lparr>cs_code = code, cs_params = params, cs_body = body\<rparr>, inp1), out)"
          using p q False by (subst read_startup_from.simps) simp
        moreover have "startup_answer inp 0 (Inr (\<lparr>cs_code = code, cs_params = params, cs_body = body\<rparr>, inp1))"
          using len body False by (auto simp: startup_answer_def is_cancel_def)
        ultimately show ?thesis by (intro exI [of _ 0] exI) auto
      qed
    qed
  qed
qed

end
