(* ===== verification/Sql_Scram.thy ===== *)
theory Sql_Scram
  imports Sql_Wire Capability_Audit
begin

text \<open>
  SCRAM-SHA-256 as the SQL proxy speaks it (\<open>services/notebook_sql_proxy/scram.py\<close>) and the tenant
  credentials of \<open>services/notebook_sql_proxy/binding.py\<close>. SHA-256, HMAC, PBKDF2 and base64 are the
  parameter \<open>crypto\<close>; a salt and a nonce, which the code draws at random, are arguments.

  Shown: a server that holds the verifier the proxy enrols for a password accepts the client's proof
  for that password, and the client accepts that server's signature and no other; an enrolment
  statement quotes exactly the tenant and the verifier.
\<close>

record crypto =
  kr_h :: "octets \<Rightarrow> octets"
  kr_hmac :: "octets \<Rightarrow> octets \<Rightarrow> octets"
  kr_pbkdf2 :: "octets \<Rightarrow> octets \<Rightarrow> int \<Rightarrow> octets option"
  kr_b64 :: "octets \<Rightarrow> string"
  kr_b64d :: "string \<Rightarrow> octets option"
  kr_b64url :: "octets \<Rightarrow> string"

definition GS2_HEADER :: octets where "GS2_HEADER = b_lit ''n,,''"
definition DEFAULT_ITERATIONS :: int where "DEFAULT_ITERATIONS = 4096"

definition xor_octets :: "octets \<Rightarrow> octets \<Rightarrow> octets" where
  "xor_octets a b = map (\<lambda>(x, y). Bit_Operations.xor x y) (zip a b)"

text \<open>\<open>item.partition("=")\<close> for the items that contain it; a key given twice keeps its last value.\<close>

definition parse_server_message :: "string \<Rightarrow> (string, string) od" where
  "parse_server_message message =
     foldl (\<lambda>out item. if CHR ''='' \<in> set item
         then od_set out (takeWhile (\<lambda>c. c \<noteq> CHR ''='') item) (tl (dropWhile (\<lambda>c. c \<noteq> CHR ''='') item))
         else out) [] (split_on (CHR '','') message)"

text \<open>\<open>int(text)\<close> in base ten, as \<open>int(text, 16)\<close> in \<open>Uuid\<close>.\<close>

fun dec_digits :: "bool \<Rightarrow> string \<Rightarrow> int list option" where
  "dec_digits last_is_digit [] = (if last_is_digit then Some [] else None)"
| "dec_digits last_is_digit (c # cs) =
     (if c = CHR ''_'' then (if last_is_digit then dec_digits False cs else None)
      else if is_digit c then map_option (Cons (ord c - 48)) (dec_digits True cs)
      else None)"

definition py_int :: "string \<Rightarrow> int option" where
  "py_int text =
     (let s = dropWhile is_c_space (map int_ascii text);
          neg = starts_with s ''-'';
          s = (if starts_with s ''-'' \<or> starts_with s ''+'' then tl s else s);
          body = takeWhile (\<lambda>c. is_digit c \<or> c = CHR ''_'') s;
          rest = dropWhile (\<lambda>c. is_digit c \<or> c = CHR ''_'') s
      in if list_all is_c_space rest
         then map_option (\<lambda>ds. (if neg then - 1 else 1) * foldl (\<lambda>n d. 10 * n + d) 0 ds) (dec_digits False body)
         else None)"

section \<open>The verifier and the client\<close>

definition salted_password :: "codec \<Rightarrow> crypto \<Rightarrow> string \<Rightarrow> octets \<Rightarrow> int \<Rightarrow> sql_error + octets" where
  "salted_password U K password salt iterations =
     (case kr_pbkdf2 K (cd_enc U password) salt iterations of
        None \<Rightarrow> Inl (PyError ValueError)
      | Some p \<Rightarrow> Inr p)"

definition client_key :: "crypto \<Rightarrow> octets \<Rightarrow> octets" where
  "client_key K salted = kr_hmac K salted (b_lit ''Client Key'')"

definition server_key :: "crypto \<Rightarrow> octets \<Rightarrow> octets" where
  "server_key K salted = kr_hmac K salted (b_lit ''Server Key'')"

definition scram_verifier :: "codec \<Rightarrow> crypto \<Rightarrow> string \<Rightarrow> octets \<Rightarrow> int \<Rightarrow> sql_error + string" where
  "scram_verifier U K password salt iterations =
     res_map (\<lambda>salted. ''SCRAM-SHA-256$'' @ show_int iterations @ '':'' @ kr_b64 K salt @ ''$'' @
         kr_b64 K (kr_h K (client_key K salted)) @ '':'' @ kr_b64 K (server_key K salted))
       (salted_password U K password salt iterations)"

record ScramClient =
  sc_username :: string
  sc_password :: string
  sc_nonce :: string

definition saslprep :: "string \<Rightarrow> string" where
  "saslprep v = py_replace '','' ''=2C'' (py_replace ''='' ''=3D'' v)"

definition client_first_bare :: "ScramClient \<Rightarrow> string" where
  "client_first_bare C = ''n='' @ saslprep (sc_username C) @ '',r='' @ sc_nonce C"

definition client_first :: "codec \<Rightarrow> ScramClient \<Rightarrow> octets" where
  "client_first U C = GS2_HEADER @ cd_enc U (client_first_bare C)"

text \<open>
  \<open>client_final\<close> answers the message to send and stashes the authentication message and the server key
  for \<open>verify_server_final\<close>.
\<close>

record scram_stash =
  ss_auth_message :: string
  ss_server_key :: octets

definition client_final ::
    "codec \<Rightarrow> crypto \<Rightarrow> ScramClient \<Rightarrow> octets \<Rightarrow> sql_error + octets \<times> scram_stash" where
  "client_final U K C server_first =
     (case decode_utf8 U server_first of
        Inl e \<Rightarrow> Inl e
      | Inr server_first_str \<Rightarrow>
          (let attrs = parse_server_message server_first_str
           in case od_get attrs ''r'' of
                None \<Rightarrow> Inl (PyError KeyError)
              | Some server_nonce \<Rightarrow>
                  if \<not> starts_with server_nonce (sc_nonce C) then Inl (PyError ValueError)
                  else (case od_get attrs ''s'' of
                     None \<Rightarrow> Inl (PyError KeyError)
                   | Some s64 \<Rightarrow>
                       (case kr_b64d K s64 of
                          None \<Rightarrow> Inl (PyError ValueError)
                        | Some salt \<Rightarrow>
                            (case od_get attrs ''i'' of
                               None \<Rightarrow> Inl (PyError KeyError)
                             | Some i10 \<Rightarrow>
                                 (case py_int i10 of
                                    None \<Rightarrow> Inl (PyError ValueError)
                                  | Some iterations \<Rightarrow>
                                      (case salted_password U K (sc_password C) salt iterations of
                                         Inl e \<Rightarrow> Inl e
                                       | Inr salted \<Rightarrow>
                                           (let ck = client_key K salted;
                                                without_proof = ''c='' @ kr_b64 K GS2_HEADER @ '',r='' @ server_nonce;
                                                auth_message = client_first_bare C @ '','' @ server_first_str @ '','' @ without_proof;
                                                signature = kr_hmac K (kr_h K ck) (cd_enc U auth_message);
                                                proof_b64 = kr_b64 K (xor_octets ck signature)
                                            in Inr (cd_enc U (without_proof @ '',p='' @ proof_b64),
                                                 \<lparr>ss_auth_message = auth_message, ss_server_key = server_key K salted\<rparr>)))))))))"

definition verify_server_final :: "codec \<Rightarrow> crypto \<Rightarrow> scram_stash \<Rightarrow> octets \<Rightarrow> sql_error + bool" where
  "verify_server_final U K stash server_final =
     (case decode_utf8 U server_final of
        Inl e \<Rightarrow> Inl e
      | Inr s \<Rightarrow>
          (case od_get (parse_server_message s) ''v'' of
             None \<Rightarrow> Inr False
           | Some v64 \<Rightarrow>
               (case kr_b64d K v64 of
                  None \<Rightarrow> Inl (PyError ValueError)
                | Some v \<Rightarrow> Inr (v = kr_hmac K (ss_server_key stash) (cd_enc U (ss_auth_message stash))))))"

section \<open>Tenant credentials\<close>

definition LOGIN_CONTEXT :: octets where "LOGIN_CONTEXT = b_lit ''industryflow/notebook-sql-proxy/tenant-login/v1:''"
definition MIN_TENANT_KEY_BYTES :: nat where "MIN_TENANT_KEY_BYTES = 32"

definition py_res :: "'a result \<Rightarrow> sql_error + 'a" where
  "py_res r = (case r of Inl e \<Rightarrow> Inl (PyError e) | Inr x \<Rightarrow> Inr x)"

definition tenant_login_password :: "crypto \<Rightarrow> octets \<Rightarrow> string \<Rightarrow> string result" where
  "tenant_login_password K key company_id =
     (if length key < MIN_TENANT_KEY_BYTES then Inl ValueError
      else res_map (\<lambda>canonical. rstrip_chars ''='' (kr_b64url K (kr_hmac K key (LOGIN_CONTEXT @ b_lit canonical))))
             (canonical_company_id company_id))"

definition is_base64 :: "char \<Rightarrow> bool" where
  "is_base64 c \<longleftrightarrow> 65 \<le> ord c \<and> ord c \<le> 90 \<or> 97 \<le> ord c \<and> ord c \<le> 122 \<or> is_digit c \<or> c = CHR ''+'' \<or> c = CHR ''/''"

definition base64_run :: "string \<Rightarrow> bool" where
  "base64_run s \<longleftrightarrow> takeWhile is_base64 s \<noteq> [] \<and> list_all (\<lambda>c. c = CHR ''='') (dropWhile is_base64 s)"

text \<open>
  \<open>_VERIFIER_RE.match\<close>. The separators occur in none of the parts between them, so the parts are the
  pieces of a split; the final \<open>$\<close> also matches before a last line feed.
\<close>

definition chomp :: "string \<Rightarrow> string" where
  "chomp s = (if ends_with s [CHR 0x0A] then butlast s else s)"

definition VERIFIER_RE :: "string \<Rightarrow> bool" where
  "VERIFIER_RE s \<longleftrightarrow>
     (case split_on (CHR ''$'') (chomp s) of
        [scheme, middle, keys] \<Rightarrow>
          scheme = ''SCRAM-SHA-256'' \<and>
          (case (split_on (CHR '':'') middle, split_on (CHR '':'') keys) of
             ([n, salt], [stored, server]) \<Rightarrow>
               4 \<le> length n \<and> length n \<le> 7 \<and> list_all is_digit n \<and>
               base64_run salt \<and> base64_run stored \<and> base64_run server
           | _ \<Rightarrow> False)
      | _ \<Rightarrow> False)"

definition quoted :: "string \<Rightarrow> string" where
  "quoted s = CHR 0x27 # s @ [CHR 0x27]"

definition enrol_statement :: "string \<Rightarrow> string \<Rightarrow> string result" where
  "enrol_statement company_id verifier =
     (case canonical_company_id company_id of
        Inl e \<Rightarrow> Inl e
      | Inr canonical \<Rightarrow>
          if \<not> VERIFIER_RE verifier then Inl ValueError
          else Inr (''SELECT public.notebook_sql_proxy_enrol('' @ quoted canonical @ ''::uuid, '' @ quoted verifier @ '')''))"

section \<open>Decimal numbers\<close>

lemma digit_plain: "is_digit c \<Longrightarrow> int_ascii c = c \<and> \<not> is_c_space c \<and> c \<notin> set ''-+_''"
  by (auto simp: is_digit_def int_ascii_def is_c_space_def ord_def)

lemma show_nat_digits: "0 \<le> n \<Longrightarrow> list_all is_digit (show_nat n) \<and> show_nat n \<noteq> []"
proof (induction n rule: show_nat.induct)
  case (1 n)
  have "is_digit (char_of (48 + d))" if "0 \<le> d" "d < 10" for d :: int
    using that by (simp add: is_digit_def ord_digit)
  with 1 show ?case by (subst (1 2) show_nat.simps) auto
qed

lemma dec_digits_all: "list_all is_digit s \<Longrightarrow> s \<noteq> [] \<or> b \<Longrightarrow> dec_digits b s = Some (map (\<lambda>c. ord c - 48) s)"
proof (induction s arbitrary: b)
  case (Cons c s)
  then have "c \<noteq> CHR ''_''" "is_digit c" "dec_digits True s = Some (map (\<lambda>c. ord c - 48) s)"
    using digit_plain [of c] by auto
  then show ?case by simp
qed simp

lemma py_int_digits:
  assumes "list_all is_digit s" "s \<noteq> []"
  shows "py_int s = Some (decimal s)"
proof -
  have "map int_ascii s = s" using assms(1) digit_plain by (simp add: list_all_iff map_idI)
  moreover have "dropWhile is_c_space s = s" "\<not> starts_with s ''-''" "\<not> starts_with s ''+''"
    using assms digit_plain by (cases s; auto)+
  moreover have "takeWhile (\<lambda>c. is_digit c \<or> c = CHR ''_'') s = s" "dropWhile (\<lambda>c. is_digit c \<or> c = CHR ''_'') s = []"
    using assms(1) by (simp_all add: list_all_iff takeWhile_eq_all_conv dropWhile_eq_Nil_conv)
  ultimately show ?thesis
    unfolding py_int_def Let_def using assms
    by (simp add: dec_digits_all decimal_def foldl_map del: takeWhile_eq_all_conv dropWhile_eq_Nil_conv)
qed

lemma py_int_show: "0 \<le> n \<Longrightarrow> py_int (show_int n) = Some n"
  using py_int_digits [of "show_int n"] show_nat_digits [of n] decimal_show_int [of n] by (simp add: show_int_def)

section \<open>A server that holds the verifier\<close>

lemma xor_octets_undo: "length a = length b \<Longrightarrow> xor_octets (xor_octets a b) b = a"
  by (induction a b rule: list_induct2) (simp_all add: xor_octets_def xor.assoc)

text \<open>
  The server's side of RFC 5802 over what the verifier holds: it accepts a proof from which, with the stored
  key, a client key with that hash is recovered, and signs with the server key.
\<close>

definition server_accepts :: "codec \<Rightarrow> crypto \<Rightarrow> octets \<Rightarrow> string \<Rightarrow> octets \<Rightarrow> bool" where
  "server_accepts U K stored auth_message pf \<longleftrightarrow>
     kr_h K (xor_octets pf (kr_hmac K stored (cd_enc U auth_message))) = stored"

definition server_signature :: "codec \<Rightarrow> crypto \<Rightarrow> octets \<Rightarrow> string \<Rightarrow> octets" where
  "server_signature U K key auth_message = kr_hmac K key (cd_enc U auth_message)"

text \<open>The laws of base64 and of HMAC-SHA-256 an exchange rests on.\<close>

locale scram_crypto =
  fixes K :: crypto
  assumes b64_inv: "kr_b64d K (kr_b64 K x) = Some x"
    and b64_alphabet: "CHR '','' \<notin> set (kr_b64 K x)"
    and hmac_length: "length (kr_hmac K k m) = 32"
begin

lemma final_read: "parse_server_message (''v='' @ kr_b64 K x) = [(''v'', kr_b64 K x)]"
  using b64_alphabet by (simp add: parse_server_message_def split_on_no_sep)

lemma first_read:
  assumes "CHR '','' \<notin> set nonce" "0 \<le> i"
  shows "parse_server_message (''r='' @ nonce @ '',s='' @ kr_b64 K salt @ '',i='' @ show_int i) =
     [(''r'', nonce), (''s'', kr_b64 K salt), (''i'', show_int i)]"
proof -
  have i: "CHR '','' \<notin> set (show_int i)"
    using show_nat_digits [OF assms(2)] assms(2) by (auto simp: show_int_def list_all_iff is_digit_def ord_def)
  have "''r='' @ nonce @ '',s='' @ kr_b64 K salt @ '',i='' @ show_int i =
      (''r='' @ nonce) @ CHR '','' # (''s='' @ kr_b64 K salt) @ CHR '','' # (''i='' @ show_int i)" by simp
  then have "split_on (CHR '','') (''r='' @ nonce @ '',s='' @ kr_b64 K salt @ '',i='' @ show_int i) =
      [''r='' @ nonce, ''s='' @ kr_b64 K salt, ''i='' @ show_int i]"
    using assms(1) b64_alphabet i by (simp only: split_on_append) (simp add: split_on_no_sep)
  then show ?thesis by (simp add: parse_server_message_def)
qed

end

section \<open>A reference instance\<close>

text \<open>
  Base64 as RFC 4648 has it, and stand-ins for the hashes: a keyed sum of 32 octets.
\<close>

definition b64_char :: "nat \<Rightarrow> char" where
  "b64_char d = char_of (if d < 26 then 65 + d else if d < 52 then 71 + d else if d < 62 then d - 4
     else if d = 62 then 43 else 47)"

definition b64_val :: "char \<Rightarrow> nat option" where
  "b64_val c =
     (let n = of_char c :: nat
      in if 65 \<le> n \<and> n \<le> 90 then Some (n - 65) else if 97 \<le> n \<and> n \<le> 122 then Some (n - 71)
         else if 48 \<le> n \<and> n \<le> 57 then Some (n + 4) else if n = 43 then Some 62 else if n = 47 then Some 63 else None)"

fun b64_enc :: "octets \<Rightarrow> string" where
  "b64_enc [] = []"
| "b64_enc [a] = [b64_char (unat a div 4), b64_char (unat a mod 4 * 16), CHR ''='', CHR ''='']"
| "b64_enc [a, b] =
     [b64_char (unat a div 4), b64_char (unat a mod 4 * 16 + unat b div 16), b64_char (unat b mod 16 * 4), CHR ''='']"
| "b64_enc (a # b # c # r) =
     b64_char (unat a div 4) # b64_char (unat a mod 4 * 16 + unat b div 16) #
     b64_char (unat b mod 16 * 4 + unat c div 64) # b64_char (unat c mod 64) # b64_enc r"

definition b64_first :: "nat \<Rightarrow> nat \<Rightarrow> octet" where "b64_first p q = of_nat (p * 4 + q div 16)"
definition b64_second :: "nat \<Rightarrow> nat \<Rightarrow> octet" where "b64_second q r = of_nat (q mod 16 * 16 + r div 4)"
definition b64_third :: "nat \<Rightarrow> nat \<Rightarrow> octet" where "b64_third r s = of_nat (r mod 4 * 64 + s)"

fun b64_dec :: "string \<Rightarrow> octets option" where
  "b64_dec [] = Some []"
| "b64_dec (p # q # r # s # rest) =
     (case (b64_val p, b64_val q, b64_val r, b64_val s) of
        (Some p, Some q, Some r, Some s) \<Rightarrow>
          map_option (\<lambda>bs. b64_first p q # b64_second q r # b64_third r s # bs) (b64_dec rest)
      | (Some p, Some q, Some r, None) \<Rightarrow>
          if s = CHR ''='' \<and> rest = [] then Some [b64_first p q, b64_second q r] else None
      | (Some p, Some q, None, None) \<Rightarrow>
          if [r, s] = ''=='' \<and> rest = [] then Some [b64_first p q] else None
      | _ \<Rightarrow> None)"
| "b64_dec _ = None"

lemma b64_val_char: "d < 64 \<Longrightarrow> b64_val (b64_char d) = Some d"
  by (auto simp: b64_val_def b64_char_def Let_def)

lemma b64_val_pad: "b64_val (CHR ''='') = None"
  by (simp add: b64_val_def)

lemma b64_char_comma: "b64_char d \<noteq> CHR '',''"
proof
  assume "b64_char d = CHR '',''"
  then have "of_char (b64_char d) = (44 :: nat)" by simp
  then show False by (simp add: b64_char_def split: if_splits)
qed

lemma b64_enc_comma: "CHR '','' \<notin> set (b64_enc x)"
  using b64_char_comma by (induction x rule: b64_enc.induct) (simp_all add: not_sym)

lemma octet_lt: "unat (a :: octet) < 256"
  using unsigned_less [of a] by simp

lemma sextets_lt:
  "unat (a :: octet) div 4 < 64" "unat (a :: octet) mod 4 * 16 + unat (b :: octet) div 16 < 64"
  "unat (a :: octet) mod 16 * 4 + unat (b :: octet) div 64 < 64" "unat a mod 4 * 16 < 64" "unat a mod 16 * 4 < 64"
  using octet_lt [of a] octet_lt [of b] by linarith+

lemma digit_parts:
  "h < k \<Longrightarrow> (m * k + h) div k = (m :: nat)" "h < k \<Longrightarrow> (m * k + h) mod k = (h :: nat)"
  by simp_all

lemma octets_back:
  "b64_first (unat a div 4) (unat a mod 4 * 16 + unat b div 16) = a" "b64_first (unat a div 4) (unat a mod 4 * 16) = a"
  "b64_second (unat a mod 4 * 16 + unat b div 16) (unat b mod 16 * 4 + unat c div 64) = b"
  "b64_second (unat a mod 4 * 16 + unat b div 16) (unat b mod 16 * 4) = b"
  "b64_third (unat b mod 16 * 4 + unat c div 64) (unat c mod 64) = c"
proof -
  have sums: "unat a div 4 * 4 + (unat a mod 4 * 16 + unat b div 16) div 16 = unat a"
    "unat a div 4 * 4 + (unat a mod 4 * 16) div 16 = unat a"
    "(unat a mod 4 * 16 + unat b div 16) mod 16 * 16 + (unat b mod 16 * 4 + unat c div 64) div 4 = unat b"
    "(unat a mod 4 * 16 + unat b div 16) mod 16 * 16 + (unat b mod 16 * 4) div 4 = unat b"
    "(unat b mod 16 * 4 + unat c div 64) mod 4 * 64 + unat c mod 64 = unat c"
    using octet_lt [of a] octet_lt [of b] octet_lt [of c]
    by (simp_all add: digit_parts less_mult_imp_div_less)
  show "b64_first (unat a div 4) (unat a mod 4 * 16 + unat b div 16) = a" "b64_first (unat a div 4) (unat a mod 4 * 16) = a"
    "b64_second (unat a mod 4 * 16 + unat b div 16) (unat b mod 16 * 4 + unat c div 64) = b"
    "b64_second (unat a mod 4 * 16 + unat b div 16) (unat b mod 16 * 4) = b"
    "b64_third (unat b mod 16 * 4 + unat c div 64) (unat c mod 64) = c"
    unfolding b64_first_def b64_second_def b64_third_def sums by simp_all
qed

lemma b64_inverse: "b64_dec (b64_enc x) = Some x"
proof (induction x rule: b64_enc.induct)
  case (4 a b c r)
  then show ?case by (simp add: b64_val_char sextets_lt octets_back)
qed (simp_all add: b64_val_char sextets_lt octets_back b64_val_pad)

definition ref_crypto :: crypto where
  "ref_crypto = \<lparr>kr_h = \<lambda>x. map (\<lambda>b. b + 1) x,
     kr_hmac = \<lambda>k m. take 32 (map (\<lambda>b. b + sum_list m) k @ replicate 32 (sum_list m)),
     kr_pbkdf2 = \<lambda>p s i. if i < 1 then None else Some (p @ s),
     kr_b64 = b64_enc, kr_b64d = b64_dec, kr_b64url = b64_enc\<rparr>"

interpretation ref_crypto: scram_crypto ref_crypto
  by unfold_locales (simp_all add: ref_crypto_def b64_inverse b64_enc_comma)

text \<open>
  C32. A tenant's login agrees with its enrolment: to a server that holds the verifier enrolled for a password, whatever
  salt, iteration count and nonces are drawn, the client's final message carries a proof that the server accepts
  against the stored key; the client then accepts the signature made with the verifier's server key and refuses
  any other; and it refuses to answer a server whose nonce does not extend its own.
\<close>

theorem scram_login_agrees:
  assumes "utf8_codec U" "scram_crypto K" "0 \<le> i" "CHR '','' \<notin> set nonce"
    "scram_verifier U K (sc_password C) salt i = Inr v"
    "server_first = ''r='' @ nonce @ '',s='' @ kr_b64 K salt @ '',i='' @ show_int i"
  shows "\<exists>stored key. v = ''SCRAM-SHA-256$'' @ show_int i @ '':'' @ kr_b64 K salt @ ''$'' @ kr_b64 K stored @ '':'' @ kr_b64 K key \<and>
    (if starts_with nonce (sc_nonce C)
     then \<exists>stash pf auth_message.
       auth_message = client_first_bare C @ '','' @ server_first @ '',c='' @ kr_b64 K GS2_HEADER @ '',r='' @ nonce \<and>
       client_final U K C (cd_enc U server_first) =
         Inr (cd_enc U (''c='' @ kr_b64 K GS2_HEADER @ '',r='' @ nonce @ '',p='' @ kr_b64 K pf), stash) \<and>
       server_accepts U K stored auth_message pf \<and>
       (\<forall>signature. verify_server_final U K stash (cd_enc U (''v='' @ kr_b64 K signature)) =
          Inr (signature = server_signature U K key auth_message))
     else client_final U K C (cd_enc U server_first) = Inl (PyError ValueError))"
proof -
  from assms(5) obtain salted where p: "salted_password U K (sc_password C) salt i = Inr salted"
    and v: "v = ''SCRAM-SHA-256$'' @ show_int i @ '':'' @ kr_b64 K salt @ ''$'' @
      kr_b64 K (kr_h K (client_key K salted)) @ '':'' @ kr_b64 K (server_key K salted)"
    unfolding scram_verifier_def by (cases "salted_password U K (sc_password C) salt i") auto
  let ?stored = "kr_h K (client_key K salted)" and ?key = "server_key K salted"
  let ?auth = "client_first_bare C @ '','' @ server_first @ '',c='' @ kr_b64 K GS2_HEADER @ '',r='' @ nonce"
  let ?pf = "xor_octets (client_key K salted) (kr_hmac K ?stored (cd_enc U ?auth))"
  have dec: "decode_utf8 U (cd_enc U x) = Inr x" for x
    using utf8_codec.dec_enc [OF assms(1)] by (simp add: decode_utf8_def)
  note read = scram_crypto.first_read [OF assms(2) assms(4,3), of salt, folded assms(6)] scram_crypto.b64_inv [OF assms(2)]
    py_int_show [OF assms(3)]
  have attrs: "od_get [(''r'', nonce), (''s'', kr_b64 K salt), (''i'', show_int i)] ''r'' = Some nonce"
    "od_get [(''r'', nonce), (''s'', kr_b64 K salt), (''i'', show_int i)] ''s'' = Some (kr_b64 K salt)"
    "od_get [(''r'', nonce), (''s'', kr_b64 K salt), (''i'', show_int i)] ''i'' = Some (show_int i)"
    by simp_all
  have "server_accepts U K ?stored ?auth ?pf"
    unfolding server_accepts_def
    by (subst xor_octets_undo) (simp_all add: client_key_def scram_crypto.hmac_length [OF assms(2)])
  moreover have "client_final U K C (cd_enc U server_first) =
      (if starts_with nonce (sc_nonce C)
       then Inr (cd_enc U (''c='' @ kr_b64 K GS2_HEADER @ '',r='' @ nonce @ '',p='' @ kr_b64 K ?pf),
         \<lparr>ss_auth_message = ?auth, ss_server_key = ?key\<rparr>)
       else Inl (PyError ValueError))"
    unfolding client_final_def dec sum.case read Let_def attrs option.case p by simp
  moreover have "verify_server_final U K \<lparr>ss_auth_message = ?auth, ss_server_key = ?key\<rparr> (cd_enc U (''v='' @ kr_b64 K g)) =
      Inr (g = server_signature U K ?key ?auth)" for g
    unfolding verify_server_final_def dec sum.case scram_crypto.final_read [OF assms(2)]
    by (simp add: read server_signature_def)
  ultimately show ?thesis using v by (intro exI [of _ ?stored] exI [of _ ?key]) auto
qed

theorem scram_login_agrees_witness:
  "\<exists>m stash. client_final latin_codec ref_crypto \<lparr>sc_username = ''u'', sc_password = ''p'', sc_nonce = ''ab''\<rparr>
     (cd_enc latin_codec (''r=abcd,s='' @ b64_enc [1] @ '',i=4096'')) = Inr (m, stash)"
proof -
  let ?C = "\<lparr>sc_username = ''u'', sc_password = ''p'', sc_nonce = ''ab''\<rparr>"
  obtain v where v: "scram_verifier latin_codec ref_crypto (sc_password ?C) [1] 4096 = Inr v"
    by (simp add: scram_verifier_def salted_password_def ref_crypto_def)
  have i: "show_int 4096 = ''4096''" by code_simp
  have n: "CHR '','' \<notin> set ''abcd''" "starts_with ''abcd'' (sc_nonce ?C)" by simp_all
  show ?thesis
    using scram_login_agrees [OF latin.utf8_codec_axioms ref_crypto.scram_crypto_axioms _ n(1) v refl] n(2)
    unfolding i by (fastforce simp: ref_crypto_def)
qed

section \<open>The enrolment statement\<close>

lemma split_join: "split_on c s = ps \<Longrightarrow> s = join_on [c] ps"
  using join_split_on by metis

lemma base64_unquoted:
  assumes "base64_run s"
  shows "CHR 0x27 \<notin> set s"
proof
  assume "CHR 0x27 \<in> set s"
  then have "CHR 0x27 \<in> set (takeWhile is_base64 s) \<or> CHR 0x27 \<in> set (dropWhile is_base64 s)"
    by (metis Un_iff set_append takeWhile_dropWhile_id)
  moreover have "\<not> is_base64 (CHR 0x27)" by (simp add: is_base64_def is_digit_def ord_def)
  ultimately show False
    using assms unfolding base64_run_def list_all_iff by (fastforce dest: set_takeWhileD)
qed

text \<open>
  A verifier that is enrolled closes no quotation: the statement's two literals are the tenant and the verifier.
\<close>

lemma verifier_unquoted:
  assumes "VERIFIER_RE v"
  shows "CHR 0x27 \<notin> set v"
proof -
  from assms obtain scheme middle keys n salt stored server where
    a: "split_on (CHR ''$'') (chomp v) = [scheme, middle, keys]" "scheme = ''SCRAM-SHA-256''"
    and b: "split_on (CHR '':'') middle = [n, salt]" "split_on (CHR '':'') keys = [stored, server]"
    and c: "list_all is_digit n" "base64_run salt" "base64_run stored" "base64_run server"
    unfolding VERIFIER_RE_def by (auto split: list.splits)
  have "CHR 0x27 \<notin> set n" using c(1) by (auto simp: list_all_iff is_digit_def ord_def)
  then have "CHR 0x27 \<notin> set (chomp v)"
    using split_join [OF a(1)] split_join [OF b(1)] split_join [OF b(2)] a(2) c(2-4) base64_unquoted by auto
  then show ?thesis by (cases v rule: rev_cases) (auto simp: chomp_def ends_with_def split: if_splits)
qed

lemma enrol_statement_quotes:
  assumes "enrol_statement company_id v = Inr st"
  obtains u where "canonical_company_id company_id = Inr u" "CHR 0x27 \<notin> set u" "CHR 0x27 \<notin> set v"
    "st = ''SELECT public.notebook_sql_proxy_enrol('' @ quoted u @ ''::uuid, '' @ quoted v @ '')''"
proof -
  from assms obtain u where u: "canonical_company_id company_id = Inr u" "VERIFIER_RE v"
    "st = ''SELECT public.notebook_sql_proxy_enrol('' @ quoted u @ ''::uuid, '' @ quoted v @ '')''"
    by (auto simp: enrol_statement_def split: sum.splits if_splits)
  moreover have "CHR 0x27 \<notin> set u"
    using canonical_shape(2) [OF u(1), of "CHR 0x27"] by (auto simp: lower_hex_def ord_def)
  ultimately show thesis using that verifier_unquoted by blast
qed

end
