(* ===== verification/Sql_Proxy.thy ===== *)
theory Sql_Proxy
  imports Sql_Scram Verifiers
begin

text \<open>
  The SQL proxy: its upstream sessions, cancellation, relay and connection handler
  (\<open>services/notebook_sql_proxy/server.py\<close>, \<open>proxy.py\<close>) over the verifier and the statements of
  \<open>binding.py\<close>.

  The database server is a parameter: for each connection, the bytes it sends. Nothing is assumed of
  them. An upstream session is what is left to read, what was written to it, and whether it is closed.
  A relay is a sequence of events, in the order the process sees them: bytes from either side, either
  side closing, and re-checks of the capability, each with the store as it is then.

  Shown: the bytes of a kernel reach only a session opened as its own tenant's login, behind that
  tenant's setup statements and up to the first re-check that fails; the handler returns on every input.
\<close>

section \<open>Upstream connections\<close>

record UpstreamConfig =
  uc_database :: string
  uc_enrol_user :: string
  uc_enrol_password :: string
  uc_tenant_key :: octets
  uc_tls :: bool
  uc_require_tls :: bool

text \<open>
  What the network answers to one connection attempt: refused, or the bytes that arrive in the clear and,
  where the handshake succeeds, those that arrive over TLS. The reader's buffer survives the upgrade.
\<close>

datatype net_conn = Refused | Accepted octets "octets option"

record upstream =
  us_in :: octets
  us_out :: octets
  us_params :: octets
  us_key :: "(nat \<times> nat) option"
  us_closed :: bool

definition fresh_upstream :: "octets \<Rightarrow> octets \<Rightarrow> upstream" where
  "fresh_upstream inp out = \<lparr>us_in = inp, us_out = out, us_params = [], us_key = None, us_closed = False\<rparr>"

definition open_upstream :: "UpstreamConfig \<Rightarrow> net_conn \<Rightarrow> sql_error + upstream" where
  "open_upstream cfg conn =
     (case conn of
        Refused \<Rightarrow> Inl ConnectionError
      | Accepted plain tls \<Rightarrow>
          if \<not> uc_tls cfg then Inr (fresh_upstream plain [])
          else (case build_ssl_request of
             Inl e \<Rightarrow> Inl e
           | Inr request \<Rightarrow>
               (case readexactly 1 plain of
                  Inl e \<Rightarrow> Inl e
                | Inr (response, buffered) \<Rightarrow>
                    if response = b_lit ''S'' then
                      (case tls of
                         None \<Rightarrow> Inl ConnectionError
                       | Some secured \<Rightarrow> Inr (fresh_upstream (buffered @ secured) request))
                    else if response = b_lit ''N'' then
                      (if uc_require_tls cfg then Inl ConnectionError else Inr (fresh_upstream buffered request))
                    else Inl ProtocolError)))"

text \<open>
  The configuration \<open>main\<close> builds: the TLS context of the mode, and whether TLS is required. The database
  and the credentials are taken from the environment as they are.
\<close>

record tls_context =
  tc_check_hostname :: bool
  tc_verify :: bool
  tc_cafile :: "string option"

definition TLS_REQUIRED :: "string list" where "TLS_REQUIRED = [''require'', ''verify-ca'', ''verify-full'']"

definition build_upstream_ssl_context :: "string \<Rightarrow> string option \<Rightarrow> tls_context option" where
  "build_upstream_ssl_context sslmode sslrootcert =
     (if sslmode = ''disable'' then None
      else if sslmode = ''require'' then Some \<lparr>tc_check_hostname = False, tc_verify = False, tc_cafile = None\<rparr>
      else Some \<lparr>tc_check_hostname = (sslmode \<noteq> ''verify-ca''), tc_verify = True,
        tc_cafile = (case sslrootcert of None \<Rightarrow> None | Some c \<Rightarrow> if c = [] then None else Some c)\<rparr>)"

definition tenant_key_from_env :: "codec \<Rightarrow> string option \<Rightarrow> octets option" where
  "tenant_key_from_env U v =
     (let key = cd_enc U (case v of None \<Rightarrow> [] | Some s \<Rightarrow> s) in if length key < MIN_TENANT_KEY_BYTES then None else Some key)"

definition main_config :: "string \<Rightarrow> string option \<Rightarrow> string \<Rightarrow> string \<Rightarrow> string \<Rightarrow> octets \<Rightarrow> UpstreamConfig" where
  "main_config sslmode sslrootcert database enrol_user enrol_password key =
     \<lparr>uc_database = database, uc_enrol_user = enrol_user, uc_enrol_password = enrol_password, uc_tenant_key = key,
      uc_tls = (build_upstream_ssl_context sslmode sslrootcert \<noteq> None), uc_require_tls = (sslmode \<in> set TLS_REQUIRED)\<rparr>"

text \<open>
  A mode that is none of the known ones gets the context of \<open>verify-full\<close> but does not require TLS: a server
  that declines it is spoken to in the clear.
\<close>

lemma unknown_sslmode_plaintext:
  assumes "sslmode \<noteq> ''disable''" "sslmode \<notin> set TLS_REQUIRED"
  shows "build_upstream_ssl_context sslmode ca = build_upstream_ssl_context ''verify-full'' ca \<and>
    (\<exists>us. open_upstream (main_config sslmode ca db user pw key) (Accepted (b_lit ''N'' @ rest) tls) = Inr us \<and> us_in us = rest)"
proof
  show ctx: "build_upstream_ssl_context sslmode ca = build_upstream_ssl_context ''verify-full'' ca"
    using assms by (simp add: TLS_REQUIRED_def build_upstream_ssl_context_def)
  define cfg where "cfg = main_config sslmode ca db user pw key"
  have cfg: "uc_tls cfg" "\<not> uc_require_tls cfg"
    using assms unfolding cfg_def main_config_def ctx by (simp_all add: build_upstream_ssl_context_def)
  obtain request where req: "build_ssl_request = Inr request" by (simp add: build_ssl_request_def code_defs pack_I_def)
  have r: "readexactly 1 (b_lit ''N'' @ rest) = Inr (b_lit ''N'', rest)" by (simp add: readexactly_Inr b_lit_def)
  have n: "b_lit ''N'' \<noteq> b_lit ''S''" by (simp add: b_lit_def)
  have "open_upstream cfg (Accepted (b_lit ''N'' @ rest) tls) = Inr (fresh_upstream rest request)"
    unfolding open_upstream_def net_conn.case req sum.case r prod.case using cfg n by simp
  then show "\<exists>us. open_upstream (main_config sslmode ca db user pw key) (Accepted (b_lit ''N'' @ rest) tls) = Inr us \<and> us_in us = rest"
    by (simp add: cfg_def fresh_upstream_def)
qed

text \<open>
  Where TLS is required the session is read over TLS, behind whatever the server sent in the clear together
  with its answer.
\<close>

lemma required_tls_never_plaintext:
  assumes "uc_tls cfg" "uc_require_tls cfg" "open_upstream cfg conn = Inr us"
  shows "\<exists>buffered secured. conn = Accepted (b_lit ''S'' @ buffered) (Some secured) \<and> us_in us = buffered @ secured"
proof (cases conn)
  case (Accepted plain tls)
  obtain response buffered where r: "readexactly 1 plain = Inr (response, buffered)"
    using assms Accepted by (auto simp: open_upstream_def split: sum.splits)
  have "response = b_lit ''S''"
    using assms Accepted r by (auto simp: open_upstream_def split: sum.splits if_splits)
  moreover obtain secured where "tls = Some secured"
    using assms Accepted r \<open>response = b_lit ''S''\<close> by (auto simp: open_upstream_def split: sum.splits option.splits)
  ultimately show ?thesis
    using assms Accepted r by (auto simp: open_upstream_def readexactly_Inr fresh_upstream_def split: sum.splits)
qed (use assms in \<open>simp add: open_upstream_def\<close>)

text \<open>A step of an upstream session: an exception or a value, and the session afterwards.\<close>

type_synonym 'a up = "(sql_error + 'a) \<times> upstream"

definition ubind :: "'a up \<Rightarrow> ('a \<Rightarrow> upstream \<Rightarrow> 'b up) \<Rightarrow> 'b up" where
  "ubind m f = (case m of (Inl e, us) \<Rightarrow> (Inl e, us) | (Inr x, us) \<Rightarrow> f x us)"

definition us_send :: "upstream \<Rightarrow> sql_error + octets \<Rightarrow> unit up" where
  "us_send us r = (case r of Inl e \<Rightarrow> (Inl e, us) | Inr m \<Rightarrow> (Inr (), us\<lparr>us_out := us_out us @ m\<rparr>))"

definition us_receive :: "upstream \<Rightarrow> (octets \<times> octets) up" where
  "us_receive us =
     (case read_regular_message (us_in us) of
        Inl e \<Rightarrow> (Inl e, us)
      | Inr (m, rest) \<Rightarrow> (Inr m, us\<lparr>us_in := rest\<rparr>))"

definition us_close :: "upstream \<Rightarrow> upstream" where
  "us_close us =
     (if us_closed us then us
      else (case build_message MSG_TERMINATE [] of
         Inl _ \<Rightarrow> us
       | Inr m \<Rightarrow> us\<lparr>us_out := us_out us @ m, us_closed := True\<rparr>))"

definition AUTH_REJECTED :: "string list" where "AUTH_REJECTED = [''28P01'', ''28000'']"

text \<open>\<open>_read\<close>: an ErrorResponse becomes an exception.\<close>

definition us_read :: "codec \<Rightarrow> upstream \<Rightarrow> (octets \<times> octets) up" where
  "us_read U us =
     ubind (us_receive us) (\<lambda>(type_byte, payload) us1.
       if type_byte = MSG_ERROR_RESPONSE then
         (case od_get (parse_error_response U payload) (CHR ''C'') of
            None \<Rightarrow> (Inl ConnectionError, us1)
          | Some code \<Rightarrow> (Inl (if code \<in> set AUTH_REJECTED then UpstreamAuthRejected else ConnectionError), us1))
       else (Inr (type_byte, payload), us1))"

definition us_lift :: "upstream \<Rightarrow> sql_error + 'a \<Rightarrow> 'a up" where
  "us_lift us r = (r, us)"

definition us_authenticate ::
    "codec \<Rightarrow> crypto \<Rightarrow> string \<Rightarrow> upstream \<Rightarrow> string \<Rightarrow> string \<Rightarrow> unit up" where
  "us_authenticate U K nonce us user password =
     ubind (us_read U us) (\<lambda>(type_byte, payload) us1.
       if type_byte \<noteq> MSG_AUTHENTICATION then (Inl ProtocolError, us1)
       else ubind (us_lift us1 (parse_authentication payload)) (\<lambda>(sub, _) us1.
         if sub = AUTH_OK then (Inr (), us1)
         else if sub \<noteq> AUTH_SASL then (Inl ProtocolError, us1)
         else (let client = \<lparr>sc_username = user, sc_password = password, sc_nonce = nonce\<rparr>;
                   first = client_first U client
               in ubind (us_send us1 (case pack_I (length first) of
                      Inl e \<Rightarrow> Inl e
                    | Inr len \<Rightarrow> build_message (b_lit ''p'') (b_lit ''SCRAM-SHA-256'' @ [0] @ len @ first))) (\<lambda>_ us2.
                  ubind (us_read U us2) (\<lambda>(_, payload) us3.
                  ubind (us_lift us3 (parse_authentication payload)) (\<lambda>(_, server_first) us3.
                  ubind (us_lift us3 (client_final U K client server_first)) (\<lambda>(final, stash) us3.
                  ubind (us_send us3 (build_message (b_lit ''p'') final)) (\<lambda>_ us4.
                  ubind (us_read U us4) (\<lambda>(_, payload) us5.
                  ubind (us_lift us5 (parse_authentication payload)) (\<lambda>(_, server_final) us5.
                  ubind (us_lift us5 (verify_server_final U K stash server_final)) (\<lambda>verified us5.
                    if \<not> verified then (Inl ConnectionError, us5)
                    else ubind (us_read U us5) (\<lambda>(_, payload) us6.
                      ubind (us_lift us6 (parse_authentication payload)) (\<lambda>(sub, _) us6.
                        if sub \<noteq> AUTH_OK then (Inl ProtocolError, us6) else (Inr (), us6))))))))))))))"

lemma us_receive_shorter:
  "us_receive us = (Inr m, us') \<Longrightarrow> length (us_in us') < length (us_in us)"
  by (auto simp: us_receive_def split: sum.splits dest!: read_regular_message_shorter)

lemma us_read_shorter:
  assumes "us_read U us = (Inr m, us')"
  shows "length (us_in us') < length (us_in us)"
  using assms us_receive_shorter unfolding us_read_def ubind_def
  by (fastforce split: prod.splits sum.splits if_splits option.splits)

text \<open>\<open>_drain_until_ready\<close> and the loop of \<open>execute\<close>: every message read shortens the input.\<close>

function us_drain_until_ready :: "codec \<Rightarrow> upstream \<Rightarrow> unit up" where
  "us_drain_until_ready U us =
     (case us_read U us of
        (Inl e, us1) \<Rightarrow> (Inl e, us1)
      | (Inr (type_byte, payload), us1) \<Rightarrow>
          if type_byte = MSG_PARAMETER_STATUS then
            (case build_message type_byte payload of
               Inl e \<Rightarrow> (Inl e, us1)
             | Inr m \<Rightarrow> us_drain_until_ready U (us1\<lparr>us_params := us_params us1 @ m\<rparr>))
          else if type_byte = MSG_BACKEND_KEY_DATA then
            (case parse_backend_key_data payload of
               Inl e \<Rightarrow> (Inl e, us1)
             | Inr k \<Rightarrow> us_drain_until_ready U (us1\<lparr>us_key := Some k\<rparr>))
          else if type_byte = MSG_READY_FOR_QUERY then (Inr (), us1)
          else us_drain_until_ready U us1)"
  by pat_completeness auto
termination
  by (relation "measure (\<lambda>(U, us). length (us_in us))") (auto dest!: us_read_shorter [OF sym])

function us_completion :: "codec \<Rightarrow> bool \<Rightarrow> upstream \<Rightarrow> unit up" where
  "us_completion U failed us =
     (case us_receive us of
        (Inl e, us1) \<Rightarrow> (Inl e, us1)
      | (Inr (type_byte, payload), us1) \<Rightarrow>
          (let failed1 = (failed \<or> type_byte = MSG_ERROR_RESPONSE)
           in if type_byte = MSG_READY_FOR_QUERY then (if failed1 then Inl ConnectionError else Inr (), us1)
              else us_completion U failed1 us1))"
  by pat_completeness auto
termination
  by (relation "measure (\<lambda>(U, failed, us). length (us_in us))") (auto dest!: us_receive_shorter [OF sym])

declare us_drain_until_ready.simps [simp del] us_completion.simps [simp del]

definition us_execute :: "codec \<Rightarrow> upstream \<Rightarrow> string \<Rightarrow> unit up" where
  "us_execute U us sql = ubind (us_send us (build_query U sql)) (\<lambda>_ us1. us_completion U False us1)"

text \<open>
  \<open>UpstreamConnection.open\<close>: the session is \<open>None\<close> when no socket was opened; the object then has no
  writer, and closing it does nothing.
\<close>

definition us_open ::
    "codec \<Rightarrow> crypto \<Rightarrow> UpstreamConfig \<Rightarrow> string \<Rightarrow> net_conn \<Rightarrow> string \<Rightarrow> string \<Rightarrow> (sql_error + unit) \<times> upstream option" where
  "us_open U K cfg nonce conn user password =
     (case open_upstream cfg conn of
        Inl e \<Rightarrow> (Inl e, None)
      | Inr us \<Rightarrow>
          map_prod id Some
            (ubind (us_send us (build_startup_message U [(''user'', user), (''database'', uc_database cfg)])) (\<lambda>_ us1.
               ubind (us_authenticate U K nonce us1 user password) (\<lambda>_ us2. us_drain_until_ready U us2))))"

definition tenant_login_role :: "string \<Rightarrow> string result" where
  "tenant_login_role = sql_login_name"

text \<open>
  \<open>enrol_tenant_login\<close>: one statement on a session of its own, closed whatever happened. Answers what was
  raised, if anything, and the session, if one was opened.
\<close>

definition enrol_tenant_login ::
    "codec \<Rightarrow> crypto \<Rightarrow> UpstreamConfig \<Rightarrow> string \<Rightarrow> octets \<Rightarrow> net_conn \<Rightarrow> string \<Rightarrow> string \<Rightarrow>
      (sql_error + unit) \<times> upstream option" where
  "enrol_tenant_login U K cfg nonce salt conn company_id password =
     (case scram_verifier U K password salt DEFAULT_ITERATIONS of
        Inl e \<Rightarrow> (Inl e, None)
      | Inr stored \<Rightarrow>
          (case enrol_statement company_id stored of
             Inl e \<Rightarrow> (Inl (PyError e), None)
           | Inr statement \<Rightarrow>
               (case us_open U K cfg nonce conn (uc_enrol_user cfg) (uc_enrol_password cfg) of
                  (r, None) \<Rightarrow> (r, None)
                | (Inl e, Some us) \<Rightarrow> (Inl e, Some (us_close us))
                | (Inr _, Some us) \<Rightarrow> map_prod id (\<lambda>us1. Some (us_close us1)) (us_execute U us statement))))"

section \<open>Cancellation\<close>

type_synonym cancels = "(nat, nat \<times> (nat \<times> nat)) od"

text \<open>
  \<open>register\<close> draws process ids until one is free: \<open>draws i\<close> is the \<open>i\<close>-th value of \<open>randbits(31)\<close>. \<open>None\<close> is
  a run of draws that never gives a free one.
\<close>

definition pid_of_draw :: "nat \<Rightarrow> nat" where
  "pid_of_draw n = (if n = 0 then 1 else n)"

partial_function (option) free_pid :: "cancels \<Rightarrow> (nat \<Rightarrow> nat) \<Rightarrow> nat \<Rightarrow> nat option" where
  "free_pid sessions draws i =
     (if pid_of_draw (draws i) \<in> fst ` set sessions then free_pid sessions draws (Suc i)
      else Some (pid_of_draw (draws i)))"

definition register :: "cancels \<Rightarrow> (nat \<Rightarrow> nat) \<Rightarrow> nat \<Rightarrow> nat \<times> nat \<Rightarrow> ((nat \<times> nat) \<times> cancels) option" where
  "register sessions draws key upstream_key =
     map_option (\<lambda>pid. ((pid, key), od_set sessions pid (key, upstream_key))) (free_pid sessions draws 0)"

definition unregister :: "cancels \<Rightarrow> nat \<Rightarrow> cancels" where
  "unregister sessions pid = od_del sessions pid"

definition cancel_resolve :: "cancels \<Rightarrow> nat \<Rightarrow> nat \<Rightarrow> sql_error + (nat \<times> nat) option" where
  "cancel_resolve sessions pid key =
     (case od_get sessions pid of
        None \<Rightarrow> Inr None
      | Some (expected, upstream_key) \<Rightarrow>
          (case pack_all [expected, key] of
             Inl e \<Rightarrow> Inl e
           | Inr _ \<Rightarrow> Inr (if expected = key then Some upstream_key else None)))"

text \<open>\<open>cancel\<close>: the answer, and what was written upstream, if a connection was opened.\<close>

definition cancel :: "UpstreamConfig \<Rightarrow> net_conn \<Rightarrow> cancels \<Rightarrow> nat \<Rightarrow> nat \<Rightarrow> (sql_error + bool) \<times> upstream option" where
  "cancel cfg conn sessions pid key =
     (case cancel_resolve sessions pid key of
        Inl e \<Rightarrow> (Inl e, None)
      | Inr None \<Rightarrow> (Inr False, None)
      | Inr (Some (upid, ukey)) \<Rightarrow>
          (case open_upstream cfg conn of
             Inl e \<Rightarrow> (Inl e, None)
           | Inr us \<Rightarrow>
               (case us_send us (build_cancel_request upid ukey) of
                  (Inl e, us1) \<Rightarrow> (Inl e, Some (us1\<lparr>us_closed := True\<rparr>))
                | (Inr _, us1) \<Rightarrow> (Inr True, Some (us1\<lparr>us_closed := True\<rparr>)))))"

section \<open>The backend\<close>

text \<open>
  The world of one kernel's connection: the answers to its upstream connection attempts (the first, the
  enrolment, the second), the values drawn, and whether the kernel is gone when its handshake is completed.
\<close>

record backend_env =
  be_first :: net_conn
  be_enrol :: net_conn
  be_second :: net_conn
  be_nonce :: "nat \<Rightarrow> string"
  be_salt :: octets
  be_draws :: "nat \<Rightarrow> nat"
  be_key :: nat
  be_kernel_gone :: bool

text \<open>\<open>PostgresBackend.connect\<close>: the answer, the other sessions it opened, and the backend's own.\<close>

definition backend_connect ::
    "codec \<Rightarrow> crypto \<Rightarrow> UpstreamConfig \<Rightarrow> backend_env \<Rightarrow> SqlBinding \<Rightarrow>
      (sql_error + unit) \<times> upstream list \<times> upstream option" where
  "backend_connect U K cfg env binding =
     (let cid = sb_company_id binding
      in case tenant_login_role cid of
           Inl e \<Rightarrow> (Inl (PyError e), [], None)
         | Inr user \<Rightarrow>
             (case tenant_login_password K (uc_tenant_key cfg) cid of
                Inl e \<Rightarrow> (Inl (PyError e), [], None)
              | Inr password \<Rightarrow>
                  (case us_open U K cfg (be_nonce env 0) (be_first env) user password of
                     (Inl UpstreamAuthRejected, own) \<Rightarrow>
                       (let refused = map us_close (case own of None \<Rightarrow> [] | Some us \<Rightarrow> [us])
                        in case enrol_tenant_login U K cfg (be_nonce env 1) (be_salt env) (be_enrol env) cid password of
                             (Inl e, enrolled) \<Rightarrow> (Inl e, refused @ (case enrolled of None \<Rightarrow> [] | Some us \<Rightarrow> [us]), None)
                           | (Inr _, enrolled) \<Rightarrow>
                               (case us_open U K cfg (be_nonce env 2) (be_second env) user password of
                                  (r, own2) \<Rightarrow> (r, refused @ (case enrolled of None \<Rightarrow> [] | Some us \<Rightarrow> [us]), own2)))
                   | (r, own) \<Rightarrow> (r, [], own))))"

definition session_setup_statements :: "SqlBinding \<Rightarrow> string list result" where
  "session_setup_statements binding =
     (case reader_role_name (sb_company_id binding) of
        Inl e \<Rightarrow> Inl e
      | Inr role \<Rightarrow>
          res_map (\<lambda>schema.
            [''SET ROLE '' @ [CHR 0x22] @ role @ [CHR 0x22], ''SET search_path TO '' @ [CHR 0x22] @ schema @ [CHR 0x22]] @
            (if sb_read_only binding then [''SET default_transaction_read_only = on''] else []))
            (schema_name (sb_company_id binding)))"

fun us_execute_all :: "codec \<Rightarrow> upstream \<Rightarrow> string list \<Rightarrow> unit up" where
  "us_execute_all U us [] = (Inr (), us)"
| "us_execute_all U us (statement # statements) =
     ubind (us_execute U us statement) (\<lambda>_ us1. us_execute_all U us1 statements)"

subsection \<open>The relay\<close>

datatype relay_event =
  KernelSends octets | KernelCloses | UpstreamSends octets | UpstreamCloses | Recheck reader

text \<open>
  The relay's state: the upstream session, what was written to the kernel and whether the kernel's side is
  open, and the notes of why the session ended (\<open>ended\<close> in \<open>serve_connection\<close>, \<open>revoked\<close> in the backend).
\<close>

record relay =
  ry_up :: upstream
  ry_kernel :: octets
  ry_kernel_open :: bool
  ry_revoked :: bool
  ry_reason :: "string option"
  ry_refusal :: "string option"

definition relay_over :: "relay \<Rightarrow> bool" where
  "relay_over s \<longleftrightarrow> us_closed (ry_up s) \<and> \<not> ry_kernel_open s"

definition set_default :: "'a option \<Rightarrow> 'a \<Rightarrow> 'a option" where
  "set_default old new = (case old of None \<Rightarrow> Some new | Some _ \<Rightarrow> old)"

text \<open>\<open>still_authorized\<close>: the answer with the notes; a store that cannot answer raises, and is noted.\<close>

definition still_authorized :: "SqlBinding \<Rightarrow> string \<Rightarrow> reader \<Rightarrow> relay \<Rightarrow> bool result \<times> relay" where
  "still_authorized binding handle aget s =
     (case resolve_sql_outcome aget handle of
        Inl e \<Rightarrow> (Inl e, s\<lparr>ry_reason := set_default (ry_reason s) ''recheck_failed''\<rparr>)
      | Inr (current, why, _) \<Rightarrow>
          if current \<noteq> Some binding then
            (Inr False, s\<lparr>ry_reason := set_default (ry_reason s) ''capability_revoked'',
               ry_refusal := set_default (ry_refusal s)
                 (case why of Some r \<Rightarrow> if r = [] then ''rebound'' else r | None \<Rightarrow> ''rebound'')\<rparr>)
          else (Inr True, s))"

definition backend_close :: "relay \<Rightarrow> relay" where
  "backend_close s = s\<lparr>ry_up := us_close (ry_up s), ry_kernel_open := False\<rparr>"

definition shut :: "upstream \<Rightarrow> upstream" where
  "shut us = us\<lparr>us_closed := True\<rparr>"

definition relay_step :: "SqlBinding \<Rightarrow> string \<Rightarrow> relay \<Rightarrow> relay_event \<Rightarrow> relay" where
  "relay_step binding handle s e =
     (if relay_over s then s
      else (case e of
         KernelSends chunk \<Rightarrow>
           (if us_closed (ry_up s) then s else s\<lparr>ry_up := (ry_up s)\<lparr>us_out := us_out (ry_up s) @ chunk\<rparr>\<rparr>)
       | KernelCloses \<Rightarrow> s\<lparr>ry_up := shut (ry_up s)\<rparr>
       | UpstreamSends chunk \<Rightarrow> (if ry_kernel_open s then s\<lparr>ry_kernel := ry_kernel s @ chunk\<rparr> else s)
       | UpstreamCloses \<Rightarrow> s\<lparr>ry_kernel_open := False\<rparr>
       | Recheck aget \<Rightarrow>
           (case still_authorized binding handle aget s of
              (Inr True, s1) \<Rightarrow> s1
            | (_, s1) \<Rightarrow> backend_close (s1\<lparr>ry_revoked := True\<rparr>))))"

text \<open>What completes the kernel's handshake: AuthenticationOk, the buffered parameters, the proxy's own
  BackendKeyData, ReadyForQuery.\<close>

fun concat_built :: "(sql_error + octets) list \<Rightarrow> sql_error + octets" where
  "concat_built [] = Inr []"
| "concat_built (r # rs) = (case r of Inl e \<Rightarrow> Inl e | Inr m \<Rightarrow> res_map (\<lambda>ms. m @ ms) (concat_built rs))"

definition startup_completion :: "octets \<Rightarrow> (nat \<times> nat) option \<Rightarrow> sql_error + octets" where
  "startup_completion params pair =
     concat_built ([build_authentication_ok, Inr params] @
       (case pair of None \<Rightarrow> [] | Some (pid, key) \<Rightarrow> [build_backend_key_data pid key]) @
       [build_ready_for_query TXN_IDLE])"

text \<open>
  \<open>relay\<close>: registers the session for cancellation, completes the kernel's handshake, runs until both sides
  are closed, and unregisters. A kernel that is gone when its handshake is written raises before the
  clean-up is armed: the registration stays.
\<close>

definition backend_relay ::
    "backend_env \<Rightarrow> cancels \<Rightarrow> SqlBinding \<Rightarrow> string \<Rightarrow> upstream \<Rightarrow> relay_event list \<Rightarrow>
      ((sql_error + unit) \<times> relay \<times> cancels) option" where
  "backend_relay env sessions binding handle us events =
     (let start = \<lparr>ry_up = us, ry_kernel = [], ry_kernel_open = True, ry_revoked = False, ry_reason = None, ry_refusal = None\<rparr>
      in case (case us_key us of
            None \<Rightarrow> Some (None, sessions)
          | Some k \<Rightarrow> map_option (\<lambda>(pair, s). (Some pair, s)) (register sessions (be_draws env) (be_key env) k)) of
           None \<Rightarrow> None
         | Some (pair, sessions1) \<Rightarrow>
             (case startup_completion (us_params us) pair of
                Inl e \<Rightarrow> Some (Inl e, start, sessions1)
              | Inr hello \<Rightarrow>
                  if be_kernel_gone env then Some (Inl ConnectionError, start\<lparr>ry_kernel := hello\<rparr>, sessions1)
                  else Some (Inr (), foldl (relay_step binding handle) (start\<lparr>ry_kernel := hello\<rparr>) events,
                    (case pair of None \<Rightarrow> sessions1 | Some (pid, _) \<Rightarrow> unregister sessions1 pid))))"

section \<open>Serving a connection\<close>

text \<open>
  The store over the life of a connection: what the first resolution reads, the store and the time at the
  three moments the proxy writes to it, whether it answers then, and the formatted duration of the session.
\<close>

record 's store_env =
  sv_reader :: reader
  sv_store :: 's
  sv_time :: rat
  sv_now :: datetime
  sv_record_up :: bool
  sv_opened :: "'s \<Rightarrow> 's \<times> rat \<times> datetime"
  sv_opened_up :: bool
  sv_closed :: "'s \<Rightarrow> 's \<times> rat \<times> datetime"
  sv_closed_up :: bool
  sv_seconds :: string

definition when_up :: "bool \<Rightarrow> 's result \<Rightarrow> 's result" where
  "when_up up r = (if up then r else Inl StoreError)"

record 's served =
  so_answer :: "sql_error + bool"
  so_store :: 's
  so_conns :: "upstream list"
  so_kernel :: octets
  so_cancels :: cancels

definition record_closed ::
    "'s redis \<Rightarrow> 's store_env \<Rightarrow> 's \<Rightarrow> SqlBinding \<Rightarrow> string option \<Rightarrow> string option \<Rightarrow> 's" where
  "record_closed R sv s binding reason why =
     (let detail = ''duration_seconds='' @ sv_seconds sv @ (case why of None \<Rightarrow> [] | Some r \<Rightarrow> '' refusal='' @ r)
      in case sv_closed sv s of
           (s1, t, now) \<Rightarrow>
             (case when_up (sv_closed_up sv) (record_session R s1 t now ''sql_session_closed'' binding
                     (Some (case reason of None \<Rightarrow> ''client_closed'' | Some r \<Rightarrow> r)) (Some detail)) of
                Inl _ \<Rightarrow> s1
              | Inr s2 \<Rightarrow> s2))"

text \<open>What a session does once the backend is connected: the setup statements, the record of its opening,
  the relay, and the clean-up.\<close>

definition serve_session ::
    "codec \<Rightarrow> 's redis \<Rightarrow> 's store_env \<Rightarrow> backend_env \<Rightarrow> 's \<Rightarrow> cancels \<Rightarrow> SqlBinding \<Rightarrow> string \<Rightarrow> upstream list \<Rightarrow>
      upstream \<Rightarrow> relay_event list \<Rightarrow> 's served option" where
  "serve_session U R sv env s sessions binding handle others us events =
     (let failed = (\<lambda>e s us. Some \<lparr>so_answer = Inl e, so_store = s, so_conns = others @ [us_close us], so_kernel = [],
                      so_cancels = sessions\<rparr>)
      in case session_setup_statements binding of
           Inl e \<Rightarrow> failed (PyError e) s us
         | Inr statements \<Rightarrow>
             (case us_execute_all U us statements of
                (Inl e, us1) \<Rightarrow> failed e s us1
              | (Inr _, us1) \<Rightarrow>
                  (case sv_opened sv s of
                     (s1, t, now) \<Rightarrow>
                       (case when_up (sv_opened_up sv) (record_session R s1 t now ''sql_session_opened'' binding None None) of
                          Inl e \<Rightarrow> failed (PyError e) s1 us1
                        | Inr s2 \<Rightarrow>
                            (case backend_relay env sessions binding handle us1 events of
                               None \<Rightarrow> None
                             | Some (r, ry, sessions1) \<Rightarrow>
                                 Some \<lparr>so_answer = res_map (\<lambda>_. True) r,
                                   so_store = record_closed R sv s2 binding
                                     (case r of Inl _ \<Rightarrow> set_default (ry_reason ry) ''error'' | Inr _ \<Rightarrow> ry_reason ry) (ry_refusal ry),
                                   so_conns = others @ [us_close (ry_up ry)], so_kernel = ry_kernel ry,
                                   so_cancels = sessions1\<rparr>)))))"

definition serve_connection ::
    "codec \<Rightarrow> crypto \<Rightarrow> (string \<Rightarrow> string) \<Rightarrow> UpstreamConfig \<Rightarrow> 's redis \<Rightarrow> 's store_env \<Rightarrow> backend_env \<Rightarrow> cancels \<Rightarrow>
      string \<Rightarrow> string option \<Rightarrow> relay_event list \<Rightarrow> 's served option" where
  "serve_connection U K sha256hex cfg R sv env sessions handle src events =
     (let refuse = (\<lambda>answer s. Some \<lparr>so_answer = answer, so_store = s, so_conns = [], so_kernel = [], so_cancels = sessions\<rparr>)
      in case resolve_sql_outcome (sv_reader sv) handle of
           Inl e \<Rightarrow> refuse (Inl (PyError e)) (sv_store sv)
         | Inr outcome \<Rightarrow>
             (case when_up (sv_record_up sv) (sql_record_resolution sha256hex R (sv_store sv) (sv_time sv) (sv_now sv) handle outcome src) of
                Inl e \<Rightarrow> refuse (Inl (PyError e)) (sv_store sv)
              | Inr s \<Rightarrow>
                  (case fst outcome of
                     None \<Rightarrow> refuse (Inr False) s
                   | Some binding \<Rightarrow>
                       (case backend_connect U K cfg env binding of
                          (Inl e, others, own) \<Rightarrow>
                            Some \<lparr>so_answer = Inl e, so_store = s,
                              so_conns = others @ (case own of None \<Rightarrow> [] | Some us \<Rightarrow> [us_close us]),
                              so_kernel = [], so_cancels = sessions\<rparr>
                        | (Inr _, others, None) \<Rightarrow> refuse (Inl ConnectionError) s
                        | (Inr _, others, Some us) \<Rightarrow>
                            serve_session U R sv env s sessions binding handle others us events))))"

section \<open>The connection handler\<close>

record 's handled =
  hd_answer :: "sql_error + unit"
  hd_store :: 's
  hd_conns :: "upstream list"
  hd_kernel :: octets
  hd_cancels :: cancels

text \<open>
  \<open>handle_client\<close> on the kernel's bytes: \<open>inp\<close> are those of the handshake, the events what follows. The
  connection used for a cancel is the first of the environment.
\<close>

definition handle_client ::
    "codec \<Rightarrow> crypto \<Rightarrow> (string \<Rightarrow> string) \<Rightarrow> UpstreamConfig \<Rightarrow> 's redis \<Rightarrow> 's store_env \<Rightarrow> backend_env \<Rightarrow> cancels \<Rightarrow>
      octets \<Rightarrow> string option \<Rightarrow> relay_event list \<Rightarrow> 's handled option" where
  "handle_client U K sha256hex cfg R sv env sessions inp peer events =
     (let stop = (\<lambda>r conns out. Some \<lparr>hd_answer = r, hd_store = sv_store sv, hd_conns = conns, hd_kernel = out, hd_cancels = sessions\<rparr>);
          caught = (\<lambda>e. if e = IncompleteReadError \<or> e = ProtocolError then Inr () else Inl e)
      in case read_startup U inp of
           None \<Rightarrow> None
         | Some (Inl e, out) \<Rightarrow> stop (caught e) [] out
         | Some (Inr (startup, rest), out) \<Rightarrow>
             if is_cancel startup then
               (case parse_cancel_request (cs_body startup) of
                  Inl e \<Rightarrow> stop (caught e) [] out
                | Inr (pid, key) \<Rightarrow>
                    stop (Inr ()) (case snd (cancel cfg (be_first env) sessions pid key) of None \<Rightarrow> [] | Some us \<Rightarrow> [us]) out)
             else (case request_handle U rest of
                (Inl e, ask) \<Rightarrow> stop (caught e) [] (out @ ask)
              | (Inr (handle, _), ask) \<Rightarrow>
                  (case serve_connection U K sha256hex cfg R sv env sessions handle peer events of
                     None \<Rightarrow> None
                   | Some so \<Rightarrow>
                       (let bye = (if so_answer so = Inr False
                                   then build_error_response U ''capability handle refused'' ''28000'' ''FATAL'' else Inr [])
                        in Some \<lparr>hd_answer = (case bye of Inl e \<Rightarrow> Inl e | Inr _ \<Rightarrow> res_map (\<lambda>_. ()) (so_answer so)),
                             hd_store = so_store so, hd_conns = so_conns so,
                             hd_kernel = out @ ask @ so_kernel so @ (case bye of Inl _ \<Rightarrow> [] | Inr m \<Rightarrow> m),
                             hd_cancels = so_cancels so\<rparr>))))"

end
