(* ===== verification/Sql_Confinement.thy ===== *)
theory Sql_Confinement
  imports Sql_Proxy
begin

text \<open>
  What the SQL proxy promises, over the definitions of \<open>Sql_Proxy\<close>.

  \<open>to_upstream\<close> and \<open>to_kernel\<close> specify a relay as a function of its events; the relay's steps are shown to
  implement them. On top of that: whose session a kernel's bytes reach, and that the handler returns.
\<close>

section \<open>What is written upstream\<close>

lemma us_send_out: "us_out (snd (us_send us r)) = us_out us @ (case r of Inl _ \<Rightarrow> [] | Inr m \<Rightarrow> m)"
  by (simp add: us_send_def split: sum.splits)

lemma us_receive_out [simp]: "us_out (snd (us_receive us)) = us_out us" "us_closed (snd (us_receive us)) = us_closed us"
  by (simp_all add: us_receive_def split: sum.splits)

lemma us_read_out [simp]: "us_out (snd (us_read U us)) = us_out us" "us_closed (snd (us_read U us)) = us_closed us"
proof -
  obtain r us1 where r: "us_receive us = (r, us1)" by force
  then have "us_out us1 = us_out us" "us_closed us1 = us_closed us" using us_receive_out [of us] by simp_all
  then show "us_out (snd (us_read U us)) = us_out us" "us_closed (snd (us_read U us)) = us_closed us"
    unfolding us_read_def ubind_def r by (auto split: sum.splits option.splits)
qed

text \<open>Steps that only add to what was written and leave the session open.\<close>

definition us_grows :: "upstream \<Rightarrow> upstream \<Rightarrow> bool" where
  "us_grows us us' \<longleftrightarrow> (\<exists>m. us_out us' = us_out us @ m) \<and> us_closed us' = us_closed us"

lemma us_grows_refl [simp, intro]: "us_grows us us"
  by (simp add: us_grows_def)

lemma us_grows_trans: "us_grows a b \<Longrightarrow> us_grows b c \<Longrightarrow> us_grows a c"
  by (auto simp: us_grows_def)

lemma us_grows_send [simp, intro]: "us_grows us (snd (us_send us r))"
  by (auto simp: us_grows_def us_send_def split: sum.splits)

lemma us_grows_read [simp, intro]: "us_grows us (snd (us_read U us))"
  by (simp add: us_grows_def)

lemma us_grows_lift [simp, intro]: "us_grows us (snd (us_lift us r))"
  by (simp add: us_lift_def)

lemma us_grows_bind:
  assumes "us_grows us (snd m)" "\<And>x us1. us_grows us1 (snd (f x us1))"
  shows "us_grows us (snd (ubind m f))"
proof -
  obtain r us1 where m: "m = (r, us1)" by force
  show ?thesis
  proof (cases r)
    case (Inr x)
    then show ?thesis using assms(1) assms(2) [of us1 x] unfolding ubind_def m by (simp, blast intro: us_grows_trans)
  qed (use assms(1) in \<open>simp add: ubind_def m\<close>)
qed

lemma us_grows_authenticate: "us_grows us (snd (us_authenticate U K nonce us user password))"
  unfolding us_authenticate_def Let_def
  by (intro us_grows_bind us_grows_read us_grows_lift us_grows_send | clarsimp split: if_split)+

lemma drain_out: "us_out (snd (us_drain_until_ready U us)) = us_out us \<and> us_closed (snd (us_drain_until_ready U us)) = us_closed us"
proof (induction U us rule: us_drain_until_ready.induct)
  case (1 U us)
  obtain r us1 where r: "us_read U us = (r, us1)" by force
  then have o: "us_out us1 = us_out us" "us_closed us1 = us_closed us" using us_read_out [of U us] by simp_all
  show ?case
  proof (cases r)
    case (Inl e)
    then show ?thesis using r o by (simp add: us_drain_until_ready.simps)
  next
    case (Inr m)
    obtain ty p where m: "m = (ty, p)" by force
    note IH = 1 [OF r [symmetric] Inr m [symmetric]]
    show ?thesis
      unfolding us_drain_until_ready.simps [of U us] r prod.case Inr sum.case m
      using IH o by (auto split: sum.splits)
  qed
qed

lemma completion_out: "us_out (snd (us_completion U failed us)) = us_out us \<and> us_closed (snd (us_completion U failed us)) = us_closed us"
proof (induction U failed us rule: us_completion.induct)
  case (1 U failed us)
  obtain r us1 where r: "us_receive us = (r, us1)" by force
  then have o: "us_out us1 = us_out us" "us_closed us1 = us_closed us" using us_receive_out [of us] by simp_all
  show ?case
  proof (cases r)
    case (Inl e)
    then show ?thesis using r o by (simp add: us_completion.simps)
  next
    case (Inr m)
    obtain ty p where m: "m = (ty, p)" by force
    note IH = 1 [OF r [symmetric] Inr m [symmetric] refl]
    show ?thesis
      unfolding us_completion.simps [of U failed us] r prod.case Inr sum.case m Let_def
      using IH o by auto
  qed
qed


lemma execute_out:
  assumes "us_execute U us sql = (Inr x, us')"
  shows "\<exists>q. build_query U sql = Inr q \<and> us_out us' = us_out us @ q \<and> us_closed us' = us_closed us"
proof -
  obtain q where q: "build_query U sql = Inr q"
    using assms by (cases "build_query U sql") (auto simp: us_execute_def ubind_def us_send_def)
  have "us_out us' = us_out us @ q \<and> us_closed us' = us_closed us"
    using assms completion_out [of U False "us\<lparr>us_out := us_out us @ q\<rparr>"]
    by (simp add: us_execute_def ubind_def us_send_def q)
  with q show ?thesis by blast
qed

lemma us_grows_execute: "us_grows us (snd (us_execute U us sql))"
  unfolding us_execute_def using completion_out [of U False] by (intro us_grows_bind us_grows_send) (auto simp: us_grows_def)

lemma us_grows_execute_all: "us_grows us (snd (us_execute_all U us sqls))"
  by (induction sqls arbitrary: us) (auto intro!: us_grows_bind us_grows_execute)

lemma us_grows_drain: "us_grows us (snd (us_drain_until_ready U us))"
  using drain_out [of U us] by (simp add: us_grows_def)

text \<open>The queries of a list of statements, as they go over the wire.\<close>

fun queries :: "codec \<Rightarrow> string list \<Rightarrow> octets option" where
  "queries U [] = Some []"
| "queries U (sql # sqls) =
     (case build_query U sql of Inl _ \<Rightarrow> None | Inr q \<Rightarrow> map_option (\<lambda>qs. q @ qs) (queries U sqls))"

lemma execute_all_out:
  assumes "us_execute_all U us sqls = (Inr x, us')"
  shows "\<exists>qs. queries U sqls = Some qs \<and> us_out us' = us_out us @ qs \<and> us_closed us' = us_closed us"
  using assms
proof (induction sqls arbitrary: us)
  case (Cons sql sqls)
  obtain us1 where e: "us_execute U us sql = (Inr (), us1)" "us_execute_all U us1 sqls = (Inr x, us')"
    using Cons.prems by (auto simp: ubind_def split: prod.splits sum.splits)
  from execute_out [OF e(1)] Cons.IH [OF e(2)] show ?case by auto
qed simp

text \<open>A session opened as a user: an SSL request, if any, then the StartupMessage that names the user.\<close>

definition opened_as :: "codec \<Rightarrow> UpstreamConfig \<Rightarrow> string \<Rightarrow> octets \<Rightarrow> bool" where
  "opened_as U cfg user out \<longleftrightarrow>
     (\<exists>pre m rest. (pre = [] \<or> build_ssl_request = Inr pre) \<and>
        build_startup_message U [(''user'', user), (''database'', uc_database cfg)] = Inr m \<and> out = pre @ m @ rest)"

lemma opened_as_append [simp]: "opened_as U cfg user out \<Longrightarrow> opened_as U cfg user (out @ extra)"
  unfolding opened_as_def by (metis append.assoc)

lemma open_upstream_out:
  assumes "open_upstream cfg conn = Inr us"
  shows "(us_out us = [] \<or> build_ssl_request = Inr (us_out us)) \<and> \<not> us_closed us"
  using assms
  by (auto simp: open_upstream_def fresh_upstream_def readexactly_def split: net_conn.splits if_splits sum.splits option.splits)

lemma us_open_Inr:
  assumes "us_open U K cfg nonce conn user password = (Inr x, own)"
  shows "\<exists>us. own = Some us \<and> opened_as U cfg user (us_out us) \<and> \<not> us_closed us"
proof -
  let ?params = "[(''user'', user), (''database'', uc_database cfg)]"
  obtain us0 where us0: "open_upstream cfg conn = Inr us0"
    using assms by (auto simp: us_open_def split: sum.splits)
  obtain m where m: "build_startup_message U ?params = Inr m"
    using assms us0 by (cases "build_startup_message U ?params") (auto simp: us_open_def ubind_def us_send_def)
  let ?us1 = "us0\<lparr>us_out := us_out us0 @ m\<rparr>"
  let ?r = "ubind (us_authenticate U K nonce ?us1 user password) (\<lambda>_ us2. us_drain_until_ready U us2)"
  have own: "own = Some (snd ?r)"
    using assms us0 m by (auto simp: us_open_def ubind_def us_send_def map_prod_def split: prod.splits sum.splits)
  have "us_grows ?us1 (snd ?r)" by (intro us_grows_bind us_grows_authenticate us_grows_drain)
  then have "\<exists>extra. us_out (snd ?r) = us_out us0 @ m @ extra" "\<not> us_closed (snd ?r)"
    using open_upstream_out [OF us0] by (auto simp: us_grows_def)
  then show ?thesis
    unfolding own opened_as_def using open_upstream_out [OF us0] m by blast
qed

text \<open>A session the proxy opened at all said whose it is, unless its StartupMessage cannot be built.\<close>

lemma us_open_says:
  assumes "us_open U K cfg nonce conn user password = (r, Some us)"
    and "build_startup_message U [(''user'', user), (''database'', uc_database cfg)] = Inr m"
  shows "opened_as U cfg user (us_out us)"
proof -
  obtain us0 where us0: "open_upstream cfg conn = Inr us0"
    using assms by (auto simp: us_open_def split: sum.splits)
  let ?us1 = "us0\<lparr>us_out := us_out us0 @ m\<rparr>"
  let ?r = "ubind (us_authenticate U K nonce ?us1 user password) (\<lambda>_ us2. us_drain_until_ready U us2)"
  have own: "us = snd ?r"
    using assms us0 by (auto simp: us_open_def ubind_def us_send_def map_prod_def split: prod.splits sum.splits)
  have "us_grows ?us1 (snd ?r)" by (intro us_grows_bind us_grows_authenticate us_grows_drain)
  then have "\<exists>extra. us_out us = us_out us0 @ m @ extra" unfolding own by (auto simp: us_grows_def)
  then show ?thesis unfolding opened_as_def using open_upstream_out [OF us0] assms(2) by blast
qed

section \<open>What a relay passes\<close>

definition holds_binding :: "SqlBinding \<Rightarrow> string \<Rightarrow> reader \<Rightarrow> bool" where
  "holds_binding b handle aget \<longleftrightarrow> (case resolve_sql_outcome aget handle of Inl _ \<Rightarrow> False | Inr out \<Rightarrow> fst out = Some b)"

text \<open>
  The specification of a relay: the kernel's bytes until the kernel closes or a re-check does not find the
  binding, and the database's bytes until it closes or such a re-check.
\<close>

fun to_upstream :: "SqlBinding \<Rightarrow> string \<Rightarrow> relay_event list \<Rightarrow> octets" where
  "to_upstream b handle [] = []"
| "to_upstream b handle (e # es) =
     (case e of
        KernelSends chunk \<Rightarrow> chunk @ to_upstream b handle es
      | KernelCloses \<Rightarrow> []
      | Recheck aget \<Rightarrow> if holds_binding b handle aget then to_upstream b handle es else []
      | _ \<Rightarrow> to_upstream b handle es)"

fun to_kernel :: "SqlBinding \<Rightarrow> string \<Rightarrow> relay_event list \<Rightarrow> octets" where
  "to_kernel b handle [] = []"
| "to_kernel b handle (e # es) =
     (case e of
        UpstreamSends chunk \<Rightarrow> chunk @ to_kernel b handle es
      | UpstreamCloses \<Rightarrow> []
      | Recheck aget \<Rightarrow> if holds_binding b handle aget then to_kernel b handle es else []
      | _ \<Rightarrow> to_kernel b handle es)"

lemma us_close_closed [simp]: "us_closed us \<Longrightarrow> us_close us = us"
  by (simp add: us_close_def)

lemma terminate_built: "\<exists>m. build_message MSG_TERMINATE [] = Inr m"
  by (rule build_message_short) (simp_all add: msg_defs)

lemma us_close_out: "\<exists>m. us_out (us_close us) = us_out us @ m \<and> (m = [] \<or> build_message MSG_TERMINATE [] = Inr m)"
  by (auto simp: us_close_def split: sum.splits)

lemma us_closed_close [simp]: "us_closed (us_close us)"
  using terminate_built by (auto simp: us_close_def)

lemma still_authorized_holds: "holds_binding b handle aget \<Longrightarrow> still_authorized b handle aget s = (Inr True, s)"
  by (auto simp: still_authorized_def holds_binding_def split: sum.splits)

lemma still_authorized_fails:
  assumes "\<not> holds_binding b handle aget"
  shows "\<exists>r s1. still_authorized b handle aget s = (r, s1) \<and> r \<noteq> Inr True \<and> ry_up s1 = ry_up s \<and> ry_kernel s1 = ry_kernel s"
  using assms by (auto simp: still_authorized_def holds_binding_def split: sum.splits)

lemma relay_step_pass:
  assumes "\<not> relay_over s"
  shows "relay_step b handle s (KernelSends chunk) =
      (if us_closed (ry_up s) then s else s\<lparr>ry_up := (ry_up s)\<lparr>us_out := us_out (ry_up s) @ chunk\<rparr>\<rparr>)"
    and "relay_step b handle s KernelCloses = s\<lparr>ry_up := shut (ry_up s)\<rparr>"
    and "relay_step b handle s (UpstreamSends chunk) = (if ry_kernel_open s then s\<lparr>ry_kernel := ry_kernel s @ chunk\<rparr> else s)"
    and "relay_step b handle s UpstreamCloses = s\<lparr>ry_kernel_open := False\<rparr>"
  using assms by (simp_all add: relay_step_def)

lemma relay_step_recheck:
  assumes "\<not> relay_over s"
  shows "holds_binding b handle aget \<Longrightarrow> relay_step b handle s (Recheck aget) = s"
    and "\<not> holds_binding b handle aget \<Longrightarrow>
      ry_up (relay_step b handle s (Recheck aget)) = us_close (ry_up s) \<and>
      ry_kernel (relay_step b handle s (Recheck aget)) = ry_kernel s \<and>
      \<not> ry_kernel_open (relay_step b handle s (Recheck aget))"
proof -
  show "holds_binding b handle aget \<Longrightarrow> relay_step b handle s (Recheck aget) = s"
    using assms by (simp add: relay_step_def still_authorized_holds)
  assume "\<not> holds_binding b handle aget"
  then obtain r s1 where a: "still_authorized b handle aget s = (r, s1)" "r \<noteq> Inr True" "ry_up s1 = ry_up s" "ry_kernel s1 = ry_kernel s"
    using still_authorized_fails by blast
  then have "relay_step b handle s (Recheck aget) = backend_close (s1\<lparr>ry_revoked := True\<rparr>)"
    using assms by (auto simp: relay_step_def split: sum.splits bool.splits)
  with a show "ry_up (relay_step b handle s (Recheck aget)) = us_close (ry_up s) \<and>
      ry_kernel (relay_step b handle s (Recheck aget)) = ry_kernel s \<and>
      \<not> ry_kernel_open (relay_step b handle s (Recheck aget))"
    by (simp add: backend_close_def)
qed

lemma relay_step_closed_up:
  assumes "us_closed (ry_up s)"
  shows "ry_up (relay_step b handle s e) = ry_up s"
proof (cases e)
  case (Recheck aget)
  show ?thesis
  proof (cases "relay_over s \<or> holds_binding b handle aget")
    case True
    then show ?thesis using relay_step_recheck(1) Recheck by (auto simp: relay_step_def)
  next
    case False
    then show ?thesis using relay_step_recheck(2) [of s b handle aget] Recheck assms by simp
  qed
qed (use assms in \<open>auto simp: relay_step_def shut_def\<close>)

lemma relay_step_closed_kernel:
  assumes "\<not> ry_kernel_open s"
  shows "ry_kernel (relay_step b handle s e) = ry_kernel s \<and> \<not> ry_kernel_open (relay_step b handle s e)"
proof (cases e)
  case (Recheck aget)
  show ?thesis
  proof (cases "relay_over s \<or> holds_binding b handle aget")
    case True
    then show ?thesis using relay_step_recheck(1) Recheck assms by (auto simp: relay_step_def)
  next
    case False
    then show ?thesis using relay_step_recheck(2) [of s b handle aget] Recheck by simp
  qed
qed (use assms in \<open>auto simp: relay_step_def\<close>)

lemma relay_closed_up: "us_closed (ry_up s) \<Longrightarrow> ry_up (foldl (relay_step b handle) s es) = ry_up s"
  by (induction es arbitrary: s) (simp_all add: relay_step_closed_up)

lemma relay_closed_kernel:
  "\<not> ry_kernel_open s \<Longrightarrow> ry_kernel (foldl (relay_step b handle) s es) = ry_kernel s"
  by (induction es arbitrary: s) (simp_all add: relay_step_closed_kernel)

lemma relay_to_upstream:
  assumes "\<not> us_closed (ry_up s)"
  shows "\<exists>bye. us_out (us_close (ry_up (foldl (relay_step b handle) s es))) = us_out (ry_up s) @ to_upstream b handle es @ bye \<and>
    (bye = [] \<or> build_message MSG_TERMINATE [] = Inr bye)"
  using assms
proof (induction es arbitrary: s)
  case Nil
  then show ?case using us_close_out [of "ry_up s"] by auto
next
  case (Cons e es)
  have over: "\<not> relay_over s" using Cons.prems by (simp add: relay_over_def)
  show ?case
  proof (cases e)
    case (Recheck aget)
    show ?thesis
    proof (cases "holds_binding b handle aget")
      case True
      then show ?thesis using Cons Recheck relay_step_recheck(1) [OF over] by simp
    next
      case False
      then have "ry_up (relay_step b handle s e) = us_close (ry_up s)" using Recheck relay_step_recheck(2) [OF over] by simp
      then show ?thesis using False Recheck us_close_out [of "ry_up s"] relay_closed_up [of "relay_step b handle s e" b handle es]
        by auto
    qed
  next
    case (KernelSends chunk)
    let ?s = "relay_step b handle s e"
    have "us_out (ry_up ?s) = us_out (ry_up s) @ chunk" "\<not> us_closed (ry_up ?s)"
      using over Cons.prems KernelSends by (simp_all add: relay_step_def)
    then show ?thesis using Cons.IH [of ?s] KernelSends by auto
  next
    case KernelCloses
    let ?s = "relay_step b handle s e"
    have "us_out (ry_up ?s) = us_out (ry_up s)" "us_closed (ry_up ?s)"
      using over KernelCloses by (simp_all add: relay_step_def shut_def)
    then show ?thesis using relay_closed_up [of ?s b handle es] KernelCloses by simp
  next
    case (UpstreamSends chunk)
    have "ry_up (relay_step b handle s e) = ry_up s" by (simp add: UpstreamSends relay_step_pass [OF over])
    then show ?thesis using Cons.IH [of "relay_step b handle s e"] Cons.prems UpstreamSends by simp
  next
    case UpstreamCloses
    have "ry_up (relay_step b handle s e) = ry_up s" by (simp add: UpstreamCloses relay_step_pass [OF over])
    then show ?thesis using Cons.IH [of "relay_step b handle s e"] Cons.prems UpstreamCloses by simp
  qed
qed

lemma relay_to_kernel:
  assumes "ry_kernel_open s"
  shows "ry_kernel (foldl (relay_step b handle) s es) = ry_kernel s @ to_kernel b handle es"
  using assms
proof (induction es arbitrary: s)
  case (Cons e es)
  have over: "\<not> relay_over s" using Cons.prems by (simp add: relay_over_def)
  show ?case
  proof (cases e)
    case (Recheck aget)
    show ?thesis
    proof (cases "holds_binding b handle aget")
      case True
      then show ?thesis using Cons Recheck relay_step_recheck(1) [OF over] by simp
    next
      case False
      then show ?thesis using Recheck relay_step_recheck(2) [OF over False] relay_closed_kernel [of "relay_step b handle s e" b handle es]
        by simp
    qed
  next
    case UpstreamCloses
    let ?s = "relay_step b handle s e"
    have "ry_kernel ?s = ry_kernel s" "\<not> ry_kernel_open ?s"
      using over UpstreamCloses by (simp_all add: relay_step_def)
    then show ?thesis using relay_closed_kernel [of ?s b handle es] UpstreamCloses by simp
  qed (use Cons in \<open>simp_all add: relay_step_pass [OF over]\<close>)
qed simp

section \<open>Confinement\<close>

text \<open>The sessions a backend opens besides its own speak for the tenant's login or for the enrolment principal.\<close>

lemma opened_as_grows: "opened_as U cfg user (us_out us) \<Longrightarrow> us_grows us us' \<Longrightarrow> opened_as U cfg user (us_out us')"
  by (auto simp: us_grows_def)

lemma opened_as_close: "opened_as U cfg user (us_out us) \<Longrightarrow> opened_as U cfg user (us_out (us_close us))"
  using us_close_out [of us] by auto

lemma backend_connect_Inr:
  assumes "backend_connect U K cfg env b = (Inr x, others, own)"
  shows "\<exists>login us. sql_login_name (sb_company_id b) = Inr login \<and> own = Some us \<and> opened_as U cfg login (us_out us) \<and> \<not> us_closed us"
proof -
  obtain login where login: "sql_login_name (sb_company_id b) = Inr login"
    using assms by (cases "sql_login_name (sb_company_id b)") (auto simp: backend_connect_def tenant_login_role_def)
  obtain pw where pw: "tenant_login_password K (uc_tenant_key cfg) (sb_company_id b) = Inr pw"
    using assms login by (cases "tenant_login_password K (uc_tenant_key cfg) (sb_company_id b)")
      (auto simp: backend_connect_def tenant_login_role_def)
  have "\<exists>nonce conn. us_open U K cfg nonce conn login pw = (Inr x, own)"
    using assms unfolding backend_connect_def tenant_login_role_def Let_def login pw
    by (auto split: prod.splits sum.splits sql_error.splits)
  with login us_open_Inr show ?thesis by blast
qed

lemma enrol_says:
  assumes "enrol_tenant_login U K cfg nonce salt conn cid pw = (r, Some us)"
    and "build_startup_message U [(''user'', uc_enrol_user cfg), (''database'', uc_database cfg)] = Inr m"
  shows "opened_as U cfg (uc_enrol_user cfg) (us_out us)"
proof -
  obtain sql r1 us1 where o: "us_open U K cfg nonce conn (uc_enrol_user cfg) (uc_enrol_password cfg) = (r1, Some us1)"
      "us = us_close us1 \<or> us = us_close (snd (us_execute U us1 sql))"
    using assms(1) by (auto simp: enrol_tenant_login_def map_prod_def split: sum.splits prod.splits option.splits)
      (metis snd_conv)+
  have "opened_as U cfg (uc_enrol_user cfg) (us_out us1)" by (rule us_open_says [OF o(1) assms(2)])
  then show ?thesis using o(2) opened_as_close opened_as_grows [OF _ us_grows_execute] by blast
qed

lemma backend_relay_error:
  "backend_relay env sessions b handle us events = Some (Inl e, ry, c) \<Longrightarrow>
   backend_relay env sessions b handle us events' = Some (Inl e, ry, c)"
  by (auto simp: backend_relay_def Let_def split: option.splits sum.splits if_splits)

lemma serve_session_error:
  assumes "serve_session U R sv env s sessions b handle others us events = Some so" "so_answer so \<noteq> Inr True"
  shows "serve_session U R sv env s sessions b handle others us events' = Some so"
proof (cases "session_setup_statements b")
  case (Inl e)
  with assms(1) show ?thesis by (simp add: serve_session_def)
next
  case (Inr sts)
  obtain r us1 where x: "us_execute_all U us sts = (r, us1)" by force
  obtain s1 t now where o: "sv_opened sv s = (s1, t, now)" using prod_cases3 by blast
  show ?thesis
  proof (cases "(\<exists>e. r = Inl e) \<or> (\<exists>e. when_up (sv_opened_up sv) (record_session R s1 t now ''sql_session_opened'' b None None) = Inl e)")
    case True
    with assms(1) Inr x o show ?thesis by (auto simp: serve_session_def split: sum.splits)
  next
    case False
    then obtain s2 where s2: "when_up (sv_opened_up sv) (record_session R s1 t now ''sql_session_opened'' b None None) = Inr s2"
      and r: "r = Inr ()" by (cases r; cases "when_up (sv_opened_up sv) (record_session R s1 t now ''sql_session_opened'' b None None)") auto
    obtain q ry c where q: "backend_relay env sessions b handle us1 events = Some (q, ry, c)"
      using assms(1) Inr x o s2 r by (auto simp: serve_session_def split: option.splits)
    have "\<exists>e. q = Inl e"
      using assms Inr x o s2 r q by (cases q) (auto simp: serve_session_def)
    then obtain e where e: "q = Inl e" by blast
    show ?thesis
      using assms(1) Inr x o s2 r q backend_relay_error [OF q [unfolded e], of events'] e by (simp add: serve_session_def)
  qed
qed

lemma backend_relay_Inr:
  assumes "backend_relay env sessions b handle us events = Some (Inr x, ry, c)" "\<not> us_closed us"
  shows "\<exists>hello bye. ry_kernel ry = hello @ to_kernel b handle events \<and>
    us_out (us_close (ry_up ry)) = us_out us @ to_upstream b handle events @ bye \<and>
    (bye = [] \<or> build_message MSG_TERMINATE [] = Inr bye)"
proof -
  obtain hello where ry: "ry = foldl (relay_step b handle)
      \<lparr>ry_up = us, ry_kernel = hello, ry_kernel_open = True, ry_revoked = False, ry_reason = None, ry_refusal = None\<rparr> events"
    using assms(1) by (auto simp: backend_relay_def Let_def split: option.splits sum.splits if_splits)
  show ?thesis
    unfolding ry using relay_to_kernel [of "\<lparr>ry_up = us, ry_kernel = hello, ry_kernel_open = True, ry_revoked = False,
        ry_reason = None, ry_refusal = None\<rparr>" b handle events]
      relay_to_upstream [of "\<lparr>ry_up = us, ry_kernel = hello, ry_kernel_open = True, ry_revoked = False,
        ry_reason = None, ry_refusal = None\<rparr>" b handle events] assms(2)
    by auto
qed

definition session_passes ::
    "codec \<Rightarrow> UpstreamConfig \<Rightarrow> SqlBinding \<Rightarrow> string \<Rightarrow> relay_event list \<Rightarrow> upstream list \<Rightarrow> 's served \<Rightarrow> bool" where
  "session_passes U cfg b handle events others so \<longleftrightarrow>
     (\<exists>login us front sts prep hello bye.
        sql_login_name (sb_company_id b) = Inr login \<and> opened_as U cfg login front \<and>
        session_setup_statements b = Inr sts \<and> queries U sts = Some prep \<and>
        so_conns so = others @ [us] \<and> us_closed us \<and>
        us_out us = front @ prep @ to_upstream b handle events @ bye \<and>
        (bye = [] \<or> build_message MSG_TERMINATE [] = Inr bye) \<and> so_kernel so = hello @ to_kernel b handle events)"

lemma serve_session_passes:
  assumes "serve_session U R sv env s sessions b handle others us events = Some so" "so_answer so = Inr True"
    and "sql_login_name (sb_company_id b) = Inr login" "opened_as U cfg login (us_out us)" "\<not> us_closed us"
  shows "session_passes U cfg b handle events others so"
proof -
  obtain sts where sts: "session_setup_statements b = Inr sts"
    using assms(1,2) by (cases "session_setup_statements b") (auto simp: serve_session_def)
  obtain r us1 where x: "us_execute_all U us sts = (r, us1)" by force
  obtain s1 t now where o: "sv_opened sv s = (s1, t, now)" using prod_cases3 by blast
  have r: "r = Inr ()" using assms(1,2) sts x by (cases r) (auto simp: serve_session_def)
  obtain s2 where s2: "when_up (sv_opened_up sv) (record_session R s1 t now ''sql_session_opened'' b None None) = Inr s2"
    using assms(1,2) sts x r o
    by (cases "when_up (sv_opened_up sv) (record_session R s1 t now ''sql_session_opened'' b None None)") (auto simp: serve_session_def)
  obtain q ry c where q: "backend_relay env sessions b handle us1 events = Some (q, ry, c)"
    using assms(1) sts x o s2 r by (auto simp: serve_session_def split: option.splits)
  have so: "so_answer so = res_map (\<lambda>_. True) q" "so_conns so = others @ [us_close (ry_up ry)]" "so_kernel so = ry_kernel ry"
    using assms(1) sts x o s2 r q by (auto simp: serve_session_def)
  with assms(2) obtain y where y: "q = Inr y" by (cases q) auto
  obtain prep where prep: "queries U sts = Some prep" "us_out us1 = us_out us @ prep" "us_closed us1 = us_closed us"
    using execute_all_out x r by blast
  obtain hello bye where h: "ry_kernel ry = hello @ to_kernel b handle events"
      "us_out (us_close (ry_up ry)) = us_out us1 @ to_upstream b handle events @ bye" "bye = [] \<or> build_message MSG_TERMINATE [] = Inr bye"
    using backend_relay_Inr [OF q [unfolded y]] prep(3) assms(5) by auto
  show ?thesis
    unfolding session_passes_def so using assms(3,4) sts prep h us_closed_close [of "ry_up ry"] by auto
qed

lemma serve_connection_refused:
  assumes "serve_connection U K sha256hex cfg R sv env sessions handle src events = Some so"
    and "\<nexists>b w f. resolve_sql_outcome (sv_reader sv) handle = Inr (Some b, w, f)"
  shows "so_conns so = [] \<and> so_kernel so = [] \<and> so_answer so \<noteq> Inr True"
proof (cases "resolve_sql_outcome (sv_reader sv) handle")
  case (Inl e)
  with assms(1) show ?thesis by (auto simp: serve_connection_def)
next
  case (Inr out)
  obtain w f where "out = (None, w, f)" using assms(2) Inr by (metis option.exhaust prod_cases3)
  with assms(1) Inr show ?thesis by (auto simp: serve_connection_def Let_def split: sum.splits)
qed

lemma serve_connection_resolved:
  assumes "serve_connection U K sha256hex cfg R sv env sessions handle src events = Some so"
    and "resolve_sql_outcome (sv_reader sv) handle = Inr (Some b, w, f)"
  shows "if so_answer so = Inr True then session_passes U cfg b handle events (fst (snd (backend_connect U K cfg env b))) so
    else (\<forall>events'. serve_connection U K sha256hex cfg R sv env sessions handle src events' = Some so)"
proof -
  let ?noted = "when_up (sv_record_up sv) (sql_record_resolution sha256hex R (sv_store sv) (sv_time sv) (sv_now sv) handle (Some b, w, f) src)"
  show ?thesis
  proof (cases ?noted)
    case (Inl e)
    with assms show ?thesis by (auto simp: serve_connection_def)
  next
    case (Inr s)
    note s = this
    obtain r others own where c: "backend_connect U K cfg env b = (r, others, own)" using prod_cases3 by blast
    show ?thesis
    proof (cases r)
      case (Inl e)
      with assms s c show ?thesis by (auto simp: serve_connection_def)
    next
      case (Inr x)
      note r = this
      obtain login us where l: "sql_login_name (sb_company_id b) = Inr login" "own = Some us"
          "opened_as U cfg login (us_out us)" "\<not> us_closed us"
        using backend_connect_Inr c [unfolded r] by blast
      have eq: "serve_connection U K sha256hex cfg R sv env sessions handle src es =
          serve_session U R sv env s sessions b handle others us es" for es
        using assms(2) s c r l(2) by (simp add: serve_connection_def)
      show ?thesis
        using serve_session_passes [OF assms(1) [unfolded eq] _ l(1,3,4)] serve_session_error [OF assms(1) [unfolded eq]]
        by (simp add: eq c)
    qed
  qed
qed

section \<open>The handler returns\<close>

lemma free_pid_returns:
  assumes "pid_of_draw (draws (i + n)) \<notin> fst ` set sessions"
  shows "\<exists>pid. free_pid sessions draws i = Some pid \<and> pid \<notin> fst ` set sessions"
  using assms
proof (induction n arbitrary: i)
  case 0
  then show ?case by (subst free_pid.simps) simp
next
  case (Suc n)
  then have "\<exists>pid. free_pid sessions draws (Suc i) = Some pid \<and> pid \<notin> fst ` set sessions" by simp
  then show ?case by (subst free_pid.simps) auto
qed

lemma backend_relay_returns:
  assumes "pid_of_draw (be_draws env n) \<notin> fst ` set sessions"
  shows "\<exists>r. backend_relay env sessions b handle us events = Some r"
proof -
  obtain pid where "free_pid sessions (be_draws env) 0 = Some pid"
    using free_pid_returns [of "be_draws env" 0 n sessions] assms by auto
  then show ?thesis
    by (auto simp: backend_relay_def register_def Let_def split: option.splits sum.splits)
qed

lemma serve_session_returns:
  assumes "pid_of_draw (be_draws env n) \<notin> fst ` set sessions"
  shows "\<exists>so. serve_session U R sv env s sessions b handle others us events = Some so"
  using backend_relay_returns [OF assms, of b handle _ events]
  by (auto simp: serve_session_def Let_def split: option.splits sum.splits prod.splits)
    (metis option.distinct(1))

lemma serve_connection_returns:
  assumes "pid_of_draw (be_draws env n) \<notin> fst ` set sessions"
  shows "\<exists>so. serve_connection U K sha256hex cfg R sv env sessions handle src events = Some so"
  using serve_session_returns [OF assms]
  by (auto simp: serve_connection_def Let_def split: option.splits sum.splits prod.splits)

lemma startup_answer_bound: "startup_answer inp n r \<Longrightarrow> 8 * n \<le> length inp"
  by (auto simp: startup_answer_def split: sum.splits)

text \<open>
  C31. The connection handler returns on every input: however many encryption requests the kernel sends,
  whatever bytes the database answers with, and whatever happens during the relay, as long as some draw of a
  process id is free. It has then declined at most one encryption request for every eight bytes it was sent.
\<close>

theorem handle_client_returns:
  assumes "pid_of_draw (be_draws env n) \<notin> fst ` set sessions"
  shows "\<exists>h k rest. handle_client U K sha256hex cfg R sv env sessions inp peer events = Some h \<and>
    hd_kernel h = concat (replicate k DECLINE_SSL) @ rest \<and> 8 * k \<le> length inp"
proof -
  obtain r k where r: "read_startup U inp = Some (r, concat (replicate k DECLINE_SSL))" "startup_answer inp k r"
    using read_startup_from_returns [of U inp "[]"] unfolding read_startup_def by auto
  have k: "8 * k \<le> length inp" by (rule startup_answer_bound [OF r(2)])
  show ?thesis
  proof (cases r)
    case (Inl e)
    with r(1) k show ?thesis by (auto simp: handle_client_def Let_def)
  next
    case (Inr x)
    obtain startup rest where x: "r = Inr (startup, rest)" using Inr by (cases x) simp
    obtain a ask where a: "request_handle U rest = (a, ask)" by force
    show ?thesis
    proof (cases "is_cancel startup \<or> (\<exists>e. a = Inl e)")
      case True
      with r(1) x a k show ?thesis by (auto simp: handle_client_def Let_def split: sum.splits prod.splits)
    next
      case False
      then obtain handle rest' where h: "a = Inr (handle, rest')" by (metis prod.exhaust sum.exhaust)
      obtain so where "serve_connection U K sha256hex cfg R sv env sessions handle peer events = Some so"
        using serve_connection_returns [OF assms] by blast
      with r(1) x a k h False show ?thesis by (auto simp: handle_client_def Let_def)
    qed
  qed
qed

text \<open>
  C4. A kernel whose handle does not resolve opens no database session and gets no byte. One whose handle
  resolves to a tenant is served on a session that was opened as that tenant's own login and on which
  exactly the tenant's setup statements ran first; what the kernel sends follows them unchanged up to the
  first re-check at which the handle no longer resolves to the same binding, and nothing after it, and the
  kernel receives the database's bytes up to the same point. Where the session is not served, everything the
  proxy did, the enrolment session included, is independent of what the kernel sends.
\<close>

theorem sql_session_confined:
  assumes "serve_connection U K sha256hex cfg R sv env sessions handle src events = Some so"
  shows "case resolve_sql_outcome (sv_reader sv) handle of
      Inr (Some b, w, f) \<Rightarrow>
        (if so_answer so = Inr True then session_passes U cfg b handle events (fst (snd (backend_connect U K cfg env b))) so
         else (\<forall>events'. serve_connection U K sha256hex cfg R sv env sessions handle src events' = Some so))
    | _ \<Rightarrow> so_conns so = [] \<and> so_kernel so = [] \<and> so_answer so \<noteq> Inr True"
proof (cases "\<exists>b w f. resolve_sql_outcome (sv_reader sv) handle = Inr (Some b, w, f)")
  case True
  with serve_connection_resolved [OF assms] show ?thesis by auto
next
  case False
  with serve_connection_refused [OF assms] show ?thesis by (auto split: sum.splits option.splits)
qed

section \<open>A session\<close>

definition demo_reader :: reader where
  "demo_reader k = Inr (if k = cap_key ''h'' then Some (RObj [(''audience'', JStr ''sql''), (''company_id'', JStr (uuid_str 1)), (''user'', JStr ''ada'')]) else None)"

definition demo_upstream :: UpstreamConfig where
  "demo_upstream = \<lparr>uc_database = ''industryflow'', uc_enrol_user = ''notebook_sql_proxy'', uc_enrol_password = ''secret'',
     uc_tenant_key = replicate 32 7, uc_tls = False, uc_require_tls = False\<rparr>"

definition demo_crypto :: crypto where
  "demo_crypto = \<lparr>kr_h = id, kr_hmac = \<lambda>k m. m, kr_pbkdf2 = \<lambda>p s i. Some p, kr_b64 = \<lambda>b. ''AAAA'', kr_b64d = \<lambda>s. None,
     kr_b64url = \<lambda>b. ''AAAA''\<rparr>"

text \<open>The bytes of a database that accepts the login and completes three statements.\<close>

definition demo_database :: octets where
  "demo_database = [82, 0, 0, 0, 8, 0, 0, 0, 0] @ [90, 0, 0, 0, 5, 73] @ [90, 0, 0, 0, 5, 73] @ [90, 0, 0, 0, 5, 73] @
     [90, 0, 0, 0, 5, 73]"

definition demo_backend :: backend_env where
  "demo_backend = \<lparr>be_first = Accepted demo_database None, be_enrol = Refused, be_second = Refused, be_nonce = \<lambda>_. ''n'', be_salt = [],
     be_draws = \<lambda>_. 0, be_key = 7, be_kernel_gone = False\<rparr>"

definition demo_store :: "mem store_env" where
  "demo_store = \<lparr>sv_reader = demo_reader, sv_store = mem_empty, sv_time = 0, sv_now = noon, sv_record_up = True,
     sv_opened = \<lambda>s. (s, 1, noon), sv_opened_up = True, sv_closed = \<lambda>s. (s, 60, noon), sv_closed_up = True, sv_seconds = ''59.0''\<rparr>"

theorem handle_client_returns_witness:
  "\<exists>h. handle_client latin_codec demo_crypto id demo_upstream ref_redis demo_store demo_backend [] [0, 0] None [] = Some h"
  using handle_client_returns [of demo_backend 0 "[]" latin_codec demo_crypto id demo_upstream ref_redis demo_store "[0, 0]" None "[]"]
  by auto

lemma utf8_length: "length (cd_enc latin_codec s) \<le> 2 * length s"
proof -
  have c: "length (utf8_char c) \<le> 2" for c by (simp add: utf8_char_def Let_def)
  have "length (concat (map utf8_char s)) \<le> 2 * length s"
  proof (induction s)
    case (Cons x s)
    then show ?case using c [of x] by simp
  qed simp
  then show ?thesis by (simp add: latin_codec_def)
qed

lemma read_ready: "read_regular_message (90 # 0 # 0 # 0 # 5 # 73 # rest) = Inr (([90], [73]), rest)"
proof -
  have "read_counted (2 ^ 24) (0 # 0 # 0 # 5 # 73 # rest) = Inr ([73], rest)"
    unfolding read_counted_Inr by (intro exI [of _ "[0, 0, 0, 5]"]) (simp add: unpack_I_def)
  then show ?thesis unfolding read_regular_message_Inr by simp
qed

lemma read_auth_ok: "read_regular_message (82 # 0 # 0 # 0 # 8 # 0 # 0 # 0 # 0 # rest) = Inr (([82], [0, 0, 0, 0]), rest)"
proof -
  have "read_counted (2 ^ 24) (0 # 0 # 0 # 8 # 0 # 0 # 0 # 0 # rest) = Inr ([0, 0, 0, 0], rest)"
    unfolding read_counted_Inr by (intro exI [of _ "[0, 0, 0, 8]"]) (simp add: unpack_I_def)
  then show ?thesis unfolding read_regular_message_Inr by simp
qed

lemma read_messages:
  "us_in us = 90 # 0 # 0 # 0 # 5 # 73 # rest \<Longrightarrow> us_receive us = (Inr ([90], [73]), us\<lparr>us_in := rest\<rparr>)"
  "us_in us = 90 # 0 # 0 # 0 # 5 # 73 # rest \<Longrightarrow> us_read U us = (Inr ([90], [73]), us\<lparr>us_in := rest\<rparr>)"
  "us_in us = 82 # 0 # 0 # 0 # 8 # 0 # 0 # 0 # 0 # rest \<Longrightarrow> us_read U us = (Inr ([82], [0, 0, 0, 0]), us\<lparr>us_in := rest\<rparr>)"
  by (simp_all add: us_receive_def us_read_def ubind_def read_ready read_auth_ok msg_defs)

lemma demo_execute:
  assumes "length sql \<le> 1000" "us_in us = 90 # 0 # 0 # 0 # 5 # 73 # rest"
  shows "\<exists>us'. us_execute latin_codec us sql = (Inr (), us') \<and> us_in us' = rest \<and> us_key us' = us_key us \<and> us_params us' = us_params us"
proof -
  have "length (cd_enc latin_codec sql) \<le> 2000" using utf8_length [of sql] assms(1) by simp
  then obtain q where q: "build_query latin_codec sql = Inr q"
    using build_message_short [of MSG_QUERY "cd_enc latin_codec sql @ [0]"] by (auto simp: build_query_def msg_defs)
  have "us_receive (us\<lparr>us_out := us_out us @ q\<rparr>) = (Inr ([90], [73]), us\<lparr>us_out := us_out us @ q, us_in := rest\<rparr>)"
    using read_messages(1) [of "us\<lparr>us_out := us_out us @ q\<rparr>"] assms(2) by simp
  then have "us_completion latin_codec False (us\<lparr>us_out := us_out us @ q\<rparr>) = (Inr (), us\<lparr>us_out := us_out us @ q, us_in := rest\<rparr>)"
    by (subst us_completion.simps) (simp add: msg_defs)
  then show ?thesis by (simp add: us_execute_def ubind_def us_send_def q)
qed

lemma demo_tenant: "canonical_company_id (uuid_str 1) = Inr (uuid_str 1)" "length (uuid_str 1) = 36"
proof -
  show "canonical_company_id (uuid_str 1) = Inr (uuid_str 1)" by (simp add: canonical_company_id_def uuid_parse_str)
  then show "length (uuid_str 1) = 36" by (rule canonical_shape(1))
qed

definition demo_binding :: SqlBinding where
  "demo_binding = \<lparr>sb_user = ''ada'', sb_company_id = uuid_str 1, sb_read_only = True, sb_handle_id = None\<rparr>"

lemma demo_resolves: "\<exists>f. resolve_sql_outcome demo_reader ''h'' = Inr (Some demo_binding, None, f)"
proof -
  have blank: "canonical_company_id [] = Inl ValueError"
    by (simp add: canonical_company_id_def uuid_parse_def strip_chars_def lstrip_chars_def rstrip_chars_def)
  have "uuid_str 1 \<noteq> []" using demo_tenant(2) by force
  then show ?thesis
    by (simp add: resolve_sql_outcome_def resolve_outcome_def demo_reader_def demo_binding_def jget_def jget_default_def
        or_blank_def py_str_def demo_tenant AUDIENCE_SQL_def entry_facts_def uuid_fact_def fact_def user_fact_def
        audience_fact_def blank split: option.splits)
qed

lemma demo_open:
  assumes "length user \<le> 1000"
  shows "\<exists>us. us_open latin_codec demo_crypto demo_upstream n (Accepted demo_database None) user password = (Inr (), Some us) \<and>
    us_in us = drop 15 demo_database \<and> us_key us = None \<and> us_params us = []"
proof -
  let ?params = "[(''user'', user), (''database'', uc_database demo_upstream)]"
  have "length (startup_body latin_codec ?params) \<le> 3000"
    using utf8_length [of user] utf8_length [of "''user''"] utf8_length [of "''database''"]
      utf8_length [of "uc_database demo_upstream"] assms
    by (simp add: startup_body_def demo_upstream_def)
  then obtain m where m: "build_startup_message latin_codec ?params = Inr m"
    by (auto simp: build_startup_message_def pack_I_def PROTOCOL_VERSION_3_def)
  define us where "us = (fresh_upstream demo_database [])\<lparr>us_out := m\<rparr>"
  have us: "us_in us = 82 # 0 # 0 # 0 # 8 # 0 # 0 # 0 # 0 # drop 9 demo_database" "us_key us = None" "us_params us = []"
    by (simp_all add: us_def fresh_upstream_def demo_database_def)
  have "us_authenticate latin_codec demo_crypto n us user password = (Inr (), us\<lparr>us_in := drop 9 demo_database\<rparr>)"
    using read_messages(3) [OF us(1), of latin_codec]
    by (simp add: us_authenticate_def ubind_def us_lift_def parse_authentication_def unpack_I_def AUTH_OK_def msg_defs)
  moreover have "us_read latin_codec (us\<lparr>us_in := drop 9 demo_database\<rparr>) = (Inr ([90], [73]), us\<lparr>us_in := drop 15 demo_database\<rparr>)"
    using read_messages(2) [of "us\<lparr>us_in := drop 9 demo_database\<rparr>" "drop 15 demo_database" latin_codec]
    by (simp add: demo_database_def)
  then have "us_drain_until_ready latin_codec (us\<lparr>us_in := drop 9 demo_database\<rparr>) = (Inr (), us\<lparr>us_in := drop 15 demo_database\<rparr>)"
    by (subst us_drain_until_ready.simps) (simp add: msg_defs)
  ultimately have "us_open latin_codec demo_crypto demo_upstream n (Accepted demo_database None) user password =
      (Inr (), Some (us\<lparr>us_in := drop 15 demo_database\<rparr>))"
    using m by (simp add: us_open_def open_upstream_def demo_upstream_def ubind_def us_send_def us_def fresh_upstream_def)
  with us show ?thesis by simp
qed

lemma demo_roles:
  "sql_login_name (uuid_str 1) = Inr (''tenant_sqlproxy_'' @ uscore (uuid_str 1))"
  "reader_role_name (uuid_str 1) = Inr (''tenant_reader_'' @ uscore (uuid_str 1))"
  "schema_name (uuid_str 1) = Inr (''tenant_'' @ uscore (uuid_str 1))"
  by (simp_all add: name_defs underscored_def demo_tenant py_replace_map)

lemma demo_statements:
  "\<exists>a b. session_setup_statements demo_binding = Inr [a, b, ''SET default_transaction_read_only = on''] \<and> length a \<le> 1000 \<and> length b \<le> 1000"
  by (simp add: session_setup_statements_def demo_binding_def demo_roles demo_tenant(2))

lemma demo_setup:
  assumes "us_in us = drop 15 demo_database" "session_setup_statements demo_binding = Inr sts"
  shows "\<exists>us'. us_execute_all latin_codec us sts = (Inr (), us') \<and> us_key us' = us_key us \<and> us_params us' = us_params us"
proof -
  obtain a b where sts: "sts = [a, b, ''SET default_transaction_read_only = on'']" "length a \<le> 1000" "length b \<le> 1000"
    using demo_statements assms(2) by auto
  have "us_in us = 90 # 0 # 0 # 0 # 5 # 73 # 90 # 0 # 0 # 0 # 5 # 73 # 90 # 0 # 0 # 0 # 5 # 73 # []"
    by (simp add: assms(1) demo_database_def)
  from demo_execute [OF sts(2) this] obtain us1 where us1: "us_execute latin_codec us a = (Inr (), us1)"
      "us_in us1 = 90 # 0 # 0 # 0 # 5 # 73 # 90 # 0 # 0 # 0 # 5 # 73 # []" "us_key us1 = us_key us" "us_params us1 = us_params us" by blast
  from demo_execute [OF sts(3) us1(2)] obtain us2 where us2: "us_execute latin_codec us1 b = (Inr (), us2)"
      "us_in us2 = 90 # 0 # 0 # 0 # 5 # 73 # []" "us_key us2 = us_key us1" "us_params us2 = us_params us1" by blast
  have "length ''SET default_transaction_read_only = on'' \<le> 1000" by simp
  from demo_execute [OF this us2(2)] obtain us3 where us3: "us_execute latin_codec us2 ''SET default_transaction_read_only = on'' = (Inr (), us3)"
      "us_key us3 = us_key us2" "us_params us3 = us_params us2" by blast
  show ?thesis by (simp add: sts(1) ubind_def us1 us2 us3)
qed


definition demo_events :: "relay_event list" where
  "demo_events = [KernelSends [1], UpstreamSends [9], Recheck demo_reader, KernelSends [2], Recheck (\<lambda>_. Inr None), KernelSends [3]]"

lemma demo_events_pass: "to_upstream demo_binding ''h'' demo_events = [1, 2]" "to_kernel demo_binding ''h'' demo_events = [9]"
proof -
  have "holds_binding demo_binding ''h'' demo_reader" using demo_resolves by (auto simp: holds_binding_def)
  moreover have "\<not> holds_binding demo_binding ''h'' (\<lambda>_. Inr None)"
    by (simp add: holds_binding_def resolve_sql_outcome_def resolve_outcome_def)
  ultimately show "to_upstream demo_binding ''h'' demo_events = [1, 2]" "to_kernel demo_binding ''h'' demo_events = [9]"
    by (simp_all add: demo_events_def)
qed

lemma demo_served:
  "\<exists>so. serve_connection latin_codec demo_crypto id demo_upstream ref_redis demo_store demo_backend [] ''h'' None demo_events = Some so \<and>
    so_answer so = Inr True \<and> fst (snd (backend_connect latin_codec demo_crypto demo_upstream demo_backend demo_binding)) = []"
proof -
  obtain f where f: "resolve_sql_outcome demo_reader ''h'' = Inr (Some demo_binding, None, f)" using demo_resolves by blast
  have b: "sb_company_id demo_binding = uuid_str 1" "sb_handle_id demo_binding = None" by (simp_all add: demo_binding_def)
  have "length (''tenant_sqlproxy_'' @ uscore (uuid_str 1)) \<le> 1000" by (simp add: demo_tenant(2))
  from demo_open [OF this, of "''n''" "''AAAA''"] obtain us where us:
    "us_open latin_codec demo_crypto demo_upstream ''n'' (Accepted demo_database None) (''tenant_sqlproxy_'' @ uscore (uuid_str 1)) ''AAAA'' = (Inr (), Some us)"
    "us_in us = drop 15 demo_database" "us_key us = None" "us_params us = []" by blast
  have pw: "tenant_login_password demo_crypto (uc_tenant_key demo_upstream) (uuid_str 1) = Inr ''AAAA''"
    by (simp add: tenant_login_password_def demo_upstream_def MIN_TENANT_KEY_BYTES_def demo_tenant demo_crypto_def rstrip_chars_def)
  have c: "backend_connect latin_codec demo_crypto demo_upstream demo_backend demo_binding = (Inr (), [], Some us)"
    using us(1) pw by (simp add: backend_connect_def b tenant_login_role_def demo_roles demo_backend_def)
  obtain sts where sts: "session_setup_statements demo_binding = Inr sts" using demo_statements by blast
  obtain us1 where us1: "us_execute_all latin_codec us sts = (Inr (), us1)" "us_key us1 = None" "us_params us1 = []"
    using demo_setup [OF us(2) sts] us(3,4) by auto
  obtain hello where hello: "startup_completion [] None = Inr hello"
    by (simp add: startup_completion_def build_authentication_ok_def build_authentication_request_def AUTH_OK_def pack_I_def
        build_message_def msg_defs build_ready_for_query_def)
  obtain ry where ry: "backend_relay demo_backend [] demo_binding ''h'' us1 demo_events = Some (Inr (), ry, [])"
    using us1 hello by (simp add: backend_relay_def demo_backend_def)
  show ?thesis
    using f c sts us1(1) ry
    by (simp add: serve_connection_def serve_session_def demo_store_def sql_record_resolution_def record_first_use_def when_up_def
        record_session_def b)
qed

theorem sql_session_confined_witness:
  "\<exists>so login us front prep bye.
     serve_connection latin_codec demo_crypto id demo_upstream ref_redis demo_store demo_backend [] ''h'' None demo_events = Some so \<and>
     sql_login_name (uuid_str 1) = Inr login \<and> opened_as latin_codec demo_upstream login front \<and> so_conns so = [us] \<and>
     us_out us = front @ prep @ [1, 2] @ bye \<and> (bye = [] \<or> build_message MSG_TERMINATE [] = Inr bye)"
proof -
  obtain so where so: "serve_connection latin_codec demo_crypto id demo_upstream ref_redis demo_store demo_backend [] ''h'' None demo_events = Some so"
    "so_answer so = Inr True" "fst (snd (backend_connect latin_codec demo_crypto demo_upstream demo_backend demo_binding)) = []"
    using demo_served by blast
  obtain f where "resolve_sql_outcome (sv_reader demo_store) ''h'' = Inr (Some demo_binding, None, f)"
    using demo_resolves by (auto simp: demo_store_def)
  with sql_session_confined [OF so(1)] so(2,3)
  have "session_passes latin_codec demo_upstream demo_binding ''h'' demo_events [] so" by simp
  moreover have "sb_company_id demo_binding = uuid_str 1" by (simp add: demo_binding_def)
  ultimately show ?thesis using so(1) unfolding session_passes_def demo_events_pass by (metis append_Nil)
qed

end
