(* ===== verification/Deletion_Job.thy ===== *)
theory Deletion_Job
  imports Tenancy
begin

text \<open>
  The deletion of a tenant: the job that empties one store after another
  (\<open>services/tenant_delete/job.py\<close>, \<open>registry.py\<close>), the hub's reclaim of notebook volumes
  (\<open>services/notebook_hub/reclaim.py\<close>), and the database functions both go through
  (\<open>infrastructure/timescaledb/init-scripts/26-company-deletion-job.sql\<close>, \<open>27-notebook-volume-reclaim.sql\<close>).

  The stores a step empties are an arbitrary world the steps act on. Each call to the database is answered, fails,
  or is where the process dies, with or without the database having carried it out; before each call the
  gateway may have requested deletions and the hub may have recorded reclaimed volumes. The trace of a
  state notes what happened, in order.

  Shown: the database is emptied of a tenant only after every other store was, whatever fails or dies on the
  way, and a store's step is not run again once its removal is recorded.
\<close>

section \<open>The deletion record\<close>

record Removal =
  rm_detail :: "(string \<times> json) list"
  rm_retained_until :: "rat option"

record deletion =
  dn_company :: string
  dn_requested :: rat
  dn_completed :: bool

record deletion_db =
  dd_deletions :: "deletion list"
  dd_steps :: "(string \<times> string, Removal) od"
  dd_companies :: "(string, string) od"
  dd_schemas :: "string list"
  dd_users :: "(string \<times> string) list"
  dd_deleted :: "string list"

definition required_stores :: "string list" where
  "required_stores = [''capability_store'', ''cold_layer'', ''tracking_store'', ''notebook_volumes'', ''device_certificates'', ''broker'']"

definition pending_deletion :: "deletion_db \<Rightarrow> string \<Rightarrow> bool" where
  "pending_deletion db c \<longleftrightarrow> (\<exists>d \<in> set (dd_deletions db). dn_company d = c \<and> \<not> dn_completed d)"

definition completed_deletion :: "deletion_db \<Rightarrow> string \<Rightarrow> bool" where
  "completed_deletion db c \<longleftrightarrow> (\<exists>d \<in> set (dd_deletions db). dn_company d = c \<and> dn_completed d)"

definition recorded :: "deletion_db \<Rightarrow> string \<Rightarrow> string list" where
  "recorded db c = map snd (filter (\<lambda>k. fst k = c) (map fst (dd_steps db)))"

text \<open>\<open>pending_company_deletions()\<close>, \<open>company_deletion_user_ids\<close>, \<open>record_company_deletion_step\<close>.\<close>

definition pending_deletions :: "deletion_db \<Rightarrow> (string \<times> rat \<times> string list) list" where
  "pending_deletions db =
     map (\<lambda>d. (dn_company d, dn_requested d, recorded db (dn_company d)))
       (sort_key dn_requested (filter (\<lambda>d. \<not> dn_completed d) (dd_deletions db)))"

definition deletion_user_ids :: "deletion_db \<Rightarrow> string \<Rightarrow> string list" where
  "deletion_user_ids db c =
     (if pending_deletion db c then map fst (filter (\<lambda>(u, c'). c' = c) (dd_users db)) else [])"

definition record_step :: "string \<Rightarrow> string \<Rightarrow> Removal \<Rightarrow> deletion_db \<Rightarrow> deletion_db result" where
  "record_step c store removal db =
     (if store \<notin> set required_stores then Inl StoreError
      else if \<not> pending_deletion db c then Inl StoreError
      else Inr (if (c, store) \<in> fst ` set (dd_steps db) then db
                else db\<lparr>dd_steps := dd_steps db @ [((c, store), removal)]\<rparr>))"

text \<open>
  \<open>complete_company_deletion\<close>: refuses while a store is missing; otherwise drops the tenant's schema, its
  users and marks the company deleted. The roles it drops are not part of the record.
\<close>

definition no_detail :: Removal where
  "no_detail = \<lparr>rm_detail = [], rm_retained_until = None\<rparr>"

definition complete_deletion :: "string \<Rightarrow> rat \<Rightarrow> rat \<Rightarrow> deletion_db \<Rightarrow> deletion_db result" where
  "complete_deletion c backup_retention now db =
     (if backup_retention \<le> 0 then Inl StoreError
      else if \<not> pending_deletion db c \<and> \<not> completed_deletion db c then Inl StoreError
      else if completed_deletion db c then Inr db
      else if \<not> set required_stores \<subseteq> set (recorded db c) then Inl StoreError
      else (case schema_name c of
         Inl _ \<Rightarrow> Inl StoreError
       | Inr schema \<Rightarrow>
           if od_get (dd_companies db) c \<noteq> Some schema then Inl StoreError
           else Inr (db\<lparr>dd_schemas := removeAll schema (dd_schemas db),
                        dd_users := filter (\<lambda>(u, c'). c' \<noteq> c) (dd_users db),
                        dd_steps := dd_steps db @
                          filter (\<lambda>(k, r). k \<notin> fst ` set (dd_steps db))
                            [((c, ''database''), no_detail), ((c, ''backups''), no_detail\<lparr>rm_retained_until := Some (now + backup_retention)\<rparr>)],
                        dd_deleted := dd_deleted db @ [c],
                        dd_deletions := map (\<lambda>d. if dn_company d = c then d\<lparr>dn_completed := True\<rparr> else d) (dd_deletions db)\<rparr>)))"

text \<open>The gateway's request, for a company that has none yet.\<close>

definition request_deletion :: "string \<times> rat \<Rightarrow> deletion_db \<Rightarrow> deletion_db" where
  "request_deletion r db =
     (if fst r \<in> dn_company ` set (dd_deletions db) then db
      else db\<lparr>dd_deletions := dd_deletions db @ [\<lparr>dn_company = fst r, dn_requested = snd r, dn_completed = False\<rparr>]\<rparr>)"

section \<open>The state of a run\<close>

text \<open>
  What is noted: a step was run, a step (or the hub) found its store empty of the tenant, a removal was recorded,
  the database was emptied.
\<close>

datatype job_event =
  StepRun string string | Emptied string string | Recorded string string | DatabaseEmptied string

record 'w job_state =
  js_db :: deletion_db
  js_world :: 'w
  js_calls :: nat
  js_trace :: "job_event list"

text \<open>
  An exception the code catches as \<open>Exception\<close>, or the end of the process.
\<close>

datatype job_error = Raised py_error | Died

record job_env =
  je_net :: "nat \<Rightarrow> answer"
  je_requests :: "nat \<Rightarrow> (string \<times> rat) list"
  je_hub :: "nat \<Rightarrow> (string \<times> Removal) list"
  je_now :: "nat \<Rightarrow> rat"

text \<open>A removal as the database records it, with its note.\<close>

definition put_record :: "string \<Rightarrow> string \<Rightarrow> Removal \<Rightarrow> 'w job_state \<Rightarrow> (py_error + unit) \<times> 'w job_state" where
  "put_record c store removal st =
     (case record_step c store removal (js_db st) of
        Inl e \<Rightarrow> (Inl e, st)
      | Inr db \<Rightarrow> (Inr (), st\<lparr>js_db := db, js_trace := js_trace st @ [Recorded c store]\<rparr>))"

definition put_complete :: "string \<Rightarrow> rat \<Rightarrow> rat \<Rightarrow> 'w job_state \<Rightarrow> (py_error + unit) \<times> 'w job_state" where
  "put_complete c retention now st =
     (case complete_deletion c retention now (js_db st) of
        Inl e \<Rightarrow> (Inl e, st)
      | Inr db \<Rightarrow>
          (Inr (), st\<lparr>js_db := db, js_trace := js_trace st @ (if completed_deletion (js_db st) c then [] else [DatabaseEmptied c])\<rparr>))"

definition hub_records :: "'w job_state \<Rightarrow> string \<times> Removal \<Rightarrow> 'w job_state" where
  "hub_records st r =
     snd (put_record (fst r) ''notebook_volumes'' (snd r)
       (st\<lparr>js_trace := js_trace st @ [Emptied (fst r) ''notebook_volumes'']\<rparr>))"

definition others_act :: "job_env \<Rightarrow> 'w job_state \<Rightarrow> 'w job_state" where
  "others_act env st =
     foldl hub_records
       (st\<lparr>js_db := foldl (\<lambda>db r. request_deletion r db) (js_db st) (je_requests env (js_calls st))\<rparr>)
       (je_hub env (js_calls st))"

text \<open>One call of the registry: \<open>f\<close> is what the database does.\<close>

definition db_call ::
    "job_env \<Rightarrow> ('w job_state \<Rightarrow> (py_error + 'a) \<times> 'w job_state) \<Rightarrow> 'w job_state \<Rightarrow> (job_error + 'a) \<times> 'w job_state" where
  "db_call env f st =
     (let st1 = others_act env st; st2 = st1\<lparr>js_calls := Suc (js_calls st)\<rparr>
      in case je_net env (js_calls st) of
           Answered \<Rightarrow> (case f st2 of (Inl e, st3) \<Rightarrow> (Inl (Raised e), st3) | (Inr x, st3) \<Rightarrow> (Inr x, st3))
         | Failed carried \<Rightarrow> (Inl (Raised StoreError), if carried then snd (f st2) else st2)
         | Dead carried \<Rightarrow> (Inl Died, if carried then snd (f st2) else st2))"

section \<open>The job\<close>

type_synonym 'w step = "string \<Rightarrow> string list \<Rightarrow> rat \<Rightarrow> 'w \<Rightarrow> (job_error + Removal option) \<times> 'w"

record Outcome =
  oc_completed :: "string list"
  oc_waiting :: "(string \<times> string list) list"
  oc_failed :: "string list"

text \<open>The loop of \<open>_delete\<close> over the required stores: the users are read once, before the first step.\<close>

fun delete_stores ::
    "job_env \<Rightarrow> (string \<Rightarrow> 'w step option) \<Rightarrow> string \<Rightarrow> rat \<Rightarrow> string list \<Rightarrow> string list option \<Rightarrow> string list \<Rightarrow> string list \<Rightarrow>
      'w job_state \<Rightarrow> (job_error + string list) \<times> 'w job_state" where
  "delete_stores env steps c requested removed users waiting [] st = (Inr waiting, st)"
| "delete_stores env steps c requested removed users waiting (store # stores) st =
     (if store \<in> set removed then delete_stores env steps c requested removed users waiting stores st
      else (case steps store of
         None \<Rightarrow> delete_stores env steps c requested removed users (waiting @ [store]) stores st
       | Some step \<Rightarrow>
           (case (case users of
                    Some us \<Rightarrow> (Inr us, st)
                  | None \<Rightarrow> db_call env (\<lambda>s. (Inr (deletion_user_ids (js_db s) c), s)) st) of
              (Inl e, st1) \<Rightarrow> (Inl e, st1)
            | (Inr us, st1) \<Rightarrow>
                (case step c us requested (js_world st1) of
                   (Inl e, w) \<Rightarrow> (Inl e, st1\<lparr>js_world := w, js_trace := js_trace st1 @ [StepRun c store]\<rparr>)
                 | (Inr None, w) \<Rightarrow>
                     delete_stores env steps c requested removed (Some us) (waiting @ [store]) stores
                       (st1\<lparr>js_world := w, js_trace := js_trace st1 @ [StepRun c store]\<rparr>)
                 | (Inr (Some removal), w) \<Rightarrow>
                     (case db_call env (put_record c store removal)
                        (st1\<lparr>js_world := w, js_trace := js_trace st1 @ [StepRun c store, Emptied c store]\<rparr>) of
                        (Inl e, st2) \<Rightarrow> (Inl e, st2)
                      | (Inr _, st2) \<Rightarrow> delete_stores env steps c requested removed (Some us) waiting stores st2)))))"

definition delete_tenant ::
    "job_env \<Rightarrow> (string \<Rightarrow> 'w step option) \<Rightarrow> rat \<Rightarrow> string \<times> rat \<times> string list \<Rightarrow> Outcome \<times> 'w job_state \<Rightarrow>
      (job_error + Outcome) \<times> 'w job_state" where
  "delete_tenant env steps backup_retention p acc =
     (case p of
        (c, requested, removed) \<Rightarrow>
          (case delete_stores env steps c requested removed None [] required_stores (snd acc) of
             (Inl e, st) \<Rightarrow> (Inl e, st)
           | (Inr waiting, st) \<Rightarrow>
               if waiting \<noteq> [] then (Inr ((fst acc)\<lparr>oc_waiting := od_set (oc_waiting (fst acc)) c waiting\<rparr>), st)
               else (case db_call env (put_complete c backup_retention (je_now env (js_calls st))) st of
                  (Inl e, st1) \<Rightarrow> (Inl e, st1)
                | (Inr _, st1) \<Rightarrow> (Inr ((fst acc)\<lparr>oc_completed := oc_completed (fst acc) @ [c]\<rparr>), st1))))"

fun run_pending ::
    "job_env \<Rightarrow> (string \<Rightarrow> 'w step option) \<Rightarrow> rat \<Rightarrow> (string \<times> rat \<times> string list) list \<Rightarrow> Outcome \<Rightarrow> 'w job_state \<Rightarrow>
      (job_error + Outcome) \<times> 'w job_state" where
  "run_pending env steps retention [] oc st = (Inr oc, st)"
| "run_pending env steps retention (p # ps) oc st =
     (case delete_tenant env steps retention p (oc, st) of
        (Inl Died, st1) \<Rightarrow> (Inl Died, st1)
      | (Inl (Raised e), st1) \<Rightarrow> run_pending env steps retention ps (oc\<lparr>oc_failed := oc_failed oc @ [fst p]\<rparr>) st1
      | (Inr oc1, st1) \<Rightarrow> run_pending env steps retention ps oc1 st1)"

text \<open>\<open>run\<close>: nothing while another run holds the lock.\<close>

definition run ::
    "job_env \<Rightarrow> (string \<Rightarrow> 'w step option) \<Rightarrow> rat \<Rightarrow> bool \<Rightarrow> 'w job_state \<Rightarrow> (job_error + Outcome option) \<times> 'w job_state" where
  "run env steps backup_retention held st =
     (case db_call env (\<lambda>s. (Inr held, s)) st of
        (Inl e, st1) \<Rightarrow> (Inl e, st1)
      | (Inr False, st1) \<Rightarrow> (Inr None, st1)
      | (Inr True, st1) \<Rightarrow>
          (case db_call env (\<lambda>s. (Inr required_stores, s)) st1 of
             (Inl e, st2) \<Rightarrow> (Inl e, st2)
           | (Inr _, st2) \<Rightarrow>
               (case db_call env (\<lambda>s. (Inr (pending_deletions (js_db s)), s)) st2 of
                  (Inl e, st3) \<Rightarrow> (Inl e, st3)
                | (Inr pending, st3) \<Rightarrow>
                    (case run_pending env steps backup_retention pending \<lparr>oc_completed = [], oc_waiting = [], oc_failed = []\<rparr> st3 of
                       (Inl e, st4) \<Rightarrow> (Inl e, st4)
                     | (Inr oc, st4) \<Rightarrow> (Inr (Some oc), st4)))))"

definition broker_step :: "rat \<Rightarrow> rat \<Rightarrow> 'w step" where
  "broker_step retention now c users requested w =
     (Inr (Some \<lparr>rm_detail = [(''retention_hours'', JFloat (Fin (retention / 3600)))], rm_retained_until = Some (now + retention)\<rparr>), w)"

section \<open>The hub's reclaim\<close>

text \<open>The outcome of deleting one hub user.\<close>

datatype hub_outcome = DELETED | ABSENT | BUSY

text \<open>
  The spawner backend and the hub: the deletion of a user, whether a user's volume remains, and its removal, each
  an exception or an answer.
\<close>

record 'w hub =
  hb_delete :: "string \<Rightarrow> 'w \<Rightarrow> (py_error + hub_outcome) \<times> 'w"
  hb_remains :: "string \<Rightarrow> 'w \<Rightarrow> py_error + bool"
  hb_remove :: "string \<Rightarrow> 'w \<Rightarrow> (py_error + unit) \<times> 'w"

text \<open>\<open>_delete_from_hub\<close> on the status the hub's API answers with.\<close>

definition delete_from_hub :: "int \<Rightarrow> py_error + hub_outcome" where
  "delete_from_hub status =
     (if 200 \<le> status \<and> status < 300 then Inr DELETED
      else if status = 404 then Inr ABSENT
      else if status = 400 then Inr BUSY
      else Inl RuntimeError)"

fun delete_users :: "'w hub \<Rightarrow> string list \<Rightarrow> 'w \<Rightarrow> (string, hub_outcome) od \<Rightarrow> (string, hub_outcome) od \<times> 'w" where
  "delete_users H [] w outcomes = (outcomes, w)"
| "delete_users H (u # us) w outcomes =
     (case hb_delete H u w of
        (Inl _, w1) \<Rightarrow> delete_users H us w1 (od_set outcomes u BUSY)
      | (Inr x, w1) \<Rightarrow> delete_users H us w1 (od_set outcomes u x))"

definition remaining_volumes :: "'w hub \<Rightarrow> 'w \<Rightarrow> string list \<Rightarrow> string list" where
  "remaining_volumes H w us = filter (\<lambda>u. hb_remains H u w \<noteq> Inr False) us"

definition remove_volumes :: "'w hub \<Rightarrow> string list \<Rightarrow> 'w \<Rightarrow> 'w" where
  "remove_volumes H us w = foldl (\<lambda>w u. snd (hb_remove H u w)) w us"

text \<open>One tenant of \<open>reclaim_once\<close>: the removal to record, if there is one.\<close>

definition reclaim_tenant :: "'w hub \<Rightarrow> string list \<Rightarrow> 'w \<Rightarrow> Removal option \<times> 'w" where
  "reclaim_tenant H us w =
     (case delete_users H us w [] of
        (outcomes, w1) \<Rightarrow>
          if BUSY \<in> snd ` set outcomes then (None, w1)
          else (let left = remaining_volumes H w1 (map fst outcomes); w2 = remove_volumes H left w1;
                    still = remaining_volumes H w2 left
                in if still \<noteq> [] then (None, w2)
                   else (Some \<lparr>rm_detail =
                       [(''hub_users_deleted'', JInt (int (length (filter (\<lambda>(u, x). x = DELETED) outcomes)))),
                        (''users_never_in_hub'', JInt (int (length (filter (\<lambda>(u, x). x = ABSENT) outcomes)))),
                        (''volumes_removed_after_the_hub'', JInt (int (length left)))],
                     rm_retained_until = None\<rparr>, w2)))"

text \<open>\<open>reclaim_once\<close>: \<open>record\<close> raises when the database does not take it, which ends the pass.\<close>

fun reclaim_once ::
    "'w hub \<Rightarrow> (string \<Rightarrow> Removal \<Rightarrow> py_error + unit) \<Rightarrow> (string \<times> string list) list \<Rightarrow> 'w \<Rightarrow> (string \<times> Removal) list \<Rightarrow>
      (py_error + (string \<times> Removal) list) \<times> 'w" where
  "reclaim_once H rec [] w done_so_far = (Inr done_so_far, w)"
| "reclaim_once H rec ((c, us) # pending) w done_so_far =
     (case reclaim_tenant H us w of
        (None, w1) \<Rightarrow> reclaim_once H rec pending w1 done_so_far
      | (Some removal, w1) \<Rightarrow>
          (case rec c removal of
             Inl e \<Rightarrow> (Inl e, w1)
           | Inr _ \<Rightarrow> reclaim_once H rec pending w1 (od_set done_so_far c removal)))"

end
