(* ===== verification/Deletion_Order.thy ===== *)
theory Deletion_Order
  imports Deletion_Job "HOL-Library.Multiset"
begin

text \<open>
  What the deletion of a tenant guarantees about order, by an invariant of the deletion record and of the
  trace of a state, over any runs of the job with any failures; and what a reclaim that is recorded has
  found of the volumes.
\<close>

section \<open>The order of a deletion\<close>

abbreviation hub_store :: string where "hub_store \<equiv> ''notebook_volumes''"

definition database_last :: "job_event list \<Rightarrow> bool" where
  "database_last tr \<longleftrightarrow>
     (\<forall>pre c post. tr = pre @ DatabaseEmptied c # post \<longrightarrow> (\<forall>store \<in> set required_stores. Emptied c store \<in> set pre))"

definition never_repeated :: "job_event list \<Rightarrow> bool" where
  "never_repeated tr \<longleftrightarrow>
     (\<forall>pre c store post. tr = pre @ StepRun c store # post \<longrightarrow> Recorded c store \<notin> set pre \<or> store = hub_store)"

lemma snoc_split:
  "tr @ [e] = pre @ x # post \<longleftrightarrow> (post = [] \<and> pre = tr \<and> x = e) \<or> (\<exists>post'. post = post' @ [e] \<and> tr = pre @ x # post')"
  by (cases post rule: rev_cases) auto

lemma database_last_snoc:
  "database_last (tr @ [e]) \<longleftrightarrow>
     database_last tr \<and> (\<forall>c. e = DatabaseEmptied c \<longrightarrow> (\<forall>store \<in> set required_stores. Emptied c store \<in> set tr))"
  unfolding database_last_def snoc_split by blast

lemma never_repeated_snoc:
  "never_repeated (tr @ [e]) \<longleftrightarrow>
     never_repeated tr \<and> (\<forall>c store. e = StepRun c store \<longrightarrow> Recorded c store \<notin> set tr \<or> store = hub_store)"
  unfolding never_repeated_def snoc_split by blast

definition job_inv :: "'w job_state \<Rightarrow> bool" where
  "job_inv st \<longleftrightarrow>
     database_last (js_trace st) \<and> never_repeated (js_trace st) \<and> distinct (map dn_company (dd_deletions (js_db st))) \<and>
     (\<forall>c. \<forall>store \<in> set required_stores. store \<in> set (recorded (js_db st) c) \<longrightarrow> Emptied c store \<in> set (js_trace st)) \<and>
     (\<forall>c store. Recorded c store \<in> set (js_trace st) \<longrightarrow> store \<in> set (recorded (js_db st) c)) \<and>
     (\<forall>c. completed_deletion (js_db st) c \<longrightarrow> set required_stores \<subseteq> set (recorded (js_db st) c))"

text \<open>What a step of the system may note: new records of a tenant only for the named stores.\<close>

definition notes_only :: "string \<Rightarrow> string set \<Rightarrow> 'w job_state \<Rightarrow> 'w job_state \<Rightarrow> bool" where
  "notes_only c A st st' \<longleftrightarrow>
     (\<forall>store. Recorded c store \<in> set (js_trace st') \<longrightarrow> Recorded c store \<in> set (js_trace st) \<or> store \<in> A)"

definition keeps :: "'w job_state \<Rightarrow> 'w job_state \<Rightarrow> bool" where
  "keeps st st' \<longleftrightarrow> set (js_trace st) \<subseteq> set (js_trace st')"

lemma notes_only_refl [simp]: "notes_only c A st st"
  by (simp add: notes_only_def)

lemma notes_only_trans: "notes_only c A st st1 \<Longrightarrow> notes_only c B st1 st2 \<Longrightarrow> notes_only c (A \<union> B) st st2"
  by (auto simp: notes_only_def)

lemma notes_only_mono: "notes_only c A st st1 \<Longrightarrow> A \<subseteq> B \<Longrightarrow> notes_only c B st st1"
  by (auto simp: notes_only_def)

lemma recorded_iff: "store \<in> set (recorded db c) \<longleftrightarrow> (c, store) \<in> fst ` set (dd_steps db)"
  by (force simp: recorded_def)

lemma record_step_Inr:
  assumes "record_step c store removal db = Inr db'"
  shows "store \<in> set required_stores" "dd_deletions db' = dd_deletions db"
    "set (recorded db' c') = set (recorded db c') \<union> (if c' = c then {store} else {})"
proof -
  show "store \<in> set required_stores" "dd_deletions db' = dd_deletions db"
    using assms by (auto simp: record_step_def split: if_splits)
  show "set (recorded db' c') = set (recorded db c') \<union> (if c' = c then {store} else {})"
    using assms unfolding set_eq_iff by (auto simp: record_step_def recorded_iff split: if_splits)
qed

lemma put_record_inv:
  assumes "job_inv st" "Emptied c store \<in> set (js_trace st)"
  shows "job_inv (snd (put_record c store removal st)) \<and> keeps st (snd (put_record c store removal st)) \<and>
    notes_only c' (if c' = c then {store} else {}) st (snd (put_record c store removal st))"
proof (cases "record_step c store removal (js_db st)")
  case (Inl e)
  then show ?thesis using assms(1) by (simp add: put_record_def keeps_def)
next
  case (Inr db)
  note r = record_step_Inr [OF Inr]
  define tr where "tr = js_trace st"
  have i: "database_last tr" "never_repeated tr" "distinct (map dn_company (dd_deletions (js_db st)))"
      "\<And>c store. store \<in> set required_stores \<Longrightarrow> store \<in> set (recorded (js_db st) c) \<Longrightarrow> Emptied c store \<in> set tr"
      "\<And>c store. Recorded c store \<in> set tr \<Longrightarrow> store \<in> set (recorded (js_db st) c)"
      "\<And>c. completed_deletion (js_db st) c \<Longrightarrow> set required_stores \<subseteq> set (recorded (js_db st) c)"
    using assms(1) unfolding job_inv_def tr_def by blast+
  have s: "snd (put_record c store removal st) = st\<lparr>js_db := db, js_trace := tr @ [Recorded c store]\<rparr>"
    using Inr by (simp add: put_record_def tr_def)
  have "database_last (tr @ [Recorded c store])" "never_repeated (tr @ [Recorded c store])"
    using i(1,2) by (simp_all add: database_last_snoc never_repeated_snoc)
  moreover have "Emptied d x \<in> set (tr @ [Recorded c store])" if "x \<in> set required_stores" "x \<in> set (recorded db d)" for d x
    using that r(3) [of d] i(4) assms(2) tr_def by (auto split: if_splits)
  moreover have "x \<in> set (recorded db d)" if "Recorded d x \<in> set (tr @ [Recorded c store])" for d x
    using that r(3) [of d] i(5) by auto
  moreover have "set required_stores \<subseteq> set (recorded db d)" if "completed_deletion db d" for d
    using that r(2) r(3) [of d] i(6) [of d] by (auto simp: completed_deletion_def)
  ultimately have "job_inv (snd (put_record c store removal st))"
    unfolding s job_inv_def using i(3) r(2) by simp
  then show ?thesis unfolding s by (auto simp: keeps_def notes_only_def tr_def)
qed

lemma job_inv_note:
  assumes "job_inv st" "e = Emptied c store \<or> (e = StepRun c store \<and> (Recorded c store \<notin> set (js_trace st) \<or> store = hub_store))"
  shows "job_inv (st\<lparr>js_trace := js_trace st @ [e]\<rparr>)"
  using assms by (auto simp: job_inv_def database_last_snoc never_repeated_snoc)

lemma hub_records_inv:
  assumes "job_inv st"
  shows "job_inv (hub_records st r) \<and> keeps st (hub_records st r) \<and> notes_only c {hub_store} st (hub_records st r)"
proof -
  let ?st = "st\<lparr>js_trace := js_trace st @ [Emptied (fst r) hub_store]\<rparr>"
  have i: "job_inv ?st" using job_inv_note [OF assms] by blast
  have e: "Emptied (fst r) hub_store \<in> set (js_trace ?st)" by simp
  have "keeps st ?st" "notes_only c {} st ?st" by (auto simp: keeps_def notes_only_def)
  with put_record_inv [OF i e, where removal = "snd r" and c' = c] show ?thesis
    unfolding hub_records_def
    by (auto simp: keeps_def notes_only_def split: if_splits)
qed

lemma foldl_hub_records:
  assumes "job_inv st"
  shows "job_inv (foldl hub_records st rs) \<and> keeps st (foldl hub_records st rs) \<and> notes_only c {hub_store} st (foldl hub_records st rs)"
  using assms
proof (induction rs arbitrary: st)
  case Nil
  then show ?case by (simp add: keeps_def)
next
  case (Cons r rs)
  have h: "job_inv (hub_records st r)" "keeps st (hub_records st r)" "notes_only c {hub_store} st (hub_records st r)"
    using hub_records_inv [OF Cons.prems] by blast+
  from Cons.IH [OF h(1)] h(2,3) show ?case by (auto simp: keeps_def notes_only_def)
qed

lemma request_deletion_same:
  "distinct (map dn_company (dd_deletions db)) \<Longrightarrow> distinct (map dn_company (dd_deletions (request_deletion r db)))"
  "dd_steps (request_deletion r db) = dd_steps db"
  by (auto simp: request_deletion_def)

lemma requests_same:
  "distinct (map dn_company (dd_deletions db)) \<Longrightarrow> distinct (map dn_company (dd_deletions (foldl (\<lambda>db r. request_deletion r db) db rs)))"
  "dd_steps (foldl (\<lambda>db r. request_deletion r db) db rs) = dd_steps db"
  by (induction rs arbitrary: db) (simp_all add: request_deletion_same)

lemma requests_completed:
  "completed_deletion (foldl (\<lambda>db r. request_deletion r db) db rs) c \<Longrightarrow> completed_deletion db c"
proof (induction rs arbitrary: db)
  case (Cons r rs)
  then have "completed_deletion (request_deletion r db) c" by simp
  then show ?case by (auto simp: completed_deletion_def request_deletion_def split: if_splits)
qed simp

lemma others_act_inv:
  assumes "job_inv st"
  shows "job_inv (others_act env st) \<and> keeps st (others_act env st) \<and> notes_only c {hub_store} st (others_act env st)"
proof -
  let ?st = "st\<lparr>js_db := foldl (\<lambda>db r. request_deletion r db) (js_db st) (je_requests env (js_calls st))\<rparr>"
  have "completed_deletion (js_db ?st) c \<Longrightarrow> completed_deletion (js_db st) c" for c
    using requests_completed by simp
  then have "job_inv ?st" using assms by (auto simp: job_inv_def recorded_def requests_same)
  from foldl_hub_records [OF this, of "je_hub env (js_calls st)" c] show ?thesis
    unfolding others_act_def by (simp add: keeps_def notes_only_def)
qed

text \<open>A call of the registry keeps the invariant when what the database does keeps it.\<close>

lemma db_call_inv:
  assumes "job_inv st"
    and f: "\<And>s. job_inv s \<Longrightarrow> keeps st s \<Longrightarrow>
      job_inv (snd (f s)) \<and> keeps s (snd (f s)) \<and> (\<forall>c. notes_only c (A c) s (snd (f s)))"
  shows "job_inv (snd (db_call env f st)) \<and> keeps st (snd (db_call env f st)) \<and>
    (\<forall>c. notes_only c (insert hub_store (A c)) st (snd (db_call env f st)))"
proof -
  let ?s = "(others_act env st)\<lparr>js_calls := Suc (js_calls st)\<rparr>"
  have o: "job_inv ?s" "keeps st ?s" "notes_only c {hub_store} st ?s" for c
    using others_act_inv [OF assms(1), of env] by (auto simp: job_inv_def keeps_def notes_only_def)
  have f': "job_inv (snd (f ?s))" "keeps ?s (snd (f ?s))" "notes_only c (A c) ?s (snd (f ?s))" for c
    using f [OF o(1,2)] by blast+
  have "snd (db_call env f st) = ?s \<or> snd (db_call env f st) = snd (f ?s)"
    by (auto simp: db_call_def Let_def split: answer.splits prod.splits sum.splits)
  then show ?thesis
  proof
    assume "snd (db_call env f st) = ?s"
    with o show ?thesis by (auto simp: keeps_def notes_only_def)
  next
    assume s: "snd (db_call env f st) = snd (f ?s)"
    have "notes_only c (insert hub_store (A c)) st (snd (f ?s))" for c
      using notes_only_trans [OF o(3) [of c] f'(3) [of c]] by simp
    with s o(2) f' show ?thesis by (auto simp: keeps_def)
  qed
qed

lemma db_call_read:
  assumes "job_inv st"
  shows "job_inv (snd (db_call env (\<lambda>s. (g s, s)) st)) \<and> keeps st (snd (db_call env (\<lambda>s. (g s, s)) st)) \<and>
    (\<forall>c. notes_only c {hub_store} st (snd (db_call env (\<lambda>s. (g s, s)) st)))"
  using db_call_inv [OF assms, of "\<lambda>s. (g s, s)" "\<lambda>_. {}" env] by (simp add: keeps_def)

lemma complete_Inr:
  assumes "complete_deletion c retention now db = Inr db'" "\<not> completed_deletion db c"
  shows "set required_stores \<subseteq> set (recorded db c)"
    and "map dn_company (dd_deletions db') = map dn_company (dd_deletions db)"
    and "\<And>d store. store \<in> set required_stores \<Longrightarrow> store \<in> set (recorded db' d) \<longleftrightarrow> store \<in> set (recorded db d)"
    and "\<And>d. set (recorded db d) \<subseteq> set (recorded db' d)"
    and "\<And>d. completed_deletion db' d \<Longrightarrow> d = c \<or> completed_deletion db d"
proof -
  obtain schema where s: "schema_name c = Inr schema" "set required_stores \<subseteq> set (recorded db c)"
      "db' = db\<lparr>dd_schemas := removeAll schema (dd_schemas db), dd_users := filter (\<lambda>(u, c'). c' \<noteq> c) (dd_users db),
        dd_steps := dd_steps db @ filter (\<lambda>(k, r). k \<notin> fst ` set (dd_steps db))
          [((c, ''database''), no_detail), ((c, ''backups''), no_detail\<lparr>rm_retained_until := Some (now + retention)\<rparr>)],
        dd_deleted := dd_deleted db @ [c],
        dd_deletions := map (\<lambda>d. if dn_company d = c then d\<lparr>dn_completed := True\<rparr> else d) (dd_deletions db)\<rparr>"
    using assms unfolding complete_deletion_def by (cases "schema_name c") (simp_all split: if_splits)
  show "set required_stores \<subseteq> set (recorded db c)" by (rule s(2))
  show "map dn_company (dd_deletions db') = map dn_company (dd_deletions db)" by (simp add: s(3))
  define new where "new = filter (\<lambda>(k, r). k \<notin> fst ` set (dd_steps db))
      [((c, ''database''), no_detail), ((c, ''backups''), no_detail\<lparr>rm_retained_until := Some (now + retention)\<rparr>)]"
  have steps: "dd_steps db' = dd_steps db @ new" by (simp add: s(3) new_def)
  have "set new \<subseteq> {((c, ''database''), no_detail), ((c, ''backups''), no_detail\<lparr>rm_retained_until := Some (now + retention)\<rparr>)}"
    unfolding new_def by (rule order_trans [OF filter_is_subset]) simp
  then have "snd k = ''database'' \<or> snd k = ''backups''" if "k \<in> fst ` set new" for k
    using that by auto
  moreover have "''database'' \<notin> set required_stores" "''backups'' \<notin> set required_stores" by (simp_all add: required_stores_def)
  ultimately have fresh: "(d, store) \<notin> fst ` set new" if "store \<in> set required_stores" for d store
    using that by fastforce
  show "store \<in> set (recorded db' d) \<longleftrightarrow> store \<in> set (recorded db d)" if "store \<in> set required_stores" for d store
    unfolding recorded_iff steps set_append image_Un using fresh [OF that] by blast
  show "set (recorded db d) \<subseteq> set (recorded db' d)" for d
    unfolding subset_iff recorded_iff steps set_append image_Un by blast
  show "d = c \<or> completed_deletion db d" if "completed_deletion db' d" for d
    using that by (auto simp: completed_deletion_def s(3) split: if_splits)
qed

lemma put_complete_inv:
  assumes "job_inv st"
  shows "job_inv (snd (put_complete c retention now st)) \<and> keeps st (snd (put_complete c retention now st)) \<and>
    notes_only d {} st (snd (put_complete c retention now st))"
proof (cases "complete_deletion c retention now (js_db st)")
  case (Inl e)
  then show ?thesis using assms by (simp add: put_complete_def keeps_def)
next
  case (Inr db)
  show ?thesis
  proof (cases "completed_deletion (js_db st) c")
    case True
    then have "db = js_db st" using Inr by (auto simp: complete_deletion_def split: if_splits)
    then show ?thesis using assms Inr True by (simp add: put_complete_def keeps_def)
  next
    case False
    note r = complete_Inr [OF Inr False]
    define tr where "tr = js_trace st"
    have i: "database_last tr" "never_repeated tr" "distinct (map dn_company (dd_deletions (js_db st)))"
        "\<And>c store. store \<in> set required_stores \<Longrightarrow> store \<in> set (recorded (js_db st) c) \<Longrightarrow> Emptied c store \<in> set tr"
        "\<And>c store. Recorded c store \<in> set tr \<Longrightarrow> store \<in> set (recorded (js_db st) c)"
        "\<And>c. completed_deletion (js_db st) c \<Longrightarrow> set required_stores \<subseteq> set (recorded (js_db st) c)"
      using assms(1) unfolding job_inv_def tr_def by blast+
    have s: "snd (put_complete c retention now st) = st\<lparr>js_db := db, js_trace := tr @ [DatabaseEmptied c]\<rparr>"
      using Inr False by (simp add: put_complete_def tr_def)
    have "database_last (tr @ [DatabaseEmptied c])" "never_repeated (tr @ [DatabaseEmptied c])"
      using i(1,2,4) r(1) by (auto simp: database_last_snoc never_repeated_snoc)
    moreover have "Emptied e x \<in> set (tr @ [DatabaseEmptied c])" if "x \<in> set required_stores" "x \<in> set (recorded db e)" for e x
      using that i(4) r(3) by auto
    moreover have "x \<in> set (recorded db e)" if "Recorded e x \<in> set (tr @ [DatabaseEmptied c])" for e x
      using that i(5) r(4) by auto
    moreover have "set required_stores \<subseteq> set (recorded db e)" if "completed_deletion db e" for e
      using r(5) [OF that] r(1) i(6) [of e] r(4) [of e] by blast
    ultimately have "job_inv (snd (put_complete c retention now st))"
      unfolding s job_inv_def using i(3) r(2) by simp
    then show ?thesis unfolding s by (auto simp: keeps_def notes_only_def tr_def)
  qed
qed

lemma read_users_inv:
  assumes "job_inv st" "(case users of Some us \<Rightarrow> (Inr us, st) | None \<Rightarrow> db_call env (\<lambda>s. (Inr (deletion_user_ids (js_db s) c), s)) st) = (r, st1)"
  shows "job_inv st1 \<and> keeps st st1 \<and> (\<forall>d. notes_only d {hub_store} st st1)"
proof (cases users)
  case None
  then show ?thesis using db_call_read [OF assms(1), of env "\<lambda>s. Inr (deletion_user_ids (js_db s) c)"] assms(2) by simp
next
  case (Some us)
  then show ?thesis using assms by (auto simp: keeps_def)
qed

lemma record_call_inv:
  assumes "job_inv st" "Emptied c store \<in> set (js_trace st)" "db_call env (put_record c store removal) st = (r, st')"
  shows "job_inv st' \<and> (\<forall>d. notes_only d (insert hub_store (if d = c then {store} else {})) st st')"
proof -
  have "job_inv (snd (put_record c store removal s)) \<and> keeps s (snd (put_record c store removal s)) \<and>
      (\<forall>d. notes_only d (if d = c then {store} else {}) s (snd (put_record c store removal s)))"
    if "job_inv s" "keeps st s" for s
  proof -
    have "Emptied c store \<in> set (js_trace s)" using assms(2) that(2) by (auto simp: keeps_def)
    from put_record_inv [OF that(1) this, of removal] show ?thesis by blast
  qed
  from db_call_inv [OF assms(1) this, of env] assms(3) show ?thesis by simp
qed

lemma delete_stores_inv:
  assumes "job_inv st" "distinct stores"
    and "\<forall>store \<in> set stores. Recorded c store \<in> set (js_trace st) \<longrightarrow> store \<in> set removed \<or> store = hub_store"
    and "delete_stores env steps c requested removed users waiting stores st = (r, st')"
  shows "job_inv st' \<and> (\<forall>d. d \<noteq> c \<longrightarrow> notes_only d {hub_store} st st')"
  using assms
proof (induction stores arbitrary: users waiting st)
  case Nil
  then show ?case by simp
next
  case (Cons store stores)
  note fresh = Cons.prems(3)
  show ?case
  proof (cases "store \<in> set removed \<or> steps store = None")
    case True
    then obtain waiting' where "delete_stores env steps c requested removed users waiting' stores st = (r, st')"
      using Cons.prems(4) by (auto split: if_splits)
    then show ?thesis using Cons.IH [of st] Cons.prems by simp
  next
    case False
    then obtain step where step: "steps store = Some step" "store \<notin> set removed" by blast
    obtain u st1 where u: "(case users of Some us \<Rightarrow> (Inr us, st) | None \<Rightarrow> db_call env (\<lambda>s. (Inr (deletion_user_ids (js_db s) c), s)) st) = (u, st1)"
      by (meson surj_pair)
    have st1: "job_inv st1" "keeps st st1" "\<And>d. notes_only d {hub_store} st st1"
      using read_users_inv [OF Cons.prems(1) u] by blast+
    show ?thesis
    proof (cases u)
      case (Inl e)
      then have "st' = st1" using Cons.prems(4) step u by simp
      then show ?thesis using st1 by blast
    next
      case (Inr us)
      obtain x w where w: "step c us requested (js_world st1) = (x, w)" by force
      define st2 where "st2 = st1\<lparr>js_world := w, js_trace := js_trace st1 @ [StepRun c store]\<rparr>"
      have "Recorded c store \<notin> set (js_trace st1) \<or> store = hub_store"
        using st1(3) [of c] fresh step(2) by (auto simp: notes_only_def)
      then have "job_inv (st1\<lparr>js_trace := js_trace st1 @ [StepRun c store]\<rparr>)" using job_inv_note [OF st1(1)] by blast
      then have st2: "job_inv st2" "\<And>d. notes_only d {hub_store} st st2"
        using st1(3) by (auto simp: job_inv_def st2_def notes_only_def)
      have still: "\<forall>x \<in> set stores. Recorded c x \<in> set (js_trace s) \<longrightarrow> x \<in> set removed \<or> x = hub_store"
        if "notes_only c {hub_store, store} st s" for s
        using that fresh Cons.prems(2) by (fastforce simp: notes_only_def)
      consider e where "x = Inl e" | "x = Inr None" | removal where "x = Inr (Some removal)"
        by (metis option.exhaust sum.exhaust)
      then show ?thesis
      proof cases
        case 1
        then have "st' = st2" using Cons.prems(4) step u Inr w by (simp add: st2_def)
        then show ?thesis using st2 by blast
      next
        case 2
        then have "delete_stores env steps c requested removed (Some us) (waiting @ [store]) stores st2 = (r, st')"
          using Cons.prems(4) step u Inr w by (simp add: st2_def)
        from Cons.IH [OF st2(1) _ still this] st2(2) Cons.prems(2) notes_only_mono [OF st2(2)]
        have "job_inv st' \<and> (\<forall>d. d \<noteq> c \<longrightarrow> notes_only d {hub_store} st2 st')" by auto
        then show ?thesis using notes_only_trans [OF st2(2)] by fastforce
      next
        case 3
        define st3 where "st3 = st1\<lparr>js_world := w, js_trace := js_trace st1 @ [StepRun c store, Emptied c store]\<rparr>"
        have "st3 = st2\<lparr>js_trace := js_trace st2 @ [Emptied c store]\<rparr>" by (simp add: st3_def st2_def)
        then have st3: "job_inv st3" "Emptied c store \<in> set (js_trace st3)" "\<And>d. notes_only d {hub_store} st st3"
          using job_inv_note [OF st2(1)] st2(2) by (auto simp: notes_only_def)
        obtain v st4 where v: "db_call env (put_record c store removal) st3 = (v, st4)" by force
        have st4: "job_inv st4" "\<And>d. notes_only d (insert hub_store (if d = c then {store} else {})) st3 st4"
          using record_call_inv [OF st3(1,2) v] by blast+
        have c4: "notes_only c {hub_store, store} st st4" using notes_only_trans [OF st3(3) st4(2), of c] by (simp add: insert_commute)
        have d4: "notes_only d {hub_store} st st4" if "d \<noteq> c" for d
          using notes_only_trans [OF st3(3) st4(2), of d] that by simp
        show ?thesis
        proof (cases v)
          case (Inl e)
          then have "st' = st4" using Cons.prems(4) step u \<open>u = Inr us\<close> w 3 v by (simp add: st3_def)
          then show ?thesis using st4(1) d4 by blast
        next
          case (Inr _)
          then have "delete_stores env steps c requested removed (Some us) waiting stores st4 = (r, st')"
            using Cons.prems(4) step u \<open>u = Inr us\<close> w 3 v by (simp add: st3_def)
          from Cons.IH [OF st4(1) _ still [OF c4] this] Cons.prems(2)
          have "job_inv st' \<and> (\<forall>d. d \<noteq> c \<longrightarrow> notes_only d {hub_store} st4 st')" by simp
          then show ?thesis using notes_only_trans [OF d4] by fastforce
        qed
      qed
    qed
  qed
qed

lemma required_distinct: "distinct required_stores"
  by (simp add: required_stores_def)

lemma delete_tenant_inv:
  assumes "job_inv st" "\<forall>store. Recorded c store \<in> set (js_trace st) \<longrightarrow> store \<in> set removed \<or> store = hub_store"
    and "delete_tenant env steps retention (c, requested, removed) (oc, st) = (r, st')"
  shows "job_inv st' \<and> (\<forall>d. d \<noteq> c \<longrightarrow> notes_only d {hub_store} st st')"
proof -
  obtain x st1 where x: "delete_stores env steps c requested removed None [] required_stores st = (x, st1)" by force
  have fresh: "\<forall>store \<in> set required_stores. Recorded c store \<in> set (js_trace st) \<longrightarrow> store \<in> set removed \<or> store = hub_store"
    using assms(2) by blast
  have st1: "job_inv st1" "\<And>d. d \<noteq> c \<Longrightarrow> notes_only d {hub_store} st st1"
    using delete_stores_inv [OF assms(1) required_distinct fresh x] by blast+
  show ?thesis
  proof (cases "(\<exists>e. x = Inl e) \<or> (\<exists>w. x = Inr w \<and> w \<noteq> [])")
    case True
    then have "st' = st1" using assms(3) x by (auto simp: delete_tenant_def)
    then show ?thesis using st1 by blast
  next
    case False
    then have "x = Inr []" by (cases x) auto
    moreover obtain y st2 where y: "db_call env (put_complete c retention (je_now env (js_calls st1))) st1 = (y, st2)" by force
    ultimately have "st' = st2" using assms(3) x by (auto simp: delete_tenant_def split: sum.splits)
    moreover have "job_inv st2 \<and> (\<forall>d. notes_only d {hub_store} st1 st2)"
      using db_call_inv [OF st1(1), where f = "put_complete c retention (je_now env (js_calls st1))" and A = "\<lambda>_. {}" and env = env]
        put_complete_inv y by fastforce
    ultimately show ?thesis using notes_only_trans [OF st1(2)] by fastforce
  qed
qed

lemma run_pending_inv:
  assumes "job_inv st" "distinct (map fst ps)"
    and "\<forall>(c, requested, removed) \<in> set ps. \<forall>store. Recorded c store \<in> set (js_trace st) \<longrightarrow> store \<in> set removed \<or> store = hub_store"
  shows "job_inv (snd (run_pending env steps retention ps oc st))"
  using assms
proof (induction ps arbitrary: oc st)
  case (Cons p ps)
  obtain c requested removed where p: "p = (c, requested, removed)" using prod_cases3 by blast
  obtain r st1 where r: "delete_tenant env steps retention (c, requested, removed) (oc, st) = (r, st1)" by force
  have "\<forall>store. Recorded c store \<in> set (js_trace st) \<longrightarrow> store \<in> set removed \<or> store = hub_store"
    using Cons.prems(3) by (auto simp: p)
  from delete_tenant_inv [OF Cons.prems(1) this r]
  have st1: "job_inv st1" "\<And>d. d \<noteq> c \<Longrightarrow> notes_only d {hub_store} st st1" by blast+
  have "\<forall>(c, requested, removed) \<in> set ps. \<forall>store. Recorded c store \<in> set (js_trace st1) \<longrightarrow> store \<in> set removed \<or> store = hub_store"
  proof (clarify)
    fix d q rem store
    assume d: "(d, q, rem) \<in> set ps" "Recorded d store \<in> set (js_trace st1)" "store \<noteq> hub_store"
    have "d \<noteq> c" using Cons.prems(2) d(1) by (force simp: p)
    then have "Recorded d store \<in> set (js_trace st)" using st1(2) d by (auto simp: notes_only_def)
    then show "store \<in> set rem" using Cons.prems(3) d by auto
  qed
  then have IH: "job_inv (snd (run_pending env steps retention ps oc' st1))" for oc'
    using Cons.IH [OF st1(1)] Cons.prems(2) by simp
  show ?case using r IH st1(1) by (auto simp: p split: sum.splits job_error.splits)
qed simp

lemma run_inv:
  assumes "job_inv st"
  shows "job_inv (snd (run env steps retention held st))"
proof -
  obtain a st1 where a: "db_call env (\<lambda>s. (Inr held, s)) st = (a, st1)" by force
  have st1: "job_inv st1" using db_call_read [OF assms, of env "\<lambda>_. Inr held"] a by simp
  obtain b st2 where b: "db_call env (\<lambda>s. (Inr required_stores, s)) st1 = (b, st2)" by force
  have st2: "job_inv st2" using db_call_read [OF st1, of env "\<lambda>_. Inr required_stores"] b by simp
  obtain p st3 where p: "db_call env (\<lambda>s. (Inr (pending_deletions (js_db s)), s)) st2 = (p, st3)" by force
  have st3: "job_inv st3" using db_call_read [OF st2, of env "\<lambda>s. Inr (pending_deletions (js_db s))"] p by simp
  show ?thesis
  proof (cases "(\<exists>e. a = Inl e) \<or> a = Inr False \<or> (\<exists>e. b = Inl e) \<or> (\<exists>e. p = Inl e)")
    case True
    then have "snd (run env steps retention held st) \<in> {st1, st2, st3}" using a b p by (auto simp: run_def split: sum.splits bool.splits)
    then show ?thesis using st1 st2 st3 by auto
  next
    case False
    then obtain pending b' where ok: "a = Inr True" "b = Inr b'" "p = Inr pending" by (cases a; cases b; cases p) auto
    have pend: "pending = pending_deletions (js_db st3)"
      using p ok(3) by (auto simp: db_call_def Let_def split: answer.splits)
    define ds where "ds = sort_key dn_requested (filter (\<lambda>d. \<not> dn_completed d) (dd_deletions (js_db st3)))"
    have "distinct (map dn_company ds)"
    proof -
      have "mset ds = mset (filter (\<lambda>d. \<not> dn_completed d) (dd_deletions (js_db st3)))" by (simp add: ds_def)
      then have "mset (map dn_company ds) = mset (map dn_company (filter (\<lambda>d. \<not> dn_completed d) (dd_deletions (js_db st3))))" by simp
      moreover have "distinct (map dn_company (filter (\<lambda>d. \<not> dn_completed d) (dd_deletions (js_db st3))))"
        using st3 by (simp add: job_inv_def distinct_map_filter)
      ultimately show ?thesis using mset_eq_imp_distinct_iff by blast
    qed
    then have "distinct (map fst pending)" by (simp add: pend pending_deletions_def ds_def comp_def)
    moreover have "\<forall>(c, requested, removed) \<in> set pending. \<forall>store. Recorded c store \<in> set (js_trace st3) \<longrightarrow> store \<in> set removed \<or> store = hub_store"
      using st3 by (auto simp: pend pending_deletions_def job_inv_def)
    ultimately have "job_inv (snd (run_pending env steps retention pending oc st3))" for oc by (rule run_pending_inv [OF st3])
    then show ?thesis using a b p ok by (simp add: run_def split: sum.splits prod.splits) (metis snd_conv)
  qed
qed

text \<open>
  The life of the record: runs of the job one after another (the lock keeps them apart), each with its own
  steps and failures, and the stores changing in between.
\<close>

inductive deletion_reach :: "'w job_state \<Rightarrow> bool" where
  start: "dd_deletions db = [] \<Longrightarrow> dd_steps db = [] \<Longrightarrow>
    deletion_reach \<lparr>js_db = db, js_world = w, js_calls = 0, js_trace = []\<rparr>"
| run: "deletion_reach st \<Longrightarrow> deletion_reach (snd (run env steps retention held st))"
| change: "deletion_reach st \<Longrightarrow> deletion_reach (st\<lparr>js_world := w, js_calls := 0\<rparr>)"

lemma deletion_reach_inv: "deletion_reach st \<Longrightarrow> job_inv st"
proof (induction rule: deletion_reach.induct)
  case (start db w)
  then show ?case by (simp add: job_inv_def database_last_def never_repeated_def recorded_def completed_deletion_def)
next
  case (run st env steps retention held)
  show ?case by (rule run_inv [OF run.IH])
next
  case (change st w)
  then show ?case by (simp add: job_inv_def)
qed


section \<open>The volumes a reclaim records\<close>

lemma delete_users_keys: "fst ` set (fst (delete_users H us w acc)) = fst ` set acc \<union> set us"
proof (induction us arbitrary: w acc)
  case (Cons u us)
  show ?case by (cases "hb_delete H u w"; cases "fst (hb_delete H u w)") (simp_all add: Cons.IH keys_od_set)
qed simp

lemma remove_volumes_keeps:
  assumes "\<And>u v w. hb_remains H u w = Inr False \<Longrightarrow> hb_remains H u (snd (hb_remove H v w)) = Inr False"
    and "hb_remains H u w = Inr False"
  shows "hb_remains H u (remove_volumes H vs w) = Inr False"
  using assms(2) unfolding remove_volumes_def by (induction vs arbitrary: w) (simp_all add: assms(1))

lemma reclaim_tenant_empties:
  assumes "\<And>u v w. hb_remains H u w = Inr False \<Longrightarrow> hb_remains H u (snd (hb_remove H v w)) = Inr False"
    and "reclaim_tenant H us w = (Some removal, w')" "u \<in> set us"
  shows "hb_remains H u w' = Inr False"
proof -
  obtain outcomes w1 where d: "delete_users H us w [] = (outcomes, w1)" by force
  define left where "left = remaining_volumes H w1 (map fst outcomes)"
  have w': "w' = remove_volumes H left w1" "remaining_volumes H w' left = []"
    using assms(2) d by (auto simp: reclaim_tenant_def Let_def left_def split: if_splits)
  have u: "u \<in> set (map fst outcomes)" using delete_users_keys [of H us w "[]"] d assms(3) by (auto simp: image_def)
  show ?thesis
  proof (cases "u \<in> set left")
    case True
    then show ?thesis using w'(2) by (auto simp: remaining_volumes_def filter_empty_conv)
  next
    case False
    then have "hb_remains H u w1 = Inr False" using u by (auto simp: left_def remaining_volumes_def)
    then show ?thesis unfolding w'(1) using remove_volumes_keeps [of H u w1 left] assms(1) by blast
  qed
qed

section \<open>A run that completes\<close>

definition demo_deletion_steps :: "string \<Rightarrow> unit step option" where
  "demo_deletion_steps store = (if store = hub_store then None else Some (\<lambda>c us req w. (Inr (Some no_detail), w)))"

definition demo_deletion_env :: job_env where
  "demo_deletion_env = \<lparr>je_net = \<lambda>_. Answered, je_requests = \<lambda>n. if n = 0 then [(uuid_str 1, 5)] else [],
     je_hub = \<lambda>n. if n = 1 then [(uuid_str 1, no_detail)] else [], je_now = \<lambda>_. 9\<rparr>"

definition demo_deletion_record :: "unit job_state" where
  "demo_deletion_record = \<lparr>js_db = \<lparr>dd_deletions = [], dd_steps = [],
     dd_companies = [(uuid_str 1, ''tenant_'' @ uscore (uuid_str 1))], dd_schemas = [], dd_users = [], dd_deleted = []\<rparr>,
     js_world = (), js_calls = 0, js_trace = []\<rparr>"

lemma demo_deletion_run:
  "completed_deletion (js_db (snd (run demo_deletion_env demo_deletion_steps 30 True demo_deletion_record))) (uuid_str 1)"
proof -
  have n: "schema_name (uuid_str 1) = Inr (''tenant_'' @ uscore (uuid_str 1))"
    by (simp add: schema_name_Inr canonical_company_id_def uuid_parse_str)
  show ?thesis
    by (simp add: run_def db_call_def demo_deletion_env_def demo_deletion_record_def others_act_def request_deletion_def hub_records_def put_record_def
        record_step_def required_stores_def pending_deletion_def pending_deletions_def recorded_def delete_tenant_def demo_deletion_steps_def
        deletion_user_ids_def put_complete_def complete_deletion_def completed_deletion_def n)
qed


end
