(* ===== verification/Tenant_Purge.thy ===== *)
theory Tenant_Purge
  imports Deletion_Job Uploads Refresh_Tokens
begin

text \<open>
  The steps of the tenant-delete job (\<open>services/tenant_delete\<close>): the capability store, the cold layer, the tracking
  store, the device certificates and the broker, and which of them a configuration offers.

  Parameters: the shared store (\<open>Redis\<close>) with the keys a scan of it yields, the object store, the answers of
  the tracking gateway, and the published files of the device CA as the X.509 library reads them.

  Shown: a purge of the capability store leaves nothing of the tenant that any plane accepts and touches nothing
  else; a purge of the cold layer that returns has removed exactly the objects under the tenant's prefix; the
  device certificates are recorded only when every unexpired one of the tenant is on a current list signed
  after the request.
\<close>

section \<open>The capability store\<close>

definition FEATURES_PREFIX :: string where "FEATURES_PREFIX = ''features:''"
definition LATEST_PREFIX :: string where "LATEST_PREFIX = ''sensor:latest:''"

definition bound_to :: "raw option \<Rightarrow> string \<Rightarrow> bool" where
  "bound_to raw company_id \<longleftrightarrow>
     (case raw of
        None \<Rightarrow> False
      | Some r \<Rightarrow>
          (case raw_object r of
             None \<Rightarrow> False
           | Some d \<Rightarrow> py_lower (py_str (jget_default d ''company_id'' (JStr []))) = company_id))"

definition names_user :: "raw option \<Rightarrow> string list \<Rightarrow> bool" where
  "names_user raw users \<longleftrightarrow>
     (case raw of
        None \<Rightarrow> False
      | Some r \<Rightarrow>
          (case raw_object r of
             None \<Rightarrow> False
           | Some d \<Rightarrow> py_str (jget_default d ''uid'' (JStr [])) \<in> set users))"

text \<open>
  The facts of an entry with the tenant's id where the entry names none; \<open>_entry_facts\<close> reads an entry as the
  platform's own module does.
\<close>

definition purge_facts :: "string \<Rightarrow> raw option \<Rightarrow> facts" where
  "purge_facts company_id raw = api_entry_facts raw @ [(''company_id'', company_id)]"

text \<open>
  \<open>_matching\<close>: the scan's keys under a prefix whose value is bound to the tenant; \<open>keys\<close> is what a scan of the
  whole store yields.
\<close>

definition matching :: "'s redis \<Rightarrow> 's \<Rightarrow> rat \<Rightarrow> string list \<Rightarrow> string \<Rightarrow> string \<Rightarrow> string list" where
  "matching R s t keys pattern company_id =
     filter (\<lambda>k. starts_with k pattern \<and> \<not> starts_with k SUSPENDED_PREFIX \<and> bound_to (r_get R s t k) company_id) keys"

definition purge_handles :: "'s redis \<Rightarrow> 's \<Rightarrow> rat \<Rightarrow> string list \<Rightarrow> string \<Rightarrow> string list \<Rightarrow> string list" where
  "purge_handles R s t keys company_id users =
     sort (remdups (map (drop (length CAP_KEY_PREFIX)) (matching R s t keys CAP_KEY_PREFIX company_id) @
       concat (map (\<lambda>u. map fst (r_hgetall R s t (user_index u)) @ r_smembers R s t (upload_index u)) users)))"

definition purge_sessions :: "'s redis \<Rightarrow> 's \<Rightarrow> rat \<Rightarrow> string list \<Rightarrow> string list" where
  "purge_sessions R s t users = concat (map (\<lambda>u. map refresh_key (r_smembers R s t (refresh_user_key u))) users)"

definition purge_indexes :: "string list \<Rightarrow> string list" where
  "purge_indexes users = concat (map (\<lambda>u. [user_index u, upload_index u, refresh_user_key u, user_ended_key u]) users)"

definition purge_rotations :: "'s redis \<Rightarrow> 's \<Rightarrow> rat \<Rightarrow> string list \<Rightarrow> string list \<Rightarrow> string list" where
  "purge_rotations R s t keys users =
     filter (\<lambda>k. starts_with k ROTATED_REFRESH_PREFIX \<and> names_user (r_get R s t k) users) keys"

definition purge_features :: "string list \<Rightarrow> string \<Rightarrow> string list" where
  "purge_features keys company_id = filter (\<lambda>k. starts_with k (FEATURES_PREFIX @ company_id @ '':'')) keys"

definition count_detail :: "string \<Rightarrow> 'a list \<Rightarrow> string \<times> json" where
  "count_detail name xs = (name, JInt (int (length xs)))"

definition purge_capability_store ::
    "'s redis \<Rightarrow> 's \<Rightarrow> rat \<Rightarrow> datetime \<Rightarrow> string list \<Rightarrow> string \<Rightarrow> string list \<Rightarrow> (Removal \<times> 's) result" where
  "purge_capability_store R s t now keys company users =
     (let company_id = py_lower company;
          handles = purge_handles R s t keys company_id users;
          sessions = purge_sessions R s t users;
          indexes = purge_indexes users;
          rotations = purge_rotations R s t keys users;
          features = purge_features keys company_id;
          latest = matching R s t keys LATEST_PREFIX company_id
      in case revoke_each (revoke_with ''tenant_delete'' (purge_facts company_id) R t now ''tenant_deleted'' None) s handles of
           Inl e \<Rightarrow> Inl e
         | Inr (_, s1) \<Rightarrow>
             (let s2 = foldl (\<lambda>s k. c_del R s t k) s1 (sessions @ indexes @ rotations @ features @ latest);
                  s3 = c_set R s2 t (suspended_key company_id) (RNum (Fin 1)) None
              in Inr (\<lparr>rm_detail = [count_detail ''handles'' handles, count_detail ''sessions'' sessions,
                         count_detail ''user_indexes'' indexes, count_detail ''refresh_rotations'' rotations,
                         count_detail ''feature_snapshots'' features, count_detail ''latest_readings'' latest],
                       rm_retained_until = None\<rparr>, s3)))"

section \<open>The cold layer\<close>

definition COLD_BATCH :: nat where "COLD_BATCH = 1000"

text \<open>
  \<open>ColdStore.purge\<close>: list a page, delete it, list again. \<open>refused\<close> answers the keys of a page the store reports
  it could not delete. The loop may not end if the store goes on listing other keys: \<open>None\<close>.
\<close>

partial_function (option) purge_cold_from ::
    "'o objects \<Rightarrow> ('o \<Rightarrow> string list \<Rightarrow> string list) \<Rightarrow> string \<Rightarrow> nat \<Rightarrow> string list option \<Rightarrow> 'o \<Rightarrow> ((py_error + nat) \<times> 'o) option" where
  "purge_cold_from Ob refused pre removed previous st =
     (let keys = take COLD_BATCH (obj_keys Ob st pre)
      in if keys = [] then Some (Inr removed, st)
         else if previous = Some keys then Some (Inl RuntimeError, st)
         else (let st1 = foldl (obj_delete Ob) st (filter (\<lambda>k. k \<notin> set (refused st keys)) keys)
               in if refused st keys \<noteq> [] then Some (Inl RuntimeError, st1)
                  else purge_cold_from Ob refused pre (removed + length keys) (Some keys) st1))"

definition purge_cold_layer ::
    "'o objects \<Rightarrow> ('o \<Rightarrow> string list \<Rightarrow> string list) \<Rightarrow> string \<Rightarrow> string \<Rightarrow> 'o \<Rightarrow> ((py_error + Removal) \<times> 'o) option" where
  "purge_cold_layer Ob refused bucket company_id st =
     (case cold_object_prefix company_id of
        Inl e \<Rightarrow> Some (Inl e, st)
      | Inr p \<Rightarrow>
          (case purge_cold_from Ob refused (p @ ''/'') 0 None st of
             None \<Rightarrow> None
           | Some (Inl e, st1) \<Rightarrow> Some (Inl e, st1)
           | Some (Inr n, st1) \<Rightarrow>
               Some (Inr \<lparr>rm_detail = [(''bucket'', JStr bucket), (''prefix'', JStr (p @ ''/'')), (''objects'', JInt (int n))],
                 rm_retained_until = None\<rparr>, st1)))"

section \<open>The tracking store\<close>

text \<open>
  \<open>TrackingStore.purge\<close>: \<open>gateway\<close> is the operator plane's answer to the request for a tenant, an exception
  for any status but a success.
\<close>

definition purge_tracking_store ::
    "(string \<Rightarrow> 'w \<Rightarrow> (py_error + json) \<times> 'w) \<Rightarrow> string \<Rightarrow> 'w \<Rightarrow> (py_error + Removal option) \<times> 'w" where
  "purge_tracking_store gateway company_id w =
     (case canonical_company_id company_id of
        Inl e \<Rightarrow> (Inl e, w)
      | Inr cid \<Rightarrow>
          (case gateway cid w of
             (Inl e, w1) \<Rightarrow> (Inl e, w1)
           | (Inr (JObj answer), w1) \<Rightarrow>
               (if jget answer ''company_id'' \<noteq> JStr cid then (Inl RuntimeError, w1)
                else (case od_get answer ''remaining'' of
                   None \<Rightarrow> (Inl KeyError, w1)
                 | Some (JObj remaining) \<Rightarrow>
                     if \<exists>v \<in> snd ` set remaining. truthy v then (Inr None, w1)
                     else (Inr (Some \<lparr>rm_detail = [(''remaining'', JObj remaining)], rm_retained_until = None\<rparr>), w1)
                 | Some _ \<Rightarrow> (Inl TypeError, w1)))
           | (Inr _, w1) \<Rightarrow> (Inl TypeError, w1)))"

section \<open>The device certificates\<close>

record Issued =
  is_serial :: int
  is_not_after :: rat
  is_tenant :: string
  is_device :: string

text \<open>
  \<open>parse_register\<close>; \<open>asn1_time\<close> reads the expiry. The register's lines, as \<open>splitlines\<close> yields them.
\<close>

datatype ca_error = DeviceCaError | CaValueError

fun parse_register ::
    "(string \<Rightarrow> rat option) \<Rightarrow> string list \<Rightarrow> int option \<Rightarrow> Issued list \<Rightarrow> ca_error + int \<times> Issued list" where
  "parse_register asn1_time [] number issued =
     (case number of None \<Rightarrow> Inl DeviceCaError | Some n \<Rightarrow> Inr (n, issued))"
| "parse_register asn1_time (line # rest) number issued =
     (if line = [] \<or> starts_with line ''#'' then parse_register asn1_time rest number issued
      else (case split_on (CHR 0x09) line of
         [a, b] \<Rightarrow>
           (if a = ''crl_number''
            then (case int_base16 b of None \<Rightarrow> Inl CaValueError | Some n \<Rightarrow> parse_register asn1_time rest (Some n) issued)
            else Inl DeviceCaError)
       | [serial, expiry, tenant, device] \<Rightarrow>
           (case int_base16 serial of
              None \<Rightarrow> Inl CaValueError
            | Some n \<Rightarrow>
                (case asn1_time expiry of
                   None \<Rightarrow> Inl CaValueError
                 | Some at_time \<Rightarrow>
                     parse_register asn1_time rest number
                       (issued @ [\<lparr>is_serial = n, is_not_after = at_time, is_tenant = py_lower tenant, is_device = device\<rparr>])))
       | _ \<Rightarrow> Inl DeviceCaError))"

text \<open>
  The published files, as the X.509 library reads them: whether the chain is one intermediate signed by its
  root, the CRLs of the intermediate with whether their signature verifies, and the register with whether its
  signature does.
\<close>

record crl =
  crl_signed :: bool
  crl_number :: int
  crl_last_update :: rat
  crl_next_update :: "rat option"
  crl_serials :: "int list"

record ca_files =
  ca_chain_ok :: bool
  ca_crls :: "crl list"
  ca_register :: "string list"
  ca_register_signed :: bool
  ca_sha256 :: string

definition issuing_crl :: "ca_files \<Rightarrow> ca_error + crl" where
  "issuing_crl F =
     (case ca_crls F of
        [c] \<Rightarrow> if crl_signed c then Inr c else Inl DeviceCaError
      | _ \<Rightarrow> Inl DeviceCaError)"

text \<open>\<open>requested_at.replace(microsecond=0)\<close>.\<close>

definition whole_second :: "rat \<Rightarrow> rat" where
  "whole_second t = of_int \<lfloor>t\<rfloor>"

definition verify_certificates ::
    "(string \<Rightarrow> rat option) \<Rightarrow> ca_files \<Rightarrow> rat \<Rightarrow> string \<Rightarrow> rat \<Rightarrow> ca_error + Removal option" where
  "verify_certificates asn1_time F now company_id requested_at =
     (if \<not> ca_chain_ok F then Inl DeviceCaError
      else (case issuing_crl F of
         Inl e \<Rightarrow> Inl e
       | Inr c \<Rightarrow>
           if \<not> ca_register_signed F then Inl DeviceCaError
           else (case parse_register asn1_time (ca_register F) None [] of
              Inl e \<Rightarrow> Inl e
            | Inr (number, issued) \<Rightarrow>
                if number \<noteq> crl_number c then Inr None
                else if (case crl_next_update c of None \<Rightarrow> True | Some u \<Rightarrow> u \<le> now) then Inl DeviceCaError
                else if crl_last_update c < whole_second requested_at then Inr None
                else (let mine = filter (\<lambda>x. is_tenant x = py_lower company_id) issued;
                          unexpired = filter (\<lambda>x. now < is_not_after x) mine
                      in if \<exists>x \<in> set unexpired. is_serial x \<notin> set (crl_serials c) then Inr None
                         else Inr (Some \<lparr>rm_detail = [count_detail ''revoked'' unexpired,
                             (''expired'', JInt (int (length mine) - int (length unexpired))),
                             (''crl_number'', JInt (crl_number c)), (''register_sha256'', JStr (ca_sha256 F))],
                           rm_retained_until = None\<rparr>)))))"

section \<open>Configuration\<close>

definition backup_retention_days :: "int \<Rightarrow> int \<Rightarrow> int option \<Rightarrow> int result" where
  "backup_retention_days copies interval mirror =
     (if copies < 1 \<or> interval < 1 then Inl RuntimeError
      else (case mirror of
         None \<Rightarrow> Inr (max (copies * interval) (copies + interval))
       | Some m \<Rightarrow> if m < 1 then Inl RuntimeError else Inr (max (copies * interval) (m + interval))))"

section \<open>The capability store afterwards\<close>

lemma canonical_lower: "canonical_company_id c = Inr u \<Longrightarrow> py_lower u = u"
proof -
  assume "canonical_company_id c = Inr u"
  then have "char_lower x = x" if "x \<in> set u" for x
    using canonical_shape(2) that by (fastforce simp: lower_hex_def char_lower_def ord_def Let_def)
  then show ?thesis by (simp add: py_lower_def map_idI)
qed

lemma purge_facts_ok: "canonical_company_id c = Inr c \<Longrightarrow> facts_ok (purge_facts c r)"
  using api_entry_facts_ok [of r] by (auto simp: purge_facts_def facts_ok_def map_add_def split: option.splits)

definition purged_keys :: "'s redis \<Rightarrow> 's \<Rightarrow> rat \<Rightarrow> string list \<Rightarrow> string \<Rightarrow> string list \<Rightarrow> string list" where
  "purged_keys R s t keys c users =
     purge_sessions R s t users @ purge_indexes users @ purge_rotations R s t keys users @ purge_features keys c @
     matching R s t keys LATEST_PREFIX c"

context redis
begin

lemma view_delete_all:
  "t \<le> t' \<Longrightarrow> view R (foldl (\<lambda>s k. c_del R s t k) s ks) t' k = (if k \<in> set ks then None else view R s t' k)"
  by (induction ks arbitrary: s) (simp_all add: view_del)

lemma purge_view:
  assumes "canonical_company_id c = Inr c"
  shows "\<exists>removal s'. purge_capability_store R s t now keys c users = Inr (removal, s') \<and>
    (\<forall>t' k. t \<le> t' \<longrightarrow> view R s' t' k =
      (if k = suspended_key c then Some (VText (RNum (Fin 1)))
       else if k \<in> set (purged_keys R s t keys c users) \<or> k \<in> cap_key ` set (purge_handles R s t keys c users) then None
       else view R s t' k))"
proof -
  have plane: "''tenant_delete'' \<in> set PLANES" by (simp add: PLANES_def)
  have facts: "\<forall>r. facts_ok (purge_facts c r)" using purge_facts_ok [OF assms] by blast
  define hs where "hs = purge_handles R s t keys c users"
  obtain s1 where s1: "revoke_each (revoke_with ''tenant_delete'' (purge_facts c) R t now ''tenant_deleted'' None) s hs =
        Inr (live_entries R s t hs, s1)"
      "\<forall>t' k. t \<le> t' \<longrightarrow> view R s1 t' k = (if k \<in> cap_key ` set hs then None else view R s t' k)"
    using revoke_each_gone [OF plane facts, of t now "''tenant_deleted''" None s hs] by blast
  define s3 where "s3 = c_set R (foldl (\<lambda>s k. c_del R s t k) s1 (purged_keys R s t keys c users)) t (suspended_key c) (RNum (Fin 1)) None"
  have "\<exists>removal. purge_capability_store R s t now keys c users = Inr (removal, s3)"
    unfolding purge_capability_store_def canonical_lower [OF assms] Let_def
    using s1(1) by (simp add: hs_def s3_def purged_keys_def)
  moreover have "view R s3 t' k = (if k = suspended_key c then Some (VText (RNum (Fin 1)))
       else if k \<in> set (purged_keys R s t keys c users) \<or> k \<in> cap_key ` set hs then None else view R s t' k)"
    if "t \<le> t'" for t' k
    unfolding s3_def using that s1(2) by (simp add: view_set lives_def view_delete_all)
  ultimately show ?thesis unfolding hs_def by blast
qed

end

text \<open>What of the store is the tenant's: the contract of the purge, stated over the store alone.\<close>

definition tenant_owned :: "'s redis \<Rightarrow> 's \<Rightarrow> rat \<Rightarrow> string \<Rightarrow> string list \<Rightarrow> string \<Rightarrow> bool" where
  "tenant_owned R s t c users k \<longleftrightarrow>
     starts_with k CAP_KEY_PREFIX \<and> bound_to (r_get R s t k) c \<or>
     (\<exists>u \<in> set users.
        k \<in> cap_key ` (fst ` set (r_hgetall R s t (user_index u)) \<union> set (r_smembers R s t (upload_index u))) \<or>
        k \<in> refresh_key ` set (r_smembers R s t (refresh_user_key u)) \<or>
        k \<in> {user_index u, upload_index u, refresh_user_key u, user_ended_key u}) \<or>
     starts_with k ROTATED_REFRESH_PREFIX \<and> names_user (r_get R s t k) users \<or>
     starts_with k (FEATURES_PREFIX @ c @ '':'') \<and> view R s t k \<noteq> None \<or>
     starts_with k LATEST_PREFIX \<and> bound_to (r_get R s t k) c"

definition reaches_tenant :: "reader \<Rightarrow> string \<Rightarrow> string \<Rightarrow> bool" where
  "reaches_tenant aget h c \<longleftrightarrow>
     (\<exists>b r f. resolve_capability_outcome aget h AUDIENCE_API = Inr (Some b, r, f) \<and> cb_company_id b = c) \<or>
     (\<exists>b r f. resolve_sql_outcome aget h = Inr (Some b, r, f) \<and> sb_company_id b = c) \<or>
     (\<exists>b r f. resolve_cold_outcome aget h = Inr (Some b, r, f) \<and> kb_company_id b = c) \<or>
     (\<exists>b r f. resolve_tracking_outcome aget h = Inr (Some b, r, f) \<and> tb_company_id b = c) \<or>
     (\<exists>b r f. resolve_upload_outcome aget h = Inr (Some b, r, f) \<and> tb_company_id b = c)"

lemma marked_unreached: "aget (suspended_key c) = Inr (Some v) \<Longrightarrow> \<not> reaches_tenant aget h c"
  unfolding reaches_tenant_def api.resolve_tenant_iff sql.resolve_tenant_iff cold.resolve_tenant_iff
    tracking.resolve_tenant_iff upload.resolve_tenant_iff
  by (simp add: entry_for_def)

lemma bound_present: "bound_to (r_get R s t k) c \<Longrightarrow> view R s t k \<noteq> None"
  by (cases "view R s t k") (simp_all add: bound_to_def r_get_def)

lemma named_present: "names_user (r_get R s t k) users \<Longrightarrow> view R s t k \<noteq> None"
  by (cases "view R s t k") (simp_all add: names_user_def r_get_def)

lemma purge_prefixes:
  "starts_with k CAP_KEY_PREFIX \<Longrightarrow> \<not> starts_with k SUSPENDED_PREFIX"
  "starts_with k LATEST_PREFIX \<Longrightarrow> \<not> starts_with k SUSPENDED_PREFIX"
  by (auto simp: starts_with_iff CAP_KEY_PREFIX_def SUSPENDED_PREFIX_def LATEST_PREFIX_def)

lemma handle_keys:
  "cap_key ` drop (length CAP_KEY_PREFIX) ` {k. starts_with k CAP_KEY_PREFIX \<and> P k} = {k. starts_with k CAP_KEY_PREFIX \<and> P k}"
proof -
  have "cap_key (drop (length CAP_KEY_PREFIX) k) = k" if "starts_with k CAP_KEY_PREFIX" for k
    using that by (auto simp: starts_with_iff cap_key_def)
  then show ?thesis by (force simp: image_image)
qed

lemma purged_iff_owned:
  assumes scan: "\<And>k. view R s t k \<noteq> None \<longleftrightarrow> k \<in> set keys"
  shows "k \<in> set (purged_keys R s t keys c users) \<or> k \<in> cap_key ` set (purge_handles R s t keys c users) \<longleftrightarrow>
    tenant_owned R s t c users k"
proof -
  have match: "set (matching R s t keys p c) = {k. starts_with k p \<and> bound_to (r_get R s t k) c}"
    if "p = CAP_KEY_PREFIX \<or> p = LATEST_PREFIX" for p
    using that scan purge_prefixes bound_present by (fastforce simp: matching_def)
  have hs: "cap_key ` set (purge_handles R s t keys c users) =
      {k. starts_with k CAP_KEY_PREFIX \<and> bound_to (r_get R s t k) c} \<union>
      (\<Union>u \<in> set users. cap_key ` (fst ` set (r_hgetall R s t (user_index u)) \<union> set (r_smembers R s t (upload_index u))))"
    by (simp add: purge_handles_def match image_Un handle_keys image_UN)
  have rot: "set (purge_rotations R s t keys users) =
      {k. starts_with k ROTATED_REFRESH_PREFIX \<and> names_user (r_get R s t k) users}"
    using scan named_present by (fastforce simp: purge_rotations_def)
  have feat: "set (purge_features keys c) = {k. starts_with k (FEATURES_PREFIX @ c @ '':'') \<and> view R s t k \<noteq> None}"
    unfolding purge_features_def set_filter using scan by blast
  have ses: "set (purge_sessions R s t users) = (\<Union>u \<in> set users. refresh_key ` set (r_smembers R s t (refresh_user_key u)))"
    "set (purge_indexes users) = (\<Union>u \<in> set users. {user_index u, upload_index u, refresh_user_key u, user_ended_key u})"
    by (simp_all add: purge_sessions_def purge_indexes_def)
  show ?thesis
    unfolding purged_keys_def set_append tenant_owned_def hs rot feat ses match [OF disjI2 [OF refl]]
      Un_iff UN_iff mem_Collect_eq bex_disj_distrib
    by argo
qed


text \<open>A store with a handle of the tenant and a key of nobody's.\<close>

abbreviation purge_mem :: mem where
  "purge_mem \<equiv> \<lparr>ents = [cap_key ''h'' \<mapsto> (VText (RObj [(''audience'', JStr ''sql''), (''company_id'', JStr uuid_a)]), None),
      ''other'' \<mapsto> (VText (RNum (Fin 2)), None)], mem_stream = []\<rparr>"


section \<open>The cold layer afterwards\<close>

context object_store
begin

lemma deleted_all: "obj Ob (foldl (obj_delete Ob) st ks) k = (if k \<in> set ks then None else obj Ob st k)"
  by (induction ks arbitrary: st) (simp_all add: deleted)

lemma listed_after:
  "set (obj_keys Ob (foldl (obj_delete Ob) st ks) pre) = set (obj_keys Ob st pre) - set ks"
  by (auto simp: keys_listed deleted_all split: if_splits)

lemma purge_cold_from_returns:
  "\<exists>r st'. purge_cold_from Ob refused pre n previous st = Some (r, st') \<and>
     (\<forall>k. \<not> starts_with k pre \<longrightarrow> obj Ob st' k = obj Ob st k) \<and>
     (\<forall>m k. r = Inr m \<and> starts_with k pre \<longrightarrow> obj Ob st' k = None)"
proof (induction "card (set (obj_keys Ob st pre))" arbitrary: n previous st rule: less_induct)
  case less
  define keys where "keys = take COLD_BATCH (obj_keys Ob st pre)"
  define rest where "rest = filter (\<lambda>k. k \<notin> set (refused st keys)) keys"
  define st1 where "st1 = foldl (obj_delete Ob) st rest"
  have step: "purge_cold_from Ob refused pre n previous st =
      (if keys = [] then Some (Inr n, st) else if previous = Some keys then Some (Inl RuntimeError, st)
       else if refused st keys \<noteq> [] then Some (Inl RuntimeError, st1)
       else purge_cold_from Ob refused pre (n + length keys) (Some keys) st1)"
    by (subst purge_cold_from.simps) (simp add: keys_def rest_def st1_def Let_def)
  have sub: "set keys \<subseteq> set (obj_keys Ob st pre)" by (simp add: keys_def set_take_subset)
  then have others: "obj Ob st1 k = obj Ob st k" if "\<not> starts_with k pre" for k
    using that by (auto simp: st1_def rest_def deleted_all keys_listed)
  consider (clear) "keys = []" | (stuck) "keys \<noteq> []" "previous = Some keys"
    | (kept) "keys \<noteq> []" "previous \<noteq> Some keys" "refused st keys \<noteq> []"
    | (again) "keys \<noteq> []" "previous \<noteq> Some keys" "refused st keys = []"
    by blast
  then show ?case
  proof cases
    case clear
    then have "obj_keys Ob st pre = []" by (auto simp: keys_def COLD_BATCH_def)
    then have "obj Ob st k = None" if "starts_with k pre" for k using keys_listed [of k st pre] that by (metis empty_iff list.set(1))
    then show ?thesis unfolding step using clear by simp
  next
    case again
    then have "rest = keys" by (simp add: rest_def)
    then have "set (obj_keys Ob st1 pre) = set (obj_keys Ob st pre) - set keys" by (simp add: st1_def listed_after)
    also have "\<dots> \<subset> set (obj_keys Ob st pre)" using sub again(1) by (cases keys) auto
    finally have "card (set (obj_keys Ob st1 pre)) < card (set (obj_keys Ob st pre))" by (simp add: psubset_card_mono)
    from less [OF this, of "n + length keys" "Some keys"] show ?thesis unfolding step using again others by simp
  next
    case stuck
    then show ?thesis unfolding step by simp
  next
    case kept
    then show ?thesis unfolding step using others by simp
  qed
qed

end

text \<open>
  The purge of the cold layer always returns, and removes nothing outside the tenant's prefix; and when it reports
  the removal, no object of the tenant is left. A tenant id that is not one is an error that touches nothing.
\<close>

theorem cold_purge_returns:
  assumes "object_store Ob"
  shows "\<exists>r st'. purge_cold_layer Ob refused bucket company_id st = Some (r, st') \<and>
    (case cold_object_prefix company_id of
       Inl e \<Rightarrow> r = Inl e \<and> st' = st
     | Inr p \<Rightarrow> (\<forall>k. \<not> starts_with k (p @ ''/'') \<longrightarrow> obj Ob st' k = obj Ob st k) \<and>
         (\<forall>removal k. r = Inr removal \<and> starts_with k (p @ ''/'') \<longrightarrow> obj Ob st' k = None))"
proof (cases "cold_object_prefix company_id")
  case (Inr p)
  obtain r st' where "purge_cold_from Ob refused (p @ ''/'') 0 None st = Some (r, st')"
      "\<forall>k. \<not> starts_with k (p @ ''/'') \<longrightarrow> obj Ob st' k = obj Ob st k"
      "\<forall>m k. r = Inr m \<and> starts_with k (p @ ''/'') \<longrightarrow> obj Ob st' k = None"
    using object_store.purge_cold_from_returns [OF assms] by blast
  then show ?thesis using Inr by (cases r) (simp_all add: purge_cold_layer_def)
qed (simp add: purge_cold_layer_def)

theorem cold_purge_returns_witness:
  "\<exists>r st'. purge_cold_layer ref_objects (\<lambda>st ks. []) ''cold'' uuid_a [(''loose'', [1])] = Some (r, st') \<and>
     obj ref_objects st' ''loose'' = obj ref_objects [(''loose'', [1])] ''loose''"
proof -
  have p: "cold_object_prefix uuid_a = Inr (tenancy_PREFIX @ uuid_a)" by (simp add: cold_object_prefix_def)
  then have "\<not> starts_with ''loose'' ((tenancy_PREFIX @ uuid_a) @ ''/'')" by (auto simp: starts_with_iff tenancy_PREFIX_def)
  then show ?thesis
    using cold_purge_returns [OF ref_objects.object_store_axioms, of "\<lambda>st ks. []" "''cold''" uuid_a "[(''loose'', [1])]"]
    unfolding p by auto
qed

section \<open>The certificates recorded as revoked\<close>

lemma certificates_recorded:
  assumes "verify_certificates asn1_time F now company_id requested_at = Inr (Some removal)"
  obtains c number issued where "ca_chain_ok F" "ca_crls F = [c]" "crl_signed c" "ca_register_signed F"
    "parse_register asn1_time (ca_register F) None [] = Inr (number, issued)" "number = crl_number c"
    "\<exists>u. crl_next_update c = Some u \<and> now < u" "whole_second requested_at \<le> crl_last_update c"
    "\<forall>x \<in> set issued. is_tenant x = py_lower company_id \<and> now < is_not_after x \<longrightarrow> is_serial x \<in> set (crl_serials c)"
proof -
  from assms obtain c number issued where "ca_chain_ok F" "issuing_crl F = Inr c" "ca_register_signed F"
    "parse_register asn1_time (ca_register F) None [] = Inr (number, issued)" "number = crl_number c"
    "\<not> (case crl_next_update c of None \<Rightarrow> True | Some u \<Rightarrow> u \<le> now)" "\<not> crl_last_update c < whole_second requested_at"
    "\<forall>x \<in> set issued. is_tenant x = py_lower company_id \<and> now < is_not_after x \<longrightarrow> is_serial x \<in> set (crl_serials c)"
    unfolding verify_certificates_def by (auto simp: Let_def split: if_splits sum.splits prod.splits)
  moreover from this(2) have "ca_crls F = [c]" "crl_signed c"
    by (auto simp: issuing_crl_def split: list.splits if_splits)
  ultimately show thesis using that by (auto split: option.splits)
qed

end
