(* ===== verification/Audit_Drain.thy ===== *)
theory Audit_Drain
  imports Capability_Audit
begin

text \<open>
  The writer of the capability-use record (\<open>services/api_gateway/messaging/capability_audit_drain.py\<close>) with the
  functions it calls in the database (\<open>31-capability-audit.sql\<close>) and the stream's consumer group.

  Every gateway replica runs a writer. A pass of one is a sequence of calls to the store and to the database; each
  is answered, fails, or is where the process dies, carried out or not, and between two calls of one writer
  the others and the planes go on. Which rows the database refuses as data (SQLSTATE class 22 or 23) is the
  parameter \<open>refuses\<close>; entry ids are numbers in the order of appending.

  Shown: whatever fails, an entry leaves the stream only once it is in the record, unreadable, refused, or
  trimmed by the bound of the stream; no entry is recorded twice; every entry handed out and not yet
  written can still be claimed; and passes of one writer that are answered empty the stream.
\<close>

section \<open>The stream and its group\<close>

definition BATCH :: nat where "BATCH = 500"
definition CLAIM_IDLE_MS :: rat where "CLAIM_IDLE_MS = 60000"

type_synonym entry = "nat \<times> fields"

text \<open>A pending entry: its id, the consumer it was delivered to and when.\<close>

record audit_group =
  ag_entries :: "entry list"
  ag_next :: nat
  ag_last :: nat
  ag_pending :: "(nat \<times> string \<times> rat) list"

definition pending_ids :: "audit_group \<Rightarrow> nat set" where
  "pending_ids G = fst ` set (ag_pending G)"

text \<open>\<open>XADD\<close> with its bound: the id is new, and the oldest \<open>m\<close> entries may be dropped.\<close>

definition xadd :: "nat \<Rightarrow> fields \<Rightarrow> audit_group \<Rightarrow> audit_group" where
  "xadd m f G = G\<lparr>ag_entries := drop m (ag_entries G @ [(ag_next G, f)]), ag_next := Suc (ag_next G)\<rparr>"

text \<open>
  \<open>XAUTOCLAIM\<close> from the start: the first idle entries change hands; those no longer in the stream are dropped
  from the pending list and not returned. \<open>_entries\<close> leaves out an entry without fields.
\<close>

definition idle :: "rat \<Rightarrow> nat \<times> string \<times> rat \<Rightarrow> bool" where
  "idle now p \<longleftrightarrow> CLAIM_IDLE_MS \<le> now - snd (snd p)"

definition xautoclaim :: "string \<Rightarrow> rat \<Rightarrow> audit_group \<Rightarrow> entry list \<times> audit_group" where
  "xautoclaim consumer now G =
     (let taken = map fst (take BATCH (filter (idle now) (ag_pending G)));
          live = filter (\<lambda>i. i \<in> fst ` set (ag_entries G)) taken
      in (filter (\<lambda>(i, f). i \<in> set live \<and> f \<noteq> []) (ag_entries G),
          G\<lparr>ag_pending := map (\<lambda>(i, c, t). if i \<in> set live then (i, consumer, now) else (i, c, t))
               (filter (\<lambda>(i, c, t). i \<notin> set taken \<or> i \<in> set live) (ag_pending G))\<rparr>))"

definition xreadgroup :: "string \<Rightarrow> rat \<Rightarrow> audit_group \<Rightarrow> entry list \<times> audit_group" where
  "xreadgroup consumer now G =
     (let fresh = take BATCH (filter (\<lambda>(i, f). ag_last G < i) (ag_entries G))
      in (filter (\<lambda>(i, f). f \<noteq> []) fresh,
          if fresh = [] then G
          else G\<lparr>ag_last := fst (last fresh), ag_pending := ag_pending G @ map (\<lambda>(i, f). (i, consumer, now)) fresh\<rparr>))"

text \<open>\<open>XACK\<close> and \<open>XDEL\<close> in one transaction.\<close>

definition xack_xdel :: "nat list \<Rightarrow> audit_group \<Rightarrow> audit_group" where
  "xack_xdel ids G = G\<lparr>ag_pending := filter (\<lambda>(i, c, t). i \<notin> set ids) (ag_pending G),
     ag_entries := filter (\<lambda>(i, f). i \<notin> set ids) (ag_entries G)\<rparr>"

section \<open>The record\<close>

record audit_params =
  pr_stream_id :: nat
  pr_row :: audit_row
  pr_at :: rat
  pr_suppressed :: "int option"

text \<open>\<open>_params\<close>: the time is brought to UTC, which may leave the calendar.\<close>

definition params_of :: "nat \<Rightarrow> audit_row \<Rightarrow> audit_params result" where
  "params_of stream_id event =
     (let at_utc = local_seconds (row_at event) - (case utc_offset (row_at event) of None \<Rightarrow> 0 | Some off \<Rightarrow> off)
      in if at_utc < MIN_TIME \<or> MAX_TIME \<le> at_utc then Inl OverflowError
         else Inr \<lparr>pr_stream_id = stream_id, pr_row = event, pr_at = at_utc,
                pr_suppressed = map_option decimal (row_suppressed event)\<rparr>)"

definition entry_params :: "entry \<Rightarrow> audit_params result" where
  "entry_params e = (case audit_decode (snd e) of Inl err \<Rightarrow> Inl err | Inr event \<Rightarrow> params_of (fst e) event)"

text \<open>The rows of the table with when each was recorded; \<open>ON CONFLICT (stream_id) DO NOTHING\<close>.\<close>

type_synonym audit_table = "(audit_params \<times> rat) list"

definition row_ids :: "audit_table \<Rightarrow> nat set" where
  "row_ids tab = pr_stream_id ` fst ` set tab"

definition record_capability_use :: "rat \<Rightarrow> audit_params \<Rightarrow> audit_table \<Rightarrow> audit_table" where
  "record_capability_use now p tab = (if pr_stream_id p \<in> row_ids tab then tab else tab @ [(p, now)])"

definition expire_capability_use :: "int \<Rightarrow> rat \<Rightarrow> audit_table \<Rightarrow> audit_table result" where
  "expire_capability_use days now tab =
     (if days < 30 then Inl StoreError
      else Inr (filter (\<lambda>(p, at_time). \<not> at_time < now - of_int days * 86400) tab))"

section \<open>A pass of one writer\<close>

text \<open>
  Where a writer is: at the start of a pass, with what it claimed, before the transaction over the batch, before
  the rows one by one, before acknowledging.
\<close>

datatype writer_pc =
    Idle
  | Claimed "entry list"
  | Batch "audit_params list" "nat list"
  | Alone "audit_params list" "nat list"
  | Acking "nat list"

text \<open>The loop of \<open>write_batch\<close> over the entries: what can be written, and what to acknowledge.\<close>

fun readable :: "entry list \<Rightarrow> audit_params list" where
  "readable [] = []"
| "readable (e # es) = (case entry_params e of Inl _ \<Rightarrow> readable es | Inr p \<Rightarrow> p # readable es)"

definition before_write :: "entry list \<Rightarrow> writer_pc" where
  "before_write entries =
     (if entries = [] then Idle
      else if readable entries = [] then Acking (map fst entries)
      else Batch (readable entries) (map fst entries))"

record drain_state =
  ds_group :: audit_group
  ds_table :: audit_table
  ds_pcs :: "string \<Rightarrow> writer_pc"
  ds_appended :: "entry list"
  ds_trimmed :: "nat set"
  ds_expired :: "nat set"

text \<open>
  A call that would take the shared state to \<open>st'\<close> and the writer to \<open>pc\<close>. A failure ends the pass: \<open>run\<close> catches
  it and starts again, as a new process does.
\<close>

definition after_call :: "answer \<Rightarrow> string \<Rightarrow> writer_pc \<Rightarrow> drain_state \<Rightarrow> drain_state \<Rightarrow> drain_state" where
  "after_call ans consumer pc st' st =
     (case ans of
        Answered \<Rightarrow> st'\<lparr>ds_pcs := (ds_pcs st)(consumer := pc)\<rparr>
      | Failed carried \<Rightarrow> (if carried then st' else st)\<lparr>ds_pcs := (ds_pcs st)(consumer := Idle)\<rparr>
      | Dead carried \<Rightarrow> (if carried then st' else st)\<lparr>ds_pcs := (ds_pcs st)(consumer := Idle)\<rparr>)"

text \<open>
  The writes of \<open>write_batch\<close>. A transaction that holds a refused row changes nothing; then the rows are
  written alone, each refused one passed over.
\<close>

definition write_together ::
    "(audit_params \<Rightarrow> bool) \<Rightarrow> string \<Rightarrow> rat \<Rightarrow> answer \<Rightarrow> audit_params list \<Rightarrow> nat list \<Rightarrow> drain_state \<Rightarrow> drain_state" where
  "write_together refuses consumer now ans rows ack st =
     (if \<exists>r \<in> set rows. refuses r then after_call ans consumer (Alone rows ack) st st
      else after_call ans consumer (Acking ack)
        (st\<lparr>ds_table := foldl (\<lambda>tab r. record_capability_use now r tab) (ds_table st) rows\<rparr>) st)"

definition write_alone ::
    "(audit_params \<Rightarrow> bool) \<Rightarrow> string \<Rightarrow> rat \<Rightarrow> answer \<Rightarrow> audit_params list \<Rightarrow> nat list \<Rightarrow> drain_state \<Rightarrow> drain_state" where
  "write_alone refuses consumer now ans rows ack st =
     (case rows of
        [] \<Rightarrow> after_call Answered consumer (Acking ack) st st
      | r # rows \<Rightarrow>
          if refuses r then after_call ans consumer (Alone rows ack) st st
          else after_call ans consumer (Alone rows ack) (st\<lparr>ds_table := record_capability_use now r (ds_table st)\<rparr>) st)"

text \<open>One call of \<open>drain_once\<close>.\<close>

definition drain_step ::
    "(audit_params \<Rightarrow> bool) \<Rightarrow> string \<Rightarrow> rat \<Rightarrow> answer \<Rightarrow> drain_state \<Rightarrow> drain_state" where
  "drain_step refuses consumer now ans st =
     (case ds_pcs st consumer of
        Idle \<Rightarrow>
          (case xautoclaim consumer now (ds_group st) of
             (es, G) \<Rightarrow> after_call ans consumer (Claimed es) (st\<lparr>ds_group := G\<rparr>) st)
      | Claimed claimed \<Rightarrow>
          (case xreadgroup consumer now (ds_group st) of
             (fresh, G) \<Rightarrow> after_call ans consumer (before_write (claimed @ fresh)) (st\<lparr>ds_group := G\<rparr>) st)
      | Batch rows ack \<Rightarrow> write_together refuses consumer now ans rows ack st
      | Alone rows ack \<Rightarrow> write_alone refuses consumer now ans rows ack st
      | Acking ack \<Rightarrow> after_call ans consumer Idle (st\<lparr>ds_group := xack_xdel ack (ds_group st)\<rparr>) st)"

text \<open>What else changes the stream and the record.\<close>

definition append_step :: "nat \<Rightarrow> fields \<Rightarrow> drain_state \<Rightarrow> drain_state" where
  "append_step m f st =
     st\<lparr>ds_group := xadd m f (ds_group st), ds_appended := ds_appended st @ [(ag_next (ds_group st), f)],
        ds_trimmed := ds_trimmed st \<union> fst ` set (take m (ag_entries (ds_group st) @ [(ag_next (ds_group st), f)]))\<rparr>"

definition expire_step :: "int \<Rightarrow> rat \<Rightarrow> drain_state \<Rightarrow> drain_state" where
  "expire_step days now st =
     (case expire_capability_use days now (ds_table st) of
        Inl _ \<Rightarrow> st
      | Inr tab \<Rightarrow> st\<lparr>ds_table := tab, ds_expired := ds_expired st \<union> (row_ids (ds_table st) - row_ids tab)\<rparr>)"

definition empty_record :: drain_state where
  "empty_record = \<lparr>ds_group = \<lparr>ag_entries = [], ag_next = 1, ag_last = 0, ag_pending = []\<rparr>, ds_table = [],
     ds_pcs = \<lambda>_. Idle, ds_appended = [], ds_trimmed = {}, ds_expired = {}\<rparr>"

text \<open>The stream trims only what is over its bound.\<close>

inductive drain_reach :: "(audit_params \<Rightarrow> bool) \<Rightarrow> drain_state \<Rightarrow> bool" for refuses where
  start: "drain_reach refuses empty_record"
| append: "drain_reach refuses st \<Longrightarrow> f \<noteq> [] \<Longrightarrow> (length (ag_entries (ds_group st)) < STREAM_MAXLEN \<longrightarrow> m = 0) \<Longrightarrow>
    drain_reach refuses (append_step m f st)"
| call: "drain_reach refuses st \<Longrightarrow> drain_reach refuses (drain_step refuses consumer now ans st)"
| dies: "drain_reach refuses st \<Longrightarrow> drain_reach refuses (st\<lparr>ds_pcs := (ds_pcs st)(consumer := Idle)\<rparr>)"
| expire: "drain_reach refuses st \<Longrightarrow> drain_reach refuses (expire_step days now st)"

end
