(* ===== verification/Audit_Record.thy ===== *)
theory Audit_Record
  imports Audit_Drain
begin

text \<open>
  What the writers of \<open>Audit_Drain\<close> promise together: an invariant of every state they, the planes and the expiry
  reach, and progress of one writer whose calls are answered.
\<close>

section \<open>The group\<close>

definition group_ok :: "audit_group \<Rightarrow> bool" where
  "group_ok G \<longleftrightarrow> sorted_wrt (<) (map fst (ag_entries G)) \<and> (\<forall>e \<in> set (ag_entries G). fst e < ag_next G) \<and>
     ag_last G < ag_next G \<and> (\<forall>e \<in> set (ag_entries G). fst e \<le> ag_last G \<longrightarrow> fst e \<in> pending_ids G)"

lemma sorted_wrt_map_filter: "sorted_wrt (<) (map f xs) \<Longrightarrow> sorted_wrt (<) (map f (filter P xs))"
  by (induction xs) auto

lemma sorted_take_last:
  assumes "sorted_wrt (<) (map fst xs)" "x \<in> set xs" "take n xs \<noteq> []" "fst x \<le> (fst (last (take n xs)) :: nat)"
  shows "x \<in> set (take n xs)"
proof (rule ccontr)
  assume "x \<notin> set (take n xs)"
  then have "x \<in> set (drop n xs)" using assms(2) by (metis Un_iff append_take_drop_id set_append)
  moreover have "sorted_wrt (<) (map fst (take n xs) @ map fst (drop n xs))"
    using assms(1) by (metis append_take_drop_id map_append)
  ultimately have "fst (last (take n xs)) < fst x"
    using assms(3) by (auto simp: sorted_wrt_append)
  with assms(4) show False by simp
qed

lemma group_ok_xadd: "group_ok G \<Longrightarrow> group_ok (xadd m f G)"
proof -
  assume G: "group_ok G"
  let ?es = "ag_entries G @ [(ag_next G, f)]"
  have "sorted_wrt (<) (map fst ?es)" using G by (auto simp: group_ok_def sorted_wrt_append)
  then have "sorted_wrt (<) (map fst (drop m ?es))" by (metis append_take_drop_id map_append sorted_wrt_append)
  moreover have "set (drop m ?es) \<subseteq> insert (ag_next G, f) (set (ag_entries G))" using set_drop_subset [of m ?es] by auto
  ultimately have "fst e < Suc (ag_next G)" "fst e \<le> ag_last G \<longrightarrow> fst e \<in> pending_ids G"
    if "e \<in> set (drop m ?es)" for e
    using G that unfolding group_ok_def by fastforce+
  then show ?thesis using G \<open>sorted_wrt (<) (map fst (drop m ?es))\<close>
    by (simp add: group_ok_def xadd_def pending_ids_def)
qed

lemma xautoclaim_ok:
  assumes "group_ok G" "xautoclaim consumer now G = (es, G')"
  shows "group_ok G'" "ag_entries G' = ag_entries G" "ag_next G' = ag_next G" "ag_last G' = ag_last G" "set es \<subseteq> set (ag_entries G)"
proof -
  define taken where "taken = map fst (take BATCH (filter (idle now) (ag_pending G)))"
  define live where "live = filter (\<lambda>i. i \<in> fst ` set (ag_entries G)) taken"
  have G': "G' = G\<lparr>ag_pending := map (\<lambda>(i, c, t). if i \<in> set live then (i, consumer, now) else (i, c, t))
      (filter (\<lambda>(i, c, t). i \<notin> set taken \<or> i \<in> set live) (ag_pending G))\<rparr>"
    and es: "es = filter (\<lambda>(i, f). i \<in> set live \<and> f \<noteq> []) (ag_entries G)"
    using assms(2) by (auto simp: xautoclaim_def Let_def taken_def live_def)
  show same: "ag_entries G' = ag_entries G" "ag_next G' = ag_next G" "ag_last G' = ag_last G" "set es \<subseteq> set (ag_entries G)"
    by (auto simp: G' es)
  have "pending_ids G' = {i \<in> pending_ids G. i \<notin> set taken \<or> i \<in> set live}"
    unfolding pending_ids_def G' by (auto simp: image_iff split: prod.splits if_splits) (metis fst_conv)+
  then have "fst e \<in> pending_ids G'" if "e \<in> set (ag_entries G)" "fst e \<in> pending_ids G" for e
    using that by (auto simp: live_def)
  then show "group_ok G'" using assms(1) unfolding group_ok_def same(1-3) by blast
qed

lemma xreadgroup_ok:
  assumes "group_ok G" "xreadgroup consumer now G = (es, G')"
  shows "group_ok G'" "ag_entries G' = ag_entries G" "ag_next G' = ag_next G" "set es \<subseteq> set (ag_entries G)"
proof -
  define new where "new = filter (\<lambda>(i, f). ag_last G < i) (ag_entries G)"
  define fresh where "fresh = take BATCH new"
  have G': "G' = (if fresh = [] then G else G\<lparr>ag_last := fst (last fresh), ag_pending := ag_pending G @ map (\<lambda>(i, f). (i, consumer, now)) fresh\<rparr>)"
    and es: "es = filter (\<lambda>(i, f). f \<noteq> []) fresh"
    using assms(2) by (auto simp: xreadgroup_def Let_def fresh_def new_def)
  have sub: "set fresh \<subseteq> set (ag_entries G)" by (auto simp: fresh_def new_def dest: in_set_takeD)
  then show "set es \<subseteq> set (ag_entries G)" by (auto simp: es)
  show same: "ag_entries G' = ag_entries G" "ag_next G' = ag_next G" by (simp_all add: G')
  show "group_ok G'"
  proof (cases "fresh = []")
    case True
    then show ?thesis using assms(1) by (simp add: G')
  next
    case False
    have p: "pending_ids G' = pending_ids G \<union> fst ` set fresh" using False by (force simp: pending_ids_def G')
    have "fst e \<in> pending_ids G'" if e: "e \<in> set (ag_entries G)" "fst e \<le> ag_last G'" for e
    proof (cases "fst e \<le> ag_last G")
      case True
      then show ?thesis using assms(1) e p by (auto simp: group_ok_def)
    next
      case False
      have "sorted_wrt (<) (map fst new)" using assms(1) by (simp add: new_def group_ok_def sorted_wrt_map_filter)
      moreover have "e \<in> set new" using e False by (auto simp: new_def)
      ultimately have "e \<in> set fresh"
        using sorted_take_last [of new e BATCH] e(2) \<open>fresh \<noteq> []\<close> by (simp add: fresh_def G')
      then show ?thesis using p by blast
    qed
    moreover have "last fresh \<in> set (ag_entries G)" using sub last_in_set [OF False] by blast
    then have "ag_last G' < ag_next G'" using False assms(1) unfolding group_ok_def G' by simp
    ultimately show ?thesis using assms(1) unfolding group_ok_def same by blast
  qed
qed

lemma xack_xdel_ok: "group_ok G \<Longrightarrow> group_ok (xack_xdel ids G)"
  by (force simp: group_ok_def xack_xdel_def pending_ids_def sorted_wrt_map_filter image_iff)

section \<open>The record\<close>

definition settled :: "(audit_params \<Rightarrow> bool) \<Rightarrow> drain_state \<Rightarrow> entry \<Rightarrow> bool" where
  "settled refuses st e \<longleftrightarrow>
     (case entry_params e of
        Inl _ \<Rightarrow> True
      | Inr p \<Rightarrow> refuses p \<or> fst e \<in> row_ids (ds_table st) \<or> fst e \<in> ds_expired st)"

definition in_hand :: "(audit_params \<Rightarrow> bool) \<Rightarrow> drain_state \<Rightarrow> audit_params list \<Rightarrow> nat list \<Rightarrow> bool" where
  "in_hand refuses st rows ack \<longleftrightarrow> set ack \<subseteq> fst ` set (ds_appended st) \<and>
     (\<forall>p \<in> set rows. \<exists>e \<in> set (ds_appended st). entry_params e = Inr p) \<and>
     (\<forall>e \<in> set (ds_appended st). fst e \<in> set ack \<longrightarrow> settled refuses st e \<or> (\<exists>p \<in> set rows. entry_params e = Inr p))"

fun pc_ok :: "(audit_params \<Rightarrow> bool) \<Rightarrow> drain_state \<Rightarrow> writer_pc \<Rightarrow> bool" where
  "pc_ok refuses st Idle = True"
| "pc_ok refuses st (Claimed es) = (set es \<subseteq> set (ds_appended st))"
| "pc_ok refuses st (Batch rows ack) = in_hand refuses st rows ack"
| "pc_ok refuses st (Alone rows ack) = in_hand refuses st rows ack"
| "pc_ok refuses st (Acking ack) = in_hand refuses st [] ack"

definition rows_ok :: "drain_state \<Rightarrow> bool" where
  "rows_ok st \<longleftrightarrow> distinct (map (pr_stream_id \<circ> fst) (ds_table st)) \<and>
     (\<forall>p \<in> fst ` set (ds_table st). \<exists>e \<in> set (ds_appended st). entry_params e = Inr p)"

definition stream_ok :: "(audit_params \<Rightarrow> bool) \<Rightarrow> drain_state \<Rightarrow> bool" where
  "stream_ok refuses st \<longleftrightarrow> group_ok (ds_group st) \<and> distinct (map fst (ds_appended st)) \<and>
     (\<forall>e \<in> set (ds_appended st). fst e < ag_next (ds_group st) \<and> snd e \<noteq> []) \<and>
     set (ag_entries (ds_group st)) \<subseteq> set (ds_appended st) \<and>
     (\<forall>e \<in> set (ds_appended st). e \<in> set (ag_entries (ds_group st)) \<or> fst e \<in> ds_trimmed st \<or> settled refuses st e)"

definition drain_inv :: "(audit_params \<Rightarrow> bool) \<Rightarrow> drain_state \<Rightarrow> bool" where
  "drain_inv refuses st \<longleftrightarrow> stream_ok refuses st \<and> rows_ok st \<and> (\<forall>c. pc_ok refuses st (ds_pcs st c))"

lemma entry_params_id: "entry_params e = Inr p \<Longrightarrow> pr_stream_id p = fst e"
  by (auto simp: entry_params_def params_of_def Let_def split: sum.splits if_splits)

text \<open>A state whose record only grew, or moved rows to the expired ones.\<close>

definition record_grew :: "drain_state \<Rightarrow> drain_state \<Rightarrow> bool" where
  "record_grew st st' \<longleftrightarrow> ds_appended st' = ds_appended st \<and>
     row_ids (ds_table st) \<union> ds_expired st \<subseteq> row_ids (ds_table st') \<union> ds_expired st'"

lemma settled_grew: "record_grew st st' \<Longrightarrow> settled refuses st e \<Longrightarrow> settled refuses st' e"
  unfolding settled_def record_grew_def by (auto split: sum.splits)

lemma in_hand_grew: "record_grew st st' \<Longrightarrow> in_hand refuses st rows ack \<Longrightarrow> in_hand refuses st' rows ack"
  using settled_grew unfolding in_hand_def by (fastforce simp: record_grew_def)

lemma pc_ok_grew: "record_grew st st' \<Longrightarrow> pc_ok refuses st pc \<Longrightarrow> pc_ok refuses st' pc"
  by (cases pc) (auto simp: in_hand_grew, auto simp: record_grew_def)

lemma stream_ok_grew:
  "record_grew st st' \<Longrightarrow> ds_group st' = ds_group st \<Longrightarrow> ds_trimmed st' = ds_trimmed st \<Longrightarrow> stream_ok refuses st \<Longrightarrow> stream_ok refuses st'"
  using settled_grew unfolding stream_ok_def by (fastforce simp: record_grew_def)

text \<open>Writing rows.\<close>

lemma row_ids_record: "row_ids (record_capability_use now p tab) = insert (pr_stream_id p) (row_ids tab)"
  by (auto simp: record_capability_use_def row_ids_def)

lemma row_ids_record_all:
  "row_ids (foldl (\<lambda>tab r. record_capability_use now r tab) tab rows) = row_ids tab \<union> pr_stream_id ` set rows"
  by (induction rows arbitrary: tab) (auto simp: row_ids_record)

lemma rows_ok_record:
  assumes "rows_ok st" "\<exists>e \<in> set (ds_appended st). entry_params e = Inr p"
  shows "rows_ok (st\<lparr>ds_table := record_capability_use now p (ds_table st)\<rparr>)"
  using assms by (auto simp: rows_ok_def record_capability_use_def row_ids_def)

lemma rows_ok_record_all:
  assumes "rows_ok st" "\<forall>p \<in> set rows. \<exists>e \<in> set (ds_appended st). entry_params e = Inr p"
  shows "rows_ok (st\<lparr>ds_table := foldl (\<lambda>tab r. record_capability_use now r tab) (ds_table st) rows\<rparr>)"
  using assms
proof (induction rows arbitrary: st)
  case (Cons p rows)
  from rows_ok_record [OF Cons.prems(1), of p now] Cons.prems(2)
  have "rows_ok (st\<lparr>ds_table := record_capability_use now p (ds_table st)\<rparr>)" by simp
  from Cons.IH [OF this] Cons.prems(2) show ?case by simp
qed simp

lemma readable_in: "p \<in> set (readable es) \<longleftrightarrow> (\<exists>e \<in> set es. entry_params e = Inr p)"
  by (induction es) (auto split: sum.splits)

lemma before_write_ok:
  assumes "set es \<subseteq> set (ds_appended st)" "distinct (map fst (ds_appended st))"
  shows "pc_ok refuses st (before_write es)"
proof -
  have "in_hand refuses st (readable es) (map fst es)"
    unfolding in_hand_def readable_in
  proof (intro conjI ballI impI)
    fix e assume e: "e \<in> set (ds_appended st)" "fst e \<in> set (map fst es)"
    then have "e \<in> set es" using assms by (auto simp: distinct_map inj_on_def)
    then show "settled refuses st e \<or> (\<exists>p \<in> set (readable es). entry_params e = Inr p)"
      by (cases "entry_params e") (auto simp: settled_def readable_in)
  qed (use assms(1) in \<open>auto simp: readable_in\<close>)
  then show ?thesis by (auto simp: before_write_def)
qed

section \<open>Every step keeps it\<close>

lemma inv_pcs:
  assumes "drain_inv refuses st" "pc_ok refuses st pc"
  shows "drain_inv refuses (st\<lparr>ds_pcs := (ds_pcs st)(consumer := pc)\<rparr>)"
proof -
  have "pc_ok refuses (st\<lparr>ds_pcs := (ds_pcs st)(consumer := pc)\<rparr>) q" if "pc_ok refuses st q" for q
    by (rule pc_ok_grew [OF _ that]) (simp add: record_grew_def)
  moreover have "stream_ok refuses (st\<lparr>ds_pcs := (ds_pcs st)(consumer := pc)\<rparr>)"
    by (rule stream_ok_grew [of st]) (use assms in \<open>simp_all add: record_grew_def drain_inv_def\<close>)
  moreover have "rows_ok (st\<lparr>ds_pcs := (ds_pcs st)(consumer := pc)\<rparr>)"
    using assms by (simp add: drain_inv_def rows_ok_def)
  ultimately show ?thesis using assms by (simp add: drain_inv_def)
qed

lemma inv_after_call:
  assumes "drain_inv refuses st" "drain_inv refuses st'" "pc_ok refuses st' pc" "ds_pcs st' = ds_pcs st"
  shows "drain_inv refuses (after_call ans consumer pc st' st)"
  using assms inv_pcs [of refuses st'] inv_pcs [of refuses st]
  by (cases ans) (simp_all add: after_call_def)

text \<open>A change of the group that keeps its entries, or drops settled ones.\<close>

lemma inv_group:
  assumes "drain_inv refuses st" "group_ok G" "ag_next G = ag_next (ds_group st)"
    "set (ag_entries G) \<subseteq> set (ag_entries (ds_group st))"
    "\<And>e. e \<in> set (ag_entries (ds_group st)) \<Longrightarrow> e \<notin> set (ag_entries G) \<Longrightarrow> settled refuses st e"
  shows "drain_inv refuses (st\<lparr>ds_group := G\<rparr>)"
proof -
  have same: "settled refuses (st\<lparr>ds_group := G\<rparr>) e = settled refuses st e" for e
    by (cases "entry_params e") (simp_all add: settled_def)
  have old: "stream_ok refuses st" using assms(1) by (simp add: drain_inv_def)
  then have "\<forall>e \<in> set (ds_appended st). e \<in> set (ag_entries G) \<or> fst e \<in> ds_trimmed st \<or> settled refuses st e"
    using assms(5) unfolding stream_ok_def by blast
  with old have "stream_ok refuses (st\<lparr>ds_group := G\<rparr>)"
    using assms(2-4) unfolding stream_ok_def same by (simp add: subset_trans)
  moreover have "pc_ok refuses (st\<lparr>ds_group := G\<rparr>) q" if "pc_ok refuses st q" for q
    by (rule pc_ok_grew [OF _ that]) (simp add: record_grew_def)
  ultimately show ?thesis using assms(1) by (simp add: drain_inv_def rows_ok_def)
qed

lemma inv_rows:
  fixes now :: rat
  assumes "drain_inv refuses st" "\<forall>p \<in> set rows. \<exists>e \<in> set (ds_appended st). entry_params e = Inr p"
  defines "st' \<equiv> st\<lparr>ds_table := foldl (\<lambda>tab r. record_capability_use now r tab) (ds_table st) rows\<rparr>"
  shows "drain_inv refuses st'" "record_grew st st'"
proof -
  show a: "record_grew st st'" by (auto simp: record_grew_def st'_def row_ids_record_all)
  show "drain_inv refuses st'"
    using assms(1) stream_ok_grew [OF a] pc_ok_grew [OF a] rows_ok_record_all [OF _ assms(2), of now]
    by (simp add: drain_inv_def st'_def)
qed

text \<open>The rows a writer wrote or saw refused are settled.\<close>

lemma in_hand_written:
  assumes "in_hand refuses st rows ack" "record_grew st st'"
    "\<And>p. p \<in> set rows \<Longrightarrow> p \<notin> set rest \<Longrightarrow> refuses p \<or> pr_stream_id p \<in> row_ids (ds_table st')" "set rest \<subseteq> set rows"
  shows "in_hand refuses st' rest ack"
  unfolding in_hand_def
proof (intro conjI ballI impI)
  fix e assume e: "e \<in> set (ds_appended st')" "fst e \<in> set ack"
  have e': "e \<in> set (ds_appended st)" using e assms(2) by (simp add: record_grew_def)
  consider "settled refuses st e" | p where "p \<in> set rows" "entry_params e = Inr p"
    using assms(1) e' e(2) unfolding in_hand_def by blast
  then show "settled refuses st' e \<or> (\<exists>p \<in> set rest. entry_params e = Inr p)"
  proof cases
    case 1
    then show ?thesis using settled_grew [OF assms(2)] by blast
  next
    case 2
    then show ?thesis using assms(3) [of p] entry_params_id [of e p] by (cases "p \<in> set rest") (auto simp: settled_def)
  qed
qed (use assms in \<open>auto simp: in_hand_def record_grew_def\<close>)

lemma inv_drain_step:
  assumes inv: "drain_inv refuses st"
  shows "drain_inv refuses (drain_step refuses consumer now ans st)"
proof (cases "ds_pcs st consumer")
  case Idle
  obtain es G where x: "xautoclaim consumer now (ds_group st) = (es, G)" by force
  have ok: "group_ok (ds_group st)" "set (ag_entries (ds_group st)) \<subseteq> set (ds_appended st)"
    using inv by (auto simp: drain_inv_def stream_ok_def)
  note g = xautoclaim_ok [OF ok(1) x]
  have "drain_inv refuses (st\<lparr>ds_group := G\<rparr>)" by (rule inv_group [OF inv]) (use g in auto)
  then show ?thesis using inv Idle g(5) ok(2) unfolding drain_step_def write_together_def write_alone_def x
    by (simp add: inv_after_call)
next
  case (Claimed claimed)
  obtain es G where x: "xreadgroup consumer now (ds_group st) = (es, G)" by force
  have ok: "group_ok (ds_group st)" "set (ag_entries (ds_group st)) \<subseteq> set (ds_appended st)" "distinct (map fst (ds_appended st))"
    using inv by (auto simp: drain_inv_def stream_ok_def)
  have c: "set claimed \<subseteq> set (ds_appended st)" using inv Claimed unfolding drain_inv_def by (metis pc_ok.simps(2))
  note g = xreadgroup_ok [OF ok(1) x]
  have "drain_inv refuses (st\<lparr>ds_group := G\<rparr>)" by (rule inv_group [OF inv]) (use g in auto)
  moreover have "pc_ok refuses (st\<lparr>ds_group := G\<rparr>) (before_write (claimed @ es))"
    by (rule before_write_ok) (use c g(4) ok in auto)
  ultimately show ?thesis using inv Claimed unfolding drain_step_def write_together_def write_alone_def x by (simp add: inv_after_call)
next
  case (Batch rows ack)
  have h: "in_hand refuses st rows ack" using inv Batch unfolding drain_inv_def by (metis pc_ok.simps(3))
  then have rows: "\<forall>p \<in> set rows. \<exists>e \<in> set (ds_appended st). entry_params e = Inr p" by (simp add: in_hand_def)
  let ?st' = "st\<lparr>ds_table := foldl (\<lambda>tab r. record_capability_use now r tab) (ds_table st) rows\<rparr>"
  note r = inv_rows [OF inv rows, where now = now]
  have "in_hand refuses ?st' [] ack"
    by (rule in_hand_written [OF h r(2)]) (auto simp: row_ids_record_all)
  then show ?thesis using inv Batch h r(1) unfolding drain_step_def write_together_def write_alone_def by (simp add: inv_after_call)
next
  case (Alone rows ack)
  have h: "in_hand refuses st rows ack" using inv Alone unfolding drain_inv_def by (metis pc_ok.simps(4))
  show ?thesis
  proof (cases rows)
    case Nil
    then show ?thesis using inv Alone h unfolding drain_step_def write_together_def write_alone_def by (simp add: inv_after_call)
  next
    case (Cons p rest)
    then have rows: "\<forall>q \<in> set [p]. \<exists>e \<in> set (ds_appended st). entry_params e = Inr q" using h by (simp add: in_hand_def)
    let ?st' = "st\<lparr>ds_table := record_capability_use now p (ds_table st)\<rparr>"
    have r: "drain_inv refuses ?st'" "record_grew st ?st'" using inv_rows [OF inv rows, where now = now] by simp_all
    have "in_hand refuses ?st' rest ack"
      by (rule in_hand_written [OF h r(2)]) (auto simp: Cons row_ids_record)
    moreover have "in_hand refuses st rest ack" if "refuses p"
      by (rule in_hand_written [OF h, of st]) (use that in \<open>auto simp: Cons record_grew_def\<close>)
    ultimately show ?thesis using inv Alone Cons r(1) unfolding drain_step_def write_together_def write_alone_def by (simp add: inv_after_call)
  qed
next
  case (Acking ack)
  have h: "in_hand refuses st [] ack" using inv Acking unfolding drain_inv_def by (metis pc_ok.simps(5))
  have ok: "group_ok (ds_group st)" "set (ag_entries (ds_group st)) \<subseteq> set (ds_appended st)"
    using inv by (auto simp: drain_inv_def stream_ok_def)
  have "drain_inv refuses (st\<lparr>ds_group := xack_xdel ack (ds_group st)\<rparr>)"
    by (rule inv_group [OF inv xack_xdel_ok [OF ok(1)]]) (use h ok(2) in \<open>auto simp: xack_xdel_def in_hand_def\<close>)
  then show ?thesis using inv Acking unfolding drain_step_def write_together_def write_alone_def by (simp add: inv_after_call)
qed

lemma inv_append:
  assumes inv: "drain_inv refuses st" and f: "f \<noteq> []"
  shows "drain_inv refuses (append_step m f st)"
proof -
  let ?st' = "append_step m f st" and ?e = "(ag_next (ds_group st), f)"
  let ?es = "ag_entries (ds_group st) @ [?e]"
  have same: "settled refuses ?st' e = settled refuses st e" for e
    by (cases "entry_params e") (simp_all add: settled_def append_step_def)
  have old: "\<forall>e \<in> set (ds_appended st). fst e < ag_next (ds_group st) \<and> snd e \<noteq> []"
    and sub: "set (ag_entries (ds_group st)) \<subseteq> set (ds_appended st)" and dist: "distinct (map fst (ds_appended st))"
    and all: "\<forall>e \<in> set (ds_appended st). e \<in> set (ag_entries (ds_group st)) \<or> fst e \<in> ds_trimmed st \<or> settled refuses st e"
    and g: "group_ok (ds_group st)"
    using inv by (auto simp: drain_inv_def stream_ok_def)
  have parts [simp]: "ds_appended ?st' = ds_appended st @ [?e]" "ds_group ?st' = xadd m f (ds_group st)"
    "ds_trimmed ?st' = ds_trimmed st \<union> fst ` set (take m ?es)" "ds_table ?st' = ds_table st" "ds_pcs ?st' = ds_pcs st"
    "ag_entries (xadd m f (ds_group st)) = drop m ?es" "ag_next (xadd m f (ds_group st)) = Suc (ag_next (ds_group st))"
    by (simp_all add: append_step_def xadd_def)
  have kept: "e \<in> set (drop m ?es) \<or> fst e \<in> fst ` set (take m ?es)" if "e \<in> set ?es" for e
    using that by (metis Un_iff append_take_drop_id image_eqI set_append)
  have "e \<in> set (drop m ?es) \<or> fst e \<in> ds_trimmed ?st' \<or> settled refuses st e" if "e \<in> set (ds_appended st @ [?e])" for e
  proof (cases "e \<in> set ?es")
    case True
    then show ?thesis using kept [OF True] by auto
  next
    case False
    then show ?thesis using that all by auto
  qed
  moreover have "set (drop m ?es) \<subseteq> set (ds_appended st @ [?e])" using set_drop_subset [of m ?es] sub by auto
  moreover have "distinct (map fst (ds_appended st @ [?e]))" using dist old by auto
  ultimately have "stream_ok refuses ?st'"
    unfolding stream_ok_def parts same using group_ok_xadd [OF g, of m f] old f by (auto simp: less_Suc_eq)
  moreover have "rows_ok ?st'" using inv by (auto simp: drain_inv_def rows_ok_def)
  moreover have hand: "in_hand refuses ?st' rows ack" if "in_hand refuses st rows ack" for rows ack
  proof -
    have "ag_next (ds_group st) \<notin> set ack" using that old unfolding in_hand_def by (metis imageE less_irrefl subsetD)
    then show ?thesis using that unfolding in_hand_def same parts by auto
  qed
  have "pc_ok refuses ?st' q" if "pc_ok refuses st q" for q
    using that by (cases q) (auto simp: hand)
  ultimately show ?thesis using inv unfolding drain_inv_def parts by blast
qed

lemma inv_expire:
  assumes inv: "drain_inv refuses st"
  shows "drain_inv refuses (expire_step days now st)"
proof (cases "expire_capability_use days now (ds_table st)")
  case (Inr tab)
  let ?st' = "st\<lparr>ds_table := tab, ds_expired := ds_expired st \<union> (row_ids (ds_table st) - row_ids tab)\<rparr>"
  have sub: "\<exists>P. tab = filter P (ds_table st)" using Inr by (auto simp: expire_capability_use_def split: if_splits)
  have a: "record_grew st ?st'" by (auto simp: record_grew_def)
  have "rows_ok ?st'" using inv sub by (auto simp: drain_inv_def rows_ok_def distinct_map_filter)
  then show ?thesis
    using inv stream_ok_grew [OF a] pc_ok_grew [OF a] Inr by (simp add: drain_inv_def expire_step_def)
qed (use inv in \<open>simp add: expire_step_def\<close>)

lemma drain_reach_inv: "drain_reach refuses st \<Longrightarrow> drain_inv refuses st"
proof (induction rule: drain_reach.induct)
  case start
  show ?case by (simp add: drain_inv_def stream_ok_def rows_ok_def empty_record_def group_ok_def)
next
  case (append st f m)
  then show ?case by (simp add: inv_append)
next
  case (call st consumer now ans)
  then show ?case by (simp add: inv_drain_step)
next
  case (dies st consumer)
  then show ?case by (simp add: inv_pcs)
next
  case (expire st days now)
  then show ?case by (simp add: inv_expire)
qed

text \<open>
  C20. Whatever calls fail, whenever writers die and however they interleave with the planes, the expiry and each
  other: an entry that was appended is still in the stream, or was trimmed by the stream's bound, or cannot be
  read, or was refused by the database as data, or is in the record or was expired from it; the record holds
  each entry at most once and only as the writer's reading of an appended entry; and an entry of the stream that was
  already handed out is pending, so that some writer can claim it.
\<close>

theorem audit_record_complete:
  assumes "drain_reach refuses st"
  shows "(\<forall>e \<in> set (ds_appended st). e \<in> set (ag_entries (ds_group st)) \<or> fst e \<in> ds_trimmed st \<or>
        (case entry_params e of Inl _ \<Rightarrow> True | Inr p \<Rightarrow> refuses p \<or> fst e \<in> row_ids (ds_table st) \<or> fst e \<in> ds_expired st)) \<and>
    distinct (map (pr_stream_id \<circ> fst) (ds_table st)) \<and>
    (\<forall>p \<in> fst ` set (ds_table st). \<exists>e \<in> set (ds_appended st). entry_params e = Inr p) \<and>
    (\<forall>e \<in> set (ag_entries (ds_group st)). fst e \<le> ag_last (ds_group st) \<longrightarrow> fst e \<in> pending_ids (ds_group st))"
  using drain_reach_inv [OF assms] unfolding drain_inv_def stream_ok_def rows_ok_def settled_def group_ok_def by blast

section \<open>Progress\<close>

text \<open>The answered calls of one writer, the \<open>k\<close>-th at the time \<open>clock k\<close>, with nobody else in between.\<close>

fun drain_calls ::
    "(audit_params \<Rightarrow> bool) \<Rightarrow> string \<Rightarrow> (nat \<Rightarrow> rat) \<Rightarrow> nat \<Rightarrow> nat \<Rightarrow> drain_state \<Rightarrow> drain_state" where
  "drain_calls refuses consumer clock k 0 st = st"
| "drain_calls refuses consumer clock k (Suc n) st =
     drain_calls refuses consumer clock (Suc k) n (drain_step refuses consumer (clock k) Answered st)"

definition leads :: "(audit_params \<Rightarrow> bool) \<Rightarrow> string \<Rightarrow> (nat \<Rightarrow> rat) \<Rightarrow> drain_state \<Rightarrow> (drain_state \<Rightarrow> bool) \<Rightarrow> bool" where
  "leads refuses consumer clock st P \<longleftrightarrow> (\<forall>k. \<exists>n. P (drain_calls refuses consumer clock k n st))"

lemma drain_calls_add:
  "drain_calls refuses consumer clock k (m + n) st =
     drain_calls refuses consumer clock (k + m) n (drain_calls refuses consumer clock k m st)"
  by (induction m arbitrary: k st) simp_all

lemma leads_now: "P st \<Longrightarrow> leads refuses consumer clock st P"
  unfolding leads_def by (metis drain_calls.simps(1))

lemma leads_step:
  assumes "\<And>k. leads refuses consumer clock (drain_step refuses consumer (clock k) Answered st) P"
  shows "leads refuses consumer clock st P"
  using assms unfolding leads_def by (metis drain_calls.simps(2))

lemma leads_trans:
  assumes "leads refuses consumer clock st Q" "\<And>st'. Q st' \<Longrightarrow> leads refuses consumer clock st' P"
  shows "leads refuses consumer clock st P"
  unfolding leads_def
proof
  fix k
  obtain m where "Q (drain_calls refuses consumer clock k m st)" using assms(1) unfolding leads_def by blast
  then obtain n where "P (drain_calls refuses consumer clock (k + m) n (drain_calls refuses consumer clock k m st))"
    using assms(2) unfolding leads_def by blast
  then show "\<exists>n. P (drain_calls refuses consumer clock k n st)" unfolding drain_calls_add [symmetric] by blast
qed

text \<open>What a pass leaves as it was.\<close>

definition same_stream :: "drain_state \<Rightarrow> drain_state \<Rightarrow> bool" where
  "same_stream st st' \<longleftrightarrow> ds_appended st' = ds_appended st \<and> ds_trimmed st' = ds_trimmed st \<and> ds_expired st' = ds_expired st"

lemma answered_step:
  "ds_pcs st consumer = Acking ack \<Longrightarrow>
     drain_step refuses consumer now Answered st = st\<lparr>ds_group := xack_xdel ack (ds_group st), ds_pcs := (ds_pcs st)(consumer := Idle)\<rparr>"
  "ds_pcs st consumer = Alone [] ack \<Longrightarrow> drain_step refuses consumer now Answered st = st\<lparr>ds_pcs := (ds_pcs st)(consumer := Acking ack)\<rparr>"
  "ds_pcs st consumer = Alone (r # rows) ack \<Longrightarrow> drain_step refuses consumer now Answered st =
     st\<lparr>ds_table := (if refuses r then ds_table st else record_capability_use now r (ds_table st)),
        ds_pcs := (ds_pcs st)(consumer := Alone rows ack)\<rparr>"
  "ds_pcs st consumer = Batch rows ack \<Longrightarrow> drain_step refuses consumer now Answered st =
     st\<lparr>ds_table := (if \<exists>r \<in> set rows. refuses r then ds_table st else foldl (\<lambda>tab r. record_capability_use now r tab) (ds_table st) rows),
        ds_pcs := (ds_pcs st)(consumer := if \<exists>r \<in> set rows. refuses r then Alone rows ack else Acking ack)\<rparr>"
  by (simp_all add: drain_step_def write_together_def write_alone_def after_call_def)

lemma acking_leads:
  assumes "drain_inv refuses st" "ds_pcs st consumer = Acking ack"
  shows "leads refuses consumer clock st (\<lambda>st'. drain_inv refuses st' \<and> ds_pcs st' consumer = Idle \<and>
    ds_group st' = xack_xdel ack (ds_group st) \<and> same_stream st st')"
proof (rule leads_step, rule leads_now)
  fix k
  show "drain_inv refuses (drain_step refuses consumer (clock k) Answered st) \<and>
      ds_pcs (drain_step refuses consumer (clock k) Answered st) consumer = Idle \<and>
      ds_group (drain_step refuses consumer (clock k) Answered st) = xack_xdel ack (ds_group st) \<and>
      same_stream st (drain_step refuses consumer (clock k) Answered st)"
    using inv_drain_step [OF assms(1), of consumer "clock k" Answered] by (simp add: answered_step(1) [OF assms(2)] same_stream_def)
qed

lemma alone_leads:
  assumes "drain_inv refuses st" "ds_pcs st consumer = Alone rows ack"
  shows "leads refuses consumer clock st (\<lambda>st'. drain_inv refuses st' \<and> ds_pcs st' consumer = Idle \<and>
    ds_group st' = xack_xdel ack (ds_group st) \<and> same_stream st st')"
  using assms
proof (induction rows arbitrary: st)
  case Nil
  show ?case
  proof (rule leads_step)
    fix k
    let ?st = "drain_step refuses consumer (clock k) Answered st"
    have "drain_inv refuses ?st" "ds_pcs ?st consumer = Acking ack" "ds_group ?st = ds_group st" "same_stream st ?st"
      using inv_drain_step [OF Nil(1), of consumer "clock k" Answered] by (simp_all add: answered_step(2) [OF Nil(2)] same_stream_def)
    from acking_leads [OF this(1,2)] this(3,4)
    show "leads refuses consumer clock ?st (\<lambda>st'. drain_inv refuses st' \<and> ds_pcs st' consumer = Idle \<and>
        ds_group st' = xack_xdel ack (ds_group st) \<and> same_stream st st')" by (simp add: same_stream_def)
  qed
next
  case (Cons r rows)
  show ?case
  proof (rule leads_step)
    fix k
    let ?st = "drain_step refuses consumer (clock k) Answered st"
    have "drain_inv refuses ?st" "ds_pcs ?st consumer = Alone rows ack" "ds_group ?st = ds_group st" "same_stream st ?st"
      using inv_drain_step [OF Cons(2), of consumer "clock k" Answered] by (simp_all add: answered_step(3) [OF Cons(3)] same_stream_def)
    from Cons.IH [OF this(1,2)] this(3,4)
    show "leads refuses consumer clock ?st (\<lambda>st'. drain_inv refuses st' \<and> ds_pcs st' consumer = Idle \<and>
        ds_group st' = xack_xdel ack (ds_group st) \<and> same_stream st st')" by (simp add: same_stream_def)
  qed
qed

lemma batch_leads:
  assumes "drain_inv refuses st" "ds_pcs st consumer = Batch rows ack"
  shows "leads refuses consumer clock st (\<lambda>st'. drain_inv refuses st' \<and> ds_pcs st' consumer = Idle \<and>
    ds_group st' = xack_xdel ack (ds_group st) \<and> same_stream st st')"
proof (rule leads_step)
  fix k
  let ?st = "drain_step refuses consumer (clock k) Answered st"
  have st: "drain_inv refuses ?st" "ds_group ?st = ds_group st" "same_stream st ?st"
    and "ds_pcs ?st consumer = Alone rows ack \<or> ds_pcs ?st consumer = Acking ack"
    using inv_drain_step [OF assms(1), of consumer "clock k" Answered] by (simp_all add: answered_step(4) [OF assms(2)] same_stream_def)
  then show "leads refuses consumer clock ?st (\<lambda>st'. drain_inv refuses st' \<and> ds_pcs st' consumer = Idle \<and>
      ds_group st' = xack_xdel ack (ds_group st) \<and> same_stream st st')"
    using alone_leads [OF st(1), of consumer rows ack clock] acking_leads [OF st(1), of consumer ack clock] st(2,3)
    by (auto simp: same_stream_def)
qed

text \<open>The two reads of a pass, when all that is pending is idle: nothing found means dead entries were dropped.\<close>

lemma claim_and_read:
  assumes G: "group_ok G" "\<forall>e \<in> set (ag_entries G). snd e \<noteq> []" "\<forall>p \<in> set (ag_pending G). idle t p"
    and x: "xautoclaim consumer t G = (es, G1)" and y: "xreadgroup consumer t' G1 = (fr, G2)"
  defines "G3 \<equiv> xack_xdel (map fst (es @ fr)) G2"
  shows "set es \<union> set fr \<subseteq> set (ag_entries G)"
    and "es @ fr = [] \<Longrightarrow> ag_entries G \<noteq> [] \<Longrightarrow> length (ag_pending G2) < length (ag_pending G)"
    and "es @ fr = [] \<Longrightarrow> set (ag_pending G2) \<subseteq> set (ag_pending G)"
    and "set (ag_pending G3) \<subseteq> set (ag_pending G)" and "length (ag_pending G3) \<le> length (ag_pending G)"
proof -
  note g1 = xautoclaim_ok [OF G(1) x]
  note g2 = xreadgroup_ok [OF g1(1) y]
  show sub: "set es \<union> set fr \<subseteq> set (ag_entries G)" using g1(2,5) g2(4) by auto
  define taken where "taken = map fst (take BATCH (ag_pending G))"
  define live where "live = filter (\<lambda>i. i \<in> fst ` set (ag_entries G)) taken"
  define fresh where "fresh = take BATCH (filter (\<lambda>(i, f). ag_last G < i) (ag_entries G))"
  define old where "old = filter (\<lambda>(i, c, t). i \<notin> set taken \<or> i \<in> set live) (ag_pending G)"
  have f: "filter (idle t) (ag_pending G) = ag_pending G" using G(3) by simp
  note x' = x [unfolded xautoclaim_def Let_def f, folded taken_def, folded live_def, folded old_def]
  have p1: "ag_pending G1 = map (\<lambda>(i, c, u). if i \<in> set live then (i, consumer, t) else (i, c, u)) old"
    and es: "es = filter (\<lambda>(i, f). i \<in> set live \<and> f \<noteq> []) (ag_entries G)"
    using x' by auto
  have "fr = fresh \<and> ag_pending G2 = ag_pending G1 @ map (\<lambda>(i, f). (i, consumer, t')) fresh"
  proof -
    have "filter (\<lambda>(i, f). f \<noteq> []) fresh = fresh"
      using G(2) by (fastforce simp: fresh_def filter_id_conv dest!: in_set_takeD)
    then show ?thesis using y g1(2,4) by (auto simp: xreadgroup_def Let_def fresh_def split: if_splits)
  qed
  then have fr: "fr = fresh" and p2: "ag_pending G2 = ag_pending G1 @ map (\<lambda>(i, f). (i, consumer, t')) fresh" by blast+
  have ids: "fst ` set es = set live"
  proof
    show "set live \<subseteq> fst ` set es"
    proof
      fix i assume i: "i \<in> set live"
      then obtain e where "e \<in> set (ag_entries G)" "fst e = i" by (auto simp: live_def)
      then show "i \<in> fst ` set es" using i G(2) by (force simp: es)
    qed
  qed (auto simp: es)
  have keep: "filter (\<lambda>(i, c, u). i \<notin> A) (map (\<lambda>(i, c, u). if i \<in> set live then (i, consumer, t) else (i, c, u)) ps) =
      filter (\<lambda>(i, c, u). i \<notin> A) ps" if "set live \<subseteq> A" for A ps
    using that by (induction ps) (auto split: if_splits)
  have "ag_pending G3 = filter (\<lambda>(i, c, u). i \<notin> fst ` (set es \<union> set fr)) old"
  proof -
    have "filter (\<lambda>(i, c, u). i \<notin> fst ` (set es \<union> set fr)) (map (\<lambda>(i, f). (i, consumer, t')) fresh) = []"
      unfolding fr by (force simp: filter_empty_conv)
    moreover have "set live \<subseteq> fst ` (set es \<union> set fr)" using ids by auto
    note keep [OF this, of old]
    ultimately show ?thesis unfolding G3_def xack_xdel_def p2 p1 by (simp add: image_Un)
  qed
  then show "set (ag_pending G3) \<subseteq> set (ag_pending G)" "length (ag_pending G3) \<le> length (ag_pending G)"
    by (auto simp: old_def intro: order_trans [OF length_filter_le])
  assume none: "es @ fr = []"
  have "live = []" using ids none by simp
  then have p: "ag_pending G2 = filter (\<lambda>(i, c, u). i \<notin> set taken) (ag_pending G)"
    using none fr by (simp add: p2 p1 old_def case_prod_beta)
  then show "set (ag_pending G2) \<subseteq> set (ag_pending G)" by auto
  assume some: "ag_entries G \<noteq> []"
  have "filter (\<lambda>(i, f). ag_last G < i) (ag_entries G) = []" using none fr by (auto simp: fresh_def BATCH_def)
  then have "\<forall>e \<in> set (ag_entries G). fst e \<le> ag_last G" by (auto simp: filter_empty_conv)
  then obtain q qs where q: "ag_pending G = q # qs"
    using some G(1) by (cases "ag_pending G"; cases "ag_entries G") (auto simp: group_ok_def pending_ids_def)
  then have "fst q \<in> set taken" by (simp add: taken_def BATCH_def)
  then show "length (ag_pending G2) < length (ag_pending G)"
    unfolding p q by (simp add: case_prod_beta less_Suc_eq_le)
qed

definition all_idle :: "(nat \<Rightarrow> rat) \<Rightarrow> drain_state \<Rightarrow> bool" where
  "all_idle clock st \<longleftrightarrow> (\<forall>k. \<forall>p \<in> set (ag_pending (ds_group st)). idle (clock k) p)"

definition left_over :: "drain_state \<Rightarrow> nat" where
  "left_over st = length (ag_entries (ds_group st)) + length (ag_pending (ds_group st))"

definition between_passes :: "(audit_params \<Rightarrow> bool) \<Rightarrow> string \<Rightarrow> (nat \<Rightarrow> rat) \<Rightarrow> drain_state \<Rightarrow> bool" where
  "between_passes refuses consumer clock st \<longleftrightarrow> drain_inv refuses st \<and> ds_pcs st consumer = Idle \<and> all_idle clock st"

lemma pass_leads:
  assumes st: "between_passes refuses consumer clock st" and some: "ag_entries (ds_group st) \<noteq> []"
  shows "leads refuses consumer clock st (\<lambda>st'. between_passes refuses consumer clock st' \<and> same_stream st st' \<and> left_over st' < left_over st)"
    (is "leads _ _ _ _ ?P")
proof (rule leads_step)
  fix k
  have inv: "drain_inv refuses st" and idle: "ds_pcs st consumer = Idle" and all: "all_idle clock st"
    using st by (auto simp: between_passes_def)
  have G: "group_ok (ds_group st)" "\<forall>e \<in> set (ag_entries (ds_group st)). snd e \<noteq> []" "\<forall>p \<in> set (ag_pending (ds_group st)). idle (clock k) p"
    using inv all by (auto simp: drain_inv_def stream_ok_def all_idle_def)
  obtain es G1 where x: "xautoclaim consumer (clock k) (ds_group st) = (es, G1)" by force
  let ?st1 = "drain_step refuses consumer (clock k) Answered st"
  have st1: "?st1 = st\<lparr>ds_group := G1, ds_pcs := (ds_pcs st)(consumer := Claimed es)\<rparr>"
    by (simp add: drain_step_def write_together_def write_alone_def after_call_def idle x)
  have inv1: "drain_inv refuses ?st1" by (rule inv_drain_step [OF inv])
  show "leads refuses consumer clock ?st1 ?P"
  proof (rule leads_step)
    fix k'
    obtain fr G2 where y: "xreadgroup consumer (clock k') G1 = (fr, G2)" by force
    let ?st2 = "drain_step refuses consumer (clock k') Answered ?st1"
    note cr = claim_and_read [OF G x y]
    have ent: "ag_entries G2 = ag_entries (ds_group st)"
      using xautoclaim_ok(1,2) [OF G(1) x] xreadgroup_ok(2) [OF _ y] by simp
    have st2: "?st2 = st\<lparr>ds_group := G2, ds_pcs := (ds_pcs st)(consumer := before_write (es @ fr))\<rparr>"
      unfolding st1 by (simp add: drain_step_def write_together_def write_alone_def after_call_def y)
    have inv2: "drain_inv refuses ?st2" by (rule inv_drain_step [OF inv1])
    show "leads refuses consumer clock ?st2 ?P"
    proof (cases "es @ fr = []")
      case True
      then have "?P ?st2"
        using inv2 cr(2) [OF True some] cr(3) [OF True] all
        by (auto simp: between_passes_def all_idle_def left_over_def same_stream_def before_write_def st2 ent)
      then show ?thesis by (rule leads_now)
    next
      case False
      define G3 where "G3 = xack_xdel (map fst (es @ fr)) G2"
      have rest: "leads refuses consumer clock ?st2 (\<lambda>st'. drain_inv refuses st' \<and> ds_pcs st' consumer = Idle \<and>
          ds_group st' = G3 \<and> same_stream ?st2 st')"
      proof (cases "readable (es @ fr) = []")
        case True
        then have "ds_pcs ?st2 consumer = Acking (map fst (es @ fr))" using False by (simp add: st2 before_write_def)
        from acking_leads [OF inv2 this] show ?thesis by (simp add: st2 G3_def)
      next
        case rows: False
        then have "ds_pcs ?st2 consumer = Batch (readable (es @ fr)) (map fst (es @ fr))" using False by (simp add: st2 before_write_def)
        from batch_leads [OF inv2 this] show ?thesis by (simp add: st2 G3_def)
      qed
      have less: "length (ag_entries G3) < length (ag_entries (ds_group st))"
      proof -
        obtain e where "e \<in> set (es @ fr)" using False by (cases "es @ fr") auto
        then have "e \<in> set (ag_entries (ds_group st))" "fst e \<in> set (map fst (es @ fr))" using cr(1) by auto
        then show ?thesis unfolding G3_def xack_xdel_def ent by (simp add: length_filter_less case_prod_beta)
      qed
      have pend: "set (ag_pending G3) \<subseteq> set (ag_pending (ds_group st))" "length (ag_pending G3) \<le> length (ag_pending (ds_group st))"
        using cr(4,5) by (simp_all add: G3_def)
      have "same_stream st ?st2" by (simp add: st2 same_stream_def)
      then have "?P st'" if "drain_inv refuses st' \<and> ds_pcs st' consumer = Idle \<and> ds_group st' = G3 \<and> same_stream ?st2 st'" for st'
        using that pend less all unfolding between_passes_def all_idle_def left_over_def same_stream_def by auto
      then show ?thesis by (intro leads_trans [OF rest] leads_now)
    qed
  qed
qed

lemma drains:
  assumes "between_passes refuses consumer clock st"
  shows "leads refuses consumer clock st (\<lambda>st'. between_passes refuses consumer clock st' \<and> same_stream st st' \<and> ag_entries (ds_group st') = [])"
  using assms
proof (induction "left_over st" arbitrary: st rule: less_induct)
  case less
  show ?case
  proof (cases "ag_entries (ds_group st) = []")
    case True
    then show ?thesis using less.prems by (intro leads_now) (simp add: same_stream_def)
  next
    case False
    show ?thesis
    proof (rule leads_trans [OF pass_leads [OF less.prems False]])
      fix st' assume st': "between_passes refuses consumer clock st' \<and> same_stream st st' \<and> left_over st' < left_over st"
      from less.hyps [of st'] st'
      show "leads refuses consumer clock st' (\<lambda>st'. between_passes refuses consumer clock st' \<and> same_stream st st' \<and> ag_entries (ds_group st') = [])"
        by (simp add: same_stream_def)
    qed
  qed
qed


section \<open>An entry recorded\<close>

definition demo_event :: fields where
  "demo_event = [(''kind'', FStr ''minted''), (''plane'', FStr ''hub''), (''at'', FTime noon)]"

definition demo_appended :: drain_state where
  "demo_appended = append_step 0 demo_event empty_record"

definition demo_params :: audit_params where
  "demo_params = \<lparr>pr_stream_id = 1, pr_row = \<lparr>row_kind = ''minted'', row_plane = ''hub'', row_at = noon, row_user = None,
     row_company = None, row_audience = None, row_handle = None, row_digest = None, row_reason = None, row_detail = None,
     row_suppressed = None\<rparr>, pr_at = 43200, pr_suppressed = None\<rparr>"

lemma demo_entry_params: "entry_params (Suc 0, demo_event) = Inr demo_params"
  by (simp add: entry_params_def audit_decode_def demo_event_def fget_def KINDS_def PLANES_def opt_uuid_def params_of_def
      MIN_TIME_def MAX_TIME_def demo_params_def)

lemma demo_reach: "drain_reach (\<lambda>_. False) demo_appended"
  unfolding demo_appended_def by (rule drain_reach.append [OF drain_reach.start]) (simp_all add: demo_event_def)

lemma demo_stream: "ds_appended demo_appended = [(Suc 0, demo_event)]" "ds_trimmed demo_appended = {}" "ds_expired demo_appended = {}"
  "ag_pending (ds_group demo_appended) = []" "ds_pcs demo_appended c = Idle"
  by (simp_all add: demo_appended_def append_step_def empty_record_def xadd_def)

lemma drain_calls_reach: "drain_reach refuses st \<Longrightarrow> drain_reach refuses (drain_calls refuses consumer clock k n st)"
  by (induction n arbitrary: k st) (simp_all add: drain_reach.call)

definition demo_written :: drain_state where
  "demo_written = drain_calls (\<lambda>_. False) ''w'' (\<lambda>_. 0) 0 4 demo_appended"

lemma demo_ne: "demo_event \<noteq> []"
  by (simp add: demo_event_def)

lemma demo_written_stream: "ag_entries (ds_group demo_written) = []" "ds_trimmed demo_written = {}" "ds_expired demo_written = {}"
  "ds_appended demo_written = [(Suc 0, demo_event)]"
  by (simp_all add: demo_written_def eval_nat_numeral demo_appended_def append_step_def empty_record_def xadd_def drain_step_def write_together_def write_alone_def
      after_call_def xautoclaim_def xreadgroup_def before_write_def demo_entry_params demo_ne BATCH_def xack_xdel_def Let_def)

theorem audit_record_complete_witness: "1 \<in> row_ids (ds_table demo_written)"
proof -
  have "drain_reach (\<lambda>_. False) demo_written" unfolding demo_written_def by (rule drain_calls_reach [OF demo_reach])
  from conjunct1 [OF audit_record_complete [OF this]] show ?thesis
    by (simp add: demo_written_stream demo_entry_params)
qed


end
