(* ===== verification/Cold_Export.thy ===== *)
theory Cold_Export
  imports Tenancy Sql_Scram "HOL-Library.Product_Lexorder" "HOL-Library.List_Lexorder" "HOL-Library.Char_ord"
begin

text \<open>
  The cold-layer export (\<open>services/cold_export\<close>: \<open>exporter.py\<close>, \<open>naming.py\<close>, and of \<open>source.py\<close> and \<open>store.py\<close> what
  their calls do) with the database's checked drop (\<open>16-cold-layer-raw-retention.sql\<close>).

  Each call to the database or to the object store is answered, fails, or is where the run dies, carried out or not,
  and before each of them the hot table may have changed. A write may keep only the first rows of a part; the
  digest of a day's rows is the parameter \<open>fp\<close>. The state also keeps which rows the drops removed.
\<close>

section \<open>Measurements and days\<close>

record measurement =
  ms_time :: rat
  ms_sensor_id :: string
  ms_equipment_id :: "string option"
  ms_site_id :: "string option"
  ms_value :: py_float
  ms_unit :: "string option"
  ms_quality_code :: "int option"
  ms_is_anomaly :: "bool option"

text \<open>\<open>KEY_COLUMNS\<close>.\<close>

definition ms_key :: "measurement \<Rightarrow> rat \<times> string" where
  "ms_key m = (ms_time m, ms_sensor_id m)"

text \<open>A \<open>date\<close>, ordered by year, month and day.\<close>

datatype date = Date nat nat nat

fun date_key :: "date \<Rightarrow> nat \<times> nat \<times> nat" where
  "date_key (Date y m d) = (y, m, d)"

lemma date_key_inj: "date_key a = date_key b \<longleftrightarrow> a = b"
  by (cases a; cases b) simp

instantiation date :: linorder
begin

definition less_eq_date :: "date \<Rightarrow> date \<Rightarrow> bool" where
  "a \<le> b \<longleftrightarrow> date_key a \<le> date_key b"

definition less_date :: "date \<Rightarrow> date \<Rightarrow> bool" where
  "a < b \<longleftrightarrow> date_key a < date_key b"

instance
  by standard (auto simp: less_eq_date_def less_date_def less_le_not_le simp flip: date_key_inj)

end

definition leap_year :: "nat \<Rightarrow> bool" where
  "leap_year y \<longleftrightarrow> y mod 4 = 0 \<and> (y mod 100 \<noteq> 0 \<or> y mod 400 = 0)"

definition month_days :: "nat \<Rightarrow> nat \<Rightarrow> nat" where
  "month_days y m = (if m = 2 then (if leap_year y then 29 else 28) else if m \<in> {4, 6, 9, 11} then 30 else 31)"

fun day_before :: "date \<Rightarrow> date result" where
  "day_before (Date y m d) =
     (if 1 < d then Inr (Date y m (d - 1))
      else if 1 < m then Inr (Date y (m - 1) (month_days y (m - 1)))
      else if 1 < y then Inr (Date (y - 1) 12 31)
      else Inl OverflowError)"

text \<open>\<open>today - timedelta(days=horizon_days)\<close>.\<close>

fun days_before :: "nat \<Rightarrow> date \<Rightarrow> date result" where
  "days_before 0 d = Inr d"
| "days_before (Suc n) d = (case day_before d of Inl e \<Rightarrow> Inl e | Inr d' \<Rightarrow> days_before n d')"

section \<open>Names\<close>

fun day_partition :: "string \<Rightarrow> date \<Rightarrow> string" where
  "day_partition pre (Date y m d) =
     pre @ ''/year='' @ pad_zeros 4 (show_nat (int y)) @ ''/month='' @ pad_zeros 2 (show_nat (int m)) @
     ''/day='' @ pad_zeros 2 (show_nat (int d))"

definition FIRST_PART :: string where "FIRST_PART = ''measurements.parquet''"

definition part_file :: "nat \<Rightarrow> string" where
  "part_file index =
     (if index = 0 then FIRST_PART else ''measurements-'' @ pad_zeros 4 (show_nat (int index)) @ ''.parquet'')"

definition part_key :: "string \<Rightarrow> date \<Rightarrow> string \<Rightarrow> string result" where
  "part_key pre d part =
     (if CHR ''/'' \<in> set part \<or> \<not> ends_with part ''.parquet'' then Inl ValueError
      else Inr (day_partition pre d @ ''/'' @ part))"

definition manifest_key :: "string \<Rightarrow> date \<Rightarrow> string" where
  "manifest_key pre d = day_partition pre d @ ''/_manifest.json''"

section \<open>The manifest\<close>

type_synonym parts = "(string \<times> int) list"

datatype export_error = ExportError | ExportPy py_error | ExportDied

text \<open>\<open>int(v)\<close> of a parsed value.\<close>

fun json_int :: "json \<Rightarrow> int result" where
  "json_int (JInt i) = Inr i"
| "json_int (JBool b) = Inr (if b then 1 else 0)"
| "json_int (JFloat (Fin q)) = Inr (if 0 \<le> q then \<lfloor>q\<rfloor> else \<lceil>q\<rceil>)"
| "json_int (JFloat NaN) = Inl ValueError"
| "json_int (JFloat _) = Inl OverflowError"
| "json_int (JStr s) = (case py_int s of None \<Rightarrow> Inl ValueError | Some i \<Rightarrow> Inr i)"
| "json_int _ = Inl TypeError"

fun listed_parts :: "json list \<Rightarrow> parts result" where
  "listed_parts [] = Inr []"
| "listed_parts (JObj p # ps) =
     (case (map_of p ''file'', map_of p ''rows'') of
        (Some f, Some r) \<Rightarrow>
          (case json_int r of
             Inl e \<Rightarrow> Inl e
           | Inr n \<Rightarrow> res_map (Cons (py_str f, n)) (listed_parts ps))
      | _ \<Rightarrow> Inl KeyError)"
| "listed_parts (_ # ps) = Inl TypeError"

definition is_legacy :: "json option \<Rightarrow> bool" where
  "is_legacy manifest = (case manifest of Some (JObj m) \<Rightarrow> map_of m ''parts'' = None | _ \<Rightarrow> False)"

definition manifest_parts :: "json option \<Rightarrow> parts result" where
  "manifest_parts manifest =
     (case manifest of
        None \<Rightarrow> Inr []
      | Some (JObj m) \<Rightarrow>
          (case map_of m ''parts'' of
             Some (JArr ps) \<Rightarrow> listed_parts ps
           | Some (JObj []) \<Rightarrow> Inr []
           | Some (JStr []) \<Rightarrow> Inr []
           | Some _ \<Rightarrow> Inl TypeError
           | None \<Rightarrow>
               (case map_of m ''rows'' of
                  None \<Rightarrow> Inl KeyError
                | Some r \<Rightarrow> res_map (\<lambda>n. [(part_file 0, n)]) (json_int r)))
      | Some _ \<Rightarrow> Inl TypeError)"

definition MANIFEST_FORMAT :: int where "MANIFEST_FORMAT = 2"

definition iso_day :: "date \<Rightarrow> string" where
  "iso_day dy = (case dy of Date y m d \<Rightarrow>
     pad_zeros 4 (show_nat (int y)) @ ''-'' @ pad_zeros 2 (show_nat (int m)) @ ''-'' @ pad_zeros 2 (show_nat (int d)))"

definition manifest_of :: "string \<Rightarrow> date \<Rightarrow> parts \<Rightarrow> json" where
  "manifest_of schema d ps =
     JObj [(''format'', JInt MANIFEST_FORMAT), (''schema'', JStr schema), (''day'', JStr (iso_day d)),
       (''rows'', JInt (sum_list (map snd ps))),
       (''parts'', JArr (map (\<lambda>(f, n). JObj [(''file'', JStr f), (''rows'', JInt n)]) ps))]"

section \<open>The database and the object store\<close>

datatype cold_object = Parquet "measurement list" | JsonFile json

type_synonym hot = "(string \<times> date \<times> measurement) list"

record export_state =
  xs_hot :: hot
  xs_drops :: "(string \<times> date \<times> string) set"
  xs_store :: "string \<rightharpoonup> cold_object"
  xs_dropped :: "(string \<times> date \<times> measurement) list"
  xs_calls :: nat

record export_env =
  xe_net :: "nat \<Rightarrow> answer"
  xe_hot :: "nat \<Rightarrow> hot \<Rightarrow> hot"
  xe_keep :: "nat \<Rightarrow> nat"

type_synonym 'a export = "export_state \<Rightarrow> (export_error + 'a) \<times> export_state"

definition xreturn :: "'a \<Rightarrow> 'a export" where
  "xreturn x st = (Inr x, st)"

definition xraise :: "export_error \<Rightarrow> 'a export" where
  "xraise e st = (Inl e, st)"

definition xbind :: "'a export \<Rightarrow> ('a \<Rightarrow> 'b export) \<Rightarrow> 'b export" where
  "xbind m k st = (case m st of (Inl e, st') \<Rightarrow> (Inl e, st') | (Inr x, st') \<Rightarrow> k x st')"

definition xlift :: "'a result \<Rightarrow> 'a export" where
  "xlift r st = ((case r of Inl e \<Rightarrow> Inl (ExportPy e) | Inr x \<Rightarrow> Inr x), st)"

definition xcall :: "export_env \<Rightarrow> 'a export \<Rightarrow> 'a export" where
  "xcall E f st =
     (let st1 = st\<lparr>xs_hot := xe_hot E (xs_calls st) (xs_hot st), xs_calls := Suc (xs_calls st)\<rparr>
      in case xe_net E (xs_calls st) of
           Answered \<Rightarrow> f st1
         | Failed carried \<Rightarrow> (Inl (ExportPy StoreError), if carried then snd (f st1) else st1)
         | Dead carried \<Rightarrow> (Inl ExportDied, if carried then snd (f st1) else st1))"

definition day_rows :: "hot \<Rightarrow> string \<Rightarrow> date \<Rightarrow> measurement list" where
  "day_rows h s d = map (\<lambda>(s', d', m). m) (filter (\<lambda>(s', d', m). s' = s \<and> d' = d) h)"

text \<open>\<open>ColdStore\<close>: \<open>json.loads\<close> of a manifest \<open>null\<close> is \<open>None\<close>.\<close>

definition read_manifest :: "string \<Rightarrow> date \<Rightarrow> json option export" where
  "read_manifest pre d st =
     (case xs_store st (manifest_key pre d) of
        None \<Rightarrow> (Inr None, st)
      | Some (JsonFile j) \<Rightarrow> (Inr (if j = JNull then None else Some j), st)
      | Some (Parquet _) \<Rightarrow> (Inl (ExportPy ValueError), st))"

definition write_manifest :: "string \<Rightarrow> date \<Rightarrow> json \<Rightarrow> unit export" where
  "write_manifest pre d j st = (Inr (), st\<lparr>xs_store := (xs_store st)(manifest_key pre d \<mapsto> JsonFile j)\<rparr>)"

definition read_part :: "string \<Rightarrow> date \<Rightarrow> string \<Rightarrow> measurement list export" where
  "read_part pre d part st =
     (case part_key pre d part of
        Inl e \<Rightarrow> (Inl (ExportPy e), st)
      | Inr k \<Rightarrow> (case xs_store st k of Some (Parquet rs) \<Rightarrow> (Inr rs, st) | _ \<Rightarrow> (Inl (ExportPy StoreError), st)))"

definition part_row_count :: "string \<Rightarrow> date \<Rightarrow> string \<Rightarrow> int export" where
  "part_row_count pre d part = xbind (read_part pre d part) (\<lambda>rs. xreturn (int (length rs)))"

definition read_part_keys :: "string \<Rightarrow> date \<Rightarrow> string \<Rightarrow> (rat \<times> string) list export" where
  "read_part_keys pre d part = xbind (read_part pre d part) (\<lambda>rs. xreturn (map ms_key rs))"

text \<open>
  \<open>write_part\<close> answers the rows the writer emitted; of these the store keeps the first \<open>keep\<close>. The number of the
  call names it: a call has been counted when it is carried out.
\<close>

definition write_part :: "export_env \<Rightarrow> string \<Rightarrow> date \<Rightarrow> string \<Rightarrow> measurement list \<Rightarrow> int export" where
  "write_part E pre d part rows st =
     (case part_key pre d part of
        Inl e \<Rightarrow> (Inl (ExportPy e), st)
      | Inr k \<Rightarrow>
          if rows = [] then (Inl (ExportPy ValueError), st)
          else (Inr (int (length rows)), st\<lparr>xs_store := (xs_store st)(k \<mapsto> Parquet (take (xe_keep E (xs_calls st)) rows))\<rparr>))"

text \<open>\<open>MeasurementSource\<close>.\<close>

record snapshot =
  sn_rows :: "measurement list"
  sn_fingerprint :: int

definition row_order :: "measurement \<Rightarrow> bool \<times> string \<times> rat" where
  "row_order m = (ms_equipment_id m = None, (case ms_equipment_id m of None \<Rightarrow> [] | Some e \<Rightarrow> e), ms_time m)"

definition snapshot_day :: "(measurement list \<Rightarrow> int) \<Rightarrow> string \<Rightarrow> date \<Rightarrow> snapshot export" where
  "snapshot_day fp s d st =
     (let rows = day_rows (xs_hot st) s d in (Inr \<lparr>sn_rows = rows, sn_fingerprint = fp rows\<rparr>, st))"

definition batches :: "snapshot \<Rightarrow> measurement list" where
  "batches snap = sort_key row_order (sn_rows snap)"

definition drop_recorded :: "string \<Rightarrow> date \<Rightarrow> string \<Rightarrow> bool export" where
  "drop_recorded s d part st = (Inr ((s, d, part) \<in> xs_drops st), st)"

text \<open>\<open>cold_export_drop_day\<close>: the part's name is checked, then the day's rows against the snapshot.\<close>

definition valid_part :: "string \<Rightarrow> bool" where
  "valid_part part \<longleftrightarrow> part = ''measurements.parquet'' \<or>
     length part = 25 \<and> starts_with part ''measurements-'' \<and> list_all is_digit (take 4 (drop 13 part)) \<and> ends_with part ''.parquet''"

definition drop_day :: "(measurement list \<Rightarrow> int) \<Rightarrow> string \<Rightarrow> date \<Rightarrow> snapshot \<Rightarrow> string \<Rightarrow> bool export" where
  "drop_day fp s d snap part st =
     (let rows = day_rows (xs_hot st) s d
      in if \<not> valid_part part then (Inl (ExportPy StoreError), st)
         else if length rows \<noteq> length (sn_rows snap) \<or> fp rows \<noteq> sn_fingerprint snap then (Inr False, st)
         else (Inr True, st\<lparr>xs_hot := filter (\<lambda>(s', d', m). \<not> (s' = s \<and> d' = d)) (xs_hot st),
                 xs_drops := insert (s, d, part) (xs_drops st),
                 xs_dropped := xs_dropped st @ map (\<lambda>m. (s, d, m)) rows\<rparr>))"

section \<open>Exporting a day\<close>

definition check_part :: "export_env \<Rightarrow> string \<Rightarrow> date \<Rightarrow> string \<times> int \<Rightarrow> unit export" where
  "check_part E pre d part =
     xbind (xcall E (part_row_count pre d (fst part))) (\<lambda>footer.
       if footer \<noteq> snd part then xraise ExportError else xreturn ())"

fun check_parts :: "export_env \<Rightarrow> string \<Rightarrow> date \<Rightarrow> parts \<Rightarrow> unit export" where
  "check_parts E pre d [] = xreturn ()"
| "check_parts E pre d (p # ps) = xbind (check_part E pre d p) (\<lambda>_. check_parts E pre d ps)"

fun archived_keys :: "export_env \<Rightarrow> string \<Rightarrow> date \<Rightarrow> parts \<Rightarrow> (rat \<times> string) list export" where
  "archived_keys E pre d [] = xreturn []"
| "archived_keys E pre d (p # ps) =
     xbind (xcall E (read_part_keys pre d (fst p))) (\<lambda>ks.
     xbind (archived_keys E pre d ps) (\<lambda>rest. xreturn (ks @ rest)))"

definition without_archived :: "export_env \<Rightarrow> string \<Rightarrow> date \<Rightarrow> snapshot \<Rightarrow> parts \<Rightarrow> measurement list export" where
  "without_archived E pre d snap base =
     xbind (xcall E (xreturn (batches snap))) (\<lambda>rows.
     if length rows \<noteq> length (sn_rows snap) then xraise ExportError
     else xbind (archived_keys E pre d base) (\<lambda>archived.
       xreturn (sort_key row_order (filter (\<lambda>m. ms_key m \<notin> set archived) rows))))"

definition write_and_verify :: "export_env \<Rightarrow> string \<Rightarrow> date \<Rightarrow> string \<Rightarrow> measurement list \<Rightarrow> unit export" where
  "write_and_verify E pre d part rows =
     xbind (xcall E (write_part E pre d part rows)) (\<lambda>written.
     if written \<noteq> int (length rows) then xraise ExportError
     else xbind (xcall E (part_row_count pre d part)) (\<lambda>footer.
       if footer \<noteq> int (length rows) then xraise ExportError else xreturn ()))"

definition export_empty ::
    "export_env \<Rightarrow> (measurement list \<Rightarrow> int) \<Rightarrow> string \<Rightarrow> string \<Rightarrow> date \<Rightarrow> parts \<Rightarrow> bool \<Rightarrow> snapshot \<Rightarrow> string export" where
  "export_empty E fp s pre d parts pending snap =
     (if \<not> pending then xreturn (if parts \<noteq> [] then ''already_done'' else ''empty'')
      else xbind (check_part E pre d (last parts)) (\<lambda>_.
        xbind (xcall E (drop_day fp s d snap (fst (last parts)))) (\<lambda>dropped.
          xreturn (if dropped then ''resumed_drop'' else ''drop_deferred''))))"

definition export_outcome :: "parts \<Rightarrow> bool \<Rightarrow> nat \<Rightarrow> bool \<Rightarrow> string" where
  "export_outcome base pending expected dropped =
     (if \<not> dropped then ''drop_deferred''
      else if expected = 0 then ''resumed_drop''
      else if pending then ''reexported''
      else if base \<noteq> [] then ''late_rows_exported'' else ''exported'')"

definition list_and_drop ::
    "export_env \<Rightarrow> (measurement list \<Rightarrow> int) \<Rightarrow> string \<Rightarrow> string \<Rightarrow> date \<Rightarrow> parts \<Rightarrow> bool \<Rightarrow> snapshot \<Rightarrow> measurement list \<Rightarrow> string export" where
  "list_and_drop E fp s pre d base pending snap fresh =
     (let expected = length fresh;
          part = (if expected \<noteq> 0 then part_file (length base) else fst (last base));
          parts_after = (if expected \<noteq> 0 then base @ [(part, int expected)] else base)
      in xbind (xcall E (write_manifest pre d (manifest_of s d parts_after))) (\<lambda>_.
         xbind (xcall E (drop_day fp s d snap part)) (\<lambda>dropped.
           xreturn (export_outcome base pending expected dropped))))"

definition export_rows ::
    "export_env \<Rightarrow> (measurement list \<Rightarrow> int) \<Rightarrow> string \<Rightarrow> string \<Rightarrow> date \<Rightarrow> parts \<Rightarrow> bool \<Rightarrow> snapshot \<Rightarrow> string export" where
  "export_rows E fp s pre d base pending snap =
     xbind (if base \<noteq> [] then without_archived E pre d snap base else xreturn (batches snap)) (\<lambda>fresh.
     xbind (if fresh \<noteq> [] then write_and_verify E pre d (part_file (length base)) fresh else xreturn ()) (\<lambda>_.
       list_and_drop E fp s pre d base pending snap fresh))"

definition export_day ::
    "export_env \<Rightarrow> (measurement list \<Rightarrow> int) \<Rightarrow> string \<Rightarrow> string \<Rightarrow> date \<Rightarrow> string export" where
  "export_day E fp s pre d =
     xbind (xcall E (read_manifest pre d)) (\<lambda>manifest.
     xbind (xlift (manifest_parts manifest)) (\<lambda>parts.
     xbind (if parts \<noteq> [] \<and> \<not> is_legacy manifest
            then xbind (xcall E (drop_recorded s d (fst (last parts)))) (\<lambda>r. xreturn (\<not> r))
            else xreturn False) (\<lambda>pending.
     let committed = (if pending then butlast parts else parts)
     in xbind (check_parts E pre d committed) (\<lambda>_.
        xbind (xcall E (snapshot_day fp s d)) (\<lambda>snap.
          if sn_rows snap = [] then export_empty E fp s pre d parts pending snap
          else export_rows E fp s pre d committed pending snap)))))"

section \<open>A run\<close>

type_synonym tally = "(string, nat) od"

definition count_outcome :: "string \<Rightarrow> nat \<Rightarrow> tally \<Rightarrow> tally" where
  "count_outcome oc n t = od_set t oc ((case od_get t oc of None \<Rightarrow> 0 | Some m \<Rightarrow> m) + n)"

definition exportable_days :: "string \<Rightarrow> date \<Rightarrow> date list export" where
  "exportable_days s older_than st =
     (Inr (sort (remdups (map (\<lambda>(s', d, m). d) (filter (\<lambda>(s', d, m). s' = s \<and> d < older_than) (xs_hot st))))), st)"

fun export_days ::
    "export_env \<Rightarrow> (measurement list \<Rightarrow> int) \<Rightarrow> string \<Rightarrow> string \<Rightarrow> date list \<Rightarrow> tally \<Rightarrow> tally export" where
  "export_days E fp s pre [] t = xreturn t"
| "export_days E fp s pre (d # ds) t =
     xbind (export_day E fp s pre d) (\<lambda>oc. export_days E fp s pre ds (count_outcome oc 1 t))"

definition export_tenant ::
    "export_env \<Rightarrow> (measurement list \<Rightarrow> int) \<Rightarrow> string \<times> string \<Rightarrow> date \<Rightarrow> tally export" where
  "export_tenant E fp tenant cutoff =
     xbind (xlift (cold_object_prefix (fst tenant))) (\<lambda>pre.
     xbind (xlift (schema_name (fst tenant))) (\<lambda>schema.
     if snd tenant \<noteq> schema then xraise ExportError
     else xbind (xcall E (exportable_days schema cutoff)) (\<lambda>days. export_days E fp schema pre days [])))"

fun export_tenants ::
    "export_env \<Rightarrow> (measurement list \<Rightarrow> int) \<Rightarrow> (string \<times> string) list \<Rightarrow> date \<Rightarrow> tally \<Rightarrow> nat \<Rightarrow> (tally \<times> nat) export" where
  "export_tenants E fp [] cutoff t failures = xreturn (t, failures)"
| "export_tenants E fp (tenant # tenants) cutoff t failures = (\<lambda>st.
     (case export_tenant E fp tenant cutoff st of
        (Inl ExportDied, st1) \<Rightarrow> (Inl ExportDied, st1)
      | (Inl _, st1) \<Rightarrow> export_tenants E fp tenants cutoff t (Suc failures) st1
      | (Inr tt, st1) \<Rightarrow> export_tenants E fp tenants cutoff (foldl (\<lambda>t (oc, n). count_outcome oc n t) t tt) failures st1))"

definition run_export_locked ::
    "export_env \<Rightarrow> (measurement list \<Rightarrow> int) \<Rightarrow> (string \<times> string) list \<Rightarrow> nat \<Rightarrow> date \<Rightarrow> tally export" where
  "run_export_locked E fp tenants horizon_days today =
     xbind (xlift (days_before horizon_days today)) (\<lambda>cutoff.
     xbind (xcall E (xreturn tenants)) (\<lambda>ts.
     xbind (export_tenants E fp ts cutoff [] 0) (\<lambda>(t, failures).
       if failures \<noteq> 0 then xraise ExportError else xreturn t)))"

text \<open>\<open>run_export\<close>: nothing while another run holds the lock.\<close>

definition run_export ::
    "export_env \<Rightarrow> (measurement list \<Rightarrow> int) \<Rightarrow> (string \<times> string) list \<Rightarrow> nat \<Rightarrow> date \<Rightarrow> bool \<Rightarrow> tally export" where
  "run_export E fp tenants horizon_days today acquired =
     xbind (xcall E (xreturn acquired)) (\<lambda>held.
       if held then run_export_locked E fp tenants horizon_days today
       else xreturn [(''skipped_overlapping_run'', 1)])"

end
