(* ===== verification/Cold_Archive.thy ===== *)
theory Cold_Archive
  imports Cold_Export "HOL-Library.Sublist"
begin

text \<open>
  What the exports of \<open>Cold_Export\<close> promise: over runs that fail or die anywhere, with the hot table changing
  meanwhile, every row a drop removed is in the archive under its key, no key is archived twice, and what is
  archived stays as it is. A second result shows where this does not hold: a day whose manifest predates parts.
\<close>

section \<open>Names\<close>

lemma decimal_pad: "decimal (pad_zeros n s) = decimal s"
proof -
  have "foldl (\<lambda>n c. 10 * n + (ord c - 48)) 0 (replicate k (CHR ''0'')) = (0 :: int)" for k
    by (induction k) (simp_all add: ord_def)
  then show ?thesis by (simp add: pad_zeros_def decimal_def)
qed

lemma pad_inj: "pad_zeros n (show_nat (int a)) = pad_zeros n (show_nat (int b)) \<Longrightarrow> a = b"
  by (metis decimal_pad decimal_show_nat of_nat_0_le_iff of_nat_eq_iff)

lemma pad_digits: "list_all is_digit (pad_zeros n (show_nat (int a)))"
  using show_nat_digits [of "int a"] by (auto simp: pad_zeros_def list_all_iff is_digit_def ord_def)

lemma digits_no_slash: "list_all is_digit s \<Longrightarrow> CHR ''/'' \<notin> set s"
  by (auto simp: list_all_iff is_digit_def ord_def)

lemma pad_no_slash [simp]: "CHR ''/'' \<notin> set (pad_zeros n (show_nat (int a)))"
  by (rule digits_no_slash [OF pad_digits])

lemma key_split:
  assumes "CHR ''/'' \<notin> set pre" "CHR ''/'' \<notin> set f"
  shows "split_on (CHR ''/'') (day_partition pre (Date y m d) @ ''/'' @ f) =
    [pre, ''year='' @ pad_zeros 4 (show_nat (int y)), ''month='' @ pad_zeros 2 (show_nat (int m)),
     ''day='' @ pad_zeros 2 (show_nat (int d)), f]"
proof -
  let ?y = "''year='' @ pad_zeros 4 (show_nat (int y))" and ?m = "''month='' @ pad_zeros 2 (show_nat (int m))"
    and ?d = "''day='' @ pad_zeros 2 (show_nat (int d))"
  have "day_partition pre (Date y m d) @ ''/'' @ f =
      pre @ CHR ''/'' # ?y @ CHR ''/'' # ?m @ CHR ''/'' # ?d @ CHR ''/'' # f" by simp
  moreover have "CHR ''/'' \<notin> set ?y" "CHR ''/'' \<notin> set ?m" "CHR ''/'' \<notin> set ?d" by simp_all
  ultimately show ?thesis using assms by (simp only: split_on_append) (simp add: split_on_no_sep)
qed

lemma key_inj:
  assumes "CHR ''/'' \<notin> set pre" "CHR ''/'' \<notin> set pre'" "CHR ''/'' \<notin> set f" "CHR ''/'' \<notin> set f'"
    and "day_partition pre d @ ''/'' @ f = day_partition pre' d' @ ''/'' @ f'"
  shows "pre = pre' \<and> d = d' \<and> f = f'"
proof -
  obtain y m e y' m' e' where d: "d = Date y m e" "d' = Date y' m' e'" by (metis date.exhaust)
  from assms(5) have "split_on (CHR ''/'') (day_partition pre d @ ''/'' @ f) = split_on (CHR ''/'') (day_partition pre' d' @ ''/'' @ f')"
    by simp
  from this [unfolded d key_split [OF assms(1,3)] key_split [OF assms(2,4)]]
  show ?thesis using pad_inj unfolding d by auto
qed

lemma part_file_plain: "CHR ''/'' \<notin> set (part_file i)" "ends_with (part_file i) ''.parquet''"
  by (simp_all add: part_file_def FIRST_PART_def ends_with_def)

lemma part_key_file: "part_key pre d (part_file i) = Inr (day_partition pre d @ ''/'' @ part_file i)"
  by (simp add: part_key_def part_file_plain)

lemma part_file_inj: "part_file i = part_file j \<longleftrightarrow> i = j"
proof
  assume "part_file i = part_file j"
  then show "i = j" using pad_inj by (auto simp: part_file_def FIRST_PART_def split: if_splits)
qed simp

lemma manifest_not_part: "''_manifest.json'' \<noteq> part_file i"
  by (simp add: part_file_def FIRST_PART_def)

definition file_key :: "string \<Rightarrow> date \<Rightarrow> nat \<Rightarrow> string" where
  "file_key pre d i = day_partition pre d @ ''/'' @ part_file i"

lemma cold_keys:
  assumes "CHR ''/'' \<notin> set pre" "CHR ''/'' \<notin> set pre'"
  shows "file_key pre d i = file_key pre' d' j \<longleftrightarrow> pre = pre' \<and> d = d' \<and> i = j"
    "manifest_key pre d = manifest_key pre' d' \<longleftrightarrow> pre = pre' \<and> d = d'"
    "file_key pre d i \<noteq> manifest_key pre' d'" "manifest_key pre' d' \<noteq> file_key pre d i"
proof -
  have m: "manifest_key p e = day_partition p e @ ''/'' @ ''_manifest.json''" for p e by (simp add: manifest_key_def)
  have plain: "CHR ''/'' \<notin> set ''_manifest.json''" by simp
  show "file_key pre d i = file_key pre' d' j \<longleftrightarrow> pre = pre' \<and> d = d' \<and> i = j"
    using key_inj [OF assms part_file_plain(1) part_file_plain(1)] part_file_inj unfolding file_key_def by blast
  show "manifest_key pre d = manifest_key pre' d' \<longleftrightarrow> pre = pre' \<and> d = d'"
    using key_inj [OF assms plain plain] unfolding m by blast
  show ne: "file_key pre d i \<noteq> manifest_key pre' d'"
    using key_inj [OF assms part_file_plain(1) plain] manifest_not_part unfolding m file_key_def by metis
  then show "manifest_key pre' d' \<noteq> file_key pre d i" by (rule not_sym)
qed

lemma manifest_read: "manifest_parts (Some (manifest_of s d ps)) = Inr ps" "\<not> is_legacy (Some (manifest_of s d ps))"
proof -
  have "listed_parts (map (\<lambda>(f, n). JObj [(''file'', JStr f), (''rows'', JInt n)]) ps) = Inr ps"
    by (induction ps) auto
  then show "manifest_parts (Some (manifest_of s d ps)) = Inr ps" by (simp add: manifest_parts_def manifest_of_def)
qed (simp add: is_legacy_def manifest_of_def)

section \<open>Programs of the exporter\<close>

text \<open>From \<open>P\<close>, the program ends in a state with \<open>Q\<close> of its answer, or stops in one with \<open>I\<close>.\<close>

definition xvalid :: "(export_state \<Rightarrow> bool) \<Rightarrow> (export_state \<Rightarrow> bool) \<Rightarrow> 'a export \<Rightarrow> ('a \<Rightarrow> export_state \<Rightarrow> bool) \<Rightarrow> bool" where
  "xvalid I P m Q \<longleftrightarrow> (\<forall>st. P st \<longrightarrow> (case m st of (Inl e, st') \<Rightarrow> I st' | (Inr x, st') \<Rightarrow> Q x st'))"

lemma xvalid_bind:
  assumes "xvalid I P m R" "\<And>x. xvalid I (R x) (k x) Q"
  shows "xvalid I P (xbind m k) Q"
  unfolding xvalid_def xbind_def
proof (intro allI impI)
  fix st assume "P st"
  obtain r st1 where m: "m st = (r, st1)" by force
  with assms(1) \<open>P st\<close> have r: "case r of Inl e \<Rightarrow> I st1 | Inr x \<Rightarrow> R x st1" by (auto simp: xvalid_def split: sum.splits)
  show "case (case m st of (Inl e, st') \<Rightarrow> (Inl e, st') | (Inr x, st') \<Rightarrow> k x st') of (Inl e, st') \<Rightarrow> I st' | (Inr x, st') \<Rightarrow> Q x st'"
  proof (cases r)
    case (Inl e)
    then show ?thesis using m r by simp
  next
    case (Inr x)
    then show ?thesis using m r assms(2) [of x] by (simp add: xvalid_def)
  qed
qed

lemma xvalid_return: "(\<And>st. P st \<Longrightarrow> Q x st) \<Longrightarrow> xvalid I P (xreturn x) Q"
  by (simp add: xvalid_def xreturn_def)

lemma xvalid_raise: "(\<And>st. P st \<Longrightarrow> I st) \<Longrightarrow> xvalid I P (xraise e) Q"
  by (simp add: xvalid_def xraise_def)

lemma xvalid_lift: "(\<And>st. P st \<Longrightarrow> I st) \<Longrightarrow> (\<And>st x. P st \<Longrightarrow> r = Inr x \<Longrightarrow> Q x st) \<Longrightarrow> xvalid I P (xlift r) Q"
  by (auto simp: xvalid_def xlift_def split: sum.splits)

lemma xvalid_weaken: "xvalid I P' m Q' \<Longrightarrow> (\<And>st. P st \<Longrightarrow> P' st) \<Longrightarrow> (\<And>x st. Q' x st \<Longrightarrow> Q x st) \<Longrightarrow> xvalid I P m Q"
  unfolding xvalid_def by (fastforce split: sum.splits prod.splits)

lemma xvalid_if: "(b \<Longrightarrow> xvalid I P m Q) \<Longrightarrow> (\<not> b \<Longrightarrow> xvalid I P m' Q) \<Longrightarrow> xvalid I P (if b then m else m') Q"
  by simp

definition tick :: "export_env \<Rightarrow> export_state \<Rightarrow> export_state" where
  "tick E st = st\<lparr>xs_hot := xe_hot E (xs_calls st) (xs_hot st), xs_calls := Suc (xs_calls st)\<rparr>"

lemma xvalid_call:
  assumes "\<And>st. P st \<Longrightarrow> P (tick E st)" "\<And>st. P st \<Longrightarrow> I st"
    and "\<And>st. P st \<Longrightarrow> I (snd (f st))" "\<And>st x st'. P st \<Longrightarrow> f st = (Inr x, st') \<Longrightarrow> Q x st'"
  shows "xvalid I P (xcall E f) Q"
  unfolding xvalid_def
proof (intro allI impI)
  fix st assume "P st"
  then have t: "P (tick E st)" by (rule assms(1))
  obtain r st1 where f: "f (tick E st) = (r, st1)" by force
  have "I st1" "r = Inr x \<Longrightarrow> Q x st1" "I (tick E st)" for x
    using assms(2) [OF t] assms(3) [OF t] assms(4) [OF t] f by auto
  then show "case xcall E f st of (Inl e, st') \<Rightarrow> I st' | (Inr x, st') \<Rightarrow> Q x st'"
    using f by (auto simp: xcall_def tick_def [symmetric] Let_def split: answer.splits sum.splits)
qed

section \<open>The archive of a day\<close>

definition tenant_names :: "string \<Rightarrow> string \<Rightarrow> bool" where
  "tenant_names s pre \<longleftrightarrow> (\<exists>c. schema_name c = Inr s \<and> cold_object_prefix c = Inr pre)"

lemma tenant_namesE:
  assumes "tenant_names s pre"
  obtains u where "canonical_company_id u = Inr u" "s = tenancy_PREFIX @ uscore u" "pre = tenancy_PREFIX @ u"
proof -
  obtain c u where "canonical_company_id c = Inr u" "s = tenancy_PREFIX @ uscore u" "pre = tenancy_PREFIX @ u"
    using assms by (auto simp: tenant_names_def cold_object_prefix_def schema_name_Inr tenancy_PREFIX_def)
  then show thesis using that canonical_idem by blast
qed

lemma tenant_names_plain: "tenant_names s pre \<Longrightarrow> CHR ''/'' \<notin> set pre"
  by (erule tenant_namesE) (use canonical_shape(2) in \<open>fastforce simp: tenancy_PREFIX_def lower_hex_def ord_def\<close>)

lemma tenant_names_inj: "tenant_names s pre \<Longrightarrow> tenant_names s' pre' \<Longrightarrow> s = s' \<longleftrightarrow> pre = pre'"
  by (elim tenant_namesE) (auto dest: uscore_inj)

definition rows_at :: "(string \<rightharpoonup> cold_object) \<Rightarrow> string \<Rightarrow> date \<Rightarrow> nat \<Rightarrow> measurement list" where
  "rows_at S pre d i = (case S (file_key pre d i) of Some (Parquet rs) \<Rightarrow> rs | _ \<Rightarrow> [])"

definition kept :: "(string \<rightharpoonup> cold_object) \<Rightarrow> string \<Rightarrow> date \<Rightarrow> nat \<Rightarrow> measurement list" where
  "kept S pre d n = concat (map (rows_at S pre d) [0..<n])"

lemma kept_simps [simp]: "kept S pre d 0 = []" "kept S pre d (Suc n) = kept S pre d n @ rows_at S pre d n"
  by (simp_all add: kept_def)

lemma rows_at_cong: "S' (file_key pre d i) = S (file_key pre d i) \<Longrightarrow> rows_at S' pre d i = rows_at S pre d i"
  by (simp add: rows_at_def)

lemma kept_cong: "(\<And>i. i < n \<Longrightarrow> S' (file_key pre d i) = S (file_key pre d i)) \<Longrightarrow> kept S' pre d n = kept S pre d n"
  by (induction n) (simp_all add: rows_at_def)

text \<open>
  \<open>ps\<close> are the listed parts, of which the drops of the first \<open>n\<close> are recorded; at most the last is pending. \<open>A\<close> are
  rows archived before.
\<close>

definition day_inv :: "measurement list \<Rightarrow> export_state \<Rightarrow> string \<Rightarrow> string \<Rightarrow> date \<Rightarrow> parts \<Rightarrow> nat \<Rightarrow> bool" where
  "day_inv A st s pre d ps n \<longleftrightarrow>
     xs_store st (manifest_key pre d) = (if ps = [] then None else Some (JsonFile (manifest_of s d ps))) \<and>
     map fst ps = map part_file [0..<length ps] \<and> n \<le> length ps \<and> length ps \<le> Suc n \<and>
     (\<forall>f. (s, d, f) \<in> xs_drops st \<longleftrightarrow> (\<exists>i < n. f = part_file i)) \<and>
     (\<forall>i < length ps. \<exists>rs. xs_store st (file_key pre d i) = Some (Parquet rs)) \<and>
     (\<forall>i < n. snd (ps ! i) = int (length (rows_at (xs_store st) pre d i))) \<and>
     distinct (map ms_key (kept (xs_store st) pre d (length ps))) \<and>
     prefix A (kept (xs_store st) pre d n) \<and>
     (\<forall>m. (s, d, m) \<in> set (xs_dropped st) \<longrightarrow> ms_key m \<in> ms_key ` set (kept (xs_store st) pre d n))"

lemma day_inv_cong:
  assumes "\<And>i. xs_store st' (file_key pre d i) = xs_store st (file_key pre d i)"
    "xs_store st' (manifest_key pre d) = xs_store st (manifest_key pre d)"
    "\<And>f. (s, d, f) \<in> xs_drops st' \<longleftrightarrow> (s, d, f) \<in> xs_drops st"
    "\<And>m. (s, d, m) \<in> set (xs_dropped st') \<longleftrightarrow> (s, d, m) \<in> set (xs_dropped st)"
  shows "day_inv A st' s pre d ps n = day_inv A st s pre d ps n"
proof -
  have "kept (xs_store st') pre d k = kept (xs_store st) pre d k" for k by (rule kept_cong) (rule assms(1))
  moreover have "rows_at (xs_store st') pre d i = rows_at (xs_store st) pre d i" for i by (rule rows_at_cong) (rule assms(1))
  ultimately show ?thesis unfolding day_inv_def by (simp only: assms)
qed

definition day_ok :: "measurement list \<Rightarrow> export_state \<Rightarrow> string \<Rightarrow> string \<Rightarrow> date \<Rightarrow> bool" where
  "day_ok A st s pre d \<longleftrightarrow> (\<exists>ps n. day_inv A st s pre d ps n)"

lemma day_ok_cong:
  assumes "\<And>ps n. day_inv A st' s pre d ps n = day_inv A st s pre d ps n"
  shows "day_ok A st' s pre d = day_ok A st s pre d"
  by (simp add: day_ok_def assms)

definition hot_ok :: "measurement set \<Rightarrow> hot \<Rightarrow> bool" where
  "hot_ok U h \<longleftrightarrow> (\<forall>(s, d, m) \<in> set h. m \<in> U) \<and> (\<forall>s d. distinct (map ms_key (day_rows h s d)))"

definition env_ok :: "measurement set \<Rightarrow> export_env \<Rightarrow> bool" where
  "env_ok U E \<longleftrightarrow> (\<forall>n h. hot_ok U h \<longrightarrow> hot_ok U (xe_hot E n h))"

definition separates :: "measurement set \<Rightarrow> (measurement list \<Rightarrow> int) \<Rightarrow> bool" where
  "separates U fp \<longleftrightarrow> (\<forall>xs ys. set xs \<subseteq> U \<and> set ys \<subseteq> U \<and> length xs = length ys \<and> fp xs = fp ys \<longrightarrow> set xs = set ys)"

text \<open>The days other than one.\<close>

definition rest_ok :: "measurement set \<Rightarrow> (string \<Rightarrow> date \<Rightarrow> measurement list) \<Rightarrow> string \<Rightarrow> date \<Rightarrow> export_state \<Rightarrow> bool" where
  "rest_ok U B s d st \<longleftrightarrow> hot_ok U (xs_hot st) \<and>
     (\<forall>s' pre' d'. tenant_names s' pre' \<and> (s', d') \<noteq> (s, d) \<longrightarrow> day_ok (B s' d') st s' pre' d')"

definition export_inv :: "measurement set \<Rightarrow> (string \<Rightarrow> date \<Rightarrow> measurement list) \<Rightarrow> export_state \<Rightarrow> bool" where
  "export_inv U B st \<longleftrightarrow> hot_ok U (xs_hot st) \<and>
     (\<forall>s' pre' d'. tenant_names s' pre' \<longrightarrow> day_ok (B s' d') st s' pre' d')"

definition mine :: "measurement set \<Rightarrow> (string \<Rightarrow> date \<Rightarrow> measurement list) \<Rightarrow> string \<Rightarrow> string \<Rightarrow> date \<Rightarrow> parts \<Rightarrow> nat \<Rightarrow> export_state \<Rightarrow> bool" where
  "mine U B s pre d ps n st \<longleftrightarrow> rest_ok U B s d st \<and> day_inv (B s d) st s pre d ps n"

lemma mine_inv: "tenant_names s pre \<Longrightarrow> mine U B s pre d ps n st \<Longrightarrow> export_inv U B st"
proof -
  assume t: "tenant_names s pre" and m: "mine U B s pre d ps n st"
  have "day_ok (B s' d') st s' pre' d'" if "tenant_names s' pre'" for s' pre' d'
  proof (cases "(s', d') = (s, d)")
    case True
    then have "pre' = pre" using tenant_names_inj [OF that t] by simp
    then show ?thesis using m True unfolding mine_def day_ok_def by auto
  next
    case False
    then show ?thesis using m that unfolding mine_def rest_ok_def by blast
  qed
  then show ?thesis using m unfolding mine_def rest_ok_def export_inv_def by blast
qed

lemma inv_mine: "tenant_names s pre \<Longrightarrow> export_inv U B st \<Longrightarrow> \<exists>ps n. mine U B s pre d ps n st"
  unfolding mine_def rest_ok_def export_inv_def day_ok_def by blast

lemma mine_hot:
  assumes "mine U B s pre d ps n st" "hot_ok U h"
  shows "mine U B s pre d ps n (st\<lparr>xs_hot := h, xs_calls := k\<rparr>)"
proof -
  have "day_inv A (st\<lparr>xs_hot := h, xs_calls := k\<rparr>) s' pre' d' ps' n' = day_inv A st s' pre' d' ps' n'" for A s' pre' d' ps' n'
    by (rule day_inv_cong) simp_all
  then show ?thesis using assms unfolding mine_def rest_ok_def by (simp add: day_ok_def)
qed

lemma tick_mine: "env_ok U E \<Longrightarrow> mine U B s pre d ps n st \<Longrightarrow> mine U B s pre d ps n (tick E st)"
  unfolding tick_def by (rule mine_hot) (auto simp: env_ok_def mine_def rest_ok_def)

lemma rest_store:
  assumes "rest_ok U B s d st" "tenant_names s pre" "k = manifest_key pre d \<or> k = file_key pre d i"
  shows "rest_ok U B s d (st\<lparr>xs_store := (xs_store st)(k \<mapsto> v)\<rparr>)"
proof -
  have "day_inv A (st\<lparr>xs_store := (xs_store st)(k \<mapsto> v)\<rparr>) s' pre' d' ps n = day_inv A st s' pre' d' ps n"
    if "tenant_names s' pre'" "(s', d') \<noteq> (s, d)" for A s' pre' d' ps n
  proof (rule day_inv_cong)
    have ne: "pre' \<noteq> pre \<or> d' \<noteq> d" using that tenant_names_inj [OF that(1) assms(2)] by auto
    note plain = tenant_names_plain [OF that(1)] tenant_names_plain [OF assms(2)]
    show "xs_store (st\<lparr>xs_store := (xs_store st)(k \<mapsto> v)\<rparr>) (file_key pre' d' j) = xs_store st (file_key pre' d' j)" for j
      using assms(3) ne cold_keys [OF plain] by auto
    show "xs_store (st\<lparr>xs_store := (xs_store st)(k \<mapsto> v)\<rparr>) (manifest_key pre' d') = xs_store st (manifest_key pre' d')"
      using assms(3) ne cold_keys(2) [OF plain] cold_keys(4) [OF plain(2,1)] by auto
  qed simp_all
  then have "day_ok A (st\<lparr>xs_store := (xs_store st)(k \<mapsto> v)\<rparr>) s' pre' d' = day_ok A st s' pre' d'"
    if "tenant_names s' pre'" "(s', d') \<noteq> (s, d)" for A s' pre' d'
    using that by (intro day_ok_cong) blast
  then show ?thesis using assms(1) unfolding rest_ok_def by (simp del: prod.inject)
qed

section \<open>What each call keeps\<close>

lemma xvalid_read:
  assumes "\<And>st. P st \<Longrightarrow> P (tick E st)" "\<And>st. P st \<Longrightarrow> I st" "\<And>st. snd (f st) = st"
    "\<And>st x. P st \<Longrightarrow> fst (f st) = Inr x \<Longrightarrow> Q x st"
  shows "xvalid I P (xcall E f) Q"
proof (rule xvalid_call)
  fix st x st' assume st: "P st" "f st = (Inr x, st')"
  have "st' = st" "fst (f st) = Inr x" using assms(3) [of st] st(2) by auto
  then show "Q x st'" using assms(4) [OF st(1)] by simp
qed (use assms(1-3) in auto)

lemma read_part_state: "snd (read_part pre d part st) = st"
  by (auto simp: read_part_def split: sum.splits option.splits cold_object.splits)

lemma part_row_count_state: "snd (part_row_count pre d part st) = st"
  using read_part_state [of pre d part st] by (auto simp: part_row_count_def xbind_def xreturn_def split: prod.splits sum.splits)

lemma read_part_keys_state: "snd (read_part_keys pre d part st) = st"
  using read_part_state [of pre d part st] by (auto simp: read_part_keys_def xbind_def xreturn_def split: prod.splits sum.splits)

lemma read_manifest_state: "snd (read_manifest pre d st) = st"
  by (auto simp: read_manifest_def split: option.splits cold_object.splits)

lemma check_part_keeps:
  assumes "\<And>st. P st \<Longrightarrow> P (tick E st)" "\<And>st. P st \<Longrightarrow> I st"
  shows "xvalid I P (check_part E pre d p) (\<lambda>_. P)"
  unfolding check_part_def
proof (rule xvalid_bind)
  show "xvalid I P (xcall E (part_row_count pre d (fst p))) (\<lambda>_. P)"
    by (rule xvalid_read) (simp_all add: assms part_row_count_state)
  show "xvalid I P (if footer \<noteq> snd p then xraise ExportError else xreturn ()) (\<lambda>_. P)" for footer
    by (intro xvalid_if xvalid_raise xvalid_return) (simp_all add: assms)
qed

lemma check_parts_keeps:
  assumes "\<And>st. P st \<Longrightarrow> P (tick E st)" "\<And>st. P st \<Longrightarrow> I st"
  shows "xvalid I P (check_parts E pre d ps) (\<lambda>_. P)"
proof (induction ps)
  case (Cons p ps)
  show ?case unfolding check_parts.simps by (rule xvalid_bind [OF check_part_keeps]) (simp_all add: assms Cons.IH)
qed (simp add: xvalid_return)

text \<open>A state of the day with the contents of the store fixed.\<close>

definition mine_at :: "measurement set \<Rightarrow> (string \<Rightarrow> date \<Rightarrow> measurement list) \<Rightarrow> string \<Rightarrow> string \<Rightarrow> date \<Rightarrow> parts \<Rightarrow> nat \<Rightarrow>
    (string \<rightharpoonup> cold_object) \<Rightarrow> export_state \<Rightarrow> bool" where
  "mine_at U B s pre d ps n S st \<longleftrightarrow> mine U B s pre d ps n st \<and> xs_store st = S"

lemma mine_at_valid: "(\<And>S. xvalid I (mine_at U B s pre d ps n S) m Q) \<Longrightarrow> xvalid I (mine U B s pre d ps n) m Q"
  by (simp add: xvalid_def mine_at_def)

lemma tick_mine_at: "env_ok U E \<Longrightarrow> mine_at U B s pre d ps n S st \<Longrightarrow> mine_at U B s pre d ps n S (tick E st)"
  using tick_mine unfolding mine_at_def by (fastforce simp: tick_def)

definition snap_ok :: "measurement set \<Rightarrow> (measurement list \<Rightarrow> int) \<Rightarrow> snapshot \<Rightarrow> bool" where
  "snap_ok U fp snap \<longleftrightarrow> distinct (map ms_key (sn_rows snap)) \<and> set (sn_rows snap) \<subseteq> U \<and> sn_fingerprint snap = fp (sn_rows snap)"

lemma day_rows_ok: "hot_ok U h \<Longrightarrow> distinct (map ms_key (day_rows h s d)) \<and> set (day_rows h s d) \<subseteq> U"
  by (auto simp: hot_ok_def day_rows_def)

lemma snapshot_valid:
  assumes "tenant_names s pre" "env_ok U E"
  shows "xvalid (export_inv U B) (mine_at U B s pre d ps n S) (xcall E (snapshot_day fp s d))
    (\<lambda>snap st. mine_at U B s pre d ps n S st \<and> snap_ok U fp snap)"
proof (rule xvalid_read)
  fix st x assume "mine_at U B s pre d ps n S st" "fst (snapshot_day fp s d st) = Inr x"
  then show "mine_at U B s pre d ps n S st \<and> snap_ok U fp x"
    using day_rows_ok [of U "xs_hot st" s d] by (auto simp: snapshot_day_def snap_ok_def mine_at_def mine_def rest_ok_def Let_def)
qed (use assms tick_mine_at mine_inv in \<open>auto simp: mine_at_def snapshot_day_def Let_def\<close>)

definition rows_between :: "(string \<rightharpoonup> cold_object) \<Rightarrow> string \<Rightarrow> date \<Rightarrow> nat \<Rightarrow> nat \<Rightarrow> measurement list" where
  "rows_between S pre d i j = concat (map (rows_at S pre d) [i..<j])"

lemma archived_keys_valid:
  assumes "tenant_names s pre" "env_ok U E" "map fst qs = map part_file [i..<i + length qs]"
  shows "xvalid (export_inv U B) (mine_at U B s pre d ps n S) (archived_keys E pre d qs)
    (\<lambda>ks st. mine_at U B s pre d ps n S st \<and> ks = map ms_key (rows_between S pre d i (i + length qs)))"
  using assms(3)
proof (induction qs arbitrary: i)
  case Nil
  then show ?case by (simp add: xvalid_return rows_between_def)
next
  case (Cons q qs)
  have up: "[i..<i + length (q # qs)] = i # [Suc i..<Suc i + length qs]" using upt_rec [of i "i + length (q # qs)"] by simp
  then have q: "fst q = part_file i" "map fst qs = map part_file [Suc i..<Suc i + length qs]" using Cons.prems by auto
  show ?case unfolding archived_keys.simps
  proof (rule xvalid_bind)
    show "xvalid (export_inv U B) (mine_at U B s pre d ps n S) (xcall E (read_part_keys pre d (fst q)))
        (\<lambda>ks st. mine_at U B s pre d ps n S st \<and> ks = map ms_key (rows_at S pre d i))"
    proof (rule xvalid_read)
      fix st x assume "mine_at U B s pre d ps n S st" "fst (read_part_keys pre d (fst q) st) = Inr x"
      then show "mine_at U B s pre d ps n S st \<and> x = map ms_key (rows_at S pre d i)"
        by (auto simp: q(1) read_part_keys_def read_part_def part_key_file xbind_def xreturn_def rows_at_def file_key_def mine_at_def
            split: option.splits cold_object.splits)
    qed (use assms(1,2) tick_mine_at mine_inv read_part_keys_state in \<open>auto simp: mine_at_def\<close>)
  next
    fix ks
    show "xvalid (export_inv U B) (\<lambda>st. mine_at U B s pre d ps n S st \<and> ks = map ms_key (rows_at S pre d i))
        (xbind (archived_keys E pre d qs) (\<lambda>rest. xreturn (ks @ rest)))
        (\<lambda>ks st. mine_at U B s pre d ps n S st \<and> ks = map ms_key (rows_between S pre d i (i + length (q # qs))))"
    proof (cases "ks = map ms_key (rows_at S pre d i)")
      case True
      show ?thesis
      proof (rule xvalid_bind)
        show "xvalid (export_inv U B) (\<lambda>st. mine_at U B s pre d ps n S st \<and> ks = map ms_key (rows_at S pre d i)) (archived_keys E pre d qs)
            (\<lambda>rest st. mine_at U B s pre d ps n S st \<and> rest = map ms_key (rows_between S pre d (Suc i) (Suc i + length qs)))"
          by (rule xvalid_weaken [OF Cons.IH [OF q(2)]]) auto
        show "xvalid (export_inv U B) (\<lambda>st. mine_at U B s pre d ps n S st \<and> rest = map ms_key (rows_between S pre d (Suc i) (Suc i + length qs)))
            (xreturn (ks @ rest)) (\<lambda>ks st. mine_at U B s pre d ps n S st \<and> ks = map ms_key (rows_between S pre d i (i + length (q # qs))))" for rest
          by (rule xvalid_return) (use True up in \<open>auto simp: rows_between_def\<close>)
      qed
    qed (simp add: xvalid_def)
  qed
qed

text \<open>The rows to write: those of the snapshot whose key no recorded part holds.\<close>

definition fresh_ok :: "(string \<rightharpoonup> cold_object) \<Rightarrow> string \<Rightarrow> date \<Rightarrow> nat \<Rightarrow> snapshot \<Rightarrow> measurement list \<Rightarrow> bool" where
  "fresh_ok S pre d n snap fresh \<longleftrightarrow> distinct (map ms_key fresh) \<and>
     ms_key ` set fresh \<inter> ms_key ` set (kept S pre d n) = {} \<and>
     (\<forall>m \<in> set (sn_rows snap). m \<in> set fresh \<or> ms_key m \<in> ms_key ` set (kept S pre d n))"

lemma set_batches: "set (batches snap) = set (sn_rows snap)" "length (batches snap) = length (sn_rows snap)"
  by (simp_all add: batches_def)

lemma distinct_keys_iff: "distinct (map ms_key xs) \<longleftrightarrow> distinct xs \<and> inj_on ms_key (set xs)"
  by (simp add: distinct_map)

lemma fresh_okI:
  assumes "snap_ok U fp snap" "set archived = ms_key ` set (kept S pre d n)"
  shows "fresh_ok S pre d n snap (sort_key row_order (filter (\<lambda>m. ms_key m \<notin> set archived) (batches snap)))"
proof -
  have "distinct (sn_rows snap)" "inj_on ms_key (set (sn_rows snap))" using assms(1) by (auto simp: snap_ok_def distinct_map)
  then have "distinct (map ms_key (sort_key row_order (filter (\<lambda>m. ms_key m \<notin> set archived) (batches snap))))"
    by (simp add: distinct_keys_iff set_batches inj_on_def) (simp add: batches_def)
  moreover have "set (sort_key row_order (filter (\<lambda>m. ms_key m \<notin> set archived) (batches snap))) =
      {m \<in> set (sn_rows snap). ms_key m \<notin> ms_key ` set (kept S pre d n)}" by (simp add: assms(2) set_batches)
  ultimately show ?thesis unfolding fresh_ok_def by blast
qed

lemma fresh_ok_batches: "snap_ok U fp snap \<Longrightarrow> fresh_ok S pre d 0 snap (batches snap)"
  by (auto simp: fresh_ok_def snap_ok_def set_batches distinct_keys_iff) (simp add: batches_def)

lemma without_archived_valid:
  assumes "tenant_names s pre" "env_ok U E" "snap_ok U fp snap" "map fst (take n ps) = map part_file [0..<n]" "n \<le> length ps"
  shows "xvalid (export_inv U B) (mine_at U B s pre d ps n S) (without_archived E pre d snap (take n ps))
    (\<lambda>fresh st. mine_at U B s pre d ps n S st \<and> fresh_ok S pre d n snap fresh)"
  unfolding without_archived_def
proof (rule xvalid_bind)
  show "xvalid (export_inv U B) (mine_at U B s pre d ps n S) (xcall E (xreturn (batches snap)))
      (\<lambda>rows st. mine_at U B s pre d ps n S st \<and> rows = batches snap)"
    by (rule xvalid_read) (use assms(1,2) tick_mine_at mine_inv in \<open>auto simp: mine_at_def xreturn_def\<close>)
  fix rows
  have len: "length (take n ps) = n" using assms(5) by simp
  have keys: "xvalid (export_inv U B) (mine_at U B s pre d ps n S) (archived_keys E pre d (take n ps))
      (\<lambda>ks st. mine_at U B s pre d ps n S st \<and> set ks = ms_key ` set (kept S pre d n))"
    by (rule xvalid_weaken [OF archived_keys_valid [OF assms(1,2), of "take n ps" 0 B d ps n S]])
      (use assms(4,5) in \<open>auto simp: rows_between_def kept_def\<close>)
  show "xvalid (export_inv U B) (\<lambda>st. mine_at U B s pre d ps n S st \<and> rows = batches snap)
      (if length rows \<noteq> length (sn_rows snap) then xraise ExportError
       else xbind (archived_keys E pre d (take n ps)) (\<lambda>archived. xreturn (sort_key row_order (filter (\<lambda>m. ms_key m \<notin> set archived) rows))))
      (\<lambda>fresh st. mine_at U B s pre d ps n S st \<and> fresh_ok S pre d n snap fresh)"
  proof (cases "rows = batches snap")
    case True
    have "xvalid (export_inv U B) (\<lambda>st. mine_at U B s pre d ps n S st \<and> set ks = ms_key ` set (kept S pre d n))
        (xreturn (sort_key row_order (filter (\<lambda>m. ms_key m \<notin> set ks) rows)))
        (\<lambda>fresh st. mine_at U B s pre d ps n S st \<and> fresh_ok S pre d n snap fresh)" for ks
      by (rule xvalid_return) (use fresh_okI [OF assms(3)] True in auto)
    from xvalid_bind [OF keys this] show ?thesis using True by (simp add: set_batches)
  qed (simp add: xvalid_def)
qed

text \<open>Writing the part that is not recorded.\<close>

lemma kept_store_other:
  assumes "tenant_names s pre" "k = manifest_key pre d \<or> (\<exists>i \<ge> n. k = file_key pre d i)"
  shows "kept (S(k \<mapsto> v)) pre d n = kept S pre d n"
  using assms(2) cold_keys [OF tenant_names_plain tenant_names_plain, OF assms(1) assms(1)] by (intro kept_cong) auto

lemma mine_write:
  assumes t: "tenant_names s pre" and m: "mine U B s pre d ps n st" and f: "fresh_ok (xs_store st) pre d n snap fresh"
    and st': "st' = st\<lparr>xs_store := (xs_store st)(file_key pre d n \<mapsto> Parquet (take k fresh))\<rparr>"
  shows "mine U B s pre d ps n st'" "fresh_ok (xs_store st') pre d n snap fresh"
proof -
  note keys = cold_keys [OF tenant_names_plain tenant_names_plain, OF t t]
  have kn: "kept (xs_store st') pre d n = kept (xs_store st) pre d n" unfolding st' using kept_store_other [OF t, of "file_key pre d n" d n] by auto
  then show "fresh_ok (xs_store st') pre d n snap fresh" using f by (simp add: fresh_ok_def)
  have dist: "distinct (map ms_key (kept (xs_store st) pre d n @ take k fresh))"
  proof -
    have "distinct (map ms_key (kept (xs_store st) pre d n))"
      using m unfolding mine_def day_inv_def by (cases "length ps = n") (auto simp: le_Suc_eq)
    moreover have "distinct (map ms_key (take k fresh))" "ms_key ` set (take k fresh) \<inter> ms_key ` set (kept (xs_store st) pre d n) = {}"
      using f set_take_subset [of k fresh] unfolding fresh_ok_def take_map [symmetric] by (auto intro: distinct_take)
    ultimately show ?thesis by (simp add: Int_commute)
  qed
  have "distinct (map ms_key (kept (xs_store st') pre d (length ps)))"
  proof (cases "length ps = n")
    case True
    then show ?thesis using dist kn by simp
  next
    case False
    then have "length ps = Suc n" using m by (auto simp: mine_def day_inv_def)
    then show ?thesis using dist kn by (simp add: rows_at_def st')
  qed
  moreover have "\<exists>rs. xs_store st' (file_key pre d i) = Some (Parquet rs)" if "i < length ps" for i
    using m that keys by (auto simp: mine_def day_inv_def st')
  moreover have "xs_store st' (manifest_key pre d) = xs_store st (manifest_key pre d)" using keys by (simp add: st')
  moreover have "rows_at (xs_store st') pre d i = rows_at (xs_store st) pre d i" if "i < n" for i
    using that keys by (intro rows_at_cong) (simp add: st')
  ultimately have "day_inv (B s d) st' s pre d ps n"
    using m kn unfolding mine_def day_inv_def by (simp add: st')
  moreover have "rest_ok U B s d st'" using rest_store [OF _ t] m unfolding mine_def st' by blast
  ultimately show "mine U B s pre d ps n st'" by (simp add: mine_def)
qed

lemma write_and_verify_valid:
  assumes t: "tenant_names s pre" and e: "env_ok U E"
  shows "xvalid (export_inv U B) (\<lambda>st. mine U B s pre d ps n st \<and> fresh_ok (xs_store st) pre d n snap fresh)
    (write_and_verify E pre d (part_file n) fresh)
    (\<lambda>_ st. mine U B s pre d ps n st \<and> fresh_ok (xs_store st) pre d n snap fresh \<and> xs_store st (file_key pre d n) = Some (Parquet fresh))"
  unfolding write_and_verify_def
proof (rule xvalid_bind)
  let ?P = "\<lambda>st. mine U B s pre d ps n st \<and> fresh_ok (xs_store st) pre d n snap fresh"
  let ?W = "\<lambda>st. ?P st \<and> (\<exists>k. xs_store st (file_key pre d n) = Some (Parquet (take k fresh)))"
  have tick: "?P st \<Longrightarrow> ?P (tick E st)" "?W st \<Longrightarrow> ?W (tick E st)" for st using tick_mine [OF e] by (auto simp: tick_def)
  show "xvalid (export_inv U B) ?P (xcall E (write_part E pre d (part_file n) fresh)) (\<lambda>_. ?W)"
  proof (rule xvalid_call)
    fix st assume P: "?P st"
    define st' where "st' = st\<lparr>xs_store := (xs_store st)(file_key pre d n \<mapsto> Parquet (take (xe_keep E (xs_calls st)) fresh))\<rparr>"
    note w = mine_write [OF t _ _ st'_def, of U B ps snap]
    have r: "write_part E pre d (part_file n) fresh st = (if fresh = [] then (Inl (ExportPy ValueError), st) else (Inr (int (length fresh)), st'))"
      by (simp add: write_part_def part_key_file file_key_def st'_def)
    show "export_inv U B (snd (write_part E pre d (part_file n) fresh st))"
      unfolding r using P w(1) mine_inv [OF t] by simp blast
    show "?W st''" if "write_part E pre d (part_file n) fresh st = (Inr x, st'')" for x st''
      using that P w unfolding r by (auto simp: st'_def split: if_splits)
  qed (use tick mine_inv [OF t] in blast)+
  fix written
  show "xvalid (export_inv U B) ?W
      (if written \<noteq> int (length fresh) then xraise ExportError
       else xbind (xcall E (part_row_count pre d (part_file n))) (\<lambda>footer. if footer \<noteq> int (length fresh) then xraise ExportError else xreturn ()))
      (\<lambda>_ st. mine U B s pre d ps n st \<and> fresh_ok (xs_store st) pre d n snap fresh \<and> xs_store st (file_key pre d n) = Some (Parquet fresh))"
  proof (rule xvalid_if)
    show "xvalid (export_inv U B) ?W
        (xbind (xcall E (part_row_count pre d (part_file n))) (\<lambda>footer. if footer \<noteq> int (length fresh) then xraise ExportError else xreturn ()))
        (\<lambda>_ st. mine U B s pre d ps n st \<and> fresh_ok (xs_store st) pre d n snap fresh \<and> xs_store st (file_key pre d n) = Some (Parquet fresh))"
    proof (rule xvalid_bind)
    show "xvalid (export_inv U B) ?W (xcall E (part_row_count pre d (part_file n)))
        (\<lambda>footer st. ?P st \<and> (footer = int (length fresh) \<longrightarrow> xs_store st (file_key pre d n) = Some (Parquet fresh)))"
    proof (rule xvalid_read)
      fix st x assume W: "?W st" and x: "fst (part_row_count pre d (part_file n) st) = Inr x"
      then obtain k where k: "xs_store st (file_key pre d n) = Some (Parquet (take k fresh))" by blast
      then have "x = int (length (take k fresh))"
        using x by (simp add: part_row_count_def read_part_def part_key_file file_key_def xbind_def xreturn_def)
      then have "x = int (length fresh) \<Longrightarrow> take k fresh = fresh" by simp
      then show "?P st \<and> (x = int (length fresh) \<longrightarrow> xs_store st (file_key pre d n) = Some (Parquet fresh))" using W k by simp
    qed (use tick mine_inv [OF t] part_row_count_state in blast)+
    show "xvalid (export_inv U B) (\<lambda>st. ?P st \<and> (footer = int (length fresh) \<longrightarrow> xs_store st (file_key pre d n) = Some (Parquet fresh)))
        (if footer \<noteq> int (length fresh) then xraise ExportError else xreturn ())
        (\<lambda>_ st. mine U B s pre d ps n st \<and> fresh_ok (xs_store st) pre d n snap fresh \<and> xs_store st (file_key pre d n) = Some (Parquet fresh))" for footer
      by (intro xvalid_if xvalid_raise xvalid_return) (use mine_inv [OF t] in auto)
    qed
  qed (rule xvalid_raise, use mine_inv [OF t] in blast)
qed

text \<open>Listing the parts.\<close>

definition parts_listed :: "parts \<Rightarrow> nat \<Rightarrow> measurement list \<Rightarrow> parts" where
  "parts_listed ps n fresh = take n ps @ (if fresh = [] then [] else [(part_file n, int (length fresh))])"

lemma mine_list:
  assumes t: "tenant_names s pre" and m: "mine U B s pre d ps n st" and f: "fresh_ok (xs_store st) pre d n snap fresh"
    and w: "fresh \<noteq> [] \<Longrightarrow> xs_store st (file_key pre d n) = Some (Parquet fresh)" "fresh = [] \<Longrightarrow> 0 < n"
    and st': "st' = st\<lparr>xs_store := (xs_store st)(manifest_key pre d \<mapsto> JsonFile (manifest_of s d (parts_listed ps n fresh)))\<rparr>"
  shows "mine U B s pre d (parts_listed ps n fresh) n st'"
proof -
  note keys = cold_keys [OF tenant_names_plain tenant_names_plain, OF t t]
  let ?ps = "parts_listed ps n fresh"
  have day: "day_inv (B s d) st s pre d ps n" and n: "n \<le> length ps" using m by (auto simp: mine_def day_inv_def)
  have files: "xs_store st' (file_key pre d i) = xs_store st (file_key pre d i)" for i using keys by (simp add: st')
  then have kept: "kept (xs_store st') pre d k = kept (xs_store st) pre d k" for k by (intro kept_cong) simp
  have fsts: "map fst ?ps = map part_file [0..<length ?ps]"
  proof -
    have "map fst (take n ps) = map part_file [0..<n]"
    proof -
      have "map fst (take n ps) = take n (map fst ps)" by (simp add: take_map)
      also have "\<dots> = map part_file [0..<n]" using day n unfolding day_inv_def by (simp add: take_map take_upt)
      finally show ?thesis .
    qed
    then show ?thesis using n by (simp add: parts_listed_def min_absorb2)
  qed
  have nil: "?ps \<noteq> []" using w(2) n by (auto simp: parts_listed_def)
  have part: "\<exists>rs. xs_store st (file_key pre d i) = Some (Parquet rs)" if "i < length ?ps" for i
  proof (cases "i < n")
    case True
    then show ?thesis using day n by (auto simp: day_inv_def)
  next
    case False
    then have "i = n" "fresh \<noteq> []" using that n by (auto simp: parts_listed_def split: if_splits)
    then show ?thesis using w(1) by simp
  qed
  have "distinct (map ms_key (kept (xs_store st) pre d n))"
    using day unfolding day_inv_def by (cases "length ps = n") (auto simp: le_Suc_eq)
  then have "distinct (map ms_key (kept (xs_store st) pre d (length ?ps)))"
    using n f w(1) by (auto simp: parts_listed_def rows_at_def fresh_ok_def Int_commute)
  moreover have "snd (?ps ! i) = int (length (rows_at (xs_store st') pre d i))" if "i < n" for i
    using that day n files [of i] by (simp add: parts_listed_def nth_append day_inv_def rows_at_def)
  ultimately have "day_inv (B s d) st' s pre d ?ps n"
    using day nil fsts part n unfolding day_inv_def kept files by (simp add: st' parts_listed_def)
  moreover have "rest_ok U B s d st'" using rest_store [OF _ t] m unfolding mine_def st' by blast
  ultimately show ?thesis by (simp add: mine_def)
qed

text \<open>Dropping the day.\<close>

lemma day_rows_filter:
  "day_rows (filter (\<lambda>(s', d', m). s' = s \<longrightarrow> d' \<noteq> d) h) s1 d1 = (if s1 = s \<and> d1 = d then [] else day_rows h s1 d1)"
  by (induction h) (auto simp: day_rows_def)

lemma mine_drop:
  assumes m: "mine U B s pre d ps n st" and n': "n \<le> n'" "n' \<le> length ps" "length ps \<le> Suc n'"
    and part: "\<And>f. (f = part \<or> (\<exists>i < n. f = part_file i)) \<longleftrightarrow> (\<exists>i < n'. f = part_file i)"
    and cnt: "\<And>i. n \<le> i \<Longrightarrow> i < n' \<Longrightarrow> snd (ps ! i) = int (length (rows_at (xs_store st) pre d i))"
    and cur: "\<And>m. m \<in> set rows \<Longrightarrow> ms_key m \<in> ms_key ` set (kept (xs_store st) pre d n')"
    and st': "st' = st\<lparr>xs_hot := filter (\<lambda>(s', d', m). \<not> (s' = s \<and> d' = d)) (xs_hot st), xs_drops := insert (s, d, part) (xs_drops st),
        xs_dropped := xs_dropped st @ map (\<lambda>m. (s, d, m)) rows\<rparr>"
  shows "mine U B s pre d ps n' st'"
proof -
  have day: "day_inv (B s d) st s pre d ps n" and rest: "rest_ok U B s d st" using m by (auto simp: mine_def)
  have pre: "prefix (kept (xs_store st) pre d n) (kept (xs_store st) pre d n')"
    using n'(1) by (induction n' rule: dec_induct) (auto simp: prefix_def)
  have "(s, d, f) \<in> xs_drops st' \<longleftrightarrow> (\<exists>i < n'. f = part_file i)" for f
    using day part [of f] by (auto simp: day_inv_def st')
  moreover have "ms_key m \<in> ms_key ` set (kept (xs_store st) pre d n')" if "(s, d, m) \<in> set (xs_dropped st')" for m
  proof (cases "m \<in> set rows")
    case False
    then have "ms_key m \<in> ms_key ` set (kept (xs_store st) pre d n)" using that day by (auto simp: day_inv_def st')
    then show ?thesis using set_mono_prefix [OF pre] by blast
  qed (rule cur)
  moreover have "prefix (B s d) (kept (xs_store st) pre d n')"
    using day pre prefix_order.trans unfolding day_inv_def by blast
  moreover have "snd (ps ! i) = int (length (rows_at (xs_store st') pre d i))" if "i < n'" for i
    using that cnt [of i] day by (cases "i < n") (simp_all add: day_inv_def st')
  ultimately have "day_inv (B s d) st' s pre d ps n'"
    using day n' unfolding day_inv_def by (simp add: st')
  moreover have "rest_ok U B s d st'"
  proof -
    have "day_ok A st' s1 pre1 d1 = day_ok A st s1 pre1 d1" if "(s1, d1) \<noteq> (s, d)" for A s1 pre1 d1
      by (intro day_ok_cong day_inv_cong) (use that in \<open>auto simp: st'\<close>)
    moreover have "hot_ok U (xs_hot st')"
    proof -
      have "distinct (map ms_key (day_rows (xs_hot st') s1 d1))" for s1 d1
        using rest unfolding st' by (simp add: day_rows_filter rest_ok_def hot_ok_def)
      moreover have "set (xs_hot st') \<subseteq> set (xs_hot st)" by (auto simp: st')
      ultimately show ?thesis using rest unfolding rest_ok_def hot_ok_def by blast
    qed
    ultimately show ?thesis using rest unfolding rest_ok_def by blast
  qed
  ultimately show ?thesis by (simp add: mine_def)
qed

lemma drop_valid:
  assumes t: "tenant_names s pre" and e: "env_ok U E" and dg: "separates U fp" and sn: "snap_ok U fp snap"
    and P: "\<And>st. P st \<Longrightarrow> mine U B s pre d ps n st" "\<And>st. P st \<Longrightarrow> P (tick E st)"
    and n': "n \<le> n'" "n' \<le> length ps" "length ps \<le> Suc n'"
    and part: "\<And>f. (f = part \<or> (\<exists>i < n. f = part_file i)) \<longleftrightarrow> (\<exists>i < n'. f = part_file i)"
    and cnt: "\<And>st i. P st \<Longrightarrow> n \<le> i \<Longrightarrow> i < n' \<Longrightarrow> snd (ps ! i) = int (length (rows_at (xs_store st) pre d i))"
    and cur: "\<And>st m. P st \<Longrightarrow> m \<in> set (sn_rows snap) \<Longrightarrow> ms_key m \<in> ms_key ` set (kept (xs_store st) pre d n')"
  shows "xvalid (export_inv U B) P (xcall E (drop_day fp s d snap part)) (\<lambda>_. export_inv U B)"
proof (rule xvalid_call)
  fix st assume st: "P st"
  let ?rows = "day_rows (xs_hot st) s d"
  show inv: "export_inv U B (snd (drop_day fp s d snap part st))"
  proof (cases "valid_part part \<and> length ?rows = length (sn_rows snap) \<and> fp ?rows = sn_fingerprint snap")
    case True
    have "set ?rows \<subseteq> U" using P(1) [OF st] day_rows_ok by (auto simp: mine_def rest_ok_def)
    then have "set ?rows = set (sn_rows snap)" using True dg sn unfolding separates_def snap_ok_def by metis
    then have "ms_key m \<in> ms_key ` set (kept (xs_store st) pre d n')" if "m \<in> set ?rows" for m using cur [OF st] that by simp
    from mine_inv [OF t mine_drop [OF P(1) [OF st] n' part cnt [OF st] this refl]]
    show ?thesis using True by (simp add: drop_day_def Let_def)
  next
    case False
    then have "snd (drop_day fp s d snap part st) = st" by (auto simp: drop_day_def Let_def)
    then show ?thesis using mine_inv [OF t P(1) [OF st]] by simp
  qed
  then show "export_inv U B st'" if "drop_day fp s d snap part st = (Inr x, st')" for x st' using that by simp
qed (use P mine_inv [OF t] in blast)+

section \<open>Exporting a day keeps the archive\<close>

lemma list_and_drop_valid:
  assumes t: "tenant_names s pre" and e: "env_ok U E" and dg: "separates U fp" and sn: "snap_ok U fp snap" and n: "n \<le> length ps"
    and base: "map fst (take n ps) = map part_file [0..<n]" and some: "fresh = [] \<Longrightarrow> 0 < n"
  shows "xvalid (export_inv U B)
    (\<lambda>st. mine U B s pre d ps n st \<and> fresh_ok (xs_store st) pre d n snap fresh \<and> (fresh \<noteq> [] \<longrightarrow> xs_store st (file_key pre d n) = Some (Parquet fresh)))
    (list_and_drop E fp s pre d (take n ps) pending snap fresh) (\<lambda>_. export_inv U B)"
proof -
  let ?P = "\<lambda>ps st. mine U B s pre d ps n st \<and> fresh_ok (xs_store st) pre d n snap fresh \<and> (fresh \<noteq> [] \<longrightarrow> xs_store st (file_key pre d n) = Some (Parquet fresh))"
  define qs where "qs = parts_listed ps n fresh"
  define part where "part = (if fresh = [] then part_file (n - 1) else part_file n)"
  have len: "length (take n ps) = n" using n by simp
  have last: "fst (last (take n ps)) = part_file (n - 1)" if "0 < n"
  proof -
    have "fst (last (take n ps)) = last (map fst (take n ps))" using that n by (subst last_map) auto
    then show ?thesis using base that by (simp add: last_map)
  qed
  have eq: "list_and_drop E fp s pre d (take n ps) pending snap fresh =
      xbind (xcall E (write_manifest pre d (manifest_of s d qs))) (\<lambda>_. xbind (xcall E (drop_day fp s d snap part)) (\<lambda>dropped.
        xreturn (export_outcome (take n ps) pending (length fresh) dropped)))"
    using last some unfolding list_and_drop_def Let_def len by (simp add: qs_def parts_listed_def part_def)
  have tick: "?P ps st \<Longrightarrow> ?P ps (tick E st)" for ps st using tick_mine [OF e] by (auto simp: tick_def)
  have m: "xvalid (export_inv U B) (?P ps) (xcall E (write_manifest pre d (manifest_of s d qs))) (\<lambda>_. ?P qs)"
  proof (rule xvalid_call)
    fix st assume P: "?P ps st"
    define st' where "st' = st\<lparr>xs_store := (xs_store st)(manifest_key pre d \<mapsto> JsonFile (manifest_of s d qs))\<rparr>"
    have w: "write_manifest pre d (manifest_of s d qs) st = (Inr (), st')" by (simp add: write_manifest_def st'_def)
    have "mine U B s pre d qs n st'" unfolding qs_def
      by (rule mine_list [OF t]) (use P some in \<open>auto simp: st'_def qs_def\<close>)
    moreover have "kept (xs_store st') pre d n = kept (xs_store st) pre d n" unfolding st'_def using kept_store_other [OF t] by simp
    moreover have "xs_store st' (file_key pre d n) = xs_store st (file_key pre d n)"
      using cold_keys [OF tenant_names_plain tenant_names_plain, OF t t] by (simp add: st'_def)
    ultimately have Q: "?P qs st'" using P by (simp add: fresh_ok_def)
    then show "export_inv U B (snd (write_manifest pre d (manifest_of s d qs) st))" unfolding w using mine_inv [OF t] by auto
    show "?P qs st''" if "write_manifest pre d (manifest_of s d qs) st = (Inr x, st'')" for x st'' using that w Q by simp
  qed (use tick mine_inv [OF t] in blast)+
  let ?n = "if fresh = [] then n else Suc n"
  have d: "xvalid (export_inv U B) (?P qs) (xcall E (drop_day fp s d snap part)) (\<lambda>_. export_inv U B)"
  proof (rule drop_valid [OF t e dg sn, where n' = ?n])
    show "n \<le> ?n" "?n \<le> length qs" "length qs \<le> Suc ?n" using n by (auto simp: qs_def parts_listed_def)
    show "(f = part \<or> (\<exists>i < n. f = part_file i)) \<longleftrightarrow> (\<exists>i < ?n. f = part_file i)" for f
    proof (cases "fresh = []")
      case True
      then have "n - 1 < n" using some by simp
      then show ?thesis using True unfolding part_def by auto
    qed (auto simp: part_def less_Suc_eq)
    show "snd (qs ! i) = int (length (rows_at (xs_store st) pre d i))" if "?P qs st" "n \<le> i" "i < ?n" for st i
    proof -
      have "i = n" "fresh \<noteq> []" using that(2,3) by (auto split: if_splits)
      then show ?thesis using that(1) n by (simp add: qs_def parts_listed_def nth_append rows_at_def)
    qed
    show "ms_key m \<in> ms_key ` set (kept (xs_store st) pre d ?n)" if "?P qs st" "m \<in> set (sn_rows snap)" for st m
      using that by (auto simp: fresh_ok_def rows_at_def)
  qed (use tick in blast)+
  have r: "xvalid (export_inv U B) (export_inv U B) (xreturn x) (\<lambda>_. export_inv U B)" for x :: string by (rule xvalid_return)
  show ?thesis unfolding eq by (rule xvalid_bind [OF m]) (rule xvalid_bind [OF d r])
qed

lemma export_rows_valid:
  assumes t: "tenant_names s pre" and e: "env_ok U E" and dg: "separates U fp" and sn: "snap_ok U fp snap" and n: "n \<le> length ps"
    and base: "map fst (take n ps) = map part_file [0..<n]" and some: "sn_rows snap \<noteq> []"
  shows "xvalid (export_inv U B) (mine U B s pre d ps n) (export_rows E fp s pre d (take n ps) pending snap) (\<lambda>_. export_inv U B)"
  unfolding export_rows_def
proof (rule xvalid_bind)
  have len: "length (take n ps) = n" using n by simp
  let ?R = "\<lambda>fresh st. mine U B s pre d ps n st \<and> fresh_ok (xs_store st) pre d n snap fresh \<and> (fresh = [] \<longrightarrow> 0 < n)"
  show "xvalid (export_inv U B) (mine U B s pre d ps n)
      (if take n ps \<noteq> [] then without_archived E pre d snap (take n ps) else xreturn (batches snap)) ?R"
  proof (rule xvalid_if)
    assume "take n ps \<noteq> []"
    then have "0 < n" by auto
    have "xvalid (export_inv U B) (mine_at U B s pre d ps n S) (without_archived E pre d snap (take n ps)) ?R" for S
    proof (rule xvalid_weaken [OF without_archived_valid [OF t e sn base n, where S = S and d = d and B = B]])
      fix fresh st assume "mine_at U B s pre d ps n S st \<and> fresh_ok S pre d n snap fresh"
      then have "mine U B s pre d ps n st" "fresh_ok (xs_store st) pre d n snap fresh" by (simp_all add: mine_at_def)
      then show "?R fresh st" using \<open>0 < n\<close> by simp
    qed
    then show "xvalid (export_inv U B) (mine U B s pre d ps n) (without_archived E pre d snap (take n ps)) ?R"
      by (rule mine_at_valid)
  next
    assume "\<not> take n ps \<noteq> []"
    then have "n = 0" using len by auto
    moreover have "batches snap \<noteq> []" using some set_batches(2) [of snap] by auto
    ultimately show "xvalid (export_inv U B) (mine U B s pre d ps n) (xreturn (batches snap)) ?R"
      using fresh_ok_batches [OF sn] by (intro xvalid_return) auto
  qed
  fix fresh
  let ?Q = "\<lambda>st. mine U B s pre d ps n st \<and> fresh_ok (xs_store st) pre d n snap fresh \<and>
    (fresh \<noteq> [] \<longrightarrow> xs_store st (file_key pre d n) = Some (Parquet fresh))"
  show "xvalid (export_inv U B) (?R fresh)
      (xbind (if fresh \<noteq> [] then write_and_verify E pre d (part_file (length (take n ps))) fresh else xreturn ())
         (\<lambda>_. list_and_drop E fp s pre d (take n ps) pending snap fresh)) (\<lambda>_. export_inv U B)"
  proof (cases "fresh = [] \<and> n = 0")
    case False
    show ?thesis
    proof (rule xvalid_bind)
      show "xvalid (export_inv U B) (?R fresh)
          (if fresh \<noteq> [] then write_and_verify E pre d (part_file (length (take n ps))) fresh else xreturn ()) (\<lambda>_. ?Q)"
        unfolding len
      proof (rule xvalid_if)
        show "xvalid (export_inv U B) (?R fresh) (write_and_verify E pre d (part_file n) fresh) (\<lambda>_. ?Q)"
          by (rule xvalid_weaken [OF write_and_verify_valid [OF t e]]) auto
      qed (rule xvalid_return, simp)
      show "xvalid (export_inv U B) ?Q (list_and_drop E fp s pre d (take n ps) pending snap fresh) (\<lambda>_. export_inv U B)"
        by (rule list_and_drop_valid [OF t e dg sn n base]) (use False in simp)
    qed
  qed (simp add: xvalid_def)
qed

lemma check_part_counts:
  assumes t: "tenant_names s pre" and e: "env_ok U E" and p: "fst p = part_file i"
  shows "xvalid (export_inv U B) (mine U B s pre d ps n) (check_part E pre d p)
    (\<lambda>_ st. mine U B s pre d ps n st \<and> snd p = int (length (rows_at (xs_store st) pre d i)))"
  unfolding check_part_def
proof (rule xvalid_bind)
  show "xvalid (export_inv U B) (mine U B s pre d ps n) (xcall E (part_row_count pre d (fst p)))
      (\<lambda>footer st. mine U B s pre d ps n st \<and> footer = int (length (rows_at (xs_store st) pre d i)))"
  proof (rule xvalid_read)
    fix st x assume "mine U B s pre d ps n st" "fst (part_row_count pre d (fst p) st) = Inr x"
    then show "mine U B s pre d ps n st \<and> x = int (length (rows_at (xs_store st) pre d i))"
      by (auto simp: p part_row_count_def read_part_def part_key_file xbind_def xreturn_def rows_at_def file_key_def
          split: option.splits cold_object.splits)
  qed (use tick_mine [OF e] mine_inv [OF t] part_row_count_state in blast)+
  show "xvalid (export_inv U B) (\<lambda>st. mine U B s pre d ps n st \<and> footer = int (length (rows_at (xs_store st) pre d i)))
      (if footer \<noteq> snd p then xraise ExportError else xreturn ())
      (\<lambda>_ st. mine U B s pre d ps n st \<and> snd p = int (length (rows_at (xs_store st) pre d i)))" for footer
    by (intro xvalid_if xvalid_raise xvalid_return) (use mine_inv [OF t] in auto)
qed

lemma export_empty_valid:
  assumes t: "tenant_names s pre" and e: "env_ok U E" and dg: "separates U fp" and sn: "snap_ok U fp snap" and none: "sn_rows snap = []"
    and pend: "pending \<Longrightarrow> length ps = Suc n" "map fst ps = map part_file [0..<length ps]"
  shows "xvalid (export_inv U B) (mine U B s pre d ps n) (export_empty E fp s pre d ps pending snap) (\<lambda>_. export_inv U B)"
  unfolding export_empty_def
proof (rule xvalid_if)
  show "xvalid (export_inv U B) (mine U B s pre d ps n) (xreturn x) (\<lambda>_. export_inv U B)" for x :: string
    by (rule xvalid_return) (rule mine_inv [OF t])
  assume "\<not> \<not> pending"
  then have len: "length ps = Suc n" using pend(1) by simp
  then have last: "fst (last ps) = part_file n"
  proof -
    have "fst (last ps) = last (map fst ps)" using len by (subst last_map) auto
    then show ?thesis using pend(2) len by simp
  qed
  show "xvalid (export_inv U B) (mine U B s pre d ps n)
      (xbind (check_part E pre d (last ps)) (\<lambda>_. xbind (xcall E (drop_day fp s d snap (fst (last ps)))) (\<lambda>dropped.
         xreturn (if dropped then ''resumed_drop'' else ''drop_deferred'')))) (\<lambda>_. export_inv U B)"
    unfolding last
  proof (rule xvalid_bind)
    let ?C = "\<lambda>st. mine U B s pre d ps n st \<and> snd (last ps) = int (length (rows_at (xs_store st) pre d n))"
    show "xvalid (export_inv U B) (mine U B s pre d ps n) (check_part E pre d (last ps)) (\<lambda>_. ?C)"
      by (rule check_part_counts [OF t e last])
    have tick: "?C st \<Longrightarrow> ?C (tick E st)" for st using tick_mine [OF e] by (auto simp: tick_def)
    have "last ps = ps ! n" using len by (cases ps rule: rev_cases) auto
    then have "xvalid (export_inv U B) ?C (xcall E (drop_day fp s d snap (part_file n))) (\<lambda>_. export_inv U B)"
      by (intro drop_valid [OF t e dg sn, where n' = "Suc n"]) (use len none tick in \<open>auto simp: less_Suc_eq\<close>)
    then show "xvalid (export_inv U B) ?C (xbind (xcall E (drop_day fp s d snap (part_file n))) (\<lambda>dropped.
         xreturn (if dropped then ''resumed_drop'' else ''drop_deferred''))) (\<lambda>_. export_inv U B)"
      by (rule xvalid_bind) (simp add: xvalid_return)
  qed
qed

end
