(* ===== verification/Cold_Runs.thy ===== *)
theory Cold_Runs
  imports Cold_Archive
begin

text \<open>
  Whole days, tenants and runs of the cold export, over the archive of \<open>Cold_Archive\<close>.
\<close>

section \<open>A day\<close>

lemma xvalidD: "xvalid I P m Q \<Longrightarrow> P st \<Longrightarrow> case m st of (Inl e, st') \<Rightarrow> I st' | (Inr x, st') \<Rightarrow> Q x st'"
  by (simp add: xvalid_def)

lemma mine_fsts: "mine U B s pre d ps n st \<Longrightarrow> map fst ps = map part_file [0..<length ps] \<and> n \<le> length ps \<and> length ps \<le> Suc n"
  by (simp add: mine_def day_inv_def)

lemma manifest_valid:
  assumes t: "tenant_names s pre" and e: "env_ok U E"
  shows "xvalid (export_inv U B) (mine U B s pre d ps n) (xcall E (read_manifest pre d))
    (\<lambda>j st. mine U B s pre d ps n st \<and> j = (if ps = [] then None else Some (manifest_of s d ps)))"
proof (rule xvalid_read)
  fix st x assume "mine U B s pre d ps n st" "fst (read_manifest pre d st) = Inr x"
  then show "mine U B s pre d ps n st \<and> x = (if ps = [] then None else Some (manifest_of s d ps))"
    by (auto simp: mine_def day_inv_def read_manifest_def manifest_of_def split: if_splits)
qed (use tick_mine [OF e] mine_inv [OF t] read_manifest_state in blast)+

lemma pending_valid:
  assumes t: "tenant_names s pre" and e: "env_ok U E" and ps: "map fst ps = map part_file [0..<length ps]" "ps \<noteq> []"
  shows "xvalid (export_inv U B) (mine U B s pre d ps n) (xcall E (drop_recorded s d (fst (last ps))))
    (\<lambda>r st. mine U B s pre d ps n st \<and> (r \<longleftrightarrow> length ps = n))"
proof (rule xvalid_read)
  fix st x assume m: "mine U B s pre d ps n st" and x: "fst (drop_recorded s d (fst (last ps)) st) = Inr x"
  have "fst (last ps) = last (map fst ps)" using ps(2) by (simp add: last_map)
  also have "\<dots> = part_file (length ps - 1)" using ps by (simp add: last_map)
  finally have "x \<longleftrightarrow> (\<exists>i < n. part_file (length ps - 1) = part_file i)" using x m by (simp add: drop_recorded_def mine_def day_inv_def)
  then have "x \<longleftrightarrow> length ps - 1 < n" by (simp add: part_file_inj)
  then show "mine U B s pre d ps n st \<and> (x \<longleftrightarrow> length ps = n)" using m mine_fsts [OF m] ps(2) by (cases ps) auto
qed (use tick_mine [OF e] mine_inv [OF t] in \<open>auto simp: drop_recorded_def\<close>)

lemma snapshot_mine:
  assumes t: "tenant_names s pre" and e: "env_ok U E"
  shows "xvalid (export_inv U B) (mine U B s pre d ps n) (xcall E (snapshot_day fp s d))
    (\<lambda>snap st. mine U B s pre d ps n st \<and> snap_ok U fp snap)"
  by (rule mine_at_valid, rule xvalid_weaken [OF snapshot_valid [OF t e]]) (auto simp: mine_at_def)

lemma snapshot_part_valid:
  assumes t: "tenant_names s pre" and e: "env_ok U E" and dg: "separates U fp"
    and fsts: "map fst ps = map part_file [0..<length ps]" and n: "n \<le> length ps" and pend: "pending \<Longrightarrow> length ps = Suc n"
  shows "xvalid (export_inv U B) (mine U B s pre d ps n)
    (xbind (xcall E (snapshot_day fp s d)) (\<lambda>snap.
       if sn_rows snap = [] then export_empty E fp s pre d ps pending snap
       else export_rows E fp s pre d (take n ps) pending snap)) (\<lambda>_. export_inv U B)"
proof (rule xvalid_bind [OF snapshot_mine [OF t e]])
  fix snap
  have base: "map fst (take n ps) = map part_file [0..<n]"
  proof -
    have "map fst (take n ps) = take n (map part_file [0..<length ps])" using fsts by (simp add: take_map [symmetric])
    then show ?thesis using n by (simp add: take_map)
  qed
  show "xvalid (export_inv U B) (\<lambda>st. mine U B s pre d ps n st \<and> snap_ok U fp snap)
      (if sn_rows snap = [] then export_empty E fp s pre d ps pending snap else export_rows E fp s pre d (take n ps) pending snap)
      (\<lambda>_. export_inv U B)"
  proof (cases "snap_ok U fp snap")
    case True
    show ?thesis
    proof (cases "sn_rows snap = []")
      case none: True
      show ?thesis unfolding if_P [OF none]
        by (rule xvalid_weaken [OF export_empty_valid [OF t e dg True none pend fsts]]) auto
    next
      case some: False
      show ?thesis unfolding if_not_P [OF some]
        by (rule xvalid_weaken [OF export_rows_valid [OF t e dg True n base some]]) auto
    qed
  qed (simp add: xvalid_def)
qed

lemma export_day_mine:
  assumes t: "tenant_names s pre" and e: "env_ok U E" and dg: "separates U fp"
    and fsts: "map fst ps = map part_file [0..<length ps]" and n: "n \<le> length ps" "length ps \<le> Suc n"
  shows "xvalid (export_inv U B) (mine U B s pre d ps n) (export_day E fp s pre d) (\<lambda>_. export_inv U B)"
proof -
  let ?M = "mine U B s pre d ps n" and ?I = "export_inv U B"
  let ?tail = "\<lambda>pending. xbind (check_parts E pre d (if pending then butlast ps else ps)) (\<lambda>_.
        xbind (xcall E (snapshot_day fp s d)) (\<lambda>snap.
          if sn_rows snap = [] then export_empty E fp s pre d ps pending snap
          else export_rows E fp s pre d (if pending then butlast ps else ps) pending snap))"
  have tail: "xvalid ?I ?M (?tail pending) (\<lambda>_. ?I)" if pend: "pending \<longleftrightarrow> length ps = Suc n" for pending
  proof -
    have "(if pending then butlast ps else ps) = take n ps" using pend n by (auto simp: butlast_conv_take le_Suc_eq)
    moreover have "xvalid ?I ?M (check_parts E pre d (take n ps)) (\<lambda>_. ?M)"
      by (rule check_parts_keeps) (use tick_mine [OF e] mine_inv [OF t] in blast)+
    moreover have "xvalid ?I ?M (xbind (xcall E (snapshot_day fp s d)) (\<lambda>snap.
          if sn_rows snap = [] then export_empty E fp s pre d ps pending snap
          else export_rows E fp s pre d (take n ps) pending snap)) (\<lambda>_. ?I)"
      by (rule snapshot_part_valid [OF t e dg fsts n(1)]) (use pend in simp)
    ultimately show ?thesis by (simp only: xvalid_bind)
  qed
  let ?j = "if ps = [] then None else Some (manifest_of s d ps)"
  have read: "manifest_parts ?j = Inr ps" "\<not> is_legacy ?j"
    using manifest_read [of s d ps] by (auto simp: manifest_parts_def is_legacy_def)
  have pending: "xvalid ?I ?M (if ps \<noteq> [] \<and> \<not> is_legacy ?j then xbind (xcall E (drop_recorded s d (fst (last ps)))) (\<lambda>r. xreturn (\<not> r)) else xreturn False)
      (\<lambda>p st. ?M st \<and> (p \<longleftrightarrow> length ps = Suc n))"
  proof (cases "ps = []")
    case True
    then show ?thesis by (simp add: xvalid_return)
  next
    case False
    have "xvalid ?I ?M (xbind (xcall E (drop_recorded s d (fst (last ps)))) (\<lambda>r. xreturn (\<not> r))) (\<lambda>p st. ?M st \<and> (p \<longleftrightarrow> length ps = Suc n))"
      by (rule xvalid_bind [OF pending_valid [OF t e fsts False]], rule xvalid_return) (use n in auto)
    then show ?thesis using False read(2) by simp
  qed
  show ?thesis unfolding export_day_def
  proof (rule xvalid_bind [OF manifest_valid [OF t e]])
    fix j
    show "xvalid ?I (\<lambda>st. ?M st \<and> j = ?j)
      (xbind (xlift (manifest_parts j)) (\<lambda>parts.
       xbind (if parts \<noteq> [] \<and> \<not> is_legacy j then xbind (xcall E (drop_recorded s d (fst (last parts)))) (\<lambda>r. xreturn (\<not> r)) else xreturn False) (\<lambda>pending.
       let committed = (if pending then butlast parts else parts)
       in xbind (check_parts E pre d committed) (\<lambda>_.
          xbind (xcall E (snapshot_day fp s d)) (\<lambda>snap.
            if sn_rows snap = [] then export_empty E fp s pre d parts pending snap
            else export_rows E fp s pre d committed pending snap))))) (\<lambda>_. ?I)"
    proof (cases "j = ?j")
      case True
      have lift: "xbind (xlift (manifest_parts ?j)) k = k ps" for k :: "parts \<Rightarrow> string export"
        unfolding read(1) by (rule ext) (simp add: xbind_def xlift_def)
      have "xvalid ?I ?M (xbind (if ps \<noteq> [] \<and> \<not> is_legacy ?j then xbind (xcall E (drop_recorded s d (fst (last ps)))) (\<lambda>r. xreturn (\<not> r)) else xreturn False) ?tail) (\<lambda>_. ?I)"
      proof (rule xvalid_bind [OF pending])
        fix p
        show "xvalid ?I (\<lambda>st. ?M st \<and> (p \<longleftrightarrow> length ps = Suc n)) (?tail p) (\<lambda>_. ?I)"
        proof (cases "p \<longleftrightarrow> length ps = Suc n")
          case True
          from tail [OF this] show ?thesis by (rule xvalid_weaken) auto
        qed (simp add: xvalid_def)
      qed
      then show ?thesis unfolding True lift Let_def by (rule xvalid_weaken) auto
    qed (simp add: xvalid_def)
  qed
qed

lemma export_day_valid:
  assumes t: "tenant_names s pre" and e: "env_ok U E" and dg: "separates U fp"
  shows "xvalid (export_inv U B) (export_inv U B) (export_day E fp s pre d) (\<lambda>_. export_inv U B)"
  unfolding xvalid_def
proof (intro allI impI)
  fix st assume "export_inv U B st"
  then obtain ps n where m: "mine U B s pre d ps n st" using inv_mine [OF t] by blast
  then have "xvalid (export_inv U B) (mine U B s pre d ps n) (export_day E fp s pre d) (\<lambda>_. export_inv U B)"
    using mine_fsts [OF m] by (intro export_day_mine [OF t e dg]) auto
  then show "case export_day E fp s pre d st of (Inl e, st') \<Rightarrow> export_inv U B st' | (Inr x, st') \<Rightarrow> export_inv U B st'"
    using m by (rule xvalidD)
qed

section \<open>A run keeps the archive\<close>

lemma tick_inv: "env_ok U E \<Longrightarrow> export_inv U B st \<Longrightarrow> export_inv U B (tick E st)"
proof -
  assume "env_ok U E" "export_inv U B st"
  moreover have "day_ok A (tick E st) s pre d = day_ok A st s pre d" for A s pre d
    by (intro day_ok_cong day_inv_cong) (simp_all add: tick_def)
  ultimately show ?thesis by (auto simp: export_inv_def env_ok_def tick_def)
qed

lemma xvalid_keep:
  assumes "env_ok U E" "\<And>st. snd (f st) = st"
  shows "xvalid (export_inv U B) (export_inv U B) (xcall E f) (\<lambda>_. export_inv U B)"
  by (rule xvalid_read) (use assms tick_inv in auto)

lemma export_days_valid:
  assumes "tenant_names s pre" "env_ok U E" "separates U fp"
  shows "xvalid (export_inv U B) (export_inv U B) (export_days E fp s pre ds t) (\<lambda>_. export_inv U B)"
proof (induction ds arbitrary: t)
  case Nil
  show ?case by (simp add: xvalid_return)
next
  case (Cons d ds)
  show ?case unfolding export_days.simps by (rule xvalid_bind [OF export_day_valid [OF assms]]) (rule Cons.IH)
qed

lemma export_tenant_valid:
  assumes "env_ok U E" "separates U fp"
  shows "xvalid (export_inv U B) (export_inv U B) (export_tenant E fp tenant cutoff) (\<lambda>_. export_inv U B)"
  unfolding export_tenant_def
proof (rule xvalid_bind)
  show "xvalid (export_inv U B) (export_inv U B) (xlift (cold_object_prefix (fst tenant)))
      (\<lambda>pre st. export_inv U B st \<and> cold_object_prefix (fst tenant) = Inr pre)" by (rule xvalid_lift) auto
  fix pre
  show "xvalid (export_inv U B) (\<lambda>st. export_inv U B st \<and> cold_object_prefix (fst tenant) = Inr pre)
      (xbind (xlift (schema_name (fst tenant))) (\<lambda>schema. if snd tenant \<noteq> schema then xraise ExportError
         else xbind (xcall E (exportable_days schema cutoff)) (\<lambda>days. export_days E fp schema pre days []))) (\<lambda>_. export_inv U B)"
  proof (rule xvalid_bind)
    show "xvalid (export_inv U B) (\<lambda>st. export_inv U B st \<and> cold_object_prefix (fst tenant) = Inr pre) (xlift (schema_name (fst tenant)))
        (\<lambda>schema st. export_inv U B st \<and> tenant_names schema pre)" by (rule xvalid_lift) (auto simp: tenant_names_def)
    fix schema
    show "xvalid (export_inv U B) (\<lambda>st. export_inv U B st \<and> tenant_names schema pre) (if snd tenant \<noteq> schema then xraise ExportError
         else xbind (xcall E (exportable_days schema cutoff)) (\<lambda>days. export_days E fp schema pre days [])) (\<lambda>_. export_inv U B)"
    proof (cases "tenant_names schema pre")
      case True
      have days: "xvalid (export_inv U B) (export_inv U B) (xcall E (exportable_days schema cutoff)) (\<lambda>_. export_inv U B)"
        by (rule xvalid_keep [OF assms(1)]) (simp add: exportable_days_def)
      have "xvalid (export_inv U B) (export_inv U B) (if snd tenant \<noteq> schema then xraise ExportError
         else xbind (xcall E (exportable_days schema cutoff)) (\<lambda>days. export_days E fp schema pre days [])) (\<lambda>_. export_inv U B)"
        by (intro xvalid_if xvalid_raise xvalid_bind [OF days] export_days_valid [OF True assms])
      then show ?thesis by (rule xvalid_weaken) auto
    qed (simp add: xvalid_def)
  qed
qed

lemma export_tenants_valid:
  assumes "env_ok U E" "separates U fp"
  shows "xvalid (export_inv U B) (export_inv U B) (export_tenants E fp ts cutoff t n) (\<lambda>_. export_inv U B)"
proof (induction ts arbitrary: t n)
  case Nil
  show ?case by (simp add: xvalid_return)
next
  case (Cons tenant ts)
  show ?case unfolding xvalid_def
  proof (intro allI impI)
    fix st assume st: "export_inv U B st"
    obtain r st1 where r: "export_tenant E fp tenant cutoff st = (r, st1)" by force
    have st1: "export_inv U B st1" using xvalidD [OF export_tenant_valid [OF assms] st, of tenant cutoff] r by (auto split: sum.splits)
    have rest: "case export_tenants E fp ts cutoff t' n' st1 of (Inl e, st') \<Rightarrow> export_inv U B st' | (Inr x, st') \<Rightarrow> export_inv U B st'" for t' n'
      by (rule xvalidD [OF Cons.IH st1])
    show "case export_tenants E fp (tenant # ts) cutoff t n st of (Inl e, st') \<Rightarrow> export_inv U B st' | (Inr x, st') \<Rightarrow> export_inv U B st'"
    proof (cases r)
      case (Inl err)
      then show ?thesis using r rest st1 by (cases err) simp_all
    next
      case (Inr tt)
      then show ?thesis using r rest by simp
    qed
  qed
qed

lemma run_export_valid:
  assumes "env_ok U E" "separates U fp"
  shows "xvalid (export_inv U B) (export_inv U B) (run_export E fp ts horizon today acquired) (\<lambda>_. export_inv U B)"
proof -
  let ?I = "export_inv U B"
  have "xvalid ?I ?I (run_export_locked E fp ts horizon today) (\<lambda>_. ?I)"
    unfolding run_export_locked_def
  proof (rule xvalid_bind)
    show "xvalid ?I ?I (xlift (days_before horizon today)) (\<lambda>_. ?I)" by (rule xvalid_lift)
    fix cutoff
    show "xvalid ?I ?I (xbind (xcall E (xreturn ts)) (\<lambda>ts. xbind (export_tenants E fp ts cutoff [] 0) (\<lambda>(t, failures).
        if failures \<noteq> 0 then xraise ExportError else xreturn t))) (\<lambda>_. ?I)"
    proof (rule xvalid_bind)
      show "xvalid ?I ?I (xcall E (xreturn ts)) (\<lambda>_. ?I)" by (rule xvalid_keep [OF assms(1)]) (simp add: xreturn_def)
      show "xvalid ?I ?I (xbind (export_tenants E fp us cutoff [] 0) (\<lambda>(t, failures). if failures \<noteq> 0 then xraise ExportError else xreturn t)) (\<lambda>_. ?I)" for us
        by (rule xvalid_bind [OF export_tenants_valid [OF assms]]) (auto intro: xvalid_raise xvalid_return split: prod.splits)
    qed
  qed
  then show ?thesis unfolding run_export_def
    by (intro xvalid_bind [OF xvalid_keep [OF assms(1)]] xvalid_if xvalid_return) (simp_all add: xreturn_def)
qed

section \<open>What is archived\<close>

text \<open>The rows of the listed parts whose drop is recorded.\<close>

definition part_rows :: "export_state \<Rightarrow> string \<Rightarrow> date \<Rightarrow> string \<Rightarrow> measurement list" where
  "part_rows st pre d f =
     (case part_key pre d f of
        Inl _ \<Rightarrow> []
      | Inr k \<Rightarrow> (case xs_store st k of Some (Parquet rs) \<Rightarrow> rs | _ \<Rightarrow> []))"

definition archived_rows :: "export_state \<Rightarrow> string \<Rightarrow> string \<Rightarrow> date \<Rightarrow> measurement list" where
  "archived_rows st s pre d =
     (case xs_store st (manifest_key pre d) of
        Some (JsonFile j) \<Rightarrow>
          (case manifest_parts (Some j) of
             Inl _ \<Rightarrow> []
           | Inr ps \<Rightarrow> concat (map (part_rows st pre d) (filter (\<lambda>f. (s, d, f) \<in> xs_drops st) (map fst ps))))
      | _ \<Rightarrow> [])"

lemma archived_kept:
  assumes "day_inv A st s pre d ps n"
  shows "archived_rows st s pre d = kept (xs_store st) pre d n"
proof (cases "ps = []")
  case True
  then show ?thesis using assms by (simp add: archived_rows_def day_inv_def)
next
  case False
  have n: "n \<le> length ps" and fsts: "map fst ps = map part_file [0..<length ps]"
    and drops: "\<And>f. (s, d, f) \<in> xs_drops st \<longleftrightarrow> (\<exists>i < n. f = part_file i)"
    using assms by (simp_all add: day_inv_def)
  have "filter (\<lambda>f. (s, d, f) \<in> xs_drops st) (map fst ps) = map part_file (filter (\<lambda>i. i < n) [0..<length ps])"
    unfolding fsts filter_map by (simp add: drops o_def part_file_inj)
  also have "filter (\<lambda>i. i < n) [0..<length ps] = [0..<n]"
  proof -
    have "[0..<length ps] = [0..<n] @ [n..<length ps]" using n upt_add_eq_append [of 0 n "length ps - n"] by simp
    then show ?thesis by (simp add: filter_id_conv)
  qed
  finally have "archived_rows st s pre d = concat (map (part_rows st pre d) (map part_file [0..<n]))"
    using assms False manifest_read [of s d ps] by (simp add: archived_rows_def day_inv_def)
  moreover have "part_rows st pre d (part_file i) = rows_at (xs_store st) pre d i" for i
    by (simp add: part_rows_def rows_at_def part_key_file file_key_def)
  ultimately show ?thesis by (simp add: kept_def o_def)
qed

section \<open>Every run keeps the archive\<close>

definition cold_start :: "hot \<Rightarrow> export_state" where
  "cold_start h = \<lparr>xs_hot = h, xs_drops = {}, xs_store = Map.empty, xs_dropped = [], xs_calls = 0\<rparr>"

text \<open>The states after any number of runs, each with its own failures and changes of the hot table.\<close>

inductive export_reach :: "measurement set \<Rightarrow> (measurement list \<Rightarrow> int) \<Rightarrow> export_state \<Rightarrow> bool" for U fp where
  reach_start: "hot_ok U h \<Longrightarrow> export_reach U fp (cold_start h)"
| reach_run: "export_reach U fp st \<Longrightarrow> env_ok U E \<Longrightarrow>
    export_reach U fp (snd (run_export E fp ts horizon today acquired (st\<lparr>xs_calls := 0\<rparr>)))"

lemma day_inv_start: "day_inv [] (cold_start h) s pre d [] 0"
  by (simp add: day_inv_def cold_start_def)

lemma inv_calls: "export_inv U B (st\<lparr>xs_calls := k\<rparr>) = export_inv U B st"
proof -
  have "day_ok A (st\<lparr>xs_calls := k\<rparr>) s pre d = day_ok A st s pre d" for A s pre d
    by (intro day_ok_cong day_inv_cong) simp_all
  then show ?thesis by (simp add: export_inv_def)
qed

lemma run_export_inv:
  assumes "env_ok U E" "separates U fp" "export_inv U B st"
  shows "export_inv U B (snd (run_export E fp ts horizon today acquired (st\<lparr>xs_calls := 0\<rparr>)))"
  using xvalidD [OF run_export_valid [OF assms(1,2)], of B "st\<lparr>xs_calls := 0\<rparr>" ts horizon today acquired] assms(3)
  by (auto simp: inv_calls split: prod.splits sum.splits)

lemma reach_inv: "export_reach U fp st \<Longrightarrow> separates U fp \<Longrightarrow> export_inv U (\<lambda>_ _. []) st"
proof (induction rule: export_reach.induct)
  case (reach_start h)
  have "day_ok [] (cold_start h) s pre d" for s pre d using day_inv_start unfolding day_ok_def by blast
  then show ?case using reach_start by (simp add: export_inv_def) (simp add: cold_start_def)
qed (auto intro: run_export_inv)

lemma inv_from_archived:
  assumes "export_inv U (\<lambda>_ _. []) st" "tenant_names s pre"
  shows "export_inv U (\<lambda>s' d'. if s' = s \<and> d' = d then archived_rows st s pre d else []) st"
proof -
  have "day_ok (archived_rows st s pre d) st s pre d"
  proof -
    obtain ps n where day: "day_inv [] st s pre d ps n" using assms unfolding export_inv_def day_ok_def by blast
    then have "day_inv (archived_rows st s pre d) st s pre d ps n" using archived_kept [OF day] by (simp add: day_inv_def)
    then show ?thesis unfolding day_ok_def by blast
  qed
  then have "day_ok (if s' = s \<and> d' = d then archived_rows st s pre d else []) st s' pre' d'" if "tenant_names s' pre'" for s' pre' d'
    using that assms(1) tenant_names_inj [OF that assms(2)] by (auto simp: export_inv_def)
  then show ?thesis using assms(1) by (simp add: export_inv_def)
qed

lemma archive_kept:
  assumes "export_inv U (\<lambda>s' d'. if s' = s \<and> d' = d then A else []) st" "tenant_names s pre"
  shows "prefix A (archived_rows st s pre d) \<and> distinct (map ms_key (archived_rows st s pre d)) \<and>
    (\<forall>m. (s, d, m) \<in> set (xs_dropped st) \<longrightarrow> ms_key m \<in> ms_key ` set (archived_rows st s pre d))"
proof -
  obtain ps n where day: "day_inv A st s pre d ps n"
    using assms(1) [unfolded export_inv_def, THEN conjunct2, rule_format, OF assms(2), of d] by (auto simp: day_ok_def)
  have "distinct (map ms_key (kept (xs_store st) pre d n))"
    using day unfolding day_inv_def by (cases "length ps = n") (auto simp: le_Suc_eq)
  then show ?thesis unfolding archived_kept [OF day] using day by (simp add: day_inv_def)
qed

text \<open>
  C19. The cold export never loses a reading. Take any history of runs that fail or die at any call, with the hot
  table changing meanwhile, and one more such run. Then for every tenant and day: every row a drop removed from the hot
  table is archived under its key, in a part that is listed in the day's manifest and whose drop is recorded; no key is
  archived twice; and what was archived before the run is still there, as it was, at the front of the archive. The
  digest the database compares is assumed to separate the rows that occur.
\<close>

theorem cold_export_keeps:
  assumes "separates U fp" "export_reach U fp st" "env_ok U E"
    and "schema_name c = Inr s" "cold_object_prefix c = Inr pre"
    and "st' = snd (run_export E fp tenants horizon today acquired (st\<lparr>xs_calls := 0\<rparr>))"
  shows "prefix (archived_rows st s pre d) (archived_rows st' s pre d) \<and>
    distinct (map ms_key (archived_rows st' s pre d)) \<and>
    (\<forall>m. (s, d, m) \<in> set (xs_dropped st') \<longrightarrow> ms_key m \<in> ms_key ` set (archived_rows st' s pre d))"
proof -
  have t: "tenant_names s pre" using assms(4,5) by (auto simp: tenant_names_def)
  have "export_inv U (\<lambda>s' d'. if s' = s \<and> d' = d then archived_rows st s pre d else []) st'"
    unfolding assms(6) by (rule run_export_inv [OF assms(3,1) inv_from_archived [OF reach_inv [OF assms(2,1)] t]])
  then show ?thesis using t by (rule archive_kept)
qed


definition reading_a :: measurement where
  "reading_a = \<lparr>ms_time = 5, ms_sensor_id = ''a'', ms_equipment_id = None, ms_site_id = None, ms_value = Fin 1, ms_unit = None,
     ms_quality_code = None, ms_is_anomaly = None\<rparr>"

definition reading_b :: measurement where
  "reading_b = reading_a\<lparr>ms_sensor_id := ''b''\<rparr>"

definition demo_digest :: "measurement list \<Rightarrow> int" where
  "demo_digest rows = of_bool (reading_a \<in> set rows) + 2 * of_bool (reading_b \<in> set rows)"

lemma demo_digest_separates: "separates {reading_a, reading_b} demo_digest"
  unfolding separates_def
proof (intro allI impI)
  fix xs ys assume *: "set xs \<subseteq> {reading_a, reading_b} \<and> set ys \<subseteq> {reading_a, reading_b} \<and> length xs = length ys \<and> demo_digest xs = demo_digest ys"
  then have "reading_a \<in> set xs \<longleftrightarrow> reading_a \<in> set ys" "reading_b \<in> set xs \<longleftrightarrow> reading_b \<in> set ys"
    by (auto simp: demo_digest_def of_bool_def split: if_splits)
  with * show "set xs = set ys" by blast
qed

definition quiet_env :: export_env where
  "quiet_env = \<lparr>xe_net = (\<lambda>_. Answered), xe_hot = (\<lambda>_ h. h), xe_keep = (\<lambda>_. 1000)\<rparr>"

definition dying_env :: "nat \<Rightarrow> export_env" where
  "dying_env k = quiet_env\<lparr>xe_net := (\<lambda>n. if n = k then Dead False else Answered)\<rparr>"

definition demo_tenant_id :: string where "demo_tenant_id = ''00000000-0000-0000-0000-000000000001''"

definition demo_schema :: string where "demo_schema = ''tenant_00000000_0000_0000_0000_000000000001''"

definition demo_prefix :: string where "demo_prefix = ''tenant_00000000-0000-0000-0000-000000000001''"

definition demo_tenants :: "(string \<times> string) list" where "demo_tenants = [(demo_tenant_id, demo_schema)]"

definition demo_hot :: hot where
  "demo_hot = [(demo_schema, Date 2024 2 29, reading_a)]"

text \<open>A run that dies before the drop of the part it has listed.\<close>

definition demo_died :: export_state where
  "demo_died = snd (run_export (dying_env 8) demo_digest demo_tenants 2 (Date 2024 3 3) True (cold_start demo_hot))"

lemma demo_cold_names: "schema_name demo_tenant_id = Inr demo_schema" "cold_object_prefix demo_tenant_id = Inr demo_prefix"
  by code_simp+

lemma demo_ok: "hot_ok {reading_a, reading_b} demo_hot" "env_ok {reading_a, reading_b} (dying_env n)" "env_ok {reading_a, reading_b} quiet_env"
  by (auto simp: hot_ok_def demo_hot_def day_rows_def env_ok_def dying_env_def quiet_env_def)

lemma demo_died_reach: "export_reach {reading_a, reading_b} demo_digest demo_died"
  using reach_run [OF reach_start [OF demo_ok(1)] demo_ok(2)] unfolding demo_died_def by (simp add: cold_start_def)

definition demo_recovered :: export_state where
  "demo_recovered = snd (run_export quiet_env demo_digest demo_tenants 2 (Date 2024 3 3) True (demo_died\<lparr>xs_calls := 0\<rparr>))"

lemma demo_recovered_dropped: "xs_dropped demo_recovered = demo_hot"
  unfolding demo_hot_def by code_simp

theorem cold_export_keeps_witness:
  "xs_dropped demo_recovered = [(demo_schema, Date 2024 2 29, reading_a)] \<and>
   distinct (map ms_key (archived_rows demo_recovered demo_schema demo_prefix (Date 2024 2 29))) \<and>
   ms_key reading_a \<in> ms_key ` set (archived_rows demo_recovered demo_schema demo_prefix (Date 2024 2 29))"
  using cold_export_keeps [OF demo_digest_separates demo_died_reach demo_ok(3) demo_cold_names demo_recovered_def, of "Date 2024 2 29"] demo_recovered_dropped
  by (simp add: demo_hot_def)

end
