(* ===== verification/Cold_Drain.thy ===== *)
theory Cold_Drain
  imports Cold_Runs
begin

text \<open>
  A run of the cold export that nothing disturbs empties the hot table of every day it is due to export.
\<close>

section \<open>Programs that end\<close>

definition quiet :: "export_env \<Rightarrow> nat \<Rightarrow> bool" where
  "quiet E k \<longleftrightarrow> (\<forall>n. xe_net E n = Answered \<and> xe_hot E n = (\<lambda>h. h) \<and> k \<le> xe_keep E n)"

definition xends :: "(export_state \<Rightarrow> bool) \<Rightarrow> 'a export \<Rightarrow> ('a \<Rightarrow> export_state \<Rightarrow> bool) \<Rightarrow> bool" where
  "xends P m Q \<longleftrightarrow> (\<forall>st. P st \<longrightarrow> (\<exists>x st'. m st = (Inr x, st') \<and> Q x st'))"

lemma xends_bind:
  assumes "xends P m R" "\<And>x. xends (R x) (k x) Q"
  shows "xends P (xbind m k) Q"
  unfolding xends_def
proof (intro allI impI)
  fix st assume "P st"
  then obtain x st1 where x: "m st = (Inr x, st1)" "R x st1" using assms(1) unfolding xends_def by blast
  then obtain y st2 where "k x st1 = (Inr y, st2)" "Q y st2" using assms(2) unfolding xends_def by blast
  then show "\<exists>y st'. xbind m k st = (Inr y, st') \<and> Q y st'" using x(1) by (simp add: xbind_def)
qed

lemma xends_bind_eq:
  assumes "xends P m (\<lambda>r st. r = x \<and> R st)" "xends R (k x) Q"
  shows "xends P (xbind m k) Q"
  by (rule xends_bind [OF assms(1)]) (use assms(2) in \<open>auto simp: xends_def\<close>)

lemma xends_return: "(\<And>st. P st \<Longrightarrow> Q x st) \<Longrightarrow> xends P (xreturn x) Q"
  by (simp add: xends_def xreturn_def)

lemma xends_weaken: "xends P' m Q' \<Longrightarrow> (\<And>st. P st \<Longrightarrow> P' st) \<Longrightarrow> (\<And>x st. Q' x st \<Longrightarrow> Q x st) \<Longrightarrow> xends P m Q"
  unfolding xends_def by blast

text \<open>A state but for the number of calls made.\<close>

definition at_state :: "export_state \<Rightarrow> export_state \<Rightarrow> bool" where
  "at_state st0 st \<longleftrightarrow> (\<exists>k. st = st0\<lparr>xs_calls := k\<rparr>)"

lemma xcall_quiet: "quiet E n \<Longrightarrow> xcall E f st = f (st\<lparr>xs_calls := Suc (xs_calls st)\<rparr>)"
  by (simp add: xcall_def quiet_def Let_def)

lemma xends_call:
  assumes "quiet E n" "\<And>k. f (st0\<lparr>xs_calls := k\<rparr>) = (Inr x, st1\<lparr>xs_calls := k\<rparr>)"
  shows "xends (at_state st0) (xcall E f) (\<lambda>r st. r = x \<and> at_state st1 st)"
  using assms(2) by (fastforce simp: xends_def at_state_def xcall_quiet [OF assms(1)])

section \<open>Exporting a day ends\<close>

lemma part_reads:
  assumes "day_inv A st s pre d ps n" "i < length ps"
  shows "read_part pre d (part_file i) (st\<lparr>xs_calls := k\<rparr>) = (Inr (rows_at (xs_store st) pre d i), st\<lparr>xs_calls := k\<rparr>)"
proof -
  obtain rs where "xs_store st (file_key pre d i) = Some (Parquet rs)" using assms by (auto simp: day_inv_def)
  then show ?thesis by (simp add: read_part_def part_key_file rows_at_def file_key_def)
qed

lemma check_parts_ends:
  assumes q: "quiet E k" and day: "day_inv A st0 s pre d ps n"
    and qs: "\<And>p. p \<in> set qs \<Longrightarrow> \<exists>i < n. p = ps ! i"
  shows "xends (at_state st0) (check_parts E pre d qs) (\<lambda>r st. r = () \<and> at_state st0 st)"
  using qs
proof (induction qs)
  case Nil
  show ?case by (simp add: xends_return)
next
  case (Cons p qs)
  obtain i where i: "i < n" "p = ps ! i" using Cons.prems [of p] by auto
  have n: "i < length ps" "fst p = part_file i" "snd p = int (length (rows_at (xs_store st0) pre d i))"
  proof -
    show l: "i < length ps" using i day by (auto simp: day_inv_def)
    have "map fst ps ! i = map part_file [0..<length ps] ! i" using day by (simp add: day_inv_def)
    then show "fst p = part_file i" using l i by simp
    show "snd p = int (length (rows_at (xs_store st0) pre d i))" using day i by (simp add: day_inv_def)
  qed
  have "xends (at_state st0) (xcall E (part_row_count pre d (fst p))) (\<lambda>r st. r = snd p \<and> at_state st0 st)"
    by (rule xends_call [OF q]) (use part_reads [OF day n(1)] n in \<open>auto simp: part_row_count_def xbind_def xreturn_def\<close>)
  then have "xends (at_state st0) (check_part E pre d p) (\<lambda>r st. r = () \<and> at_state st0 st)"
    unfolding check_part_def by (rule xends_bind_eq) (simp add: xends_return)
  then show ?case unfolding check_parts.simps by (rule xends_bind_eq) (use Cons in auto)
qed

lemma archived_keys_ends:
  assumes q: "quiet E k" and day: "day_inv A st0 s pre d ps n" and qs: "\<And>p. p \<in> set qs \<Longrightarrow> \<exists>i < length ps. fst p = part_file i"
  shows "\<exists>ks. xends (at_state st0) (archived_keys E pre d qs) (\<lambda>r st. r = ks \<and> at_state st0 st)"
  using qs
proof (induction qs)
  case Nil
  show ?case by (auto intro: xends_return)
next
  case (Cons p qs)
  obtain i where i: "i < length ps" "fst p = part_file i" using Cons.prems [of p] by auto
  obtain ks where ks: "xends (at_state st0) (archived_keys E pre d qs) (\<lambda>r st. r = ks \<and> at_state st0 st)" using Cons by auto
  have rd: "xends (at_state st0) (xcall E (read_part_keys pre d (fst p))) (\<lambda>r st. r = map ms_key (rows_at (xs_store st0) pre d i) \<and> at_state st0 st)"
    by (rule xends_call [OF q]) (use part_reads [OF day i(1)] i in \<open>auto simp: read_part_keys_def xbind_def xreturn_def\<close>)
  have "xends (at_state st0) (archived_keys E pre d (p # qs)) (\<lambda>r st. r = map ms_key (rows_at (xs_store st0) pre d i) @ ks \<and> at_state st0 st)"
    unfolding archived_keys.simps by (rule xends_bind_eq [OF rd], rule xends_bind_eq [OF ks], rule xends_return) simp
  then show ?case by blast
qed

lemma fresh_ends:
  assumes q: "quiet E k" and day: "day_inv A st0 s pre d ps n" and qs: "\<And>p. p \<in> set qs \<Longrightarrow> \<exists>i < length ps. fst p = part_file i"
  shows "\<exists>fresh. length fresh \<le> length (sn_rows snap) \<and> (qs = [] \<longrightarrow> fresh = batches snap) \<and>
    xends (at_state st0) (if qs \<noteq> [] then without_archived E pre d snap qs else xreturn (batches snap)) (\<lambda>r st. r = fresh \<and> at_state st0 st)"
proof (cases "qs = []")
  case True
  then show ?thesis by (auto intro: xends_return simp: set_batches)
next
  case False
  obtain ks where ks: "xends (at_state st0) (archived_keys E pre d qs) (\<lambda>r st. r = ks \<and> at_state st0 st)"
    using archived_keys_ends [OF q day qs] by auto
  let ?f = "sort_key row_order (filter (\<lambda>m. ms_key m \<notin> set ks) (batches snap))"
  have rd: "xends (at_state st0) (xcall E (xreturn (batches snap))) (\<lambda>r st. r = batches snap \<and> at_state st0 st)"
    by (rule xends_call [OF q]) (auto simp: xreturn_def)
  have ret: "xends (at_state st0) (xreturn ?f) (\<lambda>r st. r = ?f \<and> at_state st0 st)" by (rule xends_return) simp
  have "xends (at_state st0) (without_archived E pre d snap qs) (\<lambda>r st. r = ?f \<and> at_state st0 st)"
    unfolding without_archived_def
  proof (rule xends_bind_eq [OF rd])
    have "xends (at_state st0) (xbind (archived_keys E pre d qs) (\<lambda>archived. xreturn (sort_key row_order (filter (\<lambda>m. ms_key m \<notin> set archived) (batches snap)))))
        (\<lambda>r st. r = ?f \<and> at_state st0 st)" by (rule xends_bind_eq [OF ks]) (rule ret)
    then show "xends (at_state st0) (if length (batches snap) \<noteq> length (sn_rows snap) then xraise ExportError
        else xbind (archived_keys E pre d qs) (\<lambda>archived. xreturn (sort_key row_order (filter (\<lambda>m. ms_key m \<notin> set archived) (batches snap)))))
        (\<lambda>r st. r = ?f \<and> at_state st0 st)" by (simp add: set_batches)
  qed
  moreover have "length ?f \<le> length (sn_rows snap)" using length_filter_le [of _ "batches snap"] by (simp add: set_batches)
  ultimately show ?thesis using False by (intro exI [of _ ?f]) simp
qed

lemma write_ends:
  assumes q: "quiet E k" and f: "fresh \<noteq> []" "length fresh \<le> k"
  shows "xends (at_state st0) (write_and_verify E pre d (part_file n) fresh)
    (\<lambda>r st. r = () \<and> at_state (st0\<lparr>xs_store := (xs_store st0)(file_key pre d n \<mapsto> Parquet fresh)\<rparr>) st)"
  unfolding write_and_verify_def
proof (rule xends_bind_eq)
  let ?st = "st0\<lparr>xs_store := (xs_store st0)(file_key pre d n \<mapsto> Parquet fresh)\<rparr>"
  have keep: "take (xe_keep E i) fresh = fresh" for i
  proof -
    have "length fresh \<le> xe_keep E i" using q f(2) unfolding quiet_def by (meson le_trans)
    then show ?thesis by simp
  qed
  show "xends (at_state st0) (xcall E (write_part E pre d (part_file n) fresh)) (\<lambda>r st. r = int (length fresh) \<and> at_state ?st st)"
    by (rule xends_call [OF q]) (auto simp: write_part_def part_key_file file_key_def keep f(1))
  have "xends (at_state ?st) (xcall E (part_row_count pre d (part_file n))) (\<lambda>r st. r = int (length fresh) \<and> at_state ?st st)"
    by (rule xends_call [OF q]) (auto simp: part_row_count_def read_part_def part_key_file file_key_def xbind_def xreturn_def)
  then have "xends (at_state ?st) (xbind (xcall E (part_row_count pre d (part_file n))) (\<lambda>footer. if footer \<noteq> int (length fresh) then xraise ExportError else xreturn ()))
      (\<lambda>r st. r = () \<and> at_state ?st st)" by (rule xends_bind_eq) (simp add: xends_return)
  then show "xends (at_state ?st) (if int (length fresh) \<noteq> int (length fresh) then xraise ExportError
      else xbind (xcall E (part_row_count pre d (part_file n))) (\<lambda>footer. if footer \<noteq> int (length fresh) then xraise ExportError else xreturn ()))
      (\<lambda>r st. r = () \<and> at_state ?st st)" by simp
qed


lemma drop_ends:
  assumes q: "quiet E k" and v: "valid_part part" and sn: "sn_rows snap = day_rows (xs_hot st0) s d" "sn_fingerprint snap = fp (sn_rows snap)"
  shows "xends (at_state st0) (xcall E (drop_day fp s d snap part))
    (\<lambda>r st. r = True \<and> at_state (st0\<lparr>xs_hot := filter (\<lambda>(s', d', m). \<not> (s' = s \<and> d' = d)) (xs_hot st0),
       xs_drops := insert (s, d, part) (xs_drops st0), xs_dropped := xs_dropped st0 @ map (\<lambda>m. (s, d, m)) (sn_rows snap)\<rparr>) st)"
  by (rule xends_call [OF q]) (simp add: drop_day_def v sn)

definition day_gone :: "string \<Rightarrow> date \<Rightarrow> export_state \<Rightarrow> export_state \<Rightarrow> bool" where
  "day_gone s d st0 st \<longleftrightarrow> xs_hot st = filter (\<lambda>(s', d', m). \<not> (s' = s \<and> d' = d)) (xs_hot st0) \<and>
     (\<forall>s' d' f. (s', d') \<noteq> (s, d) \<longrightarrow> ((s', d', f) \<in> xs_drops st \<longleftrightarrow> (s', d', f) \<in> xs_drops st0))"

lemma list_and_drop_ends:
  assumes q: "quiet E k" and v: "valid_part (if fresh \<noteq> [] then part_file (length base) else fst (last base))"
    and sn: "sn_rows snap = day_rows (xs_hot st0) s d" "sn_fingerprint snap = fp (sn_rows snap)"
  shows "xends (at_state st0) (list_and_drop E fp s pre d base pending snap fresh) (\<lambda>_. day_gone s d st0)"
proof -
  define part where "part = (if fresh \<noteq> [] then part_file (length base) else fst (last base))"
  define ps where "ps = (if fresh \<noteq> [] then base @ [(part, int (length fresh))] else base)"
  let ?st = "st0\<lparr>xs_store := (xs_store st0)(manifest_key pre d \<mapsto> JsonFile (manifest_of s d ps))\<rparr>"
  have m: "xends (at_state st0) (xcall E (write_manifest pre d (manifest_of s d ps))) (\<lambda>r st. r = () \<and> at_state ?st st)"
    by (rule xends_call [OF q]) (simp add: write_manifest_def)
  have d: "xends (at_state ?st) (xcall E (drop_day fp s d snap part)) (\<lambda>r st. r = True \<and> day_gone s d st0 st)"
    by (rule xends_weaken [OF drop_ends [OF q v [folded part_def]]]) (use sn in \<open>auto simp: day_gone_def at_state_def\<close>)
  have eq: "list_and_drop E fp s pre d base pending snap fresh =
      xbind (xcall E (write_manifest pre d (manifest_of s d ps))) (\<lambda>_. xbind (xcall E (drop_day fp s d snap part)) (\<lambda>dropped.
        xreturn (export_outcome base pending (length fresh) dropped)))"
    unfolding list_and_drop_def Let_def by (simp add: ps_def part_def)
  show ?thesis unfolding eq
    by (rule xends_bind_eq [OF m], rule xends_bind_eq [OF d], rule xends_return)
qed

lemma export_rows_ends:
  assumes q: "quiet E (length (xs_hot st0))" and day: "day_inv A st0 s pre d ps n" and n: "n \<le> 9999"
    and valid: "\<And>i. i \<le> 9999 \<Longrightarrow> valid_part (part_file i)"
    and sn: "sn_rows snap = day_rows (xs_hot st0) s d" "sn_fingerprint snap = fp (sn_rows snap)" "sn_rows snap \<noteq> []"
  shows "xends (at_state st0) (export_rows E fp s pre d (take n ps) pending snap) (\<lambda>_. day_gone s d st0)"
proof -
  let ?qs = "take n ps"
  have fsts: "map fst ps = map part_file [0..<length ps]" and len: "length ?qs = n" using day by (auto simp: day_inv_def)
  have nth: "fst (ps ! i) = part_file i" if "i < length ps" for i using arg_cong [OF fsts, of "\<lambda>xs. xs ! i"] that by simp
  have qs: "\<exists>i < length ps. fst p = part_file i" if "p \<in> set ?qs" for p
    using in_set_takeD [OF that] nth unfolding in_set_conv_nth by blast
  obtain fresh where l: "length fresh \<le> length (sn_rows snap)" and b: "?qs = [] \<Longrightarrow> fresh = batches snap"
    and f: "xends (at_state st0) (if ?qs \<noteq> [] then without_archived E pre d snap ?qs else xreturn (batches snap)) (\<lambda>r st. r = fresh \<and> at_state st0 st)"
    using fresh_ends [OF q day qs] by blast
  have "length (day_rows (xs_hot st0) s d) \<le> length (xs_hot st0)" by (simp add: day_rows_def)
  then have fit: "length fresh \<le> length (xs_hot st0)" using l sn(1) by simp
  have last: "valid_part (fst (last ?qs))" if "fresh = []"
  proof -
    have "batches snap \<noteq> []" using sn(3) set_batches(2) [of snap] by auto
    then have "?qs \<noteq> []" using that b by (intro notI) simp
    then have "0 < n" "last ?qs = ps ! (n - 1)" "n - 1 < length ps" using len by (auto simp: last_conv_nth)
    then show ?thesis using nth valid n by simp
  qed
  show ?thesis unfolding export_rows_def
  proof (rule xends_bind_eq [OF f])
    show "xends (at_state st0) (xbind (if fresh \<noteq> [] then write_and_verify E pre d (part_file (length ?qs)) fresh else xreturn ())
        (\<lambda>_. list_and_drop E fp s pre d ?qs pending snap fresh)) (\<lambda>_. day_gone s d st0)"
    proof (cases "fresh = []")
      case True
      have "xends (at_state st0) (xreturn ()) (\<lambda>r st. r = () \<and> at_state st0 st)" by (rule xends_return) simp
      then show ?thesis
        unfolding True by (simp, rule xends_bind_eq) (rule list_and_drop_ends [OF q], use sn last True in auto)
    next
      case False
      let ?st = "st0\<lparr>xs_store := (xs_store st0)(file_key pre d n \<mapsto> Parquet fresh)\<rparr>"
      have "xends (at_state ?st) (list_and_drop E fp s pre d ?qs pending snap fresh) (\<lambda>_. day_gone s d ?st)"
        by (rule list_and_drop_ends [OF q]) (use sn False len valid n in auto)
      then have "xends (at_state ?st) (list_and_drop E fp s pre d ?qs pending snap fresh) (\<lambda>_. day_gone s d st0)"
        by (rule xends_weaken) (simp_all add: day_gone_def)
      then show ?thesis unfolding len using False by (simp add: xends_bind_eq [OF write_ends [OF q False fit]])
    qed
  qed
qed


lemma export_day_ends:
  assumes q: "quiet E (length (xs_hot st0))" and day: "day_inv A st0 s pre d ps n" and n: "n \<le> 9999"
    and valid: "\<And>i. i \<le> 9999 \<Longrightarrow> valid_part (part_file i)" and some: "day_rows (xs_hot st0) s d \<noteq> []"
  shows "xends (at_state st0) (export_day E fp s pre d) (\<lambda>_. day_gone s d st0)"
proof -
  let ?j = "if ps = [] then None else Some (manifest_of s d ps)" and ?snap = "\<lparr>sn_rows = day_rows (xs_hot st0) s d, sn_fingerprint = fp (day_rows (xs_hot st0) s d)\<rparr>"
  have len: "n \<le> length ps" "length ps \<le> Suc n" and fsts: "map fst ps = map part_file [0..<length ps]" using day by (auto simp: day_inv_def)
  have read: "manifest_parts ?j = Inr ps" "\<not> is_legacy ?j"
    using manifest_read [of s d ps] by (auto simp: manifest_parts_def is_legacy_def)
  have m: "xends (at_state st0) (xcall E (read_manifest pre d)) (\<lambda>r st. r = ?j \<and> at_state st0 st)"
    by (rule xends_call [OF q]) (use day in \<open>auto simp: read_manifest_def day_inv_def manifest_of_def\<close>)
  have l: "xends (at_state st0) (xlift (manifest_parts ?j)) (\<lambda>r st. r = ps \<and> at_state st0 st)"
    unfolding read(1) by (simp add: xends_def xlift_def)
  have p: "xends (at_state st0) (if ps \<noteq> [] \<and> \<not> is_legacy ?j then xbind (xcall E (drop_recorded s d (fst (last ps)))) (\<lambda>r. xreturn (\<not> r)) else xreturn False)
      (\<lambda>r st. r = (length ps = Suc n) \<and> at_state st0 st)"
  proof (cases "ps = []")
    case True
    then show ?thesis by (simp add: xends_return)
  next
    case False
    have "fst (last ps) = part_file (length ps - 1)" using False fsts by (metis last_map length_0_conv last_upt map_is_Nil_conv length_greater_0_conv)
    then have "(s, d, fst (last ps)) \<in> xs_drops st0 \<longleftrightarrow> length ps - 1 < n" using day by (auto simp: day_inv_def part_file_inj)
    then have r: "xends (at_state st0) (xcall E (drop_recorded s d (fst (last ps)))) (\<lambda>r st. r = (length ps - 1 < n) \<and> at_state st0 st)"
      by (intro xends_call [OF q]) (simp add: drop_recorded_def)
    have "xends (at_state st0) (xbind (xcall E (drop_recorded s d (fst (last ps)))) (\<lambda>r. xreturn (\<not> r))) (\<lambda>r st. r = (length ps = Suc n) \<and> at_state st0 st)"
      by (rule xends_bind_eq [OF r], rule xends_return) (use len False in \<open>cases ps; auto\<close>)
    then show ?thesis using False read(2) by simp
  qed
  have c: "xends (at_state st0) (check_parts E pre d (take n ps)) (\<lambda>r st. r = () \<and> at_state st0 st)"
    by (rule check_parts_ends [OF q day]) (use len in \<open>auto simp: in_set_conv_nth\<close>)
  have sn: "xends (at_state st0) (xcall E (snapshot_day fp s d)) (\<lambda>r st. r = ?snap \<and> at_state st0 st)"
    by (rule xends_call [OF q]) (simp add: snapshot_day_def Let_def)
  have base: "(if length ps = Suc n then butlast ps else ps) = take n ps" using len by (auto simp: butlast_conv_take le_Suc_eq)
  have x: "xends (at_state st0) (export_rows E fp s pre d (take n ps) (length ps = Suc n) ?snap) (\<lambda>_. day_gone s d st0)"
    by (rule export_rows_ends [OF q day n valid]) (use some in auto)
  show ?thesis unfolding export_day_def
    by (rule xends_bind_eq [OF m], rule xends_bind_eq [OF l], rule xends_bind_eq [OF p], unfold Let_def base,
        rule xends_bind_eq [OF c], rule xends_bind_eq [OF sn]) (use x some in simp)
qed

lemma part_valid: "i \<le> 9999 \<Longrightarrow> valid_part (part_file i)"
proof -
  assume i: "i \<le> 9999"
  have one: "0 \<le> k \<Longrightarrow> k < 10 \<Longrightarrow> length (show_nat k) = 1" for k by (subst show_nat.simps) simp
  have more: "10 \<le> k \<Longrightarrow> length (show_nat k) = Suc (length (show_nat (k div 10)))" for k by (subst show_nat.simps) simp
  have two: "0 \<le> k \<Longrightarrow> k < 100 \<Longrightarrow> length (show_nat k) \<le> 2" for k
    by (cases "k < 10") (use one [of k] one [of "k div 10"] more [of k] in auto)
  have three: "0 \<le> k \<Longrightarrow> k < 1000 \<Longrightarrow> length (show_nat k) \<le> 3" for k
    by (cases "k < 10") (use one [of k] two [of "k div 10"] more [of k] in auto)
  have "length (show_nat (int i)) \<le> 4"
    by (cases "i < 10") (use i one [of "int i"] three [of "int i div 10"] more [of "int i"] in auto)
  then have "length (pad_zeros 4 (show_nat (int i))) = 4" by (simp add: pad_zeros_def)
  then show ?thesis using pad_digits [of 4 i]
    by (auto simp: valid_part_def part_file_def FIRST_PART_def starts_with_def ends_with_def)
qed


section \<open>A run ends and drains\<close>

text \<open>No day with rows in the hot table has used up the part names the database accepts.\<close>

definition names_left :: "export_state \<Rightarrow> bool" where
  "names_left st \<longleftrightarrow> list_all (\<lambda>(s, d, m). (s, d, part_file 9999) \<notin> xs_drops st) (xs_hot st)"

definition ready :: "measurement set \<Rightarrow> nat \<Rightarrow> export_state \<Rightarrow> bool" where
  "ready U k st \<longleftrightarrow> export_inv U (\<lambda>_ _. []) st \<and> names_left st \<and> length (xs_hot st) \<le> k"

lemma quiet_env_ok: "quiet E k \<Longrightarrow> env_ok U E"
  by (simp add: quiet_def env_ok_def)

lemma quiet_mono: "quiet E k \<Longrightarrow> j \<le> k \<Longrightarrow> quiet E j"
  unfolding quiet_def by (meson le_trans)

lemma export_day_drains:
  assumes q: "quiet E k" and sep: "separates U fp" and t: "tenant_names s pre"
    and st: "ready U k st" and some: "day_rows (xs_hot st) s d \<noteq> []"
  shows "\<exists>oc st'. export_day E fp s pre d st = (Inr oc, st') \<and> ready U k st' \<and>
    xs_hot st' = filter (\<lambda>(s', d', m). \<not> (s' = s \<and> d' = d)) (xs_hot st)"
proof -
  have inv: "export_inv U (\<lambda>_ _. []) st" and names: "names_left st" using st by (auto simp: ready_def)
  obtain ps n where day: "day_inv [] st s pre d ps n" using inv t unfolding export_inv_def day_ok_def by blast
  obtain m where "(s, d, m) \<in> set (xs_hot st)" using some by (auto simp: day_rows_def filter_empty_conv)
  then have "(s, d, part_file 9999) \<notin> xs_drops st" using names by (fastforce simp: names_left_def list_all_iff)
  then have "n \<le> 9999" using day by (auto simp: day_inv_def not_less)
  then have "xends (at_state st) (export_day E fp s pre d) (\<lambda>_. day_gone s d st)"
    using st by (intro export_day_ends [OF quiet_mono [OF q] day _ part_valid some]) (auto simp: ready_def)
  moreover have "at_state st st" unfolding at_state_def by (intro exI [of _ "xs_calls st"]) simp
  ultimately obtain oc st' where x: "export_day E fp s pre d st = (Inr oc, st')" and gone: "day_gone s d st st'"
    unfolding xends_def by blast
  have "names_left st'" using names gone by (fastforce simp: names_left_def day_gone_def list_all_iff)
  moreover have "export_inv U (\<lambda>_ _. []) st'"
    using xvalidD [OF export_day_valid [OF t quiet_env_ok [OF q] sep] inv, of d] x by simp
  moreover have hot: "xs_hot st' = filter (\<lambda>(s', d', m). \<not> (s' = s \<and> d' = d)) (xs_hot st)" using gone by (simp add: day_gone_def)
  moreover have "length (xs_hot st') \<le> k" using st unfolding hot ready_def by (meson le_trans length_filter_le)
  ultimately show ?thesis using x by (auto simp: ready_def)
qed

lemma day_rows_some: "day_rows h s d \<noteq> [] \<longleftrightarrow> (\<exists>m. (s, d, m) \<in> set h)"
  by (auto simp: day_rows_def filter_empty_conv)

lemma export_days_drains:
  assumes q: "quiet E k" and sep: "separates U fp" and t: "tenant_names s pre"
  shows "ready U k st \<Longrightarrow> distinct ds \<Longrightarrow> (\<And>d. d \<in> set ds \<Longrightarrow> day_rows (xs_hot st) s d \<noteq> []) \<Longrightarrow>
    \<exists>t' st'. export_days E fp s pre ds tally0 st = (Inr t', st') \<and> ready U k st' \<and>
      xs_hot st' = filter (\<lambda>(s', d', m). \<not> (s' = s \<and> d' \<in> set ds)) (xs_hot st)"
proof (induction ds arbitrary: st tally0)
  case Nil
  have "filter (\<lambda>(s', d', m). \<not> (s' = s \<and> d' \<in> set [])) (xs_hot st) = xs_hot st" by (simp add: filter_id_conv split: prod.splits)
  then show ?case using Nil by (simp add: xreturn_def)
next
  case (Cons d ds)
  obtain oc st1 where x: "export_day E fp s pre d st = (Inr oc, st1)" and st1: "ready U k st1"
    and hot: "xs_hot st1 = filter (\<lambda>(s', d', m). \<not> (s' = s \<and> d' = d)) (xs_hot st)"
    using export_day_drains [OF q sep t Cons.prems(1)] Cons.prems(3) by (meson list.set_intros(1))
  have "day_rows (xs_hot st1) s e \<noteq> []" if "e \<in> set ds" for e
  proof -
    have "e \<noteq> d" "day_rows (xs_hot st) s e \<noteq> []" using that Cons.prems(2,3) by auto
    then show ?thesis unfolding hot day_rows_some by auto
  qed
  then obtain t' st2 where y: "export_days E fp s pre ds (count_outcome oc 1 tally0) st1 = (Inr t', st2)" "ready U k st2"
    "xs_hot st2 = filter (\<lambda>(s', d', m). \<not> (s' = s \<and> d' \<in> set ds)) (xs_hot st1)"
    using Cons.IH [OF st1] Cons.prems(2) by (metis distinct.simps(2))
  have "xs_hot st2 = filter (\<lambda>(s', d', m). \<not> (s' = s \<and> d' \<in> set (d # ds))) (xs_hot st)"
    unfolding y(3) hot filter_filter by (rule filter_cong) auto
  then show ?case using x y by (simp add: xbind_def)
qed

definition drained :: "string set \<Rightarrow> date \<Rightarrow> hot \<Rightarrow> hot" where
  "drained ss cutoff h = filter (\<lambda>(s, d, m). \<not> (s \<in> ss \<and> d < cutoff)) h"

lemma export_tenant_drains:
  assumes q: "quiet E k" and sep: "separates U fp" and names: "schema_name c = Inr s" and st: "ready U k st"
  shows "\<exists>t st'. export_tenant E fp (c, s) cutoff st = (Inr t, st') \<and> ready U k st' \<and> xs_hot st' = drained {s} cutoff (xs_hot st)"
proof -
  obtain pre where pre: "cold_object_prefix c = Inr pre" using names by (auto simp: cold_object_prefix_def schema_name_Inr)
  have t: "tenant_names s pre" using names pre by (auto simp: tenant_names_def)
  define st1 where "st1 = st\<lparr>xs_calls := Suc (xs_calls st)\<rparr>"
  define ds where "ds = sort (remdups (map (\<lambda>(s', d, m). d) (filter (\<lambda>(s', d, m). s' = s \<and> d < cutoff) (xs_hot st))))"
  have st1: "ready U k st1" using st unfolding st1_def by (simp add: ready_def inv_calls names_left_def)
  have "distinct ds" by (simp add: ds_def)
  moreover have mem: "d \<in> set ds \<longleftrightarrow> d < cutoff \<and> (\<exists>m. (s, d, m) \<in> set (xs_hot st))" for d by (force simp: ds_def)
  then have "\<And>d. d \<in> set ds \<Longrightarrow> day_rows (xs_hot st1) s d \<noteq> []" by (simp add: day_rows_some st1_def)
  ultimately obtain t' st' where x: "export_days E fp s pre ds [] st1 = (Inr t', st')" "ready U k st'"
    "xs_hot st' = filter (\<lambda>(s', d', m). \<not> (s' = s \<and> d' \<in> set ds)) (xs_hot st1)"
    using export_days_drains [OF q sep t st1] by blast
  have "xs_hot st' = drained {s} cutoff (xs_hot st)"
    unfolding x(3) drained_def st1_def by (simp, rule filter_cong) (auto simp: mem)
  moreover have "export_tenant E fp (c, s) cutoff st = (Inr t', st')"
  proof -
    have "exportable_days s cutoff st1 = (Inr ds, st1)" by (simp add: exportable_days_def ds_def st1_def)
    then show ?thesis using x(1) by (simp add: export_tenant_def xbind_def xlift_def pre names xcall_quiet [OF q] flip: st1_def)
  qed
  ultimately show ?thesis using x(2) by blast
qed

lemma export_tenants_drains:
  assumes q: "quiet E k" and sep: "separates U fp"
  shows "list_all (\<lambda>(c, s). schema_name c = Inr s) ts \<Longrightarrow> ready U k st \<Longrightarrow>
    \<exists>t' st'. export_tenants E fp ts cutoff t n st = (Inr (t', n), st') \<and> xs_hot st' = drained (snd ` set ts) cutoff (xs_hot st)"
proof (induction ts arbitrary: st t)
  case Nil
  have "drained {} cutoff (xs_hot st) = xs_hot st" by (simp add: drained_def filter_id_conv split: prod.splits)
  then show ?case by (simp add: xreturn_def)
next
  case (Cons tn ts)
  obtain c s where tn: "tn = (c, s)" "schema_name c = Inr s" using Cons.prems(1) by (cases tn) auto
  obtain t1 st1 where x: "export_tenant E fp (c, s) cutoff st = (Inr t1, st1)" "ready U k st1" "xs_hot st1 = drained {s} cutoff (xs_hot st)"
    using export_tenant_drains [OF q sep tn(2) Cons.prems(2)] by blast
  obtain t2 st2 where y: "export_tenants E fp ts cutoff (foldl (\<lambda>t (oc, n). count_outcome oc n t) t t1) n st1 = (Inr (t2, n), st2)"
    "xs_hot st2 = drained (snd ` set ts) cutoff (xs_hot st1)" using Cons.IH [OF _ x(2)] Cons.prems(1) by fastforce
  have "xs_hot st2 = drained (snd ` set (tn # ts)) cutoff (xs_hot st)"
    unfolding y(2) x(3) drained_def filter_filter by (rule filter_cong) (auto simp: tn)
  then show ?case using x(1) y(1) tn(1) by simp
qed



text \<open>The first run dies before the drop of the part it has listed; the second recovers.\<close>

lemma demo_died_facts: "xs_hot demo_died = demo_hot" "names_left demo_died" "drained (snd ` set demo_tenants) (Date 2024 3 1) demo_hot = []"
  "days_before 2 (Date 2024 3 3) = Inr (Date 2024 3 1)" "list_all (\<lambda>(c, s). schema_name c = Inr s) demo_tenants"
  by code_simp+


section \<open>A day whose manifest names no parts\<close>

text \<open>
  The recovery above needs manifests that list their parts. A manifest written before parts existed names none: its
  file counts as archived, whether or not a drop is recorded. When a reading of that day is redelivered, the run finds it
  archived, rewrites the manifest with the file as a listed part, and drops; a run that dies before the drop leaves that
  part looking like one whose drop never happened, and the next run writes the day's file anew from the hot table.
\<close>

definition legacy_state :: export_state where
  "legacy_state = (cold_start demo_hot)\<lparr>
     xs_store := [manifest_key demo_prefix (Date 2024 2 29) \<mapsto> 
                    JsonFile (JObj [(''schema'', JStr demo_schema), (''day'', JStr ''2024-02-29''), (''rows'', JInt 2)]),
                  file_key demo_prefix (Date 2024 2 29) 0 \<mapsto> Parquet [reading_a, reading_b]],
     xs_dropped := [(demo_schema, Date 2024 2 29, reading_a), (demo_schema, Date 2024 2 29, reading_b)]\<rparr>"

definition legacy_died :: export_state where
  "legacy_died = snd (run_export (dying_env 9) demo_digest demo_tenants 2 (Date 2024 3 3) True legacy_state)"

text \<open>
  The archived file of such a day is overwritten: the day held two readings, both dropped from the hot table, and one of
  them came again. After a run that dies and one that nothing disturbs, which reports a re-export, the other reading is
  nowhere.
\<close>

definition legacy_rerun :: "(export_error + tally) \<times> export_state" where
  "legacy_rerun = run_export quiet_env demo_digest demo_tenants 2 (Date 2024 3 3) True (legacy_died\<lparr>xs_calls := 0\<rparr>)"

lemma legacy_rerun_is:
  "(case legacy_rerun of (r, st) \<Rightarrow> (r, xs_store st (file_key demo_prefix (Date 2024 2 29) 0), xs_hot st)) =
     (Inr [(''reexported'', 1)], Some (Parquet [reading_a]), [])"
  by code_simp

theorem legacy_day_lost:
  "xs_store legacy_state (file_key demo_prefix (Date 2024 2 29) 0) = Some (Parquet [reading_a, reading_b]) \<and>
   fst legacy_rerun = Inr [(''reexported'', 1)] \<and>
   xs_store (snd legacy_rerun) (file_key demo_prefix (Date 2024 2 29) 0) = Some (Parquet [reading_a]) \<and>
   xs_hot (snd legacy_rerun) = []"
  using legacy_rerun_is unfolding case_prod_beta by (simp add: legacy_state_def)

end
