(* ===== verification/Model_Loading.thy ===== *)
theory Model_Loading
  imports Uploads Sql_Scram "HOL-Library.Product_Lexorder"
begin

text \<open>
  What the model service loads, and for whom (\<open>services/ml_service/api\<close>): the registry of detectors
  (\<open>extensions/__init__.py\<close>), the rules of \<open>uploaded_model.py\<close> and \<open>skops_trust.py\<close>, the address of a model
  (\<open>model_uri.py\<close>, \<open>model_loader.py\<close>), the warm cache (\<open>model_cache.py\<close>) and the comparison of an artifact's
  declarations with the serving environment (\<open>model_compat.py\<close>).

  The tracking store, the artifact store and the deserialisers of skops and xgboost are parameters; each use of one
  may be answered differently from the last.
\<close>

section \<open>The registry of detectors\<close>

definition PLATFORM_LOADERS :: "string list" where
  "PLATFORM_LOADERS = [''mlflow.sklearn'', ''mlflow.xgboost'']"

definition SCORE_SEMANTICS :: "string list" where
  "SCORE_SEMANTICS = [''anomaly_probability'', ''outlier_score'', ''reconstruction_error'', ''direct_score'']"

text \<open>A detector: the function registered, and what it declares.\<close>

record detector =
  dt_fn :: nat
  dt_semantics :: string
  dt_flavors :: "string list"

type_synonym detectors = "(string, detector) od"

definition register_detector ::
    "detectors \<Rightarrow> string \<Rightarrow> string option \<Rightarrow> string list option \<Rightarrow> nat \<Rightarrow> detectors result" where
  "register_detector reg name semantics handles_flavors fn =
     (let flavors = (case handles_flavors of None \<Rightarrow> [] | Some fs \<Rightarrow> fs)
      in if list_ex (\<lambda>f. f \<notin> set PLATFORM_LOADERS) flavors then Inl ValueError
         else if (case od_get reg name of Some d \<Rightarrow> dt_fn d \<noteq> fn | None \<Rightarrow> False) then Inl ValueError
         else Inr (od_set reg name
           \<lparr>dt_fn = fn, dt_semantics = (case semantics of None \<Rightarrow> ''direct_score'' | Some s \<Rightarrow> s), dt_flavors = flavors\<rparr>))"

definition get_detector :: "detectors \<Rightarrow> string \<Rightarrow> detector option" where
  "get_detector reg name = od_get reg name"

definition registered_detectors :: "detectors \<Rightarrow> string list" where
  "registered_detectors reg = sort (map fst reg)"

definition detectors_for_flavor :: "detectors \<Rightarrow> string \<Rightarrow> string list" where
  "detectors_for_flavor reg flavor =
     filter (\<lambda>name. case od_get reg name of None \<Rightarrow> False | Some d \<Rightarrow> flavor \<in> set (dt_flavors d)) (registered_detectors reg)"

definition detectors_for :: "detectors \<Rightarrow> string \<Rightarrow> string \<Rightarrow> string list" where
  "detectors_for reg semantics flavor =
     filter (\<lambda>name. case od_get reg name of None \<Rightarrow> False | Some d \<Rightarrow> dt_semantics d = semantics \<and> flavor \<in> set (dt_flavors d))
       (registered_detectors reg)"

section \<open>Uploaded models\<close>

text \<open>\<open>if value\<close> of an optional text.\<close>

definition given :: "string option \<Rightarrow> bool" where
  "given v \<longleftrightarrow> v \<noteq> None \<and> v \<noteq> Some []"

definition PROVENANCE_KERNEL :: string where "PROVENANCE_KERNEL = ''kernel''"
definition PROVENANCE_UPLOADED :: string where "PROVENANCE_UPLOADED = ''uploaded''"

definition provenance_of :: "string option \<Rightarrow> string" where
  "provenance_of mlflow_run_id = (if given mlflow_run_id then PROVENANCE_KERNEL else PROVENANCE_UPLOADED)"

datatype address_refusal = NoArtifact | NoBucket | NoTenant | NotAdmitted

definition upload_id_char :: "char \<Rightarrow> bool" where
  "upload_id_char c \<longleftrightarrow> is_alnum c \<or> c = CHR ''_'' \<or> c = CHR ''-''"

text \<open>\<open>re.fullmatch\<close> of the expected location: the prefix, an upload id, at most one separator.\<close>

definition admitted_location :: "string \<Rightarrow> string \<Rightarrow> bool" where
  "admitted_location base uri \<longleftrightarrow> starts_with uri base \<and>
     (let rest = drop (length base) uri;
          w = (if ends_with rest ''/'' then butlast rest else rest)
      in 16 \<le> length w \<and> length w \<le> 64 \<and> list_all upload_id_char w)"

definition admitted_artifact_refusal :: "string option \<Rightarrow> string \<Rightarrow> string \<Rightarrow> address_refusal option" where
  "admitted_artifact_refusal artifact_uri company_id bucket =
     (if \<not> given artifact_uri then Some NoArtifact
      else if bucket = [] then Some NoBucket
      else case mlflow_artifact_prefix company_id of
             Inl _ \<Rightarrow> Some NoTenant
           | Inr pre \<Rightarrow>
               if admitted_location (''s3://'' @ bucket @ ''/'' @ pre @ ADMITTED_ROOT) (the artifact_uri) then None
               else Some NotAdmitted)"

datatype SemanticsVerdict = Judged string | NotDeclared | NotKnown | NoFlavor | NothingScores

definition judge_semantics :: "string option \<Rightarrow> string option \<Rightarrow> detectors \<Rightarrow> SemanticsVerdict" where
  "judge_semantics declared flavor reg =
     (if \<not> given declared then NotDeclared
      else if the declared \<notin> set SCORE_SEMANTICS then NotKnown
      else if \<not> given flavor then NoFlavor
      else case sort (detectors_for reg (the declared) (the flavor)) of [] \<Rightarrow> NothingScores | d # _ \<Rightarrow> Judged d)"

section \<open>How a model is loaded\<close>

text \<open>
  \<open>UnsafeArtifact\<close> is a refusal of author code; the others are what a manifest that is not what it should be,
  a failed download and a failed deserialisation raise.
\<close>

datatype load_error = UnsafeArtifact | BadArtifact | NotADict | NotHashable | DownloadFailed | DeserialiseFailed

type_synonym flavors = jobject

definition hashable :: "json \<Rightarrow> bool" where
  "hashable j = (case j of JArr _ \<Rightarrow> False | JObj _ \<Rightarrow> False | _ \<Rightarrow> True)"

text \<open>\<open>value in frozenset\<close> of texts.\<close>

definition in_names :: "json \<Rightarrow> string list \<Rightarrow> load_error + bool" where
  "in_names j names = (if hashable j then Inr (j \<in> JStr ` set names) else Inl NotHashable)"

definition dict_get :: "json \<Rightarrow> string \<Rightarrow> load_error + json" where
  "dict_get conf k = (case conf of JObj d \<Rightarrow> Inr (jget d k) | _ \<Rightarrow> Inl NotADict)"

definition dict_get_or :: "json \<Rightarrow> string \<Rightarrow> json \<Rightarrow> load_error + json" where
  "dict_get_or conf k v = (case conf of JObj d \<Rightarrow> Inr (jget_default d k v) | _ \<Rightarrow> Inl NotADict)"

definition KERNEL_TRUSTED_TYPES :: "string list" where
  "KERNEL_TRUSTED_TYPES =
     [''sklearn.tree._tree.Tree'', ''sklearn.ensemble._hist_gradient_boosting.predictor.TreePredictor'']"

definition trusted_types_for :: "string \<Rightarrow> string list option" where
  "trusted_types_for provenance = (if provenance = PROVENANCE_KERNEL then Some KERNEL_TRUSTED_TYPES else None)"

definition PREDICT_FNS :: "string list" where
  "PREDICT_FNS = [''predict'', ''predict_proba'', ''predict_log_proba'', ''predict_joint_log_proba'', ''score'']"

definition XGBOOST_MODEL_CLASSES :: "string list" where
  "XGBOOST_MODEL_CLASSES =
     [''xgboost.core.Booster'', ''xgboost.sklearn.XGBClassifier'', ''xgboost.sklearn.XGBRegressor'',
      ''xgboost.sklearn.XGBRanker'', ''xgboost.sklearn.XGBRFClassifier'', ''xgboost.sklearn.XGBRFRegressor'']"

definition is_skops_sklearn :: "flavors \<Rightarrow> load_error + bool" where
  "is_skops_sklearn fl =
     (let conf = jget fl ''sklearn''
      in if \<not> truthy conf then Inr False else res_map (\<lambda>v. v = JStr ''skops'') (dict_get conf ''serialization_format''))"

definition ships_code :: "json \<Rightarrow> bool" where
  "ships_code conf = (case conf of JObj d \<Rightarrow> truthy (jget d ''code'') | _ \<Rightarrow> False)"

definition check_loader :: "flavors \<Rightarrow> json \<Rightarrow> load_error + unit" where
  "check_loader fl loader =
     (if loader = JStr ''mlflow.sklearn'' then
        (case is_skops_sklearn fl of Inl e \<Rightarrow> Inl e | Inr skops \<Rightarrow> if skops then Inr () else Inl UnsafeArtifact)
      else
        (case jget fl ''xgboost'' of
           JObj d \<Rightarrow>
             (case in_names (jget_default d ''model_class'' (JStr ''xgboost.core.Booster'')) XGBOOST_MODEL_CLASSES of
                Inl e \<Rightarrow> Inl e
              | Inr ok \<Rightarrow> if ok then Inr () else Inl UnsafeArtifact)
         | _ \<Rightarrow> Inl UnsafeArtifact))"

definition refuse_author_code :: "flavors \<Rightarrow> load_error + unit" where
  "refuse_author_code fl =
     (let py = jget fl ''python_function''
      in if \<not> truthy py then Inl UnsafeArtifact
         else if list_ex ships_code (map snd fl) then Inl UnsafeArtifact
         else case dict_get py ''loader_module'' of
                Inl e \<Rightarrow> Inl e
              | Inr loader \<Rightarrow>
                  (case in_names loader PLATFORM_LOADERS of
                     Inl e \<Rightarrow> Inl e
                   | Inr ok \<Rightarrow> if ok then check_loader fl loader else Inl UnsafeArtifact))"

text \<open>
  A downloaded copy: the manifest's flavors, which names resolve inside the directory, which are files there, and
  what the two deserialisers make of a file.
\<close>

record 'm copy =
  cp_flavors :: flavors
  cp_inside :: "string \<Rightarrow> bool"
  cp_file :: "string \<Rightarrow> bool"
  cp_skops :: "string \<Rightarrow> string list option \<Rightarrow> 'm option"
  cp_xgboost :: "string \<Rightarrow> string \<Rightarrow> 'm option"

text \<open>A loaded model, with what its deserialiser was allowed.\<close>

datatype 'm loaded_model = SkopsModel (allowed: "string list option") (model_of: 'm) | XgboostModel (class_of: string) (model_of: 'm)

definition refuse_paths_outside :: "'m copy \<Rightarrow> load_error + unit" where
  "refuse_paths_outside cp =
     (if list_all (\<lambda>conf. case conf of
            JObj d \<Rightarrow> jget d ''data'' = JNull \<or> cp_inside cp (py_str (jget d ''data''))
          | _ \<Rightarrow> True)
        [jget (cp_flavors cp) ''python_function'', jget (cp_flavors cp) ''xgboost'']
      then Inr () else Inl UnsafeArtifact)"

definition load_local_skops :: "'m copy \<Rightarrow> string \<Rightarrow> load_error + 'm loaded_model" where
  "load_local_skops cp provenance =
     (let py = jget (cp_flavors cp) ''python_function''
      in if \<not> truthy py then Inl BadArtifact
         else case py of
                JObj d \<Rightarrow>
                  if jget d ''loader_module'' \<noteq> JStr ''mlflow.sklearn'' then Inl BadArtifact
                  else (case in_names (jget_default d ''predict_fn'' (JStr ''predict'')) PREDICT_FNS of
                          Inl e \<Rightarrow> Inl e
                        | Inr ok \<Rightarrow>
                            if \<not> ok then Inl BadArtifact
                            else (case (if truthy (jget d ''data'') then jget d ''data''
                                        else if truthy (jget d ''model_path'') then jget d ''model_path'' else JStr []) of
                                    JStr path \<Rightarrow>
                                      if \<not> (cp_inside cp path \<and> cp_file cp path) then Inl BadArtifact
                                      else (case cp_skops cp path (trusted_types_for provenance) of
                                              None \<Rightarrow> Inl DeserialiseFailed
                                            | Some m \<Rightarrow> Inr (SkopsModel (trusted_types_for provenance) m))
                                  | _ \<Rightarrow> Inl NotADict))
              | _ \<Rightarrow> Inl NotADict)"

definition load_local_xgboost :: "'m copy \<Rightarrow> load_error + 'm loaded_model" where
  "load_local_xgboost cp =
     (let py = jget (cp_flavors cp) ''python_function''
      in case (if truthy py then py else JObj []) of
           JObj d \<Rightarrow>
             if jget d ''loader_module'' \<noteq> JStr ''mlflow.xgboost'' then Inl UnsafeArtifact
             else if jget_default d ''predict_fn'' (JStr ''predict'') \<noteq> JStr ''predict'' then Inl BadArtifact
             else (case jget (cp_flavors cp) ''xgboost'' of
                     JObj x \<Rightarrow>
                       let model_class = jget_default x ''model_class'' (JStr ''xgboost.core.Booster'');
                           path = (if truthy (jget x ''data'') then py_str (jget x ''data'') else [])
                       in (case in_names model_class XGBOOST_MODEL_CLASSES of
                             Inl e \<Rightarrow> Inl e
                           | Inr ok \<Rightarrow>
                               if \<not> ok then Inl UnsafeArtifact
                               else if \<not> (cp_inside cp path \<and> cp_file cp path) then Inl BadArtifact
                               else (case cp_xgboost cp (py_str model_class) path of
                                       None \<Rightarrow> Inl DeserialiseFailed
                                     | Some m \<Rightarrow> Inr (XgboostModel (py_str model_class) m)))
                   | _ \<Rightarrow> Inl UnsafeArtifact)
         | _ \<Rightarrow> Inl NotADict)"

definition load_pyfunc :: "'m copy option \<Rightarrow> string \<Rightarrow> load_error + 'm loaded_model" where
  "load_pyfunc download provenance =
     (case download of
        None \<Rightarrow> Inl DownloadFailed
      | Some cp \<Rightarrow>
          (case refuse_author_code (cp_flavors cp) of
             Inl e \<Rightarrow> Inl e
           | Inr _ \<Rightarrow>
               (case refuse_paths_outside cp of
                  Inl e \<Rightarrow> Inl e
                | Inr _ \<Rightarrow>
                    (case is_skops_sklearn (cp_flavors cp) of
                       Inl e \<Rightarrow> Inl e
                     | Inr skops \<Rightarrow> if skops then load_local_skops cp provenance else load_local_xgboost cp))))"

section \<open>The address of a model\<close>

datatype model_error = ModelNotAdmissible | TrackingStoreUnavailable | LoadFailed load_error | ModelPy py_error

text \<open>\<open>_RUN_ID\<close>: its \<open>$\<close> also matches before a final line feed.\<close>

definition is_run_id :: "string \<Rightarrow> bool" where
  "is_run_id v \<longleftrightarrow>
     (let w = (if ends_with v [CHR 0x0A] then butlast v else v)
      in 1 \<le> length w \<and> length w \<le> 64 \<and> list_all upload_id_char w)"

text \<open>What the tracking store says of a run: the name of its experiment, that there is none, or nothing.\<close>

datatype run_lookup = RunIn json | RunMissing | StoreSilent

text \<open>The pages of logged models, each with its model ids and their runs; None where the store failed.\<close>

type_synonym logged_page = "(string \<times> string option) list option"

record 'm serving =
  sv_bucket :: string
  sv_run :: "string \<Rightarrow> run_lookup"
  sv_logged :: "string \<Rightarrow> logged_page list"
  sv_download :: "string \<Rightarrow> 'm copy option"

fun logged_model :: "string \<Rightarrow> logged_page list \<Rightarrow> string option" where
  "logged_model run [] = None"
| "logged_model run (None # ps) = None"
| "logged_model run (Some models # ps) =
     (case filter (\<lambda>(m, source). source = Some run) models of
        (m, _) # _ \<Rightarrow> Some (''models:/'' @ m)
      | [] \<Rightarrow> logged_model run ps)"

definition resolve_model_uri :: "'m serving \<Rightarrow> string \<Rightarrow> string result" where
  "resolve_model_uri sv run =
     (if \<not> is_run_id run then Inl ValueError
      else case logged_model run (sv_logged sv run) of
             Some uri \<Rightarrow> Inr uri
           | None \<Rightarrow> Inr (''runs:/'' @ run @ ''/model''))"

definition run_owned_by :: "run_lookup \<Rightarrow> string \<Rightarrow> model_error + bool" where
  "run_owned_by look company_id =
     (case look of
        StoreSilent \<Rightarrow> Inl TrackingStoreUnavailable
      | RunMissing \<Rightarrow> Inr False
      | RunIn name \<Rightarrow>
          (case mlflow_name_prefix company_id of
             Inl e \<Rightarrow> Inl (ModelPy e)
           | Inr pre \<Rightarrow> Inr (owned_name pre (if truthy name then name else JStr []) \<noteq> None)))"

definition check_address :: "string \<Rightarrow> string \<Rightarrow> string option \<Rightarrow> string option \<Rightarrow> model_error + unit" where
  "check_address bucket company_id run uri =
     (if given run \<and> given uri then Inl ModelNotAdmissible
      else if given run then (if is_run_id (the run) then Inr () else Inl ModelNotAdmissible)
      else case admitted_artifact_refusal uri company_id bucket of
             Some _ \<Rightarrow> Inl ModelNotAdmissible
           | None \<Rightarrow> Inr ())"

definition check_admissible :: "'m serving \<Rightarrow> string \<Rightarrow> string option \<Rightarrow> string option \<Rightarrow> model_error + unit" where
  "check_admissible sv company_id run uri =
     (case check_address (sv_bucket sv) company_id run uri of
        Inl e \<Rightarrow> Inl e
      | Inr _ \<Rightarrow>
          if given run then
            (case run_owned_by (sv_run sv (the run)) company_id of
               Inl e \<Rightarrow> Inl e
             | Inr owned \<Rightarrow> if owned then Inr () else Inl ModelNotAdmissible)
          else Inr ())"

definition model_uri_for :: "'m serving \<Rightarrow> string option \<Rightarrow> string option \<Rightarrow> model_error + string" where
  "model_uri_for sv run uri =
     (if given run then (case resolve_model_uri sv (the run) of Inl e \<Rightarrow> Inl (ModelPy e) | Inr u \<Rightarrow> Inr u)
      else if given uri then Inr (the uri)
      else Inl ModelNotAdmissible)"

definition model_load :: "'m serving \<Rightarrow> string \<Rightarrow> string option \<Rightarrow> string option \<Rightarrow> string \<Rightarrow> model_error + 'm loaded_model" where
  "model_load sv company_id run uri provenance =
     (case check_admissible sv company_id run uri of
        Inl e \<Rightarrow> Inl e
      | Inr _ \<Rightarrow>
          (case model_uri_for sv run uri of
             Inl e \<Rightarrow> Inl e
           | Inr u \<Rightarrow> (case load_pyfunc (sv_download sv u) provenance of Inl e \<Rightarrow> Inl (LoadFailed e) | Inr m \<Rightarrow> Inr m)))"

definition cache_key :: "string \<Rightarrow> string option \<Rightarrow> string option \<Rightarrow> string \<Rightarrow> string" where
  "cache_key company_id run uri provenance =
     company_id @ ''|'' @ provenance @ ''|'' @
     (if given run then the run else case uri of None \<Rightarrow> ''None'' | Some u \<Rightarrow> u)"

section \<open>The warm cache\<close>

text \<open>
  \<open>get_or_load\<close> holds the lock for the lookup and for the insertion, not for the load between them: the insertion
  meets whatever cache the others left.
\<close>

definition cache_find :: "(string, 'm loaded_model) od \<Rightarrow> string \<Rightarrow> ('m loaded_model \<times> (string, 'm loaded_model) od) option" where
  "cache_find cache key = map_option (\<lambda>m. (m, od_move_to_end cache key)) (od_get cache key)"

definition cache_insert :: "nat \<Rightarrow> (string, 'm loaded_model) od \<Rightarrow> string \<Rightarrow> 'm loaded_model \<Rightarrow> (string, 'm loaded_model) od" where
  "cache_insert max_entries cache key m = od_put max_entries cache key m"

text \<open>\<open>load_model_for\<close>: the answer, and the cache with which the lookup leaves it.\<close>

definition load_model_for ::
    "'m serving \<Rightarrow> (string, 'm loaded_model) od \<Rightarrow> string \<Rightarrow> string option \<Rightarrow> string option \<Rightarrow> string \<Rightarrow> model_error + 'm loaded_model" where
  "load_model_for sv cache company_id run uri provenance =
     (case check_address (sv_bucket sv) company_id run uri of
        Inl e \<Rightarrow> Inl e
      | Inr _ \<Rightarrow>
          (case cache_find cache (cache_key company_id run uri provenance) of
             Some (m, _) \<Rightarrow> Inr m
           | None \<Rightarrow> model_load sv company_id run uri provenance))"

section \<open>Compatibility\<close>

datatype compat_status = COMPATIBLE | PATCH_DRIFT | INCOMPATIBLE

text \<open>\<open>_components\<close>: the runs of digits, as numbers.\<close>

fun digit_runs :: "string \<Rightarrow> string \<Rightarrow> int list" where
  "digit_runs acc [] = (if acc = [] then [] else [decimal acc])"
| "digit_runs acc (c # cs) =
     (if is_digit c then digit_runs (acc @ [c]) cs
      else (if acc = [] then [] else [decimal acc]) @ digit_runs [] cs)"

definition components :: "string \<Rightarrow> int list" where
  "components v = digit_runs [] v"

datatype version_fault = MajorDiffers | MinorDiffers | ServingOlder | NotInstalled

definition same_components :: "nat \<Rightarrow> string \<Rightarrow> string \<Rightarrow> version_fault option" where
  "same_components n declared present =
     (if take n (components declared) \<noteq> take n (components present)
      then Some (if n = 1 then MajorDiffers else MinorDiffers) else None)"

definition serving_at_least :: "string \<Rightarrow> string \<Rightarrow> version_fault option" where
  "serving_at_least declared present =
     (let d = components declared; p = components present
      in if take 1 d \<noteq> take 1 p then Some MajorDiffers else if p < d then Some ServingOlder else None)"

definition SERIALIZATION_CRITICAL :: "(string \<times> (string \<Rightarrow> string \<Rightarrow> version_fault option)) list" where
  "SERIALIZATION_CRITICAL =
     [(''numpy'', same_components 1), (''scikit-learn'', same_components 2), (''skops'', serving_at_least), (''xgboost'', serving_at_least)]"

definition FLAVOR_LIBRARY :: "(string \<times> string) list" where
  "FLAVOR_LIBRARY =
     [(''mlflow.sklearn'', ''scikit-learn''), (''mlflow.xgboost'', ''xgboost''), (''mlflow.pytorch'', ''torch''),
      (''mlflow.keras'', ''keras''), (''mlflow.tensorflow'', ''tensorflow''), (''mlflow.lightgbm'', ''lightgbm'')]"

text \<open>\<open>_PIN\<close> on a line of the requirements, its comment and blanks removed.\<close>

definition pin_of :: "string \<Rightarrow> (string \<times> string) option" where
  "pin_of line =
     (let text' = py_strip (takeWhile (\<lambda>c. c \<noteq> CHR ''#'') line);
          name_char = (\<lambda>c. is_alnum c \<or> c \<in> set ''_.-'');
          name = takeWhile name_char text';
          r = dropWhile is_space (dropWhile name_char text')
      in if name = [] \<or> \<not> starts_with r ''=='' then None
         else case dropWhile is_space (drop 2 r) of
                c # cs \<Rightarrow>
                  if is_digit c then Some (py_lower name, c # takeWhile (\<lambda>c. is_alnum c \<or> c \<in> set ''.-'') cs) else None
              | [] \<Rightarrow> None)"

definition declared_pins :: "string list \<Rightarrow> (string, string) od" where
  "declared_pins lines =
     foldl (\<lambda>d line. case pin_of line of None \<Rightarrow> d | Some (name, v) \<Rightarrow> od_set d name v) [] lines"

definition supported_flavor :: "detectors \<Rightarrow> string \<Rightarrow> bool" where
  "supported_flavor reg flavor \<longleftrightarrow>
     flavor \<in> fst ` set FLAVOR_LIBRARY \<or> list_ex (\<lambda>(name, d). flavor \<in> set (dt_flavors d)) reg"

record Compatibility =
  cm_status :: compat_status
  cm_flavor :: "string option"
  cm_flavor_supported :: bool
  cm_declared :: "(string, string) od"
  cm_present :: "(string \<times> string option) list"
  cm_faults :: "(string \<times> version_fault) list"

definition servable :: "Compatibility \<Rightarrow> bool" where
  "servable c \<longleftrightarrow> cm_status c \<noteq> INCOMPATIBLE"

text \<open>One turn of the loop over the declared packages.\<close>

definition judge_package ::
    "(string \<Rightarrow> string option) \<Rightarrow> string option \<Rightarrow> string \<times> string \<Rightarrow>
     compat_status \<times> (string \<times> string option) list \<times> (string \<times> version_fault) list \<Rightarrow>
     compat_status \<times> (string \<times> string option) list \<times> (string \<times> version_fault) list" where
  "judge_package installed library pin acc =
     (case (pin, acc) of ((package, declared), (status, present, faults)) \<Rightarrow>
        let have_it = installed package; present' = present @ [(package, have_it)]
        in case have_it of
             None \<Rightarrow>
               if library = Some package \<or> package \<in> fst ` set SERIALIZATION_CRITICAL
               then (INCOMPATIBLE, present', faults @ [(package, NotInstalled)]) else (status, present', faults)
           | Some v \<Rightarrow>
               (case map_of SERIALIZATION_CRITICAL package of
                  None \<Rightarrow> (status, present', faults)
                | Some rule \<Rightarrow>
                    (case rule declared v of
                       Some fault \<Rightarrow> (INCOMPATIBLE, present', faults @ [(package, fault)])
                     | None \<Rightarrow>
                         (if v \<noteq> declared \<and> status = COMPATIBLE then PATCH_DRIFT else status, present', faults))))"

definition evaluate_compat ::
    "(string \<Rightarrow> string option) \<Rightarrow> detectors \<Rightarrow> string option \<Rightarrow> string list \<Rightarrow> Compatibility" where
  "evaluate_compat installed reg flavor lines =
     (let declared = declared_pins lines;
          library = map_of FLAVOR_LIBRARY (if given flavor then the flavor else []);
          unsupported = given flavor \<and>
            ((case library of None \<Rightarrow> False | Some lib \<Rightarrow> installed lib = None) \<or> \<not> supported_flavor reg (the flavor))
      in case foldl (\<lambda>acc pin. judge_package installed library pin acc)
                (if unsupported then INCOMPATIBLE else COMPATIBLE, [], []) (sort declared) of
           (status, present, faults) \<Rightarrow>
             \<lparr>cm_status = status, cm_flavor = flavor, cm_flavor_supported = \<not> unsupported, cm_declared = declared,
              cm_present = present, cm_faults = faults\<rparr>)"

section \<open>What a load establishes\<close>

text \<open>The manifest was held to the rules, and the deserialiser was allowed what the provenance grants.\<close>

definition data_only :: "flavors \<Rightarrow> bool" where
  "data_only fl \<longleftrightarrow> \<not> list_ex ships_code (map snd fl) \<and>
     (\<exists>d. jget fl ''python_function'' = JObj d \<and>
        (jget d ''loader_module'' = JStr ''mlflow.sklearn'' \<and> is_skops_sklearn fl = Inr True \<or>
         jget d ''loader_module'' = JStr ''mlflow.xgboost'' \<and>
           (\<exists>x c. jget fl ''xgboost'' = JObj x \<and> jget_default x ''model_class'' (JStr ''xgboost.core.Booster'') = JStr c \<and>
              c \<in> set XGBOOST_MODEL_CLASSES)))"

lemma in_names_True: "in_names j names = Inr True \<longleftrightarrow> (\<exists>n \<in> set names. j = JStr n)"
  by (auto simp: in_names_def hashable_def)

lemma refuse_author_code_iff: "refuse_author_code fl = Inr () \<longleftrightarrow> data_only fl"
proof
  assume r: "refuse_author_code fl = Inr ()"
  obtain d where d: "jget fl ''python_function'' = JObj d" and c: "\<not> list_ex ships_code (map snd fl)"
    using r by (auto simp: refuse_author_code_def Let_def dict_get_def split: if_splits sum.splits json.splits)
  have n: "in_names (jget d ''loader_module'') PLATFORM_LOADERS = Inr True" and l: "check_loader fl (jget d ''loader_module'') = Inr ()"
    using r d c by (auto simp: refuse_author_code_def Let_def dict_get_def split: if_splits sum.splits)
  from n have "jget d ''loader_module'' = JStr ''mlflow.sklearn'' \<or> jget d ''loader_module'' = JStr ''mlflow.xgboost''"
    unfolding in_names_True by (auto simp: PLATFORM_LOADERS_def)
  then show "data_only fl"
  proof
    assume s: "jget d ''loader_module'' = JStr ''mlflow.sklearn''"
    then have "is_skops_sklearn fl = Inr True" using l by (auto simp: check_loader_def split: sum.splits if_splits)
    then show ?thesis using s d c by (auto simp: data_only_def)
  next
    assume x: "jget d ''loader_module'' = JStr ''mlflow.xgboost''"
    then obtain y where y: "jget fl ''xgboost'' = JObj y"
      and "in_names (jget_default y ''model_class'' (JStr ''xgboost.core.Booster'')) XGBOOST_MODEL_CLASSES = Inr True"
      using l by (auto simp: check_loader_def split: json.splits sum.splits if_splits)
    then show ?thesis using x d c unfolding in_names_True data_only_def by blast
  qed
next
  assume "data_only fl"
  then obtain d where c: "\<not> list_ex ships_code (map snd fl)" and d: "jget fl ''python_function'' = JObj d"
    and l: "jget d ''loader_module'' = JStr ''mlflow.sklearn'' \<and> is_skops_sklearn fl = Inr True \<or>
         jget d ''loader_module'' = JStr ''mlflow.xgboost'' \<and>
           (\<exists>x c. jget fl ''xgboost'' = JObj x \<and> jget_default x ''model_class'' (JStr ''xgboost.core.Booster'') = JStr c \<and> c \<in> set XGBOOST_MODEL_CLASSES)"
    unfolding data_only_def by blast
  have n: "in_names (jget d ''loader_module'') PLATFORM_LOADERS = Inr True"
    using l unfolding in_names_True by (auto simp: PLATFORM_LOADERS_def)
  have "check_loader fl (jget d ''loader_module'') = Inr ()"
    using l
  proof
    assume "jget d ''loader_module'' = JStr ''mlflow.xgboost'' \<and> (\<exists>x c. jget fl ''xgboost'' = JObj x \<and>
        jget_default x ''model_class'' (JStr ''xgboost.core.Booster'') = JStr c \<and> c \<in> set XGBOOST_MODEL_CLASSES)"
    then obtain x c where x: "jget d ''loader_module'' = JStr ''mlflow.xgboost''" "jget fl ''xgboost'' = JObj x"
      "jget_default x ''model_class'' (JStr ''xgboost.core.Booster'') = JStr c" "c \<in> set XGBOOST_MODEL_CLASSES" by blast
    then have "in_names (JStr c) XGBOOST_MODEL_CLASSES = Inr True" unfolding in_names_True by blast
    then show ?thesis using x by (simp add: check_loader_def)
  qed (simp add: check_loader_def)
  moreover have "truthy (JObj d)" using l by (cases d) (auto simp: jget_def)
  ultimately show "refuse_author_code fl = Inr ()" using c d n by (simp add: refuse_author_code_def dict_get_def)
qed

definition granted_types :: "string \<Rightarrow> 'm loaded_model \<Rightarrow> bool" where
  "granted_types provenance m = (case m of
     SkopsModel types _ \<Rightarrow> types = trusted_types_for provenance
   | XgboostModel c _ \<Rightarrow> c \<in> set XGBOOST_MODEL_CLASSES)"

lemma load_local_skops_granted: "load_local_skops cp prov = Inr m \<Longrightarrow> granted_types prov m"
  by (auto simp: load_local_skops_def Let_def granted_types_def split: if_splits json.splits sum.splits option.splits)

lemma load_local_xgboost_granted: "load_local_xgboost cp = Inr m \<Longrightarrow> granted_types prov m"
proof -
  assume m: "load_local_xgboost cp = Inr m"
  obtain x where x: "jget (cp_flavors cp) ''xgboost'' = JObj x"
    using m by (auto simp: load_local_xgboost_def Let_def split: if_splits json.splits)
  let ?c = "jget_default x ''model_class'' (JStr ''xgboost.core.Booster'')"
  have n: "in_names ?c XGBOOST_MODEL_CLASSES = Inr True" and "\<exists>b. m = XgboostModel (py_str ?c) b"
    using m x by (auto simp: load_local_xgboost_def Let_def split: if_splits json.splits sum.splits option.splits)
  then obtain b where m: "m = XgboostModel (py_str ?c) b" by blast
  obtain c where "c \<in> set XGBOOST_MODEL_CLASSES" "?c = JStr c" using n unfolding in_names_True by blast
  then show ?thesis unfolding m granted_types_def by (simp add: py_str_def)
qed

lemma load_pyfunc_data_only:
  assumes "load_pyfunc dl prov = Inr m"
  shows "\<exists>cp. dl = Some cp \<and> data_only (cp_flavors cp) \<and> granted_types prov m"
proof -
  obtain cp where dl: "dl = Some cp" and r: "refuse_author_code (cp_flavors cp) = Inr ()"
    using assms by (auto simp: load_pyfunc_def split: option.splits sum.splits)
  obtain b where "is_skops_sklearn (cp_flavors cp) = Inr b" and "(if b then load_local_skops cp prov else load_local_xgboost cp) = Inr m"
    using assms dl by (auto simp: load_pyfunc_def split: sum.splits)
  then have "granted_types prov m" using load_local_skops_granted load_local_xgboost_granted by (cases b) auto
  then show ?thesis using dl r refuse_author_code_iff by blast
qed

section \<open>Whose address it is\<close>

lemma admitted_location_iff:
  "admitted_location base uri \<longleftrightarrow>
     (\<exists>w. 16 \<le> length w \<and> length w \<le> 64 \<and> list_all upload_id_char w \<and> (uri = base @ w \<or> uri = base @ w @ ''/''))"
proof
  assume a: "admitted_location base uri"
  then obtain r where r: "uri = base @ r" by (auto simp: admitted_location_def starts_with_iff)
  define w where "w = (if ends_with r ''/'' then butlast r else r)"
  have "16 \<le> length w" "length w \<le> 64" "list_all upload_id_char w"
    using a by (simp_all add: admitted_location_def Let_def w_def r del: length_butlast)
  moreover have "r = w \<or> r = w @ ''/''" unfolding w_def by (auto simp: ends_with_iff)
  ultimately show "\<exists>w. 16 \<le> length w \<and> length w \<le> 64 \<and> list_all upload_id_char w \<and> (uri = base @ w \<or> uri = base @ w @ ''/'')"
    using r by blast
next
  assume "\<exists>w. 16 \<le> length w \<and> length w \<le> 64 \<and> list_all upload_id_char w \<and> (uri = base @ w \<or> uri = base @ w @ ''/'')"
  then obtain w where w: "16 \<le> length w" "length w \<le> 64" "list_all upload_id_char w" "uri = base @ w \<or> uri = base @ w @ ''/''" by blast
  have "\<not> ends_with w ''/''"
  proof
    assume "ends_with w ''/''"
    then have "CHR ''/'' \<in> set w" by (auto simp: ends_with_iff)
    then show False using w(3) by (auto simp: list_all_iff upload_id_char_def is_alnum_def ord_def)
  qed
  then show "admitted_location base uri" using w by (auto simp: admitted_location_def Let_def starts_with_iff ends_with_iff)
qed

text \<open>
  The location of a model is the tenant's: an upload the tracking gateway admitted for the tenant, or a run of one of
  the tenant's experiments, as the tracking store answered.
\<close>

definition upload_of :: "string \<Rightarrow> string \<Rightarrow> string \<Rightarrow> bool" where
  "upload_of bucket c uri \<longleftrightarrow> (\<exists>pre w. mlflow_artifact_prefix c = Inr pre \<and> is_upload_id w \<and>
     (uri = admitted_uri bucket pre w \<or> uri = admitted_uri bucket pre w @ ''/''))"

definition run_of :: "'m serving \<Rightarrow> string \<Rightarrow> string \<Rightarrow> bool" where
  "run_of sv c run \<longleftrightarrow> (\<exists>pre name. mlflow_name_prefix c = Inr pre \<and> sv_run sv run = RunIn (JStr name) \<and> starts_with name pre)"

definition owns_address :: "'m serving \<Rightarrow> string \<Rightarrow> string option \<Rightarrow> string option \<Rightarrow> bool" where
  "owns_address sv c run uri \<longleftrightarrow>
     (if given run then \<not> given uri \<and> is_run_id (the run) \<and> run_of sv c (the run)
      else given uri \<and> upload_of (sv_bucket sv) c (the uri))"

lemma admitted_upload: "admitted_artifact_refusal uri c bucket = None \<Longrightarrow> given uri \<and> upload_of bucket c (the uri)"
proof -
  assume r: "admitted_artifact_refusal uri c bucket = None"
  then obtain pre where g: "given uri" and pre: "mlflow_artifact_prefix c = Inr pre"
    and a: "admitted_location (''s3://'' @ bucket @ ''/'' @ pre @ ADMITTED_ROOT) (the uri)"
    by (auto simp: admitted_artifact_refusal_def split: if_splits sum.splits)
  obtain w where w: "16 \<le> length w" "length w \<le> 64" "list_all upload_id_char w"
    "the uri = (''s3://'' @ bucket @ ''/'' @ pre @ ADMITTED_ROOT) @ w \<or> the uri = (''s3://'' @ bucket @ ''/'' @ pre @ ADMITTED_ROOT) @ w @ ''/''"
    using a unfolding admitted_location_iff by blast
  have "\<not> ends_with w [CHR 0x0A]"
  proof
    assume "ends_with w [CHR 0x0A]"
    then have "CHR 0x0A \<in> set w" by (auto simp: ends_with_iff)
    then show False using w(3) by (auto simp: list_all_iff upload_id_char_def is_alnum_def ord_def)
  qed
  then have "is_upload_id w" using w(1-3) by (auto simp: is_upload_id_def UPLOAD_ID_match_def upload_id_char_def list_all_iff)
  then show ?thesis using g pre w(4) unfolding upload_of_def admitted_uri_def by auto
qed

lemma check_admissible_owned: "check_admissible sv c run uri = Inr () \<Longrightarrow> owns_address sv c run uri"
proof -
  assume a: "check_admissible sv c run uri = Inr ()"
  then have ad: "check_address (sv_bucket sv) c run uri = Inr ()" by (auto simp: check_admissible_def split: sum.splits)
  show ?thesis
  proof (cases "given run")
    case True
    then have "\<not> given uri" "is_run_id (the run)" using ad by (auto simp: check_address_def split: if_splits)
    moreover have "run_owned_by (sv_run sv (the run)) c = Inr True"
      using a ad True by (auto simp: check_admissible_def split: sum.splits if_splits)
    then obtain name pre where r: "sv_run sv (the run) = RunIn name" "mlflow_name_prefix c = Inr pre"
      and o: "owned_name pre (if truthy name then name else JStr []) \<noteq> None"
      by (auto simp: run_owned_by_def split: run_lookup.splits sum.splits)
    obtain n where "name = JStr n" "starts_with n pre"
      using o by (cases name) (auto simp: owned_name_def split: if_splits)
    then have "run_of sv c (the run)" using r unfolding run_of_def by blast
    ultimately show ?thesis using True by (simp add: owns_address_def)
  next
    case False
    then have "admitted_artifact_refusal uri c (sv_bucket sv) = None" using ad by (auto simp: check_address_def split: option.splits)
    then show ?thesis using False admitted_upload by (auto simp: owns_address_def)
  qed
qed

text \<open>Two tenants never own one address.\<close>

lemma owns_address_unique:
  assumes "owns_address sv a run uri" "owns_address sv b run uri"
  shows "canonical_company_id a = canonical_company_id b"
proof (cases "given run")
  case True
  then obtain p q n where "mlflow_name_prefix a = Inr p" "mlflow_name_prefix b = Inr q" "starts_with n p" "starts_with n q"
    using assms by (auto simp: owns_address_def run_of_def)
  then show ?thesis by (rule mlflow_names.disjoint_prefixes)
next
  case False
  obtain p w q v where p: "mlflow_artifact_prefix a = Inr p" "mlflow_artifact_prefix b = Inr q"
    and u: "the uri = admitted_uri (sv_bucket sv) p w \<or> the uri = admitted_uri (sv_bucket sv) p w @ ''/''"
      "the uri = admitted_uri (sv_bucket sv) q v \<or> the uri = admitted_uri (sv_bucket sv) q v @ ''/''"
    using assms False by (auto simp: owns_address_def upload_of_def)
  let ?s = "drop (length (''s3://'' @ sv_bucket sv @ ''/'')) (the uri)"
  have "starts_with ?s p" using u(1) by (auto simp: admitted_uri_def starts_with_iff)
  moreover have "starts_with ?s q" using u(2) by (auto simp: admitted_uri_def starts_with_iff)
  ultimately show ?thesis by (rule artifact_keys.disjoint_prefixes [OF p])
qed

lemma model_load_owned:
  assumes "model_load sv c run uri prov = Inr m"
  shows "owns_address sv c run uri \<and> granted_types prov m \<and>
    (\<exists>u cp. model_uri_for sv run uri = Inr u \<and> sv_download sv u = Some cp \<and> data_only (cp_flavors cp))"
proof -
  have a: "check_admissible sv c run uri = Inr ()" using assms by (auto simp: model_load_def split: sum.splits)
  obtain u where u: "model_uri_for sv run uri = Inr u" "load_pyfunc (sv_download sv u) prov = Inr m"
    using assms by (auto simp: model_load_def split: sum.splits)
  show ?thesis using check_admissible_owned [OF a] load_pyfunc_data_only [OF u(2)] u(1) by blast
qed

section \<open>The cache serves what was loaded for its key\<close>

text \<open>
  The caches a process can hold, with the loads it made: \<open>(tenant, run, location, provenance, model)\<close>. A load may
  finish, and be inserted, at any time; the stores may have answered it in any way.
\<close>

type_synonym 'm loads = "(string \<times> string option \<times> string option \<times> string \<times> 'm loaded_model) set"

inductive cache_reach :: "nat \<Rightarrow> (string, 'm loaded_model) od \<Rightarrow> 'm loads \<Rightarrow> bool" for max_entries where
  cold: "cache_reach max_entries [] {}"
| hit: "cache_reach max_entries cache L \<Longrightarrow> cache_find cache key = Some (m, cache') \<Longrightarrow> cache_reach max_entries cache' L"
| inserted: "cache_reach max_entries cache L \<Longrightarrow> canonical_company_id c = Inr c \<Longrightarrow> prov \<in> {PROVENANCE_KERNEL, PROVENANCE_UPLOADED} \<Longrightarrow>
    model_load sv c run uri prov = Inr m \<Longrightarrow>
    cache_reach max_entries (cache_insert max_entries cache (cache_key c run uri prov) m) (insert (c, run, uri, prov, m) L)"

definition model_address :: "string option \<Rightarrow> string option \<Rightarrow> string" where
  "model_address run uri = (if given run then the run else case uri of None \<Rightarrow> ''None'' | Some u \<Rightarrow> u)"

lemma bar_split:
  "CHR ''|'' \<notin> set a \<Longrightarrow> CHR ''|'' \<notin> set a' \<Longrightarrow> a @ CHR ''|'' # b = a' @ CHR ''|'' # b' \<Longrightarrow> a = a' \<and> b = b'"
proof (induction a arbitrary: a')
  case Nil
  then show ?case by (cases a') auto
next
  case (Cons x a)
  then show ?case by (cases a') auto
qed

lemma cache_key_inj:
  assumes "canonical_company_id c = Inr c" "canonical_company_id c' = Inr c'"
    and "prov \<in> {PROVENANCE_KERNEL, PROVENANCE_UPLOADED}" "prov' \<in> {PROVENANCE_KERNEL, PROVENANCE_UPLOADED}"
    and "cache_key c run uri prov = cache_key c' run' uri' prov'"
  shows "c = c' \<and> prov = prov' \<and> model_address run uri = model_address run' uri'"
proof -
  have c: "CHR ''|'' \<notin> set c" "CHR ''|'' \<notin> set c'"
    using canonical_shape(2) [OF assms(1), of "CHR ''|''"] canonical_shape(2) [OF assms(2), of "CHR ''|''"]
    by (auto simp: lower_hex_def ord_def)
  have p: "CHR ''|'' \<notin> set prov" "CHR ''|'' \<notin> set prov'"
    using assms(3,4) by (auto simp: PROVENANCE_KERNEL_def PROVENANCE_UPLOADED_def)
  have "c = c' \<and> prov @ CHR ''|'' # model_address run uri = prov' @ CHR ''|'' # model_address run' uri'"
    using assms(5) by (intro bar_split [OF c]) (simp add: cache_key_def model_address_def)
  then show ?thesis using bar_split [OF p] by blast
qed

lemma cache_reach_wf: "cache_reach max_entries cache L \<Longrightarrow> od_wf cache \<and> length cache \<le> max_entries"
proof (induction rule: cache_reach.induct)
  case (hit cache L key m cache')
  then have "cache' = od_move_to_end cache key" by (auto simp: cache_find_def)
  then show ?case using hit by simp
next
  case (inserted cache L c prov sv run uri m)
  then show ?case by (simp add: cache_insert_def od_put_bound)
qed (simp add: od_wf_def)

text \<open>Whether a load of this tenant, provenance and address, with every check it makes, gave the model.\<close>

definition loaded_for :: "string \<Rightarrow> string \<Rightarrow> string \<Rightarrow> 'm loaded_model \<Rightarrow> bool" where
  "loaded_for c prov addr m \<longleftrightarrow>
     (\<exists>sv run uri. model_load sv c run uri prov = Inr m \<and> model_address run uri = addr)"

lemma cache_reach_loaded:
  assumes "cache_reach max_entries cache L" "0 < max_entries"
  shows "od_get cache key = Some m \<Longrightarrow>
    \<exists>c run uri prov. canonical_company_id c = Inr c \<and> prov \<in> {PROVENANCE_KERNEL, PROVENANCE_UPLOADED} \<and>
      key = cache_key c run uri prov \<and> loaded_for c prov (model_address run uri) m"
  using assms
proof (induction arbitrary: key m rule: cache_reach.induct)
  case (hit cache L k m' cache')
  then have "cache' = od_move_to_end cache k" by (auto simp: cache_find_def)
  then show ?case using hit by simp
next
  case (inserted cache L c prov sv run uri m')
  show ?case
  proof (cases "key = cache_key c run uri prov")
    case True
    have "od_get (cache_insert max_entries cache (cache_key c run uri prov) m') (cache_key c run uri prov) = Some m'"
      unfolding cache_insert_def by (rule od_put_get) (rule inserted.prems(2))
    then have "m = m'" using inserted.prems(1) True by simp
    then have "loaded_for c prov (model_address run uri) m" using inserted.hyps(4) unfolding loaded_for_def by blast
    with True inserted.hyps(2,3) show ?thesis by blast
  next
    case False
    then have "od_get cache key = Some m"
      using inserted.prems cache_reach_wf [OF inserted.hyps(1)] od_put_other unfolding cache_insert_def by metis
    then show ?thesis using inserted.IH inserted.prems by blast
  qed
qed simp

lemma load_model_for_loaded:
  assumes r: "cache_reach max_entries cache L" "0 < max_entries"
    and c: "canonical_company_id c = Inr c" "prov \<in> {PROVENANCE_KERNEL, PROVENANCE_UPLOADED}"
    and m: "load_model_for sv cache c run uri prov = Inr m"
  shows "loaded_for c prov (model_address run uri) m"
proof (cases "od_get cache (cache_key c run uri prov)")
  case None
  then have "model_load sv c run uri prov = Inr m"
    using m by (auto simp: load_model_for_def cache_find_def split: sum.splits)
  then show ?thesis unfolding loaded_for_def by blast
next
  case (Some m')
  then have "m' = m" using m by (auto simp: load_model_for_def cache_find_def split: sum.splits)
  then obtain c' run' uri' prov' where k: "canonical_company_id c' = Inr c'" "prov' \<in> {PROVENANCE_KERNEL, PROVENANCE_UPLOADED}"
    "cache_key c run uri prov = cache_key c' run' uri' prov'" "loaded_for c' prov' (model_address run' uri') m"
    using cache_reach_loaded [OF r] Some by blast
  then show ?thesis using cache_key_inj [OF c(1) k(1) c(2) k(2,3)] by simp
qed

text \<open>
  C16. Whatever the tracking store and the artifact store answer, and however loads by other requests interleave with
  it in the warm cache: a model the service scores with for a tenant was loaded, then or earlier, for that tenant, that
  provenance and that address, after the address was found to be the tenant's own - a run in one of the tenant's
  experiments, or a location the tracking gateway admits the tenant's uploads to - and after the very manifest it was
  loaded from was found to name a data-only loader and to ship no code; an uploaded model was granted no trusted types.
  No address is two tenants', and the cache never holds more models than its bound.
\<close>

theorem served_model_admitted:
  assumes "cache_reach max_entries cache L" "0 < max_entries"
    and "canonical_company_id c = Inr c" "prov \<in> {PROVENANCE_KERNEL, PROVENANCE_UPLOADED}"
    and "load_model_for sv cache c run uri prov = Inr m"
  shows "length cache \<le> max_entries \<and> (prov = PROVENANCE_UPLOADED \<longrightarrow> (\<forall>types b. m = SkopsModel types b \<longrightarrow> types = None)) \<and>
    (\<exists>sv' run' uri' u cp. model_load sv' c run' uri' prov = Inr m \<and> model_address run' uri' = model_address run uri \<and> owns_address sv' c run' uri' \<and>
       (\<forall>b. owns_address sv' b run' uri' \<longrightarrow> canonical_company_id b = Inr c) \<and>
       model_uri_for sv' run' uri' = Inr u \<and> sv_download sv' u = Some cp \<and> data_only (cp_flavors cp))"
proof -
  obtain sv' run' uri' where l: "model_load sv' c run' uri' prov = Inr m" "model_address run' uri' = model_address run uri"
    using load_model_for_loaded [OF assms] unfolding loaded_for_def by blast
  note own = model_load_owned [OF l(1)]
  have "canonical_company_id b = Inr c" if "owns_address sv' b run' uri'" for b
    using owns_address_unique [OF that conjunct1 [OF own]] assms(3) by simp
  moreover have "types = None" if "prov = PROVENANCE_UPLOADED" "m = SkopsModel types b" for types b
    using own that by (simp add: granted_types_def trusted_types_for_def PROVENANCE_KERNEL_def PROVENANCE_UPLOADED_def)
  moreover obtain u cp where "model_uri_for sv' run' uri' = Inr u" "sv_download sv' u = Some cp" "data_only (cp_flavors cp)"
    using own by blast
  moreover have "length cache \<le> max_entries" using cache_reach_wf [OF assms(1)] by blast
  moreover have "owns_address sv' c run' uri'" using own by blast
  ultimately show ?thesis using l
    by (intro conjI exI [of _ sv'] exI [of _ run'] exI [of _ uri'] exI [of _ u] exI [of _ cp] allI impI) simp_all
qed

section \<open>The verdict on an artifact's declarations\<close>

definition pin_fault :: "(string \<Rightarrow> string option) \<Rightarrow> string option \<Rightarrow> string \<times> string \<Rightarrow> version_fault option" where
  "pin_fault installed library pin =
     (case installed (fst pin) of
        None \<Rightarrow> if library = Some (fst pin) \<or> fst pin \<in> fst ` set SERIALIZATION_CRITICAL then Some NotInstalled else None
      | Some v \<Rightarrow> (case map_of SERIALIZATION_CRITICAL (fst pin) of None \<Rightarrow> None | Some rule \<Rightarrow> rule (snd pin) v))"

definition pin_differs :: "(string \<Rightarrow> string option) \<Rightarrow> string \<times> string \<Rightarrow> bool" where
  "pin_differs installed pin \<longleftrightarrow> fst pin \<in> fst ` set SERIALIZATION_CRITICAL \<and> installed (fst pin) \<notin> {None, Some (snd pin)}"

definition join_status :: "compat_status \<Rightarrow> bool \<Rightarrow> bool \<Rightarrow> compat_status" where
  "join_status st bad differs =
     (if st = INCOMPATIBLE \<or> bad then INCOMPATIBLE else if st = PATCH_DRIFT \<or> differs then PATCH_DRIFT else COMPATIBLE)"

lemma judge_package_eq:
  "judge_package installed library pin (st, present, faults) =
     (join_status st (pin_fault installed library pin \<noteq> None) (pin_differs installed pin), present @ [(fst pin, installed (fst pin))],
      case pin_fault installed library pin of None \<Rightarrow> faults | Some f \<Rightarrow> faults @ [(fst pin, f)])"
proof -
  have crit: "map_of SERIALIZATION_CRITICAL (fst pin) = None \<longleftrightarrow> fst pin \<notin> fst ` set SERIALIZATION_CRITICAL" by (rule map_of_eq_None_iff)
  show ?thesis
  proof (cases "installed (fst pin)")
    case None
    then show ?thesis by (cases pin; cases st) (auto simp: judge_package_def Let_def pin_fault_def pin_differs_def join_status_def)
  next
    case (Some v)
    show ?thesis
    proof (cases "map_of SERIALIZATION_CRITICAL (fst pin)")
      case None
      then show ?thesis using Some crit by (cases pin; cases st) (auto simp: judge_package_def Let_def pin_fault_def pin_differs_def join_status_def)
    next
      case (Some rule)
      then show ?thesis using \<open>installed (fst pin) = Some v\<close> crit
        by (cases pin; cases st; cases "rule (snd pin) v") (auto simp: judge_package_def Let_def pin_fault_def pin_differs_def join_status_def)
    qed
  qed
qed

lemma join_join: "join_status (join_status st a b) c d = join_status st (a \<or> c) (b \<or> d)"
  by (auto simp: join_status_def)

lemma judge_packages:
  "foldl (\<lambda>acc pin. judge_package installed library pin acc) (st, present, faults) pins =
     (join_status st (list_ex (\<lambda>p. pin_fault installed library p \<noteq> None) pins) (list_ex (pin_differs installed) pins),
      present @ map (\<lambda>p. (fst p, installed (fst p))) pins,
      faults @ concat (map (\<lambda>p. case pin_fault installed library p of None \<Rightarrow> [] | Some f \<Rightarrow> [(fst p, f)]) pins))"
proof (induction pins arbitrary: st present faults)
  case Nil
  show ?case by (cases st) (simp_all add: join_status_def)
next
  case (Cons p pins)
  show ?case by (simp add: judge_package_eq Cons.IH join_join split: option.splits)
qed

lemma faults_set:
  "(q, f) \<in> set (concat (map (\<lambda>p. case g p of None \<Rightarrow> [] | Some f \<Rightarrow> [(fst p, f)]) xs)) \<longleftrightarrow> (\<exists>v. (q, v) \<in> set xs \<and> g (q, v) = Some f)"
proof (induction xs)
  case (Cons x xs)
  obtain a b where x: "x = (a, b)" by force
  have "(q, f) \<in> set (case g (a, b) of None \<Rightarrow> [] | Some f \<Rightarrow> [(fst (a, b), f)]) \<longleftrightarrow> q = a \<and> g (a, b) = Some f"
    by (auto split: option.splits)
  then show ?case using Cons unfolding x by (auto simp del: set_concat)
qed simp

definition flavor_unserved :: "(string \<Rightarrow> string option) \<Rightarrow> detectors \<Rightarrow> string option \<Rightarrow> bool" where
  "flavor_unserved installed reg flavor \<longleftrightarrow> given flavor \<and>
     (\<not> supported_flavor reg (the flavor) \<or> (\<exists>lib. map_of FLAVOR_LIBRARY (the flavor) = Some lib \<and> installed lib = None))"

text \<open>
  C40. The verdict on an artifact does not depend on the order its requirements are read in. It is refused exactly when
  its flavor is not served here, or a pinned package breaks its rule: one the load needs is not installed, or a library
  that wrote the artifact's bytes is here in a version its rule does not allow; it drifts exactly when it is not refused
  and one of those libraries is here in another version; and the faults recorded are those of the pinned packages.
\<close>

theorem compat_verdict:
  assumes "library = map_of FLAVOR_LIBRARY (if given flavor then the flavor else [])"
  shows "cm_status (evaluate_compat installed reg flavor lines) =
      (if flavor_unserved installed reg flavor \<or> (\<exists>p \<in> set (declared_pins lines). pin_fault installed library p \<noteq> None) then INCOMPATIBLE
       else if \<exists>p \<in> set (declared_pins lines). pin_differs installed p then PATCH_DRIFT else COMPATIBLE) \<and>
    (\<forall>q f. (q, f) \<in> set (cm_faults (evaluate_compat installed reg flavor lines)) \<longleftrightarrow>
       (\<exists>v. (q, v) \<in> set (declared_pins lines) \<and> pin_fault installed library (q, v) = Some f))"
proof -
  let ?pins = "sort (declared_pins lines)"
  have un: "(given flavor \<and> ((case library of None \<Rightarrow> False | Some lib \<Rightarrow> installed lib = None) \<or> \<not> supported_flavor reg (the flavor)))
      \<longleftrightarrow> flavor_unserved installed reg flavor"
    unfolding flavor_unserved_def assms by (auto split: option.splits)
  have "cm_status (evaluate_compat installed reg flavor lines) =
      join_status (if flavor_unserved installed reg flavor then INCOMPATIBLE else COMPATIBLE)
        (list_ex (\<lambda>p. pin_fault installed library p \<noteq> None) ?pins) (list_ex (pin_differs installed) ?pins)"
    unfolding evaluate_compat_def Let_def assms [symmetric] un judge_packages by simp
  moreover have "cm_faults (evaluate_compat installed reg flavor lines) =
      concat (map (\<lambda>p. case pin_fault installed library p of None \<Rightarrow> [] | Some f \<Rightarrow> [(fst p, f)]) ?pins)"
    unfolding evaluate_compat_def Let_def assms [symmetric] un judge_packages by simp
  ultimately show ?thesis unfolding faults_set by (simp add: join_status_def list_ex_iff faults_set del: set_concat)
qed

text \<open>A store that holds one run of tenant A, logged as skops, and one upload of the tenant.\<close>

definition demo_copy :: "string copy" where
  "demo_copy = \<lparr>cp_flavors = [(''python_function'', JObj [(''loader_module'', JStr ''mlflow.sklearn''), (''model_path'', JStr ''model.skops'')]),
       (''sklearn'', JObj [(''serialization_format'', JStr ''skops'')])],
     cp_inside = (\<lambda>_. True), cp_file = (\<lambda>p. p = ''model.skops''), cp_skops = (\<lambda>p types. Some ''forest''), cp_xgboost = (\<lambda>_ _. None)\<rparr>"

definition demo_serving :: "string serving" where
  "demo_serving = \<lparr>sv_bucket = ''mlflow'',
     sv_run = (\<lambda>r. if r = ''run1'' then (case mlflow_name_prefix uuid_a of Inr p \<Rightarrow> RunIn (JStr (p @ ''pumps'')) | Inl _ \<Rightarrow> RunMissing) else RunMissing),
     sv_logged = (\<lambda>r. [Some [(''m-1'', Some ''run0'')], Some [(''m-2'', Some ''run1'')]]),
     sv_download = (\<lambda>u. if u = ''models:/m-2'' then Some demo_copy else None)\<rparr>"

lemma demo_load: "model_load demo_serving uuid_a (Some ''run1'') None PROVENANCE_KERNEL = Inr (SkopsModel (Some KERNEL_TRUSTED_TYPES) ''forest'')"
  by code_simp

theorem served_model_admitted_witness:
  "\<exists>cache :: (string, string loaded_model) od. length cache \<le> 2 \<and> od_get cache (cache_key uuid_a (Some ''run1'') None PROVENANCE_KERNEL) \<noteq> None \<and>
    (\<exists>sv' run' uri' u cp m. load_model_for (demo_serving \<lparr>sv_run := \<lambda>_. StoreSilent\<rparr>) cache uuid_a (Some ''run1'') None PROVENANCE_KERNEL = Inr m \<and>
       model_load sv' uuid_a run' uri' PROVENANCE_KERNEL = Inr m \<and> owns_address sv' uuid_a run' uri' \<and>
       model_uri_for sv' run' uri' = Inr u \<and> sv_download sv' u = Some cp \<and> data_only (cp_flavors cp))"
proof -
  let ?k = "cache_key uuid_a (Some ''run1'') None PROVENANCE_KERNEL" and ?m = "SkopsModel (Some KERNEL_TRUSTED_TYPES) ''forest''"
  let ?cache = "cache_insert 2 [] ?k ?m"
  have c: "canonical_company_id uuid_a = Inr uuid_a" by simp
  have r: "cache_reach 2 ?cache (insert (uuid_a, Some ''run1'', None, PROVENANCE_KERNEL, ?m) {})"
    by (rule cache_reach.inserted [OF cache_reach.cold c _ demo_load]) simp
  have g: "od_get ?cache ?k = Some ?m" unfolding cache_insert_def by (rule od_put_get) simp
  have l: "load_model_for (demo_serving \<lparr>sv_run := \<lambda>_. StoreSilent\<rparr>) ?cache uuid_a (Some ''run1'') None PROVENANCE_KERNEL = Inr ?m"
    by code_simp
  note s = served_model_admitted [OF r _ c _ l]
  have "length ?cache \<le> 2" using s by simp
  moreover obtain sv' run' uri' u cp where "model_load sv' uuid_a run' uri' PROVENANCE_KERNEL = Inr ?m" "owns_address sv' uuid_a run' uri'"
      "model_uri_for sv' run' uri' = Inr u" "sv_download sv' u = Some cp" "data_only (cp_flavors cp)"
    using s by auto
  ultimately show ?thesis using g l
    by (intro exI [of _ ?cache] conjI exI [of _ sv'] exI [of _ run'] exI [of _ uri'] exI [of _ u] exI [of _ cp] exI [of _ ?m]) simp_all
qed

definition demo_installed :: "string \<Rightarrow> string option" where
  "demo_installed p = map_of [(''numpy'', ''1.26.4''), (''scikit-learn'', ''1.5.2''), (''skops'', ''0.10.0'')] p"

theorem compat_verdict_witness:
  "cm_status (evaluate_compat demo_installed [] (Some ''mlflow.sklearn'') [''numpy==1.26.1'', ''scikit-learn==1.4.0 # pinned'', ''pandas==2.0'']) = INCOMPATIBLE \<and>
   cm_status (evaluate_compat demo_installed [] (Some ''mlflow.sklearn'') [''numpy==1.26.1'', ''scikit-learn==1.5.2'']) = PATCH_DRIFT \<and>
   pin_fault demo_installed (Some ''scikit-learn'') (''scikit-learn'', ''1.4.0'') = Some MinorDiffers"
proof (intro conjI)
  have l: "Some ''scikit-learn'' = map_of FLAVOR_LIBRARY (if given (Some ''mlflow.sklearn'') then the (Some ''mlflow.sklearn'') else [])"
    by (simp add: FLAVOR_LIBRARY_def given_def)
  have p: "(''scikit-learn'', ''1.4.0'') \<in> set (declared_pins [''numpy==1.26.1'', ''scikit-learn==1.4.0 # pinned'', ''pandas==2.0''])"
    by code_simp
  show f: "pin_fault demo_installed (Some ''scikit-learn'') (''scikit-learn'', ''1.4.0'') = Some MinorDiffers" by code_simp
  then have "\<exists>p \<in> set (declared_pins [''numpy==1.26.1'', ''scikit-learn==1.4.0 # pinned'', ''pandas==2.0'']). pin_fault demo_installed (Some ''scikit-learn'') p \<noteq> None"
    using p by (intro bexI [OF _ p]) simp
  then show "cm_status (evaluate_compat demo_installed [] (Some ''mlflow.sklearn'') [''numpy==1.26.1'', ''scikit-learn==1.4.0 # pinned'', ''pandas==2.0'']) = INCOMPATIBLE"
    using compat_verdict [OF l, of demo_installed "[]"] by simp
  show "cm_status (evaluate_compat demo_installed [] (Some ''mlflow.sklearn'') [''numpy==1.26.1'', ''scikit-learn==1.5.2'']) = PATCH_DRIFT" by code_simp
qed

end
