(* ===== verification/Detectors.thy ===== *)
theory Detectors
  imports Model_Loading
begin

text \<open>
  The anomaly detectors the platform ships (\<open>services/ml_service/api/extensions/builtins_detectors.py\<close>) and the score they
  give. A model is what its library makes of a vector: the methods an estimator has, and their answers, are parameters,
  as is numpy's exponential. Floats are exact values, with the infinities and the value that is not a number.
\<close>

section \<open>Floats that compare as Python's\<close>

fun float_less :: "py_float \<Rightarrow> py_float \<Rightarrow> bool" where
  "float_less (Fin a) (Fin b) = (a < b)"
| "float_less (Fin a) PInf = True"
| "float_less NInf (Fin b) = True"
| "float_less NInf PInf = True"
| "float_less _ _ = False"

text \<open>\<open>min(a, b)\<close> and \<open>max(a, b)\<close> keep the first unless the second compares past it.\<close>

definition py_min :: "py_float \<Rightarrow> py_float \<Rightarrow> py_float" where
  "py_min a b = (if float_less b a then b else a)"

definition py_max :: "py_float \<Rightarrow> py_float \<Rightarrow> py_float" where
  "py_max a b = (if float_less a b then b else a)"

definition clamp :: "py_float \<Rightarrow> py_float" where
  "clamp x = py_max (Fin 0) (py_min (Fin 1) x)"

fun minus_floats :: "py_float \<Rightarrow> py_float \<Rightarrow> py_float" where
  "minus_floats (Fin a) (Fin b) = Fin (a - b)"
| "minus_floats NaN _ = NaN"
| "minus_floats _ NaN = NaN"
| "minus_floats (Fin a) PInf = NInf"
| "minus_floats (Fin a) NInf = PInf"
| "minus_floats PInf PInf = NaN"
| "minus_floats NInf NInf = NaN"
| "minus_floats x _ = x"

fun square_float :: "py_float \<Rightarrow> py_float" where
  "square_float (Fin a) = Fin (a * a)"
| "square_float NaN = NaN"
| "square_float _ = PInf"

text \<open>\<open>np.mean\<close> of squares, which are never below zero; of none it is not a number.\<close>

fun sum_squares :: "py_float list \<Rightarrow> py_float" where
  "sum_squares [] = Fin 0"
| "sum_squares (x # xs) =
     (case (x, sum_squares xs) of (Fin a, Fin b) \<Rightarrow> Fin (a + b) | (NaN, _) \<Rightarrow> NaN | (_, NaN) \<Rightarrow> NaN | _ \<Rightarrow> PInf)"

definition mean_squares :: "py_float list \<Rightarrow> py_float" where
  "mean_squares xs =
     (if xs = [] then NaN else case sum_squares xs of Fin a \<Rightarrow> Fin (a / of_nat (length xs)) | x \<Rightarrow> x)"

section \<open>Models\<close>

text \<open>
  An estimator: \<open>predict_proba\<close> and \<open>decision_function\<close> where it has them, by the first row and by all values, and
  \<open>predict\<close> by the shape and the values of its answer. A loaded model may give the estimator it wraps.
\<close>

record estimator =
  es_predict_proba :: "(py_float list \<Rightarrow> py_float list) option"
  es_decision_function :: "(py_float list \<Rightarrow> py_float list) option"
  es_predict :: "py_float list \<Rightarrow> nat list \<times> py_float list"

record py_model =
  pm_raw :: "estimator option"
  pm_self :: estimator

definition estimator_of :: "py_model \<Rightarrow> estimator" where
  "estimator_of m = (case pm_raw m of Some e \<Rightarrow> e | None \<Rightarrow> pm_self m)"

datatype detector_error = UninterpretableModel | DetectorRaised

record DetectionResult =
  dr_score :: py_float
  dr_is_anomaly :: bool
  dr_semantics :: string

definition detection :: "py_float \<Rightarrow> py_float \<Rightarrow> string \<Rightarrow> DetectionResult" where
  "detection score threshold semantics = \<lparr>dr_score = score, dr_is_anomaly = float_le threshold score, dr_semantics = semantics\<rparr>"

section \<open>The detectors\<close>

text \<open>\<open>_outlier_result\<close>, with numpy's exponential.\<close>

definition TEMPERATURE :: rat where "TEMPERATURE = 6 / 100"

fun scaled :: "py_float \<Rightarrow> py_float" where
  "scaled (Fin q) = Fin (q / TEMPERATURE)"
| "scaled x = x"

fun logistic_of :: "py_float \<Rightarrow> py_float" where
  "logistic_of (Fin e) = Fin (1 / (1 + e))"
| "logistic_of PInf = Fin 0"
| "logistic_of x = NaN"

definition outlier_result :: "(py_float \<Rightarrow> py_float) \<Rightarrow> py_float \<Rightarrow> py_float \<Rightarrow> DetectionResult" where
  "outlier_result np_exp raw threshold = detection (clamp (logistic_of (np_exp (scaled raw)))) threshold ''outlier_score''"

definition outlier_score :: "(py_float \<Rightarrow> py_float) \<Rightarrow> py_float list \<Rightarrow> py_float \<Rightarrow> detector_error + DetectionResult" where
  "outlier_score np_exp raw threshold =
     (case raw of [] \<Rightarrow> Inl DetectorRaised | r # _ \<Rightarrow> Inr (outlier_result np_exp r threshold))"

definition sklearn_detector ::
    "(py_float \<Rightarrow> py_float) \<Rightarrow> py_float list \<Rightarrow> py_model \<Rightarrow> py_float \<Rightarrow> json \<Rightarrow> detector_error + DetectionResult" where
  "sklearn_detector np_exp features m threshold scale =
     (let est = estimator_of m
      in case es_predict_proba est of
           Some proba \<Rightarrow>
             (case proba features of
                [] \<Rightarrow> Inl DetectorRaised
              | [p] \<Rightarrow> Inr (detection (clamp p) threshold ''anomaly_probability'')
              | _ # p # _ \<Rightarrow> Inr (detection (clamp p) threshold ''anomaly_probability''))
         | None \<Rightarrow>
             (case es_decision_function est of
                Some df \<Rightarrow> outlier_score np_exp (df features) threshold
              | None \<Rightarrow> Inl UninterpretableModel))"

definition in_score_range :: "py_float \<Rightarrow> bool" where
  "in_score_range x = (case x of Fin q \<Rightarrow> 0 \<le> q \<and> q \<le> 1 | _ \<Rightarrow> False)"

definition direct_detector ::
    "(py_float \<Rightarrow> py_float) \<Rightarrow> py_float list \<Rightarrow> py_model \<Rightarrow> py_float \<Rightarrow> json \<Rightarrow> detector_error + DetectionResult" where
  "direct_detector np_exp features m threshold scale =
     (case snd (es_predict (pm_self m) features) of
        [] \<Rightarrow> Inl UninterpretableModel
      | p # _ \<Rightarrow> if in_score_range p then Inr (detection p threshold ''direct_score'') else Inl UninterpretableModel)"

definition outlier_detector ::
    "(py_float \<Rightarrow> py_float) \<Rightarrow> py_float list \<Rightarrow> py_model \<Rightarrow> py_float \<Rightarrow> json \<Rightarrow> detector_error + DetectionResult" where
  "outlier_detector np_exp features m threshold scale =
     (case es_decision_function (estimator_of m) of
        None \<Rightarrow> Inl UninterpretableModel
      | Some df \<Rightarrow> outlier_score np_exp (df features) threshold)"

text \<open>A recorded scale: absent or not above zero is refused; what cannot be compared with zero raises.\<close>

definition scale_of :: "json \<Rightarrow> detector_error + py_float" where
  "scale_of scale =
     (if \<not> truthy scale then Inl UninterpretableModel
      else case scale of
             JBool b \<Rightarrow> Inr (Fin 1)
           | JInt i \<Rightarrow> if i \<le> 0 then Inl UninterpretableModel else Inr (Fin (of_int i))
           | JFloat x \<Rightarrow> if float_le x (Fin 0) then Inl UninterpretableModel else Inr x
           | _ \<Rightarrow> Inl DetectorRaised)"

text \<open>\<open>mse / (mse + scale)\<close> of an error that is not below zero and a scale above it.\<close>

fun relative_error :: "py_float \<Rightarrow> py_float \<Rightarrow> py_float" where
  "relative_error (Fin a) (Fin s) = Fin (a / (a + s))"
| "relative_error (Fin a) PInf = Fin 0"
| "relative_error _ _ = NaN"

definition autoencoder_detector ::
    "(py_float \<Rightarrow> py_float) \<Rightarrow> py_float list \<Rightarrow> py_model \<Rightarrow> py_float \<Rightarrow> json \<Rightarrow> detector_error + DetectionResult" where
  "autoencoder_detector np_exp features m threshold scale =
     (let out = es_predict (pm_self m) features
      in if fst out \<noteq> [1, length features] then Inl UninterpretableModel
         else case scale_of scale of
                Inl e \<Rightarrow> Inl e
              | Inr s \<Rightarrow>
                  Inr (detection
                    (clamp (relative_error (mean_squares (map2 (\<lambda>x y. square_float (minus_floats x y)) features (snd out))) s))
                    threshold ''reconstruction_error''))"

text \<open>The registry on import, and the function each of its entries stands for.\<close>

definition builtin_detectors :: detectors where
  "builtin_detectors =
     [(''sklearn'', \<lparr>dt_fn = 0, dt_semantics = ''anomaly_probability'', dt_flavors = [''mlflow.sklearn'', ''mlflow.xgboost'']\<rparr>),
      (''direct'', \<lparr>dt_fn = 1, dt_semantics = ''direct_score'', dt_flavors = [''mlflow.sklearn'', ''mlflow.xgboost'']\<rparr>),
      (''outlier'', \<lparr>dt_fn = 2, dt_semantics = ''outlier_score'', dt_flavors = [''mlflow.sklearn'']\<rparr>),
      (''autoencoder'', \<lparr>dt_fn = 3, dt_semantics = ''reconstruction_error'', dt_flavors = [''mlflow.sklearn'']\<rparr>)]"

type_synonym detector_fn =
  "(py_float \<Rightarrow> py_float) \<Rightarrow> py_float list \<Rightarrow> py_model \<Rightarrow> py_float \<Rightarrow> json \<Rightarrow> detector_error + DetectionResult"

definition builtin_detector_fns :: "detector_fn list" where
  "builtin_detector_fns = [sklearn_detector, direct_detector, outlier_detector, autoencoder_detector]"

section \<open>Scores\<close>

lemma clamp_range: "\<exists>q. clamp x = Fin q \<and> 0 \<le> q \<and> q \<le> 1"
  by (cases x) (auto simp: clamp_def py_min_def py_max_def)

lemma clamp_id: "0 \<le> q \<Longrightarrow> q \<le> 1 \<Longrightarrow> clamp (Fin q) = Fin q"
  by (auto simp: clamp_def py_min_def py_max_def)

lemma clamp_NaN: "clamp NaN = Fin 1"
  by (simp add: clamp_def py_min_def py_max_def)

text \<open>A verdict: the score is a number from 0 to 1, and it is an anomaly exactly when the score reaches the threshold.\<close>

definition verdict :: "py_float \<Rightarrow> DetectionResult \<Rightarrow> bool" where
  "verdict threshold r \<longleftrightarrow> (\<exists>q. dr_score r = Fin q \<and> 0 \<le> q \<and> q \<le> 1) \<and> dr_is_anomaly r = float_le threshold (dr_score r)"

lemma verdict_clamp: "verdict threshold (detection (clamp x) threshold s)"
  using clamp_range [of x] by (simp add: verdict_def detection_def)

lemma outlier_verdict: "outlier_score np_exp raw threshold = Inr r \<Longrightarrow> verdict threshold r"
  by (auto simp: outlier_score_def outlier_result_def verdict_clamp split: list.splits)

lemma builtin_verdict:
  assumes "d \<in> set builtin_detector_fns" "d np_exp features m threshold scale = Inr r"
  shows "verdict threshold r"
proof -
  consider "sklearn_detector np_exp features m threshold scale = Inr r" | "direct_detector np_exp features m threshold scale = Inr r"
    | "outlier_detector np_exp features m threshold scale = Inr r" | "autoencoder_detector np_exp features m threshold scale = Inr r"
    using assms by (auto simp: builtin_detector_fns_def)
  then show ?thesis
  proof cases
    case 1
    then show ?thesis
      by (auto simp: sklearn_detector_def Let_def verdict_clamp outlier_verdict split: option.splits list.splits)
  next
    case 2
    then show ?thesis
      by (auto simp: direct_detector_def in_score_range_def verdict_def detection_def split: list.splits if_splits py_float.splits)
  next
    case 3
    then show ?thesis by (auto simp: outlier_detector_def outlier_verdict split: option.splits)
  next
    case 4
    then show ?thesis
      by (auto simp: autoencoder_detector_def Let_def verdict_clamp split: if_splits sum.splits)
  qed
qed

text \<open>What numpy documents of its exponential, on numbers.\<close>

definition exp_law :: "(py_float \<Rightarrow> py_float) \<Rightarrow> bool" where
  "exp_law np_exp \<longleftrightarrow> np_exp (Fin 0) = Fin 1 \<and> (\<forall>q. np_exp (Fin q) = PInf \<or> (\<exists>e. np_exp (Fin q) = Fin e \<and> 0 \<le> e)) \<and>
     (\<forall>p q. p \<le> q \<longrightarrow> float_le (np_exp (Fin p)) (np_exp (Fin q)))"

text \<open>The score of an outlier value.\<close>

definition outlier_at :: "(py_float \<Rightarrow> py_float) \<Rightarrow> rat \<Rightarrow> py_float" where
  "outlier_at np_exp q = dr_score (outlier_result np_exp (Fin q) (Fin 0))"

lemma outlier_at_eq:
  assumes "exp_law np_exp"
  shows "outlier_at np_exp q = logistic_of (np_exp (Fin (q / TEMPERATURE)))"
proof -
  obtain e where "np_exp (Fin (q / TEMPERATURE)) = PInf \<or> np_exp (Fin (q / TEMPERATURE)) = Fin e \<and> 0 \<le> e"
    using assms unfolding exp_law_def by metis
  then show ?thesis
    by (auto simp: outlier_at_def outlier_result_def detection_def clamp_id divide_le_eq)
qed

lemma logistic_antimono:
  assumes "float_le x y" "x = PInf \<or> (\<exists>e. x = Fin e \<and> 0 \<le> e)" "y = PInf \<or> (\<exists>e. y = Fin e \<and> 0 \<le> e)"
  shows "float_le (logistic_of y) (logistic_of x)"
  using assms by (auto simp: frac_le)

lemma outlier_antimono:
  assumes "exp_law np_exp" "p \<le> q"
  shows "float_le (outlier_at np_exp q) (outlier_at np_exp p)"
proof -
  have "p / TEMPERATURE \<le> q / TEMPERATURE" using assms(2) by (simp add: TEMPERATURE_def)
  then show ?thesis
    unfolding outlier_at_eq [OF assms(1)] using assms(1) unfolding exp_law_def by (intro logistic_antimono) blast+
qed

lemma outlier_boundary: "exp_law np_exp \<Longrightarrow> outlier_at np_exp 0 = Fin (1 / 2)"
  by (simp add: outlier_at_eq) (simp add: exp_law_def)


text \<open>A rational stand-in for the exponential that keeps its law, and a model that gives probabilities.\<close>

definition demo_exp :: "py_float \<Rightarrow> py_float" where
  "demo_exp x = (case x of Fin q \<Rightarrow> Fin (if q \<le> 0 then 1 / (1 - q) else 1 + q) | PInf \<Rightarrow> PInf | NInf \<Rightarrow> Fin 0 | NaN \<Rightarrow> NaN)"

lemma demo_exp_law: "exp_law demo_exp"
proof -
  have "(if p \<le> 0 then 1 / (1 - p) else 1 + p) \<le> (if q \<le> 0 then 1 / (1 - q) else 1 + q)" if "p \<le> q" for p q :: rat
  proof (cases "p \<le> 0")
    case True
    then have "1 / (1 - p) \<le> 1" by (simp add: divide_le_eq)
    show ?thesis
    proof (cases "q \<le> 0")
      case True
      then show ?thesis using \<open>p \<le> 0\<close> that by (simp add: frac_le)
    next
      case False
      then have "1 \<le> 1 + q" by simp
      with \<open>1 / (1 - p) \<le> 1\<close> have "1 / (1 - p) \<le> 1 + q" by (rule order_trans)
      then show ?thesis using \<open>p \<le> 0\<close> False by (simp only: if_True if_False)
    qed
  qed (use that in auto)
  then show ?thesis by (auto simp: exp_law_def demo_exp_def)
qed

definition demo_model :: py_model where
  "demo_model = \<lparr>pm_raw = None, pm_self = \<lparr>es_predict_proba = Some (\<lambda>xs. [Fin (1 / 10), if xs = [] then NaN else Fin (9 / 10)]),
     es_decision_function = None, es_predict = (\<lambda>xs. ([1], [Fin 1]))\<rparr>\<rparr>"


end
