(* ===== verification/Feature_Engine.thy ===== *)
theory Feature_Engine
  imports Windows Tenancy "HOL-Library.List_Lexorder" "HOL-Library.Char_ord"
begin

text \<open>
  The input vector of a score (\<open>services/ml_service/api\<close>): the registry of feature transforms and what they may raise
  (\<open>extensions/__init__.py\<close>), the transforms the platform ships (\<open>extensions/builtins.py\<close>), the provider of windowed
  baselines with its cache (\<open>feature_engineering/baseline_provider.py\<close>), the kill-switch
  (\<open>feature_engineering/kill_switch.py\<close>) and the engine (\<open>feature_engineering/engine.py\<close>).

  A reading and a feature definition are parsed objects. The clock, the database and the power function of the C
  library are parameters. A float is its exact value, so no operation overflows. \<open>Raised TypeError\<close> stands for
  \<open>AttributeError\<close> too.
\<close>

section \<open>What a transform may raise\<close>

datatype feature_error =
    MissingSensors "string list"
  | InvalidFeature json
  | UnknownTransform "string list"
  | StatefulUnavailable
  | DividedByZero
  | Raised py_error

text \<open>\<open>isinstance(exc, FeatureRefused)\<close>.\<close>

fun feature_refused :: "feature_error \<Rightarrow> bool" where
  "feature_refused (MissingSensors _) = True"
| "feature_refused (InvalidFeature _) = True"
| "feature_refused (UnknownTransform _) = True"
| "feature_refused _ = False"

text \<open>\<open>_finite\<close>, and the number.\<close>

fun finite_value :: "json \<Rightarrow> rat option" where
  "finite_value (JInt i) = Some (of_int i)"
| "finite_value (JFloat (Fin q)) = Some q"
| "finite_value _ = None"

text \<open>A key of a dict: looking up a list or a dict raises, any other value that is no text is absent.\<close>

fun hashable_key :: "json \<Rightarrow> bool" where
  "hashable_key (JArr _) = False"
| "hashable_key (JObj _) = False"
| "hashable_key _ = True"

fun key_get :: "jobject \<Rightarrow> json \<Rightarrow> json" where
  "key_get d (JStr k) = jget d k"
| "key_get d _ = JNull"

text \<open>\<open>list(dict.fromkeys(xs))\<close>.\<close>

definition first_of_each :: "'a list \<Rightarrow> 'a list" where
  "first_of_each xs = rev (remdups (rev xs))"

text \<open>\<open>raise MissingSensors(names)\<close>: joining names that are not all texts raises instead.\<close>

definition raise_missing :: "json list \<Rightarrow> feature_error" where
  "raise_missing names =
     (if list_all (\<lambda>n. case n of JStr _ \<Rightarrow> True | _ \<Rightarrow> False) names then MissingSensors (first_of_each (map (\<lambda>n. case n of JStr s \<Rightarrow> s | _ \<Rightarrow> []) names))
      else Raised TypeError)"

definition sensor_value :: "jobject \<Rightarrow> json \<Rightarrow> feature_error + rat" where
  "sensor_value sensor_data sensor =
     (if \<not> hashable_key sensor then Inl (Raised TypeError)
      else case finite_value (key_get sensor_data sensor) of
             None \<Rightarrow> Inl (raise_missing [sensor])
           | Some q \<Rightarrow> Inr q)"

definition missing_sensors :: "jobject \<Rightarrow> json list \<Rightarrow> json list" where
  "missing_sensors sensor_data sensors = filter (\<lambda>s. finite_value (key_get sensor_data s) = None) sensors"

section \<open>The provider of baselines\<close>

type_synonym baseline_key = "string \<times> string \<times> json \<times> string"

record baseline =
  bl_mean :: py_float
  bl_std :: "py_float option"

text \<open>
  The cache with, of each entry, when it expires; the queries made so far, newest first, and the calls. Of the world:
  the monotonic clock at each call, and what each query is answered (None where it fails, finds no row or a row without
  a mean).
\<close>

record provider =
  pv_cache :: "(baseline_key, rat \<times> baseline option) od"
  pv_queries :: "baseline_key list"
  pv_calls :: nat

record feature_world =
  fw_clock :: "nat \<Rightarrow> rat"
  fw_read :: "nat \<Rightarrow> baseline_key \<Rightarrow> baseline option"
  fw_ttl :: rat
  fw_max :: int
  fw_pow :: "rat \<Rightarrow> py_float \<Rightarrow> py_float option"

definition cache_max_entries :: "feature_world \<Rightarrow> nat" where
  "cache_max_entries w = nat (max 1 (fw_max w))"

definition baseline_store ::
    "nat \<Rightarrow> (baseline_key, rat \<times> baseline option) od \<Rightarrow> baseline_key \<Rightarrow> rat \<times> baseline option \<Rightarrow> rat \<Rightarrow>
     (baseline_key, rat \<times> baseline option) od" where
  "baseline_store n cache key entry now =
     (let c = od_move_to_end (od_set cache key entry) key
      in if length c \<le> n then c else od_evict n (filter (\<lambda>(k, e). now < fst e) c))"

definition granularity_or_default :: "json \<Rightarrow> json" where
  "granularity_or_default g = (if truthy g then g else JStr DEFAULT_GRANULARITY)"

text \<open>\<open>compute_baseline\<close>: the value, or None; \<open>TypeError\<close> where the granularity cannot be looked up.\<close>

definition compute_baseline ::
    "feature_world \<Rightarrow> string \<Rightarrow> json \<Rightarrow> json \<Rightarrow> json \<Rightarrow> provider \<Rightarrow> baseline option result \<times> provider" where
  "compute_baseline w company_id equipment_id sensor granularity pv0 =
     (let pv = pv0 \<lparr>pv_calls := Suc (pv_calls pv0)\<rparr>
      in case granularity_or_default granularity of
           JStr g \<Rightarrow>
             (case od_get WINDOWS g of
                None \<Rightarrow> (Inr None, pv)
              | Some _ \<Rightarrow>
                  (case (schema_name company_id, uuid_parse (py_str equipment_id)) of
                     (Inr schema, Some n) \<Rightarrow>
                       let key = (schema, uuid_str n, sensor, g); now = fw_clock w (pv_calls pv0)
                       in (case od_get (pv_cache pv) key of
                             Some (expires_at, v) \<Rightarrow>
                               if now < expires_at then (Inr v, pv \<lparr>pv_cache := od_move_to_end (pv_cache pv) key\<rparr>)
                               else let v' = fw_read w (length (pv_queries pv)) key
                                    in (Inr v', pv \<lparr>pv_queries := key # pv_queries pv,
                                          pv_cache := baseline_store (cache_max_entries w) (pv_cache pv) key (now + fw_ttl w, v') now\<rparr>)
                           | None \<Rightarrow>
                               let v' = fw_read w (length (pv_queries pv)) key
                               in (Inr v', pv \<lparr>pv_queries := key # pv_queries pv,
                                     pv_cache := baseline_store (cache_max_entries w) (pv_cache pv) key (now + fw_ttl w, v') now\<rparr>))
                   | _ \<Rightarrow> (Inr None, pv)))
         | g \<Rightarrow> (if hashable_key g then Inr None else Inl TypeError, pv))"

section \<open>The transforms\<close>

text \<open>The context: whether there is a provider, the equipment and the tenant.\<close>

record transform_context =
  tc_provider :: bool
  tc_equipment :: json
  tc_company :: string

type_synonym transform_fn =
  "feature_world \<Rightarrow> jobject \<Rightarrow> jobject \<Rightarrow> transform_context \<Rightarrow> provider \<Rightarrow> (feature_error + py_float) \<times> provider"

definition param :: "jobject \<Rightarrow> string \<Rightarrow> json \<Rightarrow> feature_error + json" where
  "param t k dflt =
     (case jget_default t ''params'' (JObj []) of
        JObj d \<Rightarrow> Inr (jget_default d k dflt)
      | _ \<Rightarrow> Inl (Raised TypeError))"

definition transform_sensor :: "jobject \<Rightarrow> feature_error + json" where
  "transform_sensor t =
     (if truthy (jget t ''sensor'') then Inr (jget t ''sensor'') else Inl (InvalidFeature (jget t ''name'')))"

text \<open>The value of the sensor a definition names.\<close>

definition named_value :: "jobject \<Rightarrow> jobject \<Rightarrow> feature_error + rat" where
  "named_value t sensor_data = (case transform_sensor t of Inl e \<Rightarrow> Inl e | Inr s \<Rightarrow> sensor_value sensor_data s)"

definition identity :: transform_fn where
  "identity w t sensor_data ctx pv = (res_map Fin (named_value t sensor_data), pv)"

text \<open>A number, an \<open>int\<close> where it is one: \<open>x ** power\<close>.\<close>

definition power_int :: "rat \<Rightarrow> int \<Rightarrow> feature_error + py_float" where
  "power_int x k =
     (if 0 \<le> k then Inr (Fin (x ^ nat k))
      else if x = 0 then Inl DividedByZero
      else Inr (Fin (1 / x ^ nat (- k))))"

definition float_power :: "feature_world \<Rightarrow> rat \<Rightarrow> json \<Rightarrow> feature_error + py_float" where
  "float_power w x p =
     (case p of
        JInt k \<Rightarrow> power_int x k
      | JBool b \<Rightarrow> power_int x (of_bool b)
      | JFloat f \<Rightarrow> (case fw_pow w x f of None \<Rightarrow> Inl (Raised ValueError) | Some v \<Rightarrow> Inr v)
      | _ \<Rightarrow> Inl (Raised TypeError))"

definition polynomial :: transform_fn where
  "polynomial w t sensor_data ctx pv =
     (case param t ''power'' (JInt 2) of
        Inl e \<Rightarrow> (Inl e, pv)
      | Inr p \<Rightarrow> (case named_value t sensor_data of Inl e \<Rightarrow> Inl e | Inr x \<Rightarrow> float_power w x p, pv))"

text \<open>\<open>len\<close> and indexing of what is named: a list, or a text by its characters; a dict has no key \<open>0\<close>.\<close>

definition sensor_sequence :: "json \<Rightarrow> feature_error + json list" where
  "sensor_sequence j =
     (if \<not> truthy j then Inr []
      else case j of
             JArr xs \<Rightarrow> Inr xs
           | JStr s \<Rightarrow> Inr (map (\<lambda>c. JStr [c]) s)
           | JObj d \<Rightarrow> if length d < 2 then Inr [] else Inl (Raised KeyError)
           | _ \<Rightarrow> Inl (Raised TypeError))"

definition interaction_of :: "jobject \<Rightarrow> json \<Rightarrow> rat \<Rightarrow> rat \<Rightarrow> feature_error + py_float" where
  "interaction_of t operation a b =
     (if operation = JStr ''ratio'' then
        (if b + 1 / 10 ^ 8 = 0 then Inl DividedByZero else Inr (Fin (a / (b + 1 / 10 ^ 8))))
      else if operation = JStr ''difference'' then Inr (Fin (a - b))
      else if operation = JStr ''product'' then Inr (Fin (a * b))
      else if operation = JStr ''sum'' then Inr (Fin (a + b))
      else Inl (InvalidFeature (jget t ''name'')))"

definition interaction :: transform_fn where
  "interaction w t sensor_data ctx pv =
     (case param t ''operation'' (JStr ''product'') of
        Inl e \<Rightarrow> (Inl e, pv)
      | Inr operation \<Rightarrow>
          (case sensor_sequence (jget t ''sensors'') of
             Inl e \<Rightarrow> (Inl e, pv)
           | Inr (s1 # s2 # _) \<Rightarrow>
               (case (sensor_value sensor_data s1, sensor_value sensor_data s2) of
                  (Inl e, _) \<Rightarrow> (Inl e, pv)
                | (_, Inl e) \<Rightarrow> (Inl e, pv)
                | (Inr a, Inr b) \<Rightarrow> (interaction_of t operation a b, pv))
           | Inr _ \<Rightarrow> (Inl (InvalidFeature (jget t ''name'')), pv)))"

fun float_number :: "json \<Rightarrow> py_float option" where
  "float_number (JBool b) = Some (Fin (of_bool b))"
| "float_number (JInt i) = Some (Fin (of_int i))"
| "float_number (JFloat x) = Some x"
| "float_number _ = None"

fun minus_float :: "rat \<Rightarrow> py_float \<Rightarrow> py_float" where
  "minus_float x (Fin y) = Fin (x - y)"
| "minus_float x PInf = NInf"
| "minus_float x NInf = PInf"
| "minus_float x NaN = NaN"

definition deviation :: transform_fn where
  "deviation w t sensor_data ctx pv =
     (case param t ''baseline'' (JFloat (Fin 0)) of
        Inl e \<Rightarrow> (Inl e, pv)
      | Inr b \<Rightarrow>
          (case named_value t sensor_data of
             Inl e \<Rightarrow> Inl e
           | Inr x \<Rightarrow> (case float_number b of None \<Rightarrow> Inl (Raised TypeError) | Some y \<Rightarrow> Inr (minus_float x y)), pv))"

definition LEGACY_STAT_TYPES :: "(string \<times> string) list" where
  "LEGACY_STAT_TYPES = [(''deviation_from_run_mean'', ''deviation_from_window_mean'')]"

definition STAT_TYPES :: "string list" where
  "STAT_TYPES = [''deviation_from_window_mean'', ''window_mean'', ''window_std'']"

text \<open>The statistic a definition selects; a list or a dict cannot be looked up among the legacy names.\<close>

definition stat_type_of :: "jobject \<Rightarrow> json \<Rightarrow> feature_error + string" where
  "stat_type_of t v =
     (case v of
        JStr s \<Rightarrow>
          let s' = (case map_of LEGACY_STAT_TYPES s of Some c \<Rightarrow> c | None \<Rightarrow> s)
          in if s' \<in> set STAT_TYPES then Inr s' else Inl (InvalidFeature (jget t ''name''))
      | _ \<Rightarrow> Inl (if hashable_key v then InvalidFeature (jget t ''name'') else Raised TypeError))"

definition stat_value :: "string \<Rightarrow> rat \<Rightarrow> baseline \<Rightarrow> py_float" where
  "stat_value stat_type current b =
     (if stat_type = ''window_mean'' then bl_mean b
      else if stat_type = ''window_std'' then (case bl_std b of Some s \<Rightarrow> s | None \<Rightarrow> Fin 0)
      else minus_float current (bl_mean b))"

definition statistical_read ::
    "feature_world \<Rightarrow> jobject \<Rightarrow> json \<Rightarrow> string \<Rightarrow> rat \<Rightarrow> transform_context \<Rightarrow> provider \<Rightarrow> (feature_error + py_float) \<times> provider" where
  "statistical_read w t sensor stat_type current ctx pv =
     (if \<not> (tc_provider ctx \<and> truthy (tc_equipment ctx) \<and> tc_company ctx \<noteq> []) then (Inl StatefulUnavailable, pv)
      else case param t ''granularity'' JNull of
             Inl e \<Rightarrow> (Inl e, pv)
           | Inr g \<Rightarrow>
               (case compute_baseline w (tc_company ctx) (tc_equipment ctx) sensor g pv of
                  (Inr (Some b), pv') \<Rightarrow> (Inr (stat_value stat_type current b), pv')
                | (_, pv') \<Rightarrow> (Inl StatefulUnavailable, pv')))"

definition statistical :: transform_fn where
  "statistical w t sensor_data ctx pv =
     (case transform_sensor t of
        Inl e \<Rightarrow> (Inl e, pv)
      | Inr sensor \<Rightarrow>
          (case param t ''stat_type'' JNull of
             Inl e \<Rightarrow> (Inl e, pv)
           | Inr v \<Rightarrow>
               (case stat_type_of t v of
                  Inl e \<Rightarrow> (Inl e, pv)
                | Inr stat_type \<Rightarrow>
                    if stat_type = ''deviation_from_window_mean'' then
                      (case sensor_value sensor_data sensor of
                         Inl e \<Rightarrow> (Inl e, pv)
                       | Inr current \<Rightarrow> statistical_read w t sensor stat_type current ctx pv)
                    else statistical_read w t sensor stat_type 0 ctx pv)))"

definition rolling_stat :: transform_fn where
  "rolling_stat w t sensor_data ctx pv = (Inl (InvalidFeature (jget t ''name'')), pv)"

section \<open>The registry of transforms\<close>

text \<open>A transform: which function it is, the function, and its tags.\<close>

record transform =
  tr_id :: nat
  tr_fn :: transform_fn
  tr_stateful :: bool
  tr_neutral :: rat

type_synonym transforms = "(string, transform) od"

definition register_transform :: "transforms \<Rightarrow> string \<Rightarrow> transform \<Rightarrow> transforms result" where
  "register_transform reg name tr =
     (case od_get reg name of
        Some old \<Rightarrow> if tr_id old \<noteq> tr_id tr then Inl ValueError else Inr (od_set reg name tr)
      | None \<Rightarrow> Inr (od_set reg name tr))"

definition get_transform :: "transforms \<Rightarrow> json \<Rightarrow> transform option" where
  "get_transform reg name = (case name of JStr s \<Rightarrow> od_get reg s | _ \<Rightarrow> None)"

definition is_stateful :: "transforms \<Rightarrow> json \<Rightarrow> bool" where
  "is_stateful reg name = (case get_transform reg name of None \<Rightarrow> False | Some tr \<Rightarrow> tr_stateful tr)"

definition neutral_value :: "transforms \<Rightarrow> json \<Rightarrow> rat" where
  "neutral_value reg name = (case get_transform reg name of None \<Rightarrow> 0 | Some tr \<Rightarrow> tr_neutral tr)"

definition builtin_transforms :: transforms where
  "builtin_transforms =
     [(''identity'', \<lparr>tr_id = 0, tr_fn = identity, tr_stateful = False, tr_neutral = 0\<rparr>),
      (''polynomial'', \<lparr>tr_id = 1, tr_fn = polynomial, tr_stateful = False, tr_neutral = 0\<rparr>),
      (''interaction'', \<lparr>tr_id = 2, tr_fn = interaction, tr_stateful = False, tr_neutral = 0\<rparr>),
      (''deviation'', \<lparr>tr_id = 3, tr_fn = deviation, tr_stateful = False, tr_neutral = 0\<rparr>),
      (''statistical'', \<lparr>tr_id = 4, tr_fn = statistical, tr_stateful = True, tr_neutral = 0\<rparr>),
      (''rolling_stat'', \<lparr>tr_id = 5, tr_fn = rolling_stat, tr_stateful = True, tr_neutral = 0\<rparr>)]"

section \<open>The kill-switch\<close>

text \<open>What reading the flag gives: the query failed, there is no row, or its value.\<close>

datatype switch_reading = QueryFailed | RowAbsent | RowValue json

record switch =
  sw_value :: bool
  sw_expires_at :: rat
  sw_ever_read :: bool

definition new_switch :: switch where
  "new_switch = \<lparr>sw_value = True, sw_expires_at = 0, sw_ever_read = False\<rparr>"

definition strip_char :: "char \<Rightarrow> string \<Rightarrow> string" where
  "strip_char c s = rev (dropWhile (\<lambda>x. x = c) (rev (dropWhile (\<lambda>x. x = c) s)))"

definition switch_read :: "switch_reading \<Rightarrow> bool option" where
  "switch_read r =
     (case r of
        QueryFailed \<Rightarrow> None
      | RowAbsent \<Rightarrow> Some True
      | RowValue JNull \<Rightarrow> Some True
      | RowValue (JBool b) \<Rightarrow> Some b
      | RowValue (JStr s) \<Rightarrow>
          (let v = py_lower (strip_char (CHR 0x22) (py_strip s))
           in if v = ''true'' \<or> v = ''false'' then Some (v = ''true'') else Some True)
      | RowValue _ \<Rightarrow> Some True)"

definition switch_enabled :: "rat \<Rightarrow> rat \<Rightarrow> switch_reading \<Rightarrow> switch \<Rightarrow> bool \<times> switch" where
  "switch_enabled ttl now r sw =
     (if now < sw_expires_at sw then (sw_value sw, sw)
      else case switch_read r of
             None \<Rightarrow> (sw_value sw, sw \<lparr>sw_expires_at := now + ttl\<rparr>)
           | Some v \<Rightarrow> (v, \<lparr>sw_value = v, sw_expires_at = now + ttl, sw_ever_read = True\<rparr>))"

section \<open>The engine\<close>

record feature_config =
  fc_base_sensors :: "string list"
  fc_transformations :: "jobject list"

record feature_engine =
  en_transformations :: "jobject list"
  en_names :: "json list"
  en_required :: "json list"
  en_ctx :: transform_context

text \<open>\<open>for s in (t.get('sensors') or [])\<close>: a text gives its characters, a dict its keys.\<close>

definition iterated :: "json \<Rightarrow> json list option" where
  "iterated j =
     (if \<not> truthy j then Some []
      else case j of
             JArr xs \<Rightarrow> Some xs
           | JStr s \<Rightarrow> Some (map (\<lambda>c. JStr [c]) s)
           | JObj d \<Rightarrow> Some (map (JStr \<circ> fst) d)
           | _ \<Rightarrow> None)"

definition named_by :: "jobject \<Rightarrow> json list option" where
  "named_by t =
     map_option (\<lambda>xs. (if truthy (jget t ''sensor'') then [jget t ''sensor''] else []) @ filter truthy xs) (iterated (jget t ''sensors''))"

definition new_engine :: "transforms \<Rightarrow> feature_config \<Rightarrow> transform_context \<Rightarrow> feature_error + feature_engine" where
  "new_engine reg cfg ctx =
     (let ts = fc_transformations cfg
      in if list_ex (\<lambda>t. map_of t ''name'' = None) ts then Inl (Raised KeyError)
         else if list_ex (\<lambda>t. named_by t = None) ts then Inl (Raised TypeError)
         else let named = map JStr (fc_base_sensors cfg) @ concat (map (\<lambda>t. the (named_by t)) ts)
              in if list_ex (\<lambda>s. \<not> hashable_key s) named then Inl (Raised TypeError)
                 else if list_ex (\<lambda>t. \<not> hashable_key (jget t ''type'')) ts then Inl (Raised TypeError)
                 else let unknown = filter (\<lambda>t. get_transform reg (jget t ''type'') = None) ts
                      in if unknown \<noteq> [] then Inl (UnknownTransform (sort (remdups (map (\<lambda>t. py_str (jget t ''type'')) unknown))))
                         else Inr \<lparr>en_transformations = ts, en_names = map (\<lambda>t. jget t ''name'') ts,
                                   en_required = first_of_each named, en_ctx = ctx\<rparr>)"

text \<open>\<open>_apply_transformation\<close>: the value, whether the switch filled the slot, and the provider.\<close>

definition apply_transformation ::
    "feature_world \<Rightarrow> transforms \<Rightarrow> transform_context \<Rightarrow> jobject \<Rightarrow> bool \<Rightarrow> jobject \<Rightarrow> provider \<Rightarrow>
     (feature_error + py_float \<times> bool) \<times> provider" where
  "apply_transformation w reg ctx sensor_data enabled t pv =
     (let ty = jget t ''type''
      in if \<not> enabled \<and> is_stateful reg ty then (Inr (Fin (neutral_value reg ty), True), pv)
         else case get_transform reg ty of
                None \<Rightarrow> (Inl (Raised TypeError), pv)
              | Some tr \<Rightarrow> (case tr_fn tr w t sensor_data ctx pv of
                    (Inl e, pv') \<Rightarrow> (Inl e, pv')
                  | (Inr v, pv') \<Rightarrow> (Inr (v, False), pv')))"

record feature_vector =
  fv_features :: "py_float list"
  fv_neutralized :: "json list"
  fv_unavailable :: "json list"

fun fill_slots ::
    "feature_world \<Rightarrow> transforms \<Rightarrow> transform_context \<Rightarrow> jobject \<Rightarrow> bool \<Rightarrow> jobject list \<Rightarrow> feature_vector \<Rightarrow> provider \<Rightarrow>
     (feature_error + feature_vector) \<times> provider" where
  "fill_slots w reg ctx sensor_data enabled [] acc pv = (Inr acc, pv)"
| "fill_slots w reg ctx sensor_data enabled (t # ts) acc pv =
     (case apply_transformation w reg ctx sensor_data enabled t pv of
        (Inr (v, neutralized), pv') \<Rightarrow>
          fill_slots w reg ctx sensor_data enabled ts
            (acc \<lparr>fv_features := fv_features acc @ [v],
                  fv_neutralized := fv_neutralized acc @ (if neutralized then [jget t ''name''] else [])\<rparr>) pv'
      | (Inl StatefulUnavailable, pv') \<Rightarrow>
          if \<not> is_stateful reg (jget t ''type'') then (Inl StatefulUnavailable, pv')
          else fill_slots w reg ctx sensor_data enabled ts
                 (acc \<lparr>fv_features := fv_features acc @ [Fin (neutral_value reg (jget t ''type''))],
                       fv_unavailable := fv_unavailable acc @ [jget t ''name'']\<rparr>) pv'
      | (Inl e, pv') \<Rightarrow> (Inl e, pv'))"

text \<open>\<open>", ".join(neutralized[:5])\<close> of the warning fails on a name that is no text.\<close>

fun no_text :: "json \<Rightarrow> bool" where
  "no_text (JStr s) \<longleftrightarrow> False"
| "no_text _ \<longleftrightarrow> True"

definition engine_transform ::
    "feature_world \<Rightarrow> transforms \<Rightarrow> feature_engine \<Rightarrow> bool \<Rightarrow> jobject \<Rightarrow> provider \<Rightarrow> (feature_error + feature_vector) \<times> provider" where
  "engine_transform w reg en enabled sensor_data pv =
     (case missing_sensors sensor_data (en_required en) of
        [] \<Rightarrow> (case fill_slots w reg (en_ctx en) sensor_data enabled (en_transformations en)
                      \<lparr>fv_features = [], fv_neutralized = [], fv_unavailable = []\<rparr> pv of
                  (Inl e, pv') \<Rightarrow> (Inl e, pv')
                | (Inr fv, pv') \<Rightarrow> (if list_ex no_text (take 5 (fv_neutralized fv)) then Inl (Raised TypeError) else Inr fv, pv'))
      | missing \<Rightarrow> (Inl (raise_missing missing), pv))"

section \<open>The slots\<close>

text \<open>How a slot came by its value.\<close>

definition slot_from ::
    "feature_world \<Rightarrow> transforms \<Rightarrow> transform_context \<Rightarrow> jobject \<Rightarrow> bool \<Rightarrow> jobject \<Rightarrow> py_float \<Rightarrow> json list \<Rightarrow> json list \<Rightarrow> bool" where
  "slot_from w reg ctx sensor_data enabled t v neutralized unavailable \<longleftrightarrow>
     (\<exists>tr pv pv'. get_transform reg (jget t ''type'') = Some tr \<and> (enabled \<or> \<not> tr_stateful tr) \<and>
        tr_fn tr w t sensor_data ctx pv = (Inr v, pv')) \<or>
     (is_stateful reg (jget t ''type'') \<and> v = Fin (neutral_value reg (jget t ''type'')) \<and>
        jget t ''name'' \<in> set (if enabled then unavailable else neutralized))"

lemma slot_from_mono:
  "slot_from w reg ctx sd enabled t v n u \<Longrightarrow> set n \<subseteq> set n' \<Longrightarrow> set u \<subseteq> set u' \<Longrightarrow> slot_from w reg ctx sd enabled t v n' u'"
  unfolding slot_from_def by (auto split: if_splits)

lemma apply_transformation_cases:
  assumes "apply_transformation w reg ctx sd enabled t pv = (r, pv')"
  shows "(\<exists>v. r = Inr (v, True) \<and> \<not> enabled \<and> is_stateful reg (jget t ''type'') \<and> v = Fin (neutral_value reg (jget t ''type'')) \<and> pv' = pv) \<or>
    (\<exists>tr v. r = Inr (v, False) \<and> get_transform reg (jget t ''type'') = Some tr \<and> (enabled \<or> \<not> tr_stateful tr) \<and> tr_fn tr w t sd ctx pv = (Inr v, pv')) \<or>
    (\<exists>e. r = Inl e \<and> (enabled \<or> \<not> is_stateful reg (jget t ''type'')))"
  using assms by (auto simp: apply_transformation_def Let_def is_stateful_def split: if_splits option.splits prod.splits sum.splits)

text \<open>What filling the slots adds to what is there.\<close>

definition slots_ok where
  "slots_ok w reg ctx sd enabled ts acc fv \<longleftrightarrow>
     (\<exists>vs n u. fv = \<lparr>fv_features = fv_features acc @ vs, fv_neutralized = fv_neutralized acc @ n, fv_unavailable = fv_unavailable acc @ u\<rparr> \<and>
        length vs = length ts \<and> (\<forall>i < length ts. slot_from w reg ctx sd enabled (ts ! i) (vs ! i) n u) \<and>
        n = (if enabled then [] else map (\<lambda>t. jget t ''name'') (filter (\<lambda>t. is_stateful reg (jget t ''type'')) ts)) \<and>
        (\<not> enabled \<longrightarrow> u = []))"

lemma slots_ok_cons:
  assumes ok: "slots_ok w reg ctx sd enabled ts \<lparr>fv_features = fv_features acc @ [v], fv_neutralized = fv_neutralized acc @ n, fv_unavailable = fv_unavailable acc @ u\<rparr> fv"
    and slot: "slot_from w reg ctx sd enabled t v n u"
    and n: "n = (if \<not> enabled \<and> is_stateful reg (jget t ''type'') then [jget t ''name''] else [])" and u: "\<not> enabled \<longrightarrow> u = []"
  shows "slots_ok w reg ctx sd enabled (t # ts) acc fv"
proof -
  obtain vs n' u' where fv: "fv = \<lparr>fv_features = fv_features acc @ v # vs, fv_neutralized = fv_neutralized acc @ n @ n', fv_unavailable = fv_unavailable acc @ u @ u'\<rparr>"
    and vs: "length vs = length ts" "\<forall>i < length ts. slot_from w reg ctx sd enabled (ts ! i) (vs ! i) n' u'"
    and n': "n' = (if enabled then [] else map (\<lambda>t. jget t ''name'') (filter (\<lambda>t. is_stateful reg (jget t ''type'')) ts))"
    and u': "\<not> enabled \<longrightarrow> u' = []"
    using ok unfolding slots_ok_def by auto
  have "slot_from w reg ctx sd enabled ((t # ts) ! i) ((v # vs) ! i) (n @ n') (u @ u')" if "i < length (t # ts)" for i
  proof (cases i)
    case 0
    then show ?thesis using slot by (auto intro: slot_from_mono)
  next
    case (Suc j)
    then have "slot_from w reg ctx sd enabled (ts ! j) (vs ! j) n' u'" using vs(2) that by simp
    then show ?thesis using Suc by (auto intro: slot_from_mono)
  qed
  then show ?thesis unfolding slots_ok_def using fv vs(1) n n' u u'
    by (intro exI [of _ "v # vs"] exI [of _ "n @ n'"] exI [of _ "u @ u'"]) auto
qed

lemma fill_slots_ok:
  "fill_slots w reg ctx sd enabled ts acc pv = (Inr fv, pv') \<Longrightarrow> slots_ok w reg ctx sd enabled ts acc fv"
proof (induction ts arbitrary: acc pv)
  case Nil
  then have "acc = \<lparr>fv_features = fv_features fv @ [], fv_neutralized = fv_neutralized fv @ [], fv_unavailable = fv_unavailable fv @ []\<rparr>" by simp
  then show ?case using Nil unfolding slots_ok_def by (intro exI [of _ "[]"]) simp
next
  case (Cons t ts)
  obtain r pv1 where a: "apply_transformation w reg ctx sd enabled t pv = (r, pv1)" by force
  note cases = apply_transformation_cases [OF a]
  show ?case
  proof (cases r)
    case (Inr vb)
    then obtain v b where r: "r = Inr (v, b)" by (cases vb) auto
    let ?acc = "\<lparr>fv_features = fv_features acc @ [v], fv_neutralized = fv_neutralized acc @ (if b then [jget t ''name''] else []),
        fv_unavailable = fv_unavailable acc @ []\<rparr>"
    have "fill_slots w reg ctx sd enabled ts ?acc pv1 = (Inr fv, pv')" using Cons.prems a r by (cases acc) (cases b; simp)
    then have ok: "slots_ok w reg ctx sd enabled ts ?acc fv" by (rule Cons.IH)
    have b: "b \<longleftrightarrow> \<not> enabled \<and> is_stateful reg (jget t ''type'')" using cases r by (auto simp: is_stateful_def)
    have "slot_from w reg ctx sd enabled t v (if b then [jget t ''name''] else []) []"
      using cases r unfolding slot_from_def by auto
    then show ?thesis using slots_ok_cons [OF ok] b by auto
  next
    case (Inl e)
    then have e: "e = StatefulUnavailable" "is_stateful reg (jget t ''type'')"
      using Cons.prems a by (auto split: feature_error.splits if_splits)
    then have en: "enabled" using cases Inl by auto
    let ?acc = "\<lparr>fv_features = fv_features acc @ [Fin (neutral_value reg (jget t ''type''))], fv_neutralized = fv_neutralized acc @ [],
        fv_unavailable = fv_unavailable acc @ [jget t ''name'']\<rparr>"
    have "fill_slots w reg ctx sd enabled ts ?acc pv1 = (Inr fv, pv')" using Cons.prems a Inl e by (cases acc) simp
    then have ok: "slots_ok w reg ctx sd enabled ts ?acc fv" by (rule Cons.IH)
    have "slot_from w reg ctx sd enabled t (Fin (neutral_value reg (jget t ''type''))) [] [jget t ''name'']"
      using e en unfolding slot_from_def by simp
    then show ?thesis using slots_ok_cons [OF ok] en by simp
  qed
qed

text \<open>With the switch off, no transform the platform ships touches the provider.\<close>

lemma builtin_stateless:
  assumes "get_transform builtin_transforms ty = Some tr" "\<not> tr_stateful tr"
  shows "snd (tr_fn tr w t sd ctx pv) = pv"
proof -
  have "tr_fn tr = identity \<or> tr_fn tr = polynomial \<or> tr_fn tr = interaction \<or> tr_fn tr = deviation"
    using assms by (auto simp: get_transform_def builtin_transforms_def split: json.splits if_splits)
  then show ?thesis
    by (auto simp: identity_def polynomial_def interaction_def deviation_def split: sum.splits list.splits)
qed

lemma fill_slots_quiet:
  assumes quiet: "\<And>ty tr t pv. get_transform reg ty = Some tr \<Longrightarrow> \<not> tr_stateful tr \<Longrightarrow> snd (tr_fn tr w t sd ctx pv) = pv"
  shows "fill_slots w reg ctx sd False ts acc pv = (r, pv') \<Longrightarrow> pv' = pv"
proof (induction ts arbitrary: acc pv)
  case (Cons t ts)
  obtain r1 pv1 where a: "apply_transformation w reg ctx sd False t pv = (r1, pv1)" by force
  have "pv1 = pv"
  proof (cases "is_stateful reg (jget t ''type'')")
    case False
    show ?thesis
    proof (cases "get_transform reg (jget t ''type'')")
      case (Some tr)
      then have "\<not> tr_stateful tr" using False by (simp add: is_stateful_def)
      then have "snd (tr_fn tr w t sd ctx pv) = pv" using quiet Some by blast
      then show ?thesis using a False Some by (auto simp: apply_transformation_def split: prod.splits sum.splits)
    qed (use a False in \<open>auto simp: apply_transformation_def\<close>)
  qed (use a in \<open>auto simp: apply_transformation_def\<close>)
  then show ?case using Cons a by (auto split: sum.splits prod.splits feature_error.splits if_splits)
qed simp

section \<open>An honest input vector\<close>

lemma first_of_each_set [simp]: "set (first_of_each xs) = set xs"
  by (simp add: first_of_each_def)

lemma missing_none: "missing_sensors sd names = [] \<longleftrightarrow> (\<forall>s \<in> set names. finite_value (key_get sd s) \<noteq> None)"
  by (auto simp: missing_sensors_def filter_empty_conv)

text \<open>What the vector is, for the proofs that build on it.\<close>

lemma engine_vector_honest:
  assumes "new_engine reg cfg ctx = Inr en" "engine_transform w reg en enabled sensor_data pv = (Inr fv, pv')"
  shows "(\<forall>s \<in> set (fc_base_sensors cfg). finite_value (jget sensor_data s) \<noteq> None) \<and>
    (\<forall>t \<in> set (fc_transformations cfg). \<forall>s \<in> set (the (named_by t)). finite_value (key_get sensor_data s) \<noteq> None) \<and>
    length (fv_features fv) = length (fc_transformations cfg) \<and>
    (\<forall>i < length (fc_transformations cfg).
       slot_from w reg ctx sensor_data enabled (fc_transformations cfg ! i) (fv_features fv ! i) (fv_neutralized fv) (fv_unavailable fv)) \<and>
    fv_neutralized fv = (if enabled then [] else map (\<lambda>t. jget t ''name'') (filter (\<lambda>t. is_stateful reg (jget t ''type'')) (fc_transformations cfg))) \<and>
    (\<not> enabled \<longrightarrow> fv_unavailable fv = [] \<and> (reg = builtin_transforms \<longrightarrow> pv' = pv))"
proof -
  have en: "en_transformations en = fc_transformations cfg" "en_ctx en = ctx"
    "set (en_required en) = JStr ` set (fc_base_sensors cfg) \<union> (\<Union>t \<in> set (fc_transformations cfg). set (the (named_by t)))"
    using assms(1) by (auto simp: new_engine_def Let_def split: if_splits)
  have miss: "missing_sensors sensor_data (en_required en) = []"
    using assms(2) by (auto simp: engine_transform_def split: list.splits)
  then have f: "fill_slots w reg ctx sensor_data enabled (fc_transformations cfg)
      \<lparr>fv_features = [], fv_neutralized = [], fv_unavailable = []\<rparr> pv = (Inr fv, pv')"
    using assms(2) by (auto simp: engine_transform_def en split: prod.splits sum.splits if_splits)
  have fin: "\<forall>s \<in> set (en_required en). finite_value (key_get sensor_data s) \<noteq> None" using miss unfolding missing_none .
  have quiet: "pv' = pv" if "\<not> enabled" "reg = builtin_transforms"
  proof (rule fill_slots_quiet)
    show "fill_slots w builtin_transforms ctx sensor_data False (fc_transformations cfg)
      \<lparr>fv_features = [], fv_neutralized = [], fv_unavailable = []\<rparr> pv = (Inr fv, pv')" using f that by simp
  qed (rule builtin_stateless)
  have ok: "slots_ok w reg ctx sensor_data enabled (fc_transformations cfg) \<lparr>fv_features = [], fv_neutralized = [], fv_unavailable = []\<rparr> fv"
    by (rule fill_slots_ok [OF f])
  have base: "\<forall>s \<in> set (fc_base_sensors cfg). finite_value (jget sensor_data s) \<noteq> None"
  proof
    fix s
    assume "s \<in> set (fc_base_sensors cfg)"
    then have "JStr s \<in> set (en_required en)" unfolding en(3) by blast
    then show "finite_value (jget sensor_data s) \<noteq> None" using fin by fastforce
  qed
  have named: "\<forall>t \<in> set (fc_transformations cfg). \<forall>s \<in> set (the (named_by t)). finite_value (key_get sensor_data s) \<noteq> None"
    using fin unfolding en(3) by blast
  show ?thesis using ok base named quiet unfolding slots_ok_def by auto
qed

text \<open>
  C36. A vector is built only from a complete reading: every sensor of the configuration, and every sensor one of its
  features names, is in the reading as a finite number. It has one slot for each feature, in order. Each slot holds
  what the feature's own registered transform returned, or the neutral value of a stateful type: with the switch off
  exactly the stateful slots, each named as neutralized, and with it on only a slot whose aggregate could not be read,
  named as unavailable; nothing else is substituted. With the switch off the transforms the platform ships make no
  query and leave the cache of baselines alone.
\<close>

theorem feature_vector_honest:
  assumes "new_engine reg cfg ctx = Inr en" "engine_transform w reg en enabled sensor_data pv = (Inr fv, pv')"
  shows "(\<forall>s \<in> set (fc_base_sensors cfg). finite_value (jget sensor_data s) \<noteq> None) \<and>
    (\<forall>t \<in> set (fc_transformations cfg). \<forall>s \<in> set (the (named_by t)). finite_value (key_get sensor_data s) \<noteq> None) \<and>
    length (fv_features fv) = length (fc_transformations cfg) \<and>
    (\<forall>i < length (fc_transformations cfg).
       slot_from w reg ctx sensor_data enabled (fc_transformations cfg ! i) (fv_features fv ! i) (fv_neutralized fv) (fv_unavailable fv)) \<and>
    fv_neutralized fv = (if enabled then [] else map (\<lambda>t. jget t ''name'') (filter (\<lambda>t. is_stateful reg (jget t ''type'')) (fc_transformations cfg))) \<and>
    (\<not> enabled \<longrightarrow> fv_unavailable fv = [] \<and> (reg = builtin_transforms \<longrightarrow> pv' = pv))"
  by (rule engine_vector_honest [OF assms])

text \<open>A configuration with a plain and a stateful feature, a store that answers, and a complete reading.\<close>

definition demo_config :: feature_config where
  "demo_config = \<lparr>fc_base_sensors = [''temp''], fc_transformations =
     [[(''name'', JStr ''temp''), (''type'', JStr ''identity''), (''sensor'', JStr ''temp'')],
      [(''name'', JStr ''temp_dev''), (''type'', JStr ''statistical''), (''sensor'', JStr ''temp''),
       (''params'', JObj [(''stat_type'', JStr ''deviation_from_run_mean'')])]]\<rparr>"

definition demo_world :: feature_world where
  "demo_world = \<lparr>fw_clock = of_nat, fw_read = (\<lambda>n key. Some \<lparr>bl_mean = Fin 70, bl_std = None\<rparr>), fw_ttl = 5, fw_max = 2, fw_pow = (\<lambda>_ _. None)\<rparr>"

definition demo_context :: transform_context where
  "demo_context = \<lparr>tc_provider = True, tc_equipment = JStr uuid_b, tc_company = uuid_a\<rparr>"

definition demo_provider :: provider where
  "demo_provider = \<lparr>pv_cache = [], pv_queries = [], pv_calls = 0\<rparr>"

definition demo_engine :: feature_engine where
  "demo_engine = (case new_engine builtin_transforms demo_config demo_context of Inr en \<Rightarrow> en | Inl _ \<Rightarrow> undefined)"

lemma demo_engine: "new_engine builtin_transforms demo_config demo_context = Inr demo_engine"
  unfolding demo_engine_def by code_simp

lemma demo_on: "fst (engine_transform demo_world builtin_transforms demo_engine True [(''temp'', JInt 72)] demo_provider) =
    Inr \<lparr>fv_features = [Fin 72, Fin 2], fv_neutralized = [], fv_unavailable = []\<rparr>"
  by code_simp

lemma demo_off: "fst (engine_transform demo_world builtin_transforms demo_engine False [(''temp'', JInt 72)] demo_provider) =
    Inr \<lparr>fv_features = [Fin 72, Fin 0], fv_neutralized = [JStr ''temp_dev''], fv_unavailable = []\<rparr>"
  by code_simp

theorem feature_vector_honest_witness:
  "snd (engine_transform demo_world builtin_transforms demo_engine False [(''temp'', JInt 72)] demo_provider) = demo_provider \<and>
   finite_value (jget [(''temp'', JInt 72)] ''temp'') \<noteq> None \<and> length [Fin 72, Fin 2] = length (fc_transformations demo_config) \<and>
   slot_from demo_world builtin_transforms demo_context [(''temp'', JInt 72)] True (fc_transformations demo_config ! 1) (Fin 2) [] []"
proof -
  obtain pv' where off: "engine_transform demo_world builtin_transforms demo_engine False [(''temp'', JInt 72)] demo_provider =
      (Inr \<lparr>fv_features = [Fin 72, Fin 0], fv_neutralized = [JStr ''temp_dev''], fv_unavailable = []\<rparr>, pv')"
    using demo_off by (metis prod.collapse)
  obtain pv1 where on: "engine_transform demo_world builtin_transforms demo_engine True [(''temp'', JInt 72)] demo_provider =
      (Inr \<lparr>fv_features = [Fin 72, Fin 2], fv_neutralized = [], fv_unavailable = []\<rparr>, pv1)"
    using demo_on by (metis prod.collapse)
  have v: "pv' = demo_provider" using feature_vector_honest [OF demo_engine off] by simp
  have f: "finite_value (jget [(''temp'', JInt 72)] ''temp'') \<noteq> None"
    using feature_vector_honest [OF demo_engine off] by (simp add: demo_config_def)
  have n: "length [Fin 72, Fin 2] = length (fc_transformations demo_config)"
    using feature_vector_honest [OF demo_engine on] by simp
  have "\<forall>i < length (fc_transformations demo_config). slot_from demo_world builtin_transforms demo_context [(''temp'', JInt 72)] True
      (fc_transformations demo_config ! i) ([Fin 72, Fin 2] ! i) [] []"
    using feature_vector_honest [OF demo_engine on] by simp
  moreover have "1 < length (fc_transformations demo_config)" using n [symmetric] by simp
  ultimately have "slot_from demo_world builtin_transforms demo_context [(''temp'', JInt 72)] True (fc_transformations demo_config ! 1) ([Fin 72, Fin 2] ! 1) [] []"
    by blast
  then show ?thesis using off n v f by simp
qed

section \<open>The switch\<close>

text \<open>A run of calls, each with the clock and what the query would be answered; the answers, the newest first.\<close>

fun switch_calls :: "rat \<Rightarrow> (rat \<times> switch_reading) list \<Rightarrow> switch \<Rightarrow> bool list \<times> switch" where
  "switch_calls ttl [] sw = ([], sw)"
| "switch_calls ttl (c # cs) sw =
     (case switch_calls ttl cs sw of
        (answers, sw') \<Rightarrow> (case switch_enabled ttl (fst c) (snd c) sw' of (a, sw'') \<Rightarrow> (a # answers, sw'')))"

text \<open>The readings the run made, the newest first: a call within the lifetime of the last one makes none.\<close>

fun switch_queries :: "rat \<Rightarrow> (rat \<times> switch_reading) list \<Rightarrow> switch \<Rightarrow> (rat \<times> switch_reading) list" where
  "switch_queries ttl [] sw = []"
| "switch_queries ttl (c # cs) sw =
     (if fst c < sw_expires_at (snd (switch_calls ttl cs sw)) then switch_queries ttl cs sw else c # switch_queries ttl cs sw)"

fun last_read :: "(rat \<times> switch_reading) list \<Rightarrow> bool" where
  "last_read [] = True"
| "last_read (q # qs) = (case switch_read (snd q) of Some v \<Rightarrow> v | None \<Rightarrow> last_read qs)"

lemma switch_calls_value:
  "sw_value (snd (switch_calls ttl cs new_switch)) = last_read (switch_queries ttl cs new_switch) \<and>
   (cs \<noteq> [] \<longrightarrow> hd (fst (switch_calls ttl cs new_switch)) = sw_value (snd (switch_calls ttl cs new_switch)))"
proof (induction cs)
  case Nil
  show ?case by (simp add: new_switch_def)
next
  case (Cons c cs)
  then show ?case by (auto simp: switch_enabled_def split: prod.splits option.splits)
qed

lemma switch_fresh:
  "case switch_queries ttl cs new_switch of [] \<Rightarrow> sw_expires_at (snd (switch_calls ttl cs new_switch)) = 0
   | q # _ \<Rightarrow> sw_expires_at (snd (switch_calls ttl cs new_switch)) = fst q + ttl"
proof (induction cs)
  case (Cons c cs)
  then show ?case by (auto simp: switch_enabled_def split: prod.splits option.splits list.splits)
qed (simp add: new_switch_def)

lemma last_read_False: "\<not> last_read qs \<Longrightarrow> \<exists>pre q post. qs = pre @ q # post \<and> switch_read (snd q) = Some False \<and> list_all (\<lambda>p. switch_read (snd p) = None) pre"
proof (induction qs)
  case (Cons q qs)
  show ?case
  proof (cases "switch_read (snd q)")
    case None
    then obtain pre p post where "qs = pre @ p # post" "switch_read (snd p) = Some False" "list_all (\<lambda>p. switch_read (snd p) = None) pre"
      using Cons by auto
    then show ?thesis using None by (intro exI [of _ "q # pre"] exI [of _ p] exI [of _ post]) simp
  next
    case (Some v)
    then show ?thesis using Cons.prems by (intro exI [of _ "[]"] exI [of _ q] exI [of _ qs]) simp
  qed
qed simp



section \<open>The baselines\<close>

text \<open>
  The cache holds, of each key, what a query for that very key was answered, with the lifetime that began at the call
  that made it, and it stays within its bound.
\<close>

definition read_for :: "feature_world \<Rightarrow> provider \<Rightarrow> baseline_key \<Rightarrow> baseline option \<Rightarrow> bool" where
  "read_for w pv key v \<longleftrightarrow> (\<exists>n < length (pv_queries pv). rev (pv_queries pv) ! n = key \<and> v = fw_read w n key)"

definition provider_ok :: "feature_world \<Rightarrow> provider \<Rightarrow> bool" where
  "provider_ok w pv \<longleftrightarrow> od_wf (pv_cache pv) \<and> length (pv_cache pv) \<le> cache_max_entries w \<and>
     (\<forall>key e v. od_get (pv_cache pv) key = Some (e, v) \<longrightarrow> read_for w pv key v \<and> (\<exists>m < pv_calls pv. e = fw_clock w m + fw_ttl w))"

lemma cache_max_pos: "0 < cache_max_entries w"
  by (simp add: cache_max_entries_def)

lemma od_wf_filter: "od_wf d \<Longrightarrow> od_wf (filter P d)"
  unfolding od_wf_def by (rule distinct_map_filter)

lemma od_get_filter_subset: "od_wf d \<Longrightarrow> od_get (filter P d) k = Some v \<Longrightarrow> od_get d k = Some v"
  unfolding od_wf_def by (drule map_of_SomeD) (auto intro: map_of_is_SomeI)

lemma baseline_store_cases:
  assumes "od_wf cache"
  shows "od_wf (baseline_store n cache key entry now) \<and>
    (\<forall>k e. od_get (baseline_store n cache key entry now) k = Some e \<longrightarrow> (k = key \<and> e = entry) \<or> od_get cache k = Some e) \<and>
    length (baseline_store n cache key entry now) \<le> n"
proof -
  let ?c = "od_move_to_end (od_set cache key entry) key"
  let ?f = "filter (\<lambda>(k, e). now < fst e) ?c"
  have wf: "od_wf ?c" "od_wf ?f" using assms by (simp_all add: od_wf_filter)
  have get: "od_get ?c k = Some e \<Longrightarrow> (k = key \<and> e = entry) \<or> od_get cache k = Some e" for k e by (auto split: if_splits)
  have "od_get (od_evict n ?f) k = Some e \<Longrightarrow> od_get ?c k = Some e" for k e
    using od_get_evict_subset [OF wf(2)] od_get_filter_subset [OF wf(1)] by blast
  then show ?thesis using wf get unfolding baseline_store_def Let_def by (auto split: if_splits)
qed

lemma read_for_more: "read_for w pv key v \<Longrightarrow> pv_queries pv' = q # pv_queries pv \<Longrightarrow> read_for w pv' key v"
  unfolding read_for_def
proof (elim exE conjE)
  fix n
  assume "pv_queries pv' = q # pv_queries pv" "n < length (pv_queries pv)" "rev (pv_queries pv) ! n = key" "v = fw_read w n key"
  then show "\<exists>n < length (pv_queries pv'). rev (pv_queries pv') ! n = key \<and> v = fw_read w n key"
    by (intro exI [of _ n]) (simp add: nth_append)
qed

lemma read_for_new: "pv_queries pv' = key # qs \<Longrightarrow> read_for w pv' key (fw_read w (length qs) key)"
  unfolding read_for_def by (intro exI [of _ "length qs"]) (simp add: nth_append)

lemma read_for_same: "pv_queries pv' = pv_queries pv \<Longrightarrow> read_for w pv' key v = read_for w pv key v"
  by (simp add: read_for_def)

lemma provider_ok_reordered:
  assumes ok: "provider_ok w pv" and "od_wf c" "length c = length (pv_cache pv)" "\<And>k. od_get c k = od_get (pv_cache pv) k"
  shows "provider_ok w (pv \<lparr>pv_calls := Suc (pv_calls pv), pv_cache := c\<rparr>)"
proof -
  let ?p = "pv \<lparr>pv_calls := Suc (pv_calls pv), pv_cache := c\<rparr>"
  have "read_for w ?p k v \<and> (\<exists>m < Suc (pv_calls pv). e = fw_clock w m + fw_ttl w)" if "od_get c k = Some (e, v)" for k e v
  proof -
    have "read_for w pv k v" "\<exists>m < pv_calls pv. e = fw_clock w m + fw_ttl w"
      using ok that unfolding provider_ok_def assms(4) by blast+
    then show ?thesis using read_for_same [of ?p pv w k v] by (auto intro: less_SucI)
  qed
  then show ?thesis using ok assms(2,3) unfolding provider_ok_def by simp
qed

text \<open>The query and its storing.\<close>

definition queried :: "feature_world \<Rightarrow> baseline_key \<Rightarrow> provider \<Rightarrow> provider" where
  "queried w key pv =
     pv \<lparr>pv_calls := Suc (pv_calls pv), pv_queries := key # pv_queries pv,
         pv_cache := baseline_store (cache_max_entries w) (pv_cache pv) key
           (fw_clock w (pv_calls pv) + fw_ttl w, fw_read w (length (pv_queries pv)) key) (fw_clock w (pv_calls pv))\<rparr>"

lemma queried_ok:
  assumes ok: "provider_ok w pv"
  shows "provider_ok w (queried w key pv)"
proof -
  let ?v = "fw_read w (length (pv_queries pv)) key"
  let ?entry = "(fw_clock w (pv_calls pv) + fw_ttl w, ?v)"
  let ?s = "baseline_store (cache_max_entries w) (pv_cache pv) key ?entry (fw_clock w (pv_calls pv))"
  have wf: "od_wf (pv_cache pv)" using ok by (simp add: provider_ok_def)
  note store = baseline_store_cases [OF wf, of "cache_max_entries w" key ?entry "fw_clock w (pv_calls pv)"]
  have q: "pv_queries (queried w key pv) = key # pv_queries pv" "pv_cache (queried w key pv) = ?s" "pv_calls (queried w key pv) = Suc (pv_calls pv)"
    by (simp_all add: queried_def)
  have "read_for w (queried w key pv) k v \<and> (\<exists>m < Suc (pv_calls pv). e = fw_clock w m + fw_ttl w)" if "od_get ?s k = Some (e, v)" for k e v
  proof -
    from store that have "(k = key \<and> (e, v) = ?entry) \<or> od_get (pv_cache pv) k = Some (e, v)" by (elim conjE allE) (erule mp)
    then consider "k = key" "(e, v) = ?entry" | "od_get (pv_cache pv) k = Some (e, v)" by blast
    then show ?thesis
    proof cases
      case 1
      then show ?thesis using read_for_new [OF q(1)] by (auto intro: exI [of _ "pv_calls pv"])
    next
      case 2
      then have "read_for w pv k v" "\<exists>m < pv_calls pv. e = fw_clock w m + fw_ttl w" using ok unfolding provider_ok_def by blast+
      then show ?thesis using read_for_more q(1) less_SucI by metis
    qed
  qed
  then show ?thesis using store unfolding provider_ok_def q by blast
qed

lemma compute_baseline_cases:
  assumes "compute_baseline w c eq sensor g pv = (r, pv')"
  shows "(r \<in> {Inr None, Inl TypeError} \<and> pv' = pv \<lparr>pv_calls := Suc (pv_calls pv)\<rparr>) \<or>
    (\<exists>schema n g'. schema_name c = Inr schema \<and> uuid_parse (py_str eq) = Some n \<and> g' \<in> fst ` set WINDOWS \<and>
       ((\<exists>e v. od_get (pv_cache pv) (schema, uuid_str n, sensor, g') = Some (e, v) \<and> fw_clock w (pv_calls pv) < e \<and> r = Inr v \<and>
           pv' = pv \<lparr>pv_calls := Suc (pv_calls pv), pv_cache := od_move_to_end (pv_cache pv) (schema, uuid_str n, sensor, g')\<rparr>) \<or>
        (r = Inr (fw_read w (length (pv_queries pv)) (schema, uuid_str n, sensor, g')) \<and> pv' = queried w (schema, uuid_str n, sensor, g') pv)))"
proof (cases "granularity_or_default g")
  case (JStr g')
  show ?thesis
  proof (cases "od_get WINDOWS g'")
    case (Some win)
    then have "(g', win) \<in> set WINDOWS" by (rule map_of_SomeD)
    then have g': "g' \<in> fst ` set WINDOWS" by (rule image_eqI [rotated]) simp
    show ?thesis
    proof (cases "\<exists>schema n. schema_name c = Inr schema \<and> uuid_parse (py_str eq) = Some n")
      case True
      then obtain schema n where k: "schema_name c = Inr schema" "uuid_parse (py_str eq) = Some n" by blast
      have "(\<exists>e v. od_get (pv_cache pv) (schema, uuid_str n, sensor, g') = Some (e, v) \<and> fw_clock w (pv_calls pv) < e \<and> r = Inr v \<and>
           pv' = pv \<lparr>pv_calls := Suc (pv_calls pv), pv_cache := od_move_to_end (pv_cache pv) (schema, uuid_str n, sensor, g')\<rparr>) \<or>
        (r = Inr (fw_read w (length (pv_queries pv)) (schema, uuid_str n, sensor, g')) \<and> pv' = queried w (schema, uuid_str n, sensor, g') pv)"
        using assms k JStr Some
        by (cases "od_get (pv_cache pv) (schema, uuid_str n, sensor, g')")
          (auto simp: compute_baseline_def Let_def queried_def split: if_splits)
      then show ?thesis using k g' by (intro disjI2 exI [of _ schema] exI [of _ n] exI [of _ g']) simp
    next
      case False
      then have "r = Inr None \<and> pv' = pv \<lparr>pv_calls := Suc (pv_calls pv)\<rparr>"
        using assms JStr Some by (auto simp: compute_baseline_def Let_def split: sum.splits option.splits)
      then show ?thesis by simp
    qed
  qed (use assms JStr in \<open>simp add: compute_baseline_def\<close>)
qed (use assms in \<open>auto simp: compute_baseline_def split: if_splits\<close>)

text \<open>
  A baseline answered for a tenant was read for that tenant's schema, the equipment asked for in its canonical
  spelling, that sensor and one of the contract's granularities - by this call, or by an earlier one less than the cache's
  lifetime ago. The cache never exceeds its bound, whatever equipment the requests name, and a company or an equipment
  that is no identifier reaches neither the cache nor the database.
\<close>

theorem baseline_own_and_fresh:
  assumes "provider_ok w pv" "compute_baseline w company_id equipment_id sensor granularity pv = (r, pv')"
  shows "provider_ok w pv' \<and> length (pv_cache pv') \<le> cache_max_entries w \<and>
    (canonical_company_id company_id = Inl ValueError \<or> uuid_parse (py_str equipment_id) = None \<longrightarrow>
       pv_cache pv' = pv_cache pv \<and> pv_queries pv' = pv_queries pv \<and> (\<forall>b. r \<noteq> Inr (Some b))) \<and>
    (\<forall>b. r = Inr (Some b) \<longrightarrow> (\<exists>schema n g. schema_name company_id = Inr schema \<and> uuid_parse (py_str equipment_id) = Some n \<and>
       g \<in> fst ` set WINDOWS \<and> read_for w pv' (schema, uuid_str n, sensor, g) (Some b) \<and>
       (pv_queries pv' = (schema, uuid_str n, sensor, g) # pv_queries pv \<or>
        (\<exists>m < pv_calls pv. fw_clock w (pv_calls pv) < fw_clock w m + fw_ttl w))))"
proof -
  have keep: "provider_ok w (pv \<lparr>pv_calls := Suc (pv_calls pv)\<rparr>)"
    using provider_ok_reordered [OF assms(1), of "pv_cache pv"] assms(1) by (simp add: provider_ok_def)
  have schema: "schema_name company_id = Inr schema \<Longrightarrow> canonical_company_id company_id \<noteq> Inl ValueError" for schema
    by (auto simp: schema_name_def tenant_token_def underscored_def res_map_def split: sum.splits)
  consider "r \<in> {Inr None, Inl TypeError}" "pv' = pv \<lparr>pv_calls := Suc (pv_calls pv)\<rparr>"
    | schema n g e v where "schema_name company_id = Inr schema" "uuid_parse (py_str equipment_id) = Some n" "g \<in> fst ` set WINDOWS"
        "od_get (pv_cache pv) (schema, uuid_str n, sensor, g) = Some (e, v)" "fw_clock w (pv_calls pv) < e" "r = Inr v"
        "pv' = pv \<lparr>pv_calls := Suc (pv_calls pv), pv_cache := od_move_to_end (pv_cache pv) (schema, uuid_str n, sensor, g)\<rparr>"
    | schema n g where "schema_name company_id = Inr schema" "uuid_parse (py_str equipment_id) = Some n" "g \<in> fst ` set WINDOWS"
        "r = Inr (fw_read w (length (pv_queries pv)) (schema, uuid_str n, sensor, g))" "pv' = queried w (schema, uuid_str n, sensor, g) pv"
    using compute_baseline_cases [OF assms(2)] by blast
  then show ?thesis
  proof cases
    case 1
    then show ?thesis using keep by (auto simp: provider_ok_def)
  next
    case 2
    let ?key = "(schema, uuid_str n, sensor, g)"
    have wf: "od_wf (pv_cache pv)" "length (pv_cache pv) \<le> cache_max_entries w" using assms(1) by (simp_all add: provider_ok_def)
    have rd: "read_for w pv ?key v" "\<exists>m < pv_calls pv. e = fw_clock w m + fw_ttl w" using assms(1) 2(4) unfolding provider_ok_def by blast+
    have "provider_ok w pv'" unfolding 2(7) using wf by (intro provider_ok_reordered [OF assms(1)]) simp_all
    moreover have "read_for w pv' ?key v" using rd(1) unfolding 2(7) by (simp add: read_for_def)
    moreover have "\<exists>m < pv_calls pv. fw_clock w (pv_calls pv) < fw_clock w m + fw_ttl w" using rd(2) 2(5) by auto
    ultimately show ?thesis using 2(1-3,6) schema
      by (intro conjI allI impI exI [of _ schema] exI [of _ n] exI [of _ g]) (auto simp: provider_ok_def)
  next
    case 3
    let ?key = "(schema, uuid_str n, sensor, g)"
    have q: "pv_queries (queried w ?key pv) = ?key # pv_queries pv" by (simp add: queried_def)
    have "provider_ok w pv'" using queried_ok [OF assms(1)] unfolding 3(5) .
    moreover have "read_for w pv' ?key (fw_read w (length (pv_queries pv)) ?key)" unfolding 3(5) by (rule read_for_new) (rule q)
    ultimately show ?thesis using 3 q schema
      by (intro conjI allI impI exI [of _ schema] exI [of _ n] exI [of _ g]) (auto simp: provider_ok_def)
  qed
qed

theorem baseline_own_and_fresh_witness:
  "compute_baseline demo_world uuid_a (JStr uuid_b) (JStr ''temp'') JNull demo_provider =
     (Inr (Some \<lparr>bl_mean = Fin 70, bl_std = None\<rparr>), snd (compute_baseline demo_world uuid_a (JStr uuid_b) (JStr ''temp'') JNull demo_provider)) \<and>
   provider_ok demo_world (snd (compute_baseline demo_world uuid_a (JStr uuid_b) (JStr ''temp'') JNull demo_provider)) \<and>
   (\<exists>schema n g. schema_name uuid_a = Inr schema \<and>
      read_for demo_world (snd (compute_baseline demo_world uuid_a (JStr uuid_b) (JStr ''temp'') JNull demo_provider))
        (schema, uuid_str n, JStr ''temp'', g) (Some \<lparr>bl_mean = Fin 70, bl_std = None\<rparr>))"
proof -
  have ok: "provider_ok demo_world demo_provider" by (simp add: provider_ok_def demo_provider_def od_wf_def)
  have "fst (compute_baseline demo_world uuid_a (JStr uuid_b) (JStr ''temp'') JNull demo_provider) = Inr (Some \<lparr>bl_mean = Fin 70, bl_std = None\<rparr>)"
    by code_simp
  then have r: "compute_baseline demo_world uuid_a (JStr uuid_b) (JStr ''temp'') JNull demo_provider =
     (Inr (Some \<lparr>bl_mean = Fin 70, bl_std = None\<rparr>), snd (compute_baseline demo_world uuid_a (JStr uuid_b) (JStr ''temp'') JNull demo_provider))"
    by (metis prod.collapse)
  show ?thesis using baseline_own_and_fresh [OF ok r] r by blast
qed

end
