(* ===== verification/Drift_Profile.thy ===== *)
theory Drift_Profile
  imports Prelude "HOL-Library.List_Lexorder" "HOL-Library.Char_ord"
begin

text \<open>
  The drift baseline of a model (\<open>services/ml_service/api/drift/reference_profile.py\<close>): which feature sample is accepted,
  how it is bounded and stored, and what the platform records beside it. A profile is a parsed object.

  The evenly spaced indices are computed exactly, where the code divides floats. The wording of a reason is shortened.
\<close>

section \<open>The format\<close>

definition REFERENCE_PROFILE_VERSION :: int where "REFERENCE_PROFILE_VERSION = 2"
definition DEFAULT_MAX_SAMPLE_ROWS :: nat where "DEFAULT_MAX_SAMPLE_ROWS = 5000"
definition DEFAULT_PREDICTION_COLUMN :: string where "DEFAULT_PREDICTION_COLUMN = ''prediction_score''"

definition sample_indices :: "nat \<Rightarrow> nat \<Rightarrow> nat list" where
  "sample_indices n max_rows =
     (if n \<le> max_rows then [0..<n]
      else map (\<lambda>i. i * (n - 1) div (max_rows - 1)) [0..<max_rows])"

text \<open>\<open>isinstance(v, (int, float))\<close> and not a \<open>bool\<close>, finite.\<close>

fun finite_number :: "json \<Rightarrow> rat option" where
  "finite_number (JInt i) = Some (of_int i)"
| "finite_number (JFloat (Fin q)) = Some q"
| "finite_number _ = None"

text \<open>Equality with the number \<open>n\<close>: \<open>2 == 2.0\<close>, and \<open>1 == True\<close>.\<close>

definition equals_int :: "json \<Rightarrow> int \<Rightarrow> bool" where
  "equals_int j n \<longleftrightarrow> j = JInt n \<or> j = JFloat (Fin (of_int n)) \<or> (\<exists>b. j = JBool b \<and> n = of_bool b)"

section \<open>Building a sample\<close>

definition clean_column :: "py_float list \<Rightarrow> nat list \<Rightarrow> json list" where
  "clean_column values idx = map (\<lambda>i. case values ! i of Fin q \<Rightarrow> JFloat (Fin q) | _ \<Rightarrow> JNull) idx"

definition build_reference_profile :: "(string \<times> py_float list) list \<Rightarrow> nat \<Rightarrow> jobject result" where
  "build_reference_profile data max_sample_rows =
     (if data = [] then Inl ValueError
      else if max_sample_rows < 1 then Inl ValueError
      else let n = length (snd (hd data))
           in if list_ex (\<lambda>(c, vs). length vs \<noteq> n) data then Inl ValueError
              else if n = 0 then Inl ValueError
              else let idx = sample_indices n max_sample_rows
                   in Inr [(''schema_version'', JInt REFERENCE_PROFILE_VERSION), (''method'', JStr ''evidently_sample''),
                       (''columns'', JArr (map (JStr \<circ> fst) data)), (''prediction_column'', JNull),
                       (''n_training_rows'', JInt (int n)), (''n_samples'', JInt (int (length idx))),
                       (''sample'', JObj (map (\<lambda>(c, vs). (c, JArr (clean_column vs idx))) data))])"

section \<open>What is accepted\<close>

datatype sample_fault =
  CarriesScores | NotAnObject | WrongVersion | NoColumns | NoInputs | OtherColumns | NoValues | NotANumber | UnevenColumns

definition fault_text :: "sample_fault \<Rightarrow> string" where
  "fault_text f = (case f of
     CarriesScores \<Rightarrow> ''the sample carries prediction scores''
   | NotAnObject \<Rightarrow> ''the sample is not an object''
   | WrongVersion \<Rightarrow> ''the schema_version is another''
   | NoColumns \<Rightarrow> ''the sample has no columns and values''
   | NoInputs \<Rightarrow> ''the model is bound to no inputs''
   | OtherColumns \<Rightarrow> ''the columns are not the inputs''
   | NoValues \<Rightarrow> ''the sample holds no values for a column''
   | NotANumber \<Rightarrow> ''a column holds what is not a number''
   | UnevenColumns \<Rightarrow> ''the columns differ in length'')"

definition supplied_scores_refusal :: "jobject \<Rightarrow> sample_fault option" where
  "supplied_scores_refusal profile =
     (if truthy (jget profile ''prediction_column'') \<or> truthy (jget profile ''prediction_baseline'') then Some CarriesScores else None)"

text \<open>The values of a column, when they are a list with a value; None is a missing number.\<close>

definition column_fault :: "jobject \<Rightarrow> json \<Rightarrow> sample_fault option" where
  "column_fault sample name =
     (case name of
        JStr c \<Rightarrow>
          (case jget sample c of
             JArr values \<Rightarrow>
               if values = [] then Some NoValues
               else if list_ex (\<lambda>v. v \<noteq> JNull \<and> finite_number v = None) values then Some NotANumber else None
           | _ \<Rightarrow> Some NoValues)
      | _ \<Rightarrow> Some NoValues)"

definition column_length :: "jobject \<Rightarrow> json \<Rightarrow> nat" where
  "column_length sample name = (case name of JStr c \<Rightarrow> (case jget sample c of JArr values \<Rightarrow> length values | _ \<Rightarrow> 0) | _ \<Rightarrow> 0)"

fun first_fault :: "('a \<Rightarrow> 'b option) \<Rightarrow> 'a list \<Rightarrow> 'b option" where
  "first_fault f [] = None"
| "first_fault f (x # xs) = (case f x of Some y \<Rightarrow> Some y | None \<Rightarrow> first_fault f xs)"

definition sample_refusal :: "json \<Rightarrow> string list \<Rightarrow> sample_fault option" where
  "sample_refusal profile base_sensors =
     (case profile of
        JObj p \<Rightarrow>
          if \<not> equals_int (jget p ''schema_version'') REFERENCE_PROFILE_VERSION then Some WrongVersion
          else (case (jget p ''columns'', jget p ''sample'') of
                  (JArr columns, JObj sample) \<Rightarrow>
                    if base_sensors = [] then Some NoInputs
                    else if sort (map py_str columns) \<noteq> sort base_sensors \<or> \<not> distinct columns then Some OtherColumns
                    else (case first_fault (column_fault sample) columns of
                            Some f \<Rightarrow> Some f
                          | None \<Rightarrow>
                              if list_ex (\<lambda>c. column_length sample c \<noteq> column_length sample (hd columns)) columns
                              then Some UnevenColumns else None)
                | _ \<Rightarrow> Some NoColumns)
      | _ \<Rightarrow> Some NotAnObject)"

section \<open>What is stored\<close>

definition json_list :: "json \<Rightarrow> json list" where
  "json_list j = (case j of JArr xs \<Rightarrow> xs | _ \<Rightarrow> [])"

definition json_dict :: "json \<Rightarrow> jobject" where
  "json_dict j = (case j of JObj d \<Rightarrow> d | _ \<Rightarrow> [])"

definition text_of :: "json \<Rightarrow> string" where
  "text_of j = (case j of JStr s \<Rightarrow> s | _ \<Rightarrow> [])"

text \<open>Of a sample that was not refused.\<close>

definition accepted_sample :: "jobject \<Rightarrow> jobject" where
  "accepted_sample profile =
     (let columns = json_list (jget profile ''columns'');
          sample = json_dict (jget profile ''sample'');
          supplied = length (json_list (jget sample (text_of (hd columns))));
          idx = sample_indices supplied DEFAULT_MAX_SAMPLE_ROWS;
          n_training = (case jget profile ''n_training_rows'' of
                          JInt n \<Rightarrow> if n < int supplied then int supplied else n
                        | _ \<Rightarrow> int supplied)
      in [(''schema_version'', JInt REFERENCE_PROFILE_VERSION), (''method'', JStr ''evidently_sample''), (''columns'', JArr columns),
          (''prediction_column'', JNull), (''n_training_rows'', JInt n_training), (''n_samples'', JInt (int (length idx))),
          (''sample'', JObj (map (\<lambda>c. (text_of c, JArr (map (\<lambda>i. json_list (jget sample (text_of c)) ! i) idx))) columns))])"

definition refused_baseline :: "string \<Rightarrow> jobject" where
  "refused_baseline reason = [(''schema_version'', JInt REFERENCE_PROFILE_VERSION), (''refused'', JStr reason)]"

definition sample_rows :: "jobject \<Rightarrow> (string \<times> rat) list list" where
  "sample_rows profile =
     (let columns = map text_of (json_list (jget profile ''columns''));
          sample = json_dict (jget profile ''sample'')
      in if columns = [] then []
         else map (map (\<lambda>(c, v). (c, the (finite_number v))))
           (filter (list_all (\<lambda>(c, v). v \<noteq> JNull))
             (map (\<lambda>i. map (\<lambda>c. (c, json_list (jget sample c) ! i)) columns)
               [0..<length (json_list (jget sample (hd columns)))])))"

section \<open>The prediction baseline\<close>

definition score_ok :: "py_float \<Rightarrow> bool" where
  "score_ok v = (case v of Fin q \<Rightarrow> 0 \<le> q \<and> q \<le> 1 | _ \<Rightarrow> False)"

definition score_refused :: "py_float list \<Rightarrow> bool" where
  "score_refused values \<longleftrightarrow> values = [] \<or> \<not> list_all score_ok values"

definition features_only :: "jobject \<Rightarrow> jobject" where
  "features_only profile =
     (let pred = jget profile ''prediction_column'';
          out = od_del profile ''prediction_baseline'';
          sample = filter (\<lambda>(k, v). JStr k \<noteq> pred) (json_dict (jget profile ''sample''))
      in od_set (od_set out ''sample'' (JObj sample)) ''prediction_column'' JNull)"

definition with_derived_scores :: "jobject \<Rightarrow> py_float list \<Rightarrow> string \<Rightarrow> jobject result" where
  "with_derived_scores profile scores derived_at =
     (if score_refused scores then Inl ValueError
      else let out = od_set (features_only profile) ''prediction_column'' (JStr DEFAULT_PREDICTION_COLUMN);
               sample = od_set (json_dict (jget out ''sample'')) DEFAULT_PREDICTION_COLUMN (JArr (map JFloat scores))
           in Inr (od_set (od_set out ''sample'' (JObj sample)) ''prediction_baseline''
                (JObj [(''origin'', JStr ''derived''), (''derived_at'', JStr derived_at)])))"

definition without_prediction_baseline :: "jobject \<Rightarrow> string \<Rightarrow> jobject" where
  "without_prediction_baseline profile reason =
     od_set (features_only profile) ''prediction_baseline'' (JObj [(''origin'', JNull), (''reason'', JStr reason)])"

datatype baseline_state = NoSample | RefusedSample json | DataOnly json | Derived json | Supplied

definition baseline_state_of :: "jobject option \<Rightarrow> baseline_state" where
  "baseline_state_of profile =
     (case profile of
        None \<Rightarrow> NoSample
      | Some p \<Rightarrow>
          if p = [] then NoSample
          else if truthy (jget p ''refused'') then RefusedSample (jget p ''refused'')
          else (case jget p ''prediction_baseline'' of
                  JObj pb \<Rightarrow>
                    if jget pb ''origin'' = JStr ''derived'' then Derived (jget pb ''derived_at'') else DataOnly (jget pb ''reason'')
                | _ \<Rightarrow>
                    if truthy (jget p ''prediction_column'') then Supplied
                    else DataOnly (JStr ''prediction scores are derived when the model is deployed'')))"

section \<open>An accepted sample\<close>

lemma sample_indices_bound:
  assumes "i \<in> set (sample_indices n max_rows)" "0 < n" "2 \<le> max_rows"
  shows "i < n"
proof (cases "n \<le> max_rows")
  case False
  then obtain k where k: "k < max_rows" "i = k * (n - 1) div (max_rows - 1)" using assms(1) by (auto simp: sample_indices_def)
  have "k * (n - 1) \<le> (max_rows - 1) * (n - 1)" using k(1) by (intro mult_le_mono1) simp
  then have "i \<le> (max_rows - 1) * (n - 1) div (max_rows - 1)" unfolding k(2) by (rule div_le_mono)
  also have "\<dots> = n - 1" using assms(3) by simp
  finally show ?thesis using assms(2) by simp
qed (use assms(1) in \<open>simp add: sample_indices_def\<close>)

lemma sample_indices_length: "length (sample_indices n max_rows) = min n max_rows"
  by (simp add: sample_indices_def)

lemma sample_indices_twice: "sample_indices (length (sample_indices n max_rows)) max_rows = [0..<min n max_rows]"
  by (simp add: sample_indices_def)

lemma first_fault_None: "first_fault f xs = None \<longleftrightarrow> list_all (\<lambda>x. f x = None) xs"
  by (induction xs) (auto split: option.splits)

definition column :: "jobject \<Rightarrow> string \<Rightarrow> json list" where
  "column p c = json_list (jget (json_dict (jget p ''sample'')) c)"

definition good_column :: "json list \<Rightarrow> bool" where
  "good_column vs \<longleftrightarrow> vs \<noteq> [] \<and> list_all (\<lambda>v. v = JNull \<or> finite_number v \<noteq> None) vs"

definition is_sample :: "jobject \<Rightarrow> string list \<Rightarrow> nat \<Rightarrow> bool" where
  "is_sample p cols N \<longleftrightarrow> equals_int (jget p ''schema_version'') REFERENCE_PROFILE_VERSION \<and>
     jget p ''columns'' = JArr (map JStr cols) \<and> distinct cols \<and> cols \<noteq> [] \<and>
     (\<exists>sample. jget p ''sample'' = JObj sample \<and> (\<forall>c \<in> set cols. \<exists>vs. jget sample c = JArr vs \<and> good_column vs \<and> length vs = N))"

lemma column_fault_None: "column_fault sample name = None \<longleftrightarrow> (\<exists>c vs. name = JStr c \<and> jget sample c = JArr vs \<and> good_column vs)"
proof (cases name)
  case (JStr c)
  then show ?thesis
    by (cases "jget sample c") (auto simp: column_fault_def good_column_def list_ex_iff list_all_iff)
qed (auto simp: column_fault_def)

lemma map_JStr_ex: "list_all (\<lambda>x. \<exists>c. x = JStr c) xs \<Longrightarrow> \<exists>cs. xs = map JStr cs"
proof (induction xs)
  case (Cons x xs)
  then obtain c cs where "x = JStr c" "xs = map JStr cs" by auto
  then show ?case by (intro exI [of _ "c # cs"]) simp
qed simp

lemma map_py_str_JStr: "map py_str (map JStr cs) = cs"
  by (simp add: py_str_def o_def)

lemma sample_refusal_None:
  "sample_refusal (JObj p) base = None \<longleftrightarrow> (\<exists>cols N. is_sample p cols N \<and> sort cols = sort base)"
proof
  assume r: "sample_refusal (JObj p) base = None"
  have v: "equals_int (jget p ''schema_version'') REFERENCE_PROFILE_VERSION" using r by (auto simp: sample_refusal_def split: if_splits)
  obtain columns sample where c: "jget p ''columns'' = JArr columns" "jget p ''sample'' = JObj sample"
    using r v by (auto simp: sample_refusal_def split: json.splits)
  have b: "base \<noteq> []" "sort (map py_str columns) = sort base" "distinct columns" and f: "first_fault (column_fault sample) columns = None"
    and l: "\<not> list_ex (\<lambda>c. column_length sample c \<noteq> column_length sample (hd columns)) columns"
    using r v c by (auto simp: sample_refusal_def split: if_splits option.splits)
  have "\<exists>y. x = JStr y" if "x \<in> set columns" for x
  proof -
    have "column_fault sample x = None" using f that unfolding first_fault_None by (simp add: list_all_iff)
    then show ?thesis unfolding column_fault_None by auto
  qed
  then obtain cols where cols: "columns = map JStr cols" using map_JStr_ex [of columns] by (auto simp: list_all_iff)
  then have s: "sort cols = sort base" using b(2) map_py_str_JStr by simp
  have "cols \<noteq> []" using s b(1) by (metis sort_key_simps(1) length_0_conv length_sort)
  have "\<exists>vs. jget sample x = JArr vs \<and> good_column vs \<and> length vs = column_length sample (hd columns)" if "x \<in> set cols" for x
  proof -
    have "column_fault sample (JStr x) = None" using f that unfolding first_fault_None cols by (simp add: list_all_iff)
    then obtain vs where vs: "jget sample x = JArr vs" "good_column vs" unfolding column_fault_None by auto
    have "column_length sample (JStr x) = column_length sample (hd columns)" using l that unfolding list_ex_iff cols by auto
    then show ?thesis using vs by (simp add: column_length_def)
  qed
  then have "is_sample p cols (column_length sample (hd columns))"
    using v c b(3) \<open>cols \<noteq> []\<close> unfolding is_sample_def cols by (auto simp: distinct_map)
  then show "\<exists>cols N. is_sample p cols N \<and> sort cols = sort base" using s by blast
next
  assume "\<exists>cols N. is_sample p cols N \<and> sort cols = sort base"
  then obtain cols N sample where v: "equals_int (jget p ''schema_version'') REFERENCE_PROFILE_VERSION"
    and c: "jget p ''columns'' = JArr (map JStr cols)" "distinct cols" "cols \<noteq> []" "jget p ''sample'' = JObj sample" "sort cols = sort base"
    and g: "\<And>x. x \<in> set cols \<Longrightarrow> \<exists>vs. jget sample x = JArr vs \<and> good_column vs \<and> length vs = N"
    unfolding is_sample_def by blast
  have "base \<noteq> []" using c(3,5) by (metis sort_key_simps(1) length_0_conv length_sort)
  moreover have "first_fault (column_fault sample) (map JStr cols) = None"
    unfolding first_fault_None list_all_iff column_fault_None using g by fastforce
  moreover have "column_length sample x = N" if "x \<in> set (map JStr cols)" for x
    using that g by (fastforce simp: column_length_def)
  then have "\<not> list_ex (\<lambda>x. column_length sample x \<noteq> column_length sample (hd (map JStr cols))) (map JStr cols)"
    using c(3) unfolding list_ex_iff by (metis hd_in_set map_is_Nil_conv)
  moreover have "sort (map py_str (map JStr cols)) = sort base" using c(5) map_py_str_JStr by simp
  moreover have "distinct (map JStr cols)" using c(2) by (simp add: distinct_map inj_on_def)
  ultimately show "sample_refusal (JObj p) base = None" using v c(1,4) by (simp add: sample_refusal_def del: map_map)
qed

lemma is_sample_column: "is_sample p cols N \<Longrightarrow> c \<in> set cols \<Longrightarrow> good_column (column p c) \<and> length (column p c) = N"
  unfolding is_sample_def column_def by (auto simp: json_dict_def json_list_def)

text \<open>Of what the accepted sample holds.\<close>

definition kept_rows :: "nat \<Rightarrow> nat list" where
  "kept_rows N = sample_indices N DEFAULT_MAX_SAMPLE_ROWS"

definition training_rows :: "jobject \<Rightarrow> nat \<Rightarrow> int" where
  "training_rows p N = (case jget p ''n_training_rows'' of JInt n \<Rightarrow> if n < int N then int N else n | _ \<Rightarrow> int N)"

lemma accepted_eq:
  assumes "is_sample p cols N"
  shows "accepted_sample p =
    [(''schema_version'', JInt REFERENCE_PROFILE_VERSION), (''method'', JStr ''evidently_sample''), (''columns'', JArr (map JStr cols)),
     (''prediction_column'', JNull), (''n_training_rows'', JInt (training_rows p N)), (''n_samples'', JInt (int (length (kept_rows N)))),
     (''sample'', JObj (map (\<lambda>c. (c, JArr (map (\<lambda>i. column p c ! i) (kept_rows N)))) cols))]"
proof -
  obtain sample where c: "jget p ''columns'' = JArr (map JStr cols)" "cols \<noteq> []" and s: "jget p ''sample'' = JObj sample"
    using assms by (auto simp: is_sample_def)
  have N: "length (json_list (jget sample (text_of (hd (map JStr cols))))) = N"
    using is_sample_column [OF assms, of "hd cols"] c(2) s by (simp add: hd_map text_of_def column_def json_dict_def)
  have j: "json_list (JArr (map JStr cols)) = map JStr cols" "json_dict (JObj sample) = sample" by (simp_all add: json_list_def json_dict_def)
  have "column p c = json_list (jget sample c)" "text_of (JStr c) = c" for c by (simp_all add: column_def s j text_of_def)
  then show ?thesis
    unfolding accepted_sample_def Let_def c(1) s j N kept_rows_def training_rows_def by (simp add: o_def)
qed

lemma accepted_columns:
  assumes "is_sample p cols N"
  shows "jget (accepted_sample p) ''columns'' = JArr (map JStr cols)"
    "jget (accepted_sample p) ''schema_version'' = JInt REFERENCE_PROFILE_VERSION"
    "jget (accepted_sample p) ''sample'' = JObj (map (\<lambda>c. (c, JArr (map (\<lambda>i. column p c ! i) (kept_rows N)))) cols)"
    "jget (accepted_sample p) ''n_training_rows'' = JInt (training_rows p N)"
  unfolding accepted_eq [OF assms] jget_def by simp_all

lemma jget_map: "c \<in> set cols \<Longrightarrow> jget (map (\<lambda>c. (c, f c)) cols) c = f c"
  by (simp add: jget_def map_of_map_restrict)

lemma accepted_column:
  assumes "is_sample p cols N" "c \<in> set cols"
  shows "column (accepted_sample p) c = map (\<lambda>i. column p c ! i) (kept_rows N)"
  using accepted_columns(3) [OF assms(1)] assms(2) by (simp add: column_def [of "accepted_sample p"] json_dict_def json_list_def jget_map)

lemma kept_rows_bound: "0 < N \<Longrightarrow> i \<in> set (kept_rows N) \<Longrightarrow> i < N"
  unfolding kept_rows_def by (rule sample_indices_bound) (auto simp: DEFAULT_MAX_SAMPLE_ROWS_def)

lemma accepted_is_sample:
  assumes "is_sample p cols N"
  shows "is_sample (accepted_sample p) cols (min N DEFAULT_MAX_SAMPLE_ROWS)"
proof -
  have cols: "distinct cols" "cols \<noteq> []" using assms by (auto simp: is_sample_def)
  have N: "0 < N" using is_sample_column [OF assms, of "hd cols"] cols(2) by (auto simp: good_column_def)
  have len: "length (kept_rows N) = min N DEFAULT_MAX_SAMPLE_ROWS" by (simp add: kept_rows_def sample_indices_length)
  have "good_column (map (\<lambda>i. column p c ! i) (kept_rows N))" if "c \<in> set cols" for c
  proof -
    have g: "good_column (column p c)" "length (column p c) = N" using is_sample_column [OF assms that] by auto
    have "kept_rows N \<noteq> []" using len N by (auto simp: DEFAULT_MAX_SAMPLE_ROWS_def)
    moreover have "column p c ! i \<in> set (column p c)" if "i \<in> set (kept_rows N)" for i using kept_rows_bound [OF N that] g(2) by simp
    ultimately show ?thesis using g(1) unfolding good_column_def list_all_iff by fastforce
  qed
  then have "\<exists>vs. jget (map (\<lambda>c. (c, JArr (map (\<lambda>i. column p c ! i) (kept_rows N)))) cols) c = JArr vs \<and> good_column vs \<and>
      length vs = min N DEFAULT_MAX_SAMPLE_ROWS" if "c \<in> set cols" for c
    using that len by (simp add: jget_map)
  then show ?thesis
    using cols accepted_columns [OF assms] unfolding is_sample_def by (simp add: equals_int_def)
qed

lemma accepted_twice:
  assumes "is_sample p cols N"
  shows "accepted_sample (accepted_sample p) = accepted_sample p"
proof -
  let ?q = "accepted_sample p" and ?n = "min N DEFAULT_MAX_SAMPLE_ROWS"
  have q: "is_sample ?q cols ?n" by (rule accepted_is_sample [OF assms])
  have len: "length (kept_rows N) = ?n" by (simp add: kept_rows_def sample_indices_length)
  have idx: "kept_rows ?n = [0..<?n]" by (simp add: kept_rows_def sample_indices_def)
  have same: "map (\<lambda>i. column ?q c ! i) (kept_rows ?n) = map (\<lambda>i. column p c ! i) (kept_rows N)" if "c \<in> set cols" for c
    unfolding idx accepted_column [OF assms that] by (rule nth_equalityI) (simp_all add: len)
  have "training_rows ?q ?n = training_rows p N"
    unfolding training_rows_def [of ?q] accepted_columns(4) [OF assms] by (auto simp: training_rows_def split: json.splits)
  moreover have "map (\<lambda>c. (c, JArr (map (\<lambda>i. column ?q c ! i) (kept_rows ?n)))) cols = map (\<lambda>c. (c, JArr (map (\<lambda>i. column p c ! i) (kept_rows N)))) cols"
    using same by simp
  moreover have "length (kept_rows ?n) = length (kept_rows N)" unfolding len by (simp add: idx)
  ultimately show ?thesis
    by (intro trans [OF accepted_eq [OF q] trans [OF _ accepted_eq [OF assms, symmetric]]]) (simp only:)
qed

text \<open>
  What registration stores of a feature sample is what the deployment gate accepts again: a sample that is not
  refused for a model's inputs is stored with at most 5000 rows, each a row of the sample supplied with its columns
  still aligned, is not refused when it is read back, and is not changed by being bounded a second time.
\<close>

theorem stored_sample_accepted:
  assumes "sample_refusal (JObj p) base = None" "c \<in> set base"
  shows "sample_refusal (JObj (accepted_sample p)) base = None \<and> accepted_sample (accepted_sample p) = accepted_sample p \<and>
    length (column (accepted_sample p) c) \<le> 5000 \<and>
    (\<forall>i < length (column (accepted_sample p) c). \<exists>j < length (column p c).
       \<forall>e \<in> set base. column (accepted_sample p) e ! i = column p e ! j)"
proof -
  obtain cols N where s: "is_sample p cols N" "sort cols = sort base" using assms(1) unfolding sample_refusal_None by blast
  have set: "set cols = set base" using s(2) by (metis set_sort)
  have "sample_refusal (JObj (accepted_sample p)) base = None"
    using accepted_is_sample [OF s(1)] s(2) unfolding sample_refusal_None by blast
  moreover have "length (kept_rows N) \<le> 5000" by (simp add: kept_rows_def sample_indices_length DEFAULT_MAX_SAMPLE_ROWS_def)
  moreover have "0 < N" "length (column p c) = N" using is_sample_column [OF s(1), of c] assms(2) set by (auto simp: good_column_def)
  moreover have "kept_rows N ! i < N" if "i < length (kept_rows N)" for i using kept_rows_bound [OF \<open>0 < N\<close>] that by simp
  moreover have "column (accepted_sample p) e ! i = column p e ! (kept_rows N ! i)" if "e \<in> set base" "i < length (kept_rows N)" for e i
    using accepted_column [OF s(1)] that set by simp
  moreover have "length (column (accepted_sample p) c) = length (kept_rows N)" using accepted_column [OF s(1)] assms(2) set by simp
  ultimately show ?thesis using accepted_twice [OF s(1)] by auto
qed

definition demo_profile :: jobject where
  "demo_profile = [(''schema_version'', JInt 2), (''columns'', JArr [JStr ''t'', JStr ''p'']),
     (''sample'', JObj [(''t'', JArr [JInt 1, JNull]), (''p'', JArr [JFloat (Fin 2), JInt 3])])]"

lemma demo_profile_ok: "sample_refusal (JObj demo_profile) [''p'', ''t''] = None"
  by code_simp

theorem stored_sample_accepted_witness:
  "sample_refusal (JObj (accepted_sample demo_profile)) [''p'', ''t''] = None \<and> length (column (accepted_sample demo_profile) ''t'') \<le> 5000"
  using stored_sample_accepted [OF demo_profile_ok, of "''t''"] by simp

end
