(* ===== verification/Model_Auth.thy ===== *)
theory Model_Auth
  imports Sessions Tenancy
begin

text \<open>
  Who calls the model service (\<open>services/ml_service/api/auth.py\<close>, \<open>_resolve_company_id\<close> of \<open>routers/inference.py\<close>): the access token,
  the account behind it, its session, the role a write needs, and the tenant. Decoding a token, the account table and
  the session store are parameters; each may fail.
\<close>

section \<open>The account\<close>

definition WRITER_ROLES :: "string list" where
  "WRITER_ROLES = [''engineer'', ''admin'']"

text \<open>A row of the account query; a company is a canonical UUID, as the database writes it.\<close>

record account_row =
  ac_user_active :: bool
  ac_company :: "string option"
  ac_company_active :: bool
  ac_role :: string
  ac_superuser :: bool
  ac_password_change :: bool

record caller =
  cl_user :: string
  cl_claims :: jobject
  cl_role :: string
  cl_superuser :: bool

text \<open>\<open>_usable_account\<close>: the account, that there is none that may be used, or a refusal. Inl is a failure of the store.\<close>

definition usable_account :: "(string \<Rightarrow> account_row option result) \<Rightarrow> string \<Rightarrow> (http_error + account_row option) result" where
  "usable_account accounts user_id =
     (case uuid_parse user_id of
        None \<Rightarrow> Inr (Inr None)
      | Some uid \<Rightarrow>
          (case accounts (uuid_str uid) of
             Inl e \<Rightarrow> Inl e
           | Inr None \<Rightarrow> Inr (Inr None)
           | Inr (Some row) \<Rightarrow>
               if \<not> ac_user_active row then Inr (Inr None)
               else if ac_company row \<noteq> None \<and> \<not> ac_company_active row then Inr (Inr None)
               else if ac_password_change row then Inr (Inl (HTTPException 403 ''PASSWORD_CHANGE_REQUIRED''))
               else Inr (Inr (Some row))))"

section \<open>The token\<close>

text \<open>What a claim is to \<open>session_ended\<close>: a session id, and the time the token was issued.\<close>

definition claim_sid :: "json \<Rightarrow> string option" where
  "claim_sid j = (if truthy j then Some (py_str j) else None)"

definition claim_iat :: "json \<Rightarrow> raw option" where
  "claim_iat j = (case j of
     JNull \<Rightarrow> None
   | JInt i \<Rightarrow> Some (RNum (Fin (of_int i)))
   | JFloat x \<Rightarrow> Some (RNum x)
   | _ \<Rightarrow> Some (RJson j))"

text \<open>The tenant a token names, as it is compared with the account's.\<close>

definition claim_company :: "jobject \<Rightarrow> string option" where
  "claim_company claims = (let c = jget claims ''company_id'' in if truthy c then Some (py_lower (py_str c)) else None)"

definition presented_token :: "string option \<Rightarrow> string option \<Rightarrow> string option" where
  "presented_token authorization if_access =
     (case authorization of
        Some a \<Rightarrow>
          if starts_with a ''Bearer '' then Some (py_replace ''Bearer '' [] a)
          else (case if_access of Some [] \<Rightarrow> None | t \<Rightarrow> t)
      | None \<Rightarrow> (case if_access of Some [] \<Rightarrow> None | t \<Rightarrow> t))"

definition ml_verify_jwt_token ::
    "(string \<Rightarrow> jobject option) \<Rightarrow> (string \<Rightarrow> account_row option result) \<Rightarrow> reader \<Rightarrow> string option \<Rightarrow> string option \<Rightarrow>
     http_error + caller" where
  "ml_verify_jwt_token decode accounts aget authorization if_access =
     (case presented_token authorization if_access of
        None \<Rightarrow> Inl (HTTPException 401 ''Missing or invalid authorization header'')
      | Some token \<Rightarrow>
          (case decode token of
             None \<Rightarrow> Inl (HTTPException 401 ''Invalid or expired token'')
           | Some claims \<Rightarrow>
               if \<not> truthy (jget claims ''sub'') then Inl (HTTPException 401 ''Invalid token payload'')
               else let user_id = py_str (jget claims ''sub'')
                    in (case usable_account accounts user_id of
                          Inl _ \<Rightarrow> Inl (HTTPException 503 ''Account store not available'')
                        | Inr (Inl e) \<Rightarrow> Inl e
                        | Inr (Inr None) \<Rightarrow> Inl (HTTPException 401 ''User not found or inactive'')
                        | Inr (Inr (Some row)) \<Rightarrow>
                            if claim_company claims \<noteq> ac_company row
                            then Inl (HTTPException 401 ''Token names another tenant than the account'')
                            else (case session_ended aget user_id (claim_sid (jget claims ''sid'')) (claim_iat (jget claims ''iat'')) of
                                    Inl _ \<Rightarrow> Inl (HTTPException 503 ''Session store not available'')
                                  | Inr True \<Rightarrow> Inl (HTTPException 401 ''Session ended'')
                                  | Inr False \<Rightarrow>
                                      Inr \<lparr>cl_user = user_id, cl_claims = claims, cl_role = ac_role row, cl_superuser = ac_superuser row\<rparr>))))"

definition require_writer :: "caller \<Rightarrow> http_error + caller" where
  "require_writer u =
     (if cl_superuser u \<or> cl_role u \<in> set WRITER_ROLES then Inr u
      else Inl (HTTPException 403 ''Required role: engineer or admin''))"

definition company_id_of :: "caller \<Rightarrow> http_error + string" where
  "company_id_of u =
     (let claim = jget (cl_claims u) ''company_id''
      in if \<not> truthy claim then Inl (HTTPException 401 ''Token carries no tenant'')
         else case canonical_company_id (py_str claim) of
                Inl _ \<Rightarrow> Inl (HTTPException 401 ''Token carries an invalid tenant'')
              | Inr c \<Rightarrow> Inr c)"

text \<open>
  \<open>_resolve_company_id\<close>: a caller with the internal token names the tenant, anyone else is verified. The two texts
  are compared in constant time, and an unset token disables the path.
\<close>

definition resolve_company_id :: "string option \<Rightarrow> string option \<Rightarrow> string option \<Rightarrow> http_error + caller \<Rightarrow> http_error + string" where
  "resolve_company_id internal_token presented body_company verified =
     (if internal_token \<notin> {None, Some []} \<and> presented \<notin> {None, Some []} \<and> presented = internal_token then
        (case body_company of
           None \<Rightarrow> Inl (HTTPException 400 ''company_id required for internal service calls'')
         | Some c \<Rightarrow>
             if c = [] then Inl (HTTPException 400 ''company_id required for internal service calls'')
             else (case canonical_company_id c of
                     Inl _ \<Rightarrow> Inl (HTTPException 400 ''company_id must be a valid UUID'')
                   | Inr c' \<Rightarrow> Inr c'))
      else (case verified of Inl e \<Rightarrow> Inl e | Inr u \<Rightarrow> company_id_of u))"

section \<open>Whom it admits\<close>

text \<open>A UUID in capitals is read as the same in small letters.\<close>

lemma char_lower_hex_all:
  "list_all (\<lambda>c. (lower_hex (char_lower c) \<longrightarrow> hex_val c = hex_val (char_lower c)) \<and> (char_lower c = CHR ''-'' \<longleftrightarrow> c = CHR ''-'')) (Enum.enum :: char list)"
  by code_simp

lemma char_lower_hex: "lower_hex (char_lower c) \<Longrightarrow> hex_val c = hex_val (char_lower c)" "char_lower c = CHR ''-'' \<longleftrightarrow> c = CHR ''-''"
  using char_lower_hex_all by (simp_all add: list_all_iff enum_UNIV)

lemma uuid_parse_hex:
  assumes "length (filter (\<lambda>c. c \<noteq> CHR ''-'') s) = 32" "list_all (\<lambda>c. is_hex c \<or> c = CHR ''-'') s" "is_hex (hd s)" "is_hex (last s)"
  shows "uuid_parse s =
    (let i = horner16 (map (the \<circ> hex_val) (filter (\<lambda>c. c \<noteq> CHR ''-'') s)) in if 0 \<le> i \<and> i < 2 ^ 128 then Some i else None)"
proof -
  let ?f = "filter (\<lambda>c. c \<noteq> CHR ''-'') s"
  have nohex: "\<not> is_hex (CHR ''u'')" "\<not> is_hex (CHR ''{'')" "\<not> is_hex (CHR ''}'')" by (simp_all add: is_hex_def hex_val_def ord_def)
  have "CHR ''u'' \<notin> set s" using assms(2) nohex(1) by (auto simp: list_all_iff)
  then have r: "py_replace ''uuid:'' [] (py_replace ''urn:'' [] s) = s" by (simp add: py_replace_absent)
  have "hd s \<notin> set ''{}''" "last s \<notin> set ''{}''" using assms(3,4) nohex by auto
  then have st: "strip_chars ''{}'' s = s" by (intro strip_chars_id) blast
  have "list_all is_hex ?f" using assms(2) by (auto simp: list_all_iff)
  moreover have "?f \<noteq> []" using assms(1) by auto
  ultimately have "int_base16 ?f = Some (horner16 (map (the \<circ> hex_val) ?f))" by (rule int_base16_hex)
  then show ?thesis using assms(1) by (simp add: uuid_parse_def r st py_replace_delete Let_def)
qed

lemma uuid_parse_any_case:
  assumes "py_lower s = uuid_str n"
  shows "uuid_parse s = uuid_parse (uuid_str n)"
proof -
  have ne: "s \<noteq> []" using assms uuid_str_ends(3) [of n] by (auto simp: py_lower_def)
  have mem: "lower_hex (char_lower c) \<or> char_lower c = CHR ''-''" if "c \<in> set s" for c
    using that set_uuid_str [of "char_lower c" n] unfolding assms [symmetric] by (auto simp: py_lower_def)
  have hex: "is_hex c \<longleftrightarrow> is_hex (char_lower c)" if "c \<in> set s" for c
    using mem [OF that] char_lower_hex [of c] unfolding is_hex_def by metis
  have f: "map char_lower (filter (\<lambda>c. c \<noteq> CHR ''-'') s) = filter (\<lambda>c. c \<noteq> CHR ''-'') (uuid_str n)"
    unfolding assms [symmetric] py_lower_def filter_map by (simp add: o_def char_lower_hex(2))
  have v: "map (the \<circ> hex_val) (filter (\<lambda>c. c \<noteq> CHR ''-'') s) = map (the \<circ> hex_val) (filter (\<lambda>c. c \<noteq> CHR ''-'') (uuid_str n))"
  proof -
    have "hex_val x = hex_val (char_lower x)" if "x \<in> set (filter (\<lambda>c. c \<noteq> CHR ''-'') s)" for x
      using mem [of x] char_lower_hex [of x] that by auto
    then show ?thesis unfolding f [symmetric] by simp
  qed
  have ends: "lower_hex (char_lower (hd s))" "lower_hex (char_lower (last s))"
    using uuid_str_ends(1,2) [of n] ne unfolding assms [symmetric] by (simp_all add: py_lower_def hd_map last_map)
  have small: "list_all (\<lambda>c. is_hex c \<or> c = CHR ''-'') (uuid_str n)" "is_hex (hd (uuid_str n))" "is_hex (last (uuid_str n))"
    using set_uuid_str uuid_str_ends(1,2) lower_hex_is_hex unfolding list_all_iff by blast+
  have "list_all (\<lambda>c. is_hex c \<or> c = CHR ''-'') s"
    using mem hex char_lower_hex(2) lower_hex_is_hex by (auto simp: list_all_iff)
  moreover have "is_hex (hd s)" "is_hex (last s)" using hex ends ne lower_hex_is_hex by simp_all
  moreover have len: "length (filter (\<lambda>c. c \<noteq> CHR ''-'') s) = length (filter (\<lambda>c. c \<noteq> CHR ''-'') (uuid_str n))"
    using arg_cong [OF f, of length] by simp
  moreover have "length (filter (\<lambda>c. c \<noteq> CHR ''-'') (uuid_str n)) = 32"
  proof -
    have "CHR ''-'' \<notin> set (hex_fixed 32 n)" using lower_hex_hex_fixed lower_hex_neq by fastforce
    then show ?thesis by (simp add: uuid_str_def filter_hyphenate)
  qed
  ultimately show ?thesis using uuid_parse_hex [of s] uuid_parse_hex [OF _ small] v by simp
qed

lemma canonical_any_case:
  assumes "py_lower s = c" "canonical_company_id c = Inr c"
  shows "canonical_company_id s = Inr c"
proof -
  obtain n where n: "uuid_parse c = Some n" "uuid_str n = c"
    using assms(2) by (auto simp: canonical_company_id_def split: option.splits)
  have "uuid_parse s = uuid_parse c" using uuid_parse_any_case [of s n] assms(1) n(2) by simp
  then show ?thesis using n by (simp add: canonical_company_id_def)
qed

text \<open>
  C37. The model service serves a caller only with a token that decodes, whose user exists and is active, whose company,
  if it has one, is active, who need not change the password first, whose token names exactly the account's company, and
  whose session has not ended; a store that does not answer admits nobody. The tenant it then works in is the account's
  own company, never one the request or the token chose, and a write needs the role the account holds now. A service
  with the internal token names a tenant by a valid identifier.
\<close>

theorem ml_caller_admitted:
  assumes "ml_verify_jwt_token decode accounts aget authorization if_access = Inr u"
    and "\<forall>uid row c. accounts uid = Inr (Some row) \<and> ac_company row = Some c \<longrightarrow> canonical_company_id c = Inr c"
  shows "\<exists>token row n. presented_token authorization if_access = Some token \<and> decode token = Some (cl_claims u) \<and>
    uuid_parse (cl_user u) = Some n \<and> accounts (uuid_str n) = Inr (Some row) \<and> ac_user_active row \<and> \<not> ac_password_change row \<and>
    (ac_company row \<noteq> None \<longrightarrow> ac_company_active row) \<and>
    session_ended aget (cl_user u) (claim_sid (jget (cl_claims u) ''sid'')) (claim_iat (jget (cl_claims u) ''iat'')) = Inr False \<and>
    (\<forall>c. company_id_of u = Inr c \<longleftrightarrow> ac_company row = Some c) \<and>
    (require_writer u = Inr u \<longleftrightarrow> ac_superuser row \<or> ac_role row \<in> set WRITER_ROLES) \<and>
    (\<forall>t p b c. resolve_company_id t p b (Inr u) = Inr c \<longrightarrow> ac_company row = Some c \<or>
       (t \<noteq> None \<and> t \<noteq> Some [] \<and> p = t \<and> b \<noteq> None \<and> canonical_company_id (the b) = Inr c))"
proof -
  obtain token claims where t: "presented_token authorization if_access = Some token" "decode token = Some claims" "truthy (jget claims ''sub'')"
    using assms(1) by (auto simp: ml_verify_jwt_token_def split: option.splits if_splits)
  obtain row where a: "usable_account accounts (py_str (jget claims ''sub'')) = Inr (Inr (Some row))" "claim_company claims = ac_company row"
    using assms(1) t by (auto simp: ml_verify_jwt_token_def Let_def split: sum.splits option.splits if_splits)
  have s: "session_ended aget (py_str (jget claims ''sub'')) (claim_sid (jget claims ''sid'')) (claim_iat (jget claims ''iat'')) = Inr False"
    and u: "u = \<lparr>cl_user = py_str (jget claims ''sub''), cl_claims = claims, cl_role = ac_role row, cl_superuser = ac_superuser row\<rparr>"
    using assms(1) t a by (auto simp: ml_verify_jwt_token_def Let_def split: sum.splits bool.splits)
  obtain n where n: "uuid_parse (py_str (jget claims ''sub'')) = Some n" "accounts (uuid_str n) = Inr (Some row)"
      "ac_user_active row" "\<not> ac_password_change row" "ac_company row \<noteq> None \<longrightarrow> ac_company_active row"
    using a(1) by (auto simp: usable_account_def split: option.splits sum.splits if_splits)
  have comp: "company_id_of u = Inr c \<longleftrightarrow> ac_company row = Some c" for c
  proof (cases "truthy (jget claims ''company_id'')")
    case True
    then have low: "ac_company row = Some (py_lower (py_str (jget claims ''company_id'')))" using a(2) by (simp add: claim_company_def)
    then have "canonical_company_id (py_str (jget claims ''company_id'')) = Inr (py_lower (py_str (jget claims ''company_id'')))"
      using assms(2) n(2) by (intro canonical_any_case [OF refl]) blast
    then show ?thesis using True low u by (auto simp: company_id_of_def)
  next
    case False
    then show ?thesis using a(2) u by (auto simp: company_id_of_def claim_company_def)
  qed
  have res: "ac_company row = Some x \<or> (i \<noteq> None \<and> i \<noteq> Some [] \<and> p = i \<and> b \<noteq> None \<and> canonical_company_id (the b) = Inr x)"
    if "resolve_company_id i p b (Inr u) = Inr x" for i p b x
  proof (cases "i \<notin> {None, Some []} \<and> p \<notin> {None, Some []} \<and> p = i")
    case True
    then show ?thesis using that by (auto simp: resolve_company_id_def split: option.splits if_splits sum.splits)
  next
    case False
    then have "company_id_of u = Inr x" using that unfolding resolve_company_id_def by (simp only: if_False sum.case)
    then show ?thesis using comp by blast
  qed
  have "require_writer u = Inr u \<longleftrightarrow> ac_superuser row \<or> ac_role row \<in> set WRITER_ROLES" by (auto simp: u require_writer_def)
  then show ?thesis using t n s comp res
    by (intro exI [of _ token] exI [of _ row] exI [of _ n]) (simp add: u)
qed

text \<open>An engineer of tenant A, whose token writes the company in capitals.\<close>

definition demo_accounts :: "string \<Rightarrow> account_row option result" where
  "demo_accounts uid = (if uid = uuid_b then Inr (Some \<lparr>ac_user_active = True, ac_company = Some uuid_a, ac_company_active = True,
     ac_role = ''engineer'', ac_superuser = False, ac_password_change = False\<rparr>) else Inr None)"

definition demo_decode :: "string \<Rightarrow> jobject option" where
  "demo_decode token = (if token = ''jwt'' then Some [(''sub'', JStr uuid_b), (''company_id'', JStr ''0B2F503A-6E59-4C8D-9A01-0123456789AB''), (''sid'', JStr ''s1''), (''iat'', JInt 1000)] else None)"

theorem ml_caller_admitted_witness:
  "\<exists>u. ml_verify_jwt_token demo_decode demo_accounts (\<lambda>_. Inr None) (Some ''Bearer jwt'') None = Inr u \<and> company_id_of u = Inr uuid_a \<and> require_writer u = Inr u"
proof -
  let ?u = "\<lparr>cl_user = uuid_b, cl_claims = [(''sub'', JStr uuid_b), (''company_id'', JStr ''0B2F503A-6E59-4C8D-9A01-0123456789AB''), (''sid'', JStr ''s1''), (''iat'', JInt 1000)],
      cl_role = ''engineer'', cl_superuser = False\<rparr>"
  have v: "ml_verify_jwt_token demo_decode demo_accounts (\<lambda>_. Inr None) (Some ''Bearer jwt'') None = Inr ?u" by code_simp
  have c: "\<forall>uid row c. demo_accounts uid = Inr (Some row) \<and> ac_company row = Some c \<longrightarrow> canonical_company_id c = Inr c"
  proof (intro allI impI)
    fix uid row c
    assume "demo_accounts uid = Inr (Some row) \<and> ac_company row = Some c"
    then have "c = uuid_a" unfolding demo_accounts_def by (cases "uid = uuid_b") auto
    then show "canonical_company_id c = Inr c" by simp
  qed
  from ml_caller_admitted [OF v c] obtain token row n where t: "demo_accounts (uuid_str n) = Inr (Some row)"
      "\<forall>c. company_id_of ?u = Inr c \<longleftrightarrow> ac_company row = Some c"
      "require_writer ?u = Inr ?u \<longleftrightarrow> ac_superuser row \<or> ac_role row \<in> set WRITER_ROLES"
    by (elim exE conjE) (rule that, assumption+)
  have "Some row \<in> {None, Some \<lparr>ac_user_active = True, ac_company = Some uuid_a, ac_company_active = True,
     ac_role = ''engineer'', ac_superuser = False, ac_password_change = False\<rparr>}"
    using t(1) unfolding demo_accounts_def by (cases "uuid_str n = uuid_b") simp_all
  then have r: "ac_company row = Some uuid_a" "ac_role row = ''engineer''" by simp_all
  have "company_id_of ?u = Inr uuid_a" using t(2) r(1) by blast
  moreover have "require_writer ?u = Inr ?u" using t(3) r(2) by (simp add: WRITER_ROLES_def)
  ultimately show ?thesis using v by blast
qed

end
