(* ===== verification/Model_Gates.thy ===== *)
theory Model_Gates
  imports Detectors Feature_Engine Drift_Profile Model_Auth
begin

text \<open>
  What admits a model, and what serves it (\<open>services/ml_service/api\<close>): the tables of a tenant and their operations
  (\<open>repository.py\<close>, with the rules \<open>30-bound-feature-config.sql\<close> puts on them), the registration and deployment gates
  (\<open>routers/models.py\<close>), the isolated probe's verdict (\<open>load_probe.py\<close>), the baseline derived at deployment
  (\<open>baseline_gate.py\<close>), the feature configurations (\<open>routers/feature_configs.py\<close>) and a score (\<open>routers/inference.py\<close>).

  Columns no gate reads are left out. Identifiers are texts in the database's spelling: one that is no UUID is taken to
  match no row, where the code answers 500. The tracking store, the artifact store, the probe's process and the models
  are parameters, and each use of one may be answered differently. Details of the answers are shortened.
\<close>

text \<open>What the framework answers when a handler raises anything else.\<close>

definition internal_error :: http_error where
  "internal_error = HTTPException 500 ''Internal Server Error''"

section \<open>The tables of a tenant\<close>

record ml_model =
  mm_id :: string
  mm_name :: string
  mm_version :: int
  mm_run :: "string option"
  mm_uri :: "string option"
  mm_provenance :: "string option"
  mm_detector :: "string option"
  mm_config :: "string option"
  mm_equipment :: "string option"
  mm_sensor_ids :: "string list option"
  mm_profile :: "jobject option"
  mm_metrics :: jobject
  mm_compat :: "compat_status option"
  mm_status :: string

record config_row =
  cf_id :: string
  cf_equipment_type :: string
  cf_name :: string
  cf_description :: "string option"
  cf_inputs :: feature_config

text \<open>A sensor: its equipment, its name and its id.\<close>

record ml_tables =
  tb_models :: "ml_model list"
  tb_configs :: "config_row list"
  tb_sensors :: "(string \<times> string \<times> string) list"

type_synonym ml_db = "string \<Rightarrow> ml_tables"

text \<open>\<open>tenant_connection\<close>: a statement runs in the schema of the tenant it is given, and nowhere else.\<close>

definition in_tenant :: "ml_db \<Rightarrow> string \<Rightarrow> (ml_tables \<Rightarrow> 'a \<times> ml_tables) \<Rightarrow> 'a result \<times> ml_db" where
  "in_tenant db company_id f =
     (case schema_name company_id of
        Inl e \<Rightarrow> (Inl e, db)
      | Inr schema \<Rightarrow> (case f (db schema) of (a, tb) \<Rightarrow> (Inr a, db(schema := tb))))"

definition get_model_by_id :: "ml_tables \<Rightarrow> string \<Rightarrow> ml_model option" where
  "get_model_by_id tb i = List.find (\<lambda>m. mm_id m = i) (tb_models tb)"

definition get_feature_config_by_id :: "ml_tables \<Rightarrow> string \<Rightarrow> config_row option" where
  "get_feature_config_by_id tb i = List.find (\<lambda>c. cf_id c = i) (tb_configs tb)"

text \<open>\<open>sensor_ids_by_name\<close>: a dict, so of two rows with one name the later stands.\<close>

definition sensor_ids_by_name :: "ml_tables \<Rightarrow> string \<Rightarrow> string list \<Rightarrow> (string, string) od" where
  "sensor_ids_by_name tb equipment names =
     foldl (\<lambda>d (e, n, s). if e = equipment \<and> n \<in> set names then od_set d n s else d) [] (tb_sensors tb)"

definition update_model :: "string \<Rightarrow> (ml_model \<Rightarrow> ml_model) \<Rightarrow> ml_tables \<Rightarrow> ml_tables" where
  "update_model i f tb = tb \<lparr>tb_models := map (\<lambda>m. if mm_id m = i then f m else m) (tb_models tb)\<rparr>"

text \<open>The statements a deployment or a deletion issues.\<close>

datatype ml_write = SetCompat string compat_status | SetProfile string jobject | SetStatus string string

fun apply_write :: "ml_write \<Rightarrow> ml_tables \<Rightarrow> ml_tables" where
  "apply_write (SetCompat i s) tb = update_model i (\<lambda>m. m \<lparr>mm_compat := Some s\<rparr>) tb"
| "apply_write (SetProfile i p) tb = update_model i (\<lambda>m. m \<lparr>mm_profile := Some p\<rparr>) tb"
| "apply_write (SetStatus i s) tb = update_model i (\<lambda>m. m \<lparr>mm_status := s\<rparr>) tb"

definition MODEL_STATUSES :: "string list" where
  "MODEL_STATUSES = [''training'', ''active'', ''production'', ''deprecated'', ''failed'']"

section \<open>A registration request\<close>

record model_request =
  mq_name :: string
  mq_version :: string
  mq_run :: "string option"
  mq_uri :: "string option"
  mq_semantics :: "string option"
  mq_detector :: "string option"
  mq_status :: string
  mq_config :: "string option"
  mq_equipment :: "string option"
  mq_sensor_ids :: "string list option"
  mq_profile :: "jobject option"
  mq_metrics :: "jobject option"
  mq_provenance :: string
  mq_compat :: "compat_status option"

text \<open>\<open>int(value.split('.')[0])\<close>, or 1.\<close>

definition major_version :: "string \<Rightarrow> int" where
  "major_version v = (case py_int (hd (split_on (CHR ''.'') v)) of Some i \<Rightarrow> i | None \<Rightarrow> 1)"

definition model_of_request :: "string \<Rightarrow> model_request \<Rightarrow> ml_model" where
  "model_of_request i q =
     \<lparr>mm_id = i, mm_name = mq_name q, mm_version = major_version (mq_version q), mm_run = mq_run q, mm_uri = mq_uri q,
      mm_provenance = Some (mq_provenance q), mm_detector = mq_detector q, mm_config = mq_config q, mm_equipment = mq_equipment q,
      mm_sensor_ids = mq_sensor_ids q, mm_profile = mq_profile q, mm_metrics = (case mq_metrics q of None \<Rightarrow> [] | Some d \<Rightarrow> d),
      mm_compat = mq_compat q, mm_status = mq_status q\<rparr>"

datatype create_error = FeatureConfigChanged | UniqueViolation | InsertFailed

text \<open>
  \<open>create_model\<close>, one transaction: the configuration is locked and compared with what was validated, then the row is
  inserted, which the table's constraints may refuse.
\<close>

definition create_model :: "string \<Rightarrow> model_request \<Rightarrow> feature_config option \<Rightarrow> ml_tables \<Rightarrow> create_error + ml_tables" where
  "create_model i q bound tb =
     (if bound \<noteq> None \<and> given (mq_config q) \<and>
         map_option cf_inputs (get_feature_config_by_id tb (the (mq_config q))) \<noteq> bound then Inl FeatureConfigChanged
      else let m = model_of_request i q
           in if mm_status m \<notin> set MODEL_STATUSES \<or> \<not> (- (2 ^ 31) \<le> mm_version m \<and> mm_version m < 2 ^ 31) \<or>
                 (case mm_config m of None \<Rightarrow> False | Some c \<Rightarrow> get_feature_config_by_id tb c = None) then Inl InsertFailed
              else if list_ex (\<lambda>m'. mm_id m' = i \<or> mm_name m' = mm_name m \<and> mm_version m' = mm_version m) (tb_models tb)
              then Inl UniqueViolation
              else Inr (tb \<lparr>tb_models := tb_models tb @ [m]\<rparr>))"

section \<open>What the gates ask\<close>

text \<open>
  One pass through a gate: how the tracking store answers at each of its three uses, the manifest and the declarations
  of an artifact (None where they cannot be read), what is installed, and the detectors that are loaded.
\<close>

record 'm gate_env =
  ge_admit :: "'m serving"
  ge_manifest_store :: "'m serving"
  ge_manifest :: "string \<Rightarrow> flavors option"
  ge_compat_store :: "'m serving"
  ge_declared :: "string \<Rightarrow> (string option \<times> string list) option"
  ge_installed :: "string \<Rightarrow> string option"
  ge_detectors :: detectors

definition evaluate_or_reject ::
    "'m gate_env \<Rightarrow> string option \<Rightarrow> string option \<Rightarrow> int \<Rightarrow> http_error + Compatibility option" where
  "evaluate_or_reject env run uri on_incompatible =
     (if \<not> given run \<and> \<not> given uri then Inr None
      else case (if given run then resolve_model_uri (ge_compat_store env) (the run) else Inr (the uri)) of
             Inl _ \<Rightarrow> Inl internal_error
           | Inr u \<Rightarrow>
               (case ge_declared env u of
                  None \<Rightarrow> Inl (HTTPException 503 ''Could not read the declared requirements'')
                | Some (flavor, lines) \<Rightarrow>
                    let c = evaluate_compat (ge_installed env) (ge_detectors env) flavor lines
                    in if \<not> servable c then Inl (HTTPException on_incompatible ''cannot honour what the model declares'')
                       else Inr (Some c)))"

definition admit_address_or_refuse ::
    "'m gate_env \<Rightarrow> string \<Rightarrow> string option \<Rightarrow> string option \<Rightarrow> int \<Rightarrow> http_error + unit" where
  "admit_address_or_refuse env company_id run uri on_refused =
     (case check_admissible (ge_admit env) company_id run uri of
        Inr _ \<Rightarrow> Inr ()
      | Inl ModelNotAdmissible \<Rightarrow> Inl (HTTPException on_refused ''not one your tenant may register or serve'')
      | Inl TrackingStoreUnavailable \<Rightarrow> Inl (HTTPException 503 ''The tracking store did not answer'')
      | Inl _ \<Rightarrow> Inl internal_error)"

definition refuse_author_code_or_reject ::
    "'m gate_env \<Rightarrow> string option \<Rightarrow> string option \<Rightarrow> int \<Rightarrow> http_error + unit" where
  "refuse_author_code_or_reject env run uri on_refused =
     (case model_uri_for (ge_manifest_store env) run uri of
        Inl _ \<Rightarrow> Inl (HTTPException 503 ''Could not read the manifest'')
      | Inr u \<Rightarrow>
          (case ge_manifest env u of
             None \<Rightarrow> Inl (HTTPException 503 ''Could not read the manifest'')
           | Some fl \<Rightarrow>
               (case refuse_author_code fl of
                  Inr _ \<Rightarrow> Inr ()
                | Inl UnsafeArtifact \<Rightarrow> Inl (HTTPException on_refused ''would run code its author chose'')
                | Inl _ \<Rightarrow> Inl internal_error)))"

definition kernel_detector_or_refuse :: "detectors \<Rightarrow> string option \<Rightarrow> string option \<Rightarrow> http_error + string" where
  "kernel_detector_or_refuse reg named flavor =
     (let name = (if given named then the named else ''sklearn'')
      in case od_get reg name of
           None \<Rightarrow> Inl (HTTPException 422 ''No detector of that name is loaded'')
         | Some d \<Rightarrow>
             if given flavor \<and> dt_flavors d \<noteq> [] \<and> the flavor \<notin> set (dt_flavors d)
             then Inl (HTTPException 422 ''The detector does not score such models'')
             else Inr name)"

text \<open>The detector of an uploaded model: judged by what it declares, and a named one held to that.\<close>

definition uploaded_detector_or_refuse ::
    "detectors \<Rightarrow> string option \<Rightarrow> string option \<Rightarrow> string option \<Rightarrow> http_error + string" where
  "uploaded_detector_or_refuse reg semantics flavor named =
     (case judge_semantics semantics flavor reg of
        Judged d \<Rightarrow>
          if given named then
            (if the named \<in> set (detectors_for reg (the semantics) (the flavor)) then Inr (the named)
             else Inl (HTTPException 422 ''The detector does not implement the semantics''))
          else Inr d
      | _ \<Rightarrow> Inl (HTTPException 422 ''semantics refused''))"

section \<open>The registration gate\<close>

text \<open>\<open>_bind_inputs_and_baseline\<close>: the request with its sensors and baseline, and the inputs as they were validated.\<close>

definition bound_baseline :: "string option \<Rightarrow> jobject option \<Rightarrow> string list \<Rightarrow> jobject option" where
  "bound_baseline sample_reason profile base_sensors =
     (if given sample_reason then Some (refused_baseline (the sample_reason))
      else case profile of
             None \<Rightarrow> None
           | Some p \<Rightarrow>
               if p = [] then Some []
               else (case (case supplied_scores_refusal p of Some f \<Rightarrow> Some f | None \<Rightarrow> sample_refusal (JObj p) base_sensors) of
                       Some f \<Rightarrow> Some (refused_baseline (fault_text f))
                     | None \<Rightarrow> Some (accepted_sample p)))"

definition bind_inputs_and_baseline ::
    "ml_tables \<Rightarrow> model_request \<Rightarrow> string option \<Rightarrow> http_error + model_request \<times> feature_config option" where
  "bind_inputs_and_baseline tb q sample_reason =
     (case (if given (mq_config q) then map_option Some (get_feature_config_by_id tb (the (mq_config q))) else Some None) of
        None \<Rightarrow> Inl (HTTPException 422 ''Feature config does not exist'')
      | Some config \<Rightarrow>
          let base = (case config of None \<Rightarrow> [] | Some c \<Rightarrow> fc_base_sensors (cf_inputs c));
              bind = config \<noteq> None \<and> given (mq_equipment q) \<and> (mq_sensor_ids q = None \<or> mq_sensor_ids q = Some []);
              found = sensor_ids_by_name tb (the (mq_equipment q)) base
          in if bind \<and> list_ex (\<lambda>n. od_get found n = None) base
             then Inl (HTTPException 422 ''The equipment lacks a sensor'')
             else Inr ((if bind then q \<lparr>mq_sensor_ids := Some (map (\<lambda>n. the (od_get found n)) base)\<rparr> else q)
                        \<lparr>mq_profile := bound_baseline sample_reason (mq_profile q) base\<rparr>,
                       map_option cf_inputs config))"

text \<open>The checks of \<open>register_model\<close>, up to the insert.\<close>

definition registration_checks ::
    "'m gate_env \<Rightarrow> ml_tables \<Rightarrow> string \<Rightarrow> model_request \<Rightarrow> string option \<Rightarrow> http_error + model_request \<times> feature_config option" where
  "registration_checks env tb company_id q sample_reason =
     (let provenance = provenance_of (mq_run q); q = q \<lparr>mq_provenance := provenance\<rparr>
      in if provenance = PROVENANCE_UPLOADED \<and> \<not> given (mq_uri q) then Inl (HTTPException 422 ''neither a run nor an artifact'')
         else case admit_address_or_refuse env company_id (mq_run q) (mq_uri q) 422 of
           Inl e \<Rightarrow> Inl e
         | Inr _ \<Rightarrow>
         (case refuse_author_code_or_reject env (mq_run q) (mq_uri q) 422 of
           Inl e \<Rightarrow> Inl e
         | Inr _ \<Rightarrow>
         (case evaluate_or_reject env (mq_run q) (mq_uri q) 422 of
           Inl e \<Rightarrow> Inl e
         | Inr judged \<Rightarrow>
             let q = q \<lparr>mq_compat := map_option cm_status judged\<rparr>;
                 flavor = (case judged of None \<Rightarrow> None | Some c \<Rightarrow> cm_flavor c)
             in (case (if provenance = PROVENANCE_UPLOADED
                       then uploaded_detector_or_refuse (ge_detectors env) (mq_semantics q) flavor (mq_detector q)
                       else kernel_detector_or_refuse (ge_detectors env) (mq_detector q) flavor) of
                   Inl e \<Rightarrow> Inl e
                 | Inr d \<Rightarrow> bind_inputs_and_baseline tb (q \<lparr>mq_detector := Some d, mq_semantics := None\<rparr>) sample_reason))))"

text \<open>
  \<open>register_model\<close>: the checks read the tables at one moment, the insert meets them at a later one. The answer is the new
  model's id.
\<close>

definition register_model ::
    "'m gate_env \<Rightarrow> ml_tables \<Rightarrow> string \<Rightarrow> string \<Rightarrow> model_request \<Rightarrow> string option \<Rightarrow> ml_tables \<Rightarrow> (http_error + string) \<times> ml_tables" where
  "register_model env seen company_id i q sample_reason tb =
     (case registration_checks env seen company_id q sample_reason of
        Inl e \<Rightarrow> (Inl e, tb)
      | Inr (q', bound) \<Rightarrow>
          (case create_model i q' bound tb of
             Inr tb' \<Rightarrow> (Inr i, tb')
           | Inl FeatureConfigChanged \<Rightarrow> (Inl (HTTPException 409 ''The feature config changed''), tb)
           | Inl UniqueViolation \<Rightarrow> (Inl (HTTPException 409 ''already registered''), tb)
           | Inl InsertFailed \<Rightarrow> (Inl (HTTPException 500 ''Failed to create model''), tb)))"

section \<open>What a registration establishes\<close>

lemma admit_address_owned: "admit_address_or_refuse env c run uri code = Inr x \<Longrightarrow> owns_address (ge_admit env) c run uri"
  by (intro check_admissible_owned) (auto simp: admit_address_or_refuse_def split: sum.splits model_error.splits)

text \<open>The manifest the gate read of the address names a data-only loader and ships no code.\<close>

definition manifest_data_only :: "'m gate_env \<Rightarrow> string option \<Rightarrow> string option \<Rightarrow> bool" where
  "manifest_data_only env run uri \<longleftrightarrow>
     (\<exists>u fl. model_uri_for (ge_manifest_store env) run uri = Inr u \<and> ge_manifest env u = Some fl \<and> data_only fl)"

lemma author_code_refused: "refuse_author_code_or_reject env run uri code = Inr x \<Longrightarrow> manifest_data_only env run uri"
  unfolding manifest_data_only_def refuse_author_code_iff [symmetric]
  by (auto simp: refuse_author_code_or_reject_def split: sum.splits option.splits load_error.splits)

text \<open>The declarations the gate read of the address, and that this environment honours them.\<close>

definition declared_servable :: "'m gate_env \<Rightarrow> string option \<Rightarrow> string option \<Rightarrow> string option \<Rightarrow> compat_status \<Rightarrow> bool" where
  "declared_servable env run uri flavor status \<longleftrightarrow>
     (\<exists>u lines. (if given run then resolve_model_uri (ge_compat_store env) (the run) = Inr u else uri = Some u) \<and>
        ge_declared env u = Some (flavor, lines) \<and>
        cm_status (evaluate_compat (ge_installed env) (ge_detectors env) flavor lines) = status \<and> status \<noteq> INCOMPATIBLE)"

lemma evaluate_compat_flavor [simp]: "cm_flavor (evaluate_compat installed reg flavor lines) = flavor"
  by (simp add: evaluate_compat_def Let_def split: prod.splits)

lemma evaluate_servable:
  assumes "evaluate_or_reject env run uri code = Inr v" "given run \<or> given uri"
  shows "\<exists>c. v = Some c \<and> declared_servable env run uri (cm_flavor c) (cm_status c)"
proof -
  obtain u where u: "(if given run then resolve_model_uri (ge_compat_store env) (the run) else Inr (the uri)) = Inr u"
    using assms by (auto simp: evaluate_or_reject_def split: sum.splits if_splits)
  obtain flavor lines where d: "ge_declared env u = Some (flavor, lines)"
    using assms u by (auto simp: evaluate_or_reject_def split: option.splits)
  let ?c = "evaluate_compat (ge_installed env) (ge_detectors env) flavor lines"
  have v: "v = Some ?c" "servable ?c" using assms u d by (auto simp: evaluate_or_reject_def Let_def split: if_splits)
  have "(if given run then resolve_model_uri (ge_compat_store env) (the run) = Inr u else uri = Some u)"
    using u assms(2) by (auto simp: given_def split: if_splits)
  then show ?thesis using v d unfolding declared_servable_def servable_def by (intro exI [of _ ?c]) auto
qed

lemma detectors_for_mem:
  "name \<in> set (detectors_for reg semantics flavor) \<longleftrightarrow> (\<exists>d. od_get reg name = Some d \<and> dt_semantics d = semantics \<and> flavor \<in> set (dt_flavors d))"
proof
  assume "\<exists>d. od_get reg name = Some d \<and> dt_semantics d = semantics \<and> flavor \<in> set (dt_flavors d)"
  then obtain d where d: "od_get reg name = Some d" "dt_semantics d = semantics" "flavor \<in> set (dt_flavors d)" by blast
  then have "name \<in> fst ` set reg" by (metis domI dom_map_of_conv_image_fst)
  then show "name \<in> set (detectors_for reg semantics flavor)" using d by (simp add: detectors_for_def registered_detectors_def)
qed (auto simp: detectors_for_def split: option.splits)

text \<open>The detector recorded is loaded; of an uploaded model it implements, for the model's flavor, the semantics declared.\<close>

definition detector_chosen :: "detectors \<Rightarrow> bool \<Rightarrow> string option \<Rightarrow> string option \<Rightarrow> string \<Rightarrow> bool" where
  "detector_chosen reg uploaded semantics flavor name \<longleftrightarrow>
     (\<exists>d. od_get reg name = Some d \<and>
        (if uploaded then semantics = Some (dt_semantics d) \<and> dt_semantics d \<in> set SCORE_SEMANTICS \<and> flavor \<noteq> None \<and> the flavor \<in> set (dt_flavors d)
         else given flavor \<longrightarrow> dt_flavors d = [] \<or> the flavor \<in> set (dt_flavors d)))"

lemma kernel_detector_chosen: "kernel_detector_or_refuse reg named flavor = Inr name \<Longrightarrow> detector_chosen reg False semantics flavor name"
  by (auto simp: kernel_detector_or_refuse_def detector_chosen_def Let_def split: option.splits if_splits)

lemma uploaded_detector_chosen:
  assumes "uploaded_detector_or_refuse reg semantics flavor named = Inr name"
  shows "detector_chosen reg True semantics flavor name"
proof -
  obtain d where j: "judge_semantics semantics flavor reg = Judged d"
    using assms by (auto simp: uploaded_detector_or_refuse_def split: SemanticsVerdict.splits)
  then have g: "given semantics" "the semantics \<in> set SCORE_SEMANTICS" "given flavor"
    by (auto simp: judge_semantics_def split: if_splits list.splits)
  obtain ds where "sort (detectors_for reg (the semantics) (the flavor)) = d # ds"
    using j g by (auto simp: judge_semantics_def split: list.splits)
  then have "d \<in> set (detectors_for reg (the semantics) (the flavor))" by (metis list.set_intros(1) set_sort)
  then have "name \<in> set (detectors_for reg (the semantics) (the flavor))"
    using assms j by (auto simp: uploaded_detector_or_refuse_def split: if_splits)
  then obtain t where "od_get reg name = Some t" "dt_semantics t = the semantics" "the flavor \<in> set (dt_flavors t)"
    unfolding detectors_for_mem by blast
  then show ?thesis using g unfolding detector_chosen_def given_def by (intro exI [of _ t]) auto
qed

text \<open>Everything the checks establish of the request they pass on.\<close>

definition registered_ok :: "'m gate_env \<Rightarrow> string \<Rightarrow> string option \<Rightarrow> ml_model \<Rightarrow> bool" where
  "registered_ok env c semantics m \<longleftrightarrow>
     owns_address (ge_admit env) c (mm_run m) (mm_uri m) \<and> manifest_data_only env (mm_run m) (mm_uri m) \<and>
     mm_provenance m = Some (provenance_of (mm_run m)) \<and>
     (\<exists>flavor status name. declared_servable env (mm_run m) (mm_uri m) flavor status \<and> mm_compat m = Some status \<and> mm_detector m = Some name \<and>
        detector_chosen (ge_detectors env) (provenance_of (mm_run m) = PROVENANCE_UPLOADED) semantics flavor name)"

lemma owns_address_given: "owns_address sv c run uri \<Longrightarrow> given run \<or> given uri"
  by (auto simp: owns_address_def split: if_splits)

lemma registration_checks_split:
  assumes "registration_checks env tb c q reason = Inr (q', bound)"
  shows "\<exists>judged name. admit_address_or_refuse env c (mq_run q) (mq_uri q) 422 = Inr () \<and>
    refuse_author_code_or_reject env (mq_run q) (mq_uri q) 422 = Inr () \<and>
    evaluate_or_reject env (mq_run q) (mq_uri q) 422 = Inr judged \<and>
    (if provenance_of (mq_run q) = PROVENANCE_UPLOADED
     then uploaded_detector_or_refuse (ge_detectors env) (mq_semantics q) (case judged of None \<Rightarrow> None | Some c \<Rightarrow> cm_flavor c) (mq_detector q)
     else kernel_detector_or_refuse (ge_detectors env) (mq_detector q) (case judged of None \<Rightarrow> None | Some c \<Rightarrow> cm_flavor c)) = Inr name \<and>
    bind_inputs_and_baseline tb (q \<lparr>mq_provenance := provenance_of (mq_run q), mq_compat := map_option cm_status judged,
      mq_detector := Some name, mq_semantics := None\<rparr>) reason = Inr (q', bound)"
proof -
  have a: "admit_address_or_refuse env c (mq_run q) (mq_uri q) 422 = Inr ()"
    using assms by (auto simp: registration_checks_def Let_def split: if_splits sum.splits)
  have b: "refuse_author_code_or_reject env (mq_run q) (mq_uri q) 422 = Inr ()"
    using assms a by (auto simp: registration_checks_def Let_def split: if_splits sum.splits)
  obtain judged where j: "evaluate_or_reject env (mq_run q) (mq_uri q) 422 = Inr judged"
    using assms a b by (auto simp: registration_checks_def Let_def split: if_splits sum.splits)
  let ?d = "if provenance_of (mq_run q) = PROVENANCE_UPLOADED
     then uploaded_detector_or_refuse (ge_detectors env) (mq_semantics q) (case judged of None \<Rightarrow> None | Some c \<Rightarrow> cm_flavor c) (mq_detector q)
     else kernel_detector_or_refuse (ge_detectors env) (mq_detector q) (case judged of None \<Rightarrow> None | Some c \<Rightarrow> cm_flavor c)"
  have up: "\<not> (provenance_of (mq_run q) = PROVENANCE_UPLOADED \<and> \<not> given (mq_uri q))"
    using assms by (intro notI) (simp add: registration_checks_def Let_def)
  have r: "(case ?d of Inl e \<Rightarrow> Inl e | Inr d \<Rightarrow>
      bind_inputs_and_baseline tb (q \<lparr>mq_provenance := provenance_of (mq_run q), mq_compat := map_option cm_status judged,
        mq_detector := Some d, mq_semantics := None\<rparr>) reason) = Inr (q', bound)"
    using assms up a b j unfolding registration_checks_def Let_def by (simp cong: option.case_cong if_cong)
  then obtain name where d: "?d = Inr name" by (cases ?d) simp_all
  have "bind_inputs_and_baseline tb (q \<lparr>mq_provenance := provenance_of (mq_run q), mq_compat := map_option cm_status judged,
        mq_detector := Some name, mq_semantics := None\<rparr>) reason = Inr (q', bound)" using r unfolding d by simp
  with a b j d show ?thesis by (intro exI [of _ judged] exI [of _ name] conjI)
qed

lemma bind_keeps:
  assumes "bind_inputs_and_baseline tb q reason = Inr (q', bound)"
  shows "mq_run q' = mq_run q \<and> mq_uri q' = mq_uri q \<and> mq_provenance q' = mq_provenance q \<and> mq_compat q' = mq_compat q \<and>
    mq_detector q' = mq_detector q \<and> mq_config q' = mq_config q \<and> mq_name q' = mq_name q \<and> mq_version q' = mq_version q \<and> mq_status q' = mq_status q \<and>
    (if given (mq_config q) then \<exists>cf. get_feature_config_by_id tb (the (mq_config q)) = Some cf \<and> bound = Some (cf_inputs cf) else bound = None)"
  using assms by (auto simp: bind_inputs_and_baseline_def Let_def split: option.splits if_splits)

lemma registration_ok:
  assumes "registration_checks env tb c q reason = Inr (q', bound)"
  shows "registered_ok env c (mq_semantics q) (model_of_request i q') \<and> mq_status q' = mq_status q \<and> mq_config q' = mq_config q \<and>
    mq_run q' = mq_run q \<and> mq_uri q' = mq_uri q \<and> mq_name q' = mq_name q \<and> mq_version q' = mq_version q"
proof -
  obtain judged name where s: "admit_address_or_refuse env c (mq_run q) (mq_uri q) 422 = Inr ()"
    "refuse_author_code_or_reject env (mq_run q) (mq_uri q) 422 = Inr ()"
    "evaluate_or_reject env (mq_run q) (mq_uri q) 422 = Inr judged"
    "(if provenance_of (mq_run q) = PROVENANCE_UPLOADED
     then uploaded_detector_or_refuse (ge_detectors env) (mq_semantics q) (case judged of None \<Rightarrow> None | Some c \<Rightarrow> cm_flavor c) (mq_detector q)
     else kernel_detector_or_refuse (ge_detectors env) (mq_detector q) (case judged of None \<Rightarrow> None | Some c \<Rightarrow> cm_flavor c)) = Inr name"
    "bind_inputs_and_baseline tb (q \<lparr>mq_provenance := provenance_of (mq_run q), mq_compat := map_option cm_status judged,
      mq_detector := Some name, mq_semantics := None\<rparr>) reason = Inr (q', bound)"
    using registration_checks_split [OF assms] by blast
  note k = bind_keeps [OF s(5), simplified]
  note own = admit_address_owned [OF s(1)]
  obtain cm where v: "judged = Some cm" "declared_servable env (mq_run q) (mq_uri q) (cm_flavor cm) (cm_status cm)"
    using evaluate_servable [OF s(3) owns_address_given [OF own]] by blast
  have "detector_chosen (ge_detectors env) (provenance_of (mq_run q) = PROVENANCE_UPLOADED) (mq_semantics q) (cm_flavor cm) name"
    using s(4) uploaded_detector_chosen kernel_detector_chosen unfolding v(1) by (auto split: if_splits)
  then show ?thesis using k own author_code_refused [OF s(2)] v by (auto simp: registered_ok_def model_of_request_def)
qed

section \<open>Feature configurations\<close>

text \<open>\<open>_known_transforms\<close>: each definition has a name, and a type that is registered; a list or a dict for a type raises.\<close>

definition known_transforms :: "transforms \<Rightarrow> jobject list \<Rightarrow> bool" where
  "known_transforms reg ts \<longleftrightarrow>
     list_all (\<lambda>t. (case jget t ''name'' of JStr n \<Rightarrow> n \<noteq> [] | _ \<Rightarrow> False) \<and> get_transform reg (jget t ''type'') \<noteq> None) ts"

text \<open>The models a configuration is bound by, which the trigger and the foreign key look for.\<close>

definition bound_by :: "ml_tables \<Rightarrow> string \<Rightarrow> ml_model list" where
  "bound_by tb i = filter (\<lambda>m. mm_config m = Some i) (tb_models tb)"

definition create_feature_config :: "transforms \<Rightarrow> config_row \<Rightarrow> ml_tables \<Rightarrow> (http_error + string) \<times> ml_tables" where
  "create_feature_config reg row tb =
     (if \<not> known_transforms reg (fc_transformations (cf_inputs row)) then (Inl (HTTPException 422 ''transformation refused''), tb)
      else if list_ex (\<lambda>c. cf_id c = cf_id row) (tb_configs tb) then (Inl (HTTPException 500 ''store''), tb)
      else if list_ex (\<lambda>c. cf_equipment_type c = cf_equipment_type row \<and> cf_name c = cf_name row) (tb_configs tb)
      then (Inl (HTTPException 400 ''already exists''), tb)
      else (Inr (cf_id row), tb \<lparr>tb_configs := tb_configs tb @ [row]\<rparr>))"

record config_update =
  cu_equipment_type :: "string option"
  cu_name :: "string option"
  cu_description :: "string option"
  cu_base_sensors :: "string list option"
  cu_transformations :: "jobject list option"

definition updated_config :: "config_update \<Rightarrow> config_row \<Rightarrow> config_row" where
  "updated_config u c =
     \<lparr>cf_id = cf_id c,
      cf_equipment_type = (case cu_equipment_type u of None \<Rightarrow> cf_equipment_type c | Some x \<Rightarrow> x),
      cf_name = (case cu_name u of None \<Rightarrow> cf_name c | Some x \<Rightarrow> x),
      cf_description = (case cu_description u of None \<Rightarrow> cf_description c | Some x \<Rightarrow> Some x),
      cf_inputs = \<lparr>fc_base_sensors = (case cu_base_sensors u of None \<Rightarrow> fc_base_sensors (cf_inputs c) | Some x \<Rightarrow> x),
                   fc_transformations = (case cu_transformations u of None \<Rightarrow> fc_transformations (cf_inputs c) | Some x \<Rightarrow> x)\<rparr>\<rparr>"

text \<open>The trigger \<open>refuse_bound_feature_config_change\<close>: whether an update of the row is refused.\<close>

definition bound_change_refused :: "ml_tables \<Rightarrow> config_row \<Rightarrow> config_row \<Rightarrow> bool" where
  "bound_change_refused tb old new \<longleftrightarrow> \<not> (cf_id new = cf_id old \<and> cf_inputs new = cf_inputs old) \<and> bound_by tb (cf_id old) \<noteq> []"

definition update_feature_config :: "transforms \<Rightarrow> string \<Rightarrow> config_update \<Rightarrow> ml_tables \<Rightarrow> (http_error + string) \<times> ml_tables" where
  "update_feature_config reg i u tb =
     (if (case cu_transformations u of None \<Rightarrow> False | Some ts \<Rightarrow> \<not> known_transforms reg ts) then (Inl (HTTPException 422 ''transformation refused''), tb)
      else case get_feature_config_by_id tb i of
             None \<Rightarrow> (Inl (HTTPException 404 ''not found''), tb)
           | Some c \<Rightarrow>
               if bound_change_refused tb c (updated_config u c) then (Inl (HTTPException 409 ''bound''), tb)
               else if list_ex (\<lambda>c'. cf_id c' \<noteq> i \<and> cf_equipment_type c' = cf_equipment_type (updated_config u c) \<and>
                        cf_name c' = cf_name (updated_config u c)) (tb_configs tb) then (Inl (HTTPException 500 ''store''), tb)
               else (Inr i, tb \<lparr>tb_configs := map (\<lambda>c'. if cf_id c' = i then updated_config u c' else c') (tb_configs tb)\<rparr>))"

definition delete_feature_config :: "string \<Rightarrow> ml_tables \<Rightarrow> (http_error + unit) \<times> ml_tables" where
  "delete_feature_config i tb =
     (if get_feature_config_by_id tb i = None then (Inl (HTTPException 404 ''not found''), tb)
      else if bound_by tb i \<noteq> [] then (Inl (HTTPException 409 ''bound''), tb)
      else (Inr (), tb \<lparr>tb_configs := filter (\<lambda>c. cf_id c \<noteq> i) (tb_configs tb)\<rparr>))"

section \<open>The probe\<close>

text \<open>How the worker process ended, with the objects it printed.\<close>

datatype probe_outcome = ProbeTimeout "jobject list" | ProbeNotRun | ProbeExited "jobject list"

record ProbeResult =
  pr_ok :: bool
  pr_scores :: "py_float list option"
  pr_sample_error :: string

definition has_key :: "string \<Rightarrow> jobject \<Rightarrow> bool" where
  "has_key k d \<longleftrightarrow> map_of d k \<noteq> None"

definition probe_result :: "jobject list \<Rightarrow> ProbeResult option result" where
  "probe_result lines =
     (case List.find (has_key ''ok'') lines of
        None \<Rightarrow> Inr None
      | Some v \<Rightarrow>
          let scored = (case List.find (\<lambda>l. has_key ''scores'' l \<or> has_key ''sample_error'' l) lines of None \<Rightarrow> [] | Some l \<Rightarrow> l);
              said = py_str (jget_default scored ''sample_error'' (JStr []));
              sample_error = (if said \<noteq> [] then said else if scored = [] then ''stalled'' else [])
          in (case jget scored ''scores'' of
                JArr xs \<Rightarrow>
                  if list_ex (\<lambda>x. float_number x = None) xs then Inl ValueError
                  else Inr (Some \<lparr>pr_ok = truthy (jget v ''ok''), pr_scores = Some (map (\<lambda>x. the (float_number x)) xs), pr_sample_error = sample_error\<rparr>)
              | _ \<Rightarrow> Inr (Some \<lparr>pr_ok = truthy (jget v ''ok''), pr_scores = None, pr_sample_error = sample_error\<rparr>)))"

definition probe_failed :: ProbeResult where
  "probe_failed = \<lparr>pr_ok = False, pr_scores = None, pr_sample_error = []\<rparr>"

definition probe_run :: "probe_outcome \<Rightarrow> ProbeResult result" where
  "probe_run out =
     (case out of
        ProbeNotRun \<Rightarrow> Inr probe_failed
      | ProbeTimeout lines \<Rightarrow> res_map (\<lambda>r. case r of None \<Rightarrow> probe_failed | Some p \<Rightarrow> p) (probe_result lines)
      | ProbeExited lines \<Rightarrow> res_map (\<lambda>r. case r of None \<Rightarrow> probe_failed | Some p \<Rightarrow> p) (probe_result lines))"

section \<open>The baseline derived at deployment\<close>

record plan =
  pl_profile :: jobject
  pl_rows :: "py_float list list"
  pl_reason :: string

definition for_probe :: "plan \<Rightarrow> py_float list list option" where
  "for_probe p = (if pl_reason p \<noteq> [] \<or> pl_rows p = [] then None else Some (pl_rows p))"

definition finish :: "plan \<Rightarrow> py_float list option \<Rightarrow> string \<Rightarrow> string \<Rightarrow> jobject" where
  "finish p scores error derived_at =
     (if pl_reason p \<noteq> [] then without_prediction_baseline (pl_profile p) (pl_reason p)
      else case scores of
             None \<Rightarrow> without_prediction_baseline (pl_profile p) ''could not score its sample''
           | Some vs \<Rightarrow>
               if error \<noteq> [] \<or> vs = [] then without_prediction_baseline (pl_profile p) ''could not score its sample''
               else (case with_derived_scores (pl_profile p) vs derived_at of
                       Inr profile \<Rightarrow> profile
                     | Inl _ \<Rightarrow> without_prediction_baseline (pl_profile p) ''not scores''))"

text \<open>\<open>[await engine.transform(row) for row in rows]\<close>; the switch is read for every row.\<close>

fun transform_rows ::
    "feature_world \<Rightarrow> transforms \<Rightarrow> feature_engine \<Rightarrow> (nat \<Rightarrow> bool) \<Rightarrow> nat \<Rightarrow> jobject list \<Rightarrow> provider \<Rightarrow> (feature_error + py_float list list) \<times> provider" where
  "transform_rows w reg en enabled_at n [] pv = (Inr [], pv)"
| "transform_rows w reg en enabled_at n (row # rows) pv =
     (case engine_transform w reg en (enabled_at n) row pv of
        (Inl e, pv') \<Rightarrow> (Inl e, pv')
      | (Inr fv, pv') \<Rightarrow>
          (case transform_rows w reg en enabled_at (Suc n) rows pv' of
             (Inl e, pv'') \<Rightarrow> (Inl e, pv'')
           | (Inr fvs, pv'') \<Rightarrow> (Inr (fv_features fv # fvs), pv'')))"

text \<open>
  A deployment's world, beside the gate's: the transforms that are loaded, the features' world, the provider, what the
  switch answers each time, how the probe ends, the stores and the cache a load meets, and the detector functions.
\<close>

record deploy_env =
  de_gate :: "py_model gate_env"
  de_transforms :: transforms
  de_world :: feature_world
  de_has_provider :: bool
  de_provider :: provider
  de_enabled :: "nat \<Rightarrow> bool"
  de_probe :: "string \<Rightarrow> py_float list list option \<Rightarrow> probe_outcome"
  de_serving :: "py_model serving"
  de_cache :: "(string, py_model loaded_model) od"
  de_fn :: "nat \<Rightarrow> detector_fn"
  de_exp :: "py_float \<Rightarrow> py_float"
  de_now :: string

definition optional_text :: "string option \<Rightarrow> json" where
  "optional_text v = (case v of None \<Rightarrow> JNull | Some s \<Rightarrow> JStr s)"

definition model_context :: "deploy_env \<Rightarrow> string \<Rightarrow> json \<Rightarrow> transform_context" where
  "model_context env company_id equipment = \<lparr>tc_provider = de_has_provider env, tc_equipment = equipment, tc_company = company_id\<rparr>"

definition baseline_plan :: "deploy_env \<Rightarrow> ml_tables \<Rightarrow> string \<Rightarrow> ml_model \<Rightarrow> plan option" where
  "baseline_plan env tb company_id m =
     (case mm_profile m of
        None \<Rightarrow> None
      | Some profile \<Rightarrow>
          if profile = [] \<or> truthy (jget profile ''refused'') then None
          else (case (if given (mm_config m) then get_feature_config_by_id tb (the (mm_config m)) else None) of
                  None \<Rightarrow> Some \<lparr>pl_profile = profile, pl_rows = [], pl_reason = ''no feature configuration''\<rparr>
                | Some cf \<Rightarrow>
                    (case sample_refusal (JObj (without_prediction_baseline profile [])) (fc_base_sensors (cf_inputs cf)) of
                       Some f \<Rightarrow> Some \<lparr>pl_profile = profile, pl_rows = [], pl_reason = fault_text f\<rparr>
                     | None \<Rightarrow>
                         let kept = accepted_sample profile; rows = sample_rows kept
                         in if rows = [] then Some \<lparr>pl_profile = kept, pl_rows = [], pl_reason = ''no complete row''\<rparr>
                            else (case new_engine (de_transforms env) (cf_inputs cf)
                                         (model_context env company_id (optional_text (mm_equipment m))) of
                                    Inl _ \<Rightarrow> Some \<lparr>pl_profile = kept, pl_rows = [], pl_reason = ''the sample cannot be scored''\<rparr>
                                  | Inr en \<Rightarrow>
                                      (case fst (transform_rows (de_world env) (de_transforms env) en (de_enabled env) 0
                                               (map (map (\<lambda>(c, q). (c, JFloat (Fin q)))) rows) (de_provider env)) of
                                         Inl _ \<Rightarrow> Some \<lparr>pl_profile = kept, pl_rows = [], pl_reason = ''the sample cannot be scored''\<rparr>
                                       | Inr scored \<Rightarrow> Some \<lparr>pl_profile = kept, pl_rows = scored, pl_reason = []\<rparr>)))))"

fun score_rows :: "(py_float list \<Rightarrow> detector_error + DetectionResult) \<Rightarrow> py_float list list \<Rightarrow> detector_error + py_float list" where
  "score_rows score [] = Inr []"
| "score_rows score (row # rows) =
     (case score row of
        Inl e \<Rightarrow> Inl e
      | Inr r \<Rightarrow> res_map (Cons (dr_score r)) (score_rows score rows))"

definition score_in_process :: "deploy_env \<Rightarrow> plan \<Rightarrow> ml_model \<Rightarrow> detector \<Rightarrow> py_model \<Rightarrow> jobject" where
  "score_in_process env p m d loaded_model =
     (if pl_reason p \<noteq> [] then finish p None [] (de_now env)
      else case score_rows (\<lambda>row. de_fn env (dt_fn d) (de_exp env) row loaded_model (Fin (1 / 2)) (jget (mm_metrics m) ''reconstruction_scale'')) (pl_rows p) of
             Inl _ \<Rightarrow> finish p None ''failed'' (de_now env)
           | Inr scores \<Rightarrow> finish p (Some scores) [] (de_now env))"

section \<open>The deployment gate\<close>

definition record_provenance :: "ml_model \<Rightarrow> string" where
  "record_provenance m = (if given (mm_provenance m) then the (mm_provenance m) else provenance_of (mm_run m))"

text \<open>\<open>load_model_or_refuse\<close>, by the status it answers with; a failure that is no refusal is 500.\<close>

definition load_model_or_refuse :: "py_model serving \<Rightarrow> (string, py_model loaded_model) od \<Rightarrow> string \<Rightarrow> ml_model \<Rightarrow> int + py_model loaded_model" where
  "load_model_or_refuse sv cache company_id m =
     (case load_model_for sv cache company_id (mm_run m) (mm_uri m) (record_provenance m) of
        Inr l \<Rightarrow> Inr l
      | Inl ModelNotAdmissible \<Rightarrow> Inl 422
      | Inl TrackingStoreUnavailable \<Rightarrow> Inl 503
      | Inl _ \<Rightarrow> Inl 500)"

text \<open>
  The last part of the gate: the profile to record, if any. An uploaded model passes only through the probe; another is
  loaded here when it has a sample to score.
\<close>

definition derive_profile :: "deploy_env \<Rightarrow> ml_tables \<Rightarrow> string \<Rightarrow> ml_model \<Rightarrow> detector \<Rightarrow> http_error + jobject option" where
  "derive_profile env tb company_id m d =
     (let p = baseline_plan env tb company_id m
      in if provenance_of (mm_run m) = PROVENANCE_UPLOADED then
           (case probe_run (de_probe env (the (mm_uri m)) (case p of None \<Rightarrow> None | Some pl \<Rightarrow> for_probe pl)) of
              Inl _ \<Rightarrow> Inl internal_error
            | Inr r \<Rightarrow>
                if \<not> pr_ok r then Inl (HTTPException 409 ''not shown to load and score here'')
                else Inr (map_option (\<lambda>pl. finish pl (pr_scores r) (pr_sample_error r) (de_now env)) p))
         else case p of
           None \<Rightarrow> Inr None
         | Some pl \<Rightarrow>
             if pl_reason pl \<noteq> [] then Inr (Some (finish pl None [] (de_now env)))
             else (case load_model_or_refuse (de_serving env) (de_cache env) company_id m of
                     Inl code \<Rightarrow> Inl (HTTPException (if code = 503 then 503 else 409) ''does not load here'')
                   | Inr l \<Rightarrow> Inr (Some (score_in_process env pl m d (model_of l)))))"

text \<open>What \<open>deploy_model\<close> asks of a model it is to put into a serving path; \<open>later\<close> are the tables when its configuration is read.\<close>

definition deploy_into_serving ::
    "deploy_env \<Rightarrow> ml_tables \<Rightarrow> string \<Rightarrow> string \<Rightarrow> string \<Rightarrow> ml_model \<Rightarrow> (http_error + unit) \<times> ml_write list" where
  "deploy_into_serving env later company_id i target m =
     (case admit_address_or_refuse (de_gate env) company_id (mm_run m) (mm_uri m) 409 of
        Inl e \<Rightarrow> (Inl e, [])
      | Inr _ \<Rightarrow>
      (case (if given (mm_detector m) then get_detector (ge_detectors (de_gate env)) (the (mm_detector m)) else None) of
        None \<Rightarrow> (Inl (HTTPException 409 ''names no detector this deployment has loaded''), [])
      | Some d \<Rightarrow>
      (case refuse_author_code_or_reject (de_gate env) (mm_run m) (mm_uri m) 409 of
        Inl e \<Rightarrow> (Inl e, [])
      | Inr _ \<Rightarrow>
      (case evaluate_or_reject (de_gate env) (mm_run m) (mm_uri m) 409 of
        Inl e \<Rightarrow> (Inl e, [])
      | Inr judged \<Rightarrow>
          let stamped = (case judged of None \<Rightarrow> [] | Some c \<Rightarrow> [SetCompat i (cm_status c)])
          in (case derive_profile env later company_id m d of
                Inl e \<Rightarrow> (Inl e, stamped)
              | Inr profile \<Rightarrow>
                  (Inr (), stamped @ (case profile of None \<Rightarrow> [] | Some p \<Rightarrow> [SetProfile i p]) @ [SetStatus i target]))))))"

text \<open>\<open>deploy_model\<close>: the answer and the statements it issued, in order; \<open>seen\<close> are the tables when the row is read.\<close>

definition deploy_model ::
    "deploy_env \<Rightarrow> ml_tables \<Rightarrow> ml_tables \<Rightarrow> string \<Rightarrow> string \<Rightarrow> string \<Rightarrow> (http_error + unit) \<times> ml_write list" where
  "deploy_model env seen later company_id i target =
     (if target \<notin> {''production'', ''active'', ''deprecated''} then (Inl (HTTPException 400 ''Invalid environment''), [])
      else case get_model_by_id seen i of
        None \<Rightarrow> (Inl (HTTPException 404 ''Model not found''), [])
      | Some m \<Rightarrow>
          if target \<in> {''production'', ''active''} then deploy_into_serving env later company_id i target m
          else (Inr (), [SetStatus i target]))"

text \<open>\<open>delete_model\<close>.\<close>

definition delete_model :: "ml_tables \<Rightarrow> string \<Rightarrow> (http_error + unit) \<times> ml_write list" where
  "delete_model seen i =
     (case get_model_by_id seen i of
        None \<Rightarrow> (Inl (HTTPException 404 ''Model not found''), [])
      | Some _ \<Rightarrow> (Inr (), [SetStatus i ''deprecated'']))"

end
