(* ===== verification/Model_Admission.thy ===== *)
theory Model_Admission
  imports Model_Gates
begin

text \<open>
  What the gates of \<open>Model_Gates\<close> establish: of one registration and one deployment, and of the tables of a tenant over every
  interleaving of the requests that write them.
\<close>

section \<open>The registration gate\<close>

lemma create_model_ok:
  assumes "create_model i q bound tb = Inr tb'"
  shows "tb' = tb \<lparr>tb_models := tb_models tb @ [model_of_request i q]\<rparr> \<and> mq_status q \<in> set MODEL_STATUSES \<and>
    (\<forall>m \<in> set (tb_models tb). mm_id m \<noteq> i \<and> \<not> (mm_name m = mq_name q \<and> mm_version m = major_version (mq_version q))) \<and>
    (\<forall>c. mq_config q = Some c \<longrightarrow> (\<exists>cf. get_feature_config_by_id tb c = Some cf \<and> (bound \<noteq> None \<and> c \<noteq> [] \<longrightarrow> bound = Some (cf_inputs cf))))"
proof (cases "bound \<noteq> None \<and> given (mq_config q) \<and> map_option cf_inputs (get_feature_config_by_id tb (the (mq_config q))) \<noteq> bound")
  case True
  then show ?thesis using assms by (simp add: create_model_def)
next
  case False
  let ?m = "model_of_request i q"
  let ?bad = "mm_status ?m \<notin> set MODEL_STATUSES \<or> \<not> (- (2 ^ 31) \<le> mm_version ?m \<and> mm_version ?m < 2 ^ 31) \<or>
                 (case mm_config ?m of None \<Rightarrow> False | Some c \<Rightarrow> get_feature_config_by_id tb c = None)"
  let ?dup = "list_ex (\<lambda>m'. mm_id m' = i \<or> mm_name m' = mm_name ?m \<and> mm_version m' = mm_version ?m) (tb_models tb)"
  have e: "create_model i q bound tb = (if ?bad then Inl InsertFailed else if ?dup then Inl UniqueViolation
      else Inr (tb \<lparr>tb_models := tb_models tb @ [?m]\<rparr>))"
    unfolding create_model_def Let_def using False by (simp only: if_False)
  have b: "\<not> ?bad" "\<not> ?dup" using assms e by (auto split: if_splits)
  then have t: "tb' = tb \<lparr>tb_models := tb_models tb @ [?m]\<rparr>" using assms e by simp
  have "\<exists>cf. get_feature_config_by_id tb c = Some cf \<and> (bound \<noteq> None \<and> c \<noteq> [] \<longrightarrow> bound = Some (cf_inputs cf))" if "mq_config q = Some c" for c
    using b(1) False that by (auto simp: model_of_request_def given_def)
  moreover have "mq_status q \<in> set MODEL_STATUSES" using b(1) by (simp add: model_of_request_def)
  moreover have "\<forall>m \<in> set (tb_models tb). mm_id m \<noteq> i \<and> \<not> (mm_name m = mq_name q \<and> mm_version m = major_version (mq_version q))"
    using b(2) by (auto simp: list_ex_iff model_of_request_def)
  ultimately show ?thesis using t by blast
qed

text \<open>The inputs a registration validated, and the tables in which it did.\<close>

lemma registration_bound:
  assumes "registration_checks env seen c q reason = Inr (q', bound)" "given (mq_config q)"
  shows "\<exists>cf. get_feature_config_by_id seen (the (mq_config q)) = Some cf \<and> bound = Some (cf_inputs cf)"
proof -
  obtain q1 where "bind_inputs_and_baseline seen q1 reason = Inr (q', bound)" "mq_config q1 = mq_config q"
    using registration_checks_split [OF assms(1)] by force
  then show ?thesis using bind_keeps [of seen q1 reason q' bound] assms(2) by simp
qed

text \<open>
  C12. Registering a model changes nothing unless it succeeds, and then adds one row, under a new id and a name and version
  no model has. The row's address is the caller's tenant's own, by a run in one of its experiments or an upload its
  gateway admitted; the manifest read of it names a data-only loader and ships no code; what it declares is servable in
  this environment; its provenance is read off how it arrived; and the detector recorded is loaded here and, for an
  uploaded model, implements for its flavor the semantics it declared. A configuration it is bound to has, at the insert,
  exactly the inputs the checks validated. It carries the status the request asked for.
\<close>

theorem registration_gate:
  assumes "register_model env seen c i q reason tb = (answer, tb')"
  shows "(\<forall>e. answer = Inl e \<longrightarrow> tb' = tb) \<and>
    (\<forall>n. answer = Inr n \<longrightarrow> (\<exists>m. n = i \<and> tb' = tb \<lparr>tb_models := tb_models tb @ [m]\<rparr> \<and> mm_id m = i \<and>
       registered_ok env c (mq_semantics q) m \<and> mm_run m = mq_run q \<and> mm_uri m = mq_uri q \<and>
       mm_status m = mq_status q \<and> mm_status m \<in> set MODEL_STATUSES \<and>
       (\<forall>m' \<in> set (tb_models tb). mm_id m' \<noteq> i \<and> \<not> (mm_name m' = mm_name m \<and> mm_version m' = mm_version m)) \<and>
       mm_config m = mq_config q \<and>
       (given (mq_config q) \<longrightarrow> (\<exists>cf cf'. get_feature_config_by_id seen (the (mq_config q)) = Some cf \<and>
          get_feature_config_by_id tb (the (mq_config q)) = Some cf' \<and> cf_inputs cf' = cf_inputs cf))))"
proof (cases "registration_checks env seen c q reason")
  case (Inl e)
  then show ?thesis using assms by (auto simp: register_model_def)
next
  case (Inr r)
  obtain q' bound where r: "r = (q', bound)" by force
  note reg = registration_ok [OF Inr [unfolded r], of i]
  show ?thesis
  proof (cases "create_model i q' bound tb")
    case (Inl e)
    then show ?thesis using assms Inr r by (cases e) (auto simp: register_model_def)
  next
    case (Inr tb1)
    then have a: "answer = Inr i" "tb' = tb1" using assms \<open>registration_checks env seen c q reason = Inr r\<close> r
      by (auto simp: register_model_def)
    note ok = create_model_ok [OF Inr]
    have cfg: "\<exists>cf cf'. get_feature_config_by_id seen (the (mq_config q)) = Some cf \<and>
          get_feature_config_by_id tb (the (mq_config q)) = Some cf' \<and> cf_inputs cf' = cf_inputs cf" if g: "given (mq_config q)"
    proof -
      obtain cf where cf: "get_feature_config_by_id seen (the (mq_config q)) = Some cf" "bound = Some (cf_inputs cf)"
        using registration_bound [OF \<open>registration_checks env seen c q reason = Inr r\<close> [unfolded r] g] by blast
      have "mq_config q' = Some (the (mq_config q))" "the (mq_config q) \<noteq> []" using reg g by (auto simp: given_def)
      then obtain cf' where "get_feature_config_by_id tb (the (mq_config q)) = Some cf'" "bound = Some (cf_inputs cf')"
        using ok cf(2) by auto
      then show ?thesis using cf by auto
    qed
    show ?thesis using a reg ok cfg by (auto simp: model_of_request_def intro!: exI [of _ "model_of_request i q'"])
  qed
qed

section \<open>The deployment gate\<close>

text \<open>The row the gate read passed every check, and an uploaded one was loaded and scored by the probe.\<close>

definition deployable :: "deploy_env \<Rightarrow> ml_tables \<Rightarrow> string \<Rightarrow> ml_model \<Rightarrow> bool" where
  "deployable env later c m \<longleftrightarrow>
     owns_address (ge_admit (de_gate env)) c (mm_run m) (mm_uri m) \<and> manifest_data_only (de_gate env) (mm_run m) (mm_uri m) \<and>
     (\<exists>flavor status. declared_servable (de_gate env) (mm_run m) (mm_uri m) flavor status) \<and>
     (\<exists>name d. mm_detector m = Some name \<and> od_get (ge_detectors (de_gate env)) name = Some d) \<and>
     (provenance_of (mm_run m) = PROVENANCE_UPLOADED \<longrightarrow>
        (\<exists>sample r. probe_run (de_probe env (the (mm_uri m)) sample) = Inr r \<and> pr_ok r))"

lemma derive_probed:
  assumes "derive_profile env later c m d = Inr p" "provenance_of (mm_run m) = PROVENANCE_UPLOADED"
  shows "\<exists>sample r. probe_run (de_probe env (the (mm_uri m)) sample) = Inr r \<and> pr_ok r"
  using assms by (auto simp: derive_profile_def Let_def split: sum.splits if_splits)

lemma deploy_cases:
  assumes "deploy_into_serving env later c i target m = (answer, ws)"
  shows "(\<exists>p stamps. answer = Inr () \<and> deployable env later c m \<and> ws = stamps @ p @ [SetStatus i target] \<and>
      (\<forall>x \<in> set (stamps @ p). \<forall>j s. x \<noteq> SetStatus j s)) \<or>
    (\<exists>e. answer = Inl e \<and> (\<forall>x \<in> set ws. \<forall>j s. x \<noteq> SetStatus j s))"
proof -
  show ?thesis
  proof (cases "admit_address_or_refuse (de_gate env) c (mm_run m) (mm_uri m) 409")
    case (Inl e)
    then have "deploy_into_serving env later c i target m = (Inl e, [])" by (simp add: deploy_into_serving_def)
    then show ?thesis using assms by simp
  next
    case a: (Inr x)
    show ?thesis
    proof (cases "if given (mm_detector m) then get_detector (ge_detectors (de_gate env)) (the (mm_detector m)) else None")
      case None
      then have "deploy_into_serving env later c i target m = (Inl (HTTPException 409 ''names no detector this deployment has loaded''), [])" using a by (simp add: deploy_into_serving_def)
    then show ?thesis using assms by simp
    next
      case d: (Some d)
      show ?thesis
      proof (cases "refuse_author_code_or_reject (de_gate env) (mm_run m) (mm_uri m) 409")
        case (Inl e)
        then have "deploy_into_serving env later c i target m = (Inl e, [])" using a d by (simp add: deploy_into_serving_def)
    then show ?thesis using assms by simp
      next
        case r: (Inr y)
        show ?thesis
        proof (cases "evaluate_or_reject (de_gate env) (mm_run m) (mm_uri m) 409")
          case (Inl e)
          then have "deploy_into_serving env later c i target m = (Inl e, [])" using a d r by (simp add: deploy_into_serving_def)
    then show ?thesis using assms by simp
        next
          case v: (Inr judged)
          let ?stamps = "case judged of None \<Rightarrow> [] | Some cm \<Rightarrow> [SetCompat i (cm_status cm)]"
          have nostamp: "\<forall>x \<in> set ?stamps. \<forall>j s. x \<noteq> SetStatus j s" by (auto split: option.splits)
          note own = admit_address_owned [OF a]
          show ?thesis
          proof (cases "derive_profile env later c m d")
            case (Inl e)
            then have "answer = Inl e" "ws = ?stamps" using assms a d r v by (simp_all add: deploy_into_serving_def)
            then show ?thesis using nostamp by blast
          next
            case p: (Inr profile)
            let ?p = "case profile of None \<Rightarrow> [] | Some p \<Rightarrow> [SetProfile i p]"
            have w: "answer = Inr ()" "ws = ?stamps @ ?p @ [SetStatus i target]"
              using assms a d r v p by (simp_all add: deploy_into_serving_def)
            have "deployable env later c m"
              using own author_code_refused [OF r] evaluate_servable [OF v owns_address_given [OF own]] derive_probed [OF p] d
              unfolding deployable_def by (auto simp: get_detector_def given_def split: if_splits)
            moreover have "\<forall>x \<in> set (?stamps @ ?p). \<forall>j s. x \<noteq> SetStatus j s" using nostamp by (auto split: option.splits)
            ultimately show ?thesis using w by blast
          qed
        qed
      qed
    qed
  qed
qed


section \<open>Over every interleaving\<close>

text \<open>
  The histories of a tenant's tables, the newest first, from a schema without models. A request reads the tables at some
  moments of the history and writes them at a later one; a deployment's statements land one by one, and any of them may
  be the last that does. Sensors come and go.
\<close>

inductive ml_history :: "string \<Rightarrow> ml_tables list \<Rightarrow> bool" for c where
  fresh: "tb_models tb = [] \<Longrightarrow> distinct (map cf_id (tb_configs tb)) \<Longrightarrow> ml_history c [tb]"
| registering: "ml_history c (tb # h) \<Longrightarrow> seen \<in> set (tb # h) \<Longrightarrow>
    register_model (env :: py_model gate_env) seen c i q reason tb = (answer, tb') \<Longrightarrow> ml_history c (tb' # tb # h)"
| deploying: "ml_history c (tb # h) \<Longrightarrow> seen \<in> set (tb # h) \<Longrightarrow> later \<in> set (tb # h) \<Longrightarrow>
    x \<in> set (snd (deploy_model denv seen later c i target)) \<Longrightarrow> ml_history c (apply_write x tb # tb # h)"
| deleting: "ml_history c (tb # h) \<Longrightarrow> seen \<in> set (tb # h) \<Longrightarrow> x \<in> set (snd (delete_model seen i)) \<Longrightarrow>
    ml_history c (apply_write x tb # tb # h)"
| creating_config: "ml_history c (tb # h) \<Longrightarrow> create_feature_config reg row tb = (r, tb') \<Longrightarrow> ml_history c (tb' # tb # h)"
| updating_config: "ml_history c (tb # h) \<Longrightarrow> update_feature_config reg k u tb = (r, tb') \<Longrightarrow> ml_history c (tb' # tb # h)"
| deleting_config: "ml_history c (tb # h) \<Longrightarrow> delete_feature_config k tb = (d, tb') \<Longrightarrow> ml_history c (tb' # tb # h)"
| sensors_change: "ml_history c (tb # h) \<Longrightarrow> ml_history c (tb \<lparr>tb_sensors := ss\<rparr> # tb # h)"

text \<open>The same model: no statement changes more than its baseline, its verdict and its status.\<close>

definition same_model :: "ml_model \<Rightarrow> ml_model \<Rightarrow> bool" where
  "same_model a b \<longleftrightarrow> b = a \<lparr>mm_profile := mm_profile b, mm_compat := mm_compat b, mm_status := mm_status b\<rparr>"

lemma same_model_refl [simp]: "same_model a a"
  by (simp add: same_model_def)

lemma same_model_columns:
  "same_model a b \<Longrightarrow> mm_id b = mm_id a \<and> mm_name b = mm_name a \<and> mm_version b = mm_version a \<and> mm_run b = mm_run a \<and> mm_uri b = mm_uri a \<and>
     mm_provenance b = mm_provenance a \<and> mm_detector b = mm_detector a \<and> mm_config b = mm_config a \<and> mm_sensor_ids b = mm_sensor_ids a"
  unfolding same_model_def by (cases a; cases b) simp

lemma same_model_trans: "same_model a b \<Longrightarrow> same_model b d \<Longrightarrow> same_model a d"
  unfolding same_model_def by (cases a; cases b; cases d) simp

definition config_inputs :: "ml_tables \<Rightarrow> string \<Rightarrow> feature_config option" where
  "config_inputs tb k = map_option cf_inputs (get_feature_config_by_id tb k)"

text \<open>Nothing bound is lost from one state to the next.\<close>

definition keeps_models :: "ml_tables \<Rightarrow> ml_tables \<Rightarrow> bool" where
  "keeps_models tb tb' \<longleftrightarrow> (\<forall>m \<in> set (tb_models tb). \<exists>m' \<in> set (tb_models tb'). same_model m m' \<and>
     (\<forall>k. mm_config m = Some k \<longrightarrow> config_inputs tb' k = config_inputs tb k))"

definition tables_ok :: "string \<Rightarrow> ml_tables \<Rightarrow> bool" where
  "tables_ok c tb \<longleftrightarrow> distinct (map cf_id (tb_configs tb)) \<and> distinct (map mm_id (tb_models tb)) \<and>
     distinct (map (\<lambda>m. (mm_name m, mm_version m)) (tb_models tb)) \<and>
     (\<forall>m \<in> set (tb_models tb). (\<exists>(env :: py_model gate_env) semantics m0. registered_ok env c semantics m0 \<and> same_model m0 m) \<and>
        (\<forall>k. mm_config m = Some k \<longrightarrow> config_inputs tb k \<noteq> None))"

definition ok_step :: "string \<Rightarrow> ml_tables \<Rightarrow> ml_tables \<Rightarrow> bool" where
  "ok_step c tb tb' \<longleftrightarrow> tables_ok c tb' \<and> keeps_models tb tb'"

lemma ok_step_same:
  assumes "tables_ok c tb" "tb_models tb' = tb_models tb" "distinct (map cf_id (tb_configs tb'))"
    and "\<And>m k. m \<in> set (tb_models tb) \<Longrightarrow> mm_config m = Some k \<Longrightarrow> config_inputs tb' k = config_inputs tb k"
  shows "ok_step c tb tb'"
proof -
  have "keeps_models tb tb'"
    unfolding keeps_models_def assms(2)
  proof
    fix m
    assume m: "m \<in> set (tb_models tb)"
    show "\<exists>m' \<in> set (tb_models tb). same_model m m' \<and> (\<forall>k. mm_config m = Some k \<longrightarrow> config_inputs tb' k = config_inputs tb k)"
      using m assms(4) by (intro bexI [of _ m]) auto
  qed
  moreover have "tables_ok c tb'"
    using assms(1,3,4) unfolding tables_ok_def assms(2) by auto
  ultimately show ?thesis unfolding ok_step_def by blast
qed

lemma ok_step_refl: "tables_ok c tb \<Longrightarrow> ok_step c tb tb"
  by (rule ok_step_same) (simp_all add: tables_ok_def)

lemma apply_write_update: "\<exists>i f. apply_write x tb = update_model i f tb \<and> (\<forall>m. same_model m (f m))"
proof (cases x)
  case (SetCompat i s)
  then show ?thesis by (intro exI [of _ i] exI [of _ "\<lambda>m. m \<lparr>mm_compat := Some s\<rparr>"]) (simp add: same_model_def)
next
  case (SetProfile i p)
  then show ?thesis by (intro exI [of _ i] exI [of _ "\<lambda>m. m \<lparr>mm_profile := Some p\<rparr>"]) (simp add: same_model_def)
next
  case (SetStatus i s)
  then show ?thesis by (intro exI [of _ i] exI [of _ "\<lambda>m. m \<lparr>mm_status := s\<rparr>"]) (simp add: same_model_def)
qed

lemma same_model_list:
  assumes "\<And>m. same_model m (g m)"
  shows "map mm_id (map g ms) = map mm_id ms" "map (\<lambda>m. (mm_name m, mm_version m)) (map g ms) = map (\<lambda>m. (mm_name m, mm_version m)) ms"
  using same_model_columns [OF assms] by simp_all

lemma ok_step_write:
  assumes "tables_ok c tb"
  shows "ok_step c tb (apply_write x tb)"
proof -
  obtain i f where x: "apply_write x tb = update_model i f tb" "\<And>m. same_model m (f m)" using apply_write_update by metis
  let ?g = "\<lambda>m. if mm_id m = i then f m else m"
  have g: "same_model m (?g m)" for m using x(2) by simp
  have tb': "tb_models (update_model i f tb) = map ?g (tb_models tb)" "tb_configs (update_model i f tb) = tb_configs tb" by (simp_all add: update_model_def)
  have cfg: "config_inputs (update_model i f tb) k = config_inputs tb k" for k by (simp add: config_inputs_def get_feature_config_by_id_def tb')
  have reg: "\<exists>(env :: py_model gate_env) semantics m0. registered_ok env c semantics m0 \<and> same_model m0 (?g m)" if "m \<in> set (tb_models tb)" for m
  proof -
    obtain env :: "py_model gate_env" and semantics m0 where "registered_ok env c semantics m0" "same_model m0 m"
      using assms \<open>m \<in> set (tb_models tb)\<close> unfolding tables_ok_def by blast
    then show ?thesis using same_model_trans [OF _ g] by blast
  qed
  have conf: "config_inputs tb k \<noteq> None" if "m \<in> set (tb_models tb)" "mm_config (?g m) = Some k" for m k
  proof -
    have "mm_config (?g m) = mm_config m" using same_model_columns [OF g] by blast
    then show ?thesis using assms that unfolding tables_ok_def by auto
  qed
  have "tables_ok c (update_model i f tb)"
    unfolding tables_ok_def tb' cfg same_model_list [of ?g, OF g]
  proof (intro conjI ballI)
    fix m'
    assume "m' \<in> set (map ?g (tb_models tb))"
    then obtain m where m: "m \<in> set (tb_models tb)" "m' = ?g m" by auto
    show "\<exists>(env :: py_model gate_env) semantics m0. registered_ok env c semantics m0 \<and> same_model m0 m'" unfolding m(2) by (rule reg [OF m(1)])
    show "\<forall>k. mm_config m' = Some k \<longrightarrow> config_inputs tb k \<noteq> None" unfolding m(2) using conf [OF m(1)] by blast
  qed (use assms in \<open>simp_all add: tables_ok_def\<close>)
  moreover have "keeps_models tb (update_model i f tb)"
    unfolding keeps_models_def tb' cfg
  proof
    fix m
    assume "m \<in> set (tb_models tb)"
    then show "\<exists>m' \<in> set (map ?g (tb_models tb)). same_model m m' \<and> (\<forall>k. mm_config m = Some k \<longrightarrow> config_inputs tb k = config_inputs tb k)"
      using g by (intro bexI [of _ "?g m"]) simp_all
  qed
  ultimately show ?thesis unfolding ok_step_def x(1) by blast
qed

lemma ok_step_register:
  assumes "tables_ok c tb" "register_model (env :: py_model gate_env) seen c i q reason tb = (answer, tb')"
  shows "ok_step c tb tb'"
proof (cases "registration_checks env seen c q reason")
  case (Inl e)
  then have "tb' = tb" using assms(2) by (simp add: register_model_def)
  then show ?thesis using ok_step_refl [OF assms(1)] by simp
next
  case (Inr r)
  obtain q' bound where r: "r = (q', bound)" by force
  show ?thesis
  proof (cases "create_model i q' bound tb")
    case (Inl e)
    then have "tb' = tb" using assms(2) Inr r by (cases e) (simp_all add: register_model_def)
    then show ?thesis using ok_step_refl [OF assms(1)] by simp
  next
    case ins: (Inr tb1)
    let ?m = "model_of_request i q'"
    have tb': "tb' = tb \<lparr>tb_models := tb_models tb @ [?m]\<rparr>" using assms(2) Inr r ins create_model_ok [OF ins] by (simp add: register_model_def)
    have cfg: "config_inputs tb' k = config_inputs tb k" for k by (simp add: tb' config_inputs_def get_feature_config_by_id_def)
    have reg: "registered_ok env c (mq_semantics q) ?m" using registration_ok [OF Inr [unfolded r]] by blast
    note fresh = create_model_ok [OF ins]
    have conf: "config_inputs tb k \<noteq> None" if "mm_config ?m = Some k" for k
      using fresh that by (auto simp: config_inputs_def model_of_request_def)
    have new: "mm_id ?m = i" "mm_name ?m = mq_name q'" "mm_version ?m = major_version (mq_version q')" by (simp_all add: model_of_request_def)
    have "tables_ok c tb'"
      unfolding tables_ok_def cfg
    proof (intro conjI ballI)
      show "distinct (map cf_id (tb_configs tb'))" using assms(1) by (simp add: tables_ok_def tb')
      show "distinct (map mm_id (tb_models tb'))" using assms(1) fresh new by (auto simp: tables_ok_def tb')
      show "distinct (map (\<lambda>m. (mm_name m, mm_version m)) (tb_models tb'))" using assms(1) fresh new by (auto simp: tables_ok_def tb')
      fix m
      assume "m \<in> set (tb_models tb')"
      then consider "m \<in> set (tb_models tb)" | "m = ?m" by (auto simp: tb')
      then show "\<exists>(env :: py_model gate_env) semantics m0. registered_ok env c semantics m0 \<and> same_model m0 m"
        using assms(1) reg same_model_refl unfolding tables_ok_def by cases blast+
      show "\<forall>k. mm_config m = Some k \<longrightarrow> config_inputs tb k \<noteq> None"
        using \<open>m \<in> set (tb_models tb')\<close> assms(1) conf unfolding tables_ok_def tb' by auto
    qed
    moreover have "keeps_models tb tb'"
      unfolding keeps_models_def cfg
    proof
      fix m
      assume "m \<in> set (tb_models tb)"
      then show "\<exists>m' \<in> set (tb_models tb'). same_model m m' \<and> (\<forall>k. mm_config m = Some k \<longrightarrow> config_inputs tb k = config_inputs tb k)"
        by (intro bexI [of _ m]) (simp_all add: tb')
    qed
    ultimately show ?thesis unfolding ok_step_def by blast
  qed
qed

lemma find_id: "List.find P xs = Some x \<Longrightarrow> P x \<and> x \<in> set xs"
  by (induction xs) (auto split: if_splits)

lemma find_append: "List.find P (xs @ ys) = (case List.find P xs of Some x \<Rightarrow> Some x | None \<Rightarrow> List.find P ys)"
  by (induction xs) auto

lemma find_map_same: "(\<And>x. P (f x) = P x) \<Longrightarrow> List.find P (map f xs) = map_option f (List.find P xs)"
  by (induction xs) auto

lemma find_filter_same: "(\<And>x. P x \<Longrightarrow> Q x) \<Longrightarrow> List.find P (filter Q xs) = List.find P xs"
  by (induction xs) auto

lemma bound_by_mem: "m \<in> set (tb_models tb) \<Longrightarrow> mm_config m = Some k \<Longrightarrow> bound_by tb k \<noteq> []"
  by (auto simp: bound_by_def filter_empty_conv)

lemma updated_id [simp]: "cf_id (updated_config u x) = cf_id x"
  by (simp add: updated_config_def)

lemma ok_step_create_config:
  assumes "tables_ok c tb" "create_feature_config reg row tb = (r, tb')"
  shows "ok_step c tb tb'"
proof (cases "tb' = tb")
  case True
  then show ?thesis using ok_step_refl [OF assms(1)] by simp
next
  case False
  then have tb': "tb' = tb \<lparr>tb_configs := tb_configs tb @ [row]\<rparr>" and fresh: "\<forall>x \<in> set (tb_configs tb). cf_id x \<noteq> cf_id row"
    using assms(2) by (auto simp: create_feature_config_def list_ex_iff split: if_splits)
  show ?thesis
  proof (rule ok_step_same [OF assms(1)])
    show "tb_models tb' = tb_models tb" by (simp add: tb')
    show "distinct (map cf_id (tb_configs tb'))" using assms(1) fresh by (auto simp: tb' tables_ok_def)
    fix m k
    assume "m \<in> set (tb_models tb)" "mm_config m = Some k"
    then have "config_inputs tb k \<noteq> None" using assms(1) unfolding tables_ok_def by blast
    then show "config_inputs tb' k = config_inputs tb k"
      by (auto simp: config_inputs_def get_feature_config_by_id_def tb' find_append)
  qed
qed

lemma ok_step_update_config:
  assumes "tables_ok c tb" "update_feature_config reg i u tb = (r, tb')"
  shows "ok_step c tb tb'"
proof (cases "tb' = tb")
  case True
  then show ?thesis using ok_step_refl [OF assms(1)] by simp
next
  case False
  let ?f = "\<lambda>x. if cf_id x = i then updated_config u x else x"
  obtain old where old: "get_feature_config_by_id tb i = Some old"
    using assms(2) False by (auto simp: update_feature_config_def split: option.splits if_splits)
  have tb': "tb' = tb \<lparr>tb_configs := map ?f (tb_configs tb)\<rparr>" and ok: "\<not> bound_change_refused tb old (updated_config u old)"
    using assms(2) False old by (auto simp: update_feature_config_def split: option.splits if_splits)
  have oldid: "cf_id old = i" using find_id [OF old [unfolded get_feature_config_by_id_def]] by simp
  have get: "get_feature_config_by_id tb' k = map_option ?f (get_feature_config_by_id tb k)" for k
    unfolding get_feature_config_by_id_def tb' by (simp add: find_map_same)
  show ?thesis
  proof (rule ok_step_same [OF assms(1)])
    show "tb_models tb' = tb_models tb" by (simp add: tb')
    have "map cf_id (tb_configs tb') = map cf_id (tb_configs tb)" by (simp add: tb')
    then show "distinct (map cf_id (tb_configs tb'))" using assms(1) by (simp add: tables_ok_def)
    fix m k
    assume m: "m \<in> set (tb_models tb)" "mm_config m = Some k"
    show "config_inputs tb' k = config_inputs tb k"
    proof (cases "k = i")
      case True
      then have "cf_inputs (updated_config u old) = cf_inputs old"
        using ok bound_by_mem [OF m] oldid by (simp add: bound_change_refused_def)
      then show ?thesis using old oldid True by (simp add: config_inputs_def get)
    next
      case False
      have "?f x = x" if "get_feature_config_by_id tb k = Some x" for x
        using find_id [OF that [unfolded get_feature_config_by_id_def]] False by simp
      then show ?thesis by (cases "get_feature_config_by_id tb k") (simp_all add: config_inputs_def get)
    qed
  qed
qed

lemma ok_step_delete_config:
  assumes "tables_ok c tb" "delete_feature_config i tb = (r, tb')"
  shows "ok_step c tb tb'"
proof (cases "tb' = tb")
  case True
  then show ?thesis using ok_step_refl [OF assms(1)] by simp
next
  case False
  then have tb': "tb' = tb \<lparr>tb_configs := filter (\<lambda>x. cf_id x \<noteq> i) (tb_configs tb)\<rparr>" and free: "bound_by tb i = []"
    using assms(2) by (auto simp: delete_feature_config_def split: if_splits)
  show ?thesis
  proof (rule ok_step_same [OF assms(1)])
    show "tb_models tb' = tb_models tb" by (simp add: tb')
    show "distinct (map cf_id (tb_configs tb'))" using assms(1) by (simp add: tb' tables_ok_def distinct_map_filter)
    fix m k
    assume m: "m \<in> set (tb_models tb)" "mm_config m = Some k"
    then have "k \<noteq> i" using bound_by_mem [OF m] free by auto
    then show "config_inputs tb' k = config_inputs tb k"
      by (simp add: config_inputs_def get_feature_config_by_id_def tb' find_filter_same)
  qed
qed

lemma keeps_models_trans:
  assumes "keeps_models a b" "keeps_models b d"
  shows "keeps_models a d"
  unfolding keeps_models_def
proof
  fix m
  assume "m \<in> set (tb_models a)"
  then obtain m1 where m1: "m1 \<in> set (tb_models b)" "same_model m m1" "\<forall>k. mm_config m = Some k \<longrightarrow> config_inputs b k = config_inputs a k"
    using assms(1) unfolding keeps_models_def by blast
  obtain m2 where m2: "m2 \<in> set (tb_models d)" "same_model m1 m2" "\<forall>k. mm_config m1 = Some k \<longrightarrow> config_inputs d k = config_inputs b k"
    using assms(2) m1(1) unfolding keeps_models_def by blast
  have "mm_config m1 = mm_config m" using same_model_columns [OF m1(2)] by blast
  then show "\<exists>m' \<in> set (tb_models d). same_model m m' \<and> (\<forall>k. mm_config m = Some k \<longrightarrow> config_inputs d k = config_inputs a k)"
    using m1(3) m2 same_model_trans [OF m1(2) m2(2)] by (intro bexI [of _ m2]) auto
qed

lemma keeps_models_refl: "keeps_models a a"
  unfolding keeps_models_def using same_model_refl by blast

lemma ml_history_ok:
  "ml_history c h \<Longrightarrow> h \<noteq> [] \<and> tables_ok c (hd h) \<and> (\<forall>old \<in> set h. keeps_models old (hd h))"
proof (induction rule: ml_history.induct)
  case (fresh tb)
  then show ?case by (simp add: tables_ok_def keeps_models_refl)
next
  case (registering tb h seen env i q reason answer tb')
  then have "ok_step c tb tb'" using ok_step_register by simp
  then show ?case using registering.IH keeps_models_trans keeps_models_refl unfolding ok_step_def by auto
next
  case (deploying tb h seen later x denv i target)
  then have "ok_step c tb (apply_write x tb)" using ok_step_write by simp
  then show ?case using deploying.IH keeps_models_trans keeps_models_refl unfolding ok_step_def by auto
next
  case (deleting tb h seen x i)
  then have "ok_step c tb (apply_write x tb)" using ok_step_write by simp
  then show ?case using deleting.IH keeps_models_trans keeps_models_refl unfolding ok_step_def by auto
next
  case (creating_config tb h reg row r tb')
  then have "ok_step c tb tb'" using ok_step_create_config by simp
  then show ?case using creating_config.IH keeps_models_trans keeps_models_refl unfolding ok_step_def by auto
next
  case (updating_config tb h reg k u r tb')
  then have "ok_step c tb tb'" using ok_step_update_config by simp
  then show ?case using updating_config.IH keeps_models_trans keeps_models_refl unfolding ok_step_def by auto
next
  case (deleting_config tb h k d tb')
  then have "ok_step c tb tb'" using ok_step_delete_config by simp
  then show ?case using deleting_config.IH keeps_models_trans keeps_models_refl unfolding ok_step_def by auto
next
  case (sensors_change tb h ss)
  then have "tables_ok c tb" by simp
  then have "ok_step c tb (tb \<lparr>tb_sensors := ss\<rparr>)"
    by (rule ok_step_same) (auto simp: tables_ok_def config_inputs_def get_feature_config_by_id_def \<open>tables_ok c tb\<close> [unfolded tables_ok_def])
  then show ?case using sensors_change.IH keeps_models_trans keeps_models_refl unfolding ok_step_def by auto
qed

text \<open>
  C15. Over every interleaving of registrations, promotions, deployments that stop anywhere, deletions and edits of
  configurations: a model, once registered, stays, with the address, the provenance, the detector and the configuration it
  was registered with; the configuration it is bound to exists and keeps the sensors and transformations it had at every
  earlier moment since; no two models share an id or a name and version; and each passed the registration gate for its
  tenant, so its address is the tenant's own and its detector was chosen by what the model declared.
\<close>

theorem registered_model_fixed:
  assumes "ml_history c (tb # h)" "old \<in> set (tb # h)" "m \<in> set (tb_models old)"
  shows "distinct (map mm_id (tb_models tb)) \<and> distinct (map (\<lambda>m. (mm_name m, mm_version m)) (tb_models tb)) \<and>
    (\<exists>m' \<in> set (tb_models tb). mm_id m' = mm_id m \<and> mm_run m' = mm_run m \<and> mm_uri m' = mm_uri m \<and> mm_provenance m' = mm_provenance m \<and>
       mm_detector m' = mm_detector m \<and> mm_config m' = mm_config m \<and> mm_sensor_ids m' = mm_sensor_ids m \<and>
       (\<forall>k. mm_config m = Some k \<longrightarrow> config_inputs tb k = config_inputs old k \<and> config_inputs tb k \<noteq> None) \<and>
       (\<exists>(env :: py_model gate_env) semantics m0. registered_ok env c semantics m0 \<and> same_model m0 m' \<and>
          owns_address (ge_admit env) c (mm_run m') (mm_uri m')))"
proof -
  have ok: "tables_ok c tb" and keep: "keeps_models old tb" using ml_history_ok [OF assms(1)] assms(2) by auto
  obtain m' where m': "m' \<in> set (tb_models tb)" "same_model m m'" "\<forall>k. mm_config m = Some k \<longrightarrow> config_inputs tb k = config_inputs old k"
    using keep assms(3) unfolding keeps_models_def by blast
  note col = same_model_columns [OF m'(2)]
  obtain env :: "py_model gate_env" and semantics m0 where r: "registered_ok env c semantics m0" "same_model m0 m'"
    using ok m'(1) unfolding tables_ok_def by blast
  have "owns_address (ge_admit env) c (mm_run m') (mm_uri m')"
    using r(1) same_model_columns [OF r(2)] unfolding registered_ok_def by simp
  then have reg: "\<exists>(env :: py_model gate_env) semantics m0. registered_ok env c semantics m0 \<and> same_model m0 m' \<and>
          owns_address (ge_admit env) c (mm_run m') (mm_uri m')" using r by blast
  have cfg: "\<forall>k. mm_config m = Some k \<longrightarrow> config_inputs tb k = config_inputs old k \<and> config_inputs tb k \<noteq> None"
    using ok m'(1,3) col unfolding tables_ok_def by metis
  show ?thesis
    using ok m'(1) col cfg reg unfolding tables_ok_def by (intro conjI bexI [of _ m']) blast+
qed

section \<open>A model of tenant A\<close>

definition gate_copy :: "py_model copy" where
  "gate_copy = \<lparr>cp_flavors = cp_flavors demo_copy, cp_inside = (\<lambda>_. True), cp_file = cp_file demo_copy,
     cp_skops = (\<lambda>_ _. Some demo_model), cp_xgboost = (\<lambda>_ _. None)\<rparr>"

definition gate_serving :: "py_model serving" where
  "gate_serving = \<lparr>sv_bucket = ''mlflow'', sv_run = sv_run demo_serving, sv_logged = sv_logged demo_serving,
     sv_download = (\<lambda>u. if u = ''models:/m-2'' then Some gate_copy else None)\<rparr>"

definition demo_gate_env :: "py_model gate_env" where
  "demo_gate_env = \<lparr>ge_admit = gate_serving, ge_manifest_store = gate_serving,
     ge_manifest = (\<lambda>u. if u = ''models:/m-2'' then Some (cp_flavors demo_copy) else None), ge_compat_store = gate_serving,
     ge_declared = (\<lambda>u. Some (Some ''mlflow.sklearn'', [''numpy==1.26.1'', ''scikit-learn==1.5.2''])), ge_installed = demo_installed,
     ge_detectors = builtin_detectors\<rparr>"

definition gate_request :: model_request where
  "gate_request = \<lparr>mq_name = ''pump'', mq_version = ''3.1'', mq_run = Some ''run1'', mq_uri = None, mq_semantics = None, mq_detector = None,
     mq_status = ''training'', mq_config = Some ''cf1'', mq_equipment = None, mq_sensor_ids = None, mq_profile = None, mq_metrics = None,
     mq_provenance = [], mq_compat = None\<rparr>"

definition gate_tables :: ml_tables where
  "gate_tables = \<lparr>tb_models = [], tb_configs = [\<lparr>cf_id = ''cf1'', cf_equipment_type = ''pump'', cf_name = ''v1'', cf_description = None,
     cf_inputs = demo_config\<rparr>], tb_sensors = []\<rparr>"

definition gate_model :: ml_model where
  "gate_model = \<lparr>mm_id = ''id1'', mm_name = ''pump'', mm_version = 3, mm_run = Some ''run1'', mm_uri = None, mm_provenance = Some ''kernel'',
     mm_detector = Some ''sklearn'', mm_config = Some ''cf1'', mm_equipment = None, mm_sensor_ids = None, mm_profile = None, mm_metrics = [],
     mm_compat = Some PATCH_DRIFT, mm_status = ''training''\<rparr>"

definition gate_tables1 :: ml_tables where
  "gate_tables1 = gate_tables \<lparr>tb_models := [gate_model]\<rparr>"

lemma gate_registers: "register_model demo_gate_env gate_tables uuid_a ''id1'' gate_request None gate_tables = (Inr ''id1'', gate_tables1)"
  by code_simp

theorem registration_gate_witness:
  "\<exists>m. register_model demo_gate_env gate_tables uuid_a ''id1'' gate_request None gate_tables =
      (Inr ''id1'', gate_tables \<lparr>tb_models := tb_models gate_tables @ [m]\<rparr>) \<and> registered_ok demo_gate_env uuid_a None m \<and> mm_status m = ''training''"
proof -
  have "\<exists>m. gate_tables1 = gate_tables \<lparr>tb_models := tb_models gate_tables @ [m]\<rparr> \<and> registered_ok demo_gate_env uuid_a (mq_semantics gate_request) m \<and>
      mm_status m = mq_status gate_request"
    using registration_gate [OF gate_registers] by blast
  then show ?thesis using gate_registers by (auto simp: gate_request_def)
qed

definition gate_deploy :: deploy_env where
  "gate_deploy = \<lparr>de_gate = demo_gate_env, de_transforms = builtin_transforms, de_world = demo_world, de_has_provider = True, de_provider = demo_provider,
     de_enabled = (\<lambda>_. True), de_probe = (\<lambda>_ _. ProbeNotRun), de_serving = gate_serving, de_cache = [], de_fn = (\<lambda>n. builtin_detector_fns ! n),
     de_exp = demo_exp, de_now = ''now''\<rparr>"

lemma gate_deploys:
  "deploy_model gate_deploy gate_tables1 gate_tables1 uuid_a ''id1'' ''production'' = (Inr (), [SetCompat ''id1'' PATCH_DRIFT, SetStatus ''id1'' ''production''])"
  by code_simp


definition gate_tables2 :: ml_tables where
  "gate_tables2 = apply_write (SetStatus ''id1'' ''production'') gate_tables1"

lemma gate_history: "ml_history uuid_a [gate_tables2, gate_tables1, gate_tables]"
proof -
  have "ml_history uuid_a [gate_tables]" by (rule ml_history.fresh) (simp_all add: gate_tables_def)
  then have h: "ml_history uuid_a [gate_tables1, gate_tables]" by (rule ml_history.registering [OF _ _ gate_registers]) simp
  show ?thesis unfolding gate_tables2_def
    by (rule ml_history.deploying [OF h, of gate_tables1 gate_tables1 _ gate_deploy "''id1''" "''production''"]) (simp_all add: gate_deploys)
qed

theorem registered_model_fixed_witness:
  "ml_history uuid_a [gate_tables2, gate_tables1, gate_tables] \<and> get_model_by_id gate_tables2 ''id1'' = Some (gate_model \<lparr>mm_status := ''production''\<rparr>) \<and>
   config_inputs gate_tables2 ''cf1'' = config_inputs gate_tables1 ''cf1'' \<and> config_inputs gate_tables2 ''cf1'' \<noteq> None"
proof -
  have m: "gate_model \<in> set (tb_models gate_tables1)" "gate_tables1 \<in> set [gate_tables2, gate_tables1, gate_tables]" by (simp_all add: gate_tables1_def)
  have c: "mm_config gate_model = Some ''cf1''" by (simp add: gate_model_def)
  have "config_inputs gate_tables2 ''cf1'' = config_inputs gate_tables1 ''cf1'' \<and> config_inputs gate_tables2 ''cf1'' \<noteq> None"
    using registered_model_fixed [OF gate_history m(2,1)] c by blast
  moreover have "get_model_by_id gate_tables2 ''id1'' = Some (gate_model \<lparr>mm_status := ''production''\<rparr>)" by code_simp
  ultimately show ?thesis using gate_history by blast
qed

end
