(* ===== verification/Model_Scoring.thy ===== *)
theory Model_Scoring
  imports Model_Admission
begin

text \<open>
  A score (\<open>predict\<close> of \<open>services/ml_service/api/routers/inference.py\<close>), from the model's record to the answer: what the
  registration and deployment gates, the loader, the feature engine and the detectors each contribute.
\<close>

section \<open>The endpoint\<close>

definition detector_for :: "detectors \<Rightarrow> ml_model \<Rightarrow> http_error + detector" where
  "detector_for reg m =
     (if \<not> given (mm_detector m) then Inl (HTTPException 422 ''records no detector'')
      else case get_detector reg (the (mm_detector m)) of
             None \<Rightarrow> Inl (HTTPException 500 ''Unknown anomaly detector'')
           | Some d \<Rightarrow> Inr d)"

record InferenceResponse =
  ir_model_id :: string
  ir_prediction :: py_float
  ir_is_anomaly :: bool
  ir_threshold :: py_float
  ir_model_version :: string
  ir_degraded :: bool
  ir_neutralized :: "string list option"

text \<open>The answer is validated as it is built: a name that is no text fails the request.\<close>

definition inference_response :: "string \<Rightarrow> py_float \<Rightarrow> ml_model \<Rightarrow> DetectionResult \<Rightarrow> json list \<Rightarrow> http_error + InferenceResponse" where
  "inference_response model_id threshold m v neutralized =
     (if list_ex no_text neutralized then Inl (HTTPException 500 ''Inference failed'')
      else Inr \<lparr>ir_model_id = model_id, ir_prediction = dr_score v, ir_is_anomaly = dr_is_anomaly v, ir_threshold = threshold,
                ir_model_version = py_str (JInt (mm_version m)), ir_degraded = (neutralized \<noteq> []),
                ir_neutralized = (if neutralized = [] then None else Some (map text_of neutralized))\<rparr>)"

text \<open>The slots an answer names.\<close>

definition named_slots :: "InferenceResponse \<Rightarrow> json list" where
  "named_slots r = (case ir_neutralized r of None \<Rightarrow> [] | Some names \<Rightarrow> map JStr names)"

lemma inference_response_names:
  assumes "inference_response i threshold m v ns = Inr r"
  shows "named_slots r = ns \<and> (ir_degraded r \<longleftrightarrow> ns \<noteq> []) \<and> ir_prediction r = dr_score v \<and> ir_is_anomaly r = dr_is_anomaly v \<and>
    ir_model_id r = i \<and> ir_threshold r = threshold"
proof -
  have "\<not> no_text j \<Longrightarrow> JStr (text_of j) = j" for j by (cases j) (auto simp: text_of_def)
  moreover have "\<not> list_ex no_text ns" using assms by (auto simp: inference_response_def split: if_splits)
  ultimately have "map (JStr \<circ> text_of) ns = ns" by (intro map_idI) (auto simp: list_ex_iff)
  then show ?thesis using assms by (auto simp: inference_response_def named_slots_def split: if_splits)
qed

definition feature_answer :: "feature_error \<Rightarrow> http_error" where
  "feature_answer e = (if feature_refused e then HTTPException 422 ''no honest input'' else HTTPException 500 ''Inference failed'')"

text \<open>The features of the reading, through the model's configuration; \<open>later\<close> are the tables when it is read.\<close>

definition predict_features :: "deploy_env \<Rightarrow> ml_tables \<Rightarrow> string \<Rightarrow> ml_model \<Rightarrow> jobject \<Rightarrow> http_error + feature_vector" where
  "predict_features env later company_id m sensor_data =
     (if \<not> given (mm_config m) then Inl (HTTPException 400 ''Model has no feature_config_id'')
      else case get_feature_config_by_id later (the (mm_config m)) of
             None \<Rightarrow> Inl (HTTPException 404 ''Feature config not found'')
           | Some cf \<Rightarrow>
               (case new_engine (de_transforms env) (cf_inputs cf) (model_context env company_id (jget sensor_data ''equipment_id'')) of
                  Inl e \<Rightarrow> Inl (feature_answer e)
                | Inr en \<Rightarrow>
                    (case fst (engine_transform (de_world env) (de_transforms env) en (de_enabled env 0) sensor_data (de_provider env)) of
                       Inl e \<Rightarrow> Inl (feature_answer e)
                     | Inr fv \<Rightarrow> Inr fv)))"

definition predict ::
    "deploy_env \<Rightarrow> ml_tables \<Rightarrow> ml_tables \<Rightarrow> string \<Rightarrow> string \<Rightarrow> jobject \<Rightarrow> py_float \<Rightarrow> http_error + InferenceResponse" where
  "predict env seen later company_id model_id sensor_data threshold =
     (case get_model_by_id seen model_id of
        None \<Rightarrow> Inl (HTTPException 404 ''Model not found'')
      | Some m \<Rightarrow>
          if mm_status m \<notin> {''production'', ''active''} then Inl (HTTPException 400 ''Only production or active models'')
          else (case detector_for (ge_detectors (de_gate env)) m of
                  Inl e \<Rightarrow> Inl e
                | Inr d \<Rightarrow>
                    (case load_model_or_refuse (de_serving env) (de_cache env) company_id m of
                       Inl code \<Rightarrow> Inl (HTTPException code ''not loaded'')
                     | Inr l \<Rightarrow>
                         (case predict_features env later company_id m sensor_data of
                            Inl e \<Rightarrow> Inl e
                          | Inr fv \<Rightarrow>
                              (case de_fn env (dt_fn d) (de_exp env) (fv_features fv) (model_of l) threshold
                                      (jget (mm_metrics m) ''reconstruction_scale'') of
                                 Inl UninterpretableModel \<Rightarrow> Inl (HTTPException 422 ''cannot be interpreted as an anomaly score'')
                               | Inl DetectorRaised \<Rightarrow> Inl (HTTPException 500 ''Inference failed'')
                               | Inr r \<Rightarrow> inference_response model_id threshold m r (fv_neutralized fv @ fv_unavailable fv))))))"

section \<open>What a score rests on\<close>



lemma predict_features_engine:
  assumes "predict_features env later c m sensor_data = Inr fv"
  shows "\<exists>cf en pv'. given (mm_config m) \<and> get_feature_config_by_id later (the (mm_config m)) = Some cf \<and>
    new_engine (de_transforms env) (cf_inputs cf) (model_context env c (jget sensor_data ''equipment_id'')) = Inr en \<and>
    engine_transform (de_world env) (de_transforms env) en (de_enabled env 0) sensor_data (de_provider env) = (Inr fv, pv')"
proof -
  have g: "given (mm_config m)" using assms by (auto simp: predict_features_def split: if_splits)
  obtain cf where cf: "get_feature_config_by_id later (the (mm_config m)) = Some cf"
    using assms g by (auto simp: predict_features_def split: option.splits)
  obtain en where en: "new_engine (de_transforms env) (cf_inputs cf) (model_context env c (jget sensor_data ''equipment_id'')) = Inr en"
    using assms g cf by (auto simp: predict_features_def split: sum.splits)
  have "fst (engine_transform (de_world env) (de_transforms env) en (de_enabled env 0) sensor_data (de_provider env)) = Inr fv"
    using assms g cf en by (auto simp: predict_features_def split: sum.splits)
  then have "engine_transform (de_world env) (de_transforms env) en (de_enabled env 0) sensor_data (de_provider env) =
      (Inr fv, snd (engine_transform (de_world env) (de_transforms env) en (de_enabled env 0) sensor_data (de_provider env)))"
    by (metis prod.collapse)
  then show ?thesis using g cf en by blast
qed

lemma predict_split:
  assumes "predict env seen later c i sensor_data threshold = Inr r"
  shows "\<exists>m d l fv v. get_model_by_id seen i = Some m \<and> mm_status m \<in> {''production'', ''active''} \<and>
    given (mm_detector m) \<and> get_detector (ge_detectors (de_gate env)) (the (mm_detector m)) = Some d \<and>
    load_model_for (de_serving env) (de_cache env) c (mm_run m) (mm_uri m) (record_provenance m) = Inr l \<and>
    predict_features env later c m sensor_data = Inr fv \<and>
    de_fn env (dt_fn d) (de_exp env) (fv_features fv) (model_of l) threshold (jget (mm_metrics m) ''reconstruction_scale'') = Inr v \<and>
    inference_response i threshold m v (fv_neutralized fv @ fv_unavailable fv) = Inr r"
proof -
  obtain m where m: "get_model_by_id seen i = Some m" "mm_status m \<in> {''production'', ''active''}"
    using assms by (auto simp: predict_def split: option.splits if_splits)
  obtain d where d: "detector_for (ge_detectors (de_gate env)) m = Inr d"
    using assms m unfolding predict_def by (cases "detector_for (ge_detectors (de_gate env)) m") auto
  obtain l where l: "load_model_or_refuse (de_serving env) (de_cache env) c m = Inr l"
    using assms m d unfolding predict_def by (cases "load_model_or_refuse (de_serving env) (de_cache env) c m") auto
  obtain fv where fv: "predict_features env later c m sensor_data = Inr fv"
    using assms m d l unfolding predict_def by (cases "predict_features env later c m sensor_data") auto
  let ?v = "de_fn env (dt_fn d) (de_exp env) (fv_features fv) (model_of l) threshold (jget (mm_metrics m) ''reconstruction_scale'')"
  have p: "(case ?v of
       Inl UninterpretableModel \<Rightarrow> Inl (HTTPException 422 ''cannot be interpreted as an anomaly score'')
     | Inl DetectorRaised \<Rightarrow> Inl (HTTPException 500 ''Inference failed'')
     | Inr v \<Rightarrow> inference_response i threshold m v (fv_neutralized fv @ fv_unavailable fv)) = Inr r"
    using assms m d l fv unfolding predict_def by auto
  obtain v where v: "?v = Inr v" using p by (cases ?v) (auto split: detector_error.splits)
  have r: "inference_response i threshold m v (fv_neutralized fv @ fv_unavailable fv) = Inr r"
    using p v by simp
  have dd: "given (mm_detector m)" "get_detector (ge_detectors (de_gate env)) (the (mm_detector m)) = Some d"
    using d by (auto simp: detector_for_def split: if_splits option.splits)
  have "load_model_for (de_serving env) (de_cache env) c (mm_run m) (mm_uri m) (record_provenance m) = Inr l"
    using l by (auto simp: load_model_or_refuse_def split: sum.splits model_error.splits)
  then show ?thesis using m dd fv v r by blast
qed

lemma recorded_provenance:
  assumes "ml_history c (tb # h)" "m \<in> set (tb_models tb)"
  shows "record_provenance m \<in> {PROVENANCE_KERNEL, PROVENANCE_UPLOADED}"
proof -
  have "tables_ok c tb" using ml_history_ok [OF assms(1)] by simp
  then obtain env :: "py_model gate_env" and semantics m0 where r: "registered_ok env c semantics m0" "same_model m0 m"
    using assms(2) unfolding tables_ok_def by blast
  have "mm_provenance m = Some (provenance_of (mm_run m0))" using r(1) same_model_columns [OF r(2)] unfolding registered_ok_def by simp
  then show ?thesis by (auto simp: record_provenance_def given_def provenance_of_def PROVENANCE_KERNEL_def PROVENANCE_UPLOADED_def)
qed

text \<open>
  C14. However the tenant's tables came about, a score is answered only for a model of them that is in a serving state, with the model loaded for that
  tenant, provenance and address by a load that found the address to be the tenant's own and the manifest data-only, with
  the detector the record names, on features computed from a complete reading by the transforms of the model's own
  configuration. Every slot that was not computed is named in the answer. A detector of the platform answers a number from
  0 to 1, and an anomaly exactly when it reaches the threshold.
\<close>

theorem score_rests_on_record:
  assumes "predict env seen later c i sensor_data threshold = Inr r"
    and "cache_reach max_entries (de_cache env) L" "0 < max_entries" "canonical_company_id c = Inr c"
    and "ml_history c (seen # h)"
  shows "\<exists>m d l cf (fv :: feature_vector) sv run uri. m \<in> set (tb_models seen) \<and> mm_id m = i \<and> mm_status m \<in> {''production'', ''active''} \<and>
    model_load sv c run uri (record_provenance m) = Inr l \<and> model_address run uri = model_address (mm_run m) (mm_uri m) \<and> owns_address sv c run uri \<and>
    od_get (ge_detectors (de_gate env)) (the (mm_detector m)) = Some d \<and>
    get_feature_config_by_id later (the (mm_config m)) = Some cf \<and>
    (\<forall>s \<in> set (fc_base_sensors (cf_inputs cf)). finite_value (jget sensor_data s) \<noteq> None) \<and>
    length (fv_features fv) = length (fc_transformations (cf_inputs cf)) \<and>
    (\<forall>j < length (fc_transformations (cf_inputs cf)).
       slot_from (de_world env) (de_transforms env) (model_context env c (jget sensor_data ''equipment_id'')) sensor_data (de_enabled env 0)
         (fc_transformations (cf_inputs cf) ! j) (fv_features fv ! j) (fv_neutralized fv) (fv_unavailable fv)) \<and>
    res_map dr_score (de_fn env (dt_fn d) (de_exp env) (fv_features fv) (model_of l) threshold (jget (mm_metrics m) ''reconstruction_scale'')) = Inr (ir_prediction r) \<and>
    ir_model_id r = i \<and> named_slots r = fv_neutralized fv @ fv_unavailable fv \<and> (ir_degraded r \<longleftrightarrow> named_slots r \<noteq> []) \<and>
    (de_fn env (dt_fn d) \<in> set builtin_detector_fns \<longrightarrow>
       (\<exists>q. ir_prediction r = Fin q \<and> 0 \<le> q \<and> q \<le> 1) \<and> ir_is_anomaly r = float_le threshold (ir_prediction r))"
proof -
  obtain m d l fv v where m: "get_model_by_id seen i = Some m" "mm_status m \<in> {''production'', ''active''}"
    and d: "get_detector (ge_detectors (de_gate env)) (the (mm_detector m)) = Some d"
    and l: "load_model_for (de_serving env) (de_cache env) c (mm_run m) (mm_uri m) (record_provenance m) = Inr l"
    and f: "predict_features env later c m sensor_data = Inr fv"
    and v: "de_fn env (dt_fn d) (de_exp env) (fv_features fv) (model_of l) threshold (jget (mm_metrics m) ''reconstruction_scale'') = Inr v"
    and r: "inference_response i threshold m v (fv_neutralized fv @ fv_unavailable fv) = Inr r"
    using predict_split [OF assms(1)] by blast
  have mem: "m \<in> set (tb_models seen)" "mm_id m = i" using find_id [OF m(1) [unfolded get_model_by_id_def]] by simp_all
  then have prov: "record_provenance m \<in> {PROVENANCE_KERNEL, PROVENANCE_UPLOADED}"
    by (intro recorded_provenance [OF assms(5)])
  obtain sv run uri where load: "model_load sv c run uri (record_provenance m) = Inr l" "model_address run uri = model_address (mm_run m) (mm_uri m)"
    using load_model_for_loaded [OF assms(2,3,4) prov l] unfolding loaded_for_def by blast
  have own: "owns_address sv c run uri" using model_load_owned [OF load(1)] by blast
  obtain cf en pv' where cf: "get_feature_config_by_id later (the (mm_config m)) = Some cf"
    and en: "new_engine (de_transforms env) (cf_inputs cf) (model_context env c (jget sensor_data ''equipment_id'')) = Inr en"
    and tr: "engine_transform (de_world env) (de_transforms env) en (de_enabled env 0) sensor_data (de_provider env) = (Inr fv, pv')"
    using predict_features_engine [OF f] by blast
  note n = inference_response_names [OF r]
  note honest = engine_vector_honest [OF en tr]
  have verd: "(\<exists>q. ir_prediction r = Fin q \<and> 0 \<le> q \<and> q \<le> 1) \<and> ir_is_anomaly r = float_le threshold (ir_prediction r)"
    if "de_fn env (dt_fn d) \<in> set builtin_detector_fns"
  proof -
    have "verdict threshold v"
      by (rule builtin_verdict [of "de_fn env (dt_fn d)" "de_exp env" "fv_features fv" "model_of l" threshold "jget (mm_metrics m) ''reconstruction_scale''"])
        (fact that, fact v)
    then show ?thesis using n unfolding verdict_def by simp
  qed
  have o: "od_get (ge_detectors (de_gate env)) (the (mm_detector m)) = Some d" using d by (simp add: get_detector_def)
  have s: "res_map dr_score (de_fn env (dt_fn d) (de_exp env) (fv_features fv) (model_of l) threshold (jget (mm_metrics m) ''reconstruction_scale'')) = Inr (ir_prediction r)"
    using v n by (simp add: res_map_def)
  have n': "ir_model_id r = i" "named_slots r = fv_neutralized fv @ fv_unavailable fv" "ir_degraded r \<longleftrightarrow> named_slots r \<noteq> []" using n by simp_all
  note h = honest [THEN conjunct1] honest [THEN conjunct2, THEN conjunct2, THEN conjunct1]
    honest [THEN conjunct2, THEN conjunct2, THEN conjunct2, THEN conjunct1]
  show ?thesis
    by (rule exI [of _ m], rule exI [of _ d], rule exI [of _ l], rule exI [of _ cf], rule exI [of _ fv], rule exI [of _ sv], rule exI [of _ run], rule exI [of _ uri])
      (intro conjI mem m(2) load own o cf s n' h impI verd [THEN conjunct1] verd [THEN conjunct2]; assumption)
qed

text \<open>The model of tenant A, in production, and a complete reading.\<close>

definition score_reading :: jobject where
  "score_reading = [(''equipment_id'', JStr uuid_b), (''temp'', JInt 72)]"

theorem score_rests_on_record_witness:
  "\<exists>r m (fv :: feature_vector). predict gate_deploy gate_tables2 gate_tables2 uuid_a ''id1'' score_reading (Fin (85 / 100)) = Inr r \<and>
     m \<in> set (tb_models gate_tables2) \<and> mm_status m \<in> {''production'', ''active''} \<and> length (fv_features fv) = 2 \<and>
     named_slots r = fv_neutralized fv @ fv_unavailable fv \<and> ir_prediction r = Fin (9 / 10) \<and> ir_is_anomaly r \<and> \<not> ir_degraded r"
proof -
  let ?r = "\<lparr>ir_model_id = ''id1'', ir_prediction = Fin (9 / 10), ir_is_anomaly = True, ir_threshold = Fin (85 / 100),
    ir_model_version = ''3'', ir_degraded = False, ir_neutralized = None\<rparr>"
  have p: "predict gate_deploy gate_tables2 gate_tables2 uuid_a ''id1'' score_reading (Fin (85 / 100)) = Inr ?r" by code_simp
  have c: "cache_reach 1 (de_cache gate_deploy) {}" by (simp add: gate_deploy_def cache_reach.cold)
  have models: "tb_models gate_tables2 = [gate_model \<lparr>mm_status := ''production''\<rparr>]" by code_simp
  have canon: "canonical_company_id uuid_a = Inr uuid_a" by simp
  from score_rests_on_record [OF p c zero_less_one canon gate_history] obtain m cf and fv :: feature_vector
    where m: "m \<in> set (tb_models gate_tables2)" "mm_status m \<in> {''production'', ''active''}"
      and cf: "get_feature_config_by_id gate_tables2 (the (mm_config m)) = Some cf" "length (fv_features fv) = length (fc_transformations (cf_inputs cf))"
      and n: "named_slots ?r = fv_neutralized fv @ fv_unavailable fv"
    by (elim exE conjE) (rule that, assumption+)
  have "mm_config m = Some ''cf1''" using m(1) unfolding models by (simp add: gate_model_def)
  moreover have "map_option (length \<circ> fc_transformations \<circ> cf_inputs) (get_feature_config_by_id gate_tables2 ''cf1'') = Some 2" by code_simp
  ultimately have "length (fv_features fv) = 2" using cf by simp
  then show ?thesis using p m n by (intro exI [of _ ?r] exI [of _ m] exI [of _ fv] conjI) simp_all
qed

end
