(* ===== verification/Spec2Isabelle.thy ===== *)
theory Spec2Isabelle
  imports Windows Ingestion Auth_Tokens Uploads Alert_Dedup Alert_Consumer Sql_Confinement
    Deletion_Order Tenant_Purge Audit_Record Cold_Drain Model_Scoring
begin

text \<open>
  IndustryFlow is a multi-tenant platform for sensor data: devices send readings through an ingestion
  service into a broker, an alert worker evaluates them against each tenant's rules, a gateway serves
  people, and notebooks reach the platform's data planes with capability handles. What every part depends
  on is that a request is bound to one tenant and stays bound to it, that a session or a handle that has
  ended is refused from then on, and that nothing is lost or repeated where several processes share a
  table or a topic. This development models those parts and proves those properties.

  \<^bold>\<open>Contracts\<close> (\<open>libs/industryflow_contracts\<close>). \<open>Uuid\<close> and \<open>Tenancy\<close> model \<open>tenancy.py\<close>: every name
  derived from a tenant's id, and the tests of ownership; prefixes of two tenants never overlap. \<open>Windows\<close> models
  \<open>windows.py\<close> and the Spark job's table of them. \<open>Sessions\<close> models \<open>sessions.py\<close>, the ended-session
  record every verifier reads. \<open>Capability_Audit\<close> models \<open>capability_audit.py\<close>: the events, their decoding,
  and the four Lua scripts that record each use once, repeats with their count, and a bounded number of unknown
  values. \<open>Tenant_Status\<close> models \<open>tenant_status.py\<close> with its publisher and its follower: after one round
  of the publisher the follower answers as the registry does.

  \<^bold>\<open>The shared store.\<close> \<open>Redis\<close> is the key-value store the services share: a record of the commands they
  issue over an arbitrary type of states, and the locale \<open>redis\<close> with the documented behaviour of those commands,
  expiry included. It is interpreted on an executable store, on which every witness is evaluated. Each property
  that needs the laws assumes the locale's predicate and nothing else of the store.

  \<^bold>\<open>People\<close> (\<open>services/api_gateway\<close>). \<open>Company_Status\<close> is \<open>company_status.py\<close>; \<open>Refresh_Tokens\<close>
  \<open>messaging/refresh_tokens.py\<close>; \<open>Sign_In\<close> \<open>sign_in_throttle.py\<close>; \<open>Users\<close> \<open>users.py\<close>; \<open>Auth_Tokens\<close>
  \<open>routers/auth_tokens.py\<close>. Shown: exactly which access tokens admit a request, that a refresh token is claimed
  once, that its reuse, a logout or a change of credentials ends the session everywhere, and how sign-in is throttled.

  \<^bold>\<open>Capabilities.\<close> \<open>Verifiers\<close> models the resolution of a handle at the five planes
  (\<open>capability_auth.py\<close>, \<open>notebook_sql_proxy/binding.py\<close>, \<open>notebook_cold_broker/policy.py\<close>,
  \<open>notebook_tracking_gateway/policy.py\<close>) behind the locale \<open>verifier\<close>; \<open>Capabilities\<close> minting, refresh and
  revocation (\<open>notebook_hub/capabilities.py\<close>, \<open>ml_service/api/upload_capability.py\<close>).

  \<^bold>\<open>Planes.\<close> \<open>Tracking_Names\<close> and \<open>Tracking_Gateway\<close> model the tracking gateway (\<open>routes.py\<close>,
  \<open>scoping.py\<close>, \<open>policy.py\<close>, \<open>gateway.py\<close>): a request is forwarded only with everything it names owned by
  the caller's tenant, and a response shows no other tenant's names. \<open>Uploads\<close> models \<open>staging.py\<close>,
  \<open>admission.py\<close> and the upload endpoints against an object store others write to. \<open>Sql_Wire\<close>,
  \<open>Sql_Scram\<close> and \<open>Sql_Proxy\<close> model the SQL proxy from the bytes up, \<open>Sql_Confinement\<close> proves what it
  promises of a kernel's bytes.

  \<^bold>\<open>Readings.\<close> \<open>Ingestion\<close> models \<open>services/ingestion_service\<close>. \<open>Alert_Rules\<close>, \<open>Feature_Store\<close> and
  \<open>Alert_Engine\<close> model the alert worker's \<open>rules_engine.py\<close>, \<open>feature_store.py\<close> and \<open>repository.py\<close>,
  \<open>Alert_Dedup\<close> what its deduplication guarantees over replicas and restarts, \<open>Alert_Consumer\<close>
  \<open>kafka_consumer.py\<close> with its commits, rewinds and dead letters.

  \<^bold>\<open>The record of capability use.\<close> \<open>Audit_Drain\<close> models the gateway's writer
  (\<open>messaging/capability_audit_drain.py\<close>) call by call, with the stream's consumer group and the record's functions in the
  database; \<open>Audit_Record\<close> proves that no entry is lost or recorded twice whatever fails, and that the stream drains.

  \<^bold>\<open>The cold layer.\<close> \<open>Cold_Export\<close> models \<open>services/cold_export\<close> with the database's checked drop. \<open>Cold_Archive\<close> holds the
  rules for its programs and the invariant of a day's archive, \<open>Cold_Runs\<close> proves that no run loses a reading, \<open>Cold_Drain\<close>
  that an undisturbed run leaves none behind, and the case of an old manifest in which readings are lost.

  \<^bold>\<open>Deletion of a tenant.\<close> \<open>Deletion_Job\<close> models \<open>services/tenant_delete/job.py\<close>, \<open>registry.py\<close>, the database functions
  it calls and the hub's \<open>reclaim.py\<close>; \<open>Deletion_Order\<close> proves, over runs that fail or die anywhere, that the
  database is emptied last. \<open>Tenant_Purge\<close> models the job's steps (\<open>capability_store.py\<close>, \<open>cold_store.py\<close>,
  \<open>tracking_store.py\<close>, \<open>device_certificates.py\<close>) and proves what each removes.

  \<^bold>\<open>The model service\<close> (\<open>services/ml_service/api\<close>). \<open>Model_Auth\<close> models \<open>auth.py\<close> and the tenant of a request.
  \<open>Model_Loading\<close> models how a model is addressed, admitted, loaded and kept warm (\<open>uploaded_model.py\<close>, \<open>skops_trust.py\<close>,
  \<open>model_uri.py\<close>, \<open>model_loader.py\<close>, \<open>model_cache.py\<close>) and the compatibility verdict (\<open>model_compat.py\<close>); \<open>Detectors\<close> the
  detectors (\<open>extensions/builtins_detectors.py\<close>); \<open>Feature_Engine\<close> the transforms, the baselines, the kill-switch and the
  engine (\<open>extensions\<close>, \<open>feature_engineering\<close>); \<open>Drift_Profile\<close> the drift baseline (\<open>drift/reference_profile.py\<close>).
  \<open>Model_Gates\<close> models the tables of a tenant, the registration and deployment gates with the isolated probe, and the
  feature configurations with the database's rules (\<open>repository.py\<close>, \<open>routers/models.py\<close>, \<open>load_probe.py\<close>,
  \<open>baseline_gate.py\<close>, \<open>routers/feature_configs.py\<close>). \<open>Model_Admission\<close> proves what the gates let through and that a
  registered model and its inputs stay fixed over every interleaving of requests; \<open>Model_Scoring\<close> models \<open>predict\<close>
  (\<open>routers/inference.py\<close>) and proves what a score rests on.

  \<^bold>\<open>Conventions.\<close> A definition carries the name of the function it models; a method carries its class's prefix
  where the name alone would clash. A raised exception is the left value of a sum. Clocks, random values, the
  answers of services and what other processes do between two steps are arguments, so a theorem holds for all of
  them. Python's text is \<^typ>\<open>string\<close>, for code points below 256; bytes are 8-bit words. Loops are structural or have
  a measure; the three that may not end (\<open>read_startup_from\<close>, \<open>free_pid\<close>, \<open>purge_cold_from\<close>) return an option, and
  a property shows that they do return. Polling loops range over the finite list of states they see.

  \<^bold>\<open>Not modelled.\<close> The web frontend, deployment files, database scripts and dashboards are not Python.
  The remaining routers of the gateway are queries against tables whose behaviour lies in the database, those of the
  model service shape answers of the tracking server or of a statistics library; the Spark jobs are expressions of the Spark library; the hub's configuration is a list of settings of
  JupyterHub. Process start-up, health endpoints and logging are left out everywhere.
\<close>

end
